(* ===== verification/Prelude.thy ===== *)
theory Prelude
  imports Complex_Main
begin

section \<open>Shared results, tables and collections\<close>

text \<open>
  What the components share: Python exceptions as the left side of a sum, the
  sequencing of calls that may raise, the keyed tables the Django models live in
  (a list of rows with a primary key), and the collections of lemmas the
  component theories put their facts in.
\<close>

subsection \<open>Exceptions as values\<close>

text \<open>
  The exception classes the modelled code raises or catches; \<open>HostawayNetwork\<close> also stands for its
  subclass \<open>HostawayTimeoutError\<close>, \<open>TransportError\<close> for the exceptions of the HTTP library that are
  neither a timeout nor a network error. The string is a key
  for the message (the messages themselves are Arabic or English prose).
  \<open>DecimalError\<close> is \<open>decimal.InvalidOperation\<close> or \<open>decimal.DivisionByZero\<close>,
  \<open>IntegrityError\<close> a violated database constraint, \<open>DoesNotExist\<close> a failed
  \<open>objects.get\<close>.
\<close>

datatype exc =
    ValueError string
  | ValidationError string
  | PermissionDenied string
  | CurrencyError string
  | UnsupportedCurrency string
  | RateUnavailable string
  | RateResponse string
  | HostawayResponse string
  | HostawayAvailability string
  | HostawayConfiguration string
  | HostawayNetwork string
  | HostawayAuthentication string
  | HostawayNotFound string
  | HostawayRateLimit string
  | HostawayServer string
  | HyperPayRefund string
  | HyperPayVerification string
  | HyperPayConnection string
  | HyperPayAuthentication string
  | HyperPayConfiguration string
  | HyperPayResponse string
  | TransportError string
  | HyperPayCheckout string
  | DecimalError string
  | IntegrityError string
  | DoesNotExist string
  | KeyError string
  | TypeError string
  | OverflowError string

type_synonym 'a res = "exc + 'a"

named_theorems result_simps \<open>rewrite rules for results\<close>
named_theorems ledger_simps \<open>rewrite rules for the points ledger\<close>
named_theorems ledger_intros \<open>preservation of the ledger invariant\<close>

fun bindE :: "'e + 'a \<Rightarrow> ('a \<Rightarrow> 'e + 'b) \<Rightarrow> 'e + 'b" where
  "bindE (Inl e) f = Inl e"
| "bindE (Inr x) f = f x"

fun mapE :: "('a \<Rightarrow> 'e + 'b) \<Rightarrow> 'a list \<Rightarrow> 'e + 'b list" where
  "mapE f [] = Inr []"
| "mapE f (x # xs) = bindE (f x) (\<lambda>y. bindE (mapE f xs) (\<lambda>ys. Inr (y # ys)))"

definition ensure :: "bool \<Rightarrow> 'e \<Rightarrow> 'e + unit" where
  "ensure b e = (if b then Inr () else Inl e)"

definition of_option :: "'e \<Rightarrow> 'a option \<Rightarrow> 'e + 'a" where
  "of_option e x = (case x of None \<Rightarrow> Inl e | Some y \<Rightarrow> Inr y)"

lemma bindE_Inr_iff [result_simps]:
  "bindE r f = Inr y \<longleftrightarrow> (\<exists>x. r = Inr x \<and> f x = Inr y)"
  by (cases r) auto

lemma bindE_Inl_iff [result_simps]:
  "bindE r f = Inl e \<longleftrightarrow> r = Inl e \<or> (\<exists>x. r = Inr x \<and> f x = Inl e)"
  by (cases r) auto

lemma ensure_Inr [simp, result_simps]: "ensure b e = Inr u \<longleftrightarrow> b"
  by (simp add: ensure_def)

lemma ensure_Inl [simp, result_simps]: "ensure b e = Inl e' \<longleftrightarrow> \<not> b \<and> e' = e"
  by (auto simp add: ensure_def)

lemma of_option_Inr [simp, result_simps]: "of_option e x = Inr y \<longleftrightarrow> x = Some y"
  by (simp add: of_option_def split: option.splits)

lemma of_option_Inl [simp, result_simps]: "of_option e x = Inl e' \<longleftrightarrow> x = None \<and> e' = e"
  by (auto simp add: of_option_def split: option.splits)

lemma of_option_simps [simp]: "of_option e (Some y) = Inr y" "of_option e None = Inl e"
  by (simp_all add: of_option_def)

lemma ensure_simps [simp]: "ensure True e = Inr ()" "ensure False e = Inl e"
  by (simp_all add: ensure_def)

lemma bindE_cong [fundef_cong]:
  assumes "r = r'" and "\<And>x. r' = Inr x \<Longrightarrow> f x = g x"
  shows "bindE r f = bindE r' g"
  using assms by (cases r') auto

lemma mapE_Inr_length: "mapE f xs = Inr ys \<Longrightarrow> length ys = length xs"
  by (induction xs arbitrary: ys) (auto simp: bindE_Inr_iff)

lemma mapE_Inr_iff:
  "mapE f xs = Inr ys \<longleftrightarrow> list_all2 (\<lambda>x y. f x = Inr y) xs ys"
  by (induction xs arbitrary: ys) (auto simp: bindE_Inr_iff list_all2_Cons1)

lemma mapE_total: "(\<And>x. x \<in> set xs \<Longrightarrow> f x = Inr (g x)) \<Longrightarrow> mapE f xs = Inr (map g xs)"
  by (induction xs) auto

subsection \<open>Lists\<close>

lemma sum_list_map_filter_split:
  fixes f :: "'a \<Rightarrow> 'b::ab_group_add"
  shows "sum_list (map f xs) =
     sum_list (map f (filter P xs)) + sum_list (map f (filter (\<lambda>x. \<not> P x) xs))"
  by (induction xs) (auto simp: algebra_simps)

lemma sum_list_nonneg_map:
  fixes f :: "'a \<Rightarrow> 'b::ordered_comm_monoid_add"
  shows "(\<And>x. x \<in> set xs \<Longrightarrow> 0 \<le> f x) \<Longrightarrow> 0 \<le> sum_list (map f xs)"
  by (rule sum_list_nonneg) auto

lemma find_Some_in: "find P xs = Some x \<Longrightarrow> x \<in> set xs \<and> P x"
  by (auto simp: find_Some_iff)

subsection \<open>Keyed tables\<close>

text \<open>
  A Django model is a table of rows with a primary key. \<open>row_get\<close> is
  \<open>objects.filter(pk=k).first()\<close>, \<open>row_put\<close> is \<open>row.save()\<close> of an existing row:
  the row with the same key is replaced in place, the others are untouched.
\<close>

definition row_get :: "('r \<Rightarrow> 'k) \<Rightarrow> 'r list \<Rightarrow> 'k \<Rightarrow> 'r option" where
  "row_get key rows k = find (\<lambda>r. key r = k) rows"

definition row_put :: "('r \<Rightarrow> 'k) \<Rightarrow> 'r list \<Rightarrow> 'r \<Rightarrow> 'r list" where
  "row_put key rows r = map (\<lambda>x. if key x = key r then r else x) rows"

definition keys_of :: "('r \<Rightarrow> 'k) \<Rightarrow> 'r list \<Rightarrow> 'k list" where
  "keys_of key rows = map key rows"

locale keyed_table =
  fixes get :: "'t \<Rightarrow> 'k \<Rightarrow> 'r option"
    and put :: "'t \<Rightarrow> 'r \<Rightarrow> 't"
    and key :: "'r \<Rightarrow> 'k"
  assumes get_key: "get t k = Some r \<Longrightarrow> key r = k"
    and get_put_same: "get t (key r) = Some r0 \<Longrightarrow> get (put t r) (key r) = Some r"
    and get_put_other: "key r \<noteq> k \<Longrightarrow> get (put t r) k = get t k"
begin

lemma get_after_put:
  "get t (key r) = Some r0 \<Longrightarrow> get (put t r) k = (if k = key r then Some r else get t k)"
  by (auto simp: get_put_same get_put_other)

lemma put_put_get:
  assumes "get t (key r) = Some r0" and "key r' = key r"
  shows "get (put (put t r) r') k = get (put t r') k"
  using assms get_put_same [OF assms(1)]
  by (cases "k = key r") (metis get_put_same, metis get_put_other)

end

lemma row_get_key: "row_get key rows k = Some r \<Longrightarrow> key r = k"
  by (auto simp: row_get_def find_Some_iff)

lemma row_get_mem: "row_get key rows k = Some r \<Longrightarrow> r \<in> set rows"
  by (auto simp: row_get_def dest: find_Some_in)

lemma row_get_put_same:
  "row_get key rows (key r) = Some r0 \<Longrightarrow> row_get key (row_put key rows r) (key r) = Some r"
  by (induction rows) (auto simp: row_get_def row_put_def split: if_splits)

lemma row_get_put_other:
  "key r \<noteq> k \<Longrightarrow> row_get key (row_put key rows r) k = row_get key rows k"
  by (induction rows) (auto simp: row_get_def row_put_def)

interpretation row_table: keyed_table "row_get key" "row_put key" key
  by unfold_locales (auto simp: row_get_put_same row_get_put_other dest: row_get_key)

lemma keys_of_put [simp]: "keys_of key (row_put key rows r) = keys_of key rows"
  by (induction rows) (auto simp: keys_of_def row_put_def)

lemma length_row_put [simp]: "length (row_put key rows r) = length rows"
  by (simp add: row_put_def)

lemma row_put_absent: "key r \<notin> key ` set rows \<Longrightarrow> row_put key rows r = rows"
  by (induction rows) (auto simp: row_put_def)

lemma row_put_Cons: "row_put key (x # xs) r = (if key x = key r then r else x) # row_put key xs r"
  by (simp add: row_put_def)

lemma row_put_id: "row_get key rows (key r) = Some r \<Longrightarrow> distinct (keys_of key rows) \<Longrightarrow>
    row_put key rows r = rows"
  by (induction rows)
    (auto simp: row_get_def row_put_Cons row_put_absent keys_of_def split: if_splits)

lemma sum_row_put:
  fixes f :: "'r \<Rightarrow> 'b::ab_group_add"
  assumes "distinct (keys_of key rows)" and "row_get key rows (key r) = Some r0"
  shows "sum_list (map f (row_put key rows r)) = sum_list (map f rows) - f r0 + f r"
  using assms
proof (induction rows)
  case Nil
  then show ?case by (simp add: row_get_def)
next
  case (Cons x xs)
  show ?case
  proof (cases "key x = key r")
    case True
    with Cons.prems have "key r \<notin> set (map key xs)" and "x = r0"
      by (auto simp: keys_of_def row_get_def)
    then have "row_put key xs r = xs"
      by (simp add: row_put_absent)
    with True \<open>x = r0\<close> show ?thesis
      by (simp add: row_put_def)
  next
    case False
    with Cons.prems have "sum_list (map f (row_put key xs r)) = sum_list (map f xs) - f r0 + f r"
      by (intro Cons.IH) (auto simp: keys_of_def row_get_def)
    with False show ?thesis
      by (simp add: row_put_def algebra_simps)
  qed
qed

end
