(* ===== verification/PyDecimal.thy ===== *)
theory PyDecimal
  imports Prelude
begin

section \<open>Python's decimal.Decimal\<close>

text \<open>
  The part of Python's \<open>decimal\<close> module the program uses. A finite Decimal is its
  exact numeric value, a rational number; \<open>Infinity\<close> and \<open>NaN\<close> are kept apart.
  Construction is exact. An arithmetic result is rounded to the context precision
  of 28 significant digits, half to even (\<open>ctx\<close>): the model applies \<open>ctx\<close> to every
  product and quotient, and leaves sums and differences exact, because the amounts the
  program adds come from columns of at most 16 digits with at most 4 decimals, whose
  sums stay below 28 digits. \<open>quantize\<close> raises when the rounded coefficient needs more
  than 28 digits. Not represented: the sign of zero and the exponent of a Decimal
  (\<open>Decimal("1.0")\<close> and \<open>Decimal("1")\<close> are the same rational), and the exponent
  limits of the C library.
\<close>

datatype decimal = Fin rat | Infinity bool | NaN

definition is_finite :: "decimal \<Rightarrow> bool" where
  "is_finite d = (case d of Fin _ \<Rightarrow> True | _ \<Rightarrow> False)"

subsection \<open>Powers of ten and digit counts\<close>

definition ten_pow :: "int \<Rightarrow> rat" where
  "ten_pow e = (if 0 \<le> e then 10 ^ nat e else 1 / 10 ^ nat (- e))"

fun ndigits :: "nat \<Rightarrow> nat" where
  "ndigits n = (if n = 0 then 0 else Suc (ndigits (n div 10)))"

declare ndigits.simps [simp del]

text \<open>The exponent of the leading digit: \<open>Decimal.adjusted()\<close> of a nonzero value.\<close>

definition adjusted :: "rat \<Rightarrow> int" where
  "adjusted x = (let a = \<bar>x\<bar> in
     if 1 \<le> a then int (ndigits (nat \<lfloor>a\<rfloor>)) - 1
     else - int (ndigits (nat (\<lceil>1 / a\<rceil> - 1))))"

subsection \<open>Rounding\<close>

definition round_half_even :: "rat \<Rightarrow> int" where
  "round_half_even x = (let f = \<lfloor>x\<rfloor>; d = x - of_int f in
     if d < 1 / 2 then f else if 1 / 2 < d then f + 1 else if even f then f else f + 1)"

definition round_half_up :: "rat \<Rightarrow> int" where
  "round_half_up x = (if 0 \<le> x then \<lfloor>x + 1 / 2\<rfloor> else - \<lfloor>1 / 2 - x\<rfloor>)"

definition round_down :: "rat \<Rightarrow> int" where
  "round_down x = (if 0 \<le> x then \<lfloor>x\<rfloor> else \<lceil>x\<rceil>)"

definition precision :: int where
  "precision = 28"

definition ctx :: "rat \<Rightarrow> rat" where
  "ctx x = (if x = 0 then 0
     else let q = ten_pow (adjusted x - (precision - 1)) in of_int (round_half_even (x / q)) * q)"

definition dmul :: "rat \<Rightarrow> rat \<Rightarrow> rat" where
  "dmul x y = ctx (x * y)"

definition ddiv :: "rat \<Rightarrow> rat \<Rightarrow> rat res" where
  "ddiv x y = (if y = 0 then Inl (DecimalError ''DivisionByZero'') else Inr (ctx (x / y)))"

text \<open>\<open>x.quantize(Decimal(1).scaleb(-k), rounding=mode)\<close>.\<close>

definition quantize :: "(rat \<Rightarrow> int) \<Rightarrow> nat \<Rightarrow> rat \<Rightarrow> rat res" where
  "quantize mode k x = (let c = mode (x * 10 ^ k) in
     if \<bar>c\<bar> < 10 ^ nat precision then Inr (of_int c / 10 ^ k)
     else Inl (DecimalError ''InvalidOperation''))"

lemma ten_pow_pos [simp]: "0 < ten_pow e"
  by (simp add: ten_pow_def)

lemma ten_pow_nonzero [simp]: "ten_pow e \<noteq> 0"
  using ten_pow_pos [of e] by linarith

lemma ten_pow_powi: "ten_pow e = 10 powi e"
  by (simp add: ten_pow_def power_int_def inverse_eq_divide power_one_over)

lemma ten_pow_add: "ten_pow (a + b) = ten_pow a * ten_pow b"
  by (simp add: ten_pow_powi power_int_add)

lemma ten_pow_diff: "ten_pow (a - b) = ten_pow a / ten_pow b"
  by (simp add: ten_pow_powi power_int_diff)

lemma ten_pow_le: "a \<le> b \<Longrightarrow> ten_pow a \<le> ten_pow b"
  by (simp add: ten_pow_powi power_int_increasing)

lemma ten_pow_less_iff: "ten_pow a < ten_pow b \<longleftrightarrow> a < b"
proof
  show "ten_pow a < ten_pow b \<Longrightarrow> a < b"
    using ten_pow_le [of b a] by linarith
  show "a < b \<Longrightarrow> ten_pow a < ten_pow b"
    by (simp add: ten_pow_powi power_int_strict_increasing)
qed

lemma ten_pow_nat: "ten_pow (int n) = 10 ^ n"
  by (simp add: ten_pow_def)

lemma ten_pow_integral: "0 \<le> e \<Longrightarrow> \<exists>k::int. ten_pow e = of_int k"
  by (rule exI [of _ "10 ^ nat e"]) (simp add: ten_pow_def)

text \<open>The digit count bounds its number by powers of ten.\<close>

lemma ndigits_bounds: "0 < n \<Longrightarrow> 10 ^ (ndigits n - 1) \<le> n \<and> n < 10 ^ ndigits n"
proof (induction n rule: ndigits.induct)
  case (1 n)
  show ?case
  proof (cases "n < 10")
    case True
    then have "ndigits n = 1"
      using "1.prems" by (simp add: ndigits.simps [of n] ndigits.simps [of 0])
    with True "1.prems" show ?thesis by simp
  next
    case False
    then have pos: "0 < n div 10" by simp
    have IH: "10 ^ (ndigits (n div 10) - 1) \<le> n div 10 \<and> n div 10 < 10 ^ ndigits (n div 10)"
      using "1.IH" "1.prems" pos by simp
    have nd: "ndigits n = Suc (ndigits (n div 10))"
      using "1.prems" by (simp add: ndigits.simps [of n])
    have d0: "0 < ndigits (n div 10)"
      using pos by (simp add: ndigits.simps [of "n div 10"])
    then obtain m where m: "ndigits (n div 10) = Suc m"
      by (cases "ndigits (n div 10)") auto
    have "10 * 10 ^ m \<le> n"
      using IH m by (simp add: less_eq_div_iff_mult_less_eq mult.commute)
    moreover have "n < 10 * 10 ^ Suc m"
    proof -
      have "n div 10 + 1 \<le> 10 ^ Suc m" using IH m by simp
      then have "10 * (n div 10) + 10 \<le> 10 * 10 ^ Suc m" by linarith
      then show ?thesis using div_mult_mod_eq [of n 10] mod_less_divisor [of 10 n] by linarith
    qed
    ultimately show ?thesis by (simp add: nd m)
  qed
qed

lemma nat_pow_le_rat: "10 ^ k \<le> (n::nat) \<Longrightarrow> (10::rat) ^ k \<le> of_nat n"
  by (metis of_nat_le_iff of_nat_numeral of_nat_power)
lemma rat_le_nat_pow: "(n::nat) \<le> 10 ^ k \<Longrightarrow> of_nat n \<le> (10::rat) ^ k"
  by (metis of_nat_le_iff of_nat_numeral of_nat_power)

lemma adjusted_bounds_ge1:
  assumes "1 \<le> \<bar>x\<bar>"
  shows "ten_pow (adjusted x) \<le> \<bar>x\<bar> \<and> \<bar>x\<bar> < ten_pow (adjusted x + 1)"
proof -
  define n where "n = nat \<lfloor>\<bar>x\<bar>\<rfloor>"
  have n1: "0 < n" using assms by (simp add: n_def)
  have nf: "of_nat n = (of_int \<lfloor>\<bar>x\<bar>\<rfloor> :: rat)" using assms by (simp add: n_def)
  have fl: "of_nat n \<le> \<bar>x\<bar>" "\<bar>x\<bar> < of_nat (n + 1)"
    using floor_correct [of "\<bar>x\<bar>"] by (simp_all add: nf)
  obtain d where d: "ndigits n = Suc d" using n1 by (simp add: ndigits.simps [of n])
  have nb: "10 ^ d \<le> n" "n + 1 \<le> 10 ^ Suc d"
    using ndigits_bounds [OF n1] by (auto simp: d)
  have "adjusted x = int d" using assms by (simp add: adjusted_def n_def [symmetric] d)
  moreover have "ten_pow (int d + 1) = 10 ^ Suc d" by (simp add: ten_pow_def nat_add_distrib)
  ultimately show ?thesis
    using nat_pow_le_rat [OF nb(1)] rat_le_nat_pow [OF nb(2)] fl by (simp only: ten_pow_nat) linarith
qed

lemma adjusted_bounds_lt1:
  assumes "x \<noteq> 0" and "\<bar>x\<bar> < 1"
  shows "ten_pow (adjusted x) \<le> \<bar>x\<bar> \<and> \<bar>x\<bar> < ten_pow (adjusted x + 1)"
proof -
  define y where "y = 1 / \<bar>x\<bar>"
  have y1: "1 < y" using assms by (simp add: y_def)
  define m where "m = nat (\<lceil>y\<rceil> - 1)"
  have mi: "of_nat m = (of_int (\<lceil>y\<rceil> - 1) :: rat)" using y1 by (simp add: m_def)
  have ym: "of_nat m < y" "y \<le> of_nat (m + 1)"
    using ceiling_correct [of y] by (simp_all add: mi)
  then have m1: "0 < m" using y1 by (cases m) auto
  obtain d where d: "ndigits m = Suc d" using m1 by (simp add: ndigits.simps [of m])
  have mb: "10 ^ d \<le> m" "m + 1 \<le> 10 ^ Suc d"
    using ndigits_bounds [OF m1] by (auto simp: d)
  have lo: "10 ^ d < y" using nat_pow_le_rat [OF mb(1)] ym(1) by linarith
  have hi: "y \<le> 10 ^ Suc d" using rat_le_nat_pow [OF mb(2)] ym(2) by linarith
  have adj: "adjusted x = - int (Suc d)"
    using assms by (simp add: adjusted_def y_def [symmetric] m_def [symmetric] d)
  have e1: "ten_pow (- int (Suc d)) = 1 / 10 ^ Suc d"
    by (simp add: ten_pow_def nat_add_distrib)
  have e2: "ten_pow (- int (Suc d) + 1) = 1 / 10 ^ d"
    by (cases d) (simp_all add: ten_pow_def nat_add_distrib)
  have x: "\<bar>x\<bar> = 1 / y" by (simp add: y_def)
  have "1 / 10 ^ Suc d \<le> 1 / y" using hi y1 by (intro divide_left_mono) auto
  moreover have "1 / y < 1 / 10 ^ d" using lo y1 by (intro divide_strict_left_mono) auto
  ultimately show ?thesis by (simp only: adj e1 e2 x)
qed

lemma round_half_even_int [simp]: "round_half_even (of_int k) = k"
  by (simp add: round_half_even_def Let_def)

lemma ctx_exact:
  assumes x: "x = of_int c * ten_pow e" and c: "\<bar>c\<bar> < 10 ^ 28"
  shows "ctx x = x"
proof (cases "x = 0")
  case True
  then show ?thesis by (simp add: ctx_def)
next
  case False
  define q where "q = adjusted x - 27"
  have "ten_pow (adjusted x) \<le> \<bar>x\<bar>"
    using False adjusted_bounds_ge1 [of x] adjusted_bounds_lt1 [of x] by linarith
  also have "\<bar>x\<bar> = of_int \<bar>c\<bar> * ten_pow e"
    by (simp add: x abs_mult abs_of_pos)
  also have "\<dots> < of_int (10 ^ 28) * ten_pow e"
    using c by (intro mult_strict_right_mono) (simp_all only: of_int_less_iff ten_pow_pos)
  also have "\<dots> = ten_pow (28 + e)"
    by (simp only: ten_pow_add) (simp add: ten_pow_def)
  finally have "q \<le> e" by (simp add: ten_pow_less_iff q_def)
  then obtain k :: int where k: "ten_pow (e - q) = of_int k"
    using ten_pow_integral [of "e - q"] by auto
  have "x / ten_pow q = of_int (c * k)"
    by (simp add: x k [symmetric] ten_pow_diff)
  then have "round_half_even (x / ten_pow q) = c * k" by (simp only: round_half_even_int)
  then have "ctx x = of_int (c * k) * ten_pow q"
    using False by (simp add: ctx_def precision_def q_def [symmetric] Let_def)
  also have "\<dots> = x"
    by (simp add: x k [symmetric] ten_pow_diff)
  finally show ?thesis .
qed

text \<open>The relative error of a context operation is below half a unit in the 28th digit.\<close>

lemma round_half_even_half: "\<bar>of_int (round_half_even x) - x\<bar> \<le> 1 / 2"
  unfolding round_half_even_def Let_def
  using floor_correct [of x] by (simp add: abs_le_iff)

lemma ctx_error: "\<bar>ctx x - x\<bar> \<le> \<bar>x\<bar> / (2 * 10 ^ 27)"
proof (cases "x = 0")
  case True
  then show ?thesis by (simp add: ctx_def)
next
  case False
  define q where "q = ten_pow (adjusted x - 27)"
  have q: "0 < q" by (simp add: q_def)
  have "q * 10 ^ 27 = ten_pow (adjusted x)"
    by (simp add: q_def ten_pow_diff ten_pow_def [of 27])
  also have "\<dots> \<le> \<bar>x\<bar>"
    using False adjusted_bounds_ge1 [of x] adjusted_bounds_lt1 [of x] by linarith
  finally have qx: "q * 10 ^ 27 \<le> \<bar>x\<bar>" .
  have "ctx x - x = (of_int (round_half_even (x / q)) - x / q) * q"
    using False q by (simp add: ctx_def precision_def q_def [symmetric] Let_def algebra_simps)
  then have "\<bar>ctx x - x\<bar> = \<bar>of_int (round_half_even (x / q)) - x / q\<bar> * q"
    using q by (simp add: abs_mult)
  also have "\<dots> \<le> 1 / 2 * q"
    using q round_half_even_half [of "x / q"] by (intro mult_right_mono) auto
  also have "\<dots> \<le> \<bar>x\<bar> / (2 * 10 ^ 27)"
    using qx by (simp add: field_simps)
  finally show ?thesis .
qed

subsection \<open>The rounding interface\<close>

text \<open>
  What the program relies on of a rounding mode: it is exact on whole numbers and
  monotone; a mode to nearest moves a value by at most one half.
\<close>

locale rounding_mode =
  fixes mode :: "rat \<Rightarrow> int"
  assumes exact: "mode (of_int k) = k"
    and mono: "x \<le> y \<Longrightarrow> mode x \<le> mode y"
begin

lemma mode_ge: "of_int k \<le> x \<Longrightarrow> k \<le> mode x"
  using mono [of "of_int k" x] by (simp add: exact)

lemma mode_le: "x \<le> of_int k \<Longrightarrow> mode x \<le> k"
  using mono [of x "of_int k"] by (simp add: exact)

lemma quantize_nonneg: "0 \<le> x \<Longrightarrow> quantize mode k x = Inr y \<Longrightarrow> 0 \<le> y"
  using mode_ge [of 0 "x * 10 ^ k"] by (auto simp: quantize_def Let_def split: if_splits)

lemma quantize_mono:
  "x \<le> x' \<Longrightarrow> quantize mode k x = Inr y \<Longrightarrow> quantize mode k x' = Inr y' \<Longrightarrow> y \<le> y'"
  using mono [of "x * 10 ^ k" "x' * 10 ^ k"]
  by (auto simp: quantize_def Let_def divide_right_mono split: if_splits)

lemma quantize_exact:
  "\<bar>c\<bar> < 10 ^ 28 \<Longrightarrow> quantize mode k (of_int c / 10 ^ k) = Inr (of_int c / 10 ^ k)"
  using exact [of c] by (simp add: quantize_def precision_def)

lemma quantize_idem:
  "quantize mode k x = Inr y \<Longrightarrow> quantize mode k y = Inr y"
  using exact by (auto simp: quantize_def Let_def split: if_splits)

lemma quantize_whole: "quantize mode k x = Inr y \<Longrightarrow> \<exists>c. y = of_int c / 10 ^ k \<and> \<bar>c\<bar> < 10 ^ 28"
  by (auto simp: quantize_def Let_def precision_def split: if_splits)

end

locale nearest_mode = rounding_mode +
  assumes half: "\<bar>of_int (mode x) - x\<bar> \<le> 1 / 2"
begin

lemma quantize_error: "quantize mode k x = Inr y \<Longrightarrow> \<bar>y - x\<bar> \<le> 1 / (2 * 10 ^ k)"
proof -
  assume "quantize mode k x = Inr y"
  then have "y - x = (of_int (mode (x * 10 ^ k)) - x * 10 ^ k) / 10 ^ k"
    by (auto simp: quantize_def Let_def field_simps split: if_splits)
  then have "\<bar>y - x\<bar> = \<bar>of_int (mode (x * 10 ^ k)) - x * 10 ^ k\<bar> / 10 ^ k"
    by simp
  also have "\<dots> \<le> 1 / 2 / 10 ^ k"
    by (intro divide_right_mono half) simp
  finally show ?thesis by simp
qed

end

lemma round_half_even_mono: "x \<le> y \<Longrightarrow> round_half_even x \<le> round_half_even y"
proof (cases "\<lfloor>x\<rfloor> < \<lfloor>y\<rfloor>")
  case True
  have "round_half_even x \<le> \<lfloor>x\<rfloor> + 1" by (simp add: round_half_even_def Let_def)
  also have "\<dots> \<le> \<lfloor>y\<rfloor>" using True by simp
  also have "\<dots> \<le> round_half_even y" by (simp add: round_half_even_def Let_def)
  finally show ?thesis .
next
  case False
  assume "x \<le> y"
  then have "\<lfloor>x\<rfloor> = \<lfloor>y\<rfloor>" using False floor_mono [of x y] by linarith
  then show ?thesis using \<open>x \<le> y\<close>
    by (auto simp: round_half_even_def Let_def)
qed

lemma round_half_up_mono: "x \<le> y \<Longrightarrow> round_half_up x \<le> round_half_up y"
proof (cases "x < 0 \<and> 0 \<le> y")
  case True
  then have "0 \<le> \<lfloor>1 / 2 - x\<rfloor>" and "0 \<le> \<lfloor>y + 1 / 2\<rfloor>" by simp_all
  then have "- \<lfloor>1 / 2 - x\<rfloor> \<le> \<lfloor>y + 1 / 2\<rfloor>" by linarith
  with True show ?thesis by (simp add: round_half_up_def)
next
  case False
  assume "x \<le> y"
  with False show ?thesis
    by (auto simp: round_half_up_def intro: floor_mono)
qed

lemma round_down_mono: "x \<le> y \<Longrightarrow> round_down x \<le> round_down y"
proof (cases "x < 0 \<and> 0 \<le> y")
  case True
  then have "\<lceil>x\<rceil> \<le> 0" and "0 \<le> \<lfloor>y\<rfloor>" by (simp_all add: ceiling_le_iff)
  then have "\<lceil>x\<rceil> \<le> \<lfloor>y\<rfloor>" by linarith
  with True show ?thesis by (simp add: round_down_def)
next
  case False
  assume "x \<le> y"
  with False show ?thesis
    by (auto simp: round_down_def intro: floor_mono ceiling_mono)
qed

lemma round_half_up_int: "round_half_up (of_int k) = k"
proof (cases "0 \<le> k")
  case True
  then show ?thesis by (simp add: round_half_up_def floor_eq_iff)
next
  case False
  have "\<lfloor>1 / 2 - of_int k :: rat\<rfloor> = - k" by (simp add: floor_eq_iff)
  with False show ?thesis by (simp add: round_half_up_def)
qed

interpretation half_even: nearest_mode round_half_even
proof unfold_locales
  show "\<bar>of_int (round_half_even x) - x\<bar> \<le> 1 / 2" for x
    by (rule round_half_even_half)
qed (auto intro: round_half_even_mono)

lemma round_half_up_half: "\<bar>of_int (round_half_up x) - x\<bar> \<le> 1 / 2"
proof (cases "0 \<le> x")
  case True
  have "of_int (round_half_up x) - x \<le> 1 / 2 \<and> x - of_int (round_half_up x) \<le> 1 / 2"
    unfolding round_half_up_def if_P [OF True]
    using floor_correct [of "x + 1 / 2"] by linarith
  then show ?thesis by linarith
next
  case False
  have "of_int (round_half_up x) - x \<le> 1 / 2 \<and> x - of_int (round_half_up x) \<le> 1 / 2"
    unfolding round_half_up_def if_not_P [OF False] of_int_minus
    using floor_correct [of "1 / 2 - x"] by linarith
  then show ?thesis by linarith
qed

interpretation half_up: nearest_mode round_half_up
proof unfold_locales
  show "\<bar>of_int (round_half_up x) - x\<bar> \<le> 1 / 2" for x
    by (rule round_half_up_half)
qed (auto intro: round_half_up_mono simp: round_half_up_int)

interpretation toward_zero: rounding_mode round_down
proof unfold_locales
  show "round_down (of_int k) = k" for k
    by (simp add: round_down_def)
qed (rule round_down_mono)

subsection \<open>Construction from text and from other values\<close>

text \<open>
  \<open>Decimal(str)\<close>: surrounding white space and underscores are dropped, then a sign,
  and \<open>inf\<close>, \<open>infinity\<close>, \<open>nan\<close>/\<open>snan\<close> with optional digits, or digits with an optional point
  and an optional exponent; anything else is \<open>InvalidOperation\<close> (here None). Text is
  a list of 8-bit characters, so the Unicode digits Python also accepts are not digits here.
\<close>

definition is_digit_char :: "char \<Rightarrow> bool" where
  "is_digit_char c = (48 \<le> (of_char c :: nat) \<and> (of_char c :: nat) \<le> 57)"

definition digit_val :: "char \<Rightarrow> nat" where
  "digit_val c = of_char c - 48"

definition is_space_char :: "char \<Rightarrow> bool" where
  "is_space_char c = (let n = (of_char c :: nat) in n = 32 \<or> (9 \<le> n \<and> n \<le> 13) \<or> (28 \<le> n \<and> n \<le> 31))"

definition lower_char :: "char \<Rightarrow> char" where
  "lower_char c = (let n = (of_char c :: nat) in if 65 \<le> n \<and> n \<le> 90 then char_of (n + 32) else c)"

definition upper_char :: "char \<Rightarrow> char" where
  "upper_char c = (let n = (of_char c :: nat) in if 97 \<le> n \<and> n \<le> 122 then char_of (n - 32) else c)"

definition strip :: "string \<Rightarrow> string" where
  "strip s = rev (dropWhile is_space_char (rev (dropWhile is_space_char s)))"

definition digits_val :: "string \<Rightarrow> nat" where
  "digits_val ds = foldl (\<lambda>n c. 10 * n + digit_val c) 0 ds"

fun take_sign :: "string \<Rightarrow> bool \<times> string" where
  "take_sign [] = (False, [])"
| "take_sign (c # s) = (if c = CHR ''-'' then (True, s) else if c = CHR ''+'' then (False, s)
     else (False, c # s))"

fun exponent_of_string :: "string \<Rightarrow> int option" where
  "exponent_of_string [] = Some 0"
| "exponent_of_string (c # s) = (if c = CHR ''e'' then
       (case take_sign s of (neg, ds) \<Rightarrow>
          if ds \<noteq> [] \<and> list_all is_digit_char ds
          then Some (if neg then - int (digits_val ds) else int (digits_val ds)) else None)
     else None)"

fun split_point :: "string \<Rightarrow> string \<times> string" where
  "split_point [] = ([], [])"
| "split_point (c # s) = (if c = CHR ''.'' then (takeWhile is_digit_char s, dropWhile is_digit_char s)
     else ([], c # s))"

definition number_of_string :: "bool \<Rightarrow> string \<Rightarrow> decimal option" where
  "number_of_string neg s =
     (let ip = takeWhile is_digit_char s;
          fr = split_point (dropWhile is_digit_char s);
          fp = fst fr
      in if ip @ fp = [] then None
         else map_option (\<lambda>e. Fin ((if neg then -1 else 1) * of_nat (digits_val (ip @ fp)) *
                ten_pow (e - int (length fp)))) (exponent_of_string (snd fr)))"

definition decimal_of_string :: "string \<Rightarrow> decimal option" where
  "decimal_of_string s =
     (let t = map lower_char (filter (\<lambda>c. c \<noteq> CHR ''_'') (strip s));
          neg = fst (take_sign t); u = snd (take_sign t)
      in if u = ''inf'' \<or> u = ''infinity'' then Some (Infinity neg)
         else if take 3 u = ''nan'' \<and> list_all is_digit_char (drop 3 u) then Some NaN
         else if take 4 u = ''snan'' \<and> list_all is_digit_char (drop 4 u) then Some NaN
         else number_of_string neg u)"

subsection \<open>Evaluation\<close>

lemma floor_rat_numeral [simp]: "\<lfloor>numeral a / numeral b :: rat\<rfloor> = numeral a div numeral b"
  by (metis floor_divide_of_int_eq of_int_numeral)

lemma floor_rat_one [simp]: "\<lfloor>1 / numeral b :: rat\<rfloor> = 1 div numeral b"
  by (metis floor_divide_of_int_eq of_int_numeral of_int_1)

lemma floor_rat_neg_numeral [simp]: "\<lfloor>- (numeral a / numeral b) :: rat\<rfloor> = (- numeral a) div numeral b"
  by (metis floor_divide_of_int_eq of_int_numeral of_int_minus minus_divide_left)

lemma ceiling_rat_numeral [simp]: "\<lceil>numeral a / numeral b :: rat\<rceil> = - ((- numeral a) div numeral b)"
  by (simp add: ceiling_def)

lemmas ctx_eval = ctx_def adjusted_def ndigits.simps ten_pow_def precision_def round_half_even_def Let_def

lemmas text_eval = decimal_of_string_def strip_def is_space_char_def lower_char_def upper_char_def number_of_string_def
  is_digit_char_def digits_val_def digit_val_def ten_pow_def

end
