(* ===== verification/PyTime.thy ===== *)
theory PyTime
  imports PyDecimal
begin

section \<open>Dates and instants\<close>

text \<open>
  Python's \<open>datetime\<close> as far as the program uses it. A date is its proleptic
  Gregorian ordinal (\<open>date.toordinal\<close>), so subtraction of dates is a number of days.
  An instant is a number of microseconds since the Unix epoch; a \<open>datetime\<close> object is
  aware (an instant) or naive. Time-zone data is not part of the repository: functions
  that need it take the zone rules as arguments.
\<close>

type_synonym date = int
type_synonym instant = int

datatype datetime = Aware instant | Naive int

definition is_naive :: "datetime \<Rightarrow> bool" where
  "is_naive t = (case t of Naive _ \<Rightarrow> True | Aware _ \<Rightarrow> False)"

definition seconds :: "int \<Rightarrow> int" where
  "seconds n = n * 1000000"

definition day_us :: int where
  "day_us = 86400000000"

text \<open>The ordinal of 1970-01-01.\<close>

definition epoch_ordinal :: int where
  "epoch_ordinal = 719163"

subsection \<open>The calendar\<close>

definition leap_year :: "int \<Rightarrow> bool" where
  "leap_year y = (y mod 4 = 0 \<and> (y mod 100 \<noteq> 0 \<or> y mod 400 = 0))"

definition month_lengths :: "int list" where
  "month_lengths = [31, 28, 31, 30, 31, 30, 31, 31, 30, 31, 30, 31]"

definition days_in_month :: "int \<Rightarrow> int \<Rightarrow> int" where
  "days_in_month y m = (if m = 2 \<and> leap_year y then 29 else month_lengths ! nat (m - 1))"

definition days_before_year :: "int \<Rightarrow> int" where
  "days_before_year y = (let p = y - 1 in p * 365 + p div 4 - p div 100 + p div 400)"

definition days_before_month :: "int \<Rightarrow> int \<Rightarrow> int" where
  "days_before_month y m =
     sum_list (take (nat (m - 1)) month_lengths) + (if 2 < m \<and> leap_year y then 1 else 0)"

definition valid_ymd :: "int \<Rightarrow> int \<Rightarrow> int \<Rightarrow> bool" where
  "valid_ymd y m d =
     (1 \<le> y \<and> y \<le> 9999 \<and> 1 \<le> m \<and> m \<le> 12 \<and> 1 \<le> d \<and> d \<le> days_in_month y m)"

definition ymd_ordinal :: "int \<Rightarrow> int \<Rightarrow> int \<Rightarrow> date" where
  "ymd_ordinal y m d = days_before_year y + days_before_month y m + d"

definition make_date :: "int \<Rightarrow> int \<Rightarrow> int \<Rightarrow> date option" where
  "make_date y m d = (if valid_ymd y m d then Some (ymd_ordinal y m d) else None)"

subsection \<open>Reading dates\<close>

definition fixed_digits :: "nat \<Rightarrow> string \<Rightarrow> int option" where
  "fixed_digits n s = (if length s = n \<and> list_all is_digit_char s
     then Some (int (digits_val s)) else None)"

text \<open>\<open>datetime.fromisocalendar\<close>: the date of an ISO week and weekday.\<close>

definition iso_week_date :: "int \<Rightarrow> int \<Rightarrow> int \<Rightarrow> date option" where
  "iso_week_date y w d =
     (let jan1 = ymd_ordinal y 1 1;
          wd = (jan1 + 6) mod 7;
          monday = jan1 - wd + (if 3 < wd then 7 else 0);
          long = (jan1 mod 7 = 4 \<or> (jan1 mod 7 = 3 \<and> leap_year y))
      in if 1 \<le> y \<and> y \<le> 9999 \<and> 1 \<le> w \<and> (w \<le> 52 \<or> (w = 53 \<and> long)) \<and> 1 \<le> d \<and> d \<le> 7
            \<and> monday + (w - 1) * 7 + (d - 1) \<le> 3652059
         then Some (monday + (w - 1) * 7 + (d - 1)) else None)"

text \<open>
  \<open>date.fromisoformat\<close>: \<open>YYYY-MM-DD\<close>, \<open>YYYYMMDD\<close>, and the ISO week forms with or
  without separators.
\<close>

definition date_fromisoformat :: "string \<Rightarrow> date option" where
  "date_fromisoformat s =
     (let y = fixed_digits 4 (take 4 s);
          sep = (take 1 (drop 4 s) = ''-'');
          r = drop (if sep then 5 else 4) s
      in case y of None \<Rightarrow> None | Some yy \<Rightarrow>
         if take 1 r = ''W'' then
           (case fixed_digits 2 (take 2 (drop 1 r)) of None \<Rightarrow> None | Some w \<Rightarrow>
              let t = drop 3 r in
              if t = [] then iso_week_date yy w 1
              else if sep then
                (if take 1 t = ''-'' then Option.bind (fixed_digits 1 (drop 1 t)) (iso_week_date yy w)
                 else None)
              else Option.bind (fixed_digits 1 t) (iso_week_date yy w))
         else
           (case fixed_digits 2 (take 2 r) of None \<Rightarrow> None | Some m \<Rightarrow>
              let t = drop 2 r in
              if sep then
                (if take 1 t = ''-'' then Option.bind (fixed_digits 2 (drop 1 t)) (make_date yy m)
                 else None)
              else Option.bind (fixed_digits 2 t) (make_date yy m)))"

text \<open>
  \<open>datetime.strptime(s, "%Y-%m-%d").date()\<close>: four digits, then a month and a day of one
  or two digits (a one-digit day may be written with a leading blank).
\<close>

definition field_value :: "string \<Rightarrow> int option" where
  "field_value s = (if (length s = 1 \<or> length s = 2) \<and> list_all is_digit_char s
     then Some (int (digits_val s)) else None)"

definition strptime_ymd :: "string \<Rightarrow> date option" where
  "strptime_ymd s =
     (let r = drop 5 s;
          m = takeWhile (\<lambda>c. c \<noteq> CHR ''-'') r;
          d = drop (Suc (length m)) r;
          d' = (if length d = 2 \<and> take 1 d = '' '' then drop 1 d else d)
      in if take 1 (drop 4 s) = ''-'' \<and> length m < length r then
           Option.bind (fixed_digits 4 (take 4 s)) (\<lambda>y.
           Option.bind (field_value m) (\<lambda>mm.
           Option.bind (field_value d') (\<lambda>dd. make_date y mm dd)))
         else None)"

lemmas date_eval = date_fromisoformat_def strptime_ymd_def field_value_def fixed_digits_def
  make_date_def valid_ymd_def days_in_month_def ymd_ordinal_def days_before_year_def
  days_before_month_def month_lengths_def leap_year_def digits_val_def digit_val_def
  is_digit_char_def iso_week_date_def

subsection \<open>Writing dates\<close>

text \<open>Python's \<open>_ord2ymd\<close>: cycles of 400, 100, 4 and 1 years, then the month.\<close>

definition ordinal_year :: "date \<Rightarrow> int \<times> int" where
  "ordinal_year n0 =
     (let n = n0 - 1;
          n400 = n div 146097; n = n mod 146097;
          n100 = n div 36524; n = n mod 36524;
          n4 = n div 1461; n = n mod 1461;
          n1 = n div 365; n = n mod 365;
          y = n400 * 400 + n100 * 100 + n4 * 4 + n1 + 1
      in if n1 = 4 \<or> n100 = 4 then (y - 1, 365) else (y, n))"

fun month_of :: "int list \<Rightarrow> int \<Rightarrow> int \<Rightarrow> int \<times> int" where
  "month_of [] m n = (m, n)"
| "month_of (k # ks) m n = (if n < k then (m, n) else month_of ks (m + 1) (n - k))"

definition ordinal_ymd :: "date \<Rightarrow> int \<times> int \<times> int" where
  "ordinal_ymd n0 =
     (let yn = ordinal_year n0; y = fst yn;
          lens = (if leap_year y then month_lengths [1 := 29] else month_lengths);
          md = month_of lens 1 (snd yn)
      in (y, fst md, snd md + 1))"

fun digit_char :: "nat \<Rightarrow> char" where
  "digit_char n = char_of (48 + n)"

definition pad_digits :: "nat \<Rightarrow> int \<Rightarrow> string" where
  "pad_digits k n = map (\<lambda>i. digit_char (nat (n div 10 ^ i mod 10))) (rev [0..<k])"

definition isoformat :: "date \<Rightarrow> string" where
  "isoformat n = (case ordinal_ymd n of (y, m, d) \<Rightarrow>
     pad_digits 4 y @ ''-'' @ pad_digits 2 m @ ''-'' @ pad_digits 2 d)"

subsection \<open>Local clock readings\<close>

text \<open>
  A zone is given by its offset from UTC in microseconds at each instant; the local
  wall clock of an instant is the instant plus that offset.
\<close>

type_synonym zone_offset = "instant \<Rightarrow> int"

definition local_date :: "zone_offset \<Rightarrow> instant \<Rightarrow> date" where
  "local_date off t = epoch_ordinal + (t + off t) div day_us"

definition local_hour :: "zone_offset \<Rightarrow> instant \<Rightarrow> int" where
  "local_hour off t = (t + off t) mod day_us div 3600000000"

lemma local_hour_range: "0 \<le> local_hour off t \<and> local_hour off t < 24"
proof -
  have "0 \<le> (t + off t) mod day_us" and "(t + off t) mod day_us < 24 * 3600000000"
    by (simp_all add: day_us_def)
  then show ?thesis
    unfolding local_hour_def by (simp add: div_less_iff_less_mult pos_imp_zdiv_nonneg_iff)
qed

text \<open>The wall-clock reading of a date at an hour, in microseconds.\<close>

definition wall_clock :: "date \<Rightarrow> int \<Rightarrow> int" where
  "wall_clock d h = (d - epoch_ordinal) * day_us + h * 3600000000"

end
