(* ===== verification/PyValue.thy ===== *)
theory PyValue
  imports PyTime
begin

section \<open>Dynamic values\<close>

text \<open>
  The dynamically typed values the code inspects: parsed JSON documents, JSON columns and
  loosely typed arguments. Three constructors stand for texts whose content is known:
  a float carries the number its \<open>str\<close> shows (the code reads floats only through their
  text), \<open>PyDecText\<close> is the text \<open>str(d)\<close> or \<open>format(d, "f")\<close> of a finite Decimal, which
  \<open>Decimal\<close> reads back as \<open>d\<close>, and \<open>PyTimeText\<close> is the \<open>isoformat()\<close> of a datetime, which
  \<open>datetime.fromisoformat\<close> reads back.
\<close>

datatype pyval =
    PyNone
  | PyBool bool
  | PyInt int
  | PyFloat decimal
  | PyStr string
  | PyDec decimal
  | PyDecText rat
  | PyTimeText datetime
  | PyList "pyval list"
  | PyDict "(string \<times> pyval) list"

text \<open>\<open>Decimal(value)\<close>, None where it raises.\<close>

fun to_decimal :: "pyval \<Rightarrow> decimal option" where
  "to_decimal (PyBool b) = Some (Fin (if b then 1 else 0))"
| "to_decimal (PyInt n) = Some (Fin (of_int n))"
| "to_decimal (PyFloat d) = Some d"
| "to_decimal (PyStr s) = decimal_of_string s"
| "to_decimal (PyDec d) = Some d"
| "to_decimal (PyDecText q) = Some (Fin q)"
| "to_decimal _ = None"

text \<open>\<open>Decimal(str(value))\<close>: the texts of True, None, lists and dicts are no numbers.\<close>

fun decimal_of_str :: "pyval \<Rightarrow> decimal option" where
  "decimal_of_str (PyInt n) = Some (Fin (of_int n))"
| "decimal_of_str (PyFloat d) = Some d"
| "decimal_of_str (PyStr s) = decimal_of_string s"
| "decimal_of_str (PyDec d) = Some d"
| "decimal_of_str (PyDecText q) = Some (Fin q)"
| "decimal_of_str _ = None"

text \<open>\<open>datetime.fromisoformat(str(value))\<close>; texts not written by \<open>isoformat\<close> are refused.\<close>

fun datetime_of_str :: "pyval \<Rightarrow> datetime option" where
  "datetime_of_str (PyTimeText t) = Some t"
| "datetime_of_str _ = None"

subsection \<open>Dictionaries\<close>

fun dict_items :: "pyval \<Rightarrow> (string \<times> pyval) list option" where
  "dict_items (PyDict kvs) = Some kvs"
| "dict_items _ = None"

text \<open>\<open>d.get(key)\<close>: None when the key is missing.\<close>

definition dget :: "(string \<times> pyval) list \<Rightarrow> string \<Rightarrow> pyval" where
  "dget kvs k = (case map_of kvs k of None \<Rightarrow> PyNone | Some v \<Rightarrow> v)"

text \<open>\<open>value in (None, "")\<close>.\<close>

definition blank :: "pyval \<Rightarrow> bool" where
  "blank v = (v = PyNone \<or> v = PyStr [])"

text \<open>\<open>bool(value)\<close>.\<close>

fun truthy :: "pyval \<Rightarrow> bool" where
  "truthy PyNone = False"
| "truthy (PyBool b) = b"
| "truthy (PyInt n) = (n \<noteq> 0)"
| "truthy (PyFloat d) = (d \<noteq> Fin 0)"
| "truthy (PyDec d) = (d \<noteq> Fin 0)"
| "truthy (PyStr s) = (s \<noteq> [])"
| "truthy (PyList xs) = (xs \<noteq> [])"
| "truthy (PyDict kvs) = (kvs \<noteq> [])"
| "truthy _ = True"

text \<open>\<open>isinstance(value, str)\<close> with the text, where the text is known.\<close>

fun str_of :: "pyval \<Rightarrow> string option" where
  "str_of (PyStr s) = Some s"
| "str_of _ = None"

text \<open>Python's \<open>value == n\<close> for a whole number: booleans, floats and Decimals compare by value.\<close>

fun equals_int :: "pyval \<Rightarrow> int \<Rightarrow> bool" where
  "equals_int (PyBool b) n = ((if b then 1 else 0) = n)"
| "equals_int (PyInt m) n = (m = n)"
| "equals_int (PyFloat d) n = (d = Fin (of_int n))"
| "equals_int (PyDec d) n = (d = Fin (of_int n))"
| "equals_int _ n = False"

subsection \<open>Integers from text\<close>

fun underscores_ok :: "bool \<Rightarrow> string \<Rightarrow> bool" where
  "underscores_ok prev [] = prev"
| "underscores_ok prev (c # s) =
     (if is_digit_char c then underscores_ok True s
      else c = CHR ''_'' \<and> prev \<and> s \<noteq> [] \<and> underscores_ok False s)"

text \<open>\<open>int(text)\<close>: blanks around, a sign, digits with single underscores between them.\<close>

definition int_of_string :: "string \<Rightarrow> int option" where
  "int_of_string s =
     (let t = strip s; neg = fst (take_sign t); u = snd (take_sign t)
      in if u \<noteq> [] \<and> underscores_ok False u
         then Some ((if neg then -1 else 1) * int (digits_val (filter is_digit_char u))) else None)"

text \<open>
  \<open>int(value)\<close>: None stands for TypeError or ValueError, which the callers treat alike;
  an infinite float raises OverflowError.
\<close>

fun py_int :: "pyval \<Rightarrow> int option res" where
  "py_int (PyBool b) = Inr (Some (if b then 1 else 0))"
| "py_int (PyInt n) = Inr (Some n)"
| "py_int (PyFloat (Fin q)) = Inr (Some (round_down q))"
| "py_int (PyFloat (Infinity b)) = Inl (OverflowError ''infinity'')"
| "py_int (PyDec (Fin q)) = Inr (Some (round_down q))"
| "py_int (PyDec (Infinity b)) = Inl (OverflowError ''infinity'')"
| "py_int (PyStr s) = Inr (int_of_string s)"
| "py_int (PyDecText q) = Inr (if of_int (round_down q) = q then Some (round_down q) else None)"
| "py_int _ = Inr None"

end
