(* ===== verification/Calculation.thy ===== *)
theory Calculation
  imports PyValue
begin

section \<open>Exact points arithmetic (apps/loyalty/calculation.py)\<close>

text \<open>
  The pure arithmetic of the loyalty programme: amounts as whole halalas
  (hundredths), the reward plan of a settled stay, the split of a refund between cash
  and points, and the refundable value of an early departure.
\<close>

subsection \<open>Amounts\<close>

text \<open>
  \<open>cents\<close> refuses booleans and floats, everything \<open>Decimal\<close> cannot read, values that are not
  finite, negative, or at least \<open>10^14\<close>, and values whose hundredfold is not whole. The
  hundredfold is a Decimal product, so it is rounded to the context precision first.
\<close>

definition cents :: "pyval \<Rightarrow> int res" where
  "cents value =
     (case value of
        PyBool _ \<Rightarrow> Inl (ValueError ''points_value_must_be_exact_decimal'')
      | PyFloat _ \<Rightarrow> Inl (ValueError ''points_value_must_be_exact_decimal'')
      | _ \<Rightarrow>
        (case to_decimal value of
           None \<Rightarrow> Inl (ValueError ''points_value_invalid'')
         | Some (Fin n) \<Rightarrow>
             if n < 0 \<or> 100000000000000 \<le> n \<or> dmul n 100 \<noteq> of_int (round_down (dmul n 100))
             then Inl (ValueError ''two_decimals_and_nonnegative'')
             else Inr (round_down (dmul n 100))
         | Some _ \<Rightarrow> Inl (ValueError ''two_decimals_and_nonnegative'')))"

definition amount :: "int \<Rightarrow> rat" where
  "amount value = of_int value / 100"

subsection \<open>The reward plan\<close>

datatype component =
    Loyalty
  | DirectReferral
  | IndirectReferral
  | TransferOut
  | TransferIn
  | Redemption
  | Restore
  | Closing

record 'm plan_row =
  pr_member :: 'm
  pr_kind :: component
  pr_rate :: int
  pr_cents :: int
  pr_distance :: nat
  pr_numerator :: nat
  pr_denominator :: nat

definition indirect_pool :: "int \<Rightarrow> nat \<Rightarrow> int" where
  "indirect_pool value n = min (value * int (min n 7) div 100) (value div 100 * int n)"

definition indirect_rows :: "int \<Rightarrow> 'm list \<Rightarrow> 'm plan_row list" where
  "indirect_rows value older =
     (let n = length older;
          pool = indirect_pool value n;
          quotient = pool div int n;
          remainder = pool mod int n
      in map (\<lambda>(index, member).
                \<lparr>pr_member = member, pr_kind = IndirectReferral, pr_rate = 1,
                 pr_cents = quotient + (if int index < remainder then 1 else 0),
                 pr_distance = index + 2, pr_numerator = min n 7, pr_denominator = n\<rparr>)
           (enumerate 0 older))"

definition reward_plan :: "pyval \<Rightarrow> 'm \<Rightarrow> 'm list \<Rightarrow> 'm plan_row list res" where
  "reward_plan base owner ancestors =
     bindE (cents base) (\<lambda>value. Inr (
       [\<lparr>pr_member = owner, pr_kind = Loyalty, pr_rate = 3, pr_cents = value * 3 div 100,
         pr_distance = 0, pr_numerator = 3, pr_denominator = 1\<rparr>] @
       (case ancestors of [] \<Rightarrow> [] | a # _ \<Rightarrow>
          [\<lparr>pr_member = a, pr_kind = DirectReferral, pr_rate = 5, pr_cents = value * 5 div 100,
            pr_distance = 1, pr_numerator = 5, pr_denominator = 1\<rparr>]) @
       (if tl ancestors = [] then [] else indirect_rows value (tl ancestors))))"

subsection \<open>Refund split\<close>

record split_amounts =
  sp_cash :: rat
  sp_points :: rat

definition refund_split :: "pyval \<Rightarrow> pyval \<Rightarrow> pyval \<Rightarrow> split_amounts res" where
  "refund_split refundable cash points =
     bindE (cents refundable) (\<lambda>r. bindE (cents cash) (\<lambda>c. bindE (cents points) (\<lambda>p.
       if c + p < r then Inl (ValueError ''refund_exceeds_payment'')
       else let cash_part = (if c + p \<noteq> 0 then r * c div (c + p) else 0)
            in Inr \<lparr>sp_cash = amount cash_part, sp_points = amount (r - cash_part)\<rparr>)))"

subsection \<open>Early departure\<close>

record night =
  night_date :: string
  night_value :: pyval

text \<open>The loop over the priced nights: the dates seen so far and the running total.\<close>

fun departure_loop ::
  "bool \<Rightarrow> date \<Rightarrow> int \<Rightarrow> night list \<Rightarrow> date list \<Rightarrow> int \<Rightarrow> int res" where
  "departure_loop arrived today hour [] dates acc = Inr acc"
| "departure_loop arrived today hour (n # ns) dates acc =
     (case strptime_ymd (night_date n) of
        None \<Rightarrow> Inl (ValueError ''strptime'')
      | Some d \<Rightarrow>
          if d \<in> set dates then Inl (ValueError ''duplicate_night'')
          else bindE (cents (night_value n)) (\<lambda>value.
            departure_loop arrived today hour ns (d # dates)
              (if \<not> arrived \<or> today < d \<or> (d = today \<and> hour < 20) then acc + value else acc)))"

text \<open>\<open>zone\<close> is the offset function of \<open>ZoneInfo(zone)\<close>, None when the zone is unknown.\<close>

definition departure_refund ::
  "night list \<Rightarrow> datetime \<Rightarrow> zone_offset option \<Rightarrow> bool \<Rightarrow> rat res" where
  "departure_refund nights vacated_at zone arrived =
     (case vacated_at of
        Naive _ \<Rightarrow> Inl (ValueError ''aware_departure_required'')
      | Aware t \<Rightarrow>
          bindE (of_option (KeyError ''ZoneInfoNotFoundError'') zone) (\<lambda>off.
          bindE (departure_loop arrived (local_date off t) (local_hour off t) nights [] 0)
            (\<lambda>t. Inr (amount t))))"

subsection \<open>Facts about amounts\<close>

lemma dmul_amount: "\<bar>k\<bar> < 10 ^ 28 \<Longrightarrow> dmul (amount k) 100 = of_int k"
  unfolding dmul_def by (subst ctx_exact [of _ k 0]) (simp_all add: amount_def ten_pow_def)

lemma cents_amount [simp]: 
  assumes "0 \<le> k" and "k < 10 ^ 16"
  shows "cents (PyDec (Fin (amount k))) = Inr k"
  using assms dmul_amount [of k]
  by (simp add: cents_def toward_zero.exact) (simp add: amount_def field_simps)

lemma dmul_nonneg: "0 \<le> x \<Longrightarrow> 0 \<le> y \<Longrightarrow> 0 \<le> dmul x y"
  by (auto simp: dmul_def ctx_def Let_def intro!: mult_nonneg_nonneg half_even.mode_ge
      divide_nonneg_nonneg less_imp_le [OF ten_pow_pos])

lemma cents_InrE:
  assumes "cents v = Inr k"
  obtains n where "to_decimal v = Some (Fin n)" "0 \<le> n" "n < 10 ^ 14" "dmul n 100 = of_int k"
proof -
  from assms have "\<exists>n. to_decimal v = Some (Fin n) \<and> 0 \<le> n \<and> n < 10 ^ 14 \<and> dmul n 100 = of_int k"
    by (auto simp: cents_def split: pyval.splits option.splits decimal.splits if_splits)
  with that show ?thesis by blast
qed

lemma cents_nonneg: "cents v = Inr k \<Longrightarrow> 0 \<le> k"
  by (elim cents_InrE) (metis dmul_nonneg of_int_0_le_iff zero_le_numeral)

lemma amount_le_iff [simp]: "amount a \<le> amount b \<longleftrightarrow> a \<le> b"
  by (simp add: amount_def divide_le_cancel)

lemma amount_add: "amount (a + b) = amount a + amount b"
  by (simp add: amount_def add_divide_distrib)

lemma amount_diff: "amount (a - b) = amount a - amount b"
  by (simp add: amount_def diff_divide_distrib)

lemma amount_nonneg [simp]: "0 \<le> amount a \<longleftrightarrow> 0 \<le> a"
  by (simp add: amount_def zero_le_divide_iff)

lemma amount_zero [simp]: "amount 0 = 0"
  by (simp add: amount_def)

lemma amount_pos [simp]: "0 < amount a \<longleftrightarrow> 0 < a"
  by (simp add: amount_def zero_less_divide_iff)

lemma amount_inject [simp]: "amount a = amount b \<longleftrightarrow> a = b"
  by (simp add: amount_def)

subsection \<open>Facts about the reward plan\<close>

definition indirect_shares :: "int \<Rightarrow> nat \<Rightarrow> int list" where
  "indirect_shares v n = map (\<lambda>i. indirect_pool v n div int n +
     (if int i < indirect_pool v n mod int n then 1 else 0)) [0..<n]"

lemma sum_indicator_below: "0 \<le> r \<Longrightarrow> r \<le> int n \<Longrightarrow>
    sum_list (map (\<lambda>i. if int i < r then 1 else 0 :: int) [0..<n]) = r"
proof (induction n arbitrary: r)
  case 0
  then show ?case by simp
next
  case (Suc n)
  show ?case
  proof (cases "r \<le> int n")
    case True
    with Suc show ?thesis by simp
  next
    case False
    with Suc.prems have r: "r = int n + 1" by simp
    have "sum_list (map (\<lambda>i. if int i < r then 1 else 0 :: int) [0..<n]) =
        sum_list (map (\<lambda>i. 1) [0..<n])"
      by (intro arg_cong [where f = sum_list] map_cong) (auto simp: r)
    then show ?thesis by (simp add: r sum_list_triv)
  qed
qed

lemma sum_indirect_shares: 
  assumes "0 < n" shows "sum_list (indirect_shares v n) = indirect_pool v n"
proof -
  have "sum_list (indirect_shares v n) = int n * (indirect_pool v n div int n) +
     sum_list (map (\<lambda>i. if int i < indirect_pool v n mod int n then 1 else 0) [0..<n])"
    by (simp add: indirect_shares_def sum_list_addf sum_list_triv)
  also have "\<dots> = int n * (indirect_pool v n div int n) + indirect_pool v n mod int n"
    using assms by (subst sum_indicator_below) (auto simp: less_imp_le)
  finally show ?thesis by simp
qed

lemma indirect_pool_bounds:
  assumes "0 \<le> v"
  shows "0 \<le> indirect_pool v n" "indirect_pool v n \<le> v * 7 div 100" "indirect_pool v n \<le> v div 100 * int n"
proof -
  show "0 \<le> indirect_pool v n"
    using assms by (simp add: indirect_pool_def pos_imp_zdiv_nonneg_iff)
  have "v * int (min n 7) \<le> v * 7"
    using assms by (intro mult_left_mono) auto
  then have "v * int (min n 7) div 100 \<le> v * 7 div 100" by (rule zdiv_mono1) simp
  then show "indirect_pool v n \<le> v * 7 div 100" by (simp add: indirect_pool_def min.coboundedI1)
  show "indirect_pool v n \<le> v div 100 * int n" by (simp add: indirect_pool_def)
qed

lemma indirect_share_range:
  assumes "0 \<le> v" and "x \<in> set (indirect_shares v n)"
  shows "0 \<le> x \<and> x \<le> v div 100"
proof -
  from assms obtain i where i: "i < n" and
    x: "x = indirect_pool v n div int n + (if int i < indirect_pool v n mod int n then 1 else 0)"
    by (auto simp: indirect_shares_def)
  have n: "0 < int n" using i by simp
  have p: "0 \<le> indirect_pool v n" and c: "indirect_pool v n \<le> v div 100 * int n"
    using indirect_pool_bounds [OF assms(1)] by auto
  have le: "indirect_pool v n div int n \<le> v div 100"
    using c n by (metis nonzero_mult_div_cancel_right order_less_irrefl zdiv_mono1)
  have "x \<le> v div 100"
  proof (cases "int i < indirect_pool v n mod int n")
    case False
    with le x show ?thesis by simp
  next
    case True
    then have "int n * (indirect_pool v n div int n) < v div 100 * int n"
      using c mult_div_mod_eq [of "int n" "indirect_pool v n"] by linarith
    then have "indirect_pool v n div int n < v div 100"
      using n by (simp add: mult.commute)
    with x True show ?thesis by simp
  qed
  moreover have "0 \<le> x" using p n x by (simp add: pos_imp_zdiv_nonneg_iff)
  ultimately show ?thesis by simp
qed

lemma map_fst_enumerate: "map (\<lambda>x. f (fst x)) (enumerate 0 xs) = map f [0..<length xs]"
  by (simp add: enumerate_eq_zip flip: map_map [unfolded o_def, of f fst])

lemma map_snd_enumerate: "map snd (enumerate 0 xs) = xs"
  by (simp add: enumerate_eq_zip)

lemma indirect_rows_cents: "map pr_cents (indirect_rows v xs) = indirect_shares v (length xs)"
  using map_fst_enumerate [of "\<lambda>i. indirect_pool v (length xs) div int (length xs) +
    (if int i < indirect_pool v (length xs) mod int (length xs) then 1 else 0)" xs]
  by (simp add: indirect_rows_def Let_def indirect_shares_def o_def split_def)

lemma indirect_rows_members: "map pr_member (indirect_rows v xs) = xs"
  by (simp add: indirect_rows_def Let_def o_def split_def map_snd_enumerate)

lemma indirect_rows_kind: "r \<in> set (indirect_rows v xs) \<Longrightarrow> pr_kind r = IndirectReferral"
  by (auto simp: indirect_rows_def Let_def)

lemma reward_plan_InrE:
  assumes "reward_plan base owner ancs = Inr rows"
  obtains v where "cents base = Inr v" "0 \<le> v"
    "map pr_member rows = owner # ancs"
    "map pr_cents rows = v * 3 div 100 # (if ancs = [] then [] else
        v * 5 div 100 # indirect_shares v (length ancs - 1))"
proof -
  from assms obtain v where v: "cents base = Inr v" by (auto simp: reward_plan_def bindE_Inr_iff)
  have rows: "rows = [\<lparr>pr_member = owner, pr_kind = Loyalty, pr_rate = 3, pr_cents = v * 3 div 100,
         pr_distance = 0, pr_numerator = 3, pr_denominator = 1\<rparr>] @
       (case ancs of [] \<Rightarrow> [] | a # _ \<Rightarrow>
          [\<lparr>pr_member = a, pr_kind = DirectReferral, pr_rate = 5, pr_cents = v * 5 div 100,
            pr_distance = 1, pr_numerator = 5, pr_denominator = 1\<rparr>]) @
       (if tl ancs = [] then [] else indirect_rows v (tl ancs))"
    using assms unfolding reward_plan_def v bindE.simps by (simp only: sum.inject)
  have tail: "map pr_cents (if xs = [] then [] else indirect_rows v xs) = indirect_shares v (length xs)"
    for xs :: "'a list"
    by (cases xs) (simp_all add: indirect_rows_cents, simp add: indirect_shares_def)
  have "map pr_member rows = owner # ancs"
    unfolding rows by (cases ancs) (simp_all add: indirect_rows_members)
  moreover have "map pr_cents rows = v * 3 div 100 #
      (if ancs = [] then [] else v * 5 div 100 # indirect_shares v (length ancs - 1))"
    unfolding rows map_append tail
    by (cases ancs) (simp_all, simp add: indirect_shares_def)
  ultimately show ?thesis by (rule that [OF v cents_nonneg [OF v]])
qed

lemma reward_plan_Inr:
  assumes "reward_plan base owner ancs = Inr rows" and "cents base = Inr v"
  shows "map pr_member rows = owner # ancs"
    and "map pr_cents rows = v * 3 div 100 # (if ancs = [] then [] else
        v * 5 div 100 # indirect_shares v (length ancs - 1))"
  by (rule reward_plan_InrE [OF assms(1)], use assms(2) in simp)+

subsection \<open>Facts about the departure loop\<close>

text \<open>The reference: the sum of the nights still to come on the local clock.\<close>

definition night_due :: "bool \<Rightarrow> date \<Rightarrow> int \<Rightarrow> date \<Rightarrow> bool" where
  "night_due arrived today hour d = (\<not> arrived \<or> today < d \<or> (d = today \<and> hour < 20))"

fun priced_dates :: "night list \<Rightarrow> (date \<times> int) list option" where
  "priced_dates [] = Some []"
| "priced_dates (n # ns) = (case (strptime_ymd (night_date n), cents (night_value n), priced_dates ns) of
     (Some d, Inr v, Some ps) \<Rightarrow> Some ((d, v) # ps)
   | _ \<Rightarrow> None)"

definition due_total :: "bool \<Rightarrow> date \<Rightarrow> int \<Rightarrow> (date \<times> int) list \<Rightarrow> int" where
  "due_total arrived today hour ps =
     sum_list (map snd (filter (\<lambda>p. night_due arrived today hour (fst p)) ps))"

lemma departure_loop_spec:
  "departure_loop arrived today hour ns dates acc = Inr t \<longleftrightarrow>
     (\<exists>ps. priced_dates ns = Some ps \<and> distinct (map fst ps) \<and> set (map fst ps) \<inter> set dates = {} \<and>
        t = acc + due_total arrived today hour ps)"
proof (induction ns arbitrary: dates acc)
  case Nil
  then show ?case by (auto simp: due_total_def)
next
  case (Cons n ns)
  show ?case
  proof (cases "strptime_ymd (night_date n)")
    case None
    then show ?thesis by simp
  next
    case (Some d)
    show ?thesis
    proof (cases "cents (night_value n)")
      case (Inl e)
      with Some show ?thesis by simp
    next
      case (Inr v)
      show ?thesis
        using Some Inr
        by (cases "priced_dates ns") (auto simp: Cons.IH due_total_def night_due_def)
    qed
  qed
qed

lemma priced_dates_all_nonneg: "priced_dates ns = Some ps \<Longrightarrow> list_all (\<lambda>p. 0 \<le> snd p) ps"
  by (induction ns arbitrary: ps) (auto split: option.splits sum.splits dest: cents_nonneg)

lemma priced_dates_nonneg: "priced_dates ns = Some ps \<Longrightarrow> p \<in> set ps \<Longrightarrow> 0 \<le> snd p"
  using priced_dates_all_nonneg by (auto simp: list_all_iff)

lemma due_total_mono:
  assumes "\<And>p. p \<in> set ps \<Longrightarrow> 0 \<le> snd p"
    and "\<And>d. night_due a today h d \<Longrightarrow> night_due a' today' h' d"
  shows "due_total a today h ps \<le> due_total a' today' h' ps"
  using assms by (induction ps) (auto simp: due_total_def intro: add_increasing)

lemma due_total_nonneg: "(\<And>p. p \<in> set ps \<Longrightarrow> 0 \<le> snd p) \<Longrightarrow> 0 \<le> due_total a today h ps"
  unfolding due_total_def by (intro sum_list_nonneg_map) auto

lemma due_total_le_sum:
  "(\<And>p. p \<in> set ps \<Longrightarrow> 0 \<le> snd p) \<Longrightarrow> due_total a today h ps \<le> sum_list (map snd ps)"
  by (induction ps) (auto simp: due_total_def intro: add_increasing)


lemma refund_split_parts:
  assumes "refund_split refundable cash points = Inr s"
    and r: "cents refundable = Inr r" and c: "cents cash = Inr c" and p: "cents points = Inr p"
  shows "sp_cash s + sp_points s = amount r \<and>
    0 \<le> sp_cash s \<and> sp_cash s \<le> amount c \<and> 0 \<le> sp_points s \<and> sp_points s \<le> amount p \<and>
    (0 < c + p \<longrightarrow> sp_cash s = amount (r * c div (c + p)))"
proof -
  have nn: "0 \<le> r" "0 \<le> c" "0 \<le> p" using r c p by (auto dest: cents_nonneg)
  from assms have le: "r \<le> c + p"
    by (auto simp: refund_split_def split: if_splits)
  define k where "k = (if c + p \<noteq> 0 then r * c div (c + p) else 0)"
  have s: "s = \<lparr>sp_cash = amount k, sp_points = amount (r - k)\<rparr>"
    using assms by (auto simp: refund_split_def Let_def k_def split: if_splits)
  have "0 \<le> k \<and> k \<le> c \<and> k \<le> r \<and> r - k \<le> p"
  proof (cases "c + p = 0")
    case True
    with nn le show ?thesis by (simp add: k_def)
  next
    case False
    with nn have pos: "0 < c + p" by simp
    have k: "k = r * c div (c + p)" using False by (simp add: k_def)
    have "0 \<le> k" using nn pos by (simp add: k pos_imp_zdiv_nonneg_iff)
    moreover have "r * c \<le> c * (c + p)"
      using mult_right_mono [OF le nn(2)] by (simp add: mult.commute)
    then have "k \<le> c" using zdiv_mono1 [OF _ pos] pos by (fastforce simp: k)
    moreover have "r * c \<le> r * (c + p)" using nn by (intro mult_left_mono) auto
    then have "k \<le> r" using zdiv_mono1 [OF _ pos] pos by (fastforce simp: k)
    moreover have "(r - p) * (c + p) \<le> r * c"
    proof -
      have "p * r \<le> p * (c + p)" using le nn by (intro mult_left_mono) auto
      then show ?thesis by (simp add: algebra_simps)
    qed
    then have "r - p \<le> k" using zdiv_mono1 [OF _ pos] pos by (fastforce simp: k)
    ultimately show ?thesis by simp
  qed
  then show ?thesis
    by (simp add: s flip: amount_add) (simp add: k_def)
qed

lemma departure_refund_nonneg: "departure_refund nights v zone a = Inr x \<Longrightarrow> 0 \<le> x"
  by (auto simp: departure_refund_def bindE_Inr_iff departure_loop_spec split: datetime.splits
      intro!: due_total_nonneg dest: priced_dates_nonneg)

subsection \<open>Properties\<close>

text \<open>Reading an amount back from its halalas is the identity: \<open>cents(amount(k)) == k\<close> for
  every whole number of halalas the ledger columns can hold.\<close>

lemma cents_amount_roundtrip:
  assumes "0 \<le> k" and "k < 10 ^ 16"
  shows "cents (PyDec (Fin (amount k))) = Inr k"
  using assms by simp

lemma cents_amount_roundtrip_at: "cents (PyDec (Fin (amount 12345))) = Inr 12345"
  by (rule cents_amount_roundtrip) simp_all

text \<open>A reward plan never promises more than fifteen per cent of the base. The guest
  gets the floor of 3%, the direct inviter the floor of 5%, and the older inviters share exactly
  the indirect pool, each at most 1% of the base.\<close>

lemma reward_plan_budget:
  assumes plan: "reward_plan base owner ancs = Inr rows" and v: "cents base = Inr v"
  shows "map pr_member rows = owner # ancs \<and>
    sum_list (map pr_cents rows) * 100 \<le> v * 15 \<and>
    (case map pr_cents rows of
       own # direct # older \<Rightarrow> own = v * 3 div 100 \<and> direct = v * 5 div 100 \<and>
         (older \<noteq> [] \<longrightarrow> sum_list older = indirect_pool v (length older)) \<and>
         list_all (\<lambda>x. 0 \<le> x \<and> x \<le> v div 100) older
     | own # [] \<Rightarrow> own = v * 3 div 100
     | [] \<Rightarrow> False)"
proof -
  note m = reward_plan_Inr (1) [OF plan v] and c = reward_plan_Inr (2) [OF plan v]
  have v0: "0 \<le> v" using v by (rule cents_nonneg)
  define sh where "sh = indirect_shares v (length ancs - 1)"
  have len: "length sh = length ancs - 1" by (simp add: sh_def indirect_shares_def)
  have sum: "sum_list sh = indirect_pool v (length sh)" if "sh \<noteq> []"
    using sum_indirect_shares [of "length ancs - 1" v] that len
    by (cases "length ancs - 1") (auto simp: sh_def)
  have pool: "sum_list sh * 100 \<le> v * 7"
    using sum indirect_pool_bounds [OF v0, of "length sh"] v0 by (cases "sh = []") auto
  have own: "v * 3 div 100 * 100 \<le> v * 3" "v * 5 div 100 * 100 \<le> v * 5" by auto
  have range: "list_all (\<lambda>x. 0 \<le> x \<and> x \<le> v div 100) sh"
    using indirect_share_range [OF v0] by (auto simp: list_all_iff sh_def)
  show ?thesis
    unfolding m c sh_def [symmetric] using own pool sum range v0
    by (cases "ancs = []") auto
qed

lemma reward_plan_budget_at:
  "\<exists>rows. reward_plan (PyStr ''1000.00'') (1::nat) [2, 3, 4] = Inr rows \<and>
     sum_list (map pr_cents rows) * 100 \<le> 100000 * (15::int)"
proof -
  have v: "cents (PyStr ''1000.00'') = Inr 100000"
    by (simp add: cents_def text_eval dmul_def ctx_eval round_down_def)
  have "\<exists>rows. reward_plan (PyStr ''1000.00'') (1::nat) [2, 3, 4] = Inr rows"
    by (simp add: reward_plan_def v)
  then obtain rows where rows: "reward_plan (PyStr ''1000.00'') (1::nat) [2, 3, 4] = Inr rows" ..
  from reward_plan_budget [OF rows v] rows show ?thesis by auto
qed

text \<open>The indirect pool is shared fairly: whatever the number of older inviters, no two
  of them differ by more than one halala, and nearer inviters never get less than farther ones.\<close>

lemma indirect_rows_fair:
  assumes "i < j" and "j < length older"
  shows "pr_cents (indirect_rows v older ! j) \<le> pr_cents (indirect_rows v older ! i) \<and>
    pr_cents (indirect_rows v older ! i) \<le> pr_cents (indirect_rows v older ! j) + 1"
proof -
  have len: "length (indirect_rows v older) = length older"
    by (simp add: indirect_rows_def Let_def)
  have "pr_cents (indirect_rows v older ! k) = indirect_shares v (length older) ! k"
    if "k < length older" for k
    using that by (simp add: len flip: indirect_rows_cents)
  with assms show ?thesis by (auto simp: indirect_shares_def)
qed

lemma indirect_rows_fair_at:
  "pr_cents (indirect_rows 1003 [10, 20, 30 :: nat] ! 2) \<le> pr_cents (indirect_rows 1003 [10, 20, 30 :: nat] ! 0)"
  using indirect_rows_fair [of 0 2 "[10, 20, 30 :: nat]" 1003] by simp

text \<open>C4: a refund split neither creates nor loses money and never returns more on one side
  than was paid on it: cash and points add up to the refundable amount, the cash part is the
  proportional share rounded down, and each part is between zero and what was paid.\<close>

theorem refund_split_conserves:
  assumes "refund_split refundable cash points = Inr s"
    and r: "cents refundable = Inr r" and c: "cents cash = Inr c" and p: "cents points = Inr p"
  shows "sp_cash s + sp_points s = amount r \<and>
    0 \<le> sp_cash s \<and> sp_cash s \<le> amount c \<and> 0 \<le> sp_points s \<and> sp_points s \<le> amount p \<and>
    (0 < c + p \<longrightarrow> sp_cash s = amount (r * c div (c + p)))"
  by (rule refund_split_parts [OF assms])

theorem refund_split_conserves_witness:
  "\<exists>s. refund_split (PyInt 10) (PyInt 20) (PyInt 10) = Inr s \<and> sp_cash s + sp_points s = amount 1000"
proof -
  have c: "cents (PyInt 10) = Inr 1000" "cents (PyInt 20) = Inr 2000"
    by (simp_all add: cents_def dmul_def ctx_eval round_down_def)
  obtain s where s: "refund_split (PyInt 10) (PyInt 20) (PyInt 10) = Inr s"
    by (simp add: refund_split_def c)
  from refund_split_conserves [OF s c(1) c(2) c(1)] s show ?thesis by blast
qed

text \<open>An early departure is refunded exactly the nights still to come on the listing's
  clock (the night of the departure day counts before 20:00). The call returns an amount exactly
  when every night has a readable date and an exact price and no date occurs twice.\<close>

lemma departure_refund_exact:
  "departure_refund nights (Aware t) (Some off) arrived = Inr x \<longleftrightarrow>
     (\<exists>ps. priced_dates nights = Some ps \<and> distinct (map fst ps) \<and>
        x = amount (due_total arrived (local_date off t) (local_hour off t) ps))"
  by (auto simp: departure_refund_def of_option_def bindE_Inr_iff departure_loop_spec)

text \<open>Leaving later never refunds more. If one departure is not earlier than another on the
  local clock (a later day, or the same day at the same hour or later), its refund is at most the
  other's, and no refund exceeds the value of all nights.\<close>

lemma departure_refund_antimono:
  assumes e: "departure_refund nights (Aware t) (Some off) True = Inr x"
    and l: "departure_refund nights (Aware u) (Some off) True = Inr y"
    and later: "local_date off t < local_date off u \<or>
      (local_date off t = local_date off u \<and> local_hour off t \<le> local_hour off u)"
  shows "0 \<le> y \<and> y \<le> x \<and>
    (\<exists>ps. priced_dates nights = Some ps \<and> x \<le> amount (sum_list (map snd ps)))"
proof -
  from e obtain ps where ps: "priced_dates nights = Some ps"
    and x: "x = amount (due_total True (local_date off t) (local_hour off t) ps)"
    by (auto simp: departure_refund_def of_option_def bindE_Inr_iff departure_loop_spec)
  from l ps have y: "y = amount (due_total True (local_date off u) (local_hour off u) ps)"
    by (auto simp: departure_refund_def of_option_def bindE_Inr_iff departure_loop_spec)
  note nn = priced_dates_nonneg [OF ps]
  have "due_total True (local_date off u) (local_hour off u) ps \<le>
      due_total True (local_date off t) (local_hour off t) ps"
    using later by (intro due_total_mono nn) (auto simp: night_due_def)
  with ps x y due_total_nonneg [OF nn] due_total_le_sum [OF nn] show ?thesis by simp
qed

lemma departure_refund_antimono_at:
  "\<exists>x y. departure_refund [\<lparr>night_date = ''2026-01-10'', night_value = PyInt 100\<rparr>]
      (Aware 0) (Some (\<lambda>_. 0)) True = Inr x \<and>
    departure_refund [\<lparr>night_date = ''2026-01-10'', night_value = PyInt 100\<rparr>]
      (Aware 1) (Some (\<lambda>_. 0)) True = Inr y \<and> 0 \<le> y \<and> y \<le> x"
proof -
  let ?n = "[\<lparr>night_date = ''2026-01-10'', night_value = PyInt 100\<rparr>]"
  have c: "cents (PyInt 100) = Inr 10000"
    by (simp add: cents_def dmul_def ctx_eval round_down_def)
  have d: "\<exists>d. strptime_ymd ''2026-01-10'' = Some d" by (simp add: date_eval)
  have "\<exists>x. departure_refund ?n (Aware t) (Some (\<lambda>_. 0)) True = Inr x" for t
    using c d by (auto simp: departure_refund_def of_option_def)
  then obtain x y where xy: "departure_refund ?n (Aware 0) (Some (\<lambda>_. 0)) True = Inr x"
    "departure_refund ?n (Aware 1) (Some (\<lambda>_. 0)) True = Inr y" by blast
  from departure_refund_antimono [OF xy] xy show ?thesis
    by (auto simp: local_date_def local_hour_def day_us_def)
qed

text \<open>The two-decimal check of \<open>cents\<close> sees the hundredfold after rounding to 28 digits,
  so a value with a far-away third decimal is accepted and silently loses it.\<close>

lemma cents_accepts_tiny_excess:
  "cents (PyStr ''1.000000000000000000000000000000001'') = Inr 100"
  by (simp add: cents_def text_eval dmul_def ctx_eval round_down_def)

end
