(* ===== verification/Currency.thy ===== *)
theory Currency
  imports PyValue
begin

section \<open>Exchange rates and currency quotes\<close>

text \<open>
  \<open>apps/payments/currency.py\<close>: validation of amounts and rates, the rate snapshot and its
  cache form, the provider's response, the refresh loop with its shared lock, conversion
  through SAR, the auditable quote and its later re-validation. The cache is shared with
  other processes, so the loop is given what it observes at each read (\<open>poll\<close>); its own
  writes are returned as \<open>cache_write\<close> effects. The HTTP client is a parameter.
\<close>

subsection \<open>Settings, amounts and rates\<close>

record fx_config =
  supported_currencies :: "string list"
  minor_units :: "(string \<times> pyval) list"
  lkg_max_age_seconds :: int
  lock_wait_us :: int
  provider_name :: string
  preference_cookie :: string

definition base_fx :: fx_config where
  "base_fx = \<lparr> supported_currencies = [''SAR'', ''MAD'', ''EUR'', ''USD''],
     minor_units = [(''SAR'', PyInt 2), (''MAD'', PyInt 2), (''EUR'', PyInt 2), (''USD'', PyInt 2)],
     lkg_max_age_seconds = 172800, lock_wait_us = 10000000, provider_name = ''open.er-api.com'',
     preference_cookie = ''lsa_display_currency'' \<rparr>"

definition payment_currency :: string where
  "payment_currency = ''SAR''"

text \<open>
  The classes under \<open>CurrencyError\<close>, which an \<open>except CurrencyError\<close> catches.
\<close>

fun is_currency_error :: "exc \<Rightarrow> bool" where
  "is_currency_error (CurrencyError _) = True"
| "is_currency_error (UnsupportedCurrency _) = True"
| "is_currency_error (RateUnavailable _) = True"
| "is_currency_error (RateResponse _) = True"
| "is_currency_error _ = False"

text \<open>
  \<open>str(value or "")\<close>: the texts of numbers, lists and dicts are never currency codes, and
  read as the empty text here.
\<close>

definition currency_text :: "pyval \<Rightarrow> string" where
  "currency_text v = (case str_of v of Some s \<Rightarrow> s | None \<Rightarrow> [])"

definition normalize_currency :: "fx_config \<Rightarrow> pyval \<Rightarrow> string res" where
  "normalize_currency cfg value =
     (let code = map upper_char (strip (currency_text value))
      in if code \<in> set (supported_currencies cfg) then Inr code
         else Inl (UnsupportedCurrency ''unsupported_currency''))"

definition selected_currency ::
    "fx_config \<Rightarrow> (string \<times> pyval) list \<Rightarrow> (string \<times> pyval) list \<Rightarrow> string" where
  "selected_currency cfg session cookies =
     (let s = dget session ''display_currency'';
          raw = (if truthy s then s else dget cookies (preference_cookie cfg))
      in case normalize_currency cfg (if truthy raw then raw else PyStr payment_currency) of
           Inr code \<Rightarrow> code
         | Inl e \<Rightarrow> payment_currency)"

text \<open>The quantum \<open>Decimal(1).scaleb(-k)\<close> is given by its number \<open>k\<close> of decimals.\<close>

definition currency_quantum :: "fx_config \<Rightarrow> pyval \<Rightarrow> nat res" where
  "currency_quantum cfg currency =
     bindE (normalize_currency cfg currency) (\<lambda>code.
       case dget (minor_units cfg) code of
         PyInt m \<Rightarrow> if m < 0 then Inl (UnsupportedCurrency ''currency_minor_units_unavailable'')
                    else Inr (nat m)
       | PyBool b \<Rightarrow> Inr (if b then 1 else 0)
       | _ \<Rightarrow> Inl (UnsupportedCurrency ''currency_minor_units_unavailable''))"

definition validated_amount :: "pyval \<Rightarrow> rat res" where
  "validated_amount value =
     (case decimal_of_str value of
        Some (Fin a) \<Rightarrow> if a < 0 then Inl (CurrencyError ''invalid_amount'') else Inr a
      | _ \<Rightarrow> Inl (CurrencyError ''invalid_amount''))"

definition normalize_amount :: "fx_config \<Rightarrow> pyval \<Rightarrow> pyval \<Rightarrow> rat res" where
  "normalize_amount cfg value currency =
     bindE (validated_amount value) (\<lambda>a.
     bindE (currency_quantum cfg currency) (\<lambda>k. quantize round_half_up k a))"

definition decimal_rate :: "pyval \<Rightarrow> string \<Rightarrow> rat res" where
  "decimal_rate value code =
     (case decimal_of_str value of
        Some (Fin r) \<Rightarrow> if r \<le> 0 then Inl (RateResponse (''invalid_rate_'' @ code)) else Inr r
      | _ \<Rightarrow> Inl (RateResponse (''invalid_rate_'' @ code)))"

text \<open>\<open>datetime.fromtimestamp\<close> refuses seconds after 9999-12-31T23:59:59Z.\<close>

definition aware_datetime :: "pyval \<Rightarrow> string \<Rightarrow> datetime res" where
  "aware_datetime value field =
     (case value of PyBool b \<Rightarrow> Inl (RateResponse (''invalid_'' @ field))
      | _ \<Rightarrow> bindE (py_int value) (\<lambda>n. case n of
          None \<Rightarrow> Inl (RateResponse (''invalid_'' @ field))
        | Some t \<Rightarrow> if t \<le> 0 \<or> 253402300799 < t then Inl (RateResponse (''invalid_'' @ field))
                    else Inr (Aware (seconds t))))"

subsection \<open>Snapshots and their cache form\<close>

record rate_snapshot =
  provider :: string
  base_currency :: string
  rates :: "(string \<times> rat) list"
  rate_timestamp :: datetime
  fetched_at :: datetime

definition snapshot_rate :: "fx_config \<Rightarrow> rate_snapshot \<Rightarrow> pyval \<Rightarrow> rat res" where
  "snapshot_rate cfg s currency =
     bindE (normalize_currency cfg currency) (\<lambda>code.
       of_option (RateUnavailable (''missing_rate_'' @ code)) (map_of (rates s) code))"

definition rates_value :: "(string \<times> rat) list \<Rightarrow> pyval" where
  "rates_value rs = PyDict (map (\<lambda>(code, r). (code, PyDecText r)) rs)"

definition to_cache_value :: "rate_snapshot \<Rightarrow> pyval" where
  "to_cache_value s = PyDict
     [(''provider'', PyStr (provider s)), (''base_currency'', PyStr (base_currency s)),
      (''rates'', rates_value (rates s)), (''rate_timestamp'', PyTimeText (rate_timestamp s)),
      (''fetched_at'', PyTimeText (fetched_at s))]"

text \<open>The comprehension over the supported codes that both readers of rates use.\<close>

definition read_rates :: "fx_config \<Rightarrow> (string \<times> pyval) list \<Rightarrow> (string \<times> rat) list res" where
  "read_rates cfg raw =
     mapE (\<lambda>code. bindE (decimal_rate (dget raw code) code) (\<lambda>r. Inr (code, r)))
       (supported_currencies cfg)"

definition sar_rate_check :: "(string \<times> rat) list \<Rightarrow> string \<Rightarrow> unit res" where
  "sar_rate_check rs message =
     bindE (of_option (KeyError payment_currency) (map_of rs payment_currency))
       (\<lambda>r. ensure (r = 1) (RateResponse message))"

definition from_cache_value :: "fx_config \<Rightarrow> pyval \<Rightarrow> rate_snapshot res" where
  "from_cache_value cfg value =
     bindE (of_option (RateResponse ''invalid_cached_rates'') (dict_items value)) (\<lambda>d.
     bindE (case str_of (dget d ''provider'') of
              Some p \<Rightarrow> if strip p = [] then Inl (RateResponse ''invalid_cached_provider'') else Inr p
            | None \<Rightarrow> Inl (RateResponse ''invalid_cached_provider'')) (\<lambda>p.
     bindE (if dget d ''base_currency'' \<noteq> PyStr payment_currency
            then Inl (RateResponse ''invalid_cached_base'')
            else of_option (RateResponse ''invalid_cached_base'') (dict_items (dget d ''rates'')))
       (\<lambda>raw.
     bindE (read_rates cfg raw) (\<lambda>rs.
     bindE (sar_rate_check rs ''invalid_sar_rate'') (\<lambda>_.
     bindE (of_option (RateResponse ''invalid_cached_timestamp'')
              (datetime_of_str (dget d ''rate_timestamp''))) (\<lambda>rt.
     bindE (of_option (RateResponse ''invalid_cached_timestamp'')
              (datetime_of_str (dget d ''fetched_at''))) (\<lambda>ft.
     if is_naive rt \<or> is_naive ft then Inl (RateResponse ''invalid_cached_timestamp'')
     else Inr \<lparr> provider = strip p, base_currency = payment_currency, rates = rs,
                rate_timestamp = rt, fetched_at = ft \<rparr>)))))))"

subsection \<open>The provider\<close>

text \<open>
  What \<open>http.get\<close> gives: a timeout or network error, or a status with a body that parses
  as JSON (Some) or does not (None).
\<close>

datatype http_outcome = NetworkFailure | Response int "pyval option"

definition validate_document :: "fx_config \<Rightarrow> instant \<Rightarrow> pyval \<Rightarrow> rate_snapshot res" where
  "validate_document cfg now document =
     bindE (of_option (RateResponse ''fx_provider_invalid_document'') (dict_items document)) (\<lambda>d.
     bindE (ensure (dget d ''result'' = PyStr ''success'')
              (RateResponse ''fx_provider_unsuccessful'')) (\<lambda>_.
     bindE (ensure (dget d ''base_code'' = PyStr payment_currency)
              (RateResponse ''fx_provider_invalid_base'')) (\<lambda>_.
     bindE (of_option (RateResponse ''fx_provider_missing_rates'')
              (dict_items (dget d ''rates''))) (\<lambda>raw.
     bindE (read_rates cfg raw) (\<lambda>rs.
     bindE (sar_rate_check rs ''fx_provider_invalid_sar_rate'') (\<lambda>_.
     bindE (if dget d ''time_last_update_unix'' \<noteq> PyNone
            then aware_datetime (dget d ''time_last_update_unix'') ''time_last_update_unix''
            else Inr (Aware now)) (\<lambda>rt.
     bindE (if dget d ''time_next_update_unix'' \<noteq> PyNone
            then bindE (aware_datetime (dget d ''time_next_update_unix'') ''time_next_update_unix'')
                   (\<lambda>_. Inr ())
            else Inr ()) (\<lambda>_.
     Inr \<lparr> provider = provider_name cfg, base_currency = payment_currency, rates = rs,
            rate_timestamp = rt, fetched_at = Aware now \<rparr>))))))))"

definition fetch :: "fx_config \<Rightarrow> instant \<Rightarrow> http_outcome \<Rightarrow> rate_snapshot res" where
  "fetch cfg now outcome =
     (case outcome of
        NetworkFailure \<Rightarrow> Inl (RateUnavailable ''fx_provider_unavailable'')
      | Response status body \<Rightarrow>
          if status < 200 \<or> 300 \<le> status then Inl (RateUnavailable ''fx_provider_http_error'')
          else bindE (of_option (RateResponse ''fx_provider_invalid_json'') body)
                 (validate_document cfg now))"

subsection \<open>Reading rates through the cache\<close>

definition read_cache :: "fx_config \<Rightarrow> pyval \<Rightarrow> rate_snapshot option res" where
  "read_cache cfg value =
     (if value = PyNone then Inr None
      else case from_cache_value cfg value of
             Inr s \<Rightarrow> Inr (Some s)
           | Inl e \<Rightarrow> if is_currency_error e then Inr None else Inl e)"

definition read_lkg :: "fx_config \<Rightarrow> pyval \<times> instant \<Rightarrow> rate_snapshot option res" where
  "read_lkg cfg seen =
     bindE (read_cache cfg (fst seen)) (\<lambda>r. case r of
         None \<Rightarrow> Inr None
       | Some s \<Rightarrow> (case fetched_at s of
            Aware t \<Rightarrow> if seconds (lkg_max_age_seconds cfg) < snd seen - t then Inr None
                       else Inr (Some s)
          | Naive _ \<Rightarrow> Inl (TypeError ''naive'')))"

datatype cache_write = SetFresh pyval | SetLkg pyval | ReleaseLock

text \<open>
  What one round of the loop sees: the fresh entry, whether the lock is gone before trying
  it and the fallback read then, whether \<open>cache.add\<close> wins the lock (and then the provider's
  answer and the fallback read), whether the lock is gone afterwards, and the monotonic
  clock in microseconds at the deadline test. A fallback read comes with the time of its
  age check.
\<close>

record poll =
  fresh_seen :: pyval
  lock_gone_before :: bool
  lkg_before :: "pyval \<times> instant"
  lock_won :: bool
  http_seen :: http_outcome
  fetch_time :: instant
  lkg_on_failure :: "pyval \<times> instant"
  lock_gone_after :: bool
  lkg_after :: "pyval \<times> instant"
  poll_clock :: int
  lkg_at_deadline :: "pyval \<times> instant"

type_synonym refresh_result = "rate_snapshot res \<times> cache_write list"

definition fetch_or_lkg :: "fx_config \<Rightarrow> poll \<Rightarrow> refresh_result" where
  "fetch_or_lkg cfg p =
     (case fetch cfg (fetch_time p) (http_seen p) of
        Inr s \<Rightarrow> (Inr s, [SetFresh (to_cache_value s), SetLkg (to_cache_value s)])
      | Inl e \<Rightarrow>
          if is_currency_error e then
            (bindE (read_lkg cfg (lkg_on_failure p))
               (of_option (RateUnavailable ''fx_rates_unavailable'')), [])
          else (Inl e, []))"

definition return_if_read ::
    "rate_snapshot option res \<Rightarrow> refresh_result option \<Rightarrow> refresh_result option" where
  "return_if_read r rest =
     (case r of Inl e \<Rightarrow> Some (Inl e, []) | Inr (Some s) \<Rightarrow> Some (Inr s, []) | Inr None \<Rightarrow> rest)"

fun refresh_loop :: "fx_config \<Rightarrow> int \<Rightarrow> bool \<Rightarrow> bool \<Rightarrow> poll list \<Rightarrow> refresh_result option" where
  "refresh_loop cfg deadline force waited [] = None"
| "refresh_loop cfg deadline force waited (p # ps) =
     return_if_read (if waited \<or> \<not> force then read_cache cfg (fresh_seen p) else Inr None)
    (return_if_read (if waited \<and> lock_gone_before p then read_lkg cfg (lkg_before p) else Inr None)
    (if lock_won p
     then Some (fst (fetch_or_lkg cfg p), snd (fetch_or_lkg cfg p) @ [ReleaseLock])
     else return_if_read (if lock_gone_after p then read_lkg cfg (lkg_after p) else Inr None)
    (if deadline \<le> poll_clock p
     then return_if_read (read_lkg cfg (lkg_at_deadline p))
            (Some (Inl (RateUnavailable ''fx_refresh_wait_timeout''), []))
     else refresh_loop cfg deadline force True ps)))"

definition refresh_with_lock :: "fx_config \<Rightarrow> bool \<Rightarrow> int \<Rightarrow> poll list \<Rightarrow> refresh_result option" where
  "refresh_with_lock cfg force started polls =
     refresh_loop cfg (started + lock_wait_us cfg) force False polls"

definition get_rates ::
    "fx_config \<Rightarrow> bool \<Rightarrow> pyval \<Rightarrow> int \<Rightarrow> poll list \<Rightarrow> refresh_result option" where
  "get_rates cfg force first_seen started polls =
     return_if_read (if force then Inr None else read_cache cfg first_seen)
       (refresh_with_lock cfg force started polls)"

subsection \<open>Conversion\<close>

datatype rates_arg = RatesSnapshot rate_snapshot | RatesMapping "(string \<times> pyval) list" | NoRates

definition rates_from_audit_snapshot :: "fx_config \<Rightarrow> pyval \<Rightarrow> rate_snapshot res" where
  "rates_from_audit_snapshot cfg value =
     bindE (of_option (RateUnavailable ''fx_snapshot_missing'') (dict_items value)) (\<lambda>d.
     bindE (of_option (RateUnavailable ''fx_snapshot_rates_missing'')
              (dict_items (dget d ''rates''))) (\<lambda>raw.
     bindE (mapE (\<lambda>code. bindE (decimal_rate (dget raw code) code) (\<lambda>r. Inr (code, r)))
              (filter (\<lambda>code. map_of raw code \<noteq> None) (supported_currencies cfg))) (\<lambda>rs.
     bindE (ensure (map_of rs payment_currency = Some 1)
              (RateResponse ''fx_snapshot_invalid_sar_rate'')) (\<lambda>_.
     bindE (of_option (RateResponse ''fx_snapshot_invalid_timestamp'')
              (datetime_of_str (dget d ''rate_timestamp''))) (\<lambda>rt.
     if is_naive rt then Inl (RateResponse ''fx_snapshot_invalid_timestamp'')
     else Inr \<lparr> provider = (case str_of (dget d ''provider'') of
                              Some p \<Rightarrow> if p = [] then ''snapshot'' else p | None \<Rightarrow> ''snapshot''),
                base_currency = payment_currency, rates = rs,
                rate_timestamp = rt, fetched_at = rt \<rparr>)))))"

definition coerce_snapshot :: "fx_config \<Rightarrow> rates_arg \<Rightarrow> rate_snapshot res" where
  "coerce_snapshot cfg value =
     (case value of RatesSnapshot s \<Rightarrow> Inr s
      | RatesMapping d \<Rightarrow> rates_from_audit_snapshot cfg (PyDict d)
      | NoRates \<Rightarrow> Inl (RateUnavailable ''fx_rates_required''))"

definition identity_snapshot :: "datetime \<Rightarrow> rate_snapshot" where
  "identity_snapshot moment = \<lparr> provider = ''identity'', base_currency = payment_currency,
     rates = [(payment_currency, 1)], rate_timestamp = moment, fetched_at = moment \<rparr>"

definition source_to_sar :: "fx_config \<Rightarrow> pyval \<Rightarrow> pyval \<Rightarrow> rates_arg \<Rightarrow> rat res" where
  "source_to_sar cfg value currency rs =
     bindE (normalize_currency cfg currency) (\<lambda>source.
     bindE (validated_amount value) (\<lambda>a.
       if source = payment_currency then normalize_amount cfg (PyDec (Fin a)) (PyStr payment_currency)
       else bindE (coerce_snapshot cfg rs) (\<lambda>s.
            bindE (snapshot_rate cfg s (PyStr source)) (\<lambda>r.
            bindE (ddiv a r) (\<lambda>q.
              normalize_amount cfg (PyDec (Fin q)) (PyStr payment_currency))))))"

definition sar_to_display :: "fx_config \<Rightarrow> pyval \<Rightarrow> pyval \<Rightarrow> rates_arg \<Rightarrow> rat res" where
  "sar_to_display cfg amount_sar currency rs =
     bindE (normalize_currency cfg currency) (\<lambda>display.
     bindE (normalize_amount cfg amount_sar (PyStr payment_currency)) (\<lambda>a.
       if display = payment_currency then Inr a
       else bindE (coerce_snapshot cfg rs) (\<lambda>s.
            bindE (snapshot_rate cfg s (PyStr display)) (\<lambda>r.
              normalize_amount cfg (PyDec (Fin (dmul a r))) (PyStr display)))))"

text \<open>\<open>self.get_rates()\<close> is given by its outcome.\<close>

definition convert ::
    "fx_config \<Rightarrow> rate_snapshot res \<Rightarrow> pyval \<Rightarrow> pyval \<Rightarrow> pyval \<Rightarrow> rates_arg \<Rightarrow> rat res" where
  "convert cfg own value source_currency display_currency rs =
     bindE (normalize_currency cfg source_currency) (\<lambda>source.
     bindE (normalize_currency cfg display_currency) (\<lambda>display.
       if source = display then normalize_amount cfg value (PyStr source)
       else bindE (if rs = NoRates then own else coerce_snapshot cfg rs) (\<lambda>s.
            bindE (source_to_sar cfg value (PyStr source) (RatesSnapshot s)) (\<lambda>a.
              sar_to_display cfg (PyDec (Fin a)) (PyStr display) (RatesSnapshot s)))))"

subsection \<open>Quotes and their re-validation\<close>

record currency_quote =
  quote_source_amount :: rat
  quote_source_currency :: string
  payment_amount_sar :: rat
  display_amount :: rat
  display_currency :: string
  quote_snapshot :: "(string \<times> pyval) list"

definition quote_document ::
    "rate_snapshot \<Rightarrow> string \<Rightarrow> rat \<Rightarrow> rat \<Rightarrow> string \<Rightarrow> rat \<Rightarrow> rat \<Rightarrow> rat
     \<Rightarrow> datetime \<Rightarrow> datetime \<Rightarrow> (string \<times> pyval) list" where
  "quote_document s src v paid disp shown sr dr created expires =
     [(''version'', PyInt 1), (''provider'', PyStr (provider s)),
      (''base_currency'', PyStr payment_currency),
      (''rate_timestamp'', PyTimeText (rate_timestamp s)),
      (''rates'', rates_value (rates s)),
      (''source_amount'', PyDecText v), (''source_currency'', PyStr src),
      (''payment_amount_sar'', PyDecText paid),
      (''payment_currency'', PyStr payment_currency),
      (''selected_display_currency'', PyStr disp),
      (''display_amount'', PyDecText shown),
      (''source_rate_per_sar'', PyDecText sr),
      (''display_rate_per_sar'', PyDecText dr),
      (''quote_created_at'', PyTimeText created),
      (''quote_expires_at'', PyTimeText expires)]"

definition create_quote ::
    "fx_config \<Rightarrow> rate_snapshot res \<Rightarrow> pyval \<Rightarrow> pyval \<Rightarrow> pyval \<Rightarrow> datetime \<Rightarrow> datetime
     \<Rightarrow> currency_quote res" where
  "create_quote cfg own source_amount source_currency selected created expires =
     bindE (normalize_currency cfg source_currency) (\<lambda>source.
     bindE (normalize_currency cfg selected) (\<lambda>display.
     bindE (validated_amount source_amount) (\<lambda>v.
     bindE (if source = payment_currency \<and> display = payment_currency
            then Inr (identity_snapshot created) else own) (\<lambda>s.
     bindE (source_to_sar cfg (PyDec (Fin v)) (PyStr source) (RatesSnapshot s)) (\<lambda>paid.
     bindE (sar_to_display cfg (PyDec (Fin paid)) (PyStr display) (RatesSnapshot s)) (\<lambda>shown.
     bindE (snapshot_rate cfg s (PyStr source)) (\<lambda>source_rate.
     bindE (snapshot_rate cfg s (PyStr display)) (\<lambda>display_rate.
     Inr \<lparr> quote_source_amount = v, quote_source_currency = source, payment_amount_sar = paid,
            display_amount = shown, display_currency = display,
            quote_snapshot =
              quote_document s source v paid display shown source_rate display_rate created expires \<rparr>))))))))"

definition validate_payment_snapshot ::
    "fx_config \<Rightarrow> pyval \<Rightarrow> pyval \<Rightarrow> pyval \<Rightarrow> pyval \<Rightarrow> unit res" where
  "validate_payment_snapshot cfg source_amount source_currency payment snapshot =
     bindE (of_option (RateResponse ''fx_snapshot_missing'') (dict_items snapshot)) (\<lambda>d.
     bindE (normalize_currency cfg source_currency) (\<lambda>source.
     bindE (normalize_amount cfg payment (PyStr payment_currency)) (\<lambda>paid.
     bindE (ensure (dget d ''source_currency'' = PyStr source)
              (RateResponse ''fx_snapshot_source_currency_mismatch'')) (\<lambda>_.
     bindE (of_option (RateResponse ''fx_snapshot_amount_invalid'')
              (decimal_of_str (dget d ''source_amount''))) (\<lambda>snap_source.
     bindE (of_option (RateResponse ''fx_snapshot_amount_invalid'')
              (decimal_of_str (dget d ''payment_amount_sar''))) (\<lambda>snap_payment.
     bindE (validated_amount source_amount) (\<lambda>v.
     bindE (ensure (snap_source = Fin v)
              (RateResponse ''fx_snapshot_source_amount_mismatch'')) (\<lambda>_.
     bindE (normalize_amount cfg (PyDec snap_payment) (PyStr payment_currency)) (\<lambda>snap_paid.
     bindE (ensure (snap_paid = paid)
              (RateResponse ''fx_snapshot_payment_amount_mismatch'')) (\<lambda>_.
     bindE (ensure (dget d ''payment_currency'' = PyStr payment_currency)
              (RateResponse ''fx_snapshot_payment_currency_mismatch'')) (\<lambda>_.
     bindE (rates_from_audit_snapshot cfg snapshot) (\<lambda>s.
     bindE (source_to_sar cfg source_amount (PyStr source) (RatesSnapshot s)) (\<lambda>expected.
       ensure (expected = paid) (RateResponse ''fx_snapshot_conversion_mismatch''))))))))))))))"

subsection \<open>Usable snapshots\<close>

definition positive_rates :: "(string \<times> rat) list \<Rightarrow> bool" where
  "positive_rates rs = list_all (\<lambda>(code, r). 0 < r) rs"

definition usable :: "fx_config \<Rightarrow> rate_snapshot \<Rightarrow> bool" where
  "usable cfg s = (base_currency s = payment_currency \<and> map fst (rates s) = supported_currencies cfg
     \<and> positive_rates (rates s) \<and> map_of (rates s) payment_currency = Some 1
     \<and> \<not> is_naive (rate_timestamp s) \<and> \<not> is_naive (fetched_at s))"

lemma decimal_rate_pos [result_simps]: "decimal_rate v code = Inr r \<Longrightarrow> 0 < r"
  by (auto simp: decimal_rate_def split: option.splits decimal.splits if_splits)

lemma read_codes_shape:
  "mapE (\<lambda>code. bindE (decimal_rate (dget raw code) code) (\<lambda>r. Inr (code, r))) codes = Inr rs \<Longrightarrow>
     map fst rs = codes \<and> positive_rates rs"
  by (induction codes arbitrary: rs)
    (auto simp: positive_rates_def bindE_Inr_iff dest: decimal_rate_pos)

lemma sar_rate_check_Inr: "sar_rate_check rs m = Inr u \<longleftrightarrow> map_of rs payment_currency = Some 1"
  by (auto simp: sar_rate_check_def bindE_Inr_iff)

lemma aware_datetime_aware: "aware_datetime v f = Inr t \<Longrightarrow> \<not> is_naive t"
  by (auto simp: aware_datetime_def bindE_Inr_iff is_naive_def
      split: pyval.splits option.splits if_splits)

lemma validate_document_usable:
  assumes "validate_document cfg now doc = Inr s"
  shows "usable cfg s \<and> fetched_at s = Aware now"
  using assms unfolding validate_document_def read_rates_def bindE_Inr_iff sar_rate_check_Inr
  by (auto simp: usable_def is_naive_def [of "Aware now"] bindE_Inr_iff
      dest!: read_codes_shape aware_datetime_aware split: if_splits)

lemma from_cache_usable: "from_cache_value cfg v = Inr s \<Longrightarrow> usable cfg s"
  unfolding from_cache_value_def read_rates_def bindE_Inr_iff sar_rate_check_Inr
  by (auto simp: usable_def dest!: read_codes_shape split: if_splits)

lemma fetch_usable: "fetch cfg now out = Inr s \<Longrightarrow> usable cfg s \<and> fetched_at s = Aware now"
  by (auto simp: fetch_def bindE_Inr_iff dest: validate_document_usable
      split: http_outcome.splits if_splits)

lemma read_cache_Some:
  "read_cache cfg v = Inr (Some s) \<Longrightarrow> from_cache_value cfg v = Inr s \<and> usable cfg s"
  by (auto simp: read_cache_def dest: from_cache_usable split: if_splits sum.splits)

definition recent :: "fx_config \<Rightarrow> pyval \<times> instant \<Rightarrow> rate_snapshot \<Rightarrow> bool" where
  "recent cfg seen s = (from_cache_value cfg (fst seen) = Inr s \<and>
     (\<exists>t. fetched_at s = Aware t \<and> snd seen - t \<le> seconds (lkg_max_age_seconds cfg)))"

lemma read_lkg_Some:
  assumes "read_lkg cfg seen = Inr (Some s)"
  shows "recent cfg seen s \<and> usable cfg s"
proof -
  obtain r where r: "read_cache cfg (fst seen) = Inr r"
    using assms by (auto simp: read_lkg_def bindE_Inr_iff)
  obtain s' where s': "r = Some s'" using assms r by (cases r) (simp_all add: read_lkg_def)
  obtain t where t: "fetched_at s' = Aware t"
    using assms r s' by (cases "fetched_at s'") (simp_all add: read_lkg_def)
  have "s' = s" and "snd seen - t \<le> seconds (lkg_max_age_seconds cfg)"
    using assms r s' t by (simp_all add: read_lkg_def split: if_splits)
  then show ?thesis using read_cache_Some [of cfg "fst seen" s] r s' t by (simp add: recent_def)
qed

subsection \<open>The cache round trip\<close>

lemma map_of_rates_value:
  "map_of (map (\<lambda>(code, r). (code, PyDecText r)) rs) c = map_option PyDecText (map_of rs c)"
  by (induction rs) auto

lemma read_back:
  assumes "positive_rates rs" and "distinct (map fst rs)"
    and "\<And>c r. (c, r) \<in> set rs \<Longrightarrow> dget raw c = PyDecText r"
  shows "mapE (\<lambda>code. bindE (decimal_rate (dget raw code) code) (\<lambda>r. Inr (code, r))) (map fst rs) = Inr rs"
  using assms
proof (induction rs)
  case Nil
  then show ?case by simp
next
  case (Cons x rs)
  have "dget raw (fst x) = PyDecText (snd x)" using Cons.prems(3) [of "fst x" "snd x"] by simp
  moreover have "decimal_rate (PyDecText (snd x)) (fst x) = Inr (snd x)"
    using Cons.prems(1) by (auto simp: decimal_rate_def positive_rates_def)
  moreover have "positive_rates rs" "distinct (map fst rs)"
    "\<And>c r. (c, r) \<in> set rs \<Longrightarrow> dget raw c = PyDecText r"
    using Cons.prems by (auto simp: positive_rates_def)
  ultimately show ?case using Cons.IH by simp
qed

lemma dget_rates_value:
  "distinct (map fst rs) \<Longrightarrow> (c, r) \<in> set rs \<Longrightarrow>
     dget (map (\<lambda>(code, r). (code, PyDecText r)) rs) c = PyDecText r"
  by (simp add: dget_def map_of_rates_value)

lemma cache_round_trip:
  assumes "usable cfg s" and "distinct (supported_currencies cfg)"
    and "strip (provider s) = provider s" and "provider s \<noteq> []"
  shows "from_cache_value cfg (to_cache_value s) = Inr s"
proof -
  have d: "distinct (map fst (rates s))" and m: "map fst (rates s) = supported_currencies cfg"
    using assms by (auto simp: usable_def)
  have r: "read_rates cfg (map (\<lambda>(code, r). (code, PyDecText r)) (rates s)) = Inr (rates s)"
    unfolding read_rates_def m [symmetric]
    using assms(1) d by (intro read_back) (auto simp: usable_def dget_rates_value)
  have c: "sar_rate_check (rates s) x = Inr ()" for x
    using assms(1) by (simp add: sar_rate_check_Inr usable_def)
  show ?thesis
    using assms by (simp add: from_cache_value_def to_cache_value_def dget_def rates_value_def r c usable_def of_option_def)
qed

text \<open>A snapshot fetched from the provider is usable (every supported currency has a
  positive rate, SAR exactly 1, the timestamps are aware) and survives the cache: the value
  written by \<open>to_cache_value\<close> is read by \<open>from_cache_value\<close> as the same snapshot.\<close>

lemma snapshot_cache_roundtrip:
  assumes "distinct (supported_currencies cfg)"
    and "fetch cfg now out = Inr s"
    and "strip (provider_name cfg) = provider_name cfg" and "provider_name cfg \<noteq> []"
  shows "from_cache_value cfg (to_cache_value s) = Inr s \<and> usable cfg s"
proof -
  have "provider s = provider_name cfg"
    using assms(2) by (auto simp: fetch_def validate_document_def bindE_Inr_iff
        split: http_outcome.splits if_splits)
  then show ?thesis using assms fetch_usable [OF assms(2)] cache_round_trip by simp
qed

definition sample_document :: pyval where
  "sample_document = PyDict
     [(''result'', PyStr ''success''), (''base_code'', PyStr ''SAR''),
      (''rates'', PyDict [(''SAR'', PyInt 1), (''MAD'', PyStr ''2.5''), (''EUR'', PyStr ''0.25''),
                         (''USD'', PyStr ''0.2''), (''GBP'', PyStr ''x'')]),
      (''time_last_update_unix'', PyInt 1700000000)]"

definition sample_snapshot :: rate_snapshot where
  "sample_snapshot = \<lparr> provider = ''open.er-api.com'', base_currency = ''SAR'',
     rates = [(''SAR'', 1), (''MAD'', 5 / 2), (''EUR'', 1 / 4), (''USD'', 1 / 5)],
     rate_timestamp = Aware 1700000000000000, fetched_at = Aware 1700000100000000 \<rparr>"

lemma sample_fetch:
  "fetch base_fx 1700000100000000 (Response 200 (Some sample_document)) = Inr sample_snapshot"
  by (simp add: fetch_def sample_document_def validate_document_def dget_def read_rates_def
      decimal_rate_def base_fx_def text_eval Let_def sar_rate_check_def payment_currency_def
      aware_datetime_def seconds_def sample_snapshot_def of_option_def ensure_def)

lemma snapshot_cache_roundtrip_at:
  "from_cache_value base_fx (to_cache_value sample_snapshot) = Inr sample_snapshot
     \<and> usable base_fx sample_snapshot"
  by (rule snapshot_cache_roundtrip [OF _ sample_fetch])
    (simp_all add: base_fx_def strip_def is_space_char_def Let_def)

subsection \<open>The refresh loop\<close>

lemma return_if_read_None: "return_if_read r k = None \<longleftrightarrow> r = Inr None \<and> k = None"
  by (auto simp: return_if_read_def split: sum.splits option.splits)

lemma return_if_read_ok:
  "return_if_read r k = Some (Inr s, w) \<longleftrightarrow>
     (r = Inr (Some s) \<and> w = []) \<or> (r = Inr None \<and> k = Some (Inr s, w))"
  by (auto simp: return_if_read_def split: sum.splits option.splits)

lemma refresh_loop_returns:
  assumes "\<exists>i < length ps. deadline \<le> poll_clock (ps ! i)"
  shows "refresh_loop cfg deadline force waited ps \<noteq> None"
  using assms
proof (induction ps arbitrary: waited)
  case Nil
  then show ?case by simp
next
  case (Cons p ps)
  show ?case
  proof (cases "deadline \<le> poll_clock p")
    case True
    then show ?thesis by (simp add: return_if_read_None del: not_None_eq)
  next
    case False
    then have "\<exists>i < length ps. deadline \<le> poll_clock (ps ! i)"
      using Cons.prems by (auto simp: less_Suc_eq_0_disj)
    then have "refresh_loop cfg deadline force True ps \<noteq> None" using Cons.IH by blast
    then show ?thesis by (auto simp: return_if_read_None False simp del: not_None_eq)
  qed
qed

text \<open>Getting the rates never waits forever. The loop sleeps fifty milliseconds between
  rounds, so once the observed clock has advanced that much per round, the call returns (a
  snapshot or an error) within \<open>lock_wait / 50 ms + 1\<close> rounds, whatever other processes do
  to the cache and the lock.\<close>

lemma get_rates_returns:
  assumes "\<forall>i < length polls. started + 50000 * int i \<le> poll_clock (polls ! i)"
    and "lock_wait_us cfg \<le> 50000 * int n" and "n < length polls"
  shows "\<exists>r. get_rates cfg force first_seen started polls = Some r"
proof -
  have "started + lock_wait_us cfg \<le> poll_clock (polls ! n)"
    using assms by (smt (verit))
  then have "refresh_with_lock cfg force started polls \<noteq> None"
    using assms(3) unfolding refresh_with_lock_def by (intro refresh_loop_returns) blast
  then have "get_rates cfg force first_seen started polls \<noteq> None"
    by (simp add: get_rates_def return_if_read_None del: not_None_eq)
  then show ?thesis by blast
qed

definition idle_poll :: "nat \<Rightarrow> poll" where
  "idle_poll i = \<lparr> fresh_seen = PyNone, lock_gone_before = False, lkg_before = (PyNone, 0),
     lock_won = False, http_seen = NetworkFailure, fetch_time = 0, lkg_on_failure = (PyNone, 0),
     lock_gone_after = False, lkg_after = (PyNone, 0), poll_clock = 50000 * int i,
     lkg_at_deadline = (PyNone, 0) \<rparr>"

lemma get_rates_returns_at:
  "\<exists>r. get_rates base_fx True PyNone 0 (map idle_poll [0..<201]) = Some r"
  by (rule get_rates_returns [where n = 200]) (simp_all add: idle_poll_def base_fx_def del: upt_Suc)

definition from_observation :: "fx_config \<Rightarrow> poll \<Rightarrow> rate_snapshot \<Rightarrow> bool" where
  "from_observation cfg p s =
     (from_cache_value cfg (fresh_seen p) = Inr s
      \<or> recent cfg (lkg_before p) s \<or> recent cfg (lkg_on_failure p) s
      \<or> recent cfg (lkg_after p) s \<or> recent cfg (lkg_at_deadline p) s
      \<or> (lock_won p \<and> fetch cfg (fetch_time p) (http_seen p) = Inr s))"

lemma fetch_or_lkg_ok:
  assumes "fetch_or_lkg cfg p = (Inr s, w)" and "lock_won p"
  shows "from_observation cfg p s \<and> usable cfg s \<and>
     w = (if fetch cfg (fetch_time p) (http_seen p) = Inr s
          then [SetFresh (to_cache_value s), SetLkg (to_cache_value s)] else [])"
  using assms
  by (auto simp: fetch_or_lkg_def from_observation_def bindE_Inr_iff
      dest: read_lkg_Some fetch_usable split: sum.splits if_splits)

lemma refresh_loop_ok:
  assumes "refresh_loop cfg deadline force waited ps = Some (Inr s, w)"
  shows "usable cfg s \<and> (\<exists>p \<in> set ps. from_observation cfg p s)
     \<and> (w = [] \<or> w = [ReleaseLock]
        \<or> w = [SetFresh (to_cache_value s), SetLkg (to_cache_value s), ReleaseLock])"
  using assms
proof (induction ps arbitrary: waited)
  case Nil
  then show ?case by simp
next
  case (Cons p ps)
  have "(read_cache cfg (fresh_seen p) = Inr (Some s) \<and> w = [])
      \<or> ((read_lkg cfg (lkg_before p) = Inr (Some s) \<or> read_lkg cfg (lkg_after p) = Inr (Some s)
          \<or> read_lkg cfg (lkg_at_deadline p) = Inr (Some s)) \<and> w = [])
      \<or> (lock_won p \<and> fst (fetch_or_lkg cfg p) = Inr s \<and> w = snd (fetch_or_lkg cfg p) @ [ReleaseLock])
      \<or> refresh_loop cfg deadline force True ps = Some (Inr s, w)"
    using Cons.prems by (simp add: return_if_read_ok split: if_splits) blast+
  then consider (fresh) "read_cache cfg (fresh_seen p) = Inr (Some s)" "w = []"
    | (lkg) r where "r = lkg_before p \<or> r = lkg_after p \<or> r = lkg_at_deadline p"
        "read_lkg cfg r = Inr (Some s)" "w = []"
    | (won) w' where "lock_won p" "fetch_or_lkg cfg p = (Inr s, w')" "w = w' @ [ReleaseLock]"
    | (later) "refresh_loop cfg deadline force True ps = Some (Inr s, w)"
    by (metis prod.collapse)
  then show ?case
  proof cases
    case fresh
    then show ?thesis by (auto dest!: read_cache_Some simp: from_observation_def)
  next
    case lkg
    then show ?thesis by (auto dest!: read_lkg_Some simp: from_observation_def)
  next
    case won
    then show ?thesis using fetch_or_lkg_ok [OF won(2,1)] by auto
  next
    case later
    then show ?thesis using Cons.IH [OF later] by auto
  qed
qed

text \<open>The rates handed out are always usable and never stale. A snapshot returned by
  \<open>get_rates\<close> was read from the fresh entry, or fetched by this call, or is a fallback whose
  age at the time of its check was at most \<open>FX_LKG_MAX_AGE_SECONDS\<close>; the call writes the
  cache only with the snapshot it fetched itself, to both entries, and then releases the lock.\<close>

lemma get_rates_usable_and_recent:
  assumes "get_rates cfg force first_seen started polls = Some (Inr s, w)"
  shows "usable cfg s
    \<and> (from_cache_value cfg first_seen = Inr s \<or> (\<exists>p \<in> set polls. from_observation cfg p s))
    \<and> (w = [] \<or> w = [ReleaseLock]
        \<or> w = [SetFresh (to_cache_value s), SetLkg (to_cache_value s), ReleaseLock])"
proof -
  consider "read_cache cfg first_seen = Inr (Some s)" "w = []"
    | "refresh_loop cfg (started + lock_wait_us cfg) force False polls = Some (Inr s, w)"
    using assms by (auto simp: get_rates_def refresh_with_lock_def return_if_read_ok split: if_splits)
  then show ?thesis
    by cases (use read_cache_Some [of cfg first_seen s] in simp, use refresh_loop_ok in blast)
qed

lemma sample_get_rates:
  "get_rates base_fx False PyNone 0
     [idle_poll 0 \<lparr> lock_won := True, http_seen := Response 200 (Some sample_document),
                    fetch_time := 1700000100000000 \<rparr>]
   = Some (Inr sample_snapshot, [SetFresh (to_cache_value sample_snapshot),
       SetLkg (to_cache_value sample_snapshot), ReleaseLock])"
  by (simp add: get_rates_def refresh_with_lock_def return_if_read_def read_cache_def idle_poll_def
      fetch_or_lkg_def sample_fetch)

lemma get_rates_usable_and_recent_at:
  "usable base_fx sample_snapshot"
  by (rule conjunct1 [OF get_rates_usable_and_recent [OF sample_get_rates]])

text \<open>The fallback to the last known rates is bypassed by one provider document: an
  update time too large for a float is read by the JSON parser as infinity, \<open>int()\<close> of it
  raises OverflowError, which neither \<open>_aware_datetime\<close> nor \<open>except CurrencyError\<close> catches,
  so the call raises although a recent fallback snapshot is in the cache.\<close>

lemma infinite_update_time_escapes_fallback:
  "get_rates base_fx True PyNone 0
     [idle_poll 0 \<lparr> lock_won := True, fetch_time := 1700000100000000,
        lkg_on_failure := (to_cache_value sample_snapshot, 1700000100000000),
        http_seen := Response 200 (Some (PyDict
          ((''time_last_update_unix'', PyFloat (Infinity False)) #
             the (dict_items sample_document)))) \<rparr>]
   = Some (Inl (OverflowError ''infinity''), [ReleaseLock])
   \<and> read_lkg base_fx (to_cache_value sample_snapshot, 1700000100000000)
       = Inr (Some sample_snapshot)"
proof
  have "from_cache_value base_fx (to_cache_value sample_snapshot) = Inr sample_snapshot"
    using sample_fetch fetch_usable [OF sample_fetch]
    by (intro cache_round_trip) (simp_all add: base_fx_def sample_snapshot_def strip_def is_space_char_def Let_def)
  then show "read_lkg base_fx (to_cache_value sample_snapshot, 1700000100000000)
       = Inr (Some sample_snapshot)"
    by (simp add: read_lkg_def read_cache_def)
      (simp add: to_cache_value_def sample_snapshot_def base_fx_def seconds_def)
qed (simp add: get_rates_def refresh_with_lock_def return_if_read_def read_cache_def idle_poll_def
      fetch_or_lkg_def fetch_def sample_document_def validate_document_def dget_def read_rates_def
      decimal_rate_def base_fx_def text_eval Let_def sar_rate_check_def payment_currency_def
      aware_datetime_def of_option_def ensure_def)

subsection \<open>Quotes validate\<close>

lemma dropWhile_hd: "dropWhile P xs = xs \<longleftrightarrow> xs = [] \<or> \<not> P (hd xs)"
  by (rule dropWhile_eq_self_iff)

lemma strip_ends: "dropWhile is_space_char (strip s) = strip s \<and> dropWhile is_space_char (rev (strip s)) = rev (strip s)"
proof
  define xs where "xs = dropWhile is_space_char s"
  have st: "strip s = rev (dropWhile is_space_char (rev xs))" by (simp add: strip_def xs_def)
  show "dropWhile is_space_char (rev (strip s)) = rev (strip s)"
    by (simp add: st)
  show "dropWhile is_space_char (strip s) = strip s"
  proof (cases "strip s = []")
    case False
    have "xs = strip s @ rev (takeWhile is_space_char (rev xs))"
      unfolding st by (metis rev_append rev_rev_ident takeWhile_dropWhile_id)
    then have "hd xs = hd (strip s)" and "xs \<noteq> []" using False by (metis hd_append2, auto)
    moreover have "\<not> is_space_char (hd xs)"
      using \<open>xs \<noteq> []\<close> hd_dropWhile [of is_space_char s] by (simp add: xs_def)
    ultimately show ?thesis by (simp add: dropWhile_hd)
  qed simp
qed

lemma upper_code:
  assumes "97 \<le> (of_char c :: nat) \<and> (of_char c :: nat) \<le> 122"
  shows "(of_char (upper_char c) :: nat) = of_char c - 32"
proof -
  have "(of_char c - 32 :: nat) mod 256 = of_char c - 32"
    using assms by (intro mod_less) linarith
  with assms show ?thesis by (simp add: upper_char_def Let_def)
qed

lemma upper_space [simp]: "is_space_char (upper_char c) = is_space_char c"
proof (cases "97 \<le> (of_char c :: nat) \<and> (of_char c :: nat) \<le> 122")
  case True
  then have "(of_char (upper_char c) :: nat) = of_char c - 32"
    by (rule upper_code)
  with True show ?thesis by (simp add: is_space_char_def Let_def) linarith
next
  case False
  then show ?thesis by (auto simp: upper_char_def Let_def)
qed

lemma upper_upper [simp]: "upper_char (upper_char c) = upper_char c"
proof (cases "97 \<le> (of_char c :: nat) \<and> (of_char c :: nat) \<le> 122")
  case True
  then have "(of_char (upper_char c) :: nat) = of_char c - 32"
    by (rule upper_code)
  with True have "\<not> 97 \<le> (of_char (upper_char c) :: nat)" by linarith
  then show ?thesis by (simp add: upper_char_def [of "upper_char c"] Let_def)
next
  case False
  then show ?thesis by (auto simp: upper_char_def Let_def)
qed

lemma upper_comp [simp]: "upper_char \<circ> upper_char = upper_char"
  by (simp add: fun_eq_iff)

lemma strip_map_upper: "strip (map upper_char s) = map upper_char (strip s)"
  by (simp add: strip_def dropWhile_map rev_map comp_def)

lemma strip_strip [simp]: "strip (strip s) = strip s"
  using strip_ends [of s] by (simp add: strip_def [of "strip s"])

lemma normalize_currency_idem:
  "normalize_currency cfg v = Inr code \<Longrightarrow> normalize_currency cfg (PyStr code) = Inr code"
  by (auto simp: normalize_currency_def currency_text_def Let_def strip_map_upper split: if_splits)

lemma normalize_currency_supported: "normalize_currency cfg v = Inr c \<Longrightarrow> c \<in> set (supported_currencies cfg)"
  by (auto simp: normalize_currency_def Let_def split: if_splits)

lemma validated_amount_Fin [simp]: "validated_amount (PyDec (Fin a)) = Inr b \<longleftrightarrow> 0 \<le> a \<and> b = a"
  by (auto simp: validated_amount_def)

lemma validated_amount_val [simp]: "0 \<le> a \<Longrightarrow> validated_amount (PyDec (Fin a)) = Inr a"
  by simp

lemma validated_amount_nonneg: "validated_amount v = Inr a \<Longrightarrow> 0 \<le> a"
  by (auto simp: validated_amount_def split: option.splits decimal.splits if_splits)

lemma normalize_amount_nonneg: "normalize_amount cfg v c = Inr a \<Longrightarrow> 0 \<le> a"
  by (auto simp: normalize_amount_def bindE_Inr_iff dest: validated_amount_nonneg half_up.quantize_nonneg)

lemma normalize_amount_idem:
  assumes "normalize_amount cfg v c = Inr a"
  shows "normalize_amount cfg (PyDec (Fin a)) c = Inr a"
proof -
  obtain b k where "currency_quantum cfg c = Inr k" and q: "quantize round_half_up k b = Inr a"
    using assms by (auto simp: normalize_amount_def bindE_Inr_iff)
  then show ?thesis
    using normalize_amount_nonneg [OF assms] half_up.quantize_idem [OF q]
    by (simp add: normalize_amount_def bindE_Inr_iff)
qed

lemma source_to_sar_idem:
  "source_to_sar cfg v c rs = Inr a \<Longrightarrow> normalize_amount cfg (PyDec (Fin a)) (PyStr payment_currency) = Inr a"
  by (auto simp: source_to_sar_def bindE_Inr_iff split: if_splits dest: normalize_amount_idem)

text \<open>The rates read back from a quote's snapshot agree with the rates of the quote.\<close>

lemma positive_rate: "positive_rates rs \<Longrightarrow> map_of rs c = Some r \<Longrightarrow> 0 < r"
  by (auto simp: positive_rates_def list_all_iff dest: map_of_SomeD)

lemma map_of_tabulate: "map_of (map (\<lambda>c. (c, g c)) cs) c = (if c \<in> set cs then Some (g c) else None)"
  by (induction cs) auto

lemma read_audit_rates:
  assumes "positive_rates rs"
  shows "mapE (\<lambda>code. bindE (decimal_rate (dget (map (\<lambda>(code, r). (code, PyDecText r)) rs) code) code)
            (\<lambda>r. Inr (code, r)))
          (filter (\<lambda>code. map_of (map (\<lambda>(code, r). (code, PyDecText r)) rs) code \<noteq> None) codes)
    = Inr (map (\<lambda>c. (c, the (map_of rs c))) (filter (\<lambda>c. map_of rs c \<noteq> None) codes))"
proof -
  have f: "filter (\<lambda>code. map_of (map (\<lambda>(code, r). (code, PyDecText r)) rs) code \<noteq> None) codes
      = filter (\<lambda>c. map_of rs c \<noteq> None) codes"
    by (simp add: map_of_rates_value)
  show ?thesis unfolding f
    by (rule mapE_total)
      (use positive_rate [OF assms] in \<open>auto simp: dget_def map_of_rates_value decimal_rate_def not_le\<close>)
qed

lemma rates_from_quote_snapshot:
  assumes "positive_rates rs" and "map_of rs payment_currency = Some 1" and "\<not> is_naive rt"
    and "payment_currency \<in> set (supported_currencies cfg)"
    and "dget d ''rates'' = rates_value rs" and "dget d ''rate_timestamp'' = PyTimeText rt"
  shows "\<exists>s'. rates_from_audit_snapshot cfg (PyDict d) = Inr s' \<and>
    (\<forall>c \<in> set (supported_currencies cfg). map_of (rates s') c = map_of rs c)"
proof -
  let ?rs = "map (\<lambda>c. (c, the (map_of rs c))) (filter (\<lambda>c. map_of rs c \<noteq> None) (supported_currencies cfg))"
  have m: "map_of ?rs c = map_of rs c" if "c \<in> set (supported_currencies cfg)" for c
    using that by (auto simp: map_of_tabulate)
  have "map_of ?rs payment_currency = Some 1" using m assms(2,4) by simp
  then have "rates_from_audit_snapshot cfg (PyDict d) = Inr \<lparr> provider = (case str_of (dget d ''provider'') of
                              Some p \<Rightarrow> if p = [] then ''snapshot'' else p | None \<Rightarrow> ''snapshot''),
                base_currency = payment_currency, rates = ?rs,
                rate_timestamp = rt, fetched_at = rt \<rparr>"
    unfolding rates_from_audit_snapshot_def assms(5,6) rates_value_def dict_items.simps of_option_def
      option.case bindE.simps read_audit_rates [OF assms(1)] datetime_of_str.simps
    using assms(3) by (simp add: ensure_def)
  then show ?thesis using m by (intro exI conjI ballI) (assumption, simp)
qed

lemma snapshot_rate_cong:
  "map_of (rates s) c = map_of (rates s') c \<Longrightarrow> normalize_currency cfg v = Inr c \<Longrightarrow>
     snapshot_rate cfg s v = snapshot_rate cfg s' v"
  by (simp add: snapshot_rate_def)

lemma source_to_sar_cong:
  assumes "normalize_currency cfg (PyStr c) = Inr c" and "map_of (rates s) c = map_of (rates s') c"
  shows "source_to_sar cfg v (PyStr c) (RatesSnapshot s) = source_to_sar cfg v (PyStr c) (RatesSnapshot s')"
  using snapshot_rate_cong [OF assms(2,1)] assms(1)
  by (cases "c = payment_currency") (simp_all add: source_to_sar_def coerce_snapshot_def)

lemma quote_validates:
  assumes "create_quote cfg own source_amount source_currency selected created expires = Inr q"
    and "\<forall>s. own = Inr s \<longrightarrow> usable cfg s" and "\<not> is_naive created"
  shows "validate_payment_snapshot cfg (PyDec (Fin (quote_source_amount q)))
     (PyStr (quote_source_currency q)) (PyDec (Fin (payment_amount_sar q)))
     (PyDict (quote_snapshot q)) = Inr ()"
proof -
  obtain src disp v s paid shown sr dr
    where src: "normalize_currency cfg source_currency = Inr src"
      and v: "validated_amount source_amount = Inr v"
      and s: "(if src = payment_currency \<and> disp = payment_currency
            then Inr (identity_snapshot created) else own) = Inr s"
      and paid: "source_to_sar cfg (PyDec (Fin v)) (PyStr src) (RatesSnapshot s) = Inr paid"
      and shown: "sar_to_display cfg (PyDec (Fin paid)) (PyStr disp) (RatesSnapshot s) = Inr shown"
      and q: "\<lparr> quote_source_amount = v, quote_source_currency = src, payment_amount_sar = paid,
            display_amount = shown, display_currency = disp,
            quote_snapshot = quote_document s src v paid disp shown sr dr created expires \<rparr> = q"
    using assms(1) unfolding create_quote_def bindE_Inr_iff sum.inject
    by (elim exE conjE) (rule that)
  have ok: "positive_rates (rates s) \<and> map_of (rates s) payment_currency = Some 1 \<and> \<not> is_naive (rate_timestamp s)"
    using s assms(2,3) by (auto simp: usable_def identity_snapshot_def positive_rates_def split: if_splits)
  have src': "normalize_currency cfg (PyStr src) = Inr src"
    using normalize_currency_idem [OF src] .
  have v0: "0 \<le> v" using validated_amount_nonneg [OF v] .
  have paid': "normalize_amount cfg (PyDec (Fin paid)) (PyStr payment_currency) = Inr paid"
    using source_to_sar_idem [OF paid] .
  have sup: "payment_currency \<in> set (supported_currencies cfg)"
    using paid' normalize_currency_supported [of cfg "PyStr payment_currency" payment_currency]
    by (auto simp: normalize_amount_def currency_quantum_def bindE_Inr_iff normalize_currency_def
        currency_text_def payment_currency_def strip_def is_space_char_def upper_char_def Let_def split: if_splits)
  obtain s' where s': "rates_from_audit_snapshot cfg (PyDict (quote_snapshot q)) = Inr s'"
    and m: "\<forall>c \<in> set (supported_currencies cfg). map_of (rates s') c = map_of (rates s) c"
    using rates_from_quote_snapshot [of "rates s" "rate_timestamp s" cfg "quote_snapshot q"] ok sup
    by (auto simp: q [symmetric] quote_document_def dget_def)
  have "source_to_sar cfg (PyDec (Fin v)) (PyStr src) (RatesSnapshot s') = Inr paid"
    using paid source_to_sar_cong [OF src', of s' s] m normalize_currency_supported [OF src] by simp
  moreover have "validated_amount (PyDec (Fin v)) = Inr v" using v0 by simp
  ultimately show ?thesis
    using s' src' paid' by (simp add: validate_payment_snapshot_def q [symmetric] quote_document_def dget_def of_option_def ensure_def)
qed

text \<open>Every quote re-validates. When \<open>create_quote\<close> returns, the amounts it returns and
  the audit snapshot it builds pass \<open>validate_payment_snapshot\<close>: the recorded rates
  reproduce the SAR amount to be paid, so a checkout never refuses an untouched quote.\<close>

lemma create_quote_validates:
  assumes "create_quote cfg own source_amount source_currency selected created expires = Inr q"
    and "\<forall>s. own = Inr s \<longrightarrow> usable cfg s" and "\<not> is_naive created"
  shows "validate_payment_snapshot cfg (PyDec (Fin (quote_source_amount q)))
     (PyStr (quote_source_currency q)) (PyDec (Fin (payment_amount_sar q)))
     (PyDict (quote_snapshot q)) = Inr ()"
  by (rule quote_validates [OF assms])

lemma sample_codes:
  "normalize_currency base_fx (PyStr ''SAR'') = Inr ''SAR''"
  "normalize_currency base_fx (PyStr ''EUR'') = Inr ''EUR''"
  "normalize_currency base_fx (PyStr '' eur '') = Inr ''EUR''"
  "normalize_currency base_fx (PyStr ''MAD'') = Inr ''MAD''"
  by code_simp+

lemma sample_quantum:
  "currency_quantum base_fx (PyStr ''SAR'') = Inr 2" "currency_quantum base_fx (PyStr ''MAD'') = Inr 2"
  by code_simp+

lemma sample_ctx: "ctx 400 = 400" "ctx 1000 = 1000"
  using ctx_exact [of 400 400 0] ctx_exact [of 1000 1000 0] by (simp_all add: ten_pow_def)

lemma sample_to_sar: "source_to_sar base_fx (PyDec (Fin 100)) (PyStr ''EUR'') (RatesSnapshot sample_snapshot) = Inr 400"
  by (simp add: source_to_sar_def sample_codes sample_quantum payment_currency_def coerce_snapshot_def
      snapshot_rate_def sample_snapshot_def ddiv_def sample_ctx normalize_amount_def
      quantize_def round_half_up_def precision_def Let_def)

lemma sample_quote:
  "create_quote base_fx (Inr sample_snapshot) (PyStr ''100'') (PyStr '' eur '') (PyStr ''MAD'')
     (Aware 0) (Aware 900000000)
   = Inr \<lparr> quote_source_amount = 100, quote_source_currency = ''EUR'', payment_amount_sar = 400,
       display_amount = 1000, display_currency = ''MAD'',
       quote_snapshot = quote_document sample_snapshot ''EUR'' 100 400 ''MAD'' 1000 (1 / 4) (5 / 2)
         (Aware 0) (Aware 900000000) \<rparr>"
proof -
  have v: "validated_amount (PyStr ''100'') = Inr 100"
    by (simp add: validated_amount_def text_eval Let_def)
  have d: "sar_to_display base_fx (PyDec (Fin 400)) (PyStr ''MAD'') (RatesSnapshot sample_snapshot) = Inr 1000"
    by (simp add: sar_to_display_def sample_codes sample_quantum payment_currency_def coerce_snapshot_def
      snapshot_rate_def sample_snapshot_def dmul_def sample_ctx normalize_amount_def
      quantize_def round_half_up_def precision_def Let_def)
  have r: "snapshot_rate base_fx sample_snapshot (PyStr ''EUR'') = Inr (1 / 4)"
    "snapshot_rate base_fx sample_snapshot (PyStr ''MAD'') = Inr (5 / 2)"
    by (simp_all add: snapshot_rate_def sample_codes sample_snapshot_def)
  show ?thesis
    unfolding create_quote_def sample_codes bindE.simps v payment_currency_def
    by (simp add: sample_to_sar d r)
qed

lemma create_quote_validates_at:
  "validate_payment_snapshot base_fx (PyDec (Fin 100)) (PyStr ''EUR'') (PyDec (Fin 400))
     (PyDict (quote_document sample_snapshot ''EUR'' 100 400 ''MAD'' 1000 (1 / 4) (5 / 2)
         (Aware 0) (Aware 900000000))) = Inr ()"
  using create_quote_validates [OF sample_quote] fetch_usable [OF sample_fetch]
  by (simp add: is_naive_def)

text \<open>Conversion to SAR is accurate. Whatever snapshot is used, the SAR amount differs
  from \<open>amount / rate\<close> by at most half of the last payment digit, plus the relative error
  of one 28-digit division.\<close>

lemma source_to_sar_accurate:
  assumes "source_to_sar cfg (PyDec (Fin a)) (PyStr c) (RatesSnapshot s) = Inr y"
    and "currency_quantum cfg (PyStr payment_currency) = Inr k"
    and "c \<noteq> payment_currency" and "normalize_currency cfg (PyStr c) = Inr c"
    and "map_of (rates s) c = Some r" and "0 < r"
  shows "0 \<le> a \<and> \<bar>y - a / r\<bar> \<le> 1 / (2 * 10 ^ k) + (a / r) / (2 * 10 ^ 27)"
proof -
  have a: "0 \<le> a" and y: "normalize_amount cfg (PyDec (Fin (ctx (a / r)))) (PyStr payment_currency) = Inr y"
    using assms by (auto simp: source_to_sar_def bindE_Inr_iff coerce_snapshot_def snapshot_rate_def ddiv_def)
  then have "quantize round_half_up k (ctx (a / r)) = Inr y"
    using assms(2) by (auto simp: normalize_amount_def bindE_Inr_iff)
  then have "\<bar>y - ctx (a / r)\<bar> \<le> 1 / (2 * 10 ^ k)" by (rule half_up.quantize_error)
  moreover have "\<bar>ctx (a / r) - a / r\<bar> \<le> (a / r) / (2 * 10 ^ 27)"
    using ctx_error [of "a / r"] a assms(6) by simp
  ultimately show ?thesis using a by linarith
qed

lemma source_to_sar_accurate_at:
  "\<bar>400 - 100 / (1 / 4)\<bar> \<le> (1 / (2 * 10 ^ 2) + (100 / (1 / 4)) / (2 * 10 ^ 27) :: rat)"
  by (rule conjunct2 [OF source_to_sar_accurate [OF sample_to_sar, where k = 2]])
    (simp_all add: sample_codes sample_quantum payment_currency_def sample_snapshot_def)

text \<open>\<open>normalize_amount\<close> can raise something other than \<open>CurrencyError\<close>: a valid
  finite amount whose two-decimal form needs more than 28 digits makes \<open>quantize\<close> raise
  \<open>decimal.InvalidOperation\<close>, although \<open>_validated_amount\<close> accepted it.\<close>

lemma normalize_amount_escapes:
  "normalize_amount base_fx (PyStr ''1e26'') (PyStr ''SAR'') = Inl (DecimalError ''InvalidOperation'')
   \<and> \<not> is_currency_error (DecimalError ''InvalidOperation'')"
  by (simp add: normalize_amount_def validated_amount_def text_eval Let_def currency_quantum_def
      normalize_currency_def currency_text_def base_fx_def dget_def quantize_def round_half_up_def
      precision_def)

subsection \<open>The shared cache\<close>

text \<open>
  \<open>CacheBackend\<close>: \<open>get\<close>, \<open>set\<close> and \<open>delete\<close> by key, as far as the code relies on them between
  two operations with no expiry in between. The entries of the loop's effects go to the
  three keys of the module.
\<close>

locale cache_backend =
  fixes cget :: "'c \<Rightarrow> string \<Rightarrow> 'v option"
    and cset :: "'c \<Rightarrow> string \<Rightarrow> 'v \<Rightarrow> 'c"
    and cdelete :: "'c \<Rightarrow> string \<Rightarrow> 'c"
  assumes get_set: "cget (cset c k v) k' = (if k' = k then Some v else cget c k')"
    and get_delete: "cget (cdelete c k) k' = (if k' = k then None else cget c k')"
begin

lemma publish:
  assumes "k1 \<noteq> k2" and "k1 \<noteq> k3" and "k2 \<noteq> k3"
  shows "cget (cdelete (cset (cset c k1 v) k2 v) k3) k1 = Some v
    \<and> cget (cdelete (cset (cset c k1 v) k2 v) k3) k2 = Some v
    \<and> cget (cdelete (cset (cset c k1 v) k2 v) k3) k3 = None"
  using assms by (simp add: get_set get_delete)

end

definition cache_get :: "(string \<times> pyval) list \<Rightarrow> string \<Rightarrow> pyval option" where
  "cache_get c k = map_of c k"

definition cache_set :: "(string \<times> pyval) list \<Rightarrow> string \<Rightarrow> pyval \<Rightarrow> (string \<times> pyval) list" where
  "cache_set c k v = (k, v) # filter (\<lambda>e. fst e \<noteq> k) c"

definition cache_delete :: "(string \<times> pyval) list \<Rightarrow> string \<Rightarrow> (string \<times> pyval) list" where
  "cache_delete c k = filter (\<lambda>e. fst e \<noteq> k) c"

lemma map_of_without: "map_of (filter (\<lambda>e. fst e \<noteq> k) c) k' = (if k' = k then None else map_of c k')"
  by (induction c) auto

interpretation fx_cache: cache_backend cache_get cache_set cache_delete
  by unfold_locales (auto simp: cache_get_def cache_set_def cache_delete_def map_of_without)

definition fresh_cache_key :: string where
  "fresh_cache_key = ''fx:rates:sar:v1:fresh''"

definition lkg_cache_key :: string where
  "lkg_cache_key = ''fx:rates:sar:v1:lkg''"

definition refresh_lock_key :: string where
  "refresh_lock_key = ''fx:rates:sar:v1:refresh-lock''"

fun apply_write :: "(string \<times> pyval) list \<Rightarrow> cache_write \<Rightarrow> (string \<times> pyval) list" where
  "apply_write c (SetFresh v) = cache_set c fresh_cache_key v"
| "apply_write c (SetLkg v) = cache_set c lkg_cache_key v"
| "apply_write c ReleaseLock = cache_delete c refresh_lock_key"

definition cache_value :: "(string \<times> pyval) list \<Rightarrow> string \<Rightarrow> pyval" where
  "cache_value c k = (case cache_get c k of Some v \<Rightarrow> v | None \<Rightarrow> PyNone)"

lemma publish_value:
  assumes "w = [SetFresh v, SetLkg v, ReleaseLock]"
  shows "cache_value (foldl apply_write c w) fresh_cache_key = v
    \<and> cache_value (foldl apply_write c w) lkg_cache_key = v
    \<and> cache_get (foldl apply_write c w) refresh_lock_key = None"
proof -
  have k: "fresh_cache_key \<noteq> lkg_cache_key" "fresh_cache_key \<noteq> refresh_lock_key"
    "lkg_cache_key \<noteq> refresh_lock_key"
    by (simp_all add: fresh_cache_key_def lkg_cache_key_def refresh_lock_key_def)
  show ?thesis
    using fx_cache.publish [OF k, of c v] by (simp add: assms cache_value_def)
qed

text \<open>A refresh serves everyone after it. When a call wins the lock and its fetch
  succeeds, then after its writes another caller's \<open>get_rates\<close> returns the same snapshot from
  the fresh entry, the fallback entry holds it too for as long as it is not too old, and the
  lock is free.\<close>

lemma refresh_is_published:
  assumes "fetch cfg (fetch_time p) (http_seen p) = Inr s" and "lock_won p"
    and "distinct (supported_currencies cfg)"
    and "strip (provider_name cfg) = provider_name cfg" and "provider_name cfg \<noteq> []"
  shows "\<exists>w. get_rates cfg True PyNone started (p # ps) = Some (Inr s, w)
    \<and> get_rates cfg False (cache_value (foldl apply_write c w) fresh_cache_key) started' polls
        = Some (Inr s, [])
    \<and> (\<forall>now. read_lkg cfg (cache_value (foldl apply_write c w) lkg_cache_key, now)
        = Inr (if seconds (lkg_max_age_seconds cfg) < now - fetch_time p then None else Some s))
    \<and> cache_get (foldl apply_write c w) refresh_lock_key = None"
proof -
  let ?v = "to_cache_value s"
  define w where "w = [SetFresh ?v, SetLkg ?v, ReleaseLock]"
  have p: "provider s = provider_name cfg"
    using assms(1) by (auto simp: fetch_def validate_document_def bindE_Inr_iff
        split: http_outcome.splits if_splits)
  have u: "usable cfg s" and t: "fetched_at s = Aware (fetch_time p)"
    using fetch_usable [OF assms(1)] by auto
  have r: "read_cache cfg ?v = Inr (Some s)"
    using cache_round_trip [OF u assms(3)] p assms(4,5)
    by (simp add: read_cache_def) (simp add: to_cache_value_def)
  have "get_rates cfg True PyNone started (p # ps) = Some (Inr s, w)"
    using assms(1,2) by (simp add: get_rates_def refresh_with_lock_def return_if_read_def
        fetch_or_lkg_def w_def)
  moreover note publish_value [OF w_def, of c]
  ultimately show ?thesis
    using r t by (intro exI [of _ w]) (simp add: get_rates_def return_if_read_def read_lkg_def)
qed

lemma refresh_is_published_at:
  "\<exists>w. get_rates base_fx True PyNone 0
       [idle_poll 0 \<lparr> lock_won := True, http_seen := Response 200 (Some sample_document),
                      fetch_time := 1700000100000000 \<rparr>] = Some (Inr sample_snapshot, w)
    \<and> get_rates base_fx False (cache_value (foldl apply_write [] w) fresh_cache_key) 5 []
        = Some (Inr sample_snapshot, [])"
  using refresh_is_published [of base_fx "idle_poll 0 \<lparr> lock_won := True,
      http_seen := Response 200 (Some sample_document), fetch_time := 1700000100000000 \<rparr>"
      sample_snapshot 0 "[]" "[]" 5 "[]"] sample_fetch
  by (simp add: base_fx_def strip_def is_space_char_def Let_def) blast

end
