(* ===== verification/LoyaltyState.thy ===== *)
theory LoyaltyState
  imports Calculation Currency
begin

section \<open>The records of the loyalty programme\<close>

text \<open>
  The rows of \<open>apps/loyalty/models.py\<close> and the parts of the reservation, intent, payment and
  refund rows that the loyalty code reads and writes. Primary keys are numbers. Rows that
  the code reaches only through a reservation (its intent, payment attempts, refund
  obligations, modification requests) are nested in it, each list in the order in which
  the code reads it. \<open>Reservation.loyalty_state\<close>, a JSON document, is a record with one
  option per key; its decimal texts are rationals. The references the code builds as texts
  with a kind and keys in them (\<open>settle:pk:revision\<close>) are a datatype.
\<close>

subsection \<open>Accounts and members\<close>

record user =
  user_id :: nat
  u_email :: string
  u_authenticated :: bool
  u_active :: bool
  u_staff :: bool
  u_change_reservation :: bool
  u_operations_owner :: bool
  u_verified :: bool

datatype member_status = ActiveMember | WithdrawnMember

record member =
  member_id :: nat
  m_customer :: nat
  m_number :: string
  m_status :: member_status
  m_joined_at :: instant
  m_consent_at :: instant
  m_terms_version :: string
  m_terms_reference :: string
  m_language :: string
  m_first_completed :: "nat option"
  m_first_completed_at :: "instant option"
  m_invitation_token :: "string option"
  m_invitation_issued_at :: "instant option"
  m_receipts :: "(string \<times> pyval) list"
  m_withdrawn_at :: "instant option"

text \<open>
  A \<open>Referral\<close> row, and a \<open>ReferralRevision\<close>, which overrides it for its member; the
  revisions are listed by primary key.
\<close>

record link =
  ln_member :: nat
  ln_inviter :: "nat option"
  ln_root :: nat
  ln_tree_number :: string
  ln_depth :: nat
  ln_branch :: nat

record revision =
  rv_link :: link
  rv_operation :: string
  rv_linked :: nat
  rv_operator :: nat
  rv_reason :: string

subsection \<open>Stays\<close>

datatype source_type = DirectWebsite | HostawayManual | ExternalChannel | UnknownSource

datatype stay_status =
    AwaitingPayment | ReadyForHostaway | CreatePending | Creating | Confirmed | CreateFailed
  | CreateUnknown | SyncPending | Modified | Cancelled | PendingConfirmation | Inquiry
  | Declined | ExpiredStay | UnknownStay

definition active_statuses :: "stay_status list" where
  "active_statuses = [Confirmed, Modified]"

datatype payment_status =
    PaCreated | PaPending | PaSucceeded | PaFailed | PaCancelled | PaExpired | PaRefunded
  | PaPartiallyRefunded | PaReview | PaUnknown

record payment =
  pa_id :: nat
  pa_provider :: string
  pa_provider_id :: "string option"
  pa_status :: payment_status
  pa_amount :: rat
  pa_currency :: string
  pa_verified_at :: "instant option"
  pa_key :: string
  pa_modification :: "nat option"
  pa_request :: "nat option"
  pa_checkout :: "string option"
  pa_merchant :: "string option"
  pa_integrity :: string
  pa_code :: string
  pa_description :: string
  pa_failure :: string
  pa_brand :: string

datatype refund_status = RefundDue | RefundProcessing | RefundTransferred | RefundCancelled

record obligation =
  ob_id :: nat
  ob_modification :: "nat option"
  ob_status :: refund_status
  ob_amount :: rat
  ob_currency :: string
  ob_payment_attempt :: "nat option"
  ob_original_payment :: "string option"
  ob_transferred_at :: "instant option"
  ob_reason :: string
  ob_source :: string
  ob_state :: "string option"
  ob_transfer_reference :: string
  ob_provider :: "string option"
  ob_settlement :: bool

text \<open>An \<open>OfflinePaymentReceipt\<close> of the booking.\<close>

record offline_receipt =
  or_amount :: rat
  or_currency :: string
  or_payment :: "nat option"

datatype modification_type = ExtendStay | ChangeDates | ChangeGuests | CancelReservation

datatype change_status =
    ChDraft | ChRevalidation | ChCustomerApproval | ChAwaitingPayment | ChAdminApproval | ChReady
  | ChProcessing | ChCompleted | ChRejected | ChExpired | ChPriceChanged | ChUnavailable | ChFailed
  | ChUnknown | ChSuperseded

record priced =
  pr_currency :: string
  pr_reference :: string
  pr_nights :: "night list"

text \<open>
  The one write of a change at the channel manager: the creation of a reservation (a
  \<open>HostawayReservationOperation\<close> of type \<open>create_reservation\<close>) or a \<open>HostawayModificationOperation\<close> of
  the type that belongs to its request; a row has at most one of each.
\<close>

datatype operation_status = OpPrepared | OpInProgress | OpSucceeded | OpFailed | OpUnknown | OpBlocked

record create_operation =
  op_status :: operation_status
  op_attempts :: nat
  op_fingerprint :: string
  op_remote :: "int option"
  op_error :: string
  op_started_at :: "instant option"
  op_completed_at :: "instant option"

text \<open>
  A \<open>BookingModificationRequest\<close> without the guest's reason. The prices of the nights of its
  \<open>quote_snapshot\<close> (\<open>night_prices\<close>) are a field of their own.
\<close>

record modification =
  mo_id :: nat
  mo_type :: modification_type
  mo_status :: change_status
  mo_old_check_in :: date
  mo_old_check_out :: date
  mo_new_check_in :: "date option"
  mo_new_check_out :: "date option"
  mo_old_guests :: int
  mo_new_guests :: "int option"
  mo_old_total :: rat
  mo_new_total :: "rat option"
  mo_difference :: rat
  mo_currency :: string
  mo_payment_sar :: "rat option"
  mo_snapshot :: "(string \<times> pyval) list"
  mo_nights :: "priced option"
  mo_key :: string
  mo_session :: string
  mo_requested_at :: instant
  mo_expires_at :: instant
  mo_approved_at :: "instant option"
  mo_completed_at :: "instant option"
  mo_operation :: "create_operation option"

abbreviation mo_completed :: "modification \<Rightarrow> bool" where
  "mo_completed m \<equiv> mo_status m = ChCompleted"

record stay_quote =
  sq_components :: pyval
  sq_check_in :: date
  sq_check_out :: date
  sq_total :: rat
  sq_nights :: "priced option"
  sq_manual_total :: "rat option"

datatype intent_status =
    InDraft | InPendingRevalidation | InAwaitingPayment | InPaymentVerified | InPriceChanged
  | InUnavailable | InExpired | InCancelled | InCompleted

text \<open>The contact and billing fields of an intent.\<close>

record contact =
  ct_email :: string
  ct_given :: string
  ct_surname :: string
  ct_street :: string
  ct_city :: string
  ct_state :: string
  ct_country :: string
  ct_postcode :: string
  ct_guest_country :: string
  ct_language :: string

record intent =
  in_id :: nat
  in_customer :: "nat option"
  in_status :: intent_status
  in_currency :: string
  in_total :: rat
  in_payment_sar :: "rat option"
  in_fx :: pyval
  in_quote :: stay_quote
  in_phone :: string
  in_payments :: "payment list"
  in_property :: nat
  in_check_in :: date
  in_check_out :: date
  in_nights :: nat
  in_guests :: int
  in_expires_at :: instant
  in_contact :: contact
  in_session :: string
  in_display :: string

subsection \<open>The loyalty state of a booking\<close>

record arrival =
  ar_at :: datetime
  ar_reference :: string
  ar_operator :: nat

record scheduled =
  sc_at :: datetime
  sc_zone :: string
  sc_reference :: string

record past_offer =
  of_operator :: nat
  of_beneficiary :: nat
  of_request :: string
  of_fingerprint :: string
  of_base :: rat

text \<open>The verified facts of a stay: the document \<open>booking_facts\<close> returns and \<open>reconcile\<close> hashes.\<close>

record facts =
  f_base :: rat
  f_total :: rat
  f_cash :: rat
  f_refunded :: rat
  f_points :: rat
  f_check_in :: instant
  f_check_out :: instant
  f_arrival_at :: "datetime option"
  f_arrival_reference :: string
  f_consent :: "instant option"
  f_terms :: "string option"
  f_cancelled :: bool
  f_payments :: "(nat \<times> string \<times> instant \<times> rat) list"
  f_refunds :: "nat list"
  f_modification :: "nat option"
  f_components :: pyval
  f_fx :: pyval
  f_offer :: "past_offer option"
  f_historical :: bool
  f_accrual :: "scheduled option"
  f_stay_exception :: bool
  f_price_adapter :: bool

record hold_state =
  h_value :: rat
  h_member :: nat
  h_request :: string

record redemption_state =
  re_value :: rat
  re_original :: nat
  re_restored :: rat

record settlement_state =
  se_revision :: nat
  se_hash :: string
  se_facts :: facts

record departure_state =
  de_total :: rat
  de_nights_reference :: string
  de_cash_refund :: rat
  de_points_refund :: rat
  de_consumed :: rat
  de_refundable :: rat
  de_normal :: bool
  de_at :: instant
  de_reference :: string
  de_operator :: nat

record refund_plan =
  pl_cash :: rat
  pl_points :: rat
  pl_target :: rat
  pl_source :: string

record loyalty_state =
  ls_hold :: "hold_state option"
  ls_redemption :: "redemption_state option"
  ls_settlement :: "settlement_state option"
  ls_chain :: "nat list option"
  ls_arrival :: "arrival option"
  ls_scheduled :: "scheduled option"
  ls_departure :: "departure_state option"
  ls_review :: "string option"
  ls_frozen :: "(rat \<times> rat) option"
  ls_points_started :: bool
  ls_priced :: "priced option"
  ls_manual_price :: "(rat \<times> string) option"
  ls_refund_plans :: "(nat \<times> refund_plan) list"
  ls_identity :: "(nat \<times> nat) option"

definition blank_loyalty :: loyalty_state where
  "blank_loyalty = \<lparr> ls_hold = None, ls_redemption = None, ls_settlement = None, ls_chain = None,
     ls_arrival = None, ls_scheduled = None, ls_departure = None, ls_review = None,
     ls_frozen = None, ls_points_started = False, ls_priced = None, ls_manual_price = None,
     ls_refund_plans = [], ls_identity = None \<rparr>"

record booking =
  bk_id :: nat
  bk_reference :: string
  bk_intent :: "intent option"
  bk_zone :: "string option"
  bk_source :: source_type
  bk_status :: stay_status
  bk_created_at :: instant
  bk_check_in :: date
  bk_check_out :: date
  bk_nights :: nat
  bk_currency :: string
  bk_total :: rat
  bk_payment_status :: string
  bk_refunds :: "obligation list"
  bk_modifications :: "modification list"
  bk_loyalty :: loyalty_state
  bk_offline :: "offline_receipt option"
  bk_property :: nat
  bk_guests :: int
  bk_remote :: "int option"
  bk_listing_map :: "int option"
  bk_channel :: "int option"
  bk_remote_status :: string
  bk_source_updated :: "datetime option"
  bk_synced_at :: "instant option"
  bk_confirmed_at :: "instant option"
  bk_cancelled_at :: "instant option"
  bk_test :: bool
  bk_operation :: "create_operation option"

subsection \<open>The ledger\<close>

datatype event_type =
  EarnEvent | AdjustEvent | TransferEvent | RedeemEvent | RestoreEvent | WithdrawEvent

datatype event_ref =
    SettleRef nat nat
  | TransferRef nat string
  | RedeemRef nat
  | RestoreRef nat rat
  | WithdrawRef nat

record entry =
  e_event :: event_type
  e_component :: component
  e_reference :: event_ref
  e_request :: string
  e_reservation :: "nat option"
  e_original :: "nat option"
  e_counterpart :: "nat option"
  e_plan :: "nat plan_row option"
  e_facts :: "facts option"

record ledger_row =
  sequence :: nat
  row_group :: nat
  row_branch :: nat
  row_member :: nat
  row_customer :: nat
  row_tree_number :: string
  credit :: rat
  debit :: rat
  member_balance_after :: rat
  program_balance_after :: rat
  row_entry :: entry

text \<open>
  A \<open>GuestEvent\<close>: its unique reference is its kind and the key of its subject
  (\<open>join:pk\<close>, \<open>referral-revision:pk\<close>). The descriptive documents are left out.
\<close>

datatype event_kind = JoinEvent | ReadyEvent | CloseEvent | ReferralEvent

record guest_event =
  ev_kind :: event_kind
  ev_key :: nat
  ev_customer :: nat
  ev_member :: nat
  ev_ledger :: "nat option"
  ev_source :: string

subsection \<open>The database and the settings\<close>

text \<open>A \<open>VerifiedPhone\<close>, a \<open>ManualReceiptReference\<close> and an \<open>AuditLog\<close> row.\<close>

record phone =
  ph_id :: nat
  ph_user :: nat
  ph_number :: string
  ph_verified_at :: instant

record claim =
  cl_digest :: string
  cl_booking :: nat
  cl_payment :: "nat option"

record audit =
  au_actor :: nat
  au_action :: string
  au_object :: nat

record db =
  db_users :: "user list"
  db_members :: "member list"
  db_referrals :: "link list"
  db_revisions :: "revision list"
  db_ledger :: "ledger_row list"
  db_bookings :: "booking list"
  db_events :: "guest_event list"
  db_phones :: "phone list"
  db_claims :: "claim list"
  db_audit :: "audit list"
  db_intents :: "intent list"

text \<open>
  The settings, the clock, and what the code takes from elsewhere: the rules of a time zone
  (the instant of a wall-clock reading; None for an unknown zone), \<open>validate_email\<close>, the two
  uses of \<open>digest\<close> (of a request payload, of a facts document), the token generator, and the
  checks of \<open>past_guest_offers.authorized\<close> (a signature is verified there) with the bookings that
  carry an offer for the phones of an account, the URL of an issued edition of the terms, \<open>normalize_phone_number\<close> (None for a number that the
  phone library refuses), and the digests of the reference of a manual receipt.
\<close>

record env =
  loyalty_enabled :: bool
  launch_setting :: "datetime option"
  pilot_setting :: bool
  pilot_emails_setting :: "string list option"
  pilot_references_setting :: "string list option"
  stay_exception_setting :: "string list option"
  allow_historical :: bool
  retain_acceptance :: bool
  terms_approved :: bool
  terms_setting :: "string \<times> string"
  fx :: fx_config
  now :: instant
  zone_instant :: "string \<Rightarrow> (int \<Rightarrow> instant) option"
  zone_rules :: "string \<Rightarrow> zone_offset option"
  valid_email :: "string \<Rightarrow> bool"
  payload_digest :: "pyval \<Rightarrow> string"
  facts_digest :: "facts \<Rightarrow> string"
  fresh_token :: string
  authorized_offer :: "booking \<Rightarrow> past_offer option"
  offered_bookings :: "nat \<Rightarrow> nat list"
  issued_reference :: "string \<Rightarrow> string \<Rightarrow> string option"
  normal_phone :: "string \<Rightarrow> string option"
  text_digest :: "string \<Rightarrow> string"
  receipt_key :: "string \<Rightarrow> string"

subsection \<open>Access\<close>

definition get_user :: "db \<Rightarrow> nat \<Rightarrow> user option" where
  "get_user d = row_get user_id (db_users d)"

definition get_member :: "db \<Rightarrow> nat \<Rightarrow> member option" where
  "get_member d = row_get member_id (db_members d)"

definition put_member :: "db \<Rightarrow> member \<Rightarrow> db" where
  "put_member d m = d \<lparr> db_members := row_put member_id (db_members d) m \<rparr>"

definition get_booking :: "db \<Rightarrow> nat \<Rightarrow> booking option" where
  "get_booking d = row_get bk_id (db_bookings d)"

definition put_booking :: "db \<Rightarrow> booking \<Rightarrow> db" where
  "put_booking d b = d \<lparr> db_bookings := row_put bk_id (db_bookings d) b \<rparr>"

text \<open>\<open>_save_booking\<close> after an in-place change of \<open>loyalty_state\<close>.\<close>

definition save_loyalty :: "db \<Rightarrow> booking \<Rightarrow> (loyalty_state \<Rightarrow> loyalty_state) \<Rightarrow> db" where
  "save_loyalty d b f = put_booking d (b \<lparr> bk_loyalty := f (bk_loyalty b) \<rparr>)"

definition member_of_customer :: "db \<Rightarrow> nat \<Rightarrow> member option" where
  "member_of_customer d u = find (\<lambda>m. m_customer m = u) (db_members d)"

definition booking_customer :: "booking \<Rightarrow> nat option" where
  "booking_customer b = Option.bind (bk_intent b) in_customer"

definition customer_bookings :: "db \<Rightarrow> nat \<Rightarrow> booking list" where
  "customer_bookings d u = filter (\<lambda>b. booking_customer b = Some u) (db_bookings d)"

text \<open>\<open>events.record\<close>: an event of another account or member is refused, a known reference kept.\<close>

definition record_event :: "db \<Rightarrow> guest_event \<Rightarrow> db res" where
  "record_event d ev =
     (case get_member d (ev_member ev) of
        None \<Rightarrow> Inl (DoesNotExist ''member'')
      | Some m \<Rightarrow>
          if m_customer m \<noteq> ev_customer ev then Inl (ValidationError ''event_account'')
          else if (case ev_ledger ev of None \<Rightarrow> False
                   | Some n \<Rightarrow> list_all (\<lambda>r. sequence r = n \<longrightarrow> row_member r \<noteq> ev_member ev) (db_ledger d))
          then Inl (ValidationError ''event_ledger'')
          else if list_ex (\<lambda>x. ev_kind x = ev_kind ev \<and> ev_key x = ev_key ev) (db_events d)
          then Inr d else Inr (d \<lparr> db_events := db_events d @ [ev] \<rparr>))"

interpretation member_table: keyed_table get_member put_member member_id
proof unfold_locales
  show "get_member t k = Some r \<Longrightarrow> member_id r = k" for t k r
    unfolding get_member_def by (rule row_get_key)
  show "get_member t (member_id r) = Some r0 \<Longrightarrow> get_member (put_member t r) (member_id r) = Some r" for t r r0
    using row_get_put_same [of member_id "db_members t" r r0] by (simp add: get_member_def put_member_def)
  show "member_id r \<noteq> k \<Longrightarrow> get_member (put_member t r) k = get_member t k" for t r k
    using row_get_put_other [of member_id r k "db_members t"] by (simp add: get_member_def put_member_def)
qed

interpretation booking_table: keyed_table get_booking put_booking bk_id
proof unfold_locales
  show "get_booking t k = Some r \<Longrightarrow> bk_id r = k" for t k r
    unfolding get_booking_def by (rule row_get_key)
  show "get_booking t (bk_id r) = Some r0 \<Longrightarrow> get_booking (put_booking t r) (bk_id r) = Some r" for t r r0
    using row_get_put_same [of bk_id "db_bookings t" r r0] by (simp add: get_booking_def put_booking_def)
  show "bk_id r \<noteq> k \<Longrightarrow> get_booking (put_booking t r) k = get_booking t k" for t r k
    using row_get_put_other [of bk_id r k "db_bookings t"] by (simp add: get_booking_def put_booking_def)
qed

lemma put_member_fields [simp]:
  "db_ledger (put_member d m) = db_ledger d" "db_bookings (put_member d m) = db_bookings d"
  "db_users (put_member d m) = db_users d" "db_referrals (put_member d m) = db_referrals d"
  "db_revisions (put_member d m) = db_revisions d" "db_events (put_member d m) = db_events d"
  "db_phones (put_member d m) = db_phones d" "db_claims (put_member d m) = db_claims d" "db_audit (put_member d m) = db_audit d"
  "db_intents (put_member d m) = db_intents d"
  by (simp_all add: put_member_def)

lemma put_booking_fields [simp]:
  "db_ledger (put_booking d b) = db_ledger d" "db_members (put_booking d b) = db_members d"
  "db_users (put_booking d b) = db_users d" "db_referrals (put_booking d b) = db_referrals d"
  "db_revisions (put_booking d b) = db_revisions d" "db_events (put_booking d b) = db_events d"
  "db_phones (put_booking d b) = db_phones d" "db_claims (put_booking d b) = db_claims d" "db_audit (put_booking d b) = db_audit d"
  "db_intents (put_booking d b) = db_intents d"
  by (simp_all add: put_booking_def)

lemma save_loyalty_fields [simp]:
  "db_ledger (save_loyalty d b f) = db_ledger d" "db_members (save_loyalty d b f) = db_members d"
  "db_users (save_loyalty d b f) = db_users d" "db_referrals (save_loyalty d b f) = db_referrals d"
  "db_revisions (save_loyalty d b f) = db_revisions d" "db_events (save_loyalty d b f) = db_events d"
  by (simp_all add: save_loyalty_def)

lemma record_event_fields [simp]:
  "record_event d ev = Inr d' \<Longrightarrow> db_ledger d' = db_ledger d \<and> db_members d' = db_members d
     \<and> db_users d' = db_users d \<and> db_referrals d' = db_referrals d \<and> db_revisions d' = db_revisions d
     \<and> db_bookings d' = db_bookings d"
  by (auto simp: record_event_def split: option.splits if_splits)

subsection \<open>Sample rows\<close>

text \<open>Concrete settings and rows that the witnesses of the later theories start from.\<close>

definition sample_env :: env where
  "sample_env = \<lparr> loyalty_enabled = True, launch_setting = Some (Aware 0), pilot_setting = False,
     pilot_emails_setting = None, pilot_references_setting = None, stay_exception_setting = None,
     allow_historical = False, retain_acceptance = False, terms_approved = True,
     terms_setting = (''loyalty-public-20261018-v5'', ''/ar/legal/rewards/2026-10-18-v5/''),
     fx = base_fx, now = 1000, zone_instant = (\<lambda>z. Some (\<lambda>w. w)), zone_rules = (\<lambda>z. Some (\<lambda>t. 0)),
     valid_email = (\<lambda>s. s \<noteq> []), payload_digest = (\<lambda>v. ''p''), facts_digest = (\<lambda>f. ''f''),
     fresh_token = ''token'', authorized_offer = (\<lambda>b. None), offered_bookings = (\<lambda>u. []),
     issued_reference = (\<lambda>v l. None), normal_phone = Some,
     text_digest = (\<lambda>s. s), receipt_key = (\<lambda>s. s) \<rparr>"

definition sample_user :: "nat \<Rightarrow> user" where
  "sample_user n = \<lparr> user_id = n, u_email = ''a@b.c'', u_authenticated = True, u_active = True,
     u_staff = True, u_change_reservation = True, u_operations_owner = True, u_verified = True \<rparr>"

definition sample_member :: "nat \<Rightarrow> nat \<Rightarrow> string \<Rightarrow> member" where
  "sample_member n c number = \<lparr> member_id = n, m_customer = c, m_number = number,
     m_status = ActiveMember, m_joined_at = 0, m_consent_at = 0, m_terms_version = ''v'',
     m_terms_reference = ''r'', m_language = ''ar'', m_first_completed = None,
     m_first_completed_at = None, m_invitation_token = None, m_invitation_issued_at = None,
     m_receipts = [], m_withdrawn_at = None \<rparr>"

definition sample_link :: "nat \<Rightarrow> nat option \<Rightarrow> string \<Rightarrow> nat \<Rightarrow> nat \<Rightarrow> link" where
  "sample_link n inviter path depth branch = \<lparr> ln_member = n, ln_inviter = inviter, ln_root = 11,
     ln_tree_number = path, ln_depth = depth, ln_branch = branch \<rparr>"

definition sample_contact :: contact where
  "sample_contact = \<lparr> ct_email = ''guest@example.com'', ct_given = ''Sara'', ct_surname = ''Ali'', ct_street = ''King Road 1'',
     ct_city = ''Riyadh'', ct_state = ''Riyadh'', ct_country = ''SA'', ct_postcode = ''12345'',
     ct_guest_country = ''SA'', ct_language = ''ar'' \<rparr>"

definition sample_intent :: intent where
  "sample_intent = \<lparr> in_id = 50, in_customer = Some 1, in_status = InCompleted, in_currency = ''SAR'',
     in_total = 1000, in_payment_sar = Some 1000, in_fx = PyDict [],
     in_quote = \<lparr> sq_components = PyList [PyDict [(''type'', PyStr ''baseRate''),
         (''total'', PyDecText 1000), (''included_in_total'', PyBool True)]],
       sq_check_in = 719163, sq_check_out = 719165, sq_total = 1000, sq_nights = None,
       sq_manual_total = None \<rparr>, in_phone = ''+966'',
     in_payments = [], in_property = 1, in_check_in = 719163, in_check_out = 719165, in_nights = 2,
     in_guests = 2, in_expires_at = 900, in_contact = sample_contact,
     in_session = ''guest'', in_display = [] \<rparr>"

definition sample_booking :: booking where
  "sample_booking = \<lparr> bk_id = 70, bk_reference = ''RS1'', bk_intent = Some sample_intent,
     bk_zone = Some ''UTC'', bk_source = DirectWebsite, bk_status = Confirmed, bk_created_at = 5,
     bk_check_in = 719163, bk_check_out = 719165, bk_nights = 2, bk_currency = ''SAR'',
     bk_total = 1000, bk_payment_status = ''paid'', bk_refunds = [], bk_modifications = [],
     bk_loyalty = blank_loyalty, bk_offline = None, bk_property = 1,
     bk_guests = 2, bk_remote = Some 500, bk_listing_map = Some 12,
     bk_channel = Some 2000, bk_remote_status = ''new'', bk_source_updated = None, bk_synced_at = Some 10,
     bk_confirmed_at = Some 10, bk_cancelled_at = None, bk_test = False,
     bk_operation = Some \<lparr> op_status = OpSucceeded, op_attempts = 1, op_fingerprint = ''f'', op_remote = Some 500,
       op_error = [], op_started_at = Some 9, op_completed_at = Some 10 \<rparr> \<rparr>"

definition sample_db :: db where
  "sample_db = \<lparr> db_users = [sample_user 1, sample_user 2, sample_user 3],
     db_members = [sample_member 11 1 ''LSA-M000011'', sample_member 12 2 ''LSA-M000012''],
     db_referrals = [sample_link 11 None ''0001'' 0 1, sample_link 12 (Some 11) ''0001-0001'' 1 1],
     db_revisions = [], db_ledger = [], db_bookings = [sample_booking], db_events = [],
     db_phones = [], db_claims = [], db_audit = [], db_intents = [] \<rparr>"

lemmas sample_defs = sample_env_def sample_user_def sample_member_def sample_link_def
  sample_intent_def sample_booking_def sample_db_def blank_loyalty_def

end
