(* ===== verification/Launch.thy ===== *)
theory Launch
  imports LoyaltyState
begin

section \<open>Who takes part (apps/loyalty/launch.py)\<close>

text \<open>
  The fail-closed acceptance scope: the pilot lists of addresses and booking references,
  and the waivers tied to them. A set of texts is a list of its members. Text is 8-bit, so
  \<open>casefold\<close> is lower case. The last section reads the launch date of \<open>services.py\<close>.
\<close>

definition casefold :: "string \<Rightarrow> string" where
  "casefold s = map lower_char s"

text \<open>\<open>isinstance(values, list | tuple) and lo <= len(values) <= hi\<close>.\<close>

definition listed :: "nat \<Rightarrow> nat \<Rightarrow> string list option \<Rightarrow> string list option" where
  "listed lo hi values =
     (case values of Some vs \<Rightarrow> if lo \<le> length vs \<and> length vs \<le> hi then Some vs else None
      | None \<Rightarrow> None)"

definition pilot_emails :: "env \<Rightarrow> string list" where
  "pilot_emails e =
     (case listed 1 20 (pilot_emails_setting e) of None \<Rightarrow> []
      | Some vs \<Rightarrow> let ns = map (\<lambda>v. casefold (strip v)) vs
                   in if list_all (valid_email e) ns then ns else [])"

definition reference_char :: "char \<Rightarrow> bool" where
  "reference_char c = (let n = (of_char c :: nat) in
     (48 \<le> n \<and> n \<le> 57) \<or> (65 \<le> n \<and> n \<le> 90) \<or> (97 \<le> n \<and> n \<le> 122))"

text \<open>\<open>re.fullmatch("[A-Za-z0-9][A-Za-z0-9._-]{0,99}", v)\<close>.\<close>

fun reference_ok :: "string \<Rightarrow> bool" where
  "reference_ok [] = False"
| "reference_ok (c # s) = (reference_char c \<and> length s \<le> 99 \<and>
     list_all (\<lambda>x. reference_char x \<or> x = CHR ''.'' \<or> x = CHR ''_'' \<or> x = CHR ''-'') s)"

definition pilot_references :: "env \<Rightarrow> string list" where
  "pilot_references e =
     (case listed 1 20 (pilot_references_setting e) of None \<Rightarrow> []
      | Some vs \<Rightarrow> let rs = map strip vs in if list_all reference_ok rs then rs else [])"

definition participant_allowed :: "env \<Rightarrow> user option \<Rightarrow> bool" where
  "participant_allowed e u =
     (\<not> pilot_setting e \<or>
      (case u of None \<Rightarrow> False
       | Some x \<Rightarrow> u_authenticated x \<and> u_active x
                  \<and> casefold (strip (u_email x)) \<in> set (pilot_emails e)))"

text \<open>The customer row of a booking's intent.\<close>

definition intent_user :: "db \<Rightarrow> booking \<Rightarrow> user option" where
  "intent_user d b = Option.bind (booking_customer b) (get_user d)"

definition booking_allowed :: "env \<Rightarrow> db \<Rightarrow> booking \<Rightarrow> bool" where
  "booking_allowed e d b =
     (\<not> pilot_setting e \<or>
      (booking_customer b \<noteq> None \<and> participant_allowed e (intent_user d b)
       \<and> bk_reference b \<in> set (pilot_references e)))"

definition stay_exception_references :: "env \<Rightarrow> string list" where
  "stay_exception_references e =
     (case listed 1 1 (stay_exception_setting e) of None \<Rightarrow> []
      | Some vs \<Rightarrow> let rs = map strip vs in
                   if set rs \<subseteq> set (pilot_references e) then rs else [])"

definition retained_acceptance :: "env \<Rightarrow> db \<Rightarrow> booking \<Rightarrow> bool" where
  "retained_acceptance e d b =
     (if pilot_setting e \<or> \<not> retain_acceptance e then False
      else bk_reference b \<in> set (stay_exception_references e)
        \<and> (case intent_user d b of None \<Rightarrow> False
           | Some u \<Rightarrow> u_active u \<and> casefold (strip (u_email u)) \<in> set (pilot_emails e))
        \<and> (case ls_settlement (bk_loyalty b) of None \<Rightarrow> False
           | Some s \<Rightarrow> f_stay_exception (se_facts s))
        \<and> list_ex (\<lambda>r. e_reservation (row_entry r) = Some (bk_id b)
              \<and> Some (row_customer r) = booking_customer b
              \<and> e_event (row_entry r) = EarnEvent
              \<and> (case e_facts (row_entry r) of None \<Rightarrow> False | Some f \<Rightarrow> f_stay_exception f))
            (db_ledger d))"

definition historical_award_allowed :: "env \<Rightarrow> db \<Rightarrow> booking \<Rightarrow> bool" where
  "historical_award_allowed e d b =
     (pilot_setting e \<and> allow_historical e \<and> booking_allowed e d b \<or> retained_acceptance e d b)"

definition stay_exception_allowed :: "env \<Rightarrow> db \<Rightarrow> booking \<Rightarrow> bool" where
  "stay_exception_allowed e d b =
     ((pilot_setting e \<and> booking_allowed e d b
        \<and> bk_reference b \<in> set (stay_exception_references e))
      \<or> retained_acceptance e d b)"

text \<open>\<open>launch_at()\<close>: the setting must be a date with a time zone.\<close>

definition launch_at :: "env \<Rightarrow> instant res" where
  "launch_at e =
     (case launch_setting e of Some (Aware t) \<Rightarrow> Inr t
      | _ \<Rightarrow> Inl (ValidationError ''launch_date''))"

text \<open>
  \<open>posting_transaction()\<close>: enabled, a launch date, then the body under one lock; an
  exception inside rolls the transaction back, so a failed command has no new state.
\<close>

definition posting_transaction :: "env \<Rightarrow> 'a res \<Rightarrow> 'a res" where
  "posting_transaction e body =
     (if \<not> loyalty_enabled e then Inl (ValidationError ''loyalty_disabled'')
      else bindE (launch_at e) (\<lambda>_. body))"

lemma posting_transaction_Inr [result_simps]:
  "posting_transaction e body = Inr x \<longleftrightarrow>
     loyalty_enabled e \<and> (\<exists>t. launch_setting e = Some (Aware t)) \<and> body = Inr x"
  by (auto simp: posting_transaction_def launch_at_def split: option.splits datetime.splits)

text \<open>
  The lists are all or nothing: one bad address or reference, or a list of the wrong
  length, leaves no one in the pilot.
\<close>

lemma pilot_emails_all_valid: "x \<in> set (pilot_emails e) \<Longrightarrow> valid_email e x"
  by (auto simp: pilot_emails_def Let_def list_all_iff split: option.splits if_splits)

lemma booking_allowed_customer:
  assumes "pilot_setting e" and "booking_allowed e d b"
  shows "\<exists>u. intent_user d b = Some u \<and> u_active u \<and> casefold (strip (u_email u)) \<in> set (pilot_emails e)"
  using assms by (auto simp: booking_allowed_def participant_allowed_def split: option.splits)

lemma stay_exception_single: "length (stay_exception_references e) \<le> 1"
  by (auto simp: stay_exception_references_def listed_def Let_def split: option.splits if_splits)

text \<open>The live acceptance scope fails closed. In pilot mode a booking takes part only if
  its customer is an active account with one of the valid listed addresses and its own
  reference is listed and well formed; at most one booking reference is ever exempt from the
  stay requirement, and in pilot mode it is one of the listed bookings.\<close>

lemma pilot_scope_fails_closed:
  assumes "pilot_setting e" and "booking_allowed e d b"
  shows "(\<exists>u. intent_user d b = Some u \<and> u_authenticated u \<and> u_active u
            \<and> casefold (strip (u_email u)) \<in> set (pilot_emails e)
            \<and> valid_email e (casefold (strip (u_email u))))
    \<and> reference_ok (bk_reference b)
    \<and> (stay_exception_allowed e d b' \<longrightarrow> stay_exception_references e = [bk_reference b'])
    \<and> (stay_exception_allowed e d b' \<longrightarrow> bk_reference b' \<in> set (pilot_references e))"
proof -
  obtain u where u: "intent_user d b = Some u" "u_authenticated u" "u_active u"
      "casefold (strip (u_email u)) \<in> set (pilot_emails e)" and r: "bk_reference b \<in> set (pilot_references e)"
    using assms by (auto simp: booking_allowed_def participant_allowed_def split: option.splits)
  have ok: "reference_ok (bk_reference b)"
    using r by (auto simp: pilot_references_def Let_def list_all_iff split: option.splits if_splits)
  have s: "stay_exception_references e = [bk_reference b'] \<and> bk_reference b' \<in> set (pilot_references e)"
    if "stay_exception_allowed e d b'"
  proof -
    have m: "bk_reference b' \<in> set (stay_exception_references e)"
      using that assms(1) by (auto simp: stay_exception_allowed_def retained_acceptance_def)
    moreover have "\<exists>x. stay_exception_references e = [x]"
      using m stay_exception_single [of e] by (cases "stay_exception_references e") auto
    moreover have "set (stay_exception_references e) \<subseteq> set (pilot_references e)"
      by (auto simp: stay_exception_references_def Let_def split: option.splits if_splits)
    ultimately show ?thesis by auto
  qed
  show ?thesis using u ok s pilot_emails_all_valid by blast
qed

lemma pilot_scope_fails_closed_at:
  "reference_ok ''RS1''
    \<and> stay_exception_references (sample_env \<lparr> pilot_setting := True,
        pilot_emails_setting := Some ['' a@b.c''], pilot_references_setting := Some [''RS1''],
        stay_exception_setting := Some [''RS1''] \<rparr>) = [''RS1'']"
proof -
  let ?e = "sample_env \<lparr> pilot_setting := True,
        pilot_emails_setting := Some ['' a@b.c''], pilot_references_setting := Some [''RS1''],
        stay_exception_setting := Some [''RS1''] \<rparr>"
  have a: "booking_allowed ?e sample_db sample_booking \<and> stay_exception_allowed ?e sample_db sample_booking"
    by (simp add: stay_exception_allowed_def booking_allowed_def participant_allowed_def
        booking_customer_def intent_user_def get_user_def row_get_def sample_defs pilot_emails_def
        pilot_references_def stay_exception_references_def listed_def casefold_def strip_def
        is_space_char_def lower_char_def reference_char_def Let_def)
  show ?thesis
    using pilot_scope_fails_closed [of ?e sample_db sample_booking sample_booking] a
    by (simp add: sample_env_def) (simp add: sample_booking_def)
qed

end
