(* ===== verification/SiteFacts.thy ===== *)
theory SiteFacts
  imports Launch
begin

section \<open>The verified facts of a stay\<close>

text \<open>
  \<open>apps/loyalty/valuation.py\<close> (the SAR value of a booking from its funding snapshots),
  \<open>accrual.py\<close> (the scheduled admission that stands for an arrival) and
  \<open>site_adapter.py\<close> (the stay's times, the lodging share of a price breakdown, and the facts
  document with its blockers). \<open>booking_facts\<close> is split into the stages of its body; a stage
  returns what it found or the code of the blocker.
\<close>

subsection \<open>Valuation\<close>

definition sar :: pyval where
  "sar = PyStr payment_currency"

text \<open>\<open>except CurrencyError as exc: raise ValidationError(...)\<close>.\<close>

definition currency_to_validation :: "string \<Rightarrow> 'a res \<Rightarrow> 'a res" where
  "currency_to_validation message r =
     (case r of Inl x \<Rightarrow> if is_currency_error x then Inl (ValidationError message) else Inl x
      | Inr y \<Rightarrow> Inr y)"

definition optional_amount :: "rat option \<Rightarrow> pyval" where
  "optional_amount x = (case x of None \<Rightarrow> PyNone | Some q \<Rightarrow> PyDec (Fin q))"

definition intent_total_sar :: "fx_config \<Rightarrow> intent \<Rightarrow> rat res" where
  "intent_total_sar cfg i =
     bindE (if in_currency i = payment_currency
            then ensure (in_payment_sar i = Some (in_total i)) (ValidationError ''settlement_mismatch'')
            else currency_to_validation ''original_rate_required''
                   (validate_payment_snapshot cfg (PyDec (Fin (in_total i))) (PyStr (in_currency i))
                      (optional_amount (in_payment_sar i)) (in_fx i))) (\<lambda>_.
       of_option (TypeError ''None'') (in_payment_sar i))"

text \<open>
  One completed change of the contract: the total in the booking's currency and in SAR
  before it, and after it.
\<close>

definition contract_step :: "fx_config \<Rightarrow> string \<Rightarrow> modification \<Rightarrow> rat \<times> rat \<Rightarrow> (rat \<times> rat) res" where
  "contract_step cfg currency change totals =
     (let source = fst totals; value = snd totals in
      case mo_new_total change of
        None \<Rightarrow> Inl (ValidationError ''settlement_sequence'')
      | Some target \<Rightarrow>
          if mo_old_total change \<noteq> source \<or> mo_currency change \<noteq> currency
          then Inl (ValidationError ''settlement_sequence'')
          else if target < 0 then Inl (ValidationError ''settlement_value'')
          else if source < target then
            bindE (currency_to_validation ''increase_funding_required''
                     (validate_payment_snapshot cfg (PyDec (Fin (target - source))) (PyStr currency)
                        (optional_amount (mo_payment_sar change)) (dget (mo_snapshot change) ''fx''))) (\<lambda>_.
            bindE (of_option (TypeError ''None'') (mo_payment_sar change)) (\<lambda>paid.
              Inr (target, value + paid)))
          else if source \<noteq> 0 then
            bindE (ddiv (dmul value target) source) (\<lambda>q.
            bindE (quantize round_half_up 2 q) (\<lambda>v. Inr (target, v)))
          else Inr (target, value))"

fun contract_loop :: "fx_config \<Rightarrow> string \<Rightarrow> modification list \<Rightarrow> rat \<times> rat \<Rightarrow> (rat \<times> rat) res" where
  "contract_loop cfg currency [] totals = Inr totals"
| "contract_loop cfg currency (c # cs) totals =
     bindE (contract_step cfg currency c totals) (contract_loop cfg currency cs)"

text \<open>The changes in the order of their completion; PostgreSQL sorts nulls last upwards.\<close>

definition by_completion :: "modification list \<Rightarrow> modification list" where
  "by_completion ms =
     sort_key (\<lambda>m. case mo_completed_at m of None \<Rightarrow> 0 | Some t \<Rightarrow> t) (filter (\<lambda>m. mo_completed_at m \<noteq> None) ms)
     @ filter (\<lambda>m. mo_completed_at m = None) ms"

definition settled_changes :: "booking \<Rightarrow> modification list" where
  "settled_changes b = by_completion (filter (\<lambda>m. mo_completed m \<and> mo_type m \<noteq> CancelReservation) (bk_modifications b))"

definition contract :: "fx_config \<Rightarrow> booking \<Rightarrow> (rat \<times> rat) res" where
  "contract cfg b =
     bindE (of_option (TypeError ''no_intent'') (bk_intent b)) (\<lambda>i.
     bindE (intent_total_sar cfg i) (\<lambda>v.
     if bk_currency b \<noteq> in_currency i then Inl (ValidationError ''currency_mismatch'')
     else bindE (contract_loop cfg (bk_currency b) (settled_changes b) (in_total i, v)) (\<lambda>totals.
            if fst totals \<noteq> bk_total b then Inl (ValidationError ''total_mismatch'')
            else Inr totals)))"

definition to_sar :: "fx_config \<Rightarrow> booking \<Rightarrow> rat \<Rightarrow> rat res" where
  "to_sar cfg b value =
     (if bk_currency b = payment_currency then normalize_amount cfg (PyDec (Fin value)) sar
      else bindE (contract cfg b) (\<lambda>(source, v).
        if source = 0 then if value \<noteq> 0 then Inl (ValidationError ''zero_contract'') else Inr 0
        else bindE (ddiv (dmul value v) source) (quantize round_half_up 2)))"

definition total_sar :: "fx_config \<Rightarrow> booking \<Rightarrow> rat res" where
  "total_sar cfg b =
     (if bk_currency b = payment_currency then normalize_amount cfg (PyDec (Fin (bk_total b))) sar
      else bindE (contract cfg b) (\<lambda>totals. Inr (snd totals)))"

definition to_source :: "fx_config \<Rightarrow> booking \<Rightarrow> rat \<Rightarrow> rat res" where
  "to_source cfg b value =
     (if bk_currency b = payment_currency then Inr value
      else bindE (contract cfg b) (\<lambda>(source, v).
        if v = 0 then if value \<noteq> 0 then Inl (ValidationError ''zero_contract'') else Inr 0
        else bindE (ddiv (dmul value source) v) (\<lambda>q.
               normalize_amount cfg (PyDec (Fin q)) (PyStr (bk_currency b)))))"

subsection \<open>Times and the scheduled admission\<close>

definition stay_times :: "env \<Rightarrow> booking \<Rightarrow> (instant \<times> instant) res" where
  "stay_times e b =
     bindE (of_option (ValidationError ''property_zone'') (bk_zone b)) (\<lambda>z.
     bindE (of_option (KeyError ''ZoneInfoNotFoundError'') (zone_instant e z)) (\<lambda>f.
       Inr (f (wall_clock (bk_check_in b) 15), f (wall_clock (bk_check_out b) 12))))"

definition approved_terms :: "(string \<times> string) list" where
  "approved_terms =
     [(''loyalty-public-20261016-v2'', ''/ar/legal/rewards/2026-10-16-v2/''),
      (''loyalty-public-20261017-v3'', ''/ar/legal/rewards/2026-10-17-v3/''),
      (''loyalty-public-20261017-v4'', ''/ar/legal/rewards/2026-10-17-v4/''),
      (''loyalty-public-20261018-v5'', ''/ar/legal/rewards/2026-10-18-v5/'')]"

definition policy_enabled :: "env \<Rightarrow> bool" where
  "policy_enabled e =
     (loyalty_enabled e \<and> terms_approved e \<and> terms_setting e \<in> set approved_terms)"

text \<open>
  A saved scheduled admission has the current policy (the code writes no other). The
  reference text \<open>scheduled-checkin:pk:start\<close> is not taken apart anywhere.
\<close>

definition scheduled_eligibility :: "env \<Rightarrow> booking \<Rightarrow> scheduled option res" where
  "scheduled_eligibility e b =
     (let fresh =
        (if \<not> policy_enabled e \<or> bk_status b \<notin> set active_statuses then Inr None
         else bindE (stay_times e b) (\<lambda>(start, end_at).
           if start \<le> now e \<and> now e < end_at
           then Inr (Some \<lparr> sc_at = Aware start,
                           sc_zone = (case bk_zone b of None \<Rightarrow> [] | Some z \<Rightarrow> z),
                           sc_reference = ''scheduled-checkin'' \<rparr>)
           else Inr None))
      in case ls_scheduled (bk_loyalty b) of
           None \<Rightarrow> fresh
         | Some previous \<Rightarrow>
             (case sc_at previous of
                Aware t \<Rightarrow> if t \<le> now e then Inr (Some previous) else fresh
              | Naive _ \<Rightarrow> fresh))"

datatype admission = ManualArrival arrival | ScheduledAdmission scheduled

definition admission_time :: "admission \<Rightarrow> datetime" where
  "admission_time a = (case a of ManualArrival m \<Rightarrow> ar_at m | ScheduledAdmission s \<Rightarrow> sc_at s)"

definition earlier_aware :: "datetime \<Rightarrow> datetime \<Rightarrow> bool" where
  "earlier_aware s m = (case (s, m) of (Aware x, Aware y) \<Rightarrow> x < y | _ \<Rightarrow> False)"

definition effective_arrival :: "env \<Rightarrow> booking \<Rightarrow> admission option res" where
  "effective_arrival e b =
     bindE (scheduled_eligibility e b) (\<lambda>scheduled. Inr (
       case (ls_arrival (bk_loyalty b), scheduled) of
         (Some m, Some s) \<Rightarrow>
           if earlier_aware (sc_at s) (ar_at m) then Some (ScheduledAdmission s)
           else Some (ManualArrival m)
       | (Some m, None) \<Rightarrow> Some (ManualArrival m)
       | (None, Some s) \<Rightarrow> Some (ScheduledAdmission s)
       | (None, None) \<Rightarrow> None))"

subsection \<open>The lodging share of a price breakdown\<close>

fun lodging_loop :: "pyval list \<Rightarrow> rat \<Rightarrow> rat \<Rightarrow> bool \<Rightarrow> (rat \<times> rat \<times> bool) res" where
  "lodging_loop [] total_sum lodging has_base = Inr (total_sum, lodging, has_base)"
| "lodging_loop (part # ps) total_sum lodging has_base =
     bindE (of_option (ValueError ''price_breakdown_unverified'') (dict_items part)) (\<lambda>d.
     if dget d ''included_in_total'' \<noteq> PyBool True
     then Inl (ValueError ''price_breakdown_unverified'')
     else bindE (of_option (KeyError ''total'') (map_of d ''total'')) (\<lambda>t.
     bindE (of_option (DecimalError ''ConversionSyntax'') (decimal_of_str t)) (\<lambda>value.
       case value of
         Fin v \<Rightarrow>
           if v < 0 then Inl (ValueError ''discount_allocation_required'')
           else if dget d ''type'' = PyStr ''baseRate''
           then lodging_loop ps (total_sum + v) (lodging + v) True
           else lodging_loop ps (total_sum + v) lodging has_base
       | _ \<Rightarrow> Inl (ValueError ''price_breakdown_invalid''))))"

definition lodging_of :: "pyval \<Rightarrow> rat \<Rightarrow> rat res" where
  "lodging_of components whole =
     (case components of
        PyList parts \<Rightarrow>
          if parts = [] then Inl (ValueError ''price_breakdown_missing'')
          else bindE (lodging_loop parts 0 0 False) (\<lambda>(total_sum, lodging, has_base).
            if total_sum \<noteq> whole \<or> \<not> has_base \<or> lodging < 0 \<or> whole < lodging
            then Inl (ValueError ''price_breakdown_mismatch'') else Inr lodging)
      | _ \<Rightarrow> Inl (ValueError ''price_breakdown_missing''))"

subsection \<open>The stages of booking_facts\<close>

text \<open>A stage gives a blocker code (\<open>Inl\<close>) or its findings (\<open>Inr\<close>), or raises.\<close>

type_synonym 'a stage = "(string + 'a) res"

definition block :: "string \<Rightarrow> 'a stage" where
  "block code = Inr (Inl code)"

definition found :: "'a \<Rightarrow> 'a stage" where
  "found x = Inr (Inr x)"

definition and_then :: "'a stage \<Rightarrow> ('a \<Rightarrow> 'b stage) \<Rightarrow> 'b stage" where
  "and_then s k = bindE s (\<lambda>r. case r of Inl code \<Rightarrow> block code | Inr x \<Rightarrow> k x)"

definition lift_res :: "'a res \<Rightarrow> 'a stage" where
  "lift_res r = bindE r found"

text \<open>What the \<open>except\<close> clause makes of an exception raised inside the \<open>try\<close>.\<close>

fun caught_code :: "exc \<Rightarrow> string option" where
  "caught_code (ValueError s) = Some s"
| "caught_code (KeyError s) = Some ''financial_facts_invalid''"
| "caught_code (DecimalError s) = Some ''financial_facts_invalid''"
| "caught_code (ValidationError s) = Some ''financial_facts_invalid''"
| "caught_code x = (if is_currency_error x then Some ''financial_facts_invalid'' else None)"

definition catch_facts :: "'a stage \<Rightarrow> 'a stage" where
  "catch_facts s = (case s of
      Inl x \<Rightarrow> (case caught_code x of Some code \<Rightarrow> block code | None \<Rightarrow> Inl x)
    | Inr r \<Rightarrow> Inr r)"

record scope_facts =
  fs_intent :: intent
  fs_offer :: "past_offer option"
  fs_past :: bool
  fs_historical :: bool
  fs_exception :: bool

definition scope_stage :: "env \<Rightarrow> db \<Rightarrow> booking \<Rightarrow> bool \<Rightarrow> scope_facts stage" where
  "scope_stage e d b past_preview =
     (if \<not> booking_allowed e d b then block ''outside_pilot_scope''
      else
        let offer = (if past_preview then None else authorized_offer e b);
            past = (past_preview \<or> offer \<noteq> None);
            historical = (historical_award_allowed e d b \<or> past)
        in case bk_intent b of
             None \<Rightarrow> block ''outside_program_scope''
           | Some i \<Rightarrow>
               if bk_source b \<noteq> DirectWebsite
                  \<or> (in_customer i = None \<and> \<not> past_preview \<and> offer = None)
               then block ''outside_program_scope''
               else bindE (launch_at e) (\<lambda>launch.
                 if bk_created_at b < launch \<and> \<not> historical then block ''outside_program_scope''
                 else found \<lparr> fs_intent = i, fs_offer = offer, fs_past = past,
                        fs_historical = historical,
                        fs_exception = stay_exception_allowed e d b \<rparr>))"

definition member_stage :: "db \<Rightarrow> scope_facts \<Rightarrow> bool \<Rightarrow> member option stage" where
  "member_stage d s past_preview =
     (let m = (case fs_offer s of
                 Some offer \<Rightarrow> member_of_customer d (of_beneficiary offer)
               | None \<Rightarrow> Option.bind (in_customer (fs_intent s)) (member_of_customer d))
      in if \<not> past_preview \<and> (case m of None \<Rightarrow> True | Some x \<Rightarrow> m_status x \<noteq> ActiveMember)
         then block ''membership_required'' else found m)"

definition time_stage ::
    "env \<Rightarrow> booking \<Rightarrow> scope_facts \<Rightarrow> member option \<Rightarrow> (scheduled option \<times> instant \<times> instant) stage" where
  "time_stage e b s m =
     and_then (lift_res (if ls_arrival (bk_loyalty b) = None then scheduled_eligibility e b
                         else Inr None)) (\<lambda>scheduled.
     if ls_arrival (bk_loyalty b) = None \<and> scheduled = None \<and> \<not> fs_exception s \<and> \<not> fs_past s
     then block ''arrival_required''
     else and_then (lift_res (stay_times e b)) (\<lambda>(start, end_at).
       if fs_past s \<and> (bk_status b \<notin> set active_statuses \<or> now e < end_at)
          \<and> \<not> (fs_offer s \<noteq> None \<and> ls_settlement (bk_loyalty b) \<noteq> None)
       then block ''past_completed_stay_required''
       else if (case ls_arrival (bk_loyalty b) of
                  None \<Rightarrow> False
                | Some a \<Rightarrow> (case ar_at a of Naive _ \<Rightarrow> True | Aware t \<Rightarrow> now e < t))
            \<or> (case m of None \<Rightarrow> False | Some x \<Rightarrow> now e < m_consent_at x
                 \<or> (end_at < m_consent_at x \<and> \<not> fs_historical s))
       then block ''stay_or_consent_not_eligible''
       else found (scheduled, start, end_at)))"

definition verified_payments :: "intent \<Rightarrow> payment list" where
  "verified_payments i = filter (\<lambda>p. pa_verified_at p \<noteq> None
     \<and> pa_status p \<in> {PaSucceeded, PaPartiallyRefunded, PaRefunded}) (in_payments i)"

definition blank_text :: "string option \<Rightarrow> bool" where
  "blank_text s = (s = None \<or> s = Some [])"

definition net_points :: "booking \<Rightarrow> rat" where
  "net_points b = (case ls_redemption (bk_loyalty b) of None \<Rightarrow> 0
     | Some r \<Rightarrow> re_value r - re_restored r)"

record money_facts =
  fm_payments :: "payment list"
  fm_refunds :: "obligation list"
  fm_cash :: rat
  fm_returned :: rat
  fm_points :: rat

definition money_stage :: "env \<Rightarrow> booking \<Rightarrow> intent \<Rightarrow> money_facts stage" where
  "money_stage e b i =
     (let payments = verified_payments i;
          refunds = filter (\<lambda>r. ob_status r = RefundTransferred) (bk_refunds b);
          cash = sum_list (map pa_amount payments);
          returned = sum_list (map ob_amount refunds)
      in if list_ex (\<lambda>p. (case pa_verified_at p of None \<Rightarrow> False | Some t \<Rightarrow> now e < t)
              \<or> pa_currency p \<noteq> payment_currency \<or> blank_text (pa_provider_id p)) payments
         then block ''payment_receipt_reconciliation_required''
         else if list_ex (\<lambda>r. ob_currency r \<noteq> payment_currency \<or> ob_transferred_at r = None) refunds
         then block ''refund_currency_reconciliation_required''
         else if cash < returned then block ''refund_exceeds_verified_cash''
         else if list_ex (\<lambda>p. pa_status p = PaRefunded) payments \<and> refunds = []
         then block ''refund_receipt_missing''
         else if bk_status b \<noteq> Cancelled \<and> bk_status b \<notin> set active_statuses
         then block ''booking_not_confirmed''
         else found \<lparr> fm_payments = payments, fm_refunds = refunds, fm_cash = cash,
                fm_returned = returned, fm_points = net_points b \<rparr>)"

text \<open>
  The last completed change that is no cancellation, and the price breakdown in force.
\<close>

definition last_change :: "booking \<Rightarrow> modification option" where
  "last_change b = (if settled_changes b = [] then None else Some (last (settled_changes b)))"

definition base_rate_components :: "rat \<Rightarrow> pyval" where
  "base_rate_components whole = PyList [PyDict
     [(''type'', PyStr ''baseRate''), (''total'', PyDecText whole),
      (''included_in_total'', PyBool True)]]"

definition components_stage ::
    "booking \<Rightarrow> intent \<Rightarrow> payment list \<Rightarrow> (modification option \<times> pyval) stage" where
  "components_stage b i payments =
     (case last_change b of
        Some m \<Rightarrow>
          if mo_new_check_in m \<noteq> Some (bk_check_in b) \<or> mo_new_check_out m \<noteq> Some (bk_check_out b)
             \<or> mo_new_total m \<noteq> Some (bk_total b)
          then block ''modification_snapshot_mismatch''
          else found (Some m, dget (mo_snapshot m) ''components'')
      | None \<Rightarrow>
          if in_total i \<noteq> bk_total b
             \<or> (bk_currency b = payment_currency \<and> sq_manual_total (in_quote i) \<noteq> None
                \<and> list_ex (\<lambda>p. pa_provider p = ''manual'') payments
                \<and> map_option fst (ls_manual_price (bk_loyalty b)) = Some (bk_total b))
          then
            if sq_manual_total (in_quote i) \<noteq> Some (bk_total b)
               \<or> map_option fst (ls_manual_price (bk_loyalty b)) \<noteq> Some (bk_total b)
            then block ''manual_price_breakdown_required''
            else found (None, base_rate_components (bk_total b))
          else found (None, sq_components (in_quote i)))"

fun single_accommodation :: "pyval \<Rightarrow> (string \<times> pyval) list option" where
  "single_accommodation (PyList [PyDict d]) =
     (if dget d ''type'' = PyStr ''accommodation'' then Some d else None)"
| "single_accommodation v = None"

record amount_facts =
  fa_base :: rat
  fa_gross :: rat
  fa_adapter :: bool

definition cancelled_amounts :: "env \<Rightarrow> booking \<Rightarrow> amount_facts stage" where
  "cancelled_amounts e b =
     and_then (lift_res (effective_arrival e b)) (\<lambda>arrived.
     if arrived \<noteq> None \<and> ls_departure (bk_loyalty b) = None
     then block ''departure_refund_evidence_required''
     else case ls_settlement (bk_loyalty b) of
            None \<Rightarrow> block ''cancelled_without_accrual''
          | Some s \<Rightarrow> found \<lparr> fa_base = (case ls_departure (bk_loyalty b) of
                                   None \<Rightarrow> 0 | Some dep \<Rightarrow> de_consumed dep),
                             fa_gross = f_total (se_facts s), fa_adapter = False \<rparr>)"

definition funded_amounts :: "money_facts \<Rightarrow> bool \<Rightarrow> rat \<Rightarrow> rat \<Rightarrow> amount_facts stage" where
  "funded_amounts money adapter lodging_sar gross =
     and_then (lift_res (quantize round_half_even 2 gross)) (\<lambda>rounded.
     if rounded \<noteq> gross then block ''booking_rounding_allocation_required''
     else if fm_cash money - fm_returned money + fm_points money < gross
     then block ''verified_payment_incomplete''
     else if fm_points money \<noteq> 0 \<and> lodging_sar \<noteq> gross
     then block ''mixed_fee_allocation_required''
     else and_then (lift_res (quantize round_down 2
              (min (max (lodging_sar - fm_points money) 0)
                 (fm_cash money - fm_returned money)))) (\<lambda>base.
            found \<lparr> fa_base = base, fa_gross = gross, fa_adapter = adapter \<rparr>))"

definition active_amounts ::
    "env \<Rightarrow> booking \<Rightarrow> scope_facts \<Rightarrow> money_facts \<Rightarrow> modification option \<Rightarrow> pyval \<Rightarrow> amount_facts stage" where
  "active_amounts e b s money change components =
     (let legacy = (if fs_exception s \<and> change = None then single_accommodation components else None);
          pricing = (case legacy of None \<Rightarrow> components
            | Some part \<Rightarrow> PyList [PyDict ((''type'', PyStr ''baseRate'') #
                             filter (\<lambda>kv. fst kv \<noteq> ''type'') part)])
      in and_then (lift_res (lodging_of pricing (bk_total b))) (\<lambda>lodging.
         and_then (lift_res (if bk_currency b = payment_currency then Inr (bk_total b)
                             else to_sar (fx e) b (bk_total b))) (\<lambda>gross.
         and_then (lift_res (if bk_currency b = payment_currency then Inr lodging
                             else to_sar (fx e) b lodging)) (\<lambda>lodging_sar.
         funded_amounts money (legacy \<noteq> None) lodging_sar gross))))"

definition fingerprint :: "env \<Rightarrow> facts \<Rightarrow> string" where
  "fingerprint e f = facts_digest e (f \<lparr> f_consent := None, f_terms := None, f_offer := None \<rparr>)"

definition facts_document ::
    "env \<Rightarrow> booking \<Rightarrow> bool \<Rightarrow> scope_facts \<Rightarrow> member option \<Rightarrow> scheduled option \<Rightarrow> instant \<Rightarrow> instant
     \<Rightarrow> money_facts \<Rightarrow> modification option \<Rightarrow> pyval \<Rightarrow> amount_facts \<Rightarrow> facts res" where
  "facts_document e b past_preview s m scheduled start end_at money change components amounts =
     bindE (quantize round_half_even 2 (fm_cash money)) (\<lambda>cash.
     bindE (quantize round_half_even 2 (fm_returned money)) (\<lambda>returned.
     bindE (quantize round_half_even 2 (fm_points money)) (\<lambda>points.
     Inr \<lparr> f_base = fa_base amounts, f_total = fa_gross amounts, f_cash = cash,
       f_refunded = returned, f_points = points, f_check_in = start, f_check_out = end_at,
       f_arrival_at = map_option ar_at (ls_arrival (bk_loyalty b)),
       f_arrival_reference =
         (case ls_arrival (bk_loyalty b) of Some a \<Rightarrow> ar_reference a
          | None \<Rightarrow> (case scheduled of Some sc \<Rightarrow> sc_reference sc
             | None \<Rightarrow> if fs_past s then ''owner-past-stay-invitation''
                       else ''explicit-owner-test-stay-exception'')),
       f_consent = (if past_preview then None else map_option m_consent_at m),
       f_terms = (if past_preview then None else map_option m_terms_version m),
       f_cancelled = (bk_status b = Cancelled),
       f_payments = map (\<lambda>p. (pa_id p, (case pa_provider_id p of None \<Rightarrow> [] | Some x \<Rightarrow> x),
                           (case pa_verified_at p of None \<Rightarrow> 0 | Some t \<Rightarrow> t), pa_amount p))
                      (fm_payments money),
       f_refunds = map ob_id (fm_refunds money),
       f_modification = map_option mo_id change,
       f_components = components, f_fx = in_fx (fs_intent s),
       f_offer = None, f_historical = False, f_accrual = None, f_stay_exception = False,
       f_price_adapter = False \<rparr>)))"

definition offer_stage :: "env \<Rightarrow> booking \<Rightarrow> scope_facts \<Rightarrow> facts \<Rightarrow> facts stage" where
  "offer_stage e b s f =
     (case fs_offer s of
        None \<Rightarrow> found f
      | Some offer \<Rightarrow>
          if (case ls_settlement (bk_loyalty b) of None \<Rightarrow> True
              | Some previous \<Rightarrow> f_offer (se_facts previous) = None)
             \<and> fingerprint e f \<noteq> of_fingerprint offer
          then block ''past_offer_financial_facts_changed''
          else found (f \<lparr> f_base := min (f_base f) (of_base offer), f_offer := Some offer \<rparr>))"

definition mark_facts ::
    "booking \<Rightarrow> scope_facts \<Rightarrow> scheduled option \<Rightarrow> amount_facts \<Rightarrow> facts \<Rightarrow> facts" where
  "mark_facts b s scheduled amounts f =
     f \<lparr> f_historical := (fs_historical s \<and> \<not> fs_past s), f_accrual := scheduled,
        f_stay_exception := (fs_exception s \<and> ls_arrival (bk_loyalty b) = None \<and> scheduled = None),
        f_price_adapter := fa_adapter amounts \<rparr>"

definition verified_stage :: "env \<Rightarrow> booking \<Rightarrow> bool \<Rightarrow> scope_facts \<Rightarrow> member option \<Rightarrow> facts stage" where
  "verified_stage e b past_preview s m =
     and_then (time_stage e b s m) (\<lambda>(scheduled, start, end_at).
     and_then (money_stage e b (fs_intent s)) (\<lambda>money.
     and_then (components_stage b (fs_intent s) (fm_payments money)) (\<lambda>(change, components).
     and_then (if bk_status b = Cancelled then cancelled_amounts e b
               else active_amounts e b s money change components) (\<lambda>amounts.
     if fm_cash money = 0 \<and> fm_points money = 0 \<and> bk_status b \<noteq> Cancelled
     then block ''verified_payment_required''
     else and_then (lift_res (facts_document e b past_preview s m scheduled start end_at money
                                change components amounts)) (\<lambda>f.
          and_then (offer_stage e b s f) (\<lambda>g. found (mark_facts b s scheduled amounts g)))))))"

definition booking_facts :: "env \<Rightarrow> db \<Rightarrow> booking \<Rightarrow> bool \<Rightarrow> facts stage" where
  "booking_facts e d b past_preview =
     and_then (scope_stage e d b past_preview) (\<lambda>s.
     and_then (member_stage d s past_preview) (\<lambda>m.
       catch_facts (verified_stage e b past_preview s m)))"

subsection \<open>Taking the stages apart\<close>

lemma found_iff [simp]: "found x = Inr (Inr y) \<longleftrightarrow> x = y"
  by (simp add: found_def)

lemma block_not_found [simp]: "block code \<noteq> Inr (Inr y)" "block code = Inr (Inl c) \<longleftrightarrow> c = code"
  by (auto simp: block_def)

lemma if_block_found [result_simps]:
  "(if c then block code else s) = Inr (Inr y) \<longleftrightarrow> \<not> c \<and> s = Inr (Inr y)"
  by (cases c) simp_all

lemma and_then_found [result_simps]:
  "and_then s k = Inr (Inr y) \<longleftrightarrow> (\<exists>x. s = Inr (Inr x) \<and> k x = Inr (Inr y))"
proof (cases s)
  case (Inr r)
  then show ?thesis by (cases r) (simp_all add: and_then_def)
qed (simp add: and_then_def)

lemma and_then_simps [simp]: "and_then (found x) k = k x" "and_then (block c) k = block c"
  by (simp_all add: and_then_def found_def block_def)

lemma lift_res_simps [simp]: "lift_res (Inr x) = found x" "lift_res (Inl y) = Inl y"
  by (simp_all add: lift_res_def)

lemma catch_facts_simps [simp]: "catch_facts (found x) = found x" "catch_facts (block c) = block c"
  by (simp_all add: catch_facts_def found_def block_def)

lemma lift_res_found [result_simps]: "lift_res r = Inr (Inr y) \<longleftrightarrow> r = Inr y"
  by (auto simp: lift_res_def bindE_Inr_iff)

lemma catch_facts_found [result_simps]: "catch_facts s = Inr (Inr y) \<longleftrightarrow> s = Inr (Inr y)"
  by (auto simp: catch_facts_def split: sum.splits option.splits)

lemma scope_stage_found:
  "scope_stage e d b pv = Inr (Inr s) \<Longrightarrow>
     booking_allowed e d b \<and> bk_source b = DirectWebsite \<and> bk_intent b = Some (fs_intent s)
     \<and> fs_exception s = stay_exception_allowed e d b
     \<and> fs_offer s = (if pv then None else authorized_offer e b)
     \<and> fs_past s = (pv \<or> fs_offer s \<noteq> None)"
  unfolding scope_stage_def Let_def
  by (auto simp: bindE_Inr_iff split: if_splits option.splits)

lemma member_stage_found:
  assumes "member_stage d s pv = Inr (Inr m)" and "\<not> pv"
  shows "\<exists>x. m = Some x \<and> m_status x = ActiveMember"
  using assms by (auto simp: member_stage_def Let_def split: if_splits option.splits)

lemma money_stage_found:
  assumes "money_stage e b i = Inr (Inr money)"
  shows "fm_payments money = verified_payments i
    \<and> (\<forall>p \<in> set (verified_payments i). pa_currency p = payment_currency
          \<and> (\<exists>t. pa_verified_at p = Some t \<and> t \<le> now e))
    \<and> fm_cash money = sum_list (map pa_amount (verified_payments i))
    \<and> fm_returned money = sum_list (map ob_amount (filter (\<lambda>r. ob_status r = RefundTransferred) (bk_refunds b)))
    \<and> fm_points money = net_points b \<and> fm_returned money \<le> fm_cash money
    \<and> (bk_status b = Cancelled \<or> bk_status b \<in> set active_statuses)"
proof -
  have c: "\<not> list_ex (\<lambda>p. (case pa_verified_at p of None \<Rightarrow> False | Some t \<Rightarrow> now e < t)
              \<or> pa_currency p \<noteq> payment_currency \<or> blank_text (pa_provider_id p)) (verified_payments i)"
    and r: "\<not> sum_list (map pa_amount (verified_payments i))
        < sum_list (map ob_amount (filter (\<lambda>r. ob_status r = RefundTransferred) (bk_refunds b)))"
    and st: "\<not> (bk_status b \<noteq> Cancelled \<and> bk_status b \<notin> set active_statuses)"
    and m: "\<lparr> fm_payments = verified_payments i,
         fm_refunds = filter (\<lambda>r. ob_status r = RefundTransferred) (bk_refunds b),
         fm_cash = sum_list (map pa_amount (verified_payments i)),
         fm_returned = sum_list (map ob_amount (filter (\<lambda>r. ob_status r = RefundTransferred) (bk_refunds b))),
         fm_points = net_points b \<rparr> = money"
    using assms unfolding money_stage_def Let_def if_block_found found_iff by blast+
  have "pa_currency p = payment_currency \<and> (\<exists>t. pa_verified_at p = Some t \<and> t \<le> now e)"
    if p: "p \<in> set (verified_payments i)" for p
  proof -
    obtain t where "pa_verified_at p = Some t" using p by (auto simp: verified_payments_def)
    then show ?thesis using c p by (auto simp: list_ex_iff)
  qed
  then show ?thesis using r st by (auto simp: m [symmetric])
qed

lemma lodging_of_bounds:
  "lodging_of c whole = Inr l \<Longrightarrow> 0 \<le> l \<and> l \<le> whole"
  by (auto simp: lodging_of_def bindE_Inr_iff split: pyval.splits if_splits)

lemma funded_amounts_found:
  assumes "funded_amounts money adapter lsar gross = Inr (Inr a)"
  shows "gross \<le> fm_cash money - fm_returned money + fm_points money \<and> fa_gross a = gross
    \<and> quantize round_down 2 (min (max (lsar - fm_points money) 0)
             (fm_cash money - fm_returned money)) = Inr (fa_base a)"
proof -
  have "\<exists>r. quantize round_half_even 2 gross = Inr r"
    using assms by (auto simp: funded_amounts_def and_then_found lift_res_found)
  then show ?thesis
    using assms by (auto simp: funded_amounts_def and_then_found lift_res_found split: if_splits)
qed

lemma active_amounts_found:
  assumes "active_amounts e b s money change comps = Inr (Inr a)"
    and "fm_returned money \<le> fm_cash money"
  shows "0 \<le> fa_base a \<and> fa_base a \<le> fm_cash money - fm_returned money
    \<and> fa_gross a \<le> fm_cash money - fm_returned money + fm_points money
    \<and> (\<exists>c. fa_base a = of_int c / 100)
    \<and> (bk_currency b = payment_currency \<longrightarrow>
         fa_gross a = bk_total b \<and> fa_base a \<le> max (bk_total b - fm_points money) 0)"
proof -
  obtain lodging gross lsar adapter where l: "\<exists>pricing. lodging_of pricing (bk_total b) = Inr lodging"
    and g: "(if bk_currency b = payment_currency then Inr (bk_total b)
             else to_sar (fx e) b (bk_total b)) = Inr gross"
    and ls: "(if bk_currency b = payment_currency then Inr lodging
             else to_sar (fx e) b lodging) = Inr lsar"
    and fu: "funded_amounts money adapter lsar gross = Inr (Inr a)"
    using assms(1) unfolding active_amounts_def Let_def and_then_found lift_res_found
    by (elim exE conjE) (rule that, rule exI)
  define base where "base = fa_base a"
  have f: "gross \<le> fm_cash money - fm_returned money + fm_points money"
    and q: "quantize round_down 2 (min (max (lsar - fm_points money) 0)
             (fm_cash money - fm_returned money)) = Inr base"
    and a: "fa_base a = base" "fa_gross a = gross"
    using funded_amounts_found [OF fu] by (simp_all add: base_def)
  define x where "x = min (max (lsar - fm_points money) 0) (fm_cash money - fm_returned money)"
  have x0: "0 \<le> x" using assms(2) by (simp add: x_def)
  have qx: "quantize round_down 2 x = Inr base" using q by (simp add: x_def)
  have b0: "0 \<le> base" using toward_zero.quantize_nonneg [OF x0 qx] .
  have "base = of_int \<lfloor>x * 100\<rfloor> / 100"
    using qx x0 by (simp add: quantize_def round_down_def Let_def split: if_splits)
  moreover have "of_int \<lfloor>x * 100\<rfloor> / 100 \<le> x"
    using of_int_floor_le [of "x * 100"] by (simp del: of_int_floor_le)
  ultimately have bx: "base \<le> x" by linarith
  have c: "\<exists>c. base = of_int c / 100"
    using toward_zero.quantize_whole [OF q] by auto
  have m: "bk_currency b = payment_currency \<longrightarrow> gross = bk_total b \<and> base \<le> max (bk_total b - fm_points money) 0"
  proof
    assume cur: "bk_currency b = payment_currency"
    then have "lsar = lodging" "gross = bk_total b" using g ls by simp_all
    moreover have "lodging \<le> bk_total b" using l lodging_of_bounds by blast
    ultimately show "gross = bk_total b \<and> base \<le> max (bk_total b - fm_points money) 0"
      using bx by (simp add: x_def min_def max_def split: if_splits)
  qed
  have "x \<le> fm_cash money - fm_returned money" by (simp add: x_def)
  then show ?thesis using a b0 bx c m f by auto
qed

lemma facts_document_base:
  "facts_document e b pv s m sc st en money ch comps a = Inr f \<Longrightarrow>
     f_base f = fa_base a \<and> f_total f = fa_gross a \<and> f_cancelled f = (bk_status b = Cancelled)"
  by (auto simp: facts_document_def bindE_Inr_iff)

lemma offer_stage_found:
  "offer_stage e b s f = Inr (Inr g) \<Longrightarrow>
     f_base g \<le> f_base f \<and> f_total g = f_total f \<and> f_cancelled g = f_cancelled f
     \<and> (fs_offer s = None \<longrightarrow> g = f)"
  by (auto simp: offer_stage_def split: option.splits if_splits)

lemma mark_facts_base [simp]:
  "f_base (mark_facts b s sc a f) = f_base f" "f_total (mark_facts b s sc a f) = f_total f"
  "f_cancelled (mark_facts b s sc a f) = f_cancelled f"
  by (simp_all add: mark_facts_def)

lemma verified_stage_found:
  assumes "verified_stage e b pv s m = Inr (Inr f)"
  obtains sc st en money ch comps a g where
    "time_stage e b s m = Inr (Inr (sc, st, en))"
    "money_stage e b (fs_intent s) = Inr (Inr money)"
    "components_stage b (fs_intent s) (fm_payments money) = Inr (Inr (ch, comps))"
    "(if bk_status b = Cancelled then cancelled_amounts e b
      else active_amounts e b s money ch comps) = Inr (Inr a)"
    "facts_document e b pv s m sc st en money ch comps a = Inr g"
    "\<exists>h. offer_stage e b s g = Inr (Inr h) \<and> f = mark_facts b s sc a h"
    "bk_status b \<noteq> Cancelled \<Longrightarrow> fm_cash money \<noteq> 0 \<or> fm_points money \<noteq> 0"
proof -
  obtain t where t: "time_stage e b s m = Inr (Inr t)"
    and r1: "(case t of (sc, st, en) \<Rightarrow>
     and_then (money_stage e b (fs_intent s)) (\<lambda>money.
     and_then (components_stage b (fs_intent s) (fm_payments money)) (\<lambda>(change, components).
     and_then (if bk_status b = Cancelled then cancelled_amounts e b
               else active_amounts e b s money change components) (\<lambda>amounts.
     if fm_cash money = 0 \<and> fm_points money = 0 \<and> bk_status b \<noteq> Cancelled
     then block ''verified_payment_required''
     else and_then (lift_res (facts_document e b pv s m sc st en money
                                change components amounts)) (\<lambda>f.
          and_then (offer_stage e b s f) (\<lambda>g. found (mark_facts b s sc amounts g))))))) = Inr (Inr f)"
    using assms unfolding verified_stage_def and_then_found by (elim exE conjE) (rule that)
  obtain sc st en where T: "t = (sc, st, en)" by (cases t) auto
  obtain money where mo: "money_stage e b (fs_intent s) = Inr (Inr money)"
    and r2: "and_then (components_stage b (fs_intent s) (fm_payments money)) (\<lambda>(change, components).
     and_then (if bk_status b = Cancelled then cancelled_amounts e b
               else active_amounts e b s money change components) (\<lambda>amounts.
     if fm_cash money = 0 \<and> fm_points money = 0 \<and> bk_status b \<noteq> Cancelled
     then block ''verified_payment_required''
     else and_then (lift_res (facts_document e b pv s m sc st en money
                                change components amounts)) (\<lambda>f.
          and_then (offer_stage e b s f) (\<lambda>g. found (mark_facts b s sc amounts g))))) = Inr (Inr f)"
    using r1 unfolding T prod.case and_then_found [of "money_stage e b (fs_intent s)"] by (elim exE conjE) (rule that)
  obtain ch comps where co: "components_stage b (fs_intent s) (fm_payments money) = Inr (Inr (ch, comps))"
    and r3: "and_then (if bk_status b = Cancelled then cancelled_amounts e b
               else active_amounts e b s money ch comps) (\<lambda>amounts.
     if fm_cash money = 0 \<and> fm_points money = 0 \<and> bk_status b \<noteq> Cancelled
     then block ''verified_payment_required''
     else and_then (lift_res (facts_document e b pv s m sc st en money ch comps amounts)) (\<lambda>f.
          and_then (offer_stage e b s f) (\<lambda>g. found (mark_facts b s sc amounts g)))) = Inr (Inr f)"
    using r2 unfolding and_then_found [of "components_stage b (fs_intent s) (fm_payments money)"]
    by (elim exE conjE) (metis (no_types, lifting) prod.case surj_pair that)
  obtain a where am: "(if bk_status b = Cancelled then cancelled_amounts e b
               else active_amounts e b s money ch comps) = Inr (Inr a)"
    and r4: "(if fm_cash money = 0 \<and> fm_points money = 0 \<and> bk_status b \<noteq> Cancelled
     then block ''verified_payment_required''
     else and_then (lift_res (facts_document e b pv s m sc st en money ch comps a)) (\<lambda>f.
          and_then (offer_stage e b s f) (\<lambda>g. found (mark_facts b s sc a g)))) = Inr (Inr f)"
    using r3 unfolding and_then_found [of "if bk_status b = Cancelled then _ else _"]
    by (elim exE conjE) (rule that)
  have n: "bk_status b \<noteq> Cancelled \<Longrightarrow> fm_cash money \<noteq> 0 \<or> fm_points money \<noteq> 0"
    using r4 by (auto split: if_splits)
  have r5: "and_then (lift_res (facts_document e b pv s m sc st en money ch comps a)) (\<lambda>f.
          and_then (offer_stage e b s f) (\<lambda>g. found (mark_facts b s sc a g))) = Inr (Inr f)"
    using r4 by (simp split: if_splits)
  then obtain g where fd: "facts_document e b pv s m sc st en money ch comps a = Inr g"
    and ex: "\<exists>h. offer_stage e b s g = Inr (Inr h) \<and> f = mark_facts b s sc a h"
    by (auto simp: and_then_found lift_res_found)
  show ?thesis
    using t mo co am fd ex n unfolding T by (rule that)
qed


definition paid_booking :: booking where
  "paid_booking = sample_booking \<lparr> bk_intent := Some (sample_intent \<lparr> in_payments :=
       [\<lparr> pa_id = 90, pa_provider = ''hyperpay'', pa_provider_id = Some ''x1'', pa_status = PaSucceeded,
          pa_amount = 1000, pa_currency = ''SAR'', pa_verified_at = Some 6, pa_key = ''k'', pa_modification = None, pa_request = None,
       pa_checkout = None, pa_merchant = None, pa_integrity = [], pa_code = [], pa_description = [], pa_failure = [], pa_brand = [] \<rparr>] \<rparr>),
     bk_loyalty := blank_loyalty \<lparr> ls_arrival := Some \<lparr> ar_at = Aware 100, ar_reference = ''desk'',
       ar_operator = 3 \<rparr> \<rparr> \<rparr>"

definition paid_facts :: facts where
  "paid_facts = \<lparr> f_base = 1000, f_total = 1000, f_cash = 1000, f_refunded = 0, f_points = 0,
     f_check_in = 54000000000, f_check_out = 216000000000, f_arrival_at = Some (Aware 100),
     f_arrival_reference = ''desk'', f_consent = Some 0, f_terms = Some ''v'', f_cancelled = False,
     f_payments = [(90, ''x1'', 6, 1000)], f_refunds = [], f_modification = None,
     f_components = sq_components (in_quote sample_intent), f_fx = PyDict [], f_offer = None,
     f_historical = False, f_accrual = None, f_stay_exception = False, f_price_adapter = False \<rparr>"

definition paid_scope :: scope_facts where
  "paid_scope = \<lparr> fs_intent = the (bk_intent paid_booking),
      fs_offer = None, fs_past = False, fs_historical = False, fs_exception = False \<rparr>"

definition paid_money :: money_facts where
  "paid_money = \<lparr> fm_payments = in_payments (the (bk_intent paid_booking)), fm_refunds = [], fm_cash = 1000,
       fm_returned = 0, fm_points = 0 \<rparr>"

lemma paid_verified:
  "verified_payments (sample_intent \<lparr> in_payments :=
       [\<lparr> pa_id = 90, pa_provider = ''hyperpay'', pa_provider_id = Some ''x1'', pa_status = PaSucceeded,
          pa_amount = 1000, pa_currency = ''SAR'', pa_verified_at = Some 6, pa_key = ''k'', pa_modification = None, pa_request = None,
       pa_checkout = None, pa_merchant = None, pa_integrity = [], pa_code = [], pa_description = [], pa_failure = [], pa_brand = [] \<rparr>] \<rparr>)
   = [\<lparr> pa_id = 90, pa_provider = ''hyperpay'', pa_provider_id = Some ''x1'', pa_status = PaSucceeded,
          pa_amount = 1000, pa_currency = ''SAR'', pa_verified_at = Some 6, pa_key = ''k'', pa_modification = None, pa_request = None,
       pa_checkout = None, pa_merchant = None, pa_integrity = [], pa_code = [], pa_description = [], pa_failure = [], pa_brand = [] \<rparr>]"
  by (simp add: verified_payments_def)

lemma paid_lodging: "lodging_of (sq_components (in_quote sample_intent)) 1000 = Inr 1000"
  by (simp add: lodging_of_def sample_intent_def dget_def)

lemma cent_quantize:
  "quantize round_half_even 2 1000 = Inr 1000" "quantize round_down 2 1000 = Inr 1000"
  "quantize round_half_even 2 0 = Inr 0"
  using half_even.quantize_exact [of 100000 2] toward_zero.quantize_exact [of 100000 2]
    half_even.quantize_exact [of 0 2] by simp_all

lemma paid_booking_facts:
  "booking_facts sample_env sample_db paid_booking False = Inr (Inr paid_facts)"
proof -
  have sc: "scope_stage sample_env sample_db paid_booking False = found paid_scope"
    by (simp add: paid_scope_def scope_stage_def booking_allowed_def historical_award_allowed_def retained_acceptance_def
        stay_exception_allowed_def launch_at_def paid_booking_def sample_defs)
  have ms: "member_stage sample_db paid_scope False
     = found (Some (sample_member 11 1 ''LSA-M000011''))"
    by (simp add: paid_scope_def member_stage_def member_of_customer_def paid_booking_def sample_defs)
  have ts: "time_stage sample_env paid_booking paid_scope
      (Some (sample_member 11 1 ''LSA-M000011'')) = found (None, 54000000000, 216000000000)"
    by (simp add: paid_scope_def time_stage_def stay_times_def wall_clock_def
        epoch_ordinal_def day_us_def paid_booking_def sample_defs)
  have mo: "money_stage sample_env paid_booking (the (bk_intent paid_booking)) =
     found paid_money"
    by (simp add: paid_money_def money_stage_def paid_booking_def paid_verified net_points_def Let_def blank_text_def
        payment_currency_def active_statuses_def)
      (simp add: sample_defs)
  have co: "components_stage paid_booking (the (bk_intent paid_booking)) ps
     = found (None, sq_components (in_quote sample_intent))" for ps
    by (simp add: components_stage_def last_change_def settled_changes_def by_completion_def paid_booking_def sample_defs)
  have am: "active_amounts sample_env paid_booking paid_scope
     paid_money None (sq_components (in_quote sample_intent))
     = found \<lparr> fa_base = 1000, fa_gross = 1000, fa_adapter = False \<rparr>"
    using paid_lodging
    by (simp add: paid_scope_def paid_money_def active_amounts_def funded_amounts_def paid_booking_def sample_booking_def
        cent_quantize payment_currency_def)
  have i: "fs_intent paid_scope = the (bk_intent paid_booking)" by (simp add: paid_scope_def)
  have st: "bk_status paid_booking \<noteq> Cancelled" "fm_cash paid_money \<noteq> 0"
    by (simp_all add: paid_booking_def sample_booking_def paid_money_def)
  have fd: "offer_stage sample_env paid_booking paid_scope f = found f" for f
    by (simp add: offer_stage_def paid_scope_def)
  have doc: "facts_document sample_env paid_booking False paid_scope (Some (sample_member 11 1 ''LSA-M000011''))
      None 54000000000 216000000000 paid_money None (sq_components (in_quote sample_intent))
      \<lparr> fa_base = 1000, fa_gross = 1000, fa_adapter = False \<rparr> = Inr paid_facts"
    by (simp add: facts_document_def paid_money_def cent_quantize paid_scope_def)
      (simp add: paid_booking_def paid_facts_def sample_defs)
  have mk: "mark_facts paid_booking paid_scope None \<lparr> fa_base = 1000, fa_gross = 1000, fa_adapter = False \<rparr> paid_facts
      = paid_facts"
    by (simp add: mark_facts_def paid_scope_def paid_facts_def)
  have "verified_stage sample_env paid_booking False paid_scope (Some (sample_member 11 1 ''LSA-M000011''))
      = found paid_facts"
    unfolding verified_stage_def ts and_then_simps prod.case i mo co
    by (simp add: st am doc fd mk del: One_nat_def)
  then show ?thesis by (simp add: booking_facts_def sc ms)
qed


text \<open>Revaluation agrees with the contract. For a booking in a foreign currency the SAR
  value of its whole price, computed back through the funded ratio with two 28-digit roundings,
  is exactly the SAR contract value, so no halala appears or disappears.\<close>

lemma to_sar_of_total:
  assumes "contract cfg b = Inr (source, v)" and "bk_currency b \<noteq> payment_currency"
    and "v = of_int c / 100" and "0 \<le> c" and "c < 10 ^ 16" and "0 < source"
  shows "to_sar cfg b source = Inr v \<and> total_sar cfg b = Inr v"
proof -
  define p where "p = ctx (source * v)"
  define q where "q = ctx (p / source)"
  have v0: "0 \<le> v" and vb: "v < 10 ^ 14" using assms(3,4,5) by simp_all
  have pe: "\<bar>p - source * v\<bar> \<le> source * v / (2 * 10 ^ 27)"
    using ctx_error [of "source * v"] assms(6) v0 by (simp add: p_def)
  have "p / source - v = (p - source * v) / source" using assms(6) by (simp add: diff_divide_distrib)
  then have "\<bar>p / source - v\<bar> = \<bar>p - source * v\<bar> / source"
    by (simp only: abs_divide abs_of_pos [OF assms(6)])
  also have "\<dots> \<le> source * v / (2 * 10 ^ 27) / source"
    using pe assms(6) by (intro divide_right_mono) auto
  also have "\<dots> = v / (2 * 10 ^ 27)" using assms(6) by simp
  finally have e1: "\<bar>p / source - v\<bar> \<le> v / (2 * 10 ^ 27)" .
  have "\<bar>q - p / source\<bar> \<le> \<bar>p / source\<bar> / (2 * 10 ^ 27)" unfolding q_def by (rule ctx_error)
  moreover have "v / (2 * 10 ^ 27) \<le> v" using v0 by (simp add: divide_le_eq)
  then have "\<bar>p / source\<bar> \<le> 2 * v" using e1 v0 by linarith
  then have "\<bar>p / source\<bar> / (2 * 10 ^ 27) \<le> 2 * v / (2 * 10 ^ 27)" by (rule divide_right_mono) simp
  ultimately have "\<bar>q - p / source\<bar> \<le> 2 * v / (2 * 10 ^ 27)" by linarith
  moreover have "v / (2 * 10 ^ 27) < 1 / 1000" "2 * v / (2 * 10 ^ 27) < 1 / 1000"
    using vb by simp_all
  ultimately have close: "\<bar>q - v\<bar> < 1 / 200" using e1 by linarith
  have q0: "0 \<le> q + 1 / 200" using close v0 by linarith
  have near: "q * 100 - of_int c < 1 / 2" "of_int c - q * 100 < 1 / 2"
    using close unfolding assms(3) abs_less_iff by linarith+
  have r: "round_half_up (q * 100) = c"
  proof (cases "0 \<le> q")
    case True
    have "\<lfloor>q * 100 + 1 / 2\<rfloor> = c" using near by (intro floor_unique) linarith+
    then show ?thesis using True by (simp add: round_half_up_def)
  next
    case False
    then have "(of_int c :: rat) < 1" using near by linarith
    then have c0: "c = 0" using assms(4) by simp
    have "0 - q * 100 < 1 / 2" using near(2) c0 by simp
    then have "0 \<le> 1 / 2 - q * 100" "1 / 2 - q * 100 < 1" using False by linarith+
    then have "\<lfloor>1 / 2 - q * 100\<rfloor> = 0" by (simp add: floor_eq_iff)
    then show ?thesis using False c0 by (simp add: round_half_up_def)
  qed
  have "quantize round_half_up 2 q = Inr v"
    using r assms(3,4,5) by (simp add: quantize_def precision_def)
  then show ?thesis
    using assms(1,2,6) by (simp add: to_sar_def total_sar_def ddiv_def dmul_def p_def q_def)
qed

definition euro_booking :: booking where
  "euro_booking = sample_booking \<lparr> bk_currency := ''EUR'', bk_total := 100,
     bk_intent := Some (sample_intent \<lparr> in_currency := ''EUR'', in_total := 100,
       in_payment_sar := Some 400,
       in_fx := PyDict (quote_document sample_snapshot ''EUR'' 100 400 ''MAD'' 1000 (1 / 4) (5 / 2)
         (Aware 0) (Aware 900000000)) \<rparr>) \<rparr>"

lemma euro_contract: "contract base_fx euro_booking = Inr (100, 400)"
proof -
  have "validate_payment_snapshot base_fx (PyDec (Fin 100)) (PyStr ''EUR'') (PyDec (Fin 400))
     (PyDict (quote_document sample_snapshot ''EUR'' 100 400 ''MAD'' 1000 (1 / 4) (5 / 2)
         (Aware 0) (Aware 900000000))) = Inr ()"
    by (rule quote_validates [OF sample_quote, simplified]) (use fetch_usable [OF sample_fetch] in \<open>simp_all add: is_naive_def\<close>)
  then show ?thesis
    by (simp add: contract_def euro_booking_def sample_booking_def sample_intent_def intent_total_sar_def
        payment_currency_def optional_amount_def currency_to_validation_def settled_changes_def by_completion_def)
qed

lemma to_sar_of_total_at:
  "to_sar base_fx euro_booking 100 = Inr 400 \<and> total_sar base_fx euro_booking = Inr 400"
  by (rule to_sar_of_total [OF euro_contract, where c = 40000])
    (simp_all add: euro_booking_def payment_currency_def)

end
