(* ===== verification/Referrals.thy ===== *)
theory Referrals
  imports SiteFacts
begin

section \<open>The referral tree (apps/loyalty/referrals.py)\<close>

text \<open>
  The current link of a member is its latest revision, or its original referral. The
  module walks and repairs the tree: chains of inviters, the next branch number, the
  checks of a new link and the move of a member with all descendants. \<open>ancestors\<close> and
  \<open>invitation_eligible\<close> of \<open>services.py\<close> stand here because the module uses them.
\<close>

subsection \<open>Current links\<close>

definition latest_revision :: "db \<Rightarrow> nat \<Rightarrow> revision option" where
  "latest_revision d k = find (\<lambda>r. ln_member (rv_link r) = k) (rev (db_revisions d))"

definition current_of :: "db \<Rightarrow> link \<Rightarrow> link" where
  "current_of d row = (case latest_revision d (ln_member row) of None \<Rightarrow> row | Some r \<Rightarrow> rv_link r)"

definition current_links :: "db \<Rightarrow> link list" where
  "current_links d = map (current_of d) (db_referrals d)"

definition current_link :: "db \<Rightarrow> nat \<Rightarrow> link res" where
  "current_link d k = of_option (DoesNotExist ''referral'') (row_get ln_member (current_links d) k)"

definition max_tree :: nat where
  "max_tree = 10000"

definition graph :: "db \<Rightarrow> link list res" where
  "graph d = (if max_tree < length (db_referrals d) then Inl (ValidationError ''tree_too_large'')
     else Inr (current_links d))"

definition inviters :: "link list \<Rightarrow> nat set" where
  "inviters links = set (List.map_filter ln_inviter links)"

lemma inviters_finite [simp]: "finite (inviters links)"
  by (simp add: inviters_def)

lemma inviter_of_row: "row_get ln_member links k = Some row \<Longrightarrow> ln_inviter row = Some p \<Longrightarrow> p \<in> inviters links"
  by (force simp: inviters_def List.map_filter_def dest: row_get_mem)

text \<open>
  The loop of \<open>chain_ids\<close>: the member reached, the inviters met so far and the result. It
  ends because a member met twice is refused.
\<close>

function chain_loop :: "link list \<Rightarrow> nat \<Rightarrow> nat list \<Rightarrow> nat list \<Rightarrow> nat list res" where
  "chain_loop links k seen result =
     (case row_get ln_member links k of
        None \<Rightarrow> Inl (ValidationError ''relation_incomplete'')
      | Some row \<Rightarrow>
          (case ln_inviter row of
             None \<Rightarrow> Inr result
           | Some p \<Rightarrow>
               if p \<in> set seen then Inl (ValidationError ''circle'')
               else chain_loop links p (p # seen) (result @ [p])))"
  by pat_completeness auto

termination
proof (relation "measure (\<lambda>(links, k, seen, result). card (inviters links - set seen))")
  fix links :: "link list" and k p :: nat and seen result :: "nat list" and row :: link
  assume "row_get ln_member links k = Some row" and "ln_inviter row = Some p" and p: "p \<notin> set seen"
  then have "p \<in> inviters links" by (metis inviter_of_row)
  then have "card (inviters links - insert p (set seen)) < card (inviters links - set seen)"
    using p by (intro psubset_card_mono) auto
  then show "((links, p, p # seen, result @ [p]), links, k, seen, result)
      \<in> measure (\<lambda>(links, k, seen, result). card (inviters links - set seen))"
    by simp
qed simp

declare chain_loop.simps [simp del]

definition chain_ids :: "nat \<Rightarrow> link list \<Rightarrow> nat list res" where
  "chain_ids k links = chain_loop links k [k] []"

text \<open>
  \<open>services.ancestors\<close> walks with one query per step: the member's own link must exist, and
  so must the link of each inviter before it is appended.
\<close>

function ancestors_loop :: "link list \<Rightarrow> link \<Rightarrow> nat list \<Rightarrow> nat list \<Rightarrow> nat list res" where
  "ancestors_loop links row seen result =
     (case ln_inviter row of
        None \<Rightarrow> Inr result
      | Some p \<Rightarrow>
          if p \<in> set seen then Inl (ValidationError ''circle'')
          else (case row_get ln_member links p of
             None \<Rightarrow> Inl (DoesNotExist ''referral'')
           | Some up \<Rightarrow> ancestors_loop links up (p # seen) (result @ [p])))"
  by pat_completeness auto

termination
proof (relation "measure (\<lambda>(links, row, seen, result). card (set (map ln_member links) - set seen))")
  fix links :: "link list" and row up :: link and seen result :: "nat list" and p
  assume p: "p \<notin> set seen" and u: "row_get ln_member links p = Some up"
  have "p \<in> set (map ln_member links)"
    using row_get_key [OF u] row_get_mem [OF u] by force
  then have "card (set (map ln_member links) - insert p (set seen)) < card (set (map ln_member links) - set seen)"
    using p by (intro psubset_card_mono) auto
  then show "((links, up, p # seen, result @ [p]), links, row, seen, result)
      \<in> measure (\<lambda>(links, row, seen, result). card (set (map ln_member links) - set seen))"
    by simp
qed simp

declare ancestors_loop.simps [simp del]

definition ancestors :: "db \<Rightarrow> nat \<Rightarrow> nat list res" where
  "ancestors d k = bindE (current_link d k) (\<lambda>row. ancestors_loop (current_links d) row [k] [])"

definition next_branch :: "db \<Rightarrow> nat option \<Rightarrow> nat" where
  "next_branch d inviter =
     Suc (max (fold max (map ln_branch (filter (\<lambda>l. ln_inviter l = inviter) (db_referrals d))) 0)
              (fold max (map (\<lambda>r. ln_branch (rv_link r))
                 (filter (\<lambda>r. ln_inviter (rv_link r) = inviter) (db_revisions d))) 0))"

subsection \<open>Eligibility to invite\<close>

text \<open>The reservation reference stored under \<open>__pilot_invitation__\<close> of the receipts.\<close>

definition pilot_qualification :: "member \<Rightarrow> string option" where
  "pilot_qualification m =
     (case map_of (m_receipts m) ''__pilot_invitation__'' of
        Some (PyDict kvs) \<Rightarrow>
          (case dget kvs ''reservation_reference'' of PyStr s \<Rightarrow> if s = [] then None else Some s
           | _ \<Rightarrow> None)
      | _ \<Rightarrow> None)"

definition invitation_eligible :: "env \<Rightarrow> db \<Rightarrow> member \<Rightarrow> bool res" where
  "invitation_eligible e d m =
     (if m_first_completed_at m \<noteq> None then Inr True
      else case pilot_qualification m of
        None \<Rightarrow> Inr False
      | Some reference \<Rightarrow>
          (case find (\<lambda>b. bk_reference b = reference \<and> booking_customer b = Some (m_customer m))
                  (db_bookings d) of
             None \<Rightarrow> Inr False
           | Some b \<Rightarrow>
               if \<not> stay_exception_allowed e d b \<or> bk_status b \<notin> set active_statuses
               then Inr False
               else bindE (booking_facts e d b False) (\<lambda>r. Inr (case r of Inl code \<Rightarrow> False
                                                                | Inr f \<Rightarrow> True))))"

subsection \<open>Linking\<close>

definition member_in_program :: "env \<Rightarrow> db \<Rightarrow> nat \<Rightarrow> bool" where
  "member_in_program e d k =
     (case get_member d k of None \<Rightarrow> False
      | Some m \<Rightarrow> m_status m = ActiveMember
          \<and> (case get_user d (m_customer m) of None \<Rightarrow> False | Some u \<Rightarrow> u_active u)
          \<and> participant_allowed e (get_user d (m_customer m)))"

definition validate_pair :: "env \<Rightarrow> db \<Rightarrow> nat \<Rightarrow> nat \<Rightarrow> link list \<Rightarrow> (link \<times> link) res" where
  "validate_pair e d k inviter links =
     (if k = inviter then Inl (ValidationError ''self'')
      else bindE (of_option (ValidationError ''not_members'') (row_get ln_member links k)) (\<lambda>child.
      bindE (of_option (ValidationError ''not_members'') (row_get ln_member links inviter)) (\<lambda>parent.
      if \<not> member_in_program e d k \<or> \<not> member_in_program e d inviter
      then Inl (ValidationError ''not_active'')
      else if ln_inviter child = Some inviter then Inl (ValidationError ''already_linked'')
      else if ln_inviter child \<noteq> None then Inl (ValidationError ''has_inviter'')
      else bindE (chain_ids inviter links) (\<lambda>up.
        if k \<in> set up then Inl (ValidationError ''circle'')
        else bindE (of_option (DoesNotExist ''member'') (get_member d inviter)) (\<lambda>m.
        bindE (invitation_eligible e d m) (\<lambda>ok.
          if \<not> ok then Inl (ValidationError ''inviter_not_eligible'')
          else Inr (child, parent)))))))"

text \<open>The member and everyone below, closed under invitations generation by generation.\<close>

function branch_closure :: "link list \<Rightarrow> nat list \<Rightarrow> nat list" where
  "branch_closure links affected =
     (let added = map ln_member (filter (\<lambda>l. (case ln_inviter l of None \<Rightarrow> False
                      | Some p \<Rightarrow> p \<in> set affected) \<and> ln_member l \<notin> set affected) links)
      in if added = [] then affected else branch_closure links (affected @ added))"
  by pat_completeness auto

termination
proof (relation "measure (\<lambda>(links, affected). card (set (map ln_member links) - set affected))")
  fix links :: "link list" and affected added :: "nat list"
  assume a: "added = map ln_member (filter (\<lambda>l. (case ln_inviter l of None \<Rightarrow> False
                      | Some p \<Rightarrow> p \<in> set affected) \<and> ln_member l \<notin> set affected) links)"
    and ne: "added \<noteq> []"
  have sub: "set added \<subseteq> set (map ln_member links) - set affected" using a by auto
  obtain x where "x \<in> set added" using ne by (meson hd_in_set)
  then have "card (set (map ln_member links) - set (affected @ added))
      < card (set (map ln_member links) - set affected)"
    using sub by (intro psubset_card_mono) auto
  then show "((links, affected @ added), links, affected)
      \<in> measure (\<lambda>(links, affected). card (set (map ln_member links) - set affected))"
    by simp
qed simp

declare branch_closure.simps [simp del]

text \<open>Bookings already settled keep their beneficiary chain before the branch moves.\<close>

fun freeze_chains :: "db \<Rightarrow> link list \<Rightarrow> nat list \<Rightarrow> booking list \<Rightarrow> db res" where
  "freeze_chains d links affected [] = Inr d"
| "freeze_chains d links affected (b # bs) =
     (case find (\<lambda>k. map_option m_customer (get_member d k) = booking_customer b
                    \<and> booking_customer b \<noteq> None) affected of
        None \<Rightarrow> freeze_chains d links affected bs
      | Some k \<Rightarrow>
          if ls_settlement (bk_loyalty b) \<noteq> None \<and> ls_chain (bk_loyalty b) = None
          then bindE (chain_ids k links) (\<lambda>up.
                 freeze_chains (save_loyalty d b (\<lambda>s. s \<lparr> ls_chain := Some up \<rparr>)) links affected bs)
          else freeze_chains d links affected bs)"

definition moved_link :: "link \<Rightarrow> link \<Rightarrow> nat \<Rightarrow> string \<Rightarrow> link \<Rightarrow> link" where
  "moved_link child parent branch path before =
     \<lparr> ln_member = ln_member before,
       ln_inviter = (if ln_member before = ln_member child then Some (ln_member parent)
                     else ln_inviter before),
       ln_root = ln_root parent,
       ln_tree_number = path @ drop (length (ln_tree_number child)) (ln_tree_number before),
       ln_depth = ln_depth before + (ln_depth parent + 1) - ln_depth child,
       ln_branch = (if ln_member before = ln_member child then branch else ln_branch before) \<rparr>"

text \<open>\<open>f"{n:04}"\<close>: at least that many digits.\<close>

definition padded :: "nat \<Rightarrow> nat \<Rightarrow> string" where
  "padded w n = pad_digits (max w (ndigits n)) (int n)"

fun record_moves :: "db \<Rightarrow> user \<Rightarrow> nat \<Rightarrow> revision list \<Rightarrow> db res" where
  "record_moves d operator linked [] = Inr d"
| "record_moves d operator linked (r # rs) =
     bindE (of_option (DoesNotExist ''member'') (get_member d (ln_member (rv_link r)))) (\<lambda>m.
     bindE (record_event (d \<lparr> db_revisions := db_revisions d @ [r] \<rparr>)
              \<lparr> ev_kind = ReferralEvent, ev_key = length (db_revisions d), ev_customer = m_customer m,
                ev_member = member_id m, ev_ledger = None, ev_source = ''admin'' \<rparr>) (\<lambda>d'.
       record_moves d' operator linked rs))"

text \<open>The body of \<open>link_members\<close> once the pair is accepted.\<close>

definition moved_rows ::
    "link list \<Rightarrow> nat list \<Rightarrow> link \<Rightarrow> link \<Rightarrow> nat \<Rightarrow> nat \<Rightarrow> string \<Rightarrow> nat \<Rightarrow> string \<Rightarrow> revision list" where
  "moved_rows links affected child parent branch k op operator reason =
     map (\<lambda>b. \<lparr> rv_link = moved_link child parent branch
                          (ln_tree_number parent @ ''-'' @ padded 4 branch) b,
                rv_operation = op, rv_linked = k, rv_operator = operator, rv_reason = reason \<rparr>)
       (sort_key ln_depth (filter (\<lambda>l. ln_member l \<in> set affected) links))"

definition move_branch ::
    "db \<Rightarrow> user \<Rightarrow> nat \<Rightarrow> nat \<Rightarrow> string \<Rightarrow> string \<Rightarrow> link list \<Rightarrow> link \<Rightarrow> link \<Rightarrow> (db \<times> revision) res" where
  "move_branch d operator k inviter op reason links child parent =
     (let affected = branch_closure links [k] in
      bindE (freeze_chains d links affected (db_bookings d)) (\<lambda>d1.
      let rows = moved_rows links affected child parent (next_branch d1 (Some inviter)) k op
                   (user_id operator) reason
      in if list_ex (\<lambda>r. rv_operation r = op \<and> ln_member (rv_link r) \<in> set affected)
              (db_revisions d1)
         then Inl (IntegrityError ''loyalty_link_once'')
         else bindE (record_moves d1 operator k rows) (\<lambda>d2. Inr (d2, hd rows))))"

definition link_members ::
    "env \<Rightarrow> db \<Rightarrow> user \<Rightarrow> nat \<Rightarrow> nat \<Rightarrow> string \<Rightarrow> string option \<Rightarrow> (db \<times> revision) res" where
  "link_members e d operator k inviter raw_reason operation =
     (if \<not> u_operations_owner operator then Inl (PermissionDenied ''owner'')
      else if length (strip raw_reason) < 5 \<or> 500 < length (strip raw_reason)
      then Inl (ValidationError ''reason'')
      else bindE (of_option (ValidationError ''operation'') operation) (\<lambda>op.
      posting_transaction e
       (case find (\<lambda>r. rv_operation r = op \<and> ln_member (rv_link r) = k) (db_revisions d) of
          Some old \<Rightarrow>
            if ln_inviter (rv_link old) \<noteq> Some inviter \<or> rv_reason old \<noteq> strip raw_reason
               \<or> rv_operator old \<noteq> user_id operator
            then Inl (ValidationError ''operation_reused'') else Inr (d, old)
        | None \<Rightarrow>
            bindE (graph d) (\<lambda>links.
            bindE (validate_pair e d k inviter links) (\<lambda>(child, parent).
              move_branch d operator k inviter op (strip raw_reason) links child parent)))))"

subsection \<open>Well-formed trees\<close>

definition link_ok :: "link list \<Rightarrow> link \<Rightarrow> bool" where
  "link_ok links l =
     (case ln_inviter l of
        None \<Rightarrow> ln_depth l = 0 \<and> ln_root l = ln_member l
      | Some p \<Rightarrow> (\<exists>up. row_get ln_member links p = Some up \<and> ln_depth l = Suc (ln_depth up)
            \<and> ln_root l = ln_root up \<and> (\<exists>s. ln_tree_number l = ln_tree_number up @ ''-'' @ s)))"

definition tree_ok :: "link list \<Rightarrow> bool" where
  "tree_ok links = (distinct (keys_of ln_member links) \<and> (\<forall>l \<in> set links. link_ok links l))"

lemma row_get_of_mem:
  "distinct (keys_of key rows) \<Longrightarrow> r \<in> set rows \<Longrightarrow> row_get key rows (key r) = Some r"
  by (induction rows) (auto simp: row_get_def keys_of_def)

lemma tree_ok_row: "tree_ok links \<Longrightarrow> row_get ln_member links k = Some l \<Longrightarrow> link_ok links l"
  by (auto simp: tree_ok_def dest: row_get_mem)

lemma tree_ok_inviter:
  assumes "tree_ok links" and "row_get ln_member links k = Some l" and "ln_inviter l = Some p"
  obtains up s where "row_get ln_member links p = Some up" "ln_depth l = Suc (ln_depth up)"
    "ln_root l = ln_root up" "ln_tree_number l = ln_tree_number up @ ''-'' @ s"
  using tree_ok_row [OF assms(1,2)] assms(3) by (auto simp: link_ok_def)

text \<open>
  The chain of a member of a well-formed tree does not depend on what the loop has seen: it
  is the inviter followed by the inviter's chain.
\<close>

definition chain_is :: "link list \<Rightarrow> nat \<Rightarrow> link \<Rightarrow> nat list \<Rightarrow> bool" where
  "chain_is links k l up =
     ((\<forall>seen result. k \<in> set seen \<longrightarrow>
        (\<forall>x \<in> set seen. \<exists>r. row_get ln_member links x = Some r \<and> ln_depth l \<le> ln_depth r) \<longrightarrow>
        chain_loop links k seen result = Inr (result @ up))
      \<and> length up = ln_depth l \<and> distinct (k # up) \<and> last (k # up) = ln_root l
      \<and> (\<forall>x \<in> set up. \<exists>r s. row_get ln_member links x = Some r \<and> ln_depth r < ln_depth l
            \<and> ln_tree_number l = ln_tree_number r @ s))"

lemma chain_is_ids:
  "chain_is links k l up \<Longrightarrow> row_get ln_member links k = Some l \<Longrightarrow> chain_ids k links = Inr up"
  by (auto simp: chain_is_def chain_ids_def)

lemma chain_is_Nil:
  assumes "row_get ln_member links k = Some l" and "ln_inviter l = None" and "link_ok links l"
  shows "chain_is links k l []"
  using assms row_get_key [OF assms(1)]
  by (simp add: chain_is_def chain_loop.simps [of links k] link_ok_def)

lemma chain_is_Cons:
  assumes l: "row_get ln_member links k = Some l" and p: "ln_inviter l = Some p"
    and up: "row_get ln_member links p = Some up" "ln_depth l = Suc (ln_depth up)"
      "ln_root l = ln_root up" "ln_tree_number l = ln_tree_number up @ ''-'' @ s"
    and rest: "chain_is links p up rest"
  shows "chain_is links k l (p # rest)"
proof -
  have "chain_loop links k seen result = Inr (result @ p # rest)"
    if k: "k \<in> set seen" and seen: "\<forall>x \<in> set seen. \<exists>r. row_get ln_member links x = Some r \<and> ln_depth l \<le> ln_depth r"
    for seen result
  proof -
    have new: "p \<notin> set seen" using seen up by fastforce
    have "\<forall>x \<in> set (p # seen). \<exists>r. row_get ln_member links x = Some r \<and> ln_depth up \<le> ln_depth r"
      using seen up by fastforce
    then have "chain_loop links p (p # seen) (result @ [p]) = Inr ((result @ [p]) @ rest)"
      using rest unfolding chain_is_def by (meson list.set_intros(1))
    then show ?thesis using l p new by (simp add: chain_loop.simps [of links k])
  qed
  moreover have "\<forall>x \<in> set (p # rest). \<exists>r s. row_get ln_member links x = Some r \<and> ln_depth r < ln_depth l
            \<and> ln_tree_number l = ln_tree_number r @ s"
    using rest up unfolding chain_is_def by fastforce
  moreover from this have "k \<notin> set (p # rest)" using l by fastforce
  moreover have "length (p # rest) = ln_depth l" "distinct (p # rest)" "last (p # rest) = ln_root l"
    using rest up unfolding chain_is_def by auto
  ultimately show ?thesis unfolding chain_is_def by auto
qed

lemma chain_exists:
  assumes "tree_ok links" and "row_get ln_member links k = Some l"
  shows "\<exists>up. chain_is links k l up"
  using assms(2)
proof (induction "ln_depth l" arbitrary: k l)
  case 0
  then have "ln_inviter l = None"
    using tree_ok_row [OF assms(1) 0(2)] by (auto simp: link_ok_def split: option.splits)
  then show ?case using chain_is_Nil [OF 0(2)] tree_ok_row [OF assms(1) 0(2)] by blast
next
  case (Suc n)
  then obtain p where p: "ln_inviter l = Some p"
    using tree_ok_row [OF assms(1) Suc(3)] by (auto simp: link_ok_def split: option.splits)
  obtain up s where up: "row_get ln_member links p = Some up" "ln_depth l = Suc (ln_depth up)"
    "ln_root l = ln_root up" "ln_tree_number l = ln_tree_number up @ ''-'' @ s"
    using tree_ok_inviter [OF assms(1) Suc(3) p] .
  have "n = ln_depth up" using Suc(2) up(2) by simp
  from Suc(1) [OF this up(1)] obtain rest where "chain_is links p up rest" by blast
  then show ?case using chain_is_Cons [OF Suc(3) p up] by blast
qed

lemma chain_ids_is:
  assumes "tree_ok links" and "row_get ln_member links k = Some l"
  shows "\<exists>up. chain_ids k links = Inr up \<and> chain_is links k l up"
  using chain_exists [OF assms] chain_is_ids [OF _ assms(2)] by blast

lemma chain_ids_unfold:
  assumes "tree_ok links" and "row_get ln_member links k = Some l" and "ln_inviter l = Some p"
  shows "\<exists>rest. chain_ids p links = Inr rest \<and> chain_ids k links = Inr (p # rest)"
proof -
  obtain up s where up: "row_get ln_member links p = Some up" "ln_depth l = Suc (ln_depth up)"
    "ln_root l = ln_root up" "ln_tree_number l = ln_tree_number up @ ''-'' @ s"
    using tree_ok_inviter [OF assms] .
  obtain rest where "chain_ids p links = Inr rest" "chain_is links p up rest"
    using chain_ids_is [OF assms(1) up(1)] by blast
  then show ?thesis using chain_is_ids [OF chain_is_Cons [OF assms(2,3) up] assms(2)] by blast
qed

text \<open>C37: in a well-formed tree every member's chain of inviters is found: the loop never
  reports a circle or a missing link, the chain has no repetition, its length is the member's
  depth, it ends in the root, and every inviter's path is a prefix of the member's path.\<close>

theorem chain_ids_complete:
  assumes "tree_ok links" and "row_get ln_member links k = Some l"
  shows "\<exists>up. chain_ids k links = Inr up \<and> length up = ln_depth l \<and> distinct (k # up)
    \<and> last (k # up) = ln_root l
    \<and> (\<forall>x \<in> set up. \<exists>r s. row_get ln_member links x = Some r \<and> ln_tree_number l = ln_tree_number r @ s)"
proof -
  obtain up where "chain_ids k links = Inr up" "chain_is links k l up"
    using chain_ids_is [OF assms] by blast
  then show ?thesis unfolding chain_is_def by blast
qed

theorem chain_ids_complete_witness:
  "\<exists>up. chain_ids 12 (current_links sample_db) = Inr up \<and> length up = 1"
proof -
  have "\<exists>s. ''0001-0001'' = ''0001'' @ ''-'' @ s" by (rule exI [of _ "''0001''"]) simp
  then have "tree_ok (current_links sample_db)"
    "row_get ln_member (current_links sample_db) 12 = Some (sample_link 12 (Some 11) ''0001-0001'' 1 1)"
    by (simp_all add: tree_ok_def link_ok_def current_links_def current_of_def latest_revision_def
        keys_of_def row_get_def sample_db_def sample_link_def)
  from chain_ids_complete [OF this] show ?thesis by (auto simp: sample_link_def)
qed

subsection \<open>Moving a branch\<close>

text \<open>
  Who is moved: the member, and whoever has the member among the inviters. \<open>below\<close> says that
  of a list; it is kept by each round of the closure.
\<close>

definition below :: "link list \<Rightarrow> nat \<Rightarrow> nat list \<Rightarrow> bool" where
  "below links k xs = (k \<in> set xs \<and> (\<forall>x \<in> set xs. \<exists>l up. row_get ln_member links x = Some l
     \<and> chain_ids x links = Inr up \<and> (x = k \<or> k \<in> set up)))"

lemma below_added:
  assumes "tree_ok links" and "below links k xs" and "l \<in> set links"
    and "ln_inviter l = Some p" and "p \<in> set xs"
  shows "\<exists>up. row_get ln_member links (ln_member l) = Some l \<and> chain_ids (ln_member l) links = Inr up \<and> k \<in> set up"
proof -
  have r: "row_get ln_member links (ln_member l) = Some l"
    using assms(1,3) by (auto simp: tree_ok_def intro: row_get_of_mem)
  obtain rest where "chain_ids p links = Inr rest" "chain_ids (ln_member l) links = Inr (p # rest)"
    using chain_ids_unfold [OF assms(1) r assms(4)] by blast
  moreover from this have "p = k \<or> k \<in> set rest"
    using assms(2,5) unfolding below_def by fastforce
  ultimately show ?thesis using r by auto
qed

lemma branch_closure_below:
  "tree_ok links \<Longrightarrow> below links k xs \<Longrightarrow> below links k (branch_closure links xs)
     \<and> set xs \<subseteq> set (branch_closure links xs)
     \<and> (\<forall>l \<in> set links. \<forall>p. ln_inviter l = Some p \<longrightarrow> p \<in> set (branch_closure links xs) \<longrightarrow>
           ln_member l \<in> set (branch_closure links xs))"
proof (induction links xs rule: branch_closure.induct)
  case (1 links xs)
  define added where "added = map ln_member (filter (\<lambda>l. (case ln_inviter l of None \<Rightarrow> False
                      | Some p \<Rightarrow> p \<in> set xs) \<and> ln_member l \<notin> set xs) links)"
  have step: "branch_closure links xs = (if added = [] then xs else branch_closure links (xs @ added))"
    by (simp add: branch_closure.simps [of links xs] added_def Let_def)
  show ?case
  proof (cases "added = []")
    case True
    have "ln_member l \<in> set xs" if "l \<in> set links" "ln_inviter l = Some p" "p \<in> set xs" for l p
      using True that by (auto simp: added_def filter_empty_conv)
    then show ?thesis using 1 True step by auto
  next
    case False
    have "\<exists>l up. row_get ln_member links x = Some l \<and> chain_ids x links = Inr up \<and> k \<in> set up"
      if a: "x \<in> set added" for x
    proof -
      obtain l where l: "l \<in> set links" "x = ln_member l"
          "case ln_inviter l of None \<Rightarrow> False | Some p \<Rightarrow> p \<in> set xs"
        using a unfolding added_def by auto
      then obtain p where "ln_inviter l = Some p" "p \<in> set xs" by (cases "ln_inviter l") auto
      then show ?thesis using below_added [OF 1(2,3) l(1)] l(2) by blast
    qed
    then have "below links k (xs @ added)"
      using 1(3) unfolding below_def by auto
    from 1(1) [OF added_def False 1(2) this] show ?thesis using step False by auto
  qed
qed

lemma below_single: "row_get ln_member links k = Some l \<Longrightarrow> tree_ok links \<Longrightarrow> below links k [k]"
  using chain_ids_is [of links k l] by (auto simp: below_def)

text \<open>The effect of the saved revisions on the current links.\<close>

lemma latest_revision_append:
  assumes "distinct (map (\<lambda>r. ln_member (rv_link r)) rows)"
  shows "latest_revision (d \<lparr> db_revisions := db_revisions d @ rows \<rparr>) k =
    (case find (\<lambda>r. ln_member (rv_link r) = k) rows of Some r \<Rightarrow> Some r | None \<Rightarrow> latest_revision d k)"
  using assms
proof (induction rows rule: rev_induct)
  case Nil
  then show ?case by (simp add: latest_revision_def)
next
  case (snoc r rows)
  have f: "find P (ys @ zs) = (case find P ys of Some y \<Rightarrow> Some y | None \<Rightarrow> find P zs)"
    for P :: "revision \<Rightarrow> bool" and ys zs by (induction ys) auto
  show ?case
  proof (cases "ln_member (rv_link r) = k")
    case True
    then have "find (\<lambda>r. ln_member (rv_link r) = k) rows = None"
      using snoc.prems by (simp add: find_None_iff) (metis image_eqI)
    then show ?thesis using True by (simp add: latest_revision_def f)
  next
    case False
    then show ?thesis using snoc by (simp add: latest_revision_def f split: option.splits)
  qed
qed

lemma current_of_member [simp]: "ln_member (current_of d row) = ln_member row"
  by (auto simp: current_of_def latest_revision_def find_Some_iff split: option.splits)

lemma find_map_rows: "find P (map f xs) = map_option f (find (\<lambda>x. P (f x)) xs)"
  by (induction xs) auto

lemma current_links_moved:
  assumes "distinct (keys_of ln_member links)" and "links = current_links d"
    and "\<And>b. ln_member (mv b) = ln_member b"
    and "rows = map (\<lambda>b. \<lparr> rv_link = mv b, rv_operation = op, rv_linked = k, rv_operator = u,
            rv_reason = why \<rparr>) moving"
    and "set moving = {l \<in> set links. ln_member l \<in> A}" and "distinct (map ln_member moving)"
  shows "current_links (d \<lparr> db_revisions := db_revisions d @ rows \<rparr>) =
     map (\<lambda>l. if ln_member l \<in> A then mv l else l) links"
proof -
  have dr: "distinct (map (\<lambda>r. ln_member (rv_link r)) rows)"
    using assms(6) by (simp add: assms(4,3) comp_def)
  have "current_of (d \<lparr> db_revisions := db_revisions d @ rows \<rparr>) row =
      (if ln_member row \<in> A then mv (current_of d row) else current_of d row)"
    if row: "row \<in> set (db_referrals d)" for row
  proof (cases "ln_member row \<in> A")
    case True
    have mem: "current_of d row \<in> set moving"
      using True row by (auto simp: assms(5) assms(2) current_links_def)
    have "find (\<lambda>x. ln_member x = ln_member row) moving = Some (current_of d row)"
      using row_get_of_mem [of ln_member moving "current_of d row"] assms(6) mem
      by (simp add: row_get_def keys_of_def)
    then have "find (\<lambda>r. ln_member (rv_link r) = ln_member row) rows =
        Some \<lparr> rv_link = mv (current_of d row), rv_operation = op, rv_linked = k, rv_operator = u,
            rv_reason = why \<rparr>"
      by (simp add: assms(4) find_map_rows assms(3))
    then show ?thesis
      using True latest_revision_append [OF dr, of d "ln_member row"] by (simp add: current_of_def)
  next
    case False
    have "find (\<lambda>r. ln_member (rv_link r) = ln_member row) rows = None"
      using False by (auto simp: find_None_iff assms(3,4,5))
    then show ?thesis
      using False latest_revision_append [OF dr, of d "ln_member row"] by (simp add: current_of_def)
  qed
  then show ?thesis by (simp add: current_links_def assms(2))
qed

lemma moved_link_member [simp]: "ln_member (moved_link c p br path b) = ln_member b"
  by (simp add: moved_link_def)

lemma chain_in_closed:
  assumes "tree_ok links" and "k \<in> A"
    and "\<forall>l \<in> set links. \<forall>p. ln_inviter l = Some p \<longrightarrow> p \<in> A \<longrightarrow> ln_member l \<in> A"
    and "row_get ln_member links x = Some l" and "chain_ids x links = Inr up" and "k \<in> set up"
  shows "x \<in> A"
  using assms(4,5,6)
proof (induction up arbitrary: x l)
  case Nil
  then show ?case by simp
next
  case (Cons p rest)
  have inv: "\<exists>q. ln_inviter l = Some q"
  proof (rule ccontr)
    assume "\<nexists>q. ln_inviter l = Some q"
    then have "chain_ids x links = Inr []"
      using chain_is_ids [OF chain_is_Nil [OF Cons.prems(1)] Cons.prems(1)] tree_ok_row [OF assms(1) Cons.prems(1)] by auto
    then show False using Cons.prems(2) by simp
  qed
  then obtain q where q: "ln_inviter l = Some q" by blast
  obtain rest' where r: "chain_ids q links = Inr rest'" "chain_ids x links = Inr (q # rest')"
    using chain_ids_unfold [OF assms(1) Cons.prems(1) q] by blast
  then have pq: "q = p" "rest' = rest" using Cons.prems(2) by simp_all
  obtain up' where up': "row_get ln_member links q = Some up'"
    using tree_ok_inviter [OF assms(1) Cons.prems(1) q] by metis
  have "q \<in> A"
    using Cons.prems(3) Cons.IH [of q up'] up' r(1) pq assms(2) by auto
  moreover have "l \<in> set links" using row_get_mem [OF Cons.prems(1)] .
  ultimately show ?case using assms(3) q row_get_key [OF Cons.prems(1)] by blast
qed

lemma row_get_map:
  "(\<And>x. key (g x) = key x) \<Longrightarrow> row_get key (map g rows) k = map_option g (row_get key rows k)"
  by (simp add: row_get_def find_map_rows)

lemma tree_ok_moved:
  assumes t: "tree_ok links" and c: "row_get ln_member links k = Some child" "ln_inviter child = None"
    and p: "row_get ln_member links inviter = Some parent"
    and up: "chain_ids inviter links = Inr up" "k \<notin> set up" "k \<noteq> inviter"
    and path: "path = ln_tree_number parent @ ''-'' @ s"
    and A: "A = set (branch_closure links [k])"
  shows "tree_ok (map (\<lambda>l. if ln_member l \<in> A then moved_link child parent branch path l else l) links)"
    (is "tree_ok (map ?g links)")
proof -
  note B = branch_closure_below [OF t below_single [OF c(1) t]]
  have bel: "below links k (branch_closure links [k])" and kA: "k \<in> A"
    and closed: "\<forall>l \<in> set links. \<forall>p. ln_inviter l = Some p \<longrightarrow> p \<in> A \<longrightarrow> ln_member l \<in> A"
    using B by (auto simp: A)
  have ip: "inviter \<notin> A"
    using bel up unfolding below_def A by fastforce
  have ck: "ln_member child = k" "ln_member parent = inviter"
    using row_get_key [OF c(1)] row_get_key [OF p] by simp_all
  have cd: "ln_depth child = 0" using tree_ok_row [OF t c(1)] c(2) by (simp add: link_ok_def)
  have g: "row_get ln_member (map ?g links) x = map_option ?g (row_get ln_member links x)" for x
    by (rule row_get_map) simp
  have "link_ok (map ?g links) (?g l)" if l: "l \<in> set links" for l
  proof -
    have rl: "row_get ln_member links (ln_member l) = Some l"
      using t l by (auto simp: tree_ok_def intro: row_get_of_mem)
    have ok: "link_ok links l" using t l by (simp add: tree_ok_def)
    consider (out) "ln_member l \<notin> A" | (child) "l = child"
      | (inner) "ln_member l \<in> A" "l \<noteq> child" by blast
    then show ?thesis
    proof cases
      case out
      show ?thesis
      proof (cases "ln_inviter l")
        case None
        then show ?thesis using ok out by (simp add: link_ok_def)
      next
        case (Some q)
        obtain a s' where a: "row_get ln_member links q = Some a" "ln_depth l = Suc (ln_depth a)"
          "ln_root l = ln_root a" "ln_tree_number l = ln_tree_number a @ ''-'' @ s'"
          using tree_ok_inviter [OF t rl Some] .
        have "ln_member a \<notin> A" using closed l Some out row_get_key [OF a(1)] by blast
        then show ?thesis using a Some out by (simp add: link_ok_def g)
      qed
    next
      case child
      then show ?thesis using kA ck ip p path cd
        by (simp add: link_ok_def g moved_link_def)
    next
      case inner
      then obtain up' where u: "chain_ids (ln_member l) links = Inr up'" "k \<in> set up'"
        using bel rl c(1) unfolding below_def A by (metis option.inject)
      then obtain q where q: "ln_inviter l = Some q"
        using chain_is_ids [OF chain_is_Nil [OF rl _ ok] rl] by (cases "ln_inviter l") auto
      obtain rest where r: "chain_ids q links = Inr rest" "up' = q # rest"
        using chain_ids_unfold [OF t rl q] u(1) by auto
      obtain a s' where a: "row_get ln_member links q = Some a" "ln_depth l = Suc (ln_depth a)"
        "ln_root l = ln_root a" "ln_tree_number l = ln_tree_number a @ ''-'' @ s'"
        using tree_ok_inviter [OF t rl q] .
      have qA: "q \<in> A"
        using u(2) r chain_in_closed [OF t kA closed a(1) r(1)] kA by auto
      have "\<exists>z. ln_tree_number a = ln_tree_number child @ z"
      proof (cases "q = k")
        case True
        then show ?thesis using a(1) c(1) by simp
      next
        case False
        then have "k \<in> set rest" using u(2) r(2) by simp
        moreover obtain up2 where "chain_ids q links = Inr up2" "chain_is links q a up2"
          using chain_ids_is [OF t a(1)] by blast
        ultimately show ?thesis using r(1) c(1) unfolding chain_is_def by fastforce
      qed
      then have len: "length (ln_tree_number child) \<le> length (ln_tree_number a)" by auto
      have neq: "ln_member l \<noteq> k" using inner(2) rl c(1) by auto
      have qa: "ln_member a = q" using row_get_key [OF a(1)] .
      show ?thesis
        using a q qA qa neq inner(1) len ck cd
        by (simp add: link_ok_def g moved_link_def drop_append)
    qed
  qed
  moreover have "distinct (keys_of ln_member (map ?g links))"
  proof -
    have "keys_of ln_member (map ?g links) = keys_of ln_member links"
      by (simp add: keys_of_def)
    then show ?thesis using t by (simp add: tree_ok_def)
  qed
  ultimately show ?thesis unfolding tree_ok_def set_map by blast
qed

lemma freeze_chains_fields:
  "freeze_chains d links affected bs = Inr d1 \<Longrightarrow> db_referrals d1 = db_referrals d
     \<and> db_revisions d1 = db_revisions d \<and> db_ledger d1 = db_ledger d \<and> db_members d1 = db_members d"
  by (induction bs arbitrary: d)
    (auto simp: bindE_Inr_iff split: option.splits if_splits)

lemma record_moves_fields:
  "record_moves d u k rs = Inr d2 \<Longrightarrow> db_referrals d2 = db_referrals d
     \<and> db_revisions d2 = db_revisions d @ rs \<and> db_ledger d2 = db_ledger d \<and> db_members d2 = db_members d"
  by (induction rs arbitrary: d)
    (auto simp: bindE_Inr_iff dest!: record_event_fields)

lemma current_links_cong:
  "db_referrals d = db_referrals d' \<Longrightarrow> db_revisions d = db_revisions d' \<Longrightarrow>
     current_links d = current_links d'"
  by (simp add: current_links_def current_of_def latest_revision_def fun_eq_iff cong: map_cong)

lemma validate_pair_found:
  assumes "validate_pair e d k inviter links = Inr (child, parent)"
  shows "k \<noteq> inviter \<and> row_get ln_member links k = Some child
    \<and> row_get ln_member links inviter = Some parent \<and> ln_inviter child = None
    \<and> (\<exists>up. chain_ids inviter links = Inr up \<and> k \<notin> set up)"
  using assms by (auto simp: validate_pair_def bindE_Inr_iff split: if_splits)

text \<open>The links after a successful new link, and that nothing else moved.\<close>

lemma link_members_found:
  assumes "link_members e d operator k inviter why (Some op) = Inr (d', r)"
    and new: "find (\<lambda>r. rv_operation r = op \<and> ln_member (rv_link r) = k) (db_revisions d) = None"
    and t: "tree_ok (current_links d)"
  obtains child parent branch path s where
    "validate_pair e d k inviter (current_links d) = Inr (child, parent)"
    "path = ln_tree_number parent @ ''-'' @ s"
    "current_links d' = map (\<lambda>l. if ln_member l \<in> set (branch_closure (current_links d) [k])
        then moved_link child parent branch path l else l) (current_links d)"
    "db_ledger d' = db_ledger d"
proof -
  let ?A = "branch_closure (current_links d) [k]"
  have "posting_transaction e (bindE (graph d) (\<lambda>links.
            bindE (validate_pair e d k inviter links) (\<lambda>(child, parent).
              move_branch d operator k inviter op (strip why) links child parent))) = Inr (d', r)"
    using assms(1) new by (simp add: link_members_def split: if_splits)
  then have "bindE (validate_pair e d k inviter (current_links d)) (\<lambda>(child, parent).
              move_branch d operator k inviter op (strip why) (current_links d) child parent) = Inr (d', r)"
    by (simp add: posting_transaction_Inr graph_def split: if_splits)
  then obtain child parent where vp: "validate_pair e d k inviter (current_links d) = Inr (child, parent)"
    and mb: "move_branch d operator k inviter op (strip why) (current_links d) child parent = Inr (d', r)"
    unfolding bindE_Inr_iff by (elim exE conjE) (metis prod.case surj_pair that)
  obtain d1 where d1: "freeze_chains d (current_links d) ?A (db_bookings d) = Inr d1"
    using mb by (auto simp: move_branch_def Let_def bindE_Inr_iff)
  define branch where "branch = next_branch d1 (Some inviter)"
  define path where "path = ln_tree_number parent @ ''-'' @ padded 4 branch"
  define moving where "moving = sort_key ln_depth (filter (\<lambda>l. ln_member l \<in> set ?A) (current_links d))"
  define rows where "rows = moved_rows (current_links d) ?A child parent branch k op (user_id operator) (strip why)"
  have rows_def': "rows = map (\<lambda>b. \<lparr> rv_link = moved_link child parent branch path b,
                              rv_operation = op, rv_linked = k,
                              rv_operator = user_id operator, rv_reason = strip why \<rparr>) moving"
    by (simp add: rows_def moved_rows_def moving_def path_def)
  have d2: "record_moves d1 operator k rows = Inr d'"
    using mb by (simp add: move_branch_def Let_def d1 rows_def branch_def bindE_Inr_iff split: if_splits)
  have dis: "distinct (map ln_member moving)"
  proof -
    have "distinct (map ln_member (filter (\<lambda>l. ln_member l \<in> set ?A) (current_links d)))"
      using t by (simp add: tree_ok_def keys_of_def distinct_map_filter)
    then show ?thesis by (simp add: moving_def distinct_map)
  qed
  have "current_links d' = current_links (d \<lparr> db_revisions := db_revisions d @ rows \<rparr>)"
    using record_moves_fields [OF d2] freeze_chains_fields [OF d1] by (intro current_links_cong) simp_all
  also have "\<dots> = map (\<lambda>l. if ln_member l \<in> set ?A then moved_link child parent branch path l else l) (current_links d)"
    using t dis by (intro current_links_moved [where moving = moving, OF _ refl _ rows_def'])
      (auto simp: tree_ok_def moving_def)
  finally have cl: "current_links d' = map (\<lambda>l. if ln_member l \<in> set ?A then moved_link child parent branch path l else l) (current_links d)" .
  have "db_ledger d' = db_ledger d"
    using record_moves_fields [OF d2] freeze_chains_fields [OF d1] by simp
  then show ?thesis using that vp cl path_def by blast
qed

text \<open>C31: linking keeps the tree well formed. A successful new link of a member under an
  inviter leaves a tree in which the member's inviter is that inviter, nobody else's inviter
  has changed, no ledger row is touched, depths, roots and paths are consistent again for the
  whole moved branch, and the member's chain is the inviter followed by the inviter's chain,
  so no circle can be formed.\<close>

theorem link_members_keeps_tree:
  assumes "tree_ok (current_links d)"
    and "link_members e d operator k inviter why (Some op) = Inr (d', r)"
    and "find (\<lambda>r. rv_operation r = op \<and> ln_member (rv_link r) = k) (db_revisions d) = None"
  shows "tree_ok (current_links d')
    \<and> (\<exists>up. chain_ids inviter (current_links d') = Inr up \<and> chain_ids k (current_links d') = Inr (inviter # up)
          \<and> k \<notin> set up)
    \<and> (\<forall>x. x \<noteq> k \<longrightarrow> map_option ln_inviter (row_get ln_member (current_links d') x)
                   = map_option ln_inviter (row_get ln_member (current_links d) x))
    \<and> db_ledger d' = db_ledger d"
proof -
  obtain child parent branch path s where
    vp: "validate_pair e d k inviter (current_links d) = Inr (child, parent)"
    and path: "path = ln_tree_number parent @ ''-'' @ s"
    and cl: "current_links d' = map (\<lambda>l. if ln_member l \<in> set (branch_closure (current_links d) [k])
        then moved_link child parent branch path l else l) (current_links d)"
    and led: "db_ledger d' = db_ledger d"
    by (rule link_members_found [OF assms(2,3,1)])
  note V = validate_pair_found [OF vp]
  obtain up where up: "chain_ids inviter (current_links d) = Inr up" "k \<notin> set up" using V by blast
  have t': "tree_ok (current_links d')"
    unfolding cl
  proof (rule tree_ok_moved [OF assms(1) _ _ _ up _ path refl])
    show "k \<noteq> inviter" "row_get ln_member (current_links d) k = Some child" "ln_inviter child = None"
      "row_get ln_member (current_links d) inviter = Some parent"
      using V by simp_all
  qed
  have g: "row_get ln_member (current_links d') x = map_option (\<lambda>l. if ln_member l \<in> set (branch_closure (current_links d) [k])
        then moved_link child parent branch path l else l) (row_get ln_member (current_links d) x)" for x
    unfolding cl by (rule row_get_map) simp
  have ck: "ln_member child = k" "ln_member parent = inviter"
    using V row_get_key [of ln_member "current_links d"] by auto
  have "k \<in> set (branch_closure (current_links d) [k])"
    using branch_closure_below [OF assms(1) below_single] V assms(1) by auto
  then have ki: "\<exists>l. row_get ln_member (current_links d') k = Some l \<and> ln_inviter l = Some inviter"
    using V ck by (simp add: g moved_link_def)
  then obtain l where l: "row_get ln_member (current_links d') k = Some l" "ln_inviter l = Some inviter" by blast
  obtain rest where rest: "chain_ids inviter (current_links d') = Inr rest"
    "chain_ids k (current_links d') = Inr (inviter # rest)"
    using chain_ids_unfold [OF t' l] by blast
  have "k \<notin> set rest"
  proof -
    obtain c where "chain_ids k (current_links d') = Inr c" "chain_is (current_links d') k l c"
      using chain_ids_is [OF t' l(1)] by blast
    then show ?thesis using rest(2) unfolding chain_is_def by auto
  qed
  moreover have "map_option ln_inviter (row_get ln_member (current_links d') x)
                   = map_option ln_inviter (row_get ln_member (current_links d) x)" if "x \<noteq> k" for x
  proof (cases "row_get ln_member (current_links d) x")
    case (Some y)
    then have "ln_member y \<noteq> ln_member child" using that ck row_get_key [OF Some] by simp
    then show ?thesis using Some by (simp add: g moved_link_def)
  qed (simp add: g)
  ultimately show ?thesis using t' rest led by blast
qed

text \<open>A witness: two roots, one of which may invite, are linked.\<close>

definition two_roots :: db where
  "two_roots = sample_db \<lparr>
     db_members := [sample_member 11 1 ''LSA-M000011'' \<lparr> m_first_completed_at := Some 3 \<rparr>,
                    sample_member 12 2 ''LSA-M000012''],
     db_referrals := [sample_link 11 None ''0001'' 0 1,
                      sample_link 12 None ''0002'' 0 2 \<lparr> ln_root := 12 \<rparr>], db_bookings := [] \<rparr>"

lemma two_roots_links: "current_links two_roots =
    [sample_link 11 None ''0001'' 0 1, sample_link 12 None ''0002'' 0 2 \<lparr> ln_root := 12 \<rparr>]"
  by (simp add: current_links_def current_of_def latest_revision_def two_roots_def sample_db_def)

lemma two_roots_closure: "branch_closure (current_links two_roots) [12] = [12]"
  by (simp add: two_roots_links branch_closure.simps sample_link_def)

lemma two_roots_pair:
  "validate_pair sample_env two_roots 12 11 (current_links two_roots) =
     Inr (sample_link 12 None ''0002'' 0 2 \<lparr> ln_root := 12 \<rparr>, sample_link 11 None ''0001'' 0 1)"
proof -
  have c: "chain_ids 11 (current_links two_roots) = Inr []"
    by (simp add: chain_ids_def chain_loop.simps two_roots_links row_get_def sample_link_def)
  have r: "row_get ln_member (current_links two_roots) 12 = Some (sample_link 12 None ''0002'' 0 2 \<lparr> ln_root := 12 \<rparr>)"
    "row_get ln_member (current_links two_roots) 11 = Some (sample_link 11 None ''0001'' 0 1)"
    by (simp_all add: two_roots_links row_get_def sample_link_def)
  have p: "member_in_program sample_env two_roots 11" "member_in_program sample_env two_roots 12"
    by (simp_all add: member_in_program_def get_member_def get_user_def row_get_def two_roots_def
        sample_db_def sample_member_def sample_user_def participant_allowed_def sample_env_def)
  have m: "get_member two_roots 11 = Some (sample_member 11 1 ''LSA-M000011'' \<lparr> m_first_completed_at := Some 3 \<rparr>)"
    by (simp add: get_member_def row_get_def two_roots_def sample_member_def)
  have "invitation_eligible sample_env two_roots (sample_member 11 1 ''LSA-M000011'' \<lparr> m_first_completed_at := Some 3 \<rparr>) = Inr True"
    by (simp add: invitation_eligible_def)
  then show ?thesis
    unfolding validate_pair_def r c
    by (simp add: p m) (simp add: sample_link_def)
qed

lemma two_roots_linked:
  "\<exists>d r. link_members sample_env two_roots (sample_user 3) 12 11 ''verified'' (Some ''op1'') = Inr (d, r)"
proof -
  have m: "\<exists>r. move_branch two_roots (sample_user 3) 12 11 ''op1'' ''verified'' (current_links two_roots)
      (sample_link 12 None ''0002'' 0 2 \<lparr> ln_root := 12 \<rparr>) (sample_link 11 None ''0001'' 0 1) = Inr r"
  proof -
    have b: "db_bookings two_roots = []" "db_revisions two_roots = []" "db_events two_roots = []"
      by (simp_all add: two_roots_def sample_db_def)
    have s: "sort_key ln_depth (filter (\<lambda>l. ln_member l \<in> set [12]) (current_links two_roots))
        = [sample_link 12 None ''0002'' 0 2 \<lparr> ln_root := 12 \<rparr>]"
      by (simp add: two_roots_links sample_link_def)
    have gm: "get_member (d \<lparr> db_revisions := x \<rparr>) k = get_member d k" for d x k
      by (simp add: get_member_def)
    have g: "get_member two_roots 12 = Some (sample_member 12 2 ''LSA-M000012'')"
      by (simp add: get_member_def row_get_def two_roots_def sample_member_def)
    have k: "ln_member (moved_link c p br path (sample_link 12 None ''0002'' 0 2 \<lparr> ln_root := 12 \<rparr>)) = 12"
      for c p br path by (simp add: sample_link_def)
    have lm: "ln_member (sample_link n i path dep br) = n" for n i path dep br by (simp add: sample_link_def)
    have mm: "m_customer (sample_member 12 2 ''LSA-M000012'') = 2" "member_id (sample_member 12 2 ''LSA-M000012'') = 12"
      by (simp_all add: sample_member_def)
    show ?thesis
      unfolding move_branch_def two_roots_closure Let_def moved_rows_def s b
      by (simp add: b k g gm mm lm record_event_def)
  qed
  then obtain r where r: "move_branch two_roots (sample_user 3) 12 11 ''op1'' ''verified'' (current_links two_roots)
      (sample_link 12 None ''0002'' 0 2 \<lparr> ln_root := 12 \<rparr>) (sample_link 11 None ''0001'' 0 1) = Inr r"
    by blast
  have f: "strip ''verified'' = ''verified''" by (simp add: strip_def is_space_char_def Let_def)
  have g: "graph two_roots = Inr (current_links two_roots)" "db_revisions two_roots = []"
    by (simp_all add: graph_def two_roots_def sample_db_def max_tree_def)
  have p: "posting_transaction sample_env x = x" for x :: "(db \<times> revision) res"
    by (simp add: posting_transaction_def launch_at_def sample_env_def)
  have u: "u_operations_owner (sample_user 3)" by (simp add: sample_user_def)
  have "link_members sample_env two_roots (sample_user 3) 12 11 ''verified'' (Some ''op1'') = Inr r"
    by (simp add: link_members_def f g p u two_roots_pair r del: One_nat_def)
  then show ?thesis by (cases r) blast
qed

theorem link_members_keeps_tree_witness:
  "\<exists>d up. tree_ok (current_links d) \<and> chain_ids 12 (current_links d) = Inr (11 # up)"
proof -
  obtain d r where l: "link_members sample_env two_roots (sample_user 3) 12 11 ''verified'' (Some ''op1'') = Inr (d, r)"
    using two_roots_linked by blast
  have "tree_ok (current_links two_roots)"
    by (simp add: two_roots_links tree_ok_def link_ok_def keys_of_def sample_link_def)
  moreover have "find (\<lambda>r. rv_operation r = ''op1'' \<and> ln_member (rv_link r) = 12) (db_revisions two_roots) = None"
    by (simp add: two_roots_def sample_db_def)
  ultimately show ?thesis using link_members_keeps_tree [OF _ l] by blast
qed

end
