(* ===== verification/Ledger.thy ===== *)
theory Ledger
  imports Referrals
begin

section \<open>The points ledger (apps/loyalty/services.py)\<close>

text \<open>
  Balances, the append-only posting with its guards and the constraints of the table, the
  receipts that make commands idempotent, and the commands of members: transfer, hold,
  release, redeem, restore, statement and withdrawal. A command is a function from the
  database to the new database and a result, or an exception, which rolls everything back.
\<close>

subsection \<open>Balances\<close>

definition net :: "ledger_row \<Rightarrow> rat" where
  "net r = credit r - debit r"

definition balance_in :: "ledger_row list \<Rightarrow> nat \<Rightarrow> rat" where
  "balance_in rows k = sum_list (map net (filter (\<lambda>r. row_member r = k) rows))"

definition balance :: "db \<Rightarrow> nat \<Rightarrow> rat" where
  "balance d k = balance_in (db_ledger d) k"

definition program_total :: "db \<Rightarrow> rat" where
  "program_total d = sum_list (map net (db_ledger d))"

definition held_value :: "booking \<Rightarrow> rat" where
  "held_value b = (case ls_hold (bk_loyalty b) of None \<Rightarrow> 0 | Some h \<Rightarrow> h_value h)"

definition held_points :: "db \<Rightarrow> member \<Rightarrow> rat" where
  "held_points d m = sum_list (map held_value (customer_bookings d (m_customer m)))"

definition available :: "db \<Rightarrow> member \<Rightarrow> rat" where
  "available d m = max 0 (balance d (member_id m) - held_points d m)"

subsection \<open>Posting\<close>

definition next_sequence :: "db \<Rightarrow> nat" where
  "next_sequence d = Suc (fold max (map sequence (db_ledger d)) 0)"

text \<open>A \<open>DecimalField(max_digits=16, decimal_places=2)\<close> holds less than \<open>10^14\<close>.\<close>

definition fits_column :: "rat \<Rightarrow> bool" where
  "fits_column x = (\<bar>x\<bar> < 10 ^ 14)"

text \<open>\<open>Ledger.objects.create\<close>: the unique and check constraints of the table.\<close>

definition create_row :: "db \<Rightarrow> ledger_row \<Rightarrow> (db \<times> ledger_row) res" where
  "create_row d r =
     (if list_ex (\<lambda>x. sequence x = sequence r) (db_ledger d)
      then Inl (IntegrityError ''sequence'')
      else if list_ex (\<lambda>x. row_group x = row_group r \<and> row_branch x = row_branch r) (db_ledger d)
      then Inl (IntegrityError ''loyalty_unique_operation_branch'')
      else if list_ex (\<lambda>x. e_reference (row_entry x) = e_reference (row_entry r)
                 \<and> row_member x = row_member r
                 \<and> e_component (row_entry x) = e_component (row_entry r)) (db_ledger d)
      then Inl (IntegrityError ''loyalty_unique_business_event'')
      else if \<not> (0 < credit r \<and> debit r = 0 \<or> 0 < debit r \<and> credit r = 0)
      then Inl (IntegrityError ''loyalty_one_posting_side'')
      else if \<not> (0 \<le> member_balance_after r \<or> 0 < credit r
                 \<or> (e_event (row_entry r) = AdjustEvent \<and> e_original (row_entry r) \<noteq> None)
                 \<or> e_event (row_entry r) = RedeemEvent)
      then Inl (IntegrityError ''loyalty_negative_correction_only'')
      else if \<not> (fits_column (credit r) \<and> fits_column (debit r)
                 \<and> fits_column (member_balance_after r) \<and> fits_column (program_balance_after r))
      then Inl (IntegrityError ''numeric_overflow'')
      else Inr (d \<lparr> db_ledger := db_ledger d @ [r] \<rparr>, r))"

text \<open>The check of a correction that may make the balance negative.\<close>

definition original_matches :: "db \<Rightarrow> nat \<Rightarrow> entry \<Rightarrow> bool" where
  "original_matches d k en =
     (case e_original en of None \<Rightarrow> False
      | Some n \<Rightarrow> (case row_get sequence (db_ledger d) n of None \<Rightarrow> False
          | Some o_row \<Rightarrow> row_member o_row = k \<and> e_event (row_entry o_row) = EarnEvent
              \<and> e_reservation (row_entry o_row) = e_reservation en
              \<and> e_component (row_entry o_row) = e_component en))"

definition exact_amount :: "pyval \<Rightarrow> rat res" where
  "exact_amount v = bindE (cents v) (\<lambda>c. Inr (amount c))"

definition post ::
    "env \<Rightarrow> db \<Rightarrow> nat \<Rightarrow> nat \<Rightarrow> nat \<Rightarrow> rat \<Rightarrow> rat \<Rightarrow> bool \<Rightarrow> entry \<Rightarrow> (db \<times> ledger_row) res" where
  "post e d k grp branch raw_credit raw_debit allow_negative en =
     bindE (of_option (DoesNotExist ''member'') (get_member d k)) (\<lambda>m.
     if \<not> participant_allowed e (get_user d (m_customer m))
     then Inl (PermissionDenied ''outside_pilot'')
     else bindE (exact_amount (PyDec (Fin raw_credit))) (\<lambda>c.
     bindE (exact_amount (PyDec (Fin raw_debit))) (\<lambda>b.
     if allow_negative \<and> e_event en \<notin> {AdjustEvent, RedeemEvent}
     then Inl (ValidationError ''negative_not_allowed'')
     else if allow_negative \<and> e_event en = AdjustEvent \<and> \<not> original_matches d k en
     then Inl (ValidationError ''original_required'')
     else if (0 < c) = (0 < b) \<or> (available d m < b \<and> \<not> allow_negative)
     then Inl (ValidationError ''unbalanced_or_insufficient'')
     else bindE (current_link d k) (\<lambda>link.
       create_row d \<lparr> sequence = next_sequence d, row_group = grp, row_branch = branch,
         row_member = k, row_customer = m_customer m, row_tree_number = ln_tree_number link,
         credit = c, debit = b, member_balance_after = balance d k + c - b,
         program_balance_after = program_total d + c - b, row_entry = en \<rparr>))))"

text \<open>\<open>_group()\<close>: the group \<open>LSA%06d\<close> is given by its number.\<close>

definition new_group :: "db \<Rightarrow> nat" where
  "new_group d = next_sequence d"

subsection \<open>Receipts\<close>

definition dict_set :: "string \<Rightarrow> pyval \<Rightarrow> (string \<times> pyval) list \<Rightarrow> (string \<times> pyval) list" where
  "dict_set k v kvs = (k, v) # filter (\<lambda>kv. fst kv \<noteq> k) kvs"

definition key_of :: "(string \<times> pyval) list \<Rightarrow> string \<Rightarrow> pyval res" where
  "key_of kvs k = of_option (KeyError k) (map_of kvs k)"

text \<open>\<open>str(x)\<close> of an argument or of a primary key, as it goes into the digest of a request.\<close>

fun text_value :: "pyval \<Rightarrow> pyval" where
  "text_value (PyDec (Fin q)) = PyDecText q"
| "text_value (PyInt n) = PyDecText (of_int n)"
| "text_value v = v"

definition text_key :: "nat \<Rightarrow> pyval" where
  "text_key n = PyStr (padded 1 n)"

definition receipt ::
    "env \<Rightarrow> db \<Rightarrow> nat \<Rightarrow> string \<Rightarrow> pyval \<Rightarrow> (db \<Rightarrow> (db \<times> pyval) res) \<Rightarrow> (db \<times> pyval) res" where
  "receipt e d k key payload work =
     (if length key < 3 \<or> 200 < length key then Inl (ValidationError ''request_reference'')
      else bindE (of_option (DoesNotExist ''member'') (get_member d k)) (\<lambda>m.
        let hash = PyStr (payload_digest e payload); old = dget (m_receipts m) key in
        if truthy old then
          bindE (of_option (TypeError ''receipt'') (dict_items old)) (\<lambda>r.
          bindE (key_of r ''hash'') (\<lambda>h.
            if h \<noteq> hash then Inl (ValidationError ''request_reused'')
            else bindE (key_of r ''result'') (\<lambda>result. Inr (d, result))))
        else bindE (work d) (\<lambda>(d', result).
          bindE (of_option (DoesNotExist ''member'') (get_member d' k)) (\<lambda>m'.
            Inr (put_member d' (m' \<lparr> m_receipts := dict_set key
                   (PyDict [(''hash'', hash), (''result'', result), (''at'', PyTimeText (Aware (now e)))])
                   (m_receipts m') \<rparr>), result)))))"

subsection \<open>Who acts, and on which booking\<close>

definition member_for :: "env \<Rightarrow> db \<Rightarrow> user \<Rightarrow> bool \<Rightarrow> member res" where
  "member_for e d u active =
     (if \<not> participant_allowed e (Some u) then Inl (PermissionDenied ''outside_pilot'')
      else if \<not> u_authenticated u \<or> \<not> u_active u then Inl (PermissionDenied ''login'')
      else of_option (ValidationError ''membership_unavailable'')
        (find (\<lambda>m. m_customer m = user_id u \<and> (active \<longrightarrow> m_status m = ActiveMember)) (db_members d)))"

definition member_booking :: "env \<Rightarrow> db \<Rightarrow> user \<Rightarrow> nat \<Rightarrow> booking res" where
  "member_booking e d u n =
     bindE (of_option (DoesNotExist ''reservation'') (get_booking d n)) (\<lambda>b.
     if booking_customer b \<noteq> Some (user_id u) then Inl (PermissionDenied ''not_owner'')
     else if \<not> booking_allowed e d b then Inl (PermissionDenied ''outside_pilot'')
     else if bk_source b \<noteq> DirectWebsite then Inl (ValidationError ''not_our_booking'')
     else bindE (launch_at e) (\<lambda>launch.
       if bk_created_at b < launch \<and> \<not> historical_award_allowed e d b
       then Inl (ValidationError ''before_launch'') else Inr b))"

subsection \<open>Transfer\<close>

definition plain_entry :: "event_type \<Rightarrow> component \<Rightarrow> event_ref \<Rightarrow> string \<Rightarrow> entry" where
  "plain_entry ev cmp ref request = \<lparr> e_event = ev, e_component = cmp, e_reference = ref,
     e_request = request, e_reservation = None, e_original = None, e_counterpart = None,
     e_plan = None, e_facts = None \<rparr>"

definition transfer_work ::
    "env \<Rightarrow> member \<Rightarrow> string \<Rightarrow> string \<Rightarrow> pyval \<Rightarrow> db \<Rightarrow> (db \<times> pyval) res" where
  "transfer_work e sender request number value d =
     bindE (of_option (DoesNotExist ''member'')
              (find (\<lambda>m. m_number m = number \<and> m_status m = ActiveMember) (db_members d))) (\<lambda>recipient.
     if \<not> participant_allowed e (get_user d (m_customer recipient))
     then Inl (PermissionDenied ''recipient'')
     else if (case get_user d (m_customer recipient) of None \<Rightarrow> True | Some u \<Rightarrow> \<not> u_active u)
     then Inl (ValidationError ''recipient_inactive'')
     else bindE (exact_amount value) (\<lambda>n.
     if n \<le> 0 \<or> member_id sender = member_id recipient \<or> available d sender < n
     then Inl (ValidationError ''invalid_transfer'')
     else
       let grp = new_group d;
           en = plain_entry TransferEvent TransferOut (TransferRef (member_id sender) request) request
       in bindE (post e d (member_id sender) grp 1 0 n False
                   (en \<lparr> e_counterpart := Some (member_id recipient) \<rparr>)) (\<lambda>(d1, r1).
          bindE (post e d1 (member_id recipient) grp 2 n 0 False
                   (en \<lparr> e_counterpart := Some (member_id sender), e_component := TransferIn \<rparr>))
            (\<lambda>(d2, r2).
            Inr (d2, PyDict [(''group'', PyInt (int grp)), (''value'', PyDecText n)])))))"

definition transfer :: "env \<Rightarrow> db \<Rightarrow> user \<Rightarrow> string \<Rightarrow> string \<Rightarrow> pyval \<Rightarrow> (db \<times> pyval) res" where
  "transfer e d u request number value =
     posting_transaction e (bindE (member_for e d u True) (\<lambda>sender.
       receipt e d (member_id sender) request (PyList [PyStr ''transfer'', PyStr number, text_value value])
         (transfer_work e sender request number value)))"

subsection \<open>Hold, release and redeem\<close>

definition settled_attempt :: "payment \<Rightarrow> bool" where
  "settled_attempt p = (pa_status p \<in> {PaFailed, PaCancelled, PaExpired})"

definition booking_payments :: "booking \<Rightarrow> payment list" where
  "booking_payments b = (case bk_intent b of None \<Rightarrow> [] | Some i \<Rightarrow> in_payments i)"

definition hold_work ::
    "env \<Rightarrow> user \<Rightarrow> member \<Rightarrow> string \<Rightarrow> nat \<Rightarrow> pyval \<Rightarrow> db \<Rightarrow> (db \<times> pyval) res" where
  "hold_work e u m request n value d =
     bindE (member_booking e d u n) (\<lambda>b.
     if bk_status b \<notin> {AwaitingPayment, ReadyForHostaway}
        \<or> ls_hold (bk_loyalty b) \<noteq> None \<or> ls_redemption (bk_loyalty b) \<noteq> None
     then Inl (ValidationError ''not_holdable'')
     else if \<not> list_all settled_attempt (booking_payments b)
     then Inl (ValidationError ''payment_in_progress'')
     else bindE (exact_amount value) (\<lambda>x.
     if x \<le> 0 then Inl (ValidationError ''points_value'')
     else bindE (total_sar (fx e) b) (\<lambda>whole.
     if whole < x \<or> available d m < x then Inl (ValidationError ''points_value'')
     else Inr (save_loyalty d b (\<lambda>s. s \<lparr> ls_hold := Some \<lparr> h_value = x, h_member = member_id m,
                  h_request = request \<rparr> \<rparr>),
               PyDict [(''value'', PyDecText x), (''reservation'', text_key n)]))))"

definition hold :: "env \<Rightarrow> db \<Rightarrow> user \<Rightarrow> string \<Rightarrow> nat \<Rightarrow> pyval \<Rightarrow> (db \<times> pyval) res" where
  "hold e d u request n value =
     posting_transaction e (bindE (member_for e d u True) (\<lambda>m.
       receipt e d (member_id m) request (PyList [PyStr ''hold'', text_key n, text_value value])
         (hold_work e u m request n value)))"

definition live_attempt :: "payment \<Rightarrow> bool" where
  "live_attempt p = (pa_status p \<in> {PaCreated, PaPending, PaUnknown, PaReview, PaSucceeded,
     PaPartiallyRefunded, PaRefunded})"

definition release_allowed :: "booking \<Rightarrow> unit res" where
  "release_allowed b =
     (if ls_points_started (bk_loyalty b) then Inl (ValidationError ''confirmation_pending'')
      else if ls_frozen (bk_loyalty b) \<noteq> None \<and> list_ex live_attempt (booking_payments b)
      then Inl (ValidationError ''payment_live'') else Inr ())"

definition release_work :: "env \<Rightarrow> user \<Rightarrow> nat \<Rightarrow> db \<Rightarrow> (db \<times> pyval) res" where
  "release_work e u n d =
     bindE (member_booking e d u n) (\<lambda>b.
     bindE (release_allowed b) (\<lambda>_.
       Inr (save_loyalty d b (\<lambda>s. s \<lparr> ls_hold := None, ls_frozen := None \<rparr>),
            PyDict [(''value'', PyDecText (held_value b))])))"

definition release :: "env \<Rightarrow> db \<Rightarrow> user \<Rightarrow> string \<Rightarrow> nat \<Rightarrow> (db \<times> pyval) res" where
  "release e d u request n =
     posting_transaction e (bindE (member_for e d u True) (\<lambda>m.
       receipt e d (member_id m) request (PyList [PyStr ''release'', text_key n])
         (release_work e u n)))"

definition redeem_work :: "env \<Rightarrow> user \<Rightarrow> member \<Rightarrow> string \<Rightarrow> nat \<Rightarrow> db \<Rightarrow> (db \<times> pyval) res" where
  "redeem_work e u m request n d =
     bindE (member_booking e d u n) (\<lambda>b.
     case ls_redemption (bk_loyalty b) of
       Some r \<Rightarrow> Inr (d, PyDict [(''value'', PyDecText (re_value r))])
     | None \<Rightarrow>
         (case ls_hold (bk_loyalty b) of
            None \<Rightarrow> Inl (ValidationError ''hold_required'')
          | Some h \<Rightarrow>
              if bk_status b \<notin> set active_statuses \<or> h_member h \<noteq> member_id m
              then Inl (ValidationError ''hold_required'')
              else
                let d1 = save_loyalty d b (\<lambda>s. s \<lparr> ls_hold := None \<rparr>);
                    en = plain_entry RedeemEvent Redemption (RedeemRef n) request
                in bindE (post e d1 (member_id m) (new_group d1) 1 0 (h_value h) True
                            (en \<lparr> e_reservation := Some n \<rparr>)) (\<lambda>(d2, row).
                   Inr (save_loyalty d2 b (\<lambda>s. s \<lparr> ls_hold := None,
                          ls_redemption := Some \<lparr> re_value = h_value h, re_original = sequence row,
                            re_restored = 0 \<rparr> \<rparr>),
                        PyDict [(''value'', PyDecText (h_value h))]))))"

definition redeem :: "env \<Rightarrow> db \<Rightarrow> user \<Rightarrow> string \<Rightarrow> nat \<Rightarrow> (db \<times> pyval) res" where
  "redeem e d u request n =
     posting_transaction e (bindE (member_for e d u True) (\<lambda>m.
       receipt e d (member_id m) request (PyList [PyStr ''redeem'', text_key n])
         (redeem_work e u m request n)))"

subsection \<open>Restoring, the statement and withdrawal\<close>

definition restore_points :: "env \<Rightarrow> db \<Rightarrow> nat \<Rightarrow> pyval \<Rightarrow> string \<Rightarrow> (db \<times> rat) res" where
  "restore_points e d n cumulative evidence =
     posting_transaction e
      (bindE (of_option (DoesNotExist ''reservation'') (get_booking d n)) (\<lambda>b.
       if \<not> booking_allowed e d b then Inl (PermissionDenied ''outside_pilot'')
       else bindE (of_option (TypeError ''no_customer'') (intent_user d b)) (\<lambda>u.
       bindE (member_for e d u True) (\<lambda>m.
       case ls_redemption (bk_loyalty b) of
         None \<Rightarrow> Inl (ValidationError ''no_redemption'')
       | Some r \<Rightarrow>
           if evidence = [] then Inl (ValidationError ''no_redemption'')
           else bindE (exact_amount cumulative) (\<lambda>target.
           if target < re_restored r \<or> re_value r < target
           then Inl (ValidationError ''restore_bounds'')
           else if target = re_restored r then Inr (d, 0)
           else bindE (post e d (member_id m) (new_group d) 1 (target - re_restored r) 0 False
                  ((plain_entry RestoreEvent Restore (RestoreRef n target) '''')
                     \<lparr> e_reservation := Some n, e_original := Some (re_original r) \<rparr>)) (\<lambda>(d1, row).
                Inr (save_loyalty d1 b (\<lambda>s. s \<lparr> ls_redemption := Some (r \<lparr> re_restored := target \<rparr>) \<rparr>),
                     target - re_restored r)))))))"

record account_statement =
  st_membership :: string
  st_tree_number :: string
  st_balance :: rat
  st_available :: rat
  st_rows :: "ledger_row list"

definition statement :: "env \<Rightarrow> db \<Rightarrow> user \<Rightarrow> account_statement res" where
  "statement e d u =
     bindE (member_for e d u False) (\<lambda>m.
     posting_transaction e (bindE (current_link d (member_id m)) (\<lambda>link.
       Inr \<lparr> st_membership = m_number m, st_tree_number = ln_tree_number link,
              st_balance = balance d (member_id m), st_available = available d m,
              st_rows = sort_key sequence (filter (\<lambda>r. row_member r = member_id m) (db_ledger d)) \<rparr>)))"

fun no_open_stay :: "env \<Rightarrow> booking list \<Rightarrow> unit res" where
  "no_open_stay e [] = Inr ()"
| "no_open_stay e (b # bs) =
     (if ls_hold (bk_loyalty b) \<noteq> None then Inl (ValidationError ''open_stay'')
      else if bk_status b = Cancelled then no_open_stay e bs
      else bindE (stay_times e b) (\<lambda>(start, end_at).
        if now e < end_at then Inl (ValidationError ''open_stay'') else no_open_stay e bs))"

definition withdraw_work ::
    "env \<Rightarrow> user \<Rightarrow> member \<Rightarrow> string \<Rightarrow> user option \<Rightarrow> db \<Rightarrow> (db \<times> pyval) res" where
  "withdraw_work e u m request operator d =
     (if m_status m = WithdrawnMember
      then Inr (d, PyDict [(''status'', PyStr ''withdrawn'')])
      else bindE (no_open_stay e (customer_bookings d (user_id u))) (\<lambda>_.
        bindE (quantize round_half_even 2 (balance d (member_id m))) (\<lambda>value.
        bindE (if 0 < value
               then bindE (post e d (member_id m) (new_group d) 1 0 value False
                      (plain_entry WithdrawEvent Closing (WithdrawRef (member_id m)) request))
                      (\<lambda>(d1, row). Inr (d1, Some (sequence row)))
               else Inr (d, None)) (\<lambda>(d1, closing).
        bindE (of_option (DoesNotExist ''member'') (get_member d1 (member_id m))) (\<lambda>m1.
        bindE (record_event (put_member d1 (m1 \<lparr> m_status := WithdrawnMember,
                               m_withdrawn_at := Some (now e) \<rparr>))
                 \<lparr> ev_kind = CloseEvent, ev_key = member_id m, ev_customer = user_id u,
                   ev_member = member_id m, ev_ledger = closing,
                   ev_source = (if operator = None then ''system'' else ''admin'') \<rparr>) (\<lambda>d2.
          Inr (d2, PyDict [(''status'', PyStr ''withdrawn''), (''forfeited'', PyDecText (max value 0))])))))))"

definition withdraw :: "env \<Rightarrow> db \<Rightarrow> user \<Rightarrow> string \<Rightarrow> user option \<Rightarrow> (db \<times> pyval) res" where
  "withdraw e d u request operator =
     posting_transaction e (bindE (member_for e d u False) (\<lambda>m.
       receipt e d (member_id m) request (PyList [PyStr ''withdraw''])
         (withdraw_work e u m request operator)))"

subsection \<open>The ledger invariant\<close>

text \<open>
  The append-only ledger as a specification: rows are numbered from one, each has one positive
  side in whole halalas, its two balances are the running totals of its member and of the
  programme, a debit leaves a negative balance only in a correction of an award or in a
  redemption, and no two rows share a group and branch or a business event.
\<close>

definition whole_cents :: "rat \<Rightarrow> bool" where
  "whole_cents x = (\<exists>k. x = amount k)"

definition row_ok :: "ledger_row list \<Rightarrow> ledger_row \<Rightarrow> bool" where
  "row_ok before r =
     (sequence r = Suc (length before)
      \<and> (0 < credit r \<and> debit r = 0 \<or> 0 < debit r \<and> credit r = 0)
      \<and> whole_cents (credit r) \<and> whole_cents (debit r)
      \<and> member_balance_after r = balance_in before (row_member r) + net r
      \<and> program_balance_after r = sum_list (map net before) + net r
      \<and> (0 \<le> member_balance_after r \<or> 0 < credit r
          \<or> (e_event (row_entry r) = AdjustEvent \<and> e_original (row_entry r) \<noteq> None)
          \<or> e_event (row_entry r) = RedeemEvent)
      \<and> (\<forall>x \<in> set before. (row_group x, row_branch x) \<noteq> (row_group r, row_branch r)
          \<and> (e_reference (row_entry x), row_member x, e_component (row_entry x))
             \<noteq> (e_reference (row_entry r), row_member r, e_component (row_entry r))))"

definition ledger_ok :: "ledger_row list \<Rightarrow> bool" where
  "ledger_ok rows = (\<forall>i < length rows. row_ok (take i rows) (rows ! i))"

lemma ledger_ok_Nil [simp]: "ledger_ok []"
  by (simp add: ledger_ok_def)

lemma ledger_ok_snoc: "ledger_ok (rows @ [r]) \<longleftrightarrow> ledger_ok rows \<and> row_ok rows r"
  by (auto simp: ledger_ok_def nth_append less_Suc_eq)

lemma balance_in_snoc [ledger_simps]:
  "balance_in (rows @ [r]) k = balance_in rows k + (if row_member r = k then net r else 0)"
  by (simp add: balance_in_def)

lemma ledger_ok_sequences: "ledger_ok rows \<Longrightarrow> map sequence rows = [1..<Suc (length rows)]"
proof (induction rows rule: rev_induct)
  case (snoc r rows)
  then show ?case by (simp add: ledger_ok_snoc row_ok_def)
qed simp

lemma fold_max_upt: "fold max [1..<Suc n] 0 = n"
  by (induction n) simp_all

lemma next_sequence_ok: "ledger_ok (db_ledger d) \<Longrightarrow> next_sequence d = Suc (length (db_ledger d))"
  using ledger_ok_sequences [of "db_ledger d"] fold_max_upt [of "length (db_ledger d)"]
  by (simp add: next_sequence_def)

lemma exact_amount_cents: "exact_amount v = Inr y \<Longrightarrow> \<exists>k. 0 \<le> k \<and> y = amount k"
  by (auto simp: exact_amount_def bindE_Inr_iff dest: cents_nonneg)

lemma exact_amount_same:
  assumes "exact_amount (PyDec (Fin (amount k))) = Inr y"
  shows "y = amount k"
proof -
  obtain j where j: "cents (PyDec (Fin (amount k))) = Inr j" "y = amount j"
    using assms by (auto simp: exact_amount_def bindE_Inr_iff)
  have "0 \<le> amount k" "amount k < 10 ^ 14" using j(1) by (auto elim!: cents_InrE)
  then have "0 \<le> k" "k < 10 ^ 16" by (simp_all add: amount_def)
  then show ?thesis using j by simp
qed

lemma exact_amount_whole: "whole_cents x \<Longrightarrow> exact_amount (PyDec (Fin x)) = Inr y \<Longrightarrow> y = x"
  by (auto simp: whole_cents_def dest: exact_amount_same)

lemma exact_amount_is_whole: "exact_amount v = Inr y \<Longrightarrow> whole_cents y \<and> 0 \<le> y"
  by (auto simp: whole_cents_def dest: exact_amount_cents)

lemma whole_cents_diff [simp]: "whole_cents x \<Longrightarrow> whole_cents y \<Longrightarrow> whole_cents (x - y)"
  by (auto simp: whole_cents_def) (metis amount_diff)

lemma whole_cents_add [simp]: "whole_cents x \<Longrightarrow> whole_cents y \<Longrightarrow> whole_cents (x + y)"
  by (auto simp: whole_cents_def) (metis amount_add)

lemma whole_cents_0 [simp]: "whole_cents 0"
  unfolding whole_cents_def by (rule exI [of _ 0]) simp

lemma create_row_Inr:
  "create_row d r = Inr (d', r') \<Longrightarrow> r' = r \<and> d' = d \<lparr> db_ledger := db_ledger d @ [r] \<rparr>
     \<and> (\<forall>x \<in> set (db_ledger d). (row_group x, row_branch x) \<noteq> (row_group r, row_branch r)
          \<and> (e_reference (row_entry x), row_member x, e_component (row_entry x))
             \<noteq> (e_reference (row_entry r), row_member r, e_component (row_entry r)))
     \<and> (0 < credit r \<and> debit r = 0 \<or> 0 < debit r \<and> credit r = 0)
     \<and> (0 \<le> member_balance_after r \<or> 0 < credit r
          \<or> (e_event (row_entry r) = AdjustEvent \<and> e_original (row_entry r) \<noteq> None)
          \<or> e_event (row_entry r) = RedeemEvent)"
  unfolding create_row_def list_ex_iff
  by (simp only: split: if_splits) (auto simp only: sum.inject prod.inject sum.distinct)

text \<open>What one successful posting does.\<close>

lemma post_found:
  assumes "post e d k grp branch rc rd neg en = Inr (d', r)"
  obtains m c b where "get_member d k = Some m" "exact_amount (PyDec (Fin rc)) = Inr c"
    "exact_amount (PyDec (Fin rd)) = Inr b" "b \<le> available d m \<or> neg" "(0 < c) \<noteq> (0 < b)"
    "neg \<Longrightarrow> e_event en \<in> {AdjustEvent, RedeemEvent}"
    "create_row d r = Inr (d', r)" "credit r = c" "debit r = b" "row_member r = k"
    "row_entry r = en" "sequence r = next_sequence d" "row_group r = grp" "row_branch r = branch"
    "member_balance_after r = balance d k + c - b" "program_balance_after r = program_total d + c - b"
proof -
  obtain m where m: "get_member d k = Some m"
    using assms by (auto simp: post_def bindE_Inr_iff)
  have 1: "bindE (exact_amount (PyDec (Fin rc))) (\<lambda>c.
     bindE (exact_amount (PyDec (Fin rd))) (\<lambda>b.
     if neg \<and> e_event en \<notin> {AdjustEvent, RedeemEvent}
     then Inl (ValidationError ''negative_not_allowed'')
     else if neg \<and> e_event en = AdjustEvent \<and> \<not> original_matches d k en
     then Inl (ValidationError ''original_required'')
     else if (0 < c) = (0 < b) \<or> (available d m < b \<and> \<not> neg)
     then Inl (ValidationError ''unbalanced_or_insufficient'')
     else bindE (current_link d k) (\<lambda>link.
       create_row d \<lparr> sequence = next_sequence d, row_group = grp, row_branch = branch,
         row_member = k, row_customer = m_customer m, row_tree_number = ln_tree_number link,
         credit = c, debit = b, member_balance_after = balance d k + c - b,
         program_balance_after = program_total d + c - b, row_entry = en \<rparr>))) = Inr (d', r)"
    using assms unfolding post_def m of_option_simps bindE.simps by (simp only: split: if_splits) simp
  obtain c b where c: "exact_amount (PyDec (Fin rc)) = Inr c" and b: "exact_amount (PyDec (Fin rd)) = Inr b"
    using 1 unfolding bindE_Inr_iff by blast
  have 2: "\<not> (neg \<and> e_event en \<notin> {AdjustEvent, RedeemEvent})"
    "\<not> ((0 < c) = (0 < b) \<or> (available d m < b \<and> \<not> neg))"
    using 1 unfolding c b bindE.simps by (simp_all only: split: if_splits) simp_all
  have 3: "bindE (current_link d k) (\<lambda>link.
       create_row d \<lparr> sequence = next_sequence d, row_group = grp, row_branch = branch,
         row_member = k, row_customer = m_customer m, row_tree_number = ln_tree_number link,
         credit = c, debit = b, member_balance_after = balance d k + c - b,
         program_balance_after = program_total d + c - b, row_entry = en \<rparr>) = Inr (d', r)"
    using 1 unfolding c b bindE.simps by (simp only: split: if_splits) simp_all
  then obtain link :: link where cr: "create_row d \<lparr> sequence = next_sequence d, row_group = grp, row_branch = branch,
         row_member = k, row_customer = m_customer m, row_tree_number = ln_tree_number link,
         credit = c, debit = b, member_balance_after = balance d k + c - b,
         program_balance_after = program_total d + c - b, row_entry = en \<rparr> = Inr (d', r)"
    unfolding bindE_Inr_iff by (elim exE conjE) (rule that)
  from create_row_Inr [OF cr] have r: "r = \<lparr> sequence = next_sequence d, row_group = grp, row_branch = branch,
         row_member = k, row_customer = m_customer m, row_tree_number = ln_tree_number link,
         credit = c, debit = b, member_balance_after = balance d k + c - b,
         program_balance_after = program_total d + c - b, row_entry = en \<rparr>" by simp
  show ?thesis
  proof (rule that [OF m c b])
    show "create_row d r = Inr (d', r)" using cr r by simp
  qed (use 2 r in \<open>auto simp del: One_nat_def\<close>)
qed

lemma post_appends:
  assumes "post e d k grp branch rc rd neg en = Inr (d', r)"
  shows "d' = d \<lparr> db_ledger := db_ledger d @ [r] \<rparr>"
  by (rule post_found [OF assms]) (use create_row_Inr [of d r d' r] in blast)

lemma post_ledger_ok [ledger_intros]:
  assumes "post e d k grp branch rc rd neg en = Inr (d', r)" and "ledger_ok (db_ledger d)"
  shows "ledger_ok (db_ledger d')"
proof (rule post_found [OF assms(1)])
  fix m c b
  assume c: "exact_amount (PyDec (Fin rc)) = Inr c" and b: "exact_amount (PyDec (Fin rd)) = Inr b"
    and cr: "create_row d r = Inr (d', r)" and f: "credit r = c" "debit r = b" "row_member r = k"
    "sequence r = next_sequence d"
    "member_balance_after r = balance d k + c - b" "program_balance_after r = program_total d + c - b"
  note C = create_row_Inr [OF cr]
  have "row_ok (db_ledger d) r"
    unfolding row_ok_def
    using C f next_sequence_ok [OF assms(2)] exact_amount_is_whole [OF c] exact_amount_is_whole [OF b]
    by (simp add: net_def balance_def program_total_def)
  then show ?thesis using C assms(2) by (simp add: ledger_ok_snoc)
qed

lemma post_balance:
  assumes "post e d k grp branch rc rd neg en = Inr (d', r)"
  shows "balance d' x = balance d x + (if x = k then credit r - debit r else 0)"
    and "program_total d' = program_total d + credit r - debit r"
proof -
  have m: "row_member r = k" by (rule post_found [OF assms]) blast
  show "balance d' x = balance d x + (if x = k then credit r - debit r else 0)"
    using m by (simp add: post_appends [OF assms] balance_def balance_in_snoc net_def)
  show "program_total d' = program_total d + credit r - debit r"
    by (simp add: post_appends [OF assms] program_total_def net_def)
qed

lemma post_whole:
  assumes "post e d k grp branch rc rd neg en = Inr (d', r)" and "whole_cents rc" and "whole_cents rd"
  shows "credit r = rc \<and> debit r = rd"
  by (rule post_found [OF assms(1)]) (use assms(2,3) exact_amount_whole in blast)

subsection \<open>What receipts guarantee\<close>

lemma dget_dict_set: "dget (dict_set k v kvs) k' = (if k' = k then v else dget kvs k')"
proof -
  have "map_of (filter (\<lambda>kv. fst kv \<noteq> k) kvs) k' = (if k' = k then None else map_of kvs k')"
    by (induction kvs) auto
  then show ?thesis by (simp add: dget_def dict_set_def)
qed

lemma get_put_member:
  "get_member d (member_id m) = Some m0 \<Longrightarrow> get_member (put_member d m) k = (if k = member_id m then Some m else get_member d k)"
  by (rule member_table.get_after_put)

text \<open>A fresh command runs the work and then only writes its receipt.\<close>

lemma receipt_fresh:
  assumes "receipt e d k key payload work = Inr (d', result)"
    and "get_member d k = Some m" and "\<not> truthy (dget (m_receipts m) key)"
  obtains d1 m1 where "work d = Inr (d1, result)" "get_member d1 k = Some m1"
    "d' = put_member d1 (m1 \<lparr> m_receipts := dict_set key
        (PyDict [(''hash'', PyStr (payload_digest e payload)), (''result'', result),
                 (''at'', PyTimeText (Aware (now e)))]) (m_receipts m1) \<rparr>)"
proof -
  obtain d1 where w: "work d = Inr (d1, result)" and "\<exists>m1. get_member d1 k = Some m1 \<and>
      d' = put_member d1 (m1 \<lparr> m_receipts := dict_set key
        (PyDict [(''hash'', PyStr (payload_digest e payload)), (''result'', result),
                 (''at'', PyTimeText (Aware (now e)))]) (m_receipts m1) \<rparr>)"
    using assms by (auto simp: receipt_def bindE_Inr_iff Let_def split: if_splits)
  then show ?thesis using that by blast
qed

text \<open>Once a command has its receipt, the same request returns the same result and changes nothing.\<close>

lemma receipt_replay:
  assumes "receipt e d k key payload work = Inr (d', result)"
  shows "receipt e d' k key payload work' = Inr (d', result)"
proof -
  have len: "3 \<le> length key" "length key \<le> 200"
    using assms by (auto simp: receipt_def split: if_splits)
  obtain m where m: "get_member d k = Some m"
    using assms by (auto simp: receipt_def bindE_Inr_iff split: if_splits)
  show ?thesis
  proof (cases "truthy (dget (m_receipts m) key)")
    case True
    then have "d' = d" using assms m len by (auto simp: receipt_def bindE_Inr_iff Let_def split: if_splits)
    then show ?thesis using assms m len True by (simp add: receipt_def Let_def)
  next
    case False
    obtain d1 m1 where w: "get_member d1 k = Some m1"
      "d' = put_member d1 (m1 \<lparr> m_receipts := dict_set key
        (PyDict [(''hash'', PyStr (payload_digest e payload)), (''result'', result),
                 (''at'', PyTimeText (Aware (now e)))]) (m_receipts m1) \<rparr>)"
      using receipt_fresh [OF assms m False] .
    have k: "member_id m1 = k" using member_table.get_key [OF w(1)] .
    have "get_member d' k = Some (m1 \<lparr> m_receipts := dict_set key
        (PyDict [(''hash'', PyStr (payload_digest e payload)), (''result'', result),
                 (''at'', PyTimeText (Aware (now e)))]) (m_receipts m1) \<rparr>)"
      unfolding w(2) using get_put_member [of d1 "m1 \<lparr> m_receipts := _ \<rparr>" m1 k] w(1) k by simp
    then show ?thesis
      using len by (simp add: receipt_def Let_def dget_dict_set key_of_def)
  qed
qed

text \<open>A reused reference with other data is refused, when the digest tells the payloads apart.\<close>

lemma receipt_conflict:
  assumes "receipt e d k key payload work = Inr (d', result)" and "payload_digest e payload' \<noteq> payload_digest e payload"
    and "get_member d k = Some m" and "\<not> truthy (dget (m_receipts m) key)"
  shows "receipt e d' k key payload' work' = Inl (ValidationError ''request_reused'')"
proof -
  have len: "3 \<le> length key" "length key \<le> 200"
    using assms by (auto simp: receipt_def split: if_splits)
  obtain d1 m1 where w: "get_member d1 k = Some m1"
      "d' = put_member d1 (m1 \<lparr> m_receipts := dict_set key
        (PyDict [(''hash'', PyStr (payload_digest e payload)), (''result'', result),
                 (''at'', PyTimeText (Aware (now e)))]) (m_receipts m1) \<rparr>)"
    using receipt_fresh [OF assms(1,3,4)] .
  have k: "member_id m1 = k" using member_table.get_key [OF w(1)] .
  have "get_member d' k = Some (m1 \<lparr> m_receipts := dict_set key
        (PyDict [(''hash'', PyStr (payload_digest e payload)), (''result'', result),
                 (''at'', PyTimeText (Aware (now e)))]) (m_receipts m1) \<rparr>)"
    unfolding w(2) using get_put_member [of d1 "m1 \<lparr> m_receipts := _ \<rparr>" m1 k] w(1) k by simp
  then show ?thesis
    using len assms(2) by (simp add: receipt_def Let_def dget_dict_set key_of_def)
qed

lemma receipt_ledger:
  assumes "receipt e d k key payload work = Inr (d', result)"
    and "\<And>d1 r. work d = Inr (d1, r) \<Longrightarrow> P (db_ledger d1)" and "P (db_ledger d)"
  shows "P (db_ledger d')"
  using assms by (auto simp: receipt_def bindE_Inr_iff Let_def split: if_splits prod.splits)

subsection \<open>Transfers\<close>

lemma held_points_ledger [simp]: "held_points (d \<lparr> db_ledger := x \<rparr>) m = held_points d m"
  by (simp add: held_points_def customer_bookings_def)

lemma get_member_ledger [simp]: "get_member (d \<lparr> db_ledger := x \<rparr>) k = get_member d k"
  by (simp add: get_member_def)

lemma transfer_work_found:
  assumes "transfer_work e s request number value d = Inr (d2, result)"
  obtains n t r1 r2 d1 where "exact_amount value = Inr n" "0 < n" "n \<le> available d s"
    "find (\<lambda>m. m_number m = number \<and> m_status m = ActiveMember) (db_members d) = Some t"
    "member_id s \<noteq> member_id t"
    "\<exists>en. post e d (member_id s) (new_group d) 1 0 n False en = Inr (d1, r1)"
    "\<exists>en. post e d1 (member_id t) (new_group d) 2 n 0 False en = Inr (d2, r2)"
    "credit r1 = 0" "debit r1 = n" "credit r2 = n" "debit r2 = 0"
proof -
  obtain t where t: "find (\<lambda>m. m_number m = number \<and> m_status m = ActiveMember) (db_members d) = Some t"
    using assms by (auto simp: transfer_work_def bindE_Inr_iff)
  obtain n where n: "exact_amount value = Inr n"
    using assms by (auto simp: transfer_work_def bindE_Inr_iff t split: if_splits)
  have c: "0 < n" "member_id s \<noteq> member_id t" "n \<le> available d s"
    using assms by (auto simp: transfer_work_def t n split: if_splits)
  obtain d1 r1 en1 r2 en2 where p1: "post e d (member_id s) (new_group d) 1 0 n False en1 = Inr (d1, r1)"
    and p2: "post e d1 (member_id t) (new_group d) 2 n 0 False en2 = Inr (d2, r2)"
    using assms by (auto simp: transfer_work_def t n Let_def bindE_Inr_iff split: if_splits)
  have w: "whole_cents n" using exact_amount_is_whole [OF n] by simp
  have z: "whole_cents 0" by (rule whole_cents_0)
  have 1: "credit r1 = 0 \<and> debit r1 = n" by (rule post_whole [OF p1 z w])
  have 2: "credit r2 = n \<and> debit r2 = 0" by (rule post_whole [OF p2 w z])
  show ?thesis
    by (rule that [OF n c(1,3) t c(2)]) (use p1 p2 1 2 in blast)+
qed

lemma transfer_work_effect:
  assumes "transfer_work e s request number value d = Inr (d2, result)"
  obtains n t r1 r2 where "exact_amount value = Inr n" "0 < n" "n \<le> available d s"
    "find (\<lambda>m. m_number m = number \<and> m_status m = ActiveMember) (db_members d) = Some t"
    "member_id s \<noteq> member_id t" "d2 = d \<lparr> db_ledger := db_ledger d @ [r1, r2] \<rparr>"
    "\<And>x. balance d2 x = balance d x + (if x = member_id s then - n else if x = member_id t then n else 0)"
    "program_total d2 = program_total d"
    "ledger_ok (db_ledger d) \<Longrightarrow> ledger_ok (db_ledger d2)"
proof (rule transfer_work_found [OF assms])
  fix n t r1 r2 d1
  assume n: "exact_amount value = Inr n" "0 < n" "n \<le> available d s"
    and t: "find (\<lambda>m. m_number m = number \<and> m_status m = ActiveMember) (db_members d) = Some t"
      "member_id s \<noteq> member_id t"
    and p1: "\<exists>en. post e d (member_id s) (new_group d) 1 0 n False en = Inr (d1, r1)"
    and p2: "\<exists>en. post e d1 (member_id t) (new_group d) 2 n 0 False en = Inr (d2, r2)"
    and a: "credit r1 = 0" "debit r1 = n" "credit r2 = n" "debit r2 = 0"
  obtain en1 where P1: "post e d (member_id s) (new_group d) 1 0 n False en1 = Inr (d1, r1)" using p1 by blast
  obtain en2 where P2: "post e d1 (member_id t) (new_group d) 2 n 0 False en2 = Inr (d2, r2)" using p2 by blast
  show ?thesis
  proof (rule that [OF n t])
    show "d2 = d \<lparr> db_ledger := db_ledger d @ [r1, r2] \<rparr>"
      using post_appends [OF P1] post_appends [OF P2] by simp
    show "balance d2 x = balance d x + (if x = member_id s then - n else if x = member_id t then n else 0)" for x
      using post_balance(1) [OF P1] post_balance(1) [OF P2] a t(2) by simp
    show "program_total d2 = program_total d"
      using post_balance(2) [OF P1] post_balance(2) [OF P2] a by simp
    show "ledger_ok (db_ledger d) \<Longrightarrow> ledger_ok (db_ledger d2)"
      using post_ledger_ok [OF P1] post_ledger_ok [OF P2] by blast
  qed
qed

end
