(* ===== verification/Accounts.thy ===== *)
theory Accounts
  imports Ledger
begin

section \<open>The accounts as a state machine\<close>

text \<open>
  The member commands as steps on the database, the invariant of the accounts (the ledger is
  well formed, what is held never exceeds the balance, a redemption is never restored beyond
  its value), and its preservation by every command. Each step may run under its own
  settings and clock, so the invariant survives any change of them.
\<close>

subsection \<open>The invariant\<close>

definition owners :: "db \<Rightarrow> (nat \<times> nat) list" where
  "owners d = map (\<lambda>m. (member_id m, m_customer m)) (db_members d)"

definition held_in :: "booking list \<Rightarrow> nat \<Rightarrow> rat" where
  "held_in bs c = sum_list (map (\<lambda>b. if booking_customer b = Some c then held_value b else 0) bs)"

definition redemption_ok :: "booking \<Rightarrow> bool" where
  "redemption_ok b = (case ls_redemption (bk_loyalty b) of None \<Rightarrow> True
     | Some r \<Rightarrow> 0 \<le> re_restored r \<and> re_restored r \<le> re_value r \<and> whole_cents (re_restored r))"

definition booking_ok :: "booking \<Rightarrow> bool" where
  "booking_ok b = (0 \<le> held_value b \<and> whole_cents (held_value b) \<and> redemption_ok b)"

definition account_ok :: "db \<Rightarrow> bool" where
  "account_ok d = (distinct (map fst (owners d)) \<and> distinct (map snd (owners d))
     \<and> distinct (keys_of bk_id (db_bookings d)) \<and> ledger_ok (db_ledger d)
     \<and> (\<forall>b \<in> set (db_bookings d). booking_ok b)
     \<and> (\<forall>(k, c) \<in> set (owners d). held_in (db_bookings d) c \<le> balance d k))"

lemma held_points_in: "held_points d m = held_in (db_bookings d) (m_customer m)"
  unfolding held_points_def held_in_def customer_bookings_def
  by (simp add: sum_list_map_filter')

lemma available_in: "available d m = max 0 (balance d (member_id m) - held_in (db_bookings d) (m_customer m))"
  by (simp add: available_def held_points_in)

lemma owners_ledger [simp]: "owners (d \<lparr> db_ledger := x \<rparr>) = owners d"
  by (simp add: owners_def)

lemma owners_save [simp]: "owners (save_loyalty d b f) = owners d"
  by (simp add: owners_def)

lemma balance_other [simp]: "balance (put_member d m) k = balance d k" "balance (save_loyalty d b f) k = balance d k"
  by (simp_all add: balance_def)

lemma owner_unique:
  assumes "distinct (map fst (owners d))" and "s \<in> set (db_members d)"
  shows "get_member d (member_id s) = Some s"
proof -
  have inj: "x = s" if "x \<in> set (db_members d)" "member_id x = member_id s" for x
    using assms that by (auto simp: owners_def distinct_map inj_on_def)
  obtain x where x: "row_get member_id (db_members d) (member_id s) = Some x"
    using assms(2) by (cases "row_get member_id (db_members d) (member_id s)")
      (auto simp: row_get_def find_None_iff)
  show ?thesis
    using inj [of x] row_get_mem [OF x] row_get_key [OF x] x by (simp add: get_member_def)
qed

lemma owners_put:
  assumes "distinct (map fst (owners d))" and "get_member d (member_id m) = Some m0" and "m_customer m = m_customer m0"
  shows "owners (put_member d m) = owners d"
proof -
  have "x = m0" if "x \<in> set (db_members d)" "member_id x = member_id m" for x
    using owner_unique [OF assms(1) that(1)] that(2) assms(2) by simp
  then show ?thesis
    using assms(3) by (auto simp: owners_def put_member_def row_put_def)
qed

lemma account_ok_put:
  assumes "account_ok d" and "get_member d (member_id m) = Some m0" and "m_customer m = m_customer m0"
  shows "account_ok (put_member d m) \<and> owners (put_member d m) = owners d"
proof -
  have "owners (put_member d m) = owners d"
    using assms by (intro owners_put) (auto simp: account_ok_def)
  then show ?thesis using assms(1) by (simp add: account_ok_def)
qed

text \<open>What saving one booking does to the held points and to the invariant of the bookings.\<close>

lemma bookings_save: "db_bookings (save_loyalty d b f) =
    row_put bk_id (db_bookings d) (b \<lparr> bk_loyalty := f (bk_loyalty b) \<rparr>)"
  by (simp add: save_loyalty_def put_booking_def)

lemma booking_customer_loyalty [simp]: "booking_customer (b \<lparr> bk_loyalty := s \<rparr>) = booking_customer b"
  by (simp add: booking_customer_def)

lemma get_booking_in: "get_booking d n = Some b \<Longrightarrow> b \<in> set (db_bookings d) \<and> bk_id b = n"
  by (auto simp: get_booking_def dest: row_get_mem row_get_key)

lemma held_in_row_put:
  assumes "distinct (keys_of bk_id bs)" and "row_get bk_id bs (bk_id b) = Some b0"
    and "bk_id b' = bk_id b" and "booking_customer b' = booking_customer b0"
  shows "held_in (row_put bk_id bs b') c = held_in bs c
    + (if booking_customer b0 = Some c then held_value b' - held_value b0 else 0)"
  unfolding held_in_def
  using sum_row_put [OF assms(1), of b' b0 "\<lambda>b. if booking_customer b = Some c then held_value b else 0"] assms(2-)
  by auto

lemma account_ok_save:
  assumes ok: "account_ok d" and b: "get_booking d n = Some b"
    and new: "booking_ok (b \<lparr> bk_loyalty := f (bk_loyalty b) \<rparr>)"
    and room: "\<And>k c. (k, c) \<in> set (owners d) \<Longrightarrow> booking_customer b = Some c \<Longrightarrow>
      held_in (db_bookings d) c - held_value b + held_value (b \<lparr> bk_loyalty := f (bk_loyalty b) \<rparr>) \<le> balance d k"
  shows "account_ok (save_loyalty d b f)"
proof -
  let ?b = "b \<lparr> bk_loyalty := f (bk_loyalty b) \<rparr>"
  have D: "distinct (keys_of bk_id (db_bookings d))" using ok by (simp add: account_ok_def)
  have get: "row_get bk_id (db_bookings d) (bk_id b) = Some b"
    using b get_booking_in [OF b] by (simp add: get_booking_def)
  have held: "held_in (db_bookings (save_loyalty d b f)) c = held_in (db_bookings d) c
      + (if booking_customer b = Some c then held_value ?b - held_value b else 0)" for c
    unfolding bookings_save by (rule held_in_row_put [OF D get]) simp_all
  have "held_in (db_bookings (save_loyalty d b f)) c \<le> balance d k" if "(k, c) \<in> set (owners d)" for k c
  proof (cases "booking_customer b = Some c")
    case True
    then show ?thesis using held [of c] room [OF that True] by simp
  next
    case False
    then show ?thesis using held [of c] ok that by (auto simp: account_ok_def)
  qed
  moreover have "\<forall>x \<in> set (db_bookings (save_loyalty d b f)). booking_ok x"
    using ok new unfolding bookings_save by (auto simp: account_ok_def row_put_def)
  ultimately show ?thesis using ok D by (auto simp: account_ok_def bookings_save)
qed

lemma account_ok_held_le:
  assumes "account_ok d" and "get_booking d n = Some b" and "booking_customer b = Some c"
  shows "held_value b \<le> held_in (db_bookings d) c"
proof -
  let ?g = "\<lambda>x. if booking_customer x = Some c then held_value x else 0"
  have in_d: "b \<in> set (db_bookings d)" using get_booking_in [OF assms(2)] by simp
  have "sum_list (map ?g (db_bookings d)) \<ge> ?g b"
    by (rule member_le_sum_list) (use in_d assms(1) in \<open>auto simp: account_ok_def booking_ok_def\<close>)
  then show ?thesis using assms(3) by (simp add: held_in_def)
qed

text \<open>A posting keeps the invariant when its debit is available, or is paid out of released points.\<close>

lemma account_ok_post:
  assumes ok: "account_ok d" and p: "post e d k grp branch rc rd neg en = Inr (d', r)"
    and room: "\<And>c. (k, c) \<in> set (owners d) \<Longrightarrow> held_in (db_bookings d) c \<le> balance d k + credit r - debit r"
  shows "account_ok d' \<and> owners d' = owners d \<and> db_members d' = db_members d \<and> db_bookings d' = db_bookings d"
proof -
  have d': "d' = d \<lparr> db_ledger := db_ledger d @ [r] \<rparr>" by (rule post_appends [OF p])
  have "held_in (db_bookings d') c \<le> balance d' j" if "(j, c) \<in> set (owners d)" for j c
  proof (cases "j = k")
    case True
    then show ?thesis using post_balance(1) [OF p, of j] room [of c] that by (simp add: d')
  next
    case False
    then show ?thesis using post_balance(1) [OF p, of j] ok that by (auto simp: d' account_ok_def)
  qed
  then show ?thesis
    using ok post_ledger_ok [OF p] by (auto simp: account_ok_def d')
qed


subsection \<open>Every command keeps it\<close>

lemma member_for_found:
  assumes "member_for e d u act = Inr m"
  shows "m \<in> set (db_members d) \<and> m_customer m = user_id u \<and> (act \<longrightarrow> m_status m = ActiveMember)"
  using assms by (auto simp: member_for_def split: if_splits dest: find_Some_in)

lemma member_booking_found:
  assumes "member_booking e d u n = Inr b"
  shows "get_booking d n = Some b \<and> booking_customer b = Some (user_id u)"
  using assms by (auto simp: member_booking_def bindE_Inr_iff split: if_splits)

lemma owner_in: "m \<in> set (db_members d) \<Longrightarrow> (member_id m, m_customer m) \<in> set (owners d)"
  by (force simp: owners_def)

lemma owner_customer:
  assumes "account_ok d" and "(k, c) \<in> set (owners d)" and "(k', c) \<in> set (owners d)"
  shows "k' = k"
  using assms inj_onD [of snd "set (owners d)" "(k', c)" "(k, c)"] by (simp add: account_ok_def distinct_map)

lemma owner_id:
  assumes "account_ok d" and "(k, c) \<in> set (owners d)" and "(k, c') \<in> set (owners d)"
  shows "c' = c"
  using assms inj_onD [of fst "set (owners d)" "(k, c')" "(k, c)"] by (simp add: account_ok_def distinct_map)

lemma receipt_account:
  assumes r: "receipt e d k key payload work = Inr (d', result)" and ok: "account_ok d"
    and w: "\<And>d1 x. work d = Inr (d1, x) \<Longrightarrow> account_ok d1 \<and> owners d1 = owners d"
  shows "account_ok d' \<and> owners d' = owners d"
proof -
  obtain m where m: "get_member d k = Some m"
    using r by (auto simp: receipt_def bindE_Inr_iff split: if_splits)
  show ?thesis
  proof (cases "truthy (dget (m_receipts m) key)")
    case True
    then have "d' = d" using r m by (auto simp: receipt_def bindE_Inr_iff Let_def split: if_splits)
    then show ?thesis using ok by simp
  next
    case False
    obtain d1 m1 where 1: "work d = Inr (d1, result)" "get_member d1 k = Some m1"
      "d' = put_member d1 (m1 \<lparr> m_receipts := dict_set key
        (PyDict [(''hash'', PyStr (payload_digest e payload)), (''result'', result),
                 (''at'', PyTimeText (Aware (now e)))]) (m_receipts m1) \<rparr>)"
      using receipt_fresh [OF r m False] .
    have "member_id m1 = k" using member_table.get_key [OF 1(2)] .
    then show ?thesis
      using account_ok_put [of d1 "m1 \<lparr> m_receipts := _ \<rparr>" m1] w [OF 1(1)] 1(2,3) by simp
  qed
qed

lemma transfer_account:
  assumes "account_ok d" and "s \<in> set (db_members d)" and "transfer_work e s request number value d = Inr (d2, result)"
  shows "account_ok d2 \<and> owners d2 = owners d"
proof (rule transfer_work_found [OF assms(3)])
  fix n t r1 r2 d1
  assume n: "0 < n" "n \<le> available d s" and ne: "member_id s \<noteq> member_id t"
    and p1: "\<exists>en. post e d (member_id s) (new_group d) 1 0 n False en = Inr (d1, r1)"
    and p2: "\<exists>en. post e d1 (member_id t) (new_group d) 2 n 0 False en = Inr (d2, r2)"
    and a: "credit r1 = 0" "debit r1 = n" "credit r2 = n" "debit r2 = 0"
  obtain en1 where P1: "post e d (member_id s) (new_group d) 1 0 n False en1 = Inr (d1, r1)" using p1 by blast
  obtain en2 where P2: "post e d1 (member_id t) (new_group d) 2 n 0 False en2 = Inr (d2, r2)" using p2 by blast
  have c: "c = m_customer s" if "(member_id s, c) \<in> set (owners d)" for c
    using owner_id [OF assms(1) owner_in [OF assms(2)] that] .
  have room: "held_in (db_bookings d) c \<le> balance d (member_id s) + credit r1 - debit r1"
    if "(member_id s, c) \<in> set (owners d)" for c
    using n a c [OF that] by (simp add: available_in)
  note A1 = account_ok_post [OF assms(1) P1 room]
  have room2: "held_in (db_bookings d1) c \<le> balance d1 (member_id t) + credit r2 - debit r2"
    if "(member_id t, c) \<in> set (owners d1)" for c
  proof -
    have "held_in (db_bookings d1) c \<le> balance d1 (member_id t)"
      using A1 that by (auto simp: account_ok_def)
    then show ?thesis using a n by simp
  qed
  show ?thesis
    using account_ok_post [OF _ P2 room2] A1 by simp
qed

lemma hold_work_found:
  assumes "hold_work e u m request n value d = Inr (d2, result)"
  obtains b x whole where "get_booking d n = Some b" "booking_customer b = Some (user_id u)"
    "ls_hold (bk_loyalty b) = None" "ls_redemption (bk_loyalty b) = None" "exact_amount value = Inr x"
    "0 < x" "x \<le> available d m" "total_sar (fx e) b = Inr whole" "x \<le> whole"
    "d2 = save_loyalty d b (\<lambda>s. s \<lparr> ls_hold := Some \<lparr> h_value = x, h_member = member_id m, h_request = request \<rparr> \<rparr>)"
proof -
  obtain b where b: "member_booking e d u n = Inr b"
    using assms by (auto simp: hold_work_def bindE_Inr_iff)
  have c: "ls_hold (bk_loyalty b) = None" "ls_redemption (bk_loyalty b) = None"
    using assms by (auto simp: hold_work_def b split: if_splits)
  obtain x where x: "exact_amount value = Inr x" "0 < x"
    using assms by (auto simp: hold_work_def b bindE_Inr_iff split: if_splits)
  obtain whole where w: "total_sar (fx e) b = Inr whole"
    using assms x(2) by (auto simp: hold_work_def b x(1) bindE_Inr_iff split: if_splits)
  have d: "x \<le> whole" "x \<le> available d m"
    "d2 = save_loyalty d b (\<lambda>s. s \<lparr> ls_hold := Some \<lparr> h_value = x, h_member = member_id m, h_request = request \<rparr> \<rparr>)"
    using assms x(2) by (auto simp: hold_work_def b x(1) w split: if_splits)
  show ?thesis
    by (rule that [OF _ _ c x d(2) w d(1) d(3)]) (use member_booking_found [OF b] in simp_all)
qed

lemma hold_account:
  assumes ok: "account_ok d" and m: "m \<in> set (db_members d)" "m_customer m = user_id u"
    and w: "hold_work e u m request n value d = Inr (d2, result)"
  shows "account_ok d2 \<and> owners d2 = owners d"
proof (rule hold_work_found [OF w])
  fix b x whole
  assume b: "get_booking d n = Some b" "booking_customer b = Some (user_id u)"
    and none: "ls_hold (bk_loyalty b) = None" "ls_redemption (bk_loyalty b) = None"
    and x: "exact_amount value = Inr x" "0 < x" "x \<le> available d m"
    and d2: "d2 = save_loyalty d b (\<lambda>s. s \<lparr> ls_hold := Some \<lparr> h_value = x, h_member = member_id m, h_request = request \<rparr> \<rparr>)"
  have "account_ok d2"
    unfolding d2
  proof (rule account_ok_save [OF ok b(1)])
    show "booking_ok (b \<lparr> bk_loyalty := (bk_loyalty b) \<lparr> ls_hold := Some \<lparr> h_value = x, h_member = member_id m, h_request = request \<rparr> \<rparr> \<rparr>)"
      using x(2) none(2) exact_amount_is_whole [OF x(1)] by (simp add: booking_ok_def held_value_def redemption_ok_def)
  next
    fix k c
    assume kc: "(k, c) \<in> set (owners d)" "booking_customer b = Some c"
    then have "c = m_customer m" using b(2) m(2) by simp
    then have "k = member_id m" using owner_customer [OF ok owner_in [OF m(1)]] kc(1) by simp
    then show "held_in (db_bookings d) c - held_value b + held_value (b \<lparr> bk_loyalty := (bk_loyalty b)
          \<lparr> ls_hold := Some \<lparr> h_value = x, h_member = member_id m, h_request = request \<rparr> \<rparr> \<rparr>) \<le> balance d k"
      using x \<open>c = m_customer m\<close> none(1) by (simp add: held_value_def available_in)
  qed
  then show ?thesis by (simp add: d2)
qed


lemma release_account:
  assumes ok: "account_ok d" and w: "release_work e u n d = Inr (d2, result)"
  shows "account_ok d2 \<and> owners d2 = owners d"
proof -
  obtain b where b: "member_booking e d u n = Inr b"
    and d2: "d2 = save_loyalty d b (\<lambda>s. s \<lparr> ls_hold := None, ls_frozen := None \<rparr>)"
    using w by (auto simp: release_work_def bindE_Inr_iff)
  have g: "get_booking d n = Some b" using member_booking_found [OF b] by simp
  have bo: "booking_ok b" using ok get_booking_in [OF g] by (auto simp: account_ok_def)
  have "account_ok d2"
    unfolding d2
  proof (rule account_ok_save [OF ok g])
    show "booking_ok (b \<lparr> bk_loyalty := (bk_loyalty b) \<lparr> ls_hold := None, ls_frozen := None \<rparr> \<rparr>)"
      using bo by (simp add: booking_ok_def held_value_def redemption_ok_def whole_cents_0)
  next
    fix k c
    assume kc: "(k, c) \<in> set (owners d)" "booking_customer b = Some c"
    have "held_in (db_bookings d) c \<le> balance d k" using ok kc(1) by (auto simp: account_ok_def)
    then show "held_in (db_bookings d) c - held_value b + held_value (b \<lparr> bk_loyalty := (bk_loyalty b)
        \<lparr> ls_hold := None, ls_frozen := None \<rparr> \<rparr>) \<le> balance d k"
      using bo by (simp add: booking_ok_def held_value_def [of "b \<lparr> bk_loyalty := _ \<rparr>"])
  qed
  then show ?thesis by (simp add: d2)
qed

lemma redeem_work_found:
  assumes "redeem_work e u m request n d = Inr (d2, result)"
  obtains (again) "d2 = d"
  | (fresh) b h d1 row where "get_booking d n = Some b" "booking_customer b = Some (user_id u)"
    "ls_redemption (bk_loyalty b) = None" "ls_hold (bk_loyalty b) = Some h" "h_member h = member_id m"
    "bk_status b \<in> set active_statuses"
    "\<exists>en grp. post e (save_loyalty d b (\<lambda>s. s \<lparr> ls_hold := None \<rparr>)) (member_id m) grp 1 0 (h_value h) True en = Inr (d1, row)"
    "d2 = save_loyalty d1 b (\<lambda>s. s \<lparr> ls_hold := None,
        ls_redemption := Some \<lparr> re_value = h_value h, re_original = sequence row, re_restored = 0 \<rparr> \<rparr>)"
proof -
  obtain b where b: "member_booking e d u n = Inr b"
    using assms by (auto simp: redeem_work_def bindE_Inr_iff)
  show ?thesis
  proof (cases "ls_redemption (bk_loyalty b)")
    case (Some r)
    then show ?thesis using assms again by (auto simp: redeem_work_def b)
  next
    case None
    obtain h where h: "ls_hold (bk_loyalty b) = Some h" "h_member h = member_id m" "bk_status b \<in> set active_statuses"
      using assms by (auto simp: redeem_work_def b None split: option.splits if_splits)
    obtain d1 row en grp where p: "post e (save_loyalty d b (\<lambda>s. s \<lparr> ls_hold := None \<rparr>)) (member_id m) grp 1 0 (h_value h) True en = Inr (d1, row)"
      and d2: "d2 = save_loyalty d1 b (\<lambda>s. s \<lparr> ls_hold := None,
        ls_redemption := Some \<lparr> re_value = h_value h, re_original = sequence row, re_restored = 0 \<rparr> \<rparr>)"
      using assms h by (auto simp: redeem_work_def b None Let_def bindE_Inr_iff)
    show ?thesis
      by (rule fresh [OF _ _ None h _ d2]) (use member_booking_found [OF b] p in blast)+
  qed
qed

lemma row_put_put: "key x = key y \<Longrightarrow> row_put key (row_put key rows x) y = row_put key rows y"
  by (simp add: row_put_def)

lemma save_twice:
  "db_bookings d1 = db_bookings (save_loyalty d b f) \<Longrightarrow>
    db_bookings (save_loyalty d1 b g) = db_bookings (save_loyalty d b g)"
  unfolding bookings_save [of d1] by (simp add: bookings_save row_put_put)

definition redeemed :: "hold_state \<Rightarrow> nat \<Rightarrow> booking \<Rightarrow> booking" where
  "redeemed h n b = b \<lparr> bk_loyalty := (bk_loyalty b) \<lparr> ls_hold := None,
     ls_redemption := Some \<lparr> re_value = h_value h, re_original = n, re_restored = 0 \<rparr> \<rparr> \<rparr>"

text \<open>The effect of a redemption on the ledger, the balance, the bookings and the held points.\<close>

lemma redeem_effect:
  assumes ok: "account_ok d" and b: "get_booking d n = Some b" and h: "ls_hold (bk_loyalty b) = Some h"
    and p: "post e (save_loyalty d b (\<lambda>s. s \<lparr> ls_hold := None \<rparr>)) k grp 1 0 (h_value h) True en = Inr (d1, row)"
    and d2: "d2 = save_loyalty d1 b (\<lambda>s. s \<lparr> ls_hold := None,
        ls_redemption := Some \<lparr> re_value = h_value h, re_original = sequence row, re_restored = 0 \<rparr> \<rparr>)"
  shows "debit row = h_value h" and "db_ledger d2 = db_ledger d @ [row]" and "ledger_ok (db_ledger d2)"
    and "balance d2 j = balance d j - (if j = k then h_value h else 0)"
    and "db_bookings d2 = row_put bk_id (db_bookings d) (redeemed h (sequence row) b)"
    and "held_in (db_bookings d2) c = held_in (db_bookings d) c - (if booking_customer b = Some c then h_value h else 0)"
    and "db_members d2 = db_members d"
proof -
  have bo: "booking_ok b" using ok get_booking_in [OF b] by (auto simp: account_ok_def)
  have hv: "held_value b = h_value h" by (simp add: held_value_def h)
  have row: "credit row = 0 \<and> debit row = h_value h"
    by (rule post_whole [OF p whole_cents_0]) (use bo hv in \<open>simp add: booking_ok_def\<close>)
  then show "debit row = h_value h" by simp
  have d1: "d1 = (save_loyalty d b (\<lambda>s. s \<lparr> ls_hold := None \<rparr>)) \<lparr> db_ledger := db_ledger d @ [row] \<rparr>"
    using post_appends [OF p] by simp
  show "db_ledger d2 = db_ledger d @ [row]" "db_members d2 = db_members d" by (simp_all add: d2 d1)
  show "ledger_ok (db_ledger d2)" using post_ledger_ok [OF p] ok by (simp add: account_ok_def d2)
  show "balance d2 j = balance d j - (if j = k then h_value h else 0)"
    using post_balance(1) [OF p, of j] row by (simp add: d2)
  show bs: "db_bookings d2 = row_put bk_id (db_bookings d) (redeemed h (sequence row) b)"
    unfolding d2 by (subst save_twice [of _ d b "\<lambda>s. s \<lparr> ls_hold := None \<rparr>"]) (simp_all add: d1 bookings_save redeemed_def)
  have get: "row_get bk_id (db_bookings d) (bk_id b) = Some b"
    using b get_booking_in [OF b] by (simp add: get_booking_def)
  show "held_in (db_bookings d2) c = held_in (db_bookings d) c - (if booking_customer b = Some c then h_value h else 0)"
    unfolding bs using ok
    by (subst held_in_row_put [OF _ get]) (simp_all add: account_ok_def redeemed_def held_value_def h)
qed

lemma redeem_account:
  assumes ok: "account_ok d" and m: "m \<in> set (db_members d)" "m_customer m = user_id u"
    and w: "redeem_work e u m request n d = Inr (d2, result)"
  shows "account_ok d2 \<and> owners d2 = owners d"
  using w
proof (cases rule: redeem_work_found)
  case again
  then show ?thesis using ok by simp
next
  case (fresh b h d1 row)
  obtain en grp where p: "post e (save_loyalty d b (\<lambda>s. s \<lparr> ls_hold := None \<rparr>)) (member_id m) grp 1 0 (h_value h) True en = Inr (d1, row)"
    using fresh(7) by blast
  note E = redeem_effect [OF ok fresh(1,4) p fresh(8)]
  have bo: "booking_ok b" using ok get_booking_in [OF fresh(1)] by (auto simp: account_ok_def)
  have O: "owners d2 = owners d" using E(7) by (simp add: owners_def)
  have "held_in (db_bookings d2) c \<le> balance d2 k" if kc: "(k, c) \<in> set (owners d)" for k c
  proof -
    have 1: "held_in (db_bookings d) c \<le> balance d k" using ok kc by (auto simp: account_ok_def)
    show ?thesis
    proof (cases "booking_customer b = Some c")
      case True
      then have "k = member_id m"
        using owner_customer [OF ok owner_in [OF m(1)]] kc fresh(2) m(2) by simp
      then show ?thesis using 1 E(4) [of k] E(6) [of c] True by simp
    next
      case False
      then have "c \<noteq> m_customer m" using fresh(2) m(2) by auto
      then have "k \<noteq> member_id m" using owner_id [OF ok owner_in [OF m(1)]] kc by auto
      then show ?thesis using 1 E(4) [of k] E(6) [of c] False by simp
    qed
  qed
  moreover have "\<forall>x \<in> set (db_bookings d2). booking_ok x"
  proof -
    have "0 \<le> h_value h" using bo by (simp add: booking_ok_def held_value_def fresh(4))
    then have "booking_ok (redeemed h (sequence row) b)"
      by (simp add: redeemed_def booking_ok_def held_value_def redemption_ok_def whole_cents_0)
    then show ?thesis using ok unfolding E(5) by (auto simp: account_ok_def row_put_def)
  qed
  ultimately show ?thesis using ok O E(3,5) by (auto simp: account_ok_def)
qed

lemma restore_points_found:
  assumes "restore_points e d n cumulative evidence = Inr (d2, x)"
  obtains (none) "d2 = d" "x = 0"
  | (fresh) b r m target d1 row where "get_booking d n = Some b" "ls_redemption (bk_loyalty b) = Some r"
    "exact_amount cumulative = Inr target" "re_restored r < target" "target \<le> re_value r"
    "m \<in> set (db_members d)" "booking_customer b = Some (m_customer m)"
    "\<exists>en grp. post e d (member_id m) grp 1 (target - re_restored r) 0 False en = Inr (d1, row)"
    "d2 = save_loyalty d1 b (\<lambda>s. s \<lparr> ls_redemption := Some (r \<lparr> re_restored := target \<rparr>) \<rparr>)"
    "x = target - re_restored r"
proof -
  obtain b where b: "get_booking d n = Some b"
    using assms by (auto simp: restore_points_def posting_transaction_Inr bindE_Inr_iff)
  obtain u m where u: "intent_user d b = Some u" and m: "member_for e d u True = Inr m"
    using assms by (auto simp: restore_points_def posting_transaction_Inr bindE_Inr_iff b split: if_splits)
  obtain r where r: "ls_redemption (bk_loyalty b) = Some r"
    using assms by (auto simp: restore_points_def posting_transaction_Inr bindE_Inr_iff b u m
        split: if_splits option.splits)
  obtain target where t: "exact_amount cumulative = Inr target"
    using assms by (auto simp: restore_points_def posting_transaction_Inr bindE_Inr_iff b u m r split: if_splits)
  have t2: "re_restored r \<le> target" "target \<le> re_value r"
    using assms by (auto simp: restore_points_def posting_transaction_Inr b u m r t split: if_splits)
  have mb: "m \<in> set (db_members d) \<and> m_customer m = user_id u" using member_for_found [OF m] by simp
  have cu: "booking_customer b = Some (user_id u)"
    using u by (auto simp: intent_user_def get_user_def booking_customer_def bind_eq_Some_conv dest: row_get_key)
  show ?thesis
  proof (cases "target = re_restored r")
    case True
    show ?thesis
      by (rule none) (use assms True in \<open>auto simp: restore_points_def posting_transaction_Inr b u m r t split: if_splits\<close>)
  next
    case False
    obtain d1 row where p: "\<exists>en grp. post e d (member_id m) grp 1 (target - re_restored r) 0 False en = Inr (d1, row)"
      and d2: "d2 = save_loyalty d1 b (\<lambda>s. s \<lparr> ls_redemption := Some (r \<lparr> re_restored := target \<rparr>) \<rparr>)"
      and x: "x = target - re_restored r"
      using assms False by (auto simp: restore_points_def posting_transaction_Inr bindE_Inr_iff b u m r t split: if_splits)
    show ?thesis
      by (rule fresh [OF b r t _ t2(2) _ _ p d2 x]) (use False t2 mb cu in simp_all)
  qed
qed

lemma restore_account:
  assumes ok: "account_ok d" and w: "restore_points e d n cumulative evidence = Inr (d2, x)"
  shows "account_ok d2 \<and> owners d2 = owners d"
  using w
proof (cases rule: restore_points_found)
  case none
  then show ?thesis using ok by simp
next
  case (fresh b r m target d1 row)
  obtain en grp where p: "post e d (member_id m) grp 1 (target - re_restored r) 0 False en = Inr (d1, row)"
    using fresh(8) by blast
  have bo: "booking_ok b" using ok get_booking_in [OF fresh(1)] by (auto simp: account_ok_def)
  have wt: "whole_cents target" using exact_amount_is_whole [OF fresh(3)] by simp
  have wd: "whole_cents (target - re_restored r)"
    using bo fresh(2) wt by (simp add: booking_ok_def redemption_ok_def)
  have row: "credit row = target - re_restored r \<and> debit row = 0"
    by (rule post_whole [OF p wd whole_cents_0])
  have room: "held_in (db_bookings d) c \<le> balance d (member_id m) + credit row - debit row"
    if "(member_id m, c) \<in> set (owners d)" for c
  proof -
    have "held_in (db_bookings d) c \<le> balance d (member_id m)"
      using ok that by (auto simp: account_ok_def)
    then show ?thesis using row fresh(4) by simp
  qed
  have A: "account_ok d1 \<and> owners d1 = owners d \<and> db_members d1 = db_members d \<and> db_bookings d1 = db_bookings d"
    by (rule account_ok_post [OF ok p room])
  have g: "get_booking d1 n = Some b" using fresh(1) A by (simp add: get_booking_def)
  have "account_ok d2"
    unfolding fresh(9)
  proof (rule account_ok_save [OF _ g])
    show "booking_ok (b \<lparr> bk_loyalty := (bk_loyalty b) \<lparr> ls_redemption := Some (r \<lparr> re_restored := target \<rparr>) \<rparr> \<rparr>)"
      using bo fresh(2,4,5) wt by (simp add: booking_ok_def held_value_def redemption_ok_def)
    show "held_in (db_bookings d1) c - held_value b + held_value (b \<lparr> bk_loyalty := (bk_loyalty b)
        \<lparr> ls_redemption := Some (r \<lparr> re_restored := target \<rparr>) \<rparr> \<rparr>) \<le> balance d1 k"
      if "(k, c) \<in> set (owners d1)" "booking_customer b = Some c" for k c
      using A that by (auto simp: account_ok_def held_value_def)
  qed (use A in simp)
  then show ?thesis using A by (simp add: fresh(9))
qed

lemma no_open_stay_free:
  "no_open_stay e bs = Inr y \<Longrightarrow> b \<in> set bs \<Longrightarrow> ls_hold (bk_loyalty b) = None"
  by (induction bs) (auto simp: bindE_Inr_iff split: if_splits prod.splits)

lemma withdraw_work_found:
  assumes "withdraw_work e u m request operator d = Inr (d2, result)"
  obtains (again) "d2 = d" "m_status m = WithdrawnMember"
  | (fresh) v d1 m1 where "m_status m = ActiveMember"
    "\<forall>b \<in> set (customer_bookings d (user_id u)). ls_hold (bk_loyalty b) = None"
    "quantize round_half_even 2 (balance d (member_id m)) = Inr v"
    "v \<le> 0 \<and> d1 = d \<or> 0 < v \<and> (\<exists>en grp row. post e d (member_id m) grp 1 0 v False en = Inr (d1, row))"
    "get_member d1 (member_id m) = Some m1"
    "db_ledger d2 = db_ledger d1" "db_bookings d2 = db_bookings d1"
    "db_members d2 = db_members (put_member d1 (m1 \<lparr> m_status := WithdrawnMember, m_withdrawn_at := Some (now e) \<rparr>))"
proof (cases "m_status m = WithdrawnMember")
  case True
  then show ?thesis using assms again by (auto simp: withdraw_work_def)
next
  case False
  then have act: "m_status m = ActiveMember" by (cases "m_status m") auto
  obtain y where y: "no_open_stay e (customer_bookings d (user_id u)) = Inr y"
    using assms False by (auto simp: withdraw_work_def bindE_Inr_iff)
  obtain v where v: "quantize round_half_even 2 (balance d (member_id m)) = Inr v"
    using assms False by (auto simp: withdraw_work_def bindE_Inr_iff)
  obtain d1 closing where p: "(if 0 < v
               then bindE (post e d (member_id m) (new_group d) 1 0 v False
                      (plain_entry WithdrawEvent Closing (WithdrawRef (member_id m)) request))
                      (\<lambda>(d1, row). Inr (d1, Some (sequence row)))
               else Inr (d, None)) = Inr (d1, closing)"
    and rest: "bindE (of_option (DoesNotExist ''member'') (get_member d1 (member_id m))) (\<lambda>m1.
        bindE (record_event (put_member d1 (m1 \<lparr> m_status := WithdrawnMember,
                               m_withdrawn_at := Some (now e) \<rparr>))
                 \<lparr> ev_kind = CloseEvent, ev_key = member_id m, ev_customer = user_id u,
                   ev_member = member_id m, ev_ledger = closing,
                   ev_source = (if operator = None then ''system'' else ''admin'') \<rparr>) (\<lambda>d2.
          Inr (d2, PyDict [(''status'', PyStr ''withdrawn''), (''forfeited'', PyDecText (max v 0))]))) = Inr (d2, result)"
    using assms False y v unfolding withdraw_work_def bindE_Inr_iff by (auto simp: bindE_Inr_iff)
  obtain m1 where m1: "get_member d1 (member_id m) = Some m1"
    using rest by (auto simp: bindE_Inr_iff)
  have ev: "record_event (put_member d1 (m1 \<lparr> m_status := WithdrawnMember, m_withdrawn_at := Some (now e) \<rparr>))
                 \<lparr> ev_kind = CloseEvent, ev_key = member_id m, ev_customer = user_id u,
                   ev_member = member_id m, ev_ledger = closing,
                   ev_source = (if operator = None then ''system'' else ''admin'') \<rparr> = Inr d2"
    using rest unfolding m1 of_option_simps bindE.simps bindE_Inr_iff by simp
  note E = record_event_fields [OF ev]
  show ?thesis
  proof (rule fresh [OF act _ v _ m1])
    show "\<forall>b \<in> set (customer_bookings d (user_id u)). ls_hold (bk_loyalty b) = None"
      using no_open_stay_free [OF y] by blast
    show "v \<le> 0 \<and> d1 = d \<or> 0 < v \<and> (\<exists>en grp row. post e d (member_id m) grp 1 0 v False en = Inr (d1, row))"
      using p by (auto simp: bindE_Inr_iff split: if_splits)
  qed (use E in simp_all)
qed


lemma balance_whole: "ledger_ok rows \<Longrightarrow> whole_cents (balance_in rows k)"
proof (induction rows rule: rev_induct)
  case Nil
  then show ?case by (simp add: balance_in_def whole_cents_0)
next
  case (snoc r rows)
  then show ?case by (simp add: ledger_ok_snoc balance_in_snoc row_ok_def net_def)
qed

lemma quantize_cents:
  assumes "whole_cents x" and "quantize round_half_even 2 x = Inr v"
  shows "v = x"
proof -
  obtain k where "x = of_int k / 10 ^ 2" using assms(1) by (auto simp: whole_cents_def amount_def)
  then show ?thesis using assms(2) by (auto simp: quantize_def Let_def split: if_splits)
qed

lemma no_holds_held:
  assumes "\<forall>b \<in> set (customer_bookings d c). ls_hold (bk_loyalty b) = None"
  shows "held_in (db_bookings d) c = 0"
proof -
  have "sum_list (map f xs) = 0" if "\<And>x. x \<in> set xs \<Longrightarrow> f x = 0" for f :: "booking \<Rightarrow> rat" and xs
    using that by (induction xs) auto
  then show ?thesis
    unfolding held_in_def using assms by (auto simp: customer_bookings_def held_value_def)
qed

lemma withdraw_account:
  assumes ok: "account_ok d" and m: "m \<in> set (db_members d)" "m_customer m = user_id u"
    and w: "withdraw_work e u m request operator d = Inr (d2, result)"
  shows "account_ok d2 \<and> owners d2 = owners d \<and> (m_status m = ActiveMember \<longrightarrow>
    balance d2 (member_id m) = min 0 (balance d (member_id m)))"
  using w
proof (cases rule: withdraw_work_found)
  case again
  then show ?thesis using ok by simp
next
  case (fresh v d1 m1)
  have L: "ledger_ok (db_ledger d)" using ok by (simp add: account_ok_def)
  have v: "v = balance d (member_id m)"
    using quantize_cents [OF _ fresh(3)] balance_whole [OF L] by (simp add: balance_def)
  have h0: "held_in (db_bookings d) (user_id u) = 0" by (rule no_holds_held [OF fresh(2)])
  have 1: "account_ok d1 \<and> owners d1 = owners d \<and> balance d1 (member_id m) = min 0 (balance d (member_id m))"
    using fresh(4)
  proof
    assume "v \<le> 0 \<and> d1 = d"
    then show ?thesis using ok v by simp
  next
    assume "0 < v \<and> (\<exists>en grp row. post e d (member_id m) grp 1 0 v False en = Inr (d1, row))"
    then obtain en grp row where p: "post e d (member_id m) grp 1 0 v False en = Inr (d1, row)" and pos: "0 < v"
      by blast
    have "whole_cents v" using v balance_whole [OF L] by (simp add: balance_def)
    then have row: "credit row = 0 \<and> debit row = v" using post_whole [OF p whole_cents_0] by simp
    have room: "held_in (db_bookings d) c \<le> balance d (member_id m) + credit row - debit row"
      if "(member_id m, c) \<in> set (owners d)" for c
      using owner_id [OF ok owner_in [OF m(1)] that] m(2) h0 row v by simp
    show ?thesis
      using account_ok_post [OF ok p room] post_balance(1) [OF p, of "member_id m"] row v pos by simp
  qed
  have id: "member_id m1 = member_id m" using member_table.get_key [OF fresh(5)] .
  have P: "account_ok (put_member d1 (m1 \<lparr> m_status := WithdrawnMember, m_withdrawn_at := Some (now e) \<rparr>))
      \<and> owners (put_member d1 (m1 \<lparr> m_status := WithdrawnMember, m_withdrawn_at := Some (now e) \<rparr>)) = owners d1"
    by (rule account_ok_put [of _ _ m1]) (use 1 fresh(5) id in simp_all)
  have same: "owners d2 = owners (put_member d1 (m1 \<lparr> m_status := WithdrawnMember, m_withdrawn_at := Some (now e) \<rparr>))"
    by (simp add: owners_def fresh(8))
  have B: "balance d2 k = balance d1 k" for k by (simp add: balance_def fresh(6))
  have O: "owners d2 = owners d1" using P same by simp
  have "account_ok d2" using 1 unfolding account_ok_def O B fresh(6,7) by blast
  then show ?thesis using 1 O B by simp
qed

subsection \<open>Reachable states\<close>

text \<open>
  One command of a member or of the operator. The settings and the clock are those of the
  moment of the command.
\<close>

inductive command_step :: "db \<Rightarrow> db \<Rightarrow> bool" where
  step_transfer: "transfer e d u request number value = Inr (d', x) \<Longrightarrow> command_step d d'"
| step_hold: "hold e d u request n value = Inr (d', x) \<Longrightarrow> command_step d d'"
| step_release: "release e d u request n = Inr (d', x) \<Longrightarrow> command_step d d'"
| step_redeem: "redeem e d u request n = Inr (d', x) \<Longrightarrow> command_step d d'"
| step_restore: "restore_points e d n cumulative evidence = Inr (d', y) \<Longrightarrow> command_step d d'"
| step_withdraw: "withdraw e d u request operator = Inr (d', x) \<Longrightarrow> command_step d d'"

inductive_cases command_stepE: "command_step d d'"

text \<open>The shape of every command with a receipt.\<close>

lemma command_found:
  assumes "posting_transaction e (bindE (member_for e d u act) (\<lambda>m.
       receipt e d (member_id m) request (payload m) (work m))) = Inr (d', x)"
  obtains m where "member_for e d u act = Inr m" "m \<in> set (db_members d)" "m_customer m = user_id u"
    "receipt e d (member_id m) request (payload m) (work m) = Inr (d', x)"
proof -
  obtain m where "member_for e d u act = Inr m"
    and "receipt e d (member_id m) request (payload m) (work m) = Inr (d', x)"
    using assms by (auto simp: posting_transaction_Inr bindE_Inr_iff)
  then show ?thesis using that member_for_found by blast
qed

lemmas command_defs = transfer_def hold_def release_def redeem_def withdraw_def

lemma step_account:
  assumes "command_step d d'" and ok: "account_ok d"
  shows "account_ok d' \<and> owners d' = owners d"
  using assms(1)
proof cases
  case (step_transfer e u request number val x)
  then show ?thesis
    unfolding transfer_def
    by (elim command_found) (rule receipt_account [OF _ ok], assumption, rule transfer_account [OF ok])
next
  case (step_hold e u request n val x)
  then show ?thesis
    unfolding hold_def
    by (elim command_found) (rule receipt_account [OF _ ok], assumption, rule hold_account [OF ok])
next
  case (step_release e u request n x)
  then show ?thesis
    unfolding release_def
    by (elim command_found) (rule receipt_account [OF _ ok], assumption, rule release_account [OF ok])
next
  case (step_redeem e u request n x)
  then show ?thesis
    unfolding redeem_def
    by (elim command_found) (rule receipt_account [OF _ ok], assumption, rule redeem_account [OF ok])
next
  case (step_restore e n c ev y)
  then show ?thesis by (intro restore_account [OF ok])
next
  case (step_withdraw e u request op x)
  then show ?thesis
    unfolding withdraw_def
    by (elim command_found) (rule receipt_account [OF _ ok], assumption, use withdraw_account [OF ok] in blast)
qed


lemma transfer_appends: "transfer_work e s request number value d = Inr (d2, result) \<Longrightarrow>
    \<exists>new. db_ledger d2 = db_ledger d @ new"
  by (erule transfer_work_effect) simp

lemma hold_appends: "hold_work e u m request n value d = Inr (d2, result) \<Longrightarrow> db_ledger d2 = db_ledger d"
  by (erule hold_work_found) simp

lemma release_appends: "release_work e u n d = Inr (d2, result) \<Longrightarrow> db_ledger d2 = db_ledger d"
  by (auto simp: release_work_def bindE_Inr_iff)

lemma redeem_appends: "redeem_work e u m request n d = Inr (d2, result) \<Longrightarrow>
    \<exists>new. db_ledger d2 = db_ledger d @ new"
  by (erule redeem_work_found) (auto dest: post_appends)

lemma restore_appends: "restore_points e d n c evidence = Inr (d2, x) \<Longrightarrow>
    \<exists>new. db_ledger d2 = db_ledger d @ new"
  by (erule restore_points_found) (auto dest: post_appends)

lemma withdraw_appends: "withdraw_work e u m request operator d = Inr (d2, result) \<Longrightarrow>
    \<exists>new. db_ledger d2 = db_ledger d @ new"
  by (erule withdraw_work_found) (auto dest: post_appends)

lemma step_appends:
  assumes "command_step d d'"
  shows "\<exists>new. db_ledger d' = db_ledger d @ new"
  using assms
proof cases
  case step_transfer
  then show ?thesis unfolding transfer_def
    by (elim command_found) (erule receipt_ledger, use transfer_appends in auto)
next
  case step_hold
  then show ?thesis unfolding hold_def
    by (elim command_found) (erule receipt_ledger, use hold_appends in auto)
next
  case step_release
  then show ?thesis unfolding release_def
    by (elim command_found) (erule receipt_ledger, use release_appends in auto)
next
  case step_redeem
  then show ?thesis unfolding redeem_def
    by (elim command_found) (erule receipt_ledger, use redeem_appends in auto)
next
  case step_restore
  then show ?thesis by (intro restore_appends)
next
  case step_withdraw
  then show ?thesis unfolding withdraw_def
    by (elim command_found) (erule receipt_ledger, use withdraw_appends in auto)
qed

lemma reachable_account:
  assumes "command_step\<^sup>*\<^sup>* d d'" and "account_ok d"
  shows "account_ok d' \<and> owners d' = owners d \<and> (\<exists>new. db_ledger d' = db_ledger d @ new)"
  using assms
proof (induction rule: rtranclp_induct)
  case (step y z)
  then show ?case using step_account [OF step(2)] step_appends [OF step(2)] by force
qed simp

subsection \<open>A funded account\<close>

definition earned_row :: ledger_row where
  "earned_row = \<lparr> sequence = 1, row_group = 1, row_branch = 1, row_member = 11, row_customer = 1,
     row_tree_number = ''0001'', credit = 100, debit = 0, member_balance_after = 100,
     program_balance_after = 100, row_entry = plain_entry EarnEvent Loyalty (SettleRef 70 1) [] \<rparr>"

definition funded_db :: db where
  "funded_db = sample_db \<lparr> db_ledger := [earned_row] \<rparr>"

definition transfer_row :: "nat \<Rightarrow> nat \<Rightarrow> nat \<Rightarrow> string \<Rightarrow> rat \<Rightarrow> rat \<Rightarrow> rat \<Rightarrow> component \<Rightarrow> nat \<Rightarrow> ledger_row" where
  "transfer_row n br k path c b after cmp other = \<lparr> sequence = n, row_group = 2, row_branch = br, row_member = k,
     row_customer = k - 10, row_tree_number = path, credit = c, debit = b, member_balance_after = after,
     program_balance_after = 100 + c - b, row_entry = (plain_entry TransferEvent cmp (TransferRef 11 ''req'') ''req'')
       \<lparr> e_counterpart := Some other \<rparr> \<rparr>"

lemma funded_ok: "account_ok funded_db"
  by (simp add: account_ok_def funded_db_def sample_defs owners_def keys_of_def ledger_ok_def row_ok_def
      earned_row_def whole_cents_def booking_ok_def held_value_def redemption_ok_def held_in_def balance_def
      balance_in_def net_def booking_customer_def amount_def exI [of _ "10000"] exI [of _ "0"])

lemma funded_member: "member_for sample_env funded_db (sample_user 1) True = Inr (sample_member 11 1 ''LSA-M000011'')"
  by (simp add: member_for_def participant_allowed_def funded_db_def sample_defs)


definition paid_out :: db where
  "paid_out = funded_db \<lparr> db_ledger := [earned_row,
     transfer_row 2 1 11 ''0001'' 0 30 70 TransferOut 12,
     (transfer_row 3 2 12 ''0001-0001'' 30 0 30 TransferIn 11) \<lparr> program_balance_after := 100 \<rparr>] \<rparr>"

lemma exact_30: "exact_amount (PyDec (Fin 30)) = Inr 30"
  using cents_amount [of 3000] by (simp add: exact_amount_def amount_def)

lemma exact_0: "exact_amount (PyDec (Fin 0)) = Inr 0"
  using cents_amount [of 0] by (simp add: exact_amount_def amount_def)

lemmas funded_eval = funded_db_def sample_defs earned_row_def transfer_row_def plain_entry_def get_member_def
  get_user_def row_get_def current_link_def current_links_def current_of_def latest_revision_def
  balance_def balance_in_def net_def program_total_def available_def held_points_def customer_bookings_def
  booking_customer_def held_value_def next_sequence_def new_group_def participant_allowed_def

lemma funded_transfer_work: "transfer_work sample_env (sample_member 11 1 ''LSA-M000011'') ''req'' ''LSA-M000012'' (PyDec (Fin 30)) funded_db =
    Inr (paid_out, PyDict [(''group'', PyInt 2), (''value'', PyDecText 30)])"
  by (simp add: transfer_work_def post_def exact_30 exact_0 create_row_def paid_out_def fits_column_def funded_eval del: One_nat_def)


definition sender_receipt :: member where
  "sender_receipt = sample_member 11 1 ''LSA-M000011'' \<lparr> m_receipts := [(''req'',
     PyDict [(''hash'', PyStr ''p''), (''result'', PyDict [(''group'', PyInt 2), (''value'', PyDecText 30)]),
             (''at'', PyTimeText (Aware 1000))])] \<rparr>"

lemma funded_transfer: "transfer sample_env funded_db (sample_user 1) ''req'' ''LSA-M000012'' (PyDec (Fin 30)) =
    Inr (put_member paid_out sender_receipt, PyDict [(''group'', PyInt 2), (''value'', PyDecText 30)])"
proof -
  have 1: "get_member funded_db 11 = Some (sample_member 11 1 ''LSA-M000011'')"
    "get_member paid_out 11 = Some (sample_member 11 1 ''LSA-M000011'')"
    by (simp_all add: paid_out_def funded_db_def sample_db_def sample_member_def get_member_def row_get_def)
  have 2: "member_id (sample_member 11 1 x) = 11" "m_receipts (sample_member 11 1 x) = []"
    "payload_digest sample_env v = ''p''" "now sample_env = 1000" "loyalty_enabled sample_env"
    "launch_setting sample_env = Some (Aware 0)" for x v
    by (simp_all add: sample_member_def sample_env_def)
  show ?thesis
    by (simp add: transfer_def posting_transaction_def launch_at_def funded_member receipt_def 1 2 dget_def
        funded_transfer_work sender_receipt_def dict_set_def Let_def del: One_nat_def)
qed

subsection \<open>Properties\<close>



text \<open>C5: a transfer that is not a replay moves exactly the requested amount: it is positive, within
  what the sender has available, the recipient is another active member; the ledger gains one
  debit and one credit row, the sender loses and the recipient gains the amount, every other
  balance and the total of the programme stay as they were.\<close>

theorem transfer_conserves:
  assumes "transfer e d u request number value = Inr (d', x)" and "member_for e d u True = Inr s"
    and "get_member d (member_id s) = Some m" and "\<not> truthy (dget (m_receipts m) request)"
  shows "\<exists>n t r1 r2. exact_amount value = Inr n \<and> 0 < n \<and> n \<le> available d s
    \<and> t \<in> set (db_members d) \<and> m_number t = number \<and> m_status t = ActiveMember \<and> member_id t \<noteq> member_id s
    \<and> db_ledger d' = db_ledger d @ [r1, r2] \<and> program_total d' = program_total d
    \<and> (\<forall>k. balance d' k = balance d k
         + (if k = member_id s then - n else if k = member_id t then n else 0))"
proof -
  have "receipt e d (member_id s) request (PyList [PyStr ''transfer'', PyStr number, text_value value])
      (transfer_work e s request number value) = Inr (d', x)"
    using assms(1) by (simp add: transfer_def posting_transaction_Inr assms(2))
  then obtain d1 m1 where w: "transfer_work e s request number value d = Inr (d1, x)"
    and d': "d' = put_member d1 (m1 \<lparr> m_receipts := dict_set request
        (PyDict [(''hash'', PyStr (payload_digest e (PyList [PyStr ''transfer'', PyStr number, text_value value]))), (''result'', x),
                 (''at'', PyTimeText (Aware (now e)))]) (m_receipts m1) \<rparr>)"
    using receipt_fresh [OF _ assms(3,4)] by metis
  show ?thesis
  proof (rule transfer_work_effect [OF w])
    fix n t r1 r2
    assume a: "exact_amount value = Inr n" "0 < n" "n \<le> available d s"
      and t: "find (\<lambda>m. m_number m = number \<and> m_status m = ActiveMember) (db_members d) = Some t"
      and ne: "member_id s \<noteq> member_id t" and L: "d1 = d \<lparr> db_ledger := db_ledger d @ [r1, r2] \<rparr>"
      and B: "\<And>x. balance d1 x = balance d x + (if x = member_id s then - n else if x = member_id t then n else 0)"
      and T: "program_total d1 = program_total d"
    have "program_total d' = program_total d1" by (simp add: d' program_total_def)
    then show ?thesis
      using a find_Some_in [OF t] ne L B T by (intro exI [of _ n] exI [of _ t] exI [of _ r1] exI [of _ r2]) (simp add: d')
  qed
qed

theorem transfer_conserves_witness:
  "program_total (put_member paid_out sender_receipt) = program_total funded_db"
proof -
  have "get_member funded_db (member_id (sample_member 11 1 ''LSA-M000011'')) = Some (sample_member 11 1 ''LSA-M000011'')"
    by (simp add: funded_db_def sample_db_def sample_member_def get_member_def row_get_def)
  moreover have "\<not> truthy (dget (m_receipts (sample_member 11 1 ''LSA-M000011'')) ''req'')"
    by (simp add: sample_member_def dget_def)
  ultimately show ?thesis
    using transfer_conserves [OF funded_transfer funded_member] by blast
qed


subsection \<open>Replays\<close>

definition member_view :: "bool \<Rightarrow> db \<Rightarrow> (nat \<times> nat \<times> bool) list" where
  "member_view act d = map (\<lambda>m. (member_id m, m_customer m, act \<longrightarrow> m_status m = ActiveMember)) (db_members d)"

lemma find_view:
  assumes "map g xs = map g ys" and "\<And>x. P x = Q (g x)"
  shows "map_option g (find P xs) = map_option g (find P ys)"
  using assms(1)
proof (induction xs arbitrary: ys)
  case (Cons x xs)
  then show ?case by (cases ys) (auto simp: assms(2))
qed simp

lemma member_for_view:
  assumes "member_for e d u act = Inr m" and "member_view act d' = member_view act d"
  obtains m' where "member_for e d' u act = Inr m'" "member_id m' = member_id m"
proof -
  let ?g = "\<lambda>m. (member_id m, m_customer m, act \<longrightarrow> m_status m = ActiveMember)"
  let ?P = "\<lambda>m. m_customer m = user_id u \<and> (act \<longrightarrow> m_status m = ActiveMember)"
  have f: "find ?P (db_members d) = Some m"
    using assms(1) by (auto simp: member_for_def split: if_splits)
  have "map_option ?g (find ?P (db_members d')) = map_option ?g (find ?P (db_members d))"
    by (rule find_view [where Q = "\<lambda>(i, c, a). c = user_id u \<and> a"]) (use assms(2) in \<open>auto simp: member_view_def\<close>)
  then obtain m' where "find ?P (db_members d') = Some m'" "member_id m' = member_id m"
    using f by auto
  then show ?thesis
    using that assms(1) by (auto simp: member_for_def split: if_splits)
qed

lemma view_put:
  assumes "distinct (map fst (owners d))" and "get_member d (member_id m) = Some m0"
    and "m_customer m = m_customer m0" and "act \<longrightarrow> m_status m = m_status m0"
  shows "member_view act (put_member d m) = member_view act d"
proof -
  have "x = m0" if "x \<in> set (db_members d)" "member_id x = member_id m" for x
    using owner_unique [OF assms(1) that(1)] that(2) assms(2) by simp
  then show ?thesis
    using assms(3,4) by (auto simp: member_view_def put_member_def row_put_def)
qed

lemma command_replay:
  assumes cmd: "posting_transaction e (bindE (member_for e d u act) (\<lambda>m.
       receipt e d (member_id m) request payload (work m))) = Inr (d', x)"
    and keep: "\<And>m d1 y. m \<in> set (db_members d) \<Longrightarrow> m_customer m = user_id u \<Longrightarrow> work m d = Inr (d1, y) \<Longrightarrow>
      distinct (map fst (owners d1)) \<and> member_view act d1 = member_view act d"
  shows "posting_transaction e (bindE (member_for e d' u act) (\<lambda>m.
       receipt e d' (member_id m) request payload (work m))) = Inr (d', x)"
proof -
  obtain m where m: "member_for e d u act = Inr m" "m \<in> set (db_members d)" "m_customer m = user_id u"
    and r: "receipt e d (member_id m) request payload (work m) = Inr (d', x)"
    using command_found [OF cmd] .
  obtain m0 where m0: "get_member d (member_id m) = Some m0"
    using r by (auto simp: receipt_def bindE_Inr_iff split: if_splits)
  have "member_view act d' = member_view act d"
  proof (cases "truthy (dget (m_receipts m0) request)")
    case True
    then have "d' = d" using r m0 by (auto simp: receipt_def bindE_Inr_iff Let_def split: if_splits)
    then show ?thesis by simp
  next
    case False
    obtain d1 m1 where w: "work m d = Inr (d1, x)" "get_member d1 (member_id m) = Some m1"
      "d' = put_member d1 (m1 \<lparr> m_receipts := dict_set request
        (PyDict [(''hash'', PyStr (payload_digest e payload)), (''result'', x),
                 (''at'', PyTimeText (Aware (now e)))]) (m_receipts m1) \<rparr>)"
      using receipt_fresh [OF r m0 False] .
    have "member_id m1 = member_id m" using member_table.get_key [OF w(2)] .
    then show ?thesis
      using keep [OF m(2,3) w(1)] view_put [of d1 "m1 \<lparr> m_receipts := _ \<rparr>" m1 act] w(2,3) by simp
  qed
  then obtain m' where m': "member_for e d' u act = Inr m'" "member_id m' = member_id m"
    using member_for_view [OF m(1)] by blast
  have "loyalty_enabled e \<and> (\<exists>t. launch_setting e = Some (Aware t))"
    using cmd by (simp add: posting_transaction_Inr)
  then show ?thesis
    using receipt_replay [OF r] m' by (simp add: posting_transaction_Inr)
qed

lemma view_same: "db_members d1 = db_members d \<Longrightarrow> distinct (map fst (owners d)) \<Longrightarrow>
    distinct (map fst (owners d1)) \<and> member_view act d1 = member_view act d"
  by (simp add: owners_def member_view_def)

lemma work_members:
  "transfer_work e m request number value d = Inr (d1, y) \<Longrightarrow> db_members d1 = db_members d"
  "hold_work e u m request n value d = Inr (d1, y) \<Longrightarrow> db_members d1 = db_members d"
  "release_work e u n d = Inr (d1, y) \<Longrightarrow> db_members d1 = db_members d"
  "redeem_work e u m request n d = Inr (d1, y) \<Longrightarrow> db_members d1 = db_members d"
  by (erule transfer_work_effect, simp) (erule hold_work_found, simp,
    auto simp: release_work_def bindE_Inr_iff elim!: redeem_work_found dest: post_appends)

lemma withdraw_view:
  assumes "distinct (map fst (owners d))" and "withdraw_work e u m request operator d = Inr (d1, y)"
  shows "distinct (map fst (owners d1)) \<and> member_view False d1 = member_view False d"
  using assms(2)
proof (cases rule: withdraw_work_found)
  case again
  then show ?thesis using assms(1) by simp
next
  case (fresh v d2 m1)
  have same: "db_members d2 = db_members d" using fresh(4) by (auto dest: post_appends)
  let ?m = "m1 \<lparr> m_status := WithdrawnMember, m_withdrawn_at := Some (now e) \<rparr>"
  have id: "get_member d2 (member_id ?m) = Some m1"
    using fresh(5) member_table.get_key [OF fresh(5)] by simp
  have D: "distinct (map fst (owners d2))" using assms(1) same by (simp add: owners_def)
  have "owners (put_member d2 ?m) = owners d2" "member_view False (put_member d2 ?m) = member_view False d2"
    by (rule owners_put [OF D id], simp, rule view_put [OF D id], simp_all)
  then show ?thesis using D same fresh(8) by (simp add: owners_def member_view_def)
qed

text \<open>C30: every member command is idempotent. Repeating a command with the same reference and the
  same data returns the stored result and leaves the database exactly as it is, so a retried
  transfer, hold, release, redemption or withdrawal never posts twice.\<close>

theorem commands_idempotent:
  assumes "account_ok d"
  shows "(transfer e d u request number value = Inr (d', x) \<longrightarrow> transfer e d' u request number value = Inr (d', x))
    \<and> (hold e d u request n value = Inr (d', x) \<longrightarrow> hold e d' u request n value = Inr (d', x))
    \<and> (release e d u request n = Inr (d', x) \<longrightarrow> release e d' u request n = Inr (d', x))
    \<and> (redeem e d u request n = Inr (d', x) \<longrightarrow> redeem e d' u request n = Inr (d', x))
    \<and> (withdraw e d u request operator = Inr (d', x) \<longrightarrow> withdraw e d' u request operator = Inr (d', x))"
proof -
  have D: "distinct (map fst (owners d))" using assms by (simp add: account_ok_def)
  note V = view_same [OF _ D]
  show ?thesis
    unfolding command_defs
    by (intro conjI impI; erule command_replay; (rule V, erule work_members | rule withdraw_view [OF D], assumption))
qed

theorem commands_idempotent_witness:
  "transfer sample_env (put_member paid_out sender_receipt) (sample_user 1) ''req'' ''LSA-M000012'' (PyDec (Fin 30)) =
    Inr (put_member paid_out sender_receipt, PyDict [(''group'', PyInt 2), (''value'', PyDecText 30)])"
  using commands_idempotent [OF funded_ok] funded_transfer by blast

text \<open>Redeeming spends exactly the points held. The first redemption of a booking debits the held
  amount in one new ledger row, clears the hold and records the amount as spent and not yet
  restored; the available points of the member, as the guest sees them, do not change, so held
  points are neither spent twice nor lost.\<close>

lemma redeem_keeps_available:
  assumes "account_ok d" and "m \<in> set (db_members d)" and "m_customer m = user_id u"
    and "redeem_work e u m request n d = Inr (d', x)" and "get_booking d n = Some b"
    and "ls_redemption (bk_loyalty b) = None"
  shows "\<exists>h row. ls_hold (bk_loyalty b) = Some h \<and> h_member h = member_id m \<and> debit row = h_value h
    \<and> db_ledger d' = db_ledger d @ [row] \<and> get_booking d' n = Some (redeemed h (sequence row) b)
    \<and> available d' m = available d m"
  using assms(4)
proof (cases rule: redeem_work_found)
  case again
  obtain b' where "member_booking e d u n = Inr b'" using assms(4) by (auto simp: redeem_work_def bindE_Inr_iff)
  then have b': "member_booking e d u n = Inr b" using member_booking_found assms(5) by force
  obtain h where "ls_hold (bk_loyalty b) = Some h" "h_member h = member_id m" "bk_status b \<in> set active_statuses"
    using assms(4) by (auto simp: redeem_work_def b' assms(6) split: option.splits if_splits)
  moreover obtain row where "db_ledger d' = db_ledger d @ [row]"
    using assms(4) calculation
    by (auto simp: redeem_work_def b' assms(6) Let_def bindE_Inr_iff dest!: post_appends)
  ultimately show ?thesis using again by simp
next
  case (fresh b' h d1 row)
  have b: "b' = b" using fresh(1) assms(5) by simp
  obtain en grp where p: "post e (save_loyalty d b (\<lambda>s. s \<lparr> ls_hold := None \<rparr>)) (member_id m) grp 1 0 (h_value h) True en = Inr (d1, row)"
    using fresh(7) b by blast
  note E = redeem_effect [OF assms(1) fresh(1,4) [unfolded b] p fresh(8) [unfolded b]]
  have "get_booking d' n = Some (redeemed h (sequence row) b)"
    using row_get_put_same [of bk_id "db_bookings d" "redeemed h (sequence row) b" b] assms(5)
      get_booking_in [OF assms(5)] by (simp add: get_booking_def E(5) redeemed_def)
  moreover have "available d' m = available d m"
    using E(4) [of "member_id m"] E(6) [of "m_customer m"] fresh(2) assms(3) b by (simp add: available_in)
  ultimately show ?thesis
    using fresh(4,5) b E(1,2) by (intro exI [of _ h] exI [of _ row]) simp
qed

definition held_booking :: booking where
  "held_booking = sample_booking \<lparr> bk_loyalty := blank_loyalty \<lparr> ls_hold := Some
     \<lparr> h_value = 30, h_member = 11, h_request = ''held'' \<rparr> \<rparr> \<rparr>"

definition holding_db :: db where
  "holding_db = funded_db \<lparr> db_bookings := [held_booking] \<rparr>"

lemma holding_ok: "account_ok holding_db"
  by (simp add: account_ok_def holding_db_def held_booking_def funded_db_def sample_defs owners_def keys_of_def ledger_ok_def row_ok_def
      earned_row_def whole_cents_def booking_ok_def held_value_def redemption_ok_def held_in_def balance_def
      balance_in_def net_def booking_customer_def amount_def exI [of _ "10000"] exI [of _ "0"] exI [of _ "3000"])

lemma holding_redeem: "\<exists>d' x. redeem_work sample_env (sample_user 1) (sample_member 11 1 ''LSA-M000011'') ''spend'' 70 holding_db = Inr (d', x)"
  by (simp add: redeem_work_def member_booking_def booking_allowed_def historical_award_allowed_def launch_at_def
      post_def exact_30 exact_0 create_row_def fits_column_def holding_db_def held_booking_def
      get_booking_def save_loyalty_def put_booking_def row_put_def active_statuses_def funded_eval del: One_nat_def)

lemma redeem_keeps_available_at:
  "\<exists>d' x. redeem_work sample_env (sample_user 1) (sample_member 11 1 ''LSA-M000011'') ''spend'' 70 holding_db = Inr (d', x)
    \<and> available d' (sample_member 11 1 ''LSA-M000011'') = available holding_db (sample_member 11 1 ''LSA-M000011'')"
proof -
  obtain d' x where w: "redeem_work sample_env (sample_user 1) (sample_member 11 1 ''LSA-M000011'') ''spend'' 70 holding_db = Inr (d', x)"
    using holding_redeem by blast
  have m: "sample_member 11 1 ''LSA-M000011'' \<in> set (db_members holding_db)"
    "m_customer (sample_member 11 1 ''LSA-M000011'') = user_id (sample_user 1)"
    by (simp_all add: holding_db_def funded_db_def sample_db_def sample_member_def sample_user_def)
  have b: "get_booking holding_db 70 = Some held_booking" "ls_redemption (bk_loyalty held_booking) = None"
    by (simp_all add: holding_db_def held_booking_def get_booking_def row_get_def sample_booking_def blank_loyalty_def)
  show ?thesis
    using redeem_keeps_available [OF holding_ok m w b] w by blast
qed

end
