(* ===== verification/Reconcile.thy ===== *)
theory Reconcile
  imports Accounts
begin

section \<open>Settling a stay (apps/loyalty/services.py: reconcile)\<close>

text \<open>
  The reward of a stay as postings: the verified facts give a plan, and every member of the
  plan is credited or corrected by the difference to what the ledger already awards for the
  booking. Also the attachment of a paid booking to the account of its verified mobile
  (apps/accounts/identity.py), which runs first.
\<close>

subsection \<open>The account of a paid booking\<close>

definition paid_sar :: "env \<Rightarrow> intent \<Rightarrow> rat" where
  "paid_sar e i = sum_list (map pa_amount (filter (\<lambda>p. pa_status p = PaSucceeded
     \<and> (case pa_verified_at p of None \<Rightarrow> False | Some t \<Rightarrow> t \<le> now e)
     \<and> pa_currency p = ''SAR'' \<and> 0 < pa_amount p \<and> pa_provider_id p \<noteq> Some []) (in_payments i)))"

definition phone_binding :: "db \<Rightarrow> booking \<Rightarrow> string \<Rightarrow> phone option" where
  "phone_binding d b number = find (\<lambda>p. ph_number p = number \<and> ph_verified_at p \<le> bk_created_at b
     \<and> (case get_user d (ph_user p) of None \<Rightarrow> False | Some u \<Rightarrow> u_active u)
     \<and> (case member_of_customer d (ph_user p) of None \<Rightarrow> False | Some m \<Rightarrow> m_status m = ActiveMember))
     (db_phones d)"

text \<open>The new database, and the booking as the caller's object holds it afterwards.\<close>

definition attach_binding :: "env \<Rightarrow> db \<Rightarrow> booking \<Rightarrow> intent \<Rightarrow> string \<Rightarrow> (db \<times> booking) res" where
  "attach_binding e d b i number =
     (case phone_binding d b number of
        None \<Rightarrow> Inr (d, b)
      | Some p \<Rightarrow>
          if \<not> participant_allowed e (get_user d (ph_user p)) then Inr (d, b)
          else (case in_payment_sar i of
             None \<Rightarrow> Inl (TypeError ''payment_amount_sar'')
           | Some due \<Rightarrow>
               if due \<le> 0 \<or> paid_sar e i < due then Inr (d, b)
               else let b' = b \<lparr> bk_intent := Some (i \<lparr> in_customer := Some (ph_user p) \<rparr>) \<rparr>
                    in Inr (put_booking d b', b' \<lparr> bk_loyalty := (bk_loyalty b')
                              \<lparr> ls_identity := Some (ph_user p, ph_id p) \<rparr> \<rparr>)))"

definition attach_paid_phone_account :: "env \<Rightarrow> db \<Rightarrow> booking \<Rightarrow> (db \<times> booking) res" where
  "attach_paid_phone_account e d b =
     (case bk_intent b of
        None \<Rightarrow> Inr (d, b)
      | Some i \<Rightarrow>
          if in_customer i \<noteq> None \<or> bk_source b \<noteq> DirectWebsite \<or> bk_status b \<notin> set active_statuses
          then Inr (d, b)
          else bindE (launch_at e) (\<lambda>launch.
            if bk_created_at b < launch
               \<or> (pilot_setting e \<and> bk_reference b \<notin> set (pilot_references e))
            then Inr (d, b)
            else (case normal_phone e (in_phone i) of
                    None \<Rightarrow> Inr (d, b)
                  | Some number \<Rightarrow> attach_binding e d b i number)))"

subsection \<open>Posting the plan\<close>

definition award_rows :: "db \<Rightarrow> nat \<Rightarrow> nat \<Rightarrow> component \<Rightarrow> ledger_row list" where
  "award_rows d n k kind = filter (\<lambda>r. e_reservation (row_entry r) = Some n \<and> row_member r = k
     \<and> e_component (row_entry r) = kind \<and> e_event (row_entry r) \<in> {EarnEvent, AdjustEvent})
     (db_ledger d)"

definition awarded :: "db \<Rightarrow> nat \<Rightarrow> nat \<Rightarrow> component \<Rightarrow> rat" where
  "awarded d n k kind = sum_list (map net (award_rows d n k kind))"

definition first_earn :: "db \<Rightarrow> nat \<Rightarrow> nat \<Rightarrow> component \<Rightarrow> ledger_row option" where
  "first_earn d n k kind = find (\<lambda>r. e_event (row_entry r) = EarnEvent) (award_rows d n k kind)"

definition plan_target :: "member \<Rightarrow> nat plan_row \<Rightarrow> rat" where
  "plan_target m p = (if m_status m = ActiveMember then amount (pr_cents p) else 0)"

definition settle_entry ::
    "nat \<Rightarrow> nat \<Rightarrow> facts \<Rightarrow> nat plan_row \<Rightarrow> ledger_row option \<Rightarrow> event_type \<Rightarrow> entry" where
  "settle_entry n revision_no f p original ev = \<lparr> e_event = ev, e_component = pr_kind p,
     e_reference = SettleRef n revision_no, e_request = [], e_reservation = Some n,
     e_original = map_option sequence original, e_counterpart = None, e_plan = Some p,
     e_facts = Some f \<rparr>"

fun settle_rows ::
    "env \<Rightarrow> nat \<Rightarrow> nat \<Rightarrow> facts \<Rightarrow> nat \<Rightarrow> nat plan_row list \<Rightarrow> nat \<Rightarrow> db \<Rightarrow> (db \<times> nat) res" where
  "settle_rows e n revision_no f grp [] branch d = Inr (d, branch)"
| "settle_rows e n revision_no f grp (p # ps) branch d =
     bindE (of_option (DoesNotExist ''member'') (get_member d (pr_member p))) (\<lambda>m.
     let target = plan_target m p;
         current = awarded d n (pr_member p) (pr_kind p);
         original = first_earn d n (pr_member p) (pr_kind p)
     in if current < target then
          bindE (post e d (pr_member p) grp (Suc branch) (target - current) 0 False
                   (settle_entry n revision_no f p original (if original = None then EarnEvent else AdjustEvent)))
            (\<lambda>(d', row). settle_rows e n revision_no f grp ps (Suc branch) d')
        else if target < current then
          (if original = None then Inl (ValidationError ''original_required'')
           else bindE (post e d (pr_member p) grp (Suc branch) 0 (current - target) True
                   (settle_entry n revision_no f p original AdjustEvent))
             (\<lambda>(d', row). settle_rows e n revision_no f grp ps (Suc branch) d'))
        else settle_rows e n revision_no f grp ps branch d)"

subsection \<open>Reconciling a booking\<close>

record outcome =
  oc_status :: string
  oc_movements :: nat
  oc_base :: "rat option"

definition no_movement :: "string \<Rightarrow> outcome" where
  "no_movement s = \<lparr> oc_status = s, oc_movements = 0, oc_base = None \<rparr>"

text \<open>The owner: the beneficiary of an offer, or the account of the booking.\<close>

definition settle_owner :: "db \<Rightarrow> booking \<Rightarrow> facts \<Rightarrow> member res" where
  "settle_owner d b f = of_option (DoesNotExist ''member'')
     (Option.bind (case f_offer f of Some offer \<Rightarrow> Some (of_beneficiary offer) | None \<Rightarrow> booking_customer b)
       (member_of_customer d))"

definition settle_chain :: "db \<Rightarrow> booking \<Rightarrow> facts \<Rightarrow> nat \<Rightarrow> nat list res" where
  "settle_chain d b f owner =
     (if f_offer f \<noteq> None then Inr []
      else (case ls_chain (bk_loyalty b) of
              None \<Rightarrow> ancestors d owner
            | Some ks \<Rightarrow>
                if \<not> distinct ks \<or> \<not> list_all (\<lambda>k. get_member d k \<noteq> None) ks \<or> owner \<in> set ks
                then Inl (ValidationError ''chain_incomplete'') else Inr ks))"

definition with_scheduled :: "facts \<Rightarrow> booking \<Rightarrow> booking" where
  "with_scheduled f b = (case f_accrual f of None \<Rightarrow> b
     | Some s \<Rightarrow> b \<lparr> bk_loyalty := (bk_loyalty b) \<lparr> ls_scheduled := Some s \<rparr> \<rparr>)"

definition settle_facts :: "env \<Rightarrow> db \<Rightarrow> booking \<Rightarrow> facts \<Rightarrow> (db \<times> outcome) res" where
  "settle_facts e d b f =
     bindE (settle_owner d b f) (\<lambda>owner.
     bindE (settle_chain d b f (member_id owner)) (\<lambda>chain.
     let key = facts_digest e f; previous = ls_settlement (bk_loyalty b) in
     if map_option se_hash previous = Some key then Inr (d, no_movement ''unchanged'')
     else
       let revision_no = (case previous of None \<Rightarrow> 0 | Some s \<Rightarrow> se_revision s) + 1 in
       bindE (reward_plan (PyDecText (f_base f)) (member_id owner) chain) (\<lambda>plan.
       bindE (settle_rows e (bk_id b) revision_no f (new_group d) plan 0 d) (\<lambda>(d', branch).
         Inr (save_loyalty d' b (\<lambda>s. s \<lparr> ls_review := None,
                ls_settlement := Some \<lparr> se_revision = revision_no, se_hash = key, se_facts = f \<rparr>,
                ls_chain := Some chain \<rparr>),
              \<lparr> oc_status = ''settled'', oc_movements = branch, oc_base = Some (f_base f) \<rparr>)))))"

definition reconcile :: "env \<Rightarrow> db \<Rightarrow> nat \<Rightarrow> (db \<times> outcome) res" where
  "reconcile e d n =
     (if \<not> loyalty_enabled e then Inr (d, no_movement ''disabled'')
      else posting_transaction e
       (bindE (of_option (DoesNotExist ''reservation'') (get_booking d n)) (\<lambda>b0.
        bindE (attach_paid_phone_account e d b0) (\<lambda>(d1, b).
        if \<not> booking_allowed e d1 b then Inr (d1, no_movement ''outside_pilot_scope'')
        else bindE (booking_facts e d1 b False) (\<lambda>r.
          case r of
            Inl blocker \<Rightarrow> Inr (save_loyalty d1 b (\<lambda>s. s \<lparr> ls_review := Some blocker \<rparr>), no_movement blocker)
          | Inr f \<Rightarrow> settle_facts e d1 (with_scheduled f b) f)))))"


subsection \<open>What the postings do\<close>

definition plan_key :: "nat plan_row \<Rightarrow> nat \<times> component" where
  "plan_key p = (pr_member p, pr_kind p)"

lemma award_whole: "ledger_ok (db_ledger d) \<Longrightarrow> whole_cents (awarded d n k kind)"
proof -
  have "ledger_ok rows \<Longrightarrow> whole_cents (sum_list (map net (filter P rows)))" for rows P
    by (induction rows rule: rev_induct) (auto simp: ledger_ok_snoc row_ok_def net_def whole_cents_0)
  then show "ledger_ok (db_ledger d) \<Longrightarrow> whole_cents (awarded d n k kind)"
    by (simp add: awarded_def award_rows_def)
qed

lemma plan_target_whole: "whole_cents (plan_target m p)"
  by (simp add: plan_target_def whole_cents_0) (auto simp: whole_cents_def)

lemma post_entry:
  "post e d k grp branch rc rd neg en = Inr (d', r) \<Longrightarrow> row_entry r = en \<and> row_member r = k"
  by (erule post_found) simp

lemma awarded_post:
  assumes p: "post e d (pr_member p) grp branch rc rd neg (settle_entry n revision_no f p original ev) = Inr (d', r)"
    and ev: "ev \<in> {EarnEvent, AdjustEvent}"
  shows "awarded d' n k kind = awarded d n k kind
    + (if (k, kind) = plan_key p then credit r - debit r else 0)"
  using post_entry [OF p] ev
  by (auto simp: awarded_def award_rows_def post_appends [OF p] settle_entry_def plan_key_def net_def)

text \<open>One row of the plan: nothing, a credit or a correction, which brings the award to its target.\<close>

lemma settle_rows_step:
  assumes "settle_rows e n revision_no f grp (p # ps) branch d = Inr (d2, out)" and ok: "ledger_ok (db_ledger d)"
  obtains m d1 branch' new where "get_member d (pr_member p) = Some m" "settle_rows e n revision_no f grp ps branch' d1 = Inr (d2, out)"
    "d1 = d \<lparr> db_ledger := db_ledger d @ new \<rparr>" "branch' = branch + length new" "ledger_ok (db_ledger d1)"
    "\<And>k kind. awarded d1 n k kind = (if (k, kind) = plan_key p then plan_target m p else awarded d n k kind)"
    "\<And>k. balance d1 k = balance d k + (if k = pr_member p then plan_target m p - awarded d n k (pr_kind p) else 0)"
    "\<forall>r \<in> set new. row_member r = pr_member p \<and> e_reservation (row_entry r) = Some n"
proof -
  note result = that
  obtain m where m: "get_member d (pr_member p) = Some m"
    using assms(1) by (auto simp: bindE_Inr_iff)
  let ?t = "plan_target m p" and ?c = "awarded d n (pr_member p) (pr_kind p)"
  let ?o = "first_earn d n (pr_member p) (pr_kind p)"
  have wc: "whole_cents ?c" by (rule award_whole [OF ok])
  have wt: "whole_cents ?t" by (rule plan_target_whole)
  have post_case: thesis
    if p1: "post e d (pr_member p) grp (Suc branch) rc rd neg (settle_entry n revision_no f p ?o ev) = Inr (d1, row)"
      and rest: "settle_rows e n revision_no f grp ps (Suc branch) d1 = Inr (d2, out)"
      and w: "whole_cents rc" "whole_cents rd" "rc - rd = ?t - ?c" and ev: "ev \<in> {EarnEvent, AdjustEvent}"
    for d1 row rc rd neg ev
  proof (rule result [OF m rest post_appends [OF p1]])
    have cr: "credit row = rc \<and> debit row = rd" by (rule post_whole [OF p1 w(1,2)])
    show "Suc branch = branch + length [row]" by simp
    show "ledger_ok (db_ledger d1)" by (rule post_ledger_ok [OF p1 ok])
    show "awarded d1 n k kind = (if (k, kind) = plan_key p then ?t else awarded d n k kind)" for k kind
      using awarded_post [OF p1 ev, of k kind] cr w(3) by (auto simp: plan_key_def)
    show "balance d1 k = balance d k + (if k = pr_member p then ?t - awarded d n k (pr_kind p) else 0)" for k
      using post_balance(1) [OF p1, of k] cr w(3) by auto
    show "\<forall>r \<in> set [row]. row_member r = pr_member p \<and> e_reservation (row_entry r) = Some n"
      using post_entry [OF p1] by (simp add: settle_entry_def)
  qed
  consider "?c < ?t" | "?t < ?c" | "?t = ?c" by linarith
  then show thesis
  proof cases
    case 1
    then obtain d1 row where "post e d (pr_member p) grp (Suc branch) (?t - ?c) 0 False
        (settle_entry n revision_no f p ?o (if ?o = None then EarnEvent else AdjustEvent)) = Inr (d1, row)"
      "settle_rows e n revision_no f grp ps (Suc branch) d1 = Inr (d2, out)"
      using assms(1) by (auto simp: m Let_def bindE_Inr_iff)
    then show thesis by (rule post_case) (use wc wt in \<open>simp_all add: whole_cents_0\<close>)
  next
    case 2
    then obtain d1 row where "post e d (pr_member p) grp (Suc branch) 0 (?c - ?t) True
        (settle_entry n revision_no f p ?o AdjustEvent) = Inr (d1, row)"
      "settle_rows e n revision_no f grp ps (Suc branch) d1 = Inr (d2, out)"
      using assms(1) by (auto simp: m Let_def bindE_Inr_iff split: if_splits)
    then show thesis by (rule post_case) (use wc wt in \<open>simp_all add: whole_cents_0\<close>)
  next
    case 3
    show thesis
    proof (rule result [OF m, of branch d "[]"])
      show "settle_rows e n revision_no f grp ps branch d = Inr (d2, out)"
        using assms(1) 3 by (simp add: m)
    qed (use 3 ok in \<open>auto simp: plan_key_def\<close>)
  qed
qed

lemma awarded_ledger: "awarded (d \<lparr> db_members := ms \<rparr>) = awarded d"
  by (intro ext) (simp add: awarded_def award_rows_def)

lemma settle_rows_effect:
  assumes "settle_rows e n revision_no f grp ps branch d = Inr (d2, out)" and "ledger_ok (db_ledger d)"
    and "distinct (map plan_key ps)"
  shows "ledger_ok (db_ledger d2) \<and> (\<exists>new. d2 = d \<lparr> db_ledger := db_ledger d @ new \<rparr> \<and> out = branch + length new
      \<and> (\<forall>r \<in> set new. row_member r \<in> pr_member ` set ps \<and> e_reservation (row_entry r) = Some n))
    \<and> (\<forall>p \<in> set ps. \<exists>m. get_member d (pr_member p) = Some m \<and> awarded d2 n (pr_member p) (pr_kind p) = plan_target m p)
    \<and> (\<forall>k kind. (k, kind) \<notin> plan_key ` set ps \<longrightarrow> awarded d2 n k kind = awarded d n k kind)
    \<and> (\<forall>k. k \<notin> pr_member ` set ps \<longrightarrow> balance d2 k = balance d k)"
  using assms
proof (induction ps arbitrary: branch d)
  case Nil
  then show ?case by (auto intro!: exI [of _ "[]"])
next
  case (Cons p ps)
  show ?case
  proof (rule settle_rows_step [OF Cons.prems(1,2)])
    fix m d1 branch' new
    assume m: "get_member d (pr_member p) = Some m" and rest: "settle_rows e n revision_no f grp ps branch' d1 = Inr (d2, out)"
      and d1: "d1 = d \<lparr> db_ledger := db_ledger d @ new \<rparr>" and br: "branch' = branch + length new" and ok1: "ledger_ok (db_ledger d1)"
      and A: "\<And>k kind. awarded d1 n k kind = (if (k, kind) = plan_key p then plan_target m p else awarded d n k kind)"
      and B: "\<And>k. balance d1 k = balance d k + (if k = pr_member p then plan_target m p - awarded d n k (pr_kind p) else 0)"
      and N: "\<forall>r \<in> set new. row_member r = pr_member p \<and> e_reservation (row_entry r) = Some n"
    have ds: "distinct (map plan_key ps)" and np: "plan_key p \<notin> plan_key ` set ps"
      using Cons.prems(3) by auto
    note IH = Cons.IH [OF rest ok1 ds]
    obtain new2 where new2: "d2 = d1 \<lparr> db_ledger := db_ledger d1 @ new2 \<rparr>" "out = branch' + length new2"
      "\<forall>r \<in> set new2. row_member r \<in> pr_member ` set ps \<and> e_reservation (row_entry r) = Some n"
      using IH by blast
    have gm: "get_member d1 = get_member d" by (intro ext) (simp add: d1 get_member_def)
    have "awarded d2 n (pr_member p) (pr_kind p) = plan_target m p"
      using IH np A [of "pr_member p" "pr_kind p"] by (simp add: plan_key_def)
    then have targets: "\<forall>q \<in> set (p # ps). \<exists>m. get_member d (pr_member q) = Some m \<and> awarded d2 n (pr_member q) (pr_kind q) = plan_target m q"
      using IH m gm by auto
    show ?thesis
    proof (intro conjI)
      show "ledger_ok (db_ledger d2)" using IH by blast
      show "\<exists>new. d2 = d \<lparr> db_ledger := db_ledger d @ new \<rparr> \<and> out = branch + length new
        \<and> (\<forall>r \<in> set new. row_member r \<in> pr_member ` set (p # ps) \<and> e_reservation (row_entry r) = Some n)"
        by (rule exI [of _ "new @ new2"]) (use new2 N d1 br in auto)
      show "\<forall>q \<in> set (p # ps). \<exists>m. get_member d (pr_member q) = Some m \<and> awarded d2 n (pr_member q) (pr_kind q) = plan_target m q"
        by (rule targets)
      show "\<forall>k kind. (k, kind) \<notin> plan_key ` set (p # ps) \<longrightarrow> awarded d2 n k kind = awarded d n k kind"
        using IH A by auto
      show "\<forall>k. k \<notin> pr_member ` set (p # ps) \<longrightarrow> balance d2 k = balance d k"
        using IH B by auto
    qed
  qed
qed


subsection \<open>The plan names each member and component once\<close>

lemma ancestors_loop_distinct:
  "ancestors_loop links row seen result = Inr out \<Longrightarrow> distinct result \<Longrightarrow> set result \<subseteq> set seen \<Longrightarrow>
    distinct out \<and> set out \<inter> (set seen - set result) = {}"
proof (induction links row seen result rule: ancestors_loop.induct)
  case (1 links row seen result)
  show ?case
  proof (cases "ln_inviter row")
    case None
    then show ?thesis using "1.prems" by (auto simp: ancestors_loop.simps)
  next
    case (Some p)
    then have p: "p \<notin> set seen" using "1.prems"(1) by (auto simp: ancestors_loop.simps split: if_splits)
    obtain up where up: "row_get ln_member links p = Some up"
      using "1.prems"(1) Some p by (auto simp: ancestors_loop.simps split: option.splits)
    have rec: "ancestors_loop links up (p # seen) (result @ [p]) = Inr out"
      using "1.prems"(1) Some p up by (simp add: ancestors_loop.simps [of links row])
    have "distinct out \<and> set out \<inter> (set (p # seen) - set (result @ [p])) = {}"
      using "1.IH" [OF Some p up rec] "1.prems"(2,3) p by auto
    then show ?thesis using p by auto
  qed
qed

lemma ancestors_distinct: "ancestors d k = Inr chain \<Longrightarrow> distinct (k # chain)"
  unfolding ancestors_def bindE_Inr_iff
  by (elim exE conjE) (drule ancestors_loop_distinct, auto)

lemma settle_chain_distinct: "settle_chain d b f k = Inr chain \<Longrightarrow> distinct (k # chain)"
  by (auto simp: settle_chain_def dest: ancestors_distinct split: if_splits option.splits)

lemma map_enumerate_fst: "map (\<lambda>(i, m). g m) (enumerate n xs) = map g xs"
  by (induction xs arbitrary: n) auto

lemma indirect_rows_keys: "map plan_key (indirect_rows v older) = map (\<lambda>m. (m, IndirectReferral)) older"
proof -
  have "map plan_key (indirect_rows v older) = map (\<lambda>(i, m). (m, IndirectReferral)) (enumerate 0 older)"
    by (auto simp: indirect_rows_def Let_def plan_key_def)
  then show ?thesis by (simp add: map_enumerate_fst)
qed

lemma reward_plan_keys:
  assumes "reward_plan base owner chain = Inr plan"
  shows "map plan_key plan = (owner, Loyalty) # (case chain of [] \<Rightarrow> []
    | a # older \<Rightarrow> (a, DirectReferral) # map (\<lambda>m. (m, IndirectReferral)) older)"
  using assms by (cases chain) (auto simp: reward_plan_def bindE_Inr_iff indirect_rows_keys plan_key_def)

lemma plan_keys_distinct:
  assumes "reward_plan base owner chain = Inr plan" and "distinct (owner # chain)"
  shows "distinct (map plan_key plan)" and "pr_member ` set plan = set (owner # chain)"
proof -
  have k: "map plan_key plan = (owner, Loyalty) # (case chain of [] \<Rightarrow> []
    | a # older \<Rightarrow> (a, DirectReferral) # map (\<lambda>m. (m, IndirectReferral)) older)"
    by (rule reward_plan_keys [OF assms(1)])
  show "distinct (map plan_key plan)"
    unfolding k using assms(2) by (auto simp: distinct_map inj_on_def split: list.splits)
  have "pr_member ` set plan = fst ` set (map plan_key plan)" by (auto simp: plan_key_def image_image)
  then show "pr_member ` set plan = set (owner # chain)"
    unfolding k by (cases chain) (auto simp: image_image)
qed

subsection \<open>A settled booking\<close>

lemma attach_fields:
  assumes "attach_paid_phone_account e d b = Inr (d1, b1)"
  shows "bk_id b1 = bk_id b \<and> db_ledger d1 = db_ledger d \<and> db_members d1 = db_members d \<and> db_users d1 = db_users d
    \<and> db_referrals d1 = db_referrals d \<and> db_revisions d1 = db_revisions d
    \<and> (d1 = d \<or> d1 = put_booking d (b \<lparr> bk_intent := bk_intent b1 \<rparr>))
    \<and> b1 = b \<lparr> bk_intent := bk_intent b1, bk_loyalty := (bk_loyalty b) \<lparr> ls_identity := ls_identity (bk_loyalty b1) \<rparr> \<rparr>"
  using assms
  by (auto simp: attach_paid_phone_account_def attach_binding_def bindE_Inr_iff Let_def
      split: option.splits if_splits)

lemma settle_facts_found:
  assumes "settle_facts e d b f = Inr (d', oc)"
  obtains owner chain where "settle_owner d b f = Inr owner" "settle_chain d b f (member_id owner) = Inr chain"
    "map_option se_hash (ls_settlement (bk_loyalty b)) = Some (facts_digest e f) \<Longrightarrow> d' = d \<and> oc = no_movement ''unchanged''"
    "map_option se_hash (ls_settlement (bk_loyalty b)) \<noteq> Some (facts_digest e f) \<Longrightarrow>
      \<exists>plan d1 branch rev_no. reward_plan (PyDecText (f_base f)) (member_id owner) chain = Inr plan
        \<and> settle_rows e (bk_id b) rev_no f (new_group d) plan 0 d = Inr (d1, branch)
        \<and> d' = save_loyalty d1 b (\<lambda>s. s \<lparr> ls_review := None,
             ls_settlement := Some \<lparr> se_revision = rev_no, se_hash = facts_digest e f, se_facts = f \<rparr>, ls_chain := Some chain \<rparr>)
        \<and> oc = \<lparr> oc_status = ''settled'', oc_movements = branch, oc_base = Some (f_base f) \<rparr>"
proof -
  obtain owner where o1: "settle_owner d b f = Inr owner"
    using assms by (auto simp: settle_facts_def bindE_Inr_iff)
  obtain chain where c: "settle_chain d b f (member_id owner) = Inr chain"
    using assms by (auto simp: settle_facts_def bindE_Inr_iff o1)
  have r: "(if map_option se_hash (ls_settlement (bk_loyalty b)) = Some (facts_digest e f) then Inr (d, no_movement ''unchanged'')
     else
       bindE (reward_plan (PyDecText (f_base f)) (member_id owner) chain) (\<lambda>plan.
       bindE (settle_rows e (bk_id b) ((case ls_settlement (bk_loyalty b) of None \<Rightarrow> 0 | Some s \<Rightarrow> se_revision s) + 1) f (new_group d) plan 0 d) (\<lambda>(d', branch).
         Inr (save_loyalty d' b (\<lambda>s. s \<lparr> ls_review := None,
                ls_settlement := Some \<lparr> se_revision = (case ls_settlement (bk_loyalty b) of None \<Rightarrow> 0 | Some s \<Rightarrow> se_revision s) + 1,
                  se_hash = facts_digest e f, se_facts = f \<rparr>,
                ls_chain := Some chain \<rparr>),
              \<lparr> oc_status = ''settled'', oc_movements = branch, oc_base = Some (f_base f) \<rparr>)))) = Inr (d', oc)"
    using assms by (simp only: settle_facts_def o1 c bindE.simps Let_def)
  show ?thesis
  proof (rule that [OF o1 c])
    show "map_option se_hash (ls_settlement (bk_loyalty b)) = Some (facts_digest e f) \<Longrightarrow> d' = d \<and> oc = no_movement ''unchanged''"
      using r by simp
  next
    assume ne: "map_option se_hash (ls_settlement (bk_loyalty b)) \<noteq> Some (facts_digest e f)"
    show "\<exists>plan d1 branch rev_no. reward_plan (PyDecText (f_base f)) (member_id owner) chain = Inr plan
        \<and> settle_rows e (bk_id b) rev_no f (new_group d) plan 0 d = Inr (d1, branch)
        \<and> d' = save_loyalty d1 b (\<lambda>s. s \<lparr> ls_review := None,
             ls_settlement := Some \<lparr> se_revision = rev_no, se_hash = facts_digest e f, se_facts = f \<rparr>, ls_chain := Some chain \<rparr>)
        \<and> oc = \<lparr> oc_status = ''settled'', oc_movements = branch, oc_base = Some (f_base f) \<rparr>"
      using r unfolding if_not_P [OF ne] bindE_Inr_iff by (auto simp del: One_nat_def)
  qed
qed

lemma reconcile_found:
  assumes "reconcile e d n = Inr (d', oc)" and "oc_base oc \<noteq> None"
  obtains b d1 b1 f where "loyalty_enabled e" "\<exists>t. launch_setting e = Some (Aware t)" "get_booking d n = Some b"
    "attach_paid_phone_account e d b = Inr (d1, b1)"
    "booking_allowed e d1 b1" "booking_facts e d1 b1 False = Inr (Inr f)"
    "settle_facts e d1 (with_scheduled f b1) f = Inr (d', oc)"
proof -
  have en: "loyalty_enabled e" using assms by (auto simp: reconcile_def no_movement_def split: if_splits)
  obtain b where b: "get_booking d n = Some b"
    using assms(1) en by (auto simp: reconcile_def posting_transaction_Inr bindE_Inr_iff)
  obtain d1 b1 where a: "attach_paid_phone_account e d b = Inr (d1, b1)"
    using assms(1) en b by (auto simp: reconcile_def posting_transaction_Inr bindE_Inr_iff)
  have al: "booking_allowed e d1 b1"
    using assms en b a by (auto simp: reconcile_def posting_transaction_Inr no_movement_def split: if_splits)
  obtain r where r: "booking_facts e d1 b1 False = Inr r"
    using assms(1) en b a al by (auto simp: reconcile_def posting_transaction_Inr bindE_Inr_iff)
  obtain f where f: "booking_facts e d1 b1 False = Inr (Inr f)"
    using assms en b a al r
    by (cases r) (auto simp: reconcile_def posting_transaction_Inr no_movement_def)
  have "settle_facts e d1 (with_scheduled f b1) f = Inr (d', oc)"
    using assms(1) en b a al f by (simp add: reconcile_def posting_transaction_Inr)
  then show ?thesis using that en b a al f assms(1) by (auto simp: reconcile_def posting_transaction_Inr)
qed

lemma with_scheduled_fields [simp]: "bk_id (with_scheduled f b) = bk_id b" "bk_intent (with_scheduled f b) = bk_intent b"
  by (simp_all add: with_scheduled_def split: option.splits)


lemma awarded_save [simp]: "awarded (save_loyalty d b f) n k kind = awarded d n k kind"
  by (simp add: awarded_def award_rows_def)

lemma awarded_cong: "db_ledger d' = db_ledger d \<Longrightarrow> awarded d' n k kind = awarded d n k kind"
  by (simp add: awarded_def award_rows_def)

lemma settled_effect:
  assumes "settle_facts e d b f = Inr (d', oc)" and "oc_base oc \<noteq> None" and "ledger_ok (db_ledger d)"
  obtains owner chain plan new rev_no where "settle_owner d b f = Inr owner" "settle_chain d b f (member_id owner) = Inr chain"
    "distinct (member_id owner # chain)" "reward_plan (PyDecText (f_base f)) (member_id owner) chain = Inr plan"
    "\<forall>p \<in> set plan. \<exists>m. get_member d (pr_member p) = Some m \<and> awarded d' (bk_id b) (pr_member p) (pr_kind p) = plan_target m p"
    "\<forall>k. k \<notin> set (member_id owner # chain) \<longrightarrow> balance d' k = balance d k" "ledger_ok (db_ledger d')"
    "oc = \<lparr> oc_status = ''settled'', oc_movements = length new, oc_base = Some (f_base f) \<rparr>"
    "d' = save_loyalty (d \<lparr> db_ledger := db_ledger d @ new \<rparr>) b (\<lambda>s. s \<lparr> ls_review := None,
             ls_settlement := Some \<lparr> se_revision = rev_no, se_hash = facts_digest e f, se_facts = f \<rparr>, ls_chain := Some chain \<rparr>)"
    "\<forall>r \<in> set new. row_member r \<in> set (member_id owner # chain) \<and> e_reservation (row_entry r) = Some (bk_id b)"
proof (rule settle_facts_found [OF assms(1)])
  fix owner chain
  assume o: "settle_owner d b f = Inr owner" and c: "settle_chain d b f (member_id owner) = Inr chain"
    and un: "map_option se_hash (ls_settlement (bk_loyalty b)) = Some (facts_digest e f) \<Longrightarrow> d' = d \<and> oc = no_movement ''unchanged''"
    and ch: "map_option se_hash (ls_settlement (bk_loyalty b)) \<noteq> Some (facts_digest e f) \<Longrightarrow>
      \<exists>plan d1 branch rev_no. reward_plan (PyDecText (f_base f)) (member_id owner) chain = Inr plan
        \<and> settle_rows e (bk_id b) rev_no f (new_group d) plan 0 d = Inr (d1, branch)
        \<and> d' = save_loyalty d1 b (\<lambda>s. s \<lparr> ls_review := None,
             ls_settlement := Some \<lparr> se_revision = rev_no, se_hash = facts_digest e f, se_facts = f \<rparr>, ls_chain := Some chain \<rparr>)
        \<and> oc = \<lparr> oc_status = ''settled'', oc_movements = branch, oc_base = Some (f_base f) \<rparr>"
  have "map_option se_hash (ls_settlement (bk_loyalty b)) \<noteq> Some (facts_digest e f)"
    using un assms(2) by (auto simp: no_movement_def)
  then obtain plan d1 branch rev_no where P: "reward_plan (PyDecText (f_base f)) (member_id owner) chain = Inr plan"
    and S: "settle_rows e (bk_id b) rev_no f (new_group d) plan 0 d = Inr (d1, branch)"
    and D: "d' = save_loyalty d1 b (\<lambda>s. s \<lparr> ls_review := None,
             ls_settlement := Some \<lparr> se_revision = rev_no, se_hash = facts_digest e f, se_facts = f \<rparr>, ls_chain := Some chain \<rparr>)"
    and O: "oc = \<lparr> oc_status = ''settled'', oc_movements = branch, oc_base = Some (f_base f) \<rparr>"
    using ch by blast
  have di: "distinct (member_id owner # chain)" by (rule settle_chain_distinct [OF c])
  note K = plan_keys_distinct [OF P di]
  note E = settle_rows_effect [OF S assms(3) K(1)]
  obtain new where new: "d1 = d \<lparr> db_ledger := db_ledger d @ new \<rparr>" "branch = length new"
    "\<forall>r \<in> set new. row_member r \<in> pr_member ` set plan \<and> e_reservation (row_entry r) = Some (bk_id b)"
    using E by auto
  show thesis
  proof (rule that [OF o c di P])
    show "\<forall>p \<in> set plan. \<exists>m. get_member d (pr_member p) = Some m \<and> awarded d' (bk_id b) (pr_member p) (pr_kind p) = plan_target m p"
      using E D by simp
    show "\<forall>k. k \<notin> set (member_id owner # chain) \<longrightarrow> balance d' k = balance d k"
      using E K(2) D by simp
    show "ledger_ok (db_ledger d')" using E D by simp
    show "oc = \<lparr> oc_status = ''settled'', oc_movements = length new, oc_base = Some (f_base f) \<rparr>"
      using O new(2) by simp
    show "d' = save_loyalty (d \<lparr> db_ledger := db_ledger d @ new \<rparr>) b (\<lambda>s. s \<lparr> ls_review := None,
             ls_settlement := Some \<lparr> se_revision = rev_no, se_hash = facts_digest e f, se_facts = f \<rparr>, ls_chain := Some chain \<rparr>)"
      using D new(1) by simp
    show "\<forall>r \<in> set new. row_member r \<in> set (member_id owner # chain) \<and> e_reservation (row_entry r) = Some (bk_id b)"
      using new(3) K(2) by simp
  qed
qed

lemma reconcile_effect:
  assumes "reconcile e d n = Inr (d', oc)" and "oc_base oc = Some base" and "ledger_ok (db_ledger d)"
  shows "\<exists>owner chain plan new. distinct (owner # chain) \<and> reward_plan (PyDecText base) owner chain = Inr plan
    \<and> (\<forall>p \<in> set plan. \<exists>m. get_member d (pr_member p) = Some m \<and> awarded d' n (pr_member p) (pr_kind p) = plan_target m p)
    \<and> db_ledger d' = db_ledger d @ new \<and> length new = oc_movements oc
    \<and> (\<forall>r \<in> set new. row_member r \<in> set (owner # chain) \<and> e_reservation (row_entry r) = Some n)
    \<and> (\<forall>k. k \<notin> set (owner # chain) \<longrightarrow> balance d' k = balance d k) \<and> ledger_ok (db_ledger d')"
proof -
  have some: "oc_base oc \<noteq> None" using assms(2) by simp
  show ?thesis
  proof (rule reconcile_found [OF assms(1) some])
    fix b d1 b1 f
    assume b: "get_booking d n = Some b" and a: "attach_paid_phone_account e d b = Inr (d1, b1)"
      and s: "settle_facts e d1 (with_scheduled f b1) f = Inr (d', oc)"
    note A = attach_fields [OF a]
    have n: "bk_id (with_scheduled f b1) = n" using A get_booking_in [OF b] by simp
    have L: "ledger_ok (db_ledger d1)" using A assms(3) by simp
    show ?thesis
    proof (rule settled_effect [OF s some L])
      fix owner chain plan new rev_no
      assume di: "distinct (member_id owner # chain)" and P: "reward_plan (PyDecText (f_base f)) (member_id owner) chain = Inr plan"
        and T: "\<forall>p \<in> set plan. \<exists>m. get_member d1 (pr_member p) = Some m \<and> awarded d' (bk_id (with_scheduled f b1)) (pr_member p) (pr_kind p) = plan_target m p"
        and B: "\<forall>k. k \<notin> set (member_id owner # chain) \<longrightarrow> balance d' k = balance d1 k" and ok: "ledger_ok (db_ledger d')"
        and O: "oc = \<lparr> oc_status = ''settled'', oc_movements = length new, oc_base = Some (f_base f) \<rparr>"
        and D: "d' = save_loyalty (d1 \<lparr> db_ledger := db_ledger d1 @ new \<rparr>) (with_scheduled f b1) (\<lambda>s. s \<lparr> ls_review := None,
             ls_settlement := Some \<lparr> se_revision = rev_no, se_hash = facts_digest e f, se_facts = f \<rparr>, ls_chain := Some chain \<rparr>)"
        and N: "\<forall>r \<in> set new. row_member r \<in> set (member_id owner # chain) \<and> e_reservation (row_entry r) = Some (bk_id (with_scheduled f b1))"
      have gm: "get_member d1 = get_member d" by (intro ext) (simp add: get_member_def A)
      have bal: "balance d1 k = balance d k" for k by (simp add: balance_def A)
      have base: "f_base f = base" using O assms(2) by simp
      have "db_ledger d' = db_ledger d @ new" using D A by simp
      moreover have "length new = oc_movements oc" using O by simp
      ultimately show ?thesis
        using di P T B ok N unfolding n gm bal base
        by (intro exI [of _ "member_id owner"] exI [of _ chain] exI [of _ plan] exI [of _ new] conjI)
    qed
  qed
qed


subsection \<open>What a settlement leaves of the facts\<close>

text \<open>The facts of a stay do not read what a settlement writes.\<close>

definition same_evidence :: "loyalty_state \<Rightarrow> loyalty_state \<Rightarrow> bool" where
  "same_evidence s t = (ls_arrival s = ls_arrival t \<and> ls_redemption s = ls_redemption t
     \<and> ls_manual_price s = ls_manual_price t \<and> ls_departure s = ls_departure t)"

lemma stay_times_loyalty [simp]: "stay_times e (b \<lparr> bk_loyalty := s \<rparr>) = stay_times e b"
  by (simp add: stay_times_def)

lemma contract_loyalty [simp]: "contract c (b \<lparr> bk_loyalty := s \<rparr>) = contract c b"
  by (simp add: contract_def settled_changes_def by_completion_def cong: if_cong)

lemma to_sar_loyalty [simp]: "to_sar c (b \<lparr> bk_loyalty := s \<rparr>) x = to_sar c b x"
  by (simp add: to_sar_def cong: if_cong)

lemma time_stage_loyalty:
  assumes "same_evidence s (bk_loyalty b)" and "\<not> fs_past sc"
    and "ls_arrival (bk_loyalty b) = None \<Longrightarrow> scheduled_eligibility e (b \<lparr> bk_loyalty := s \<rparr>) = scheduled_eligibility e b"
  shows "time_stage e (b \<lparr> bk_loyalty := s \<rparr>) sc m = time_stage e b sc m"
  using assms by (simp add: time_stage_def same_evidence_def cong: if_cong option.case_cong)

lemma money_stage_loyalty:
  "same_evidence s (bk_loyalty b) \<Longrightarrow> money_stage e (b \<lparr> bk_loyalty := s \<rparr>) i = money_stage e b i"
  by (simp add: money_stage_def net_points_def same_evidence_def cong: if_cong)

lemma components_stage_loyalty:
  "same_evidence s (bk_loyalty b) \<Longrightarrow> components_stage (b \<lparr> bk_loyalty := s \<rparr>) i ps = components_stage b i ps"
  by (simp add: components_stage_def last_change_def settled_changes_def by_completion_def same_evidence_def cong: if_cong option.case_cong)

lemma active_amounts_loyalty: "active_amounts e (b \<lparr> bk_loyalty := s \<rparr>) sc mo ch co = active_amounts e b sc mo ch co"
  by (simp add: active_amounts_def cong: if_cong)

lemma facts_document_loyalty:
  "same_evidence s (bk_loyalty b) \<Longrightarrow> facts_document e (b \<lparr> bk_loyalty := s \<rparr>) pv sc m sch st en mo ch co am
     = facts_document e b pv sc m sch st en mo ch co am"
  by (simp add: facts_document_def same_evidence_def)

lemma offer_stage_none: "fs_offer sc = None \<Longrightarrow> offer_stage e b sc f = found f"
  by (simp add: offer_stage_def)

lemma mark_facts_loyalty:
  "same_evidence s (bk_loyalty b) \<Longrightarrow> mark_facts (b \<lparr> bk_loyalty := s \<rparr>) sc sch am f = mark_facts b sc sch am f"
  by (simp add: mark_facts_def same_evidence_def)

lemma verified_stage_loyalty:
  assumes "same_evidence s (bk_loyalty b)" and "\<not> fs_past sc" and "fs_offer sc = None" and "bk_status b \<noteq> Cancelled"
    and "ls_arrival (bk_loyalty b) = None \<Longrightarrow> scheduled_eligibility e (b \<lparr> bk_loyalty := s \<rparr>) = scheduled_eligibility e b"
  shows "verified_stage e (b \<lparr> bk_loyalty := s \<rparr>) pv sc m = verified_stage e b pv sc m"
  using assms(4)
  unfolding verified_stage_def
  by (simp add: time_stage_loyalty [OF assms(1,2,5)] money_stage_loyalty [OF assms(1)]
      components_stage_loyalty [OF assms(1)] active_amounts_loyalty facts_document_loyalty [OF assms(1)]
      offer_stage_none [OF assms(3)] mark_facts_loyalty [OF assms(1)] cong: if_cong)

lemma scope_stage_settled:
  assumes "\<not> retain_acceptance e" and "db_users d' = db_users d"
    and "authorized_offer e (b \<lparr> bk_loyalty := s \<rparr>) = authorized_offer e b"
  shows "scope_stage e d' (b \<lparr> bk_loyalty := s \<rparr>) pv = scope_stage e d b pv"
  using assms
  by (simp add: scope_stage_def booking_allowed_def historical_award_allowed_def stay_exception_allowed_def
      retained_acceptance_def intent_user_def get_user_def Let_def cong: if_cong option.case_cong)

lemma booking_facts_settled:
  assumes "\<not> retain_acceptance e" and "db_users d' = db_users d" and "db_members d' = db_members d"
    and "authorized_offer e b = None" and "authorized_offer e (b \<lparr> bk_loyalty := s \<rparr>) = None"
    and "same_evidence s (bk_loyalty b)" and "bk_status b \<noteq> Cancelled"
    and "ls_arrival (bk_loyalty b) = None \<Longrightarrow> scheduled_eligibility e (b \<lparr> bk_loyalty := s \<rparr>) = scheduled_eligibility e b"
    and f: "booking_facts e d b False = Inr (Inr f)"
  shows "booking_facts e d' (b \<lparr> bk_loyalty := s \<rparr>) False = Inr (Inr f)"
proof -
  have sc: "scope_stage e d' (b \<lparr> bk_loyalty := s \<rparr>) False = scope_stage e d b False"
    by (rule scope_stage_settled) (use assms in simp_all)
  obtain sf where sf: "scope_stage e d b False = found sf"
    and m: "and_then (member_stage d sf False) (\<lambda>m. catch_facts (verified_stage e b False sf m)) = Inr (Inr f)"
    using f unfolding booking_facts_def and_then_found by (auto simp: found_def)
  have none: "\<not> fs_past sf" "fs_offer sf = None"
    using sf assms(4) by (auto simp: scope_stage_def found_def block_def Let_def bindE_Inr_iff split: if_splits option.splits)
  have mc: "member_of_customer d' = member_of_customer d"
    by (intro ext) (simp add: member_of_customer_def assms(3))
  have ms: "member_stage d' sf False = member_stage d sf False"
    by (simp only: member_stage_def mc)
  have v: "verified_stage e (b \<lparr> bk_loyalty := s \<rparr>) False sf x = verified_stage e b False sf x" for x
    by (rule verified_stage_loyalty [OF assms(6) none assms(7)]) (rule assms(8))
  show ?thesis
    using m unfolding booking_facts_def sc sf and_then_simps ms v .
qed


lemma booking_facts_scheduled:
  assumes "booking_facts e d b False = Inr (Inr f)"
  shows "ls_arrival (bk_loyalty b) = None \<Longrightarrow> scheduled_eligibility e b = Inr (f_accrual f)"
    and "authorized_offer e b = None \<Longrightarrow> \<exists>i c. bk_intent b = Some i \<and> in_customer i = Some c"
proof -
  obtain sf m where sf: "scope_stage e d b False = found sf" and v: "verified_stage e b False sf m = Inr (Inr f)"
    using assms unfolding booking_facts_def and_then_found catch_facts_found by (auto simp: found_def)
  show "\<exists>i c. bk_intent b = Some i \<and> in_customer i = Some c" if "authorized_offer e b = None"
    using sf that by (auto simp: scope_stage_def found_def block_def Let_def bindE_Inr_iff split: if_splits option.splits)
  show "scheduled_eligibility e b = Inr (f_accrual f)" if "ls_arrival (bk_loyalty b) = None"
  proof (rule verified_stage_found [OF v])
    fix sc st en a g
    assume t: "time_stage e b sf m = Inr (Inr (sc, st, en))"
      and h: "\<exists>h. offer_stage e b sf g = Inr (Inr h) \<and> f = mark_facts b sf sc a h"
    have "f_accrual f = sc" using h by (auto simp: mark_facts_def)
    moreover have "scheduled_eligibility e b = Inr sc"
      using t that unfolding time_stage_def and_then_found lift_res_found if_block_found
      by (auto simp: found_def split: prod.splits if_splits)
    ultimately show ?thesis by simp
  qed
qed

lemma scheduled_again:
  assumes "scheduled_eligibility e b = Inr (Some sc)" and "ls_scheduled s = Some sc"
  shows "scheduled_eligibility e (b \<lparr> bk_loyalty := s \<rparr>) = Inr (Some sc)"
  using assms
  by (auto simp: scheduled_eligibility_def Let_def bindE_Inr_iff split: option.splits datetime.splits if_splits prod.splits)

lemma scheduled_same:
  assumes "ls_scheduled s = ls_scheduled (bk_loyalty b)"
  shows "scheduled_eligibility e (b \<lparr> bk_loyalty := s \<rparr>) = scheduled_eligibility e b"
  using assms by (simp add: scheduled_eligibility_def Let_def cong: if_cong option.case_cong)


lemma attach_done:
  "bk_intent b = Some i \<Longrightarrow> in_customer i = Some c \<Longrightarrow> attach_paid_phone_account e d b = Inr (d, b)"
  by (simp add: attach_paid_phone_account_def)

text \<open>The scheduled admission is still found after the settlement stored it.\<close>

lemma settled_schedule:
  assumes "booking_facts e d b False = Inr (Inr f)" and "ls_arrival (bk_loyalty b) = None"
    and "ls_scheduled s = ls_scheduled (bk_loyalty (with_scheduled f b))"
  shows "scheduled_eligibility e (b \<lparr> bk_loyalty := s \<rparr>) = scheduled_eligibility e b"
proof (cases "f_accrual f")
  case None
  then show ?thesis using assms(3) by (intro scheduled_same) (simp add: with_scheduled_def)
next
  case (Some sc)
  then have "scheduled_eligibility e b = Inr (Some sc)"
    using booking_facts_scheduled(1) [OF assms(1,2)] by simp
  then show ?thesis using scheduled_again [of e b sc s] assms(3) Some by (simp add: with_scheduled_def)
qed

lemma settle_facts_again:
  assumes "settle_owner d b f = Inr owner" and "distinct (member_id owner # chain)"
    and "\<forall>k \<in> set chain. get_member d k \<noteq> None" and "ls_chain (bk_loyalty b) = Some chain"
    and "map_option se_hash (ls_settlement (bk_loyalty b)) = Some (facts_digest e f)"
  shows "settle_facts e d b f = Inr (d, no_movement ''unchanged'')"
proof -
  have "\<exists>ks. settle_chain d b f (member_id owner) = Inr ks"
    using assms by (auto simp: settle_chain_def list_all_iff)
  then show ?thesis using assms by (auto simp: settle_facts_def Let_def)
qed

lemma reconcile_again:
  assumes r: "reconcile e d n = Inr (d', oc)" and settled: "oc_base oc \<noteq> None" and L: "ledger_ok (db_ledger d)"
    and no: "\<not> retain_acceptance e" "\<And>x. authorized_offer e x = None"
    and live: "\<And>b. get_booking d n = Some b \<Longrightarrow> bk_status b \<noteq> Cancelled"
  shows "reconcile e d' n = Inr (d', no_movement ''unchanged'')"
proof (rule reconcile_found [OF r settled])
  fix b d1 b1 f
  assume en: "loyalty_enabled e" "\<exists>t. launch_setting e = Some (Aware t)"
    and b: "get_booking d n = Some b" and a: "attach_paid_phone_account e d b = Inr (d1, b1)"
    and al: "booking_allowed e d1 b1" and f: "booking_facts e d1 b1 False = Inr (Inr f)"
    and s: "settle_facts e d1 (with_scheduled f b1) f = Inr (d', oc)"
  note A = attach_fields [OF a]
  have L1: "ledger_ok (db_ledger d1)" using A L by simp
  have id: "bk_id b1 = n" using A get_booking_in [OF b] by simp
  have st: "bk_status b1 \<noteq> Cancelled"
  proof -
    have "bk_status b1 = bk_status b" using A by (metis booking.select_convs(6) booking.update_convs(3,16) booking.surjective)
    then show ?thesis using live [OF b] by simp
  qed
  show ?thesis
  proof (rule settled_effect [OF s settled L1])
    fix owner chain plan new rev_no
    assume o: "settle_owner d1 (with_scheduled f b1) f = Inr owner"
      and di: "distinct (member_id owner # chain)" and P: "reward_plan (PyDecText (f_base f)) (member_id owner) chain = Inr plan"
      and T: "\<forall>p \<in> set plan. \<exists>m. get_member d1 (pr_member p) = Some m \<and> awarded d' (bk_id (with_scheduled f b1)) (pr_member p) (pr_kind p) = plan_target m p"
      and D: "d' = save_loyalty (d1 \<lparr> db_ledger := db_ledger d1 @ new \<rparr>) (with_scheduled f b1) (\<lambda>s. s \<lparr> ls_review := None,
             ls_settlement := Some \<lparr> se_revision = rev_no, se_hash = facts_digest e f, se_facts = f \<rparr>, ls_chain := Some chain \<rparr>)"
    define t where "t = (bk_loyalty (with_scheduled f b1)) \<lparr> ls_review := None,
             ls_settlement := Some \<lparr> se_revision = rev_no, se_hash = facts_digest e f, se_facts = f \<rparr>, ls_chain := Some chain \<rparr>"
    define b2 where "b2 = b1 \<lparr> bk_loyalty := t \<rparr>"
    have b2: "b2 = with_scheduled f b1 \<lparr> bk_loyalty := t \<rparr>" by (simp add: b2_def with_scheduled_def split: option.splits)
    have d': "d' = put_booking (d1 \<lparr> db_ledger := db_ledger d1 @ new \<rparr>) b2"
      unfolding D save_loyalty_def b2 t_def by simp
    have have_b1: "\<exists>x. get_booking d1 n = Some x"
      using A b get_booking_in [OF b] booking_table.get_put_same [of d "b \<lparr> bk_intent := bk_intent b1 \<rparr>" b] by auto
    have g: "get_booking d' n = Some b2"
    proof -
      have "get_booking (d1 \<lparr> db_ledger := db_ledger d1 @ new \<rparr>) n = get_booking d1 n" by (simp add: get_booking_def)
      then show ?thesis
        using have_b1 booking_table.get_put_same [of "d1 \<lparr> db_ledger := db_ledger d1 @ new \<rparr>" b2] id
        by (auto simp: d' b2_def)
    qed
    obtain i c where i: "bk_intent b1 = Some i" "in_customer i = Some c"
      using booking_facts_scheduled(2) [OF f no(2)] by blast
    have att: "attach_paid_phone_account e d' b2 = Inr (d', b2)"
      by (rule attach_done) (use i in \<open>simp_all add: b2_def\<close>)
    have users: "db_users d' = db_users d1" "db_members d' = db_members d1" by (simp_all add: d')
    have al2: "booking_allowed e d' b2"
      using al by (simp add: booking_allowed_def b2_def intent_user_def get_user_def users)
    have ev: "same_evidence t (bk_loyalty b1)"
      by (simp add: same_evidence_def t_def with_scheduled_def split: option.splits)
    have f2: "booking_facts e d' b2 False = Inr (Inr f)"
      unfolding b2_def
      by (rule booking_facts_settled [OF no(1) users no(2) no(2) ev st _ f])
        (rule settled_schedule [OF f], simp_all add: t_def)
    have set2: "settle_facts e d' (with_scheduled f b2) f = Inr (d', no_movement ''unchanged'')"
    proof (rule settle_facts_again [OF _ di])
      have bc: "booking_customer (with_scheduled f b2) = booking_customer (with_scheduled f b1)"
        by (simp add: booking_customer_def b2_def)
      have mc: "member_of_customer d' = member_of_customer d1"
        by (intro ext) (simp add: member_of_customer_def users)
      have "settle_owner d' (with_scheduled f b2) f = settle_owner d1 (with_scheduled f b1) f"
        using bc by (simp only: settle_owner_def mc)
      then show "settle_owner d' (with_scheduled f b2) f = Inr owner" using o by simp
      show "\<forall>k \<in> set chain. get_member d' k \<noteq> None"
        using T plan_keys_distinct(2) [OF P di] by (force simp: get_member_def users)
      show "ls_chain (bk_loyalty (with_scheduled f b2)) = Some chain"
        "map_option se_hash (ls_settlement (bk_loyalty (with_scheduled f b2))) = Some (facts_digest e f)"
        by (simp_all add: b2_def t_def with_scheduled_def split: option.splits)
    qed
    show ?thesis
      using en by (simp add: reconcile_def posting_transaction_Inr g att al2 f2 set2)
  qed
qed


subsection \<open>A paid stay is settled\<close>

definition paid_db :: db where
  "paid_db = sample_db \<lparr> db_bookings := [paid_booking] \<rparr>"

definition paid_row :: ledger_row where
  "paid_row = \<lparr> sequence = 1, row_group = 1, row_branch = 1, row_member = 11, row_customer = 1,
     row_tree_number = ''0001'', credit = 30, debit = 0, member_balance_after = 30,
     program_balance_after = 30, row_entry = settle_entry 70 1 paid_facts
       \<lparr> pr_member = 11, pr_kind = Loyalty, pr_rate = 3, pr_cents = 3000, pr_distance = 0,
          pr_numerator = 3, pr_denominator = 1 \<rparr> None EarnEvent \<rparr>"

definition settled_db :: db where
  "settled_db = save_loyalty (paid_db \<lparr> db_ledger := [paid_row] \<rparr>) paid_booking (\<lambda>s. s \<lparr> ls_review := None,
     ls_settlement := Some \<lparr> se_revision = 1, se_hash = ''f'', se_facts = paid_facts \<rparr>, ls_chain := Some [] \<rparr>)"

lemma paid_db_facts: "booking_facts sample_env paid_db paid_booking False = Inr (Inr paid_facts)"
proof -
  have "paid_booking \<lparr> bk_loyalty := bk_loyalty paid_booking \<rparr> = paid_booking" by simp
  moreover have "booking_facts sample_env paid_db (paid_booking \<lparr> bk_loyalty := bk_loyalty paid_booking \<rparr>) False = Inr (Inr paid_facts)"
    by (rule booking_facts_settled [OF _ _ _ _ _ _ _ _ paid_booking_facts])
      (simp_all add: paid_db_def sample_db_def sample_env_def same_evidence_def paid_booking_def sample_booking_def)
  ultimately show ?thesis by simp
qed

lemma exact_30_text: "cents (PyDecText 1000) = Inr 100000"
  using dmul_amount [of 100000] by (simp add: cents_def amount_def toward_zero.exact round_down_def)

lemma paid_settle: "settle_facts sample_env paid_db paid_booking paid_facts =
    Inr (settled_db, \<lparr> oc_status = ''settled'', oc_movements = 1, oc_base = Some 1000 \<rparr>)"
proof -
  have o: "settle_owner paid_db paid_booking paid_facts = Inr (sample_member 11 1 ''LSA-M000011'')"
    by (simp add: settle_owner_def paid_facts_def paid_booking_def booking_customer_def member_of_customer_def paid_db_def sample_defs)
  have c: "settle_chain paid_db paid_booking paid_facts 11 = Inr []"
    by (simp add: settle_chain_def paid_facts_def paid_booking_def ancestors_def current_link_def current_links_def current_of_def
        latest_revision_def row_get_def ancestors_loop.simps paid_db_def sample_defs)
  have plan: "reward_plan (PyDecText 1000) 11 [] = Inr [\<lparr> pr_member = 11, pr_kind = Loyalty, pr_rate = 3, pr_cents = 3000,
       pr_distance = 0, pr_numerator = 3, pr_denominator = 1 \<rparr>]"
    by (simp add: reward_plan_def exact_30_text)
  have rows: "settle_rows sample_env 70 1 paid_facts 1 [\<lparr> pr_member = 11, pr_kind = Loyalty, pr_rate = 3, pr_cents = 3000,
       pr_distance = 0, pr_numerator = 3, pr_denominator = 1 \<rparr>] 0 paid_db = Inr (paid_db \<lparr> db_ledger := [paid_row] \<rparr>, 1)"
    by (simp add: plan_target_def awarded_def first_earn_def award_rows_def amount_def post_def exact_30 exact_0 create_row_def
        fits_column_def paid_db_def paid_row_def funded_eval del: One_nat_def)
  have g: "new_group paid_db = 1" by (simp add: new_group_def next_sequence_def paid_db_def sample_db_def)
  have f: "f_base paid_facts = 1000" "ls_settlement (bk_loyalty paid_booking) = None" "bk_id paid_booking = 70"
    "member_id (sample_member 11 1 x) = 11" for x
    by (simp_all add: paid_facts_def paid_booking_def sample_defs)
  have h: "facts_digest sample_env paid_facts = ''f''" by (simp add: sample_env_def)
  show ?thesis
    unfolding settle_facts_def o bindE.simps f c Let_def plan g
    by (simp add: rows h settled_db_def del: One_nat_def settle_rows.simps)
qed

lemma paid_reconcile: "reconcile sample_env paid_db 70 =
    Inr (settled_db, \<lparr> oc_status = ''settled'', oc_movements = 1, oc_base = Some 1000 \<rparr>)"
proof -
  have b: "get_booking paid_db 70 = Some paid_booking"
    by (simp add: get_booking_def row_get_def paid_db_def paid_booking_def sample_booking_def)
  have a: "attach_paid_phone_account sample_env paid_db paid_booking = Inr (paid_db, paid_booking)"
    by (simp add: attach_paid_phone_account_def paid_booking_def sample_intent_def)
  have al: "booking_allowed sample_env paid_db paid_booking" "loyalty_enabled sample_env"
    "launch_setting sample_env = Some (Aware 0)"
    by (simp_all add: booking_allowed_def sample_env_def)
  have w: "with_scheduled paid_facts paid_booking = paid_booking" by (simp add: with_scheduled_def paid_facts_def)
  show ?thesis
    by (simp add: reconcile_def posting_transaction_def launch_at_def b a al paid_db_facts w paid_settle del: One_nat_def)
qed

subsection \<open>Properties\<close>

text \<open>C1: settling a stay brings every award exactly to the plan. After a settlement the ledger's net
  award of the booking, for each member and component of the reward plan of the verified
  base, is the planned amount for an active member and zero for a withdrawn one, whatever
  was awarded before; only the owner and the distinct inviters of the chain get rows, each
  about this booking, nobody else's balance moves, and the ledger stays well formed.\<close>

theorem reconcile_awards_plan:
  assumes "reconcile e d n = Inr (d', oc)" and "oc_base oc = Some base" and "ledger_ok (db_ledger d)"
  shows "\<exists>owner chain plan new. distinct (owner # chain) \<and> reward_plan (PyDecText base) owner chain = Inr plan
    \<and> (\<forall>p \<in> set plan. \<exists>m. get_member d (pr_member p) = Some m \<and> awarded d' n (pr_member p) (pr_kind p) = plan_target m p)
    \<and> db_ledger d' = db_ledger d @ new \<and> length new = oc_movements oc
    \<and> (\<forall>r \<in> set new. row_member r \<in> set (owner # chain) \<and> e_reservation (row_entry r) = Some n)
    \<and> (\<forall>k. k \<notin> set (owner # chain) \<longrightarrow> balance d' k = balance d k) \<and> ledger_ok (db_ledger d')"
  using assms by (rule reconcile_effect)

theorem reconcile_awards_plan_witness: "ledger_ok (db_ledger settled_db)"
proof -
  have "ledger_ok (db_ledger paid_db)" by (simp add: paid_db_def sample_db_def)
  then show ?thesis using reconcile_awards_plan [OF paid_reconcile, of 1000] by auto
qed



end
