(* ===== verification/Checkout.thy ===== *)
theory Checkout
  imports Reconcile
begin

section \<open>The cash and points boundary (apps/loyalty/checkout.py)\<close>

text \<open>
  The amount left for the card, its freezing, the release and the spending of held points,
  full-points confirmation, the presentation of the frozen split
  (apps/loyalty/payment_summary.py) and the guarded reconciliation of
  apps/loyalty/site_adapter.py, which never lets a reward failure undo a stay.
\<close>

subsection \<open>What the card must pay\<close>

definition booking_of_intent :: "db \<Rightarrow> nat \<Rightarrow> booking option" where
  "booking_of_intent d i = find (\<lambda>b. map_option in_id (bk_intent b) = Some i) (db_bookings d)"

definition points_pending :: "loyalty_state \<Rightarrow> bool" where
  "points_pending s = (ls_hold s \<noteq> None \<or> ls_redemption s \<noteq> None \<or> ls_frozen s \<noteq> None
     \<or> ls_points_started s)"

text \<open>The value allocated to the booking, and the member the allocation names.\<close>

definition allocation :: "loyalty_state \<Rightarrow> (rat \<times> nat option) option" where
  "allocation s = (case ls_hold s of Some h \<Rightarrow> Some (h_value h, Some (h_member h))
     | None \<Rightarrow> (case ls_redemption s of Some r \<Rightarrow> Some (re_value r, None) | None \<Rightarrow> None))"

definition allocated_due ::
    "env \<Rightarrow> db \<Rightarrow> intent \<Rightarrow> booking \<Rightarrow> rat \<Rightarrow> nat option \<Rightarrow> rat res" where
  "allocated_due e d i b points owner =
     (if \<not> booking_allowed e d b then Inl (ValidationError ''outside_pilot'')
      else bindE (of_option (ValidationError ''sar_breakdown'') (in_customer i)) (\<lambda>c.
      bindE (intent_total_sar (fx e) i) (\<lambda>gross.
      if in_payment_sar i \<noteq> Some gross then Inl (ValidationError ''sar_breakdown'')
      else bindE (of_option (DoesNotExist ''user'') (get_user d c)) (\<lambda>u.
      bindE (member_for e d u True) (\<lambda>m.
      if owner \<noteq> None \<and> owner \<noteq> Some (member_id m) then Inl (ValidationError ''other_account'')
      else if gross - points < 0 then Inl (ValidationError ''points_exceed'')
      else Inr (gross - points))))))"

definition cash_due :: "env \<Rightarrow> db \<Rightarrow> intent \<Rightarrow> bool \<Rightarrow> (db \<times> rat option) res" where
  "cash_due e d i freeze =
     (let stay = booking_of_intent d (in_id i) in
      if \<not> loyalty_enabled e then
        (if (case stay of None \<Rightarrow> False | Some b \<Rightarrow> points_pending (bk_loyalty b))
         then Inl (ValidationError ''programme_stopped'') else Inr (d, in_payment_sar i))
      else (case stay of
          None \<Rightarrow> Inr (d, in_payment_sar i)
        | Some b \<Rightarrow> (case allocation (bk_loyalty b) of
              None \<Rightarrow> Inr (d, in_payment_sar i)
            | Some (points, owner) \<Rightarrow>
                bindE (allocated_due e d i b points owner) (\<lambda>due.
                  Inr (if freeze then save_loyalty d b (\<lambda>s. s \<lparr> ls_frozen := Some (due, points) \<rparr>) else d,
                       Some due)))))"

subsection \<open>The frozen split as shown to the guest\<close>

record split_view =
  sv_gross :: rat
  sv_points :: rat
  sv_cash :: rat
  sv_paid :: bool

text \<open>\<open>linked\<close>: the attempt belongs to a payment link or a change request.\<close>

definition for_attempt :: "env \<Rightarrow> db \<Rightarrow> intent \<Rightarrow> payment \<Rightarrow> bool \<Rightarrow> split_view option res" where
  "for_attempt e d i p linked =
     (if linked \<or> pa_currency p \<noteq> payment_currency then Inr None
      else
        let frozen = (case Option.bind (booking_of_intent d (in_id i)) (\<lambda>b. ls_frozen (bk_loyalty b)) of
                        None \<Rightarrow> (0, 0) | Some x \<Rightarrow> x);
            cash = fst frozen; points = snd frozen
        in case intent_total_sar (fx e) i of
             Inl (ValidationError s) \<Rightarrow> Inr None
           | Inl (TypeError s) \<Rightarrow> Inr None
           | Inl (DecimalError s) \<Rightarrow> Inr None
           | Inl (ValueError s) \<Rightarrow> Inr None
           | Inl x \<Rightarrow> Inl x
           | Inr gross \<Rightarrow>
               if \<not> (0 < points \<and> points \<le> gross) then Inr None
               else (case quantize round_half_even 2 points of
                   Inl _ \<Rightarrow> Inr None
                 | Inr q \<Rightarrow>
                     if q \<noteq> points \<or> cash \<noteq> pa_amount p \<or> cash + points \<noteq> gross
                        \<or> in_payment_sar i \<noteq> Some gross
                     then Inr None
                     else Inr (Some \<lparr> sv_gross = gross, sv_points = points, sv_cash = cash,
                       sv_paid = (pa_verified_at p \<noteq> None
                         \<and> pa_status p \<in> {PaSucceeded, PaPartiallyRefunded, PaRefunded}) \<rparr>)))"

subsection \<open>Spending, releasing and restoring held points\<close>

definition keyed :: "string \<Rightarrow> nat \<Rightarrow> string" where
  "keyed prefix n = prefix @ padded 1 n"

definition settle_booking_points :: "env \<Rightarrow> db \<Rightarrow> nat \<Rightarrow> db res" where
  "settle_booking_points e d n =
     (if \<not> loyalty_enabled e then Inr d
      else bindE (of_option (DoesNotExist ''reservation'') (get_booking d n)) (\<lambda>b.
        if \<not> booking_allowed e d b then Inr d
        else if bk_status b \<in> set active_statuses \<and> ls_hold (bk_loyalty b) \<noteq> None then
          bindE (of_option (PermissionDenied ''login'') (intent_user d b)) (\<lambda>u.
          bindE (redeem e d u (keyed ''confirm:'' n) n) (\<lambda>(d', x). Inr d'))
        else Inr d))"

definition release_expired_points :: "env \<Rightarrow> db \<Rightarrow> nat \<Rightarrow> db res" where
  "release_expired_points e d i =
     (if \<not> loyalty_enabled e then Inr d
      else posting_transaction e
        (case booking_of_intent d i of
           None \<Rightarrow> Inr d
         | Some b \<Rightarrow>
             if ls_hold (bk_loyalty b) = None \<or> \<not> booking_allowed e d b
                \<or> bk_status b \<in> set active_statuses
                \<or> map_option in_status (bk_intent b) \<noteq> Some InExpired
             then Inr d
             else (case release_allowed b of
                 Inl _ \<Rightarrow> Inr d
               | Inr _ \<Rightarrow> Inr (save_loyalty d b (\<lambda>s. s \<lparr> ls_hold := None, ls_frozen := None \<rparr>)))))"

definition restore_cancelled_points :: "env \<Rightarrow> db \<Rightarrow> nat \<Rightarrow> db res" where
  "restore_cancelled_points e d n =
     (if \<not> loyalty_enabled e then Inr d
      else bindE (of_option (DoesNotExist ''reservation'') (get_booking d n)) (\<lambda>b.
        if \<not> booking_allowed e d b then Inr d
        else (case ls_redemption (bk_loyalty b) of
            None \<Rightarrow> Inr d
          | Some r \<Rightarrow>
              if bk_status b \<noteq> Cancelled then Inr d
              else bindE (effective_arrival e b) (\<lambda>arrived.
                if arrived \<noteq> None then
                  (case ls_departure (bk_loyalty b) of
                     None \<Rightarrow> Inr d
                   | Some dep \<Rightarrow> bindE (restore_points e d n (PyDecText (de_points_refund dep)) (de_reference dep))
                       (\<lambda>(d', x). Inr d'))
                else bindE (restore_points e d n (PyDecText (re_value r)) (keyed ''cancel:'' n))
                       (\<lambda>(d', x). Inr d')))))"

subsection \<open>The guarded reconciliation\<close>

text \<open>
  Each step commits on its own; an exception keeps what the earlier steps committed and is
  turned into a review mark on the booking.
\<close>

definition reconcile_failed :: "db \<Rightarrow> nat \<Rightarrow> (db \<times> outcome option) res" where
  "reconcile_failed d n =
     bindE (of_option (DoesNotExist ''reservation'') (get_booking d n)) (\<lambda>b.
       Inr (save_loyalty d b (\<lambda>s. s \<lparr> ls_review := Some ''loyalty_processing_error'' \<rparr>),
            Some (no_movement ''loyalty_processing_error'')))"

definition reconcile_steps :: "env \<Rightarrow> db \<Rightarrow> nat \<Rightarrow> (db \<times> outcome option) res" where
  "reconcile_steps e d n =
     (case settle_booking_points e d n of
        Inl _ \<Rightarrow> reconcile_failed d n
      | Inr d1 \<Rightarrow> (case restore_cancelled_points e d1 n of
          Inl _ \<Rightarrow> reconcile_failed d1 n
        | Inr d2 \<Rightarrow> (case reconcile e d2 n of
            Inl _ \<Rightarrow> reconcile_failed d2 n
          | Inr (d3, oc) \<Rightarrow> Inr (d3, Some oc))))"

definition safe_reconcile :: "env \<Rightarrow> db \<Rightarrow> nat \<Rightarrow> (db \<times> outcome option) res" where
  "safe_reconcile e d n =
     (if pilot_setting e then
        bindE (of_option (DoesNotExist ''reservation'') (get_booking d n)) (\<lambda>b.
          if \<not> booking_allowed e d b then Inr (d, None) else reconcile_steps e d n)
      else reconcile_steps e d n)"

subsection \<open>Confirming a stay paid with points\<close>

text \<open>The first transaction: an early answer, or the marked booking.\<close>

definition confirm_start :: "env \<Rightarrow> db \<Rightarrow> user \<Rightarrow> nat \<Rightarrow> (string + db) res" where
  "confirm_start e d u n =
     posting_transaction e (bindE (member_booking e d u n) (\<lambda>b.
       if ls_redemption (bk_loyalty b) \<noteq> None then Inr (Inl ''already_confirmed'')
       else if ls_points_started (bk_loyalty b) then Inr (Inl ''confirmation_in_progress'')
       else if bk_status b \<noteq> AwaitingPayment \<or> ls_hold (bk_loyalty b) = None
       then Inl (ValidationError ''fully_covered_required'')
       else bindE (of_option (TypeError ''no_intent'') (bk_intent b)) (\<lambda>i.
       bindE (cash_due e d i True) (\<lambda>(d1, due).
       if due \<noteq> Some 0 then Inl (ValidationError ''fully_covered_required'')
       else if \<not> list_all settled_attempt (booking_payments b)
       then Inl (ValidationError ''payment_in_progress'')
       else bindE (of_option (DoesNotExist ''reservation'') (get_booking d1 n)) (\<lambda>b1.
         Inr (Inr (save_loyalty d1 b1 (\<lambda>s. s \<lparr> ls_points_started := True \<rparr>))))))))"

definition mark_paid_with_points :: "db \<Rightarrow> nat \<Rightarrow> db" where
  "mark_paid_with_points d n =
     (case get_booking d n of None \<Rightarrow> d
      | Some b \<Rightarrow> put_booking d (b \<lparr> bk_payment_status := ''paid_with_points'',
          bk_intent := map_option (\<lambda>i. i \<lparr> in_status := InCompleted \<rparr>) (bk_intent b) \<rparr>))"

definition drop_points :: "env \<Rightarrow> db \<Rightarrow> nat \<Rightarrow> db res" where
  "drop_points e d n =
     posting_transaction e (bindE (of_option (DoesNotExist ''reservation'') (get_booking d n)) (\<lambda>b.
       Inr (save_loyalty d b (\<lambda>s. s \<lparr> ls_hold := None, ls_frozen := None, ls_points_started := False \<rparr>))))"

definition pre_send_failures :: "string list" where
  "pre_send_failures = [''availability_lost'', ''revalidated_price_changed'', ''hostaway_create_rejected'']"

text \<open>
  The database after the call, which an exception in a later part does not roll back, and
  the answer or the exception. \<open>service\<close> is the booking service the caller supplies.
\<close>

definition confirm_points_booking ::
    "env \<Rightarrow> db \<Rightarrow> user \<Rightarrow> nat \<Rightarrow> (db \<Rightarrow> nat \<Rightarrow> db \<times> string) \<Rightarrow> db \<times> string res" where
  "confirm_points_booking e d u n service =
     (case confirm_start e d u n of
        Inl x \<Rightarrow> (d, Inl x)
      | Inr (Inl status) \<Rightarrow> (d, Inr status)
      | Inr (Inr d1) \<Rightarrow>
          (case service d1 n of (d2, code) \<Rightarrow>
            if code = ''confirmed'' \<or> code = ''already_confirmed'' then
              (case redeem e d2 u (keyed ''points-confirm:'' n) n of
                 Inl x \<Rightarrow> (d2, Inl x)
               | Inr (d3, r) \<Rightarrow> (mark_paid_with_points d3 n, Inr code))
            else
              (case safe_reconcile e d2 n of
                 Inl x \<Rightarrow> (d2, Inl x)
               | Inr (d3, r) \<Rightarrow>
                   if code \<in> set pre_send_failures
                   then (case drop_points e d3 n of Inl x \<Rightarrow> (d3, Inl x) | Inr d4 \<Rightarrow> (d4, Inr code))
                   else (d3, Inr code))))"


subsection \<open>The stay survives\<close>

text \<open>What the loyalty code may change of a reservation: its loyalty state and its intent.\<close>

definition same_stay :: "booking \<Rightarrow> booking \<Rightarrow> bool" where
  "same_stay b b' = (b' = b \<lparr> bk_loyalty := bk_loyalty b', bk_intent := bk_intent b' \<rparr>)"

definition stays :: "db \<Rightarrow> db \<Rightarrow> bool" where
  "stays d d' = (\<forall>n b. get_booking d n = Some b \<longrightarrow> (\<exists>b'. get_booking d' n = Some b' \<and> same_stay b b'))"

lemma same_stay_refl [simp]: "same_stay b b"
  by (simp add: same_stay_def)

lemma same_stay_trans: "same_stay a b \<Longrightarrow> same_stay b c \<Longrightarrow> same_stay a c"
  by (cases a, cases b, cases c) (simp add: same_stay_def)

lemma same_stay_sym: "same_stay a b \<Longrightarrow> same_stay b a"
  by (cases a, cases b) (simp add: same_stay_def)

lemma same_stay_update [simp]: "same_stay b (b \<lparr> bk_loyalty := s \<rparr>)" "same_stay b (b \<lparr> bk_intent := i \<rparr>)"
  by (simp_all add: same_stay_def)

lemma same_stay_id: "same_stay b b' \<Longrightarrow> bk_id b' = bk_id b"
  unfolding same_stay_def by (metis booking.select_convs(1) booking.surjective booking.update_convs(3,16))

lemma stays_refl [simp]: "stays d d"
  by (auto simp: stays_def)

lemma stays_trans: "stays a b \<Longrightarrow> stays b c \<Longrightarrow> stays a c"
  unfolding stays_def by (meson same_stay_trans)

lemma stays_bookings: "db_bookings d' = db_bookings d \<Longrightarrow> stays d d'"
  by (auto simp: stays_def get_booking_def)

lemma stays_put:
  assumes "get_booking d (bk_id b) = Some b0" and "same_stay b0 b"
  shows "stays d (put_booking d b)"
  unfolding stays_def using booking_table.get_after_put [OF assms(1)] assms by auto

lemma stays_save:
  assumes "get_booking d (bk_id b) = Some b0" and "same_stay b0 b"
  shows "stays d (save_loyalty d b f)"
  unfolding save_loyalty_def using assms same_stay_trans [OF assms(2)] by (intro stays_put) auto

lemma stays_save_read: "get_booking d n = Some b \<Longrightarrow> stays d (save_loyalty d b f)"
  using get_booking_in [of d n b] by (intro stays_save) auto

lemma redeem_work_stays:
  assumes "redeem_work e u m request n d = Inr (d', x)"
  shows "stays d d'"
  using assms
proof (cases rule: redeem_work_found)
  case again
  then show ?thesis by simp
next
  case (fresh b h d1 row)
  let ?d0 = "save_loyalty d b (\<lambda>s. s \<lparr> ls_hold := None \<rparr>)"
  have s0: "stays d ?d0" by (rule stays_save_read [OF fresh(1)])
  have "db_bookings d1 = db_bookings ?d0" using fresh(7) by (auto dest: post_appends)
  then have s1: "stays ?d0 d1" by (rule stays_bookings)
  have "stays d d1" by (rule stays_trans [OF s0 s1])
  then obtain b1 where "get_booking d1 n = Some b1" "same_stay b b1" using fresh(1) by (auto simp: stays_def)
  then have "stays d1 d'"
    unfolding fresh(8) using get_booking_in [OF fresh(1)]
    by (intro stays_save [of _ _ b1]) (auto intro: same_stay_sym)
  then show ?thesis by (rule stays_trans [OF \<open>stays d d1\<close>])
qed

lemma receipt_stays:
  assumes "receipt e d k key payload work = Inr (d', x)" and "\<And>d1 y. work d = Inr (d1, y) \<Longrightarrow> stays d d1"
  shows "stays d d'"
  using assms
  by (auto simp: receipt_def bindE_Inr_iff Let_def stays_def get_booking_def split: if_splits prod.splits)

lemma redeem_stays: "redeem e d u request n = Inr (d', x) \<Longrightarrow> stays d d'"
  unfolding redeem_def by (elim command_found) (erule receipt_stays, erule redeem_work_stays)

lemma redeem_ledger: "redeem e d u request n = Inr (d', x) \<Longrightarrow> ledger_ok (db_ledger d) \<Longrightarrow> ledger_ok (db_ledger d')"
  unfolding redeem_def
  by (elim command_found) (erule receipt_ledger, auto elim!: redeem_work_found dest: post_ledger_ok)

lemma restore_stays:
  assumes "restore_points e d n c evidence = Inr (d', x)"
  shows "stays d d'"
  using assms
proof (cases rule: restore_points_found)
  case none
  then show ?thesis by simp
next
  case (fresh b r m target d1 row)
  have "db_bookings d1 = db_bookings d" using fresh(8) by (auto dest: post_appends)
  then have "stays d d1" "get_booking d1 n = Some b" using fresh(1) by (auto simp: stays_bookings get_booking_def)
  then show ?thesis using stays_trans stays_save_read fresh(9) by blast
qed

lemma restore_ledger:
  assumes "restore_points e d n c evidence = Inr (d', x)" and "ledger_ok (db_ledger d)"
  shows "ledger_ok (db_ledger d')"
  using assms(1) by (cases rule: restore_points_found) (use assms(2) in \<open>auto dest: post_ledger_ok\<close>)

lemma attach_stays:
  assumes "attach_paid_phone_account e d b = Inr (d1, b1)" and "get_booking d n = Some b"
  shows "stays d d1" and "\<exists>b2. get_booking d1 n = Some b2 \<and> same_stay b2 b1" and "same_stay b b1"
proof -
  note A = attach_fields [OF assms(1)]
  have id: "get_booking d (bk_id b) = Some b" using assms(2) get_booking_in [OF assms(2)] by simp
  show "same_stay b b1"
    using A by (metis same_stay_def booking.surjective booking.update_convs(3,16))
  show st: "stays d d1"
    using A stays_put [of d "b \<lparr> bk_intent := bk_intent b1 \<rparr>" b] id by auto
  then obtain b2 where "get_booking d1 n = Some b2" "same_stay b b2" using assms(2) by (auto simp: stays_def)
  moreover have "same_stay b2 b1"
    using \<open>same_stay b b1\<close> \<open>same_stay b b2\<close> by (cases b, cases b1, cases b2) (simp add: same_stay_def)
  ultimately show "\<exists>b2. get_booking d1 n = Some b2 \<and> same_stay b2 b1" by blast
qed


lemma settle_facts_stays:
  assumes "settle_facts e d b f = Inr (d', oc)" and "get_booking d (bk_id b) = Some b0" and "same_stay b0 b"
    and "ledger_ok (db_ledger d)"
  shows "stays d d' \<and> ledger_ok (db_ledger d')"
proof (cases "oc_base oc = None")
  case True
  show ?thesis
  proof (rule settle_facts_found [OF assms(1)])
    fix owner chain
    assume un: "map_option se_hash (ls_settlement (bk_loyalty b)) = Some (facts_digest e f) \<Longrightarrow> d' = d \<and> oc = no_movement ''unchanged''"
      and ne: "map_option se_hash (ls_settlement (bk_loyalty b)) \<noteq> Some (facts_digest e f) \<Longrightarrow>
        \<exists>plan d1 branch rev_no. reward_plan (PyDecText (f_base f)) (member_id owner) chain = Inr plan
        \<and> settle_rows e (bk_id b) rev_no f (new_group d) plan 0 d = Inr (d1, branch)
        \<and> d' = save_loyalty d1 b (\<lambda>s. s \<lparr> ls_review := None,
             ls_settlement := Some \<lparr> se_revision = rev_no, se_hash = facts_digest e f, se_facts = f \<rparr>, ls_chain := Some chain \<rparr>)
        \<and> oc = \<lparr> oc_status = ''settled'', oc_movements = branch, oc_base = Some (f_base f) \<rparr>"
    have "d' = d" using un ne True by fastforce
    then show ?thesis using assms(4) by simp
  qed
next
  case False
  show ?thesis
  proof (rule settled_effect [OF assms(1) False assms(4)])
    fix owner chain new rev_no
    assume ok: "ledger_ok (db_ledger d')"
      and D: "d' = save_loyalty (d \<lparr> db_ledger := db_ledger d @ new \<rparr>) b (\<lambda>s. s \<lparr> ls_review := None,
             ls_settlement := Some \<lparr> se_revision = rev_no, se_hash = facts_digest e f, se_facts = f \<rparr>, ls_chain := Some chain \<rparr>)"
    have "stays d (d \<lparr> db_ledger := db_ledger d @ new \<rparr>)" by (rule stays_bookings) simp
    moreover have "stays (d \<lparr> db_ledger := db_ledger d @ new \<rparr>) d'"
      unfolding D using assms(2,3) by (intro stays_save [of _ _ b0]) (simp_all add: get_booking_def)
    ultimately show ?thesis using stays_trans ok by blast
  qed
qed

lemma reconcile_stays:
  assumes "reconcile e d n = Inr (d', oc)" and "ledger_ok (db_ledger d)"
  shows "stays d d' \<and> ledger_ok (db_ledger d')"
proof (cases "loyalty_enabled e")
  case False
  then show ?thesis using assms by (simp add: reconcile_def)
next
  case True
  obtain b where b: "get_booking d n = Some b"
    using assms(1) True by (auto simp: reconcile_def posting_transaction_Inr bindE_Inr_iff)
  obtain d1 b1 where a: "attach_paid_phone_account e d b = Inr (d1, b1)"
    using assms(1) True b by (auto simp: reconcile_def posting_transaction_Inr bindE_Inr_iff)
  note S = attach_stays [OF a b] and A = attach_fields [OF a]
  have id: "bk_id b1 = n" using A get_booking_in [OF b] by simp
  obtain b2 where b2: "get_booking d1 n = Some b2" "same_stay b2 b1" using S(2) by blast
  have L: "ledger_ok (db_ledger d1)" using A assms(2) by simp
  have "stays d1 d' \<and> ledger_ok (db_ledger d')"
  proof (cases "booking_allowed e d1 b1")
    case False
    then show ?thesis using assms(1) True b a L by (simp add: reconcile_def posting_transaction_Inr)
  next
    case al: True
    obtain r where r: "booking_facts e d1 b1 False = Inr r"
      using assms(1) True b a al by (auto simp: reconcile_def posting_transaction_Inr bindE_Inr_iff)
    show ?thesis
    proof (cases r)
      case (Inl blocker)
      then have "d' = save_loyalty d1 b1 (\<lambda>s. s \<lparr> ls_review := Some blocker \<rparr>)"
        using assms(1) True b a al r by (simp add: reconcile_def posting_transaction_Inr)
      then show ?thesis using stays_save [of d1 b1 b2] b2 id L by simp
    next
      case (Inr f)
      then have s: "settle_facts e d1 (with_scheduled f b1) f = Inr (d', oc)"
        using assms(1) True b a al r by (simp add: reconcile_def posting_transaction_Inr)
      have ss: "same_stay b2 (with_scheduled f b1)"
        using b2(2) by (rule same_stay_trans) (simp add: with_scheduled_def split: option.splits)
      show ?thesis
        by (rule settle_facts_stays [OF s _ ss L]) (use b2(1) id in simp)
    qed
  qed
  then show ?thesis using S(1) stays_trans by blast
qed

lemma settle_points_stays:
  "settle_booking_points e d n = Inr d' \<Longrightarrow> ledger_ok (db_ledger d) \<Longrightarrow> stays d d' \<and> ledger_ok (db_ledger d')"
  by (auto simp: settle_booking_points_def bindE_Inr_iff dest: redeem_stays redeem_ledger split: if_splits prod.splits)

lemma restore_cancelled_stays:
  "restore_cancelled_points e d n = Inr d' \<Longrightarrow> ledger_ok (db_ledger d) \<Longrightarrow> stays d d' \<and> ledger_ok (db_ledger d')"
  by (auto simp: restore_cancelled_points_def bindE_Inr_iff dest: restore_stays restore_ledger
      split: if_splits prod.splits option.splits)

lemma reconcile_failed_stays:
  assumes "get_booking d n = Some b"
  shows "\<exists>d' x. reconcile_failed d n = Inr (d', x) \<and> stays d d' \<and> db_ledger d' = db_ledger d"
  using assms stays_save_read [OF assms] by (simp add: reconcile_failed_def)

lemma reconcile_steps_stays:
  assumes b: "get_booking d n = Some b" and L: "ledger_ok (db_ledger d)"
  shows "\<exists>d' x. reconcile_steps e d n = Inr (d', x) \<and> stays d d' \<and> ledger_ok (db_ledger d')"
proof -
  have fail: "\<exists>d' x. reconcile_failed d2 n = Inr (d', x) \<and> stays d d' \<and> ledger_ok (db_ledger d')"
    if st: "stays d d2" and l: "ledger_ok (db_ledger d2)" for d2
  proof -
    obtain b2 where "get_booking d2 n = Some b2" using st b by (auto simp: stays_def)
    from reconcile_failed_stays [OF this] show ?thesis using st l stays_trans by fastforce
  qed
  show ?thesis
  proof (cases "settle_booking_points e d n")
    case (Inl x)
    then show ?thesis using fail [of d] L by (simp add: reconcile_steps_def)
  next
    case (Inr d1)
    note 1 = settle_points_stays [OF Inr L]
    show ?thesis
    proof (cases "restore_cancelled_points e d1 n")
      case (Inl x)
      then show ?thesis using fail [of d1] 1 Inr by (simp add: reconcile_steps_def)
    next
      case i2: (Inr d2)
      note 2 = restore_cancelled_stays [OF i2 conjunct2 [OF 1]]
      have st2: "stays d d2" using 1 2 stays_trans by blast
      show ?thesis
      proof (cases "reconcile e d2 n")
        case (Inl x)
        then show ?thesis using fail [of d2] st2 2 Inr i2 by (simp add: reconcile_steps_def)
      next
        case i3: (Inr y)
        obtain d3 oc where y: "y = (d3, oc)" by (cases y)
        note 3 = reconcile_stays [OF i3 [unfolded y] conjunct2 [OF 2]]
        have "stays d d3" using st2 3 stays_trans by blast
        then show ?thesis using 3 Inr i2 i3 y by (simp add: reconcile_steps_def)
      qed
    qed
  qed
qed

text \<open>A failure in the rewards never undoes a stay. The guarded reconciliation of an existing
  reservation always returns, whatever its parts raise; every reservation keeps all of its
  fields but the loyalty state and the intent, and the ledger stays well formed.\<close>

lemma safe_reconcile_total:
  assumes "get_booking d n = Some b" and "ledger_ok (db_ledger d)"
  shows "\<exists>d' x. safe_reconcile e d n = Inr (d', x) \<and> ledger_ok (db_ledger d')
    \<and> (\<forall>k c. get_booking d k = Some c \<longrightarrow> (\<exists>c'. get_booking d' k = Some c' \<and> same_stay c c'))"
  using reconcile_steps_stays [OF assms, of e] assms
  by (auto simp: safe_reconcile_def stays_def)

lemma safe_reconcile_total_at: "\<exists>d' x. safe_reconcile sample_env paid_db 70 = Inr (d', x)"
proof -
  have "get_booking paid_db 70 = Some paid_booking" "ledger_ok (db_ledger paid_db)"
    by (simp_all add: get_booking_def row_get_def paid_db_def paid_booking_def sample_booking_def sample_db_def)
  from safe_reconcile_total [OF this, of sample_env] show ?thesis by blast
qed


subsection \<open>The frozen split\<close>

lemma cash_due_found:
  assumes "cash_due e d i freeze = Inr (d', Some due)" and "loyalty_enabled e"
    and "booking_of_intent d (in_id i) = Some b" and "allocation (bk_loyalty b) = Some (points, owner)"
  shows "in_payment_sar i = Some (due + points) \<and> intent_total_sar (fx e) i = Inr (due + points) \<and> 0 \<le> due
    \<and> d' = (if freeze then save_loyalty d b (\<lambda>s. s \<lparr> ls_frozen := Some (due, points) \<rparr>) else d)"
  using assms by (auto simp: cash_due_def allocated_due_def bindE_Inr_iff split: if_splits)

lemma booking_of_intent_save:
  assumes "booking_of_intent d k = Some b" and "distinct (keys_of bk_id (db_bookings d))"
  shows "booking_of_intent (save_loyalty d b f) k = Some (b \<lparr> bk_loyalty := f (bk_loyalty b) \<rparr>)"
proof -
  have "find P (row_put bk_id bs b') = Some b'"
    if "find P bs = Some b" "distinct (keys_of bk_id bs)" "bk_id b' = bk_id b" "P b'" for P bs b'
    using that
  proof (induction bs)
    case (Cons x xs)
    show ?case
    proof (cases "P x")
      case True
      then show ?thesis using Cons.prems by (simp add: row_put_def)
    next
      case False
      then have f: "find P xs = Some b" using Cons.prems(1) by simp
      then have "bk_id x \<noteq> bk_id b" using Cons.prems(2) find_Some_in [OF f] by (auto simp: keys_of_def)
      then show ?thesis using Cons.IH [OF f] Cons.prems(2-4) False by (simp add: row_put_Cons keys_of_def)
    qed
  qed simp
  from this [OF assms(1) [unfolded booking_of_intent_def] assms(2), of "b \<lparr> bk_loyalty := f (bk_loyalty b) \<rparr>"]
  show ?thesis
    using find_Some_in [OF assms(1) [unfolded booking_of_intent_def]]
    by (simp add: booking_of_intent_def bookings_save)
qed

text \<open>The split the guest sees is the split that is charged. When checkout freezes the amount
  left for the card, cash and points add up to the exact contract value, the cash is not
  negative, and an attempt over that amount is shown with exactly this cash, these points
  and this total.\<close>

lemma frozen_split_shown:
  assumes "cash_due e d i True = Inr (d', Some due)" and "loyalty_enabled e"
    and "booking_of_intent d (in_id i) = Some b" and "allocation (bk_loyalty b) = Some (points, owner)"
    and "distinct (keys_of bk_id (db_bookings d))" and "whole_cents points" and "0 < points" and "points < 10 ^ 26"
    and "pa_amount p = due" and "pa_currency p = payment_currency"
  shows "0 \<le> due \<and> intent_total_sar (fx e) i = Inr (due + points) \<and> in_payment_sar i = Some (due + points)
    \<and> (\<exists>paid. for_attempt e d' i p False =
          Inr (Some \<lparr> sv_gross = due + points, sv_points = points, sv_cash = due, sv_paid = paid \<rparr>))"
proof -
  note C = cash_due_found [OF assms(1-4)]
  have fr: "Option.bind (booking_of_intent d' (in_id i)) (\<lambda>b. ls_frozen (bk_loyalty b)) = Some (due, points)"
    using C booking_of_intent_save [OF assms(3,5)] by simp
  have q: "quantize round_half_even 2 points = Inr points"
  proof -
    obtain k where k: "points = of_int k / 10 ^ 2" using assms(6) by (auto simp: whole_cents_def amount_def)
    then have "(of_int \<bar>k\<bar> :: rat) < of_int (10 ^ 28)" using assms(7,8) by (simp add: field_simps)
    then have "\<bar>k\<bar> < 10 ^ 28" by (simp only: of_int_less_iff)
    then show ?thesis unfolding k by (rule half_even.quantize_exact)
  qed
  show ?thesis
    using C assms(7,9,10) q unfolding for_attempt_def fr by (simp add: Let_def)
qed

lemma holding_cash_due: "\<exists>d'. cash_due sample_env holding_db sample_intent True = Inr (d', Some 970)"
proof -
  have m: "member_for sample_env holding_db (sample_user 1) True = Inr (sample_member 11 1 ''LSA-M000011'')"
    by (simp add: member_for_def participant_allowed_def holding_db_def funded_db_def sample_defs)
  have b: "booking_of_intent holding_db (in_id sample_intent) = Some held_booking"
    "loyalty_enabled sample_env" "booking_allowed sample_env holding_db held_booking"
    "allocation (bk_loyalty held_booking) = Some (30, Some 11)" "in_customer sample_intent = Some 1"
    "in_payment_sar sample_intent = Some 1000" "get_user holding_db 1 = Some (sample_user 1)"
    "intent_total_sar (fx sample_env) sample_intent = Inr 1000"
    by (simp_all add: booking_of_intent_def holding_db_def held_booking_def booking_allowed_def allocation_def
        get_user_def row_get_def intent_total_sar_def payment_currency_def funded_db_def sample_defs)
  have id: "member_id (sample_member 11 1 x) = 11" for x by (simp add: sample_member_def)
  show ?thesis
    by (simp add: cash_due_def allocated_due_def b m id del: One_nat_def)
qed

lemma frozen_split_shown_at:
  "\<exists>d' paid. for_attempt sample_env d' sample_intent \<lparr> pa_id = 1, pa_provider = ''hyperpay'', pa_provider_id = None,
      pa_status = PaCreated, pa_amount = 970, pa_currency = ''SAR'', pa_verified_at = None, pa_key = ''k'', pa_modification = None, pa_request = None,
       pa_checkout = None, pa_merchant = None, pa_integrity = [], pa_code = [], pa_description = [], pa_failure = [], pa_brand = [] \<rparr> False =
    Inr (Some \<lparr> sv_gross = 1000, sv_points = 30, sv_cash = 970, sv_paid = paid \<rparr>)"
proof -
  obtain d' where d': "cash_due sample_env holding_db sample_intent True = Inr (d', Some 970)"
    using holding_cash_due by blast
  have b: "booking_of_intent holding_db (in_id sample_intent) = Some held_booking"
    "loyalty_enabled sample_env" "allocation (bk_loyalty held_booking) = Some (30, Some 11)"
    "distinct (keys_of bk_id (db_bookings holding_db))"
    by (simp_all add: booking_of_intent_def holding_db_def held_booking_def allocation_def keys_of_def sample_defs)
  have w: "whole_cents 30" by (auto simp: whole_cents_def amount_def intro: exI [of _ 3000])
  show ?thesis
    using frozen_split_shown [OF d' b(2,1,3,4) w, of "\<lparr> pa_id = 1, pa_provider = ''hyperpay'', pa_provider_id = None,
      pa_status = PaCreated, pa_amount = 970, pa_currency = ''SAR'', pa_verified_at = None, pa_key = ''k'', pa_modification = None, pa_request = None,
       pa_checkout = None, pa_merchant = None, pa_integrity = [], pa_code = [], pa_description = [], pa_failure = [], pa_brand = [] \<rparr>"]
    by (auto simp: payment_currency_def)
qed

text \<open>Points of an expired checkout come back only when nothing was or may be paid. If the
  clean-up clears the hold of a booking, the booking is not active, its intent has expired, no
  confirmation is in progress, and if its split was frozen every payment attempt has failed,
  been cancelled or expired.\<close>

lemma expired_release_is_safe:
  assumes "release_expired_points e d k = Inr d'" and "booking_of_intent d k = Some b"
    and "ls_hold (bk_loyalty b) \<noteq> None" and "d' \<noteq> d"
  shows "bk_status b \<notin> set active_statuses \<and> map_option in_status (bk_intent b) = Some InExpired
    \<and> \<not> ls_points_started (bk_loyalty b)
    \<and> (ls_frozen (bk_loyalty b) = None \<or> list_all settled_attempt (booking_payments b))
    \<and> d' = save_loyalty d b (\<lambda>s. s \<lparr> ls_hold := None, ls_frozen := None \<rparr>)"
proof -
  have en: "loyalty_enabled e" using assms(1,4) by (auto simp: release_expired_points_def split: if_splits)
  have ok: "release_allowed b = Inr ()"
    using assms en
    by (auto simp: release_expired_points_def posting_transaction_Inr split: if_splits sum.splits)
  have live: "\<not> live_attempt p \<longleftrightarrow> settled_attempt p" for p
    by (cases "pa_status p") (simp_all add: live_attempt_def settled_attempt_def)
  have "\<not> ls_points_started (bk_loyalty b) \<and> (ls_frozen (bk_loyalty b) = None \<or> list_all settled_attempt (booking_payments b))"
    using ok live by (auto simp: release_allowed_def list_ex_iff list_all_iff split: if_splits)
  then show ?thesis
    using assms en ok
    by (auto simp: release_expired_points_def posting_transaction_Inr split: if_splits)
qed


definition expired_booking :: booking where
  "expired_booking = held_booking \<lparr> bk_status := AwaitingPayment,
     bk_intent := Some (sample_intent \<lparr> in_status := InExpired \<rparr>) \<rparr>"

definition expired_db :: db where
  "expired_db = funded_db \<lparr> db_bookings := [expired_booking] \<rparr>"

lemma expired_release: "release_expired_points sample_env expired_db 50 =
    Inr (save_loyalty expired_db expired_booking (\<lambda>s. s \<lparr> ls_hold := None, ls_frozen := None \<rparr>))"
  by (simp add: release_expired_points_def posting_transaction_def launch_at_def booking_of_intent_def expired_db_def
      expired_booking_def held_booking_def booking_allowed_def active_statuses_def release_allowed_def sample_defs)

lemma expired_release_is_safe_at: "list_all settled_attempt (booking_payments expired_booking)
    \<or> ls_frozen (bk_loyalty expired_booking) = None"
proof -
  have b: "booking_of_intent expired_db 50 = Some expired_booking" "ls_hold (bk_loyalty expired_booking) \<noteq> None"
    by (simp_all add: booking_of_intent_def expired_db_def expired_booking_def held_booking_def sample_defs)
  have "db_bookings (save_loyalty expired_db expired_booking (\<lambda>s. s \<lparr> ls_hold := None, ls_frozen := None \<rparr>)) \<noteq> db_bookings expired_db"
    by (simp add: bookings_save row_put_def expired_db_def expired_booking_def held_booking_def sample_booking_def
        blank_loyalty_def)
  then have "save_loyalty expired_db expired_booking (\<lambda>s. s \<lparr> ls_hold := None, ls_frozen := None \<rparr>) \<noteq> expired_db" by metis
  from expired_release_is_safe [OF expired_release b this] show ?thesis by (elim conjE disjE) simp_all
qed

end
