(* ===== verification/Membership.thy ===== *)
theory Membership
  imports Checkout
begin

section \<open>Joining, arriving, inviting and the due stays\<close>

text \<open>
  \<open>services.enroll\<close>, \<open>confirm_arrival\<close> and \<open>issue_invite\<close>, the application of past-stay offers to
  a new member (apps/loyalty/past_guest_offers.py), and the scheduler's sweep of
  apps/loyalty/accrual.py.
\<close>

subsection \<open>Offers of past stays\<close>

fun apply_offers :: "env \<Rightarrow> nat \<Rightarrow> nat list \<Rightarrow> db \<Rightarrow> db res" where
  "apply_offers e u [] d = Inr d"
| "apply_offers e u (n # ns) d =
     bindE (posting_transaction e
       (bindE (of_option (DoesNotExist ''reservation'') (get_booking d n)) (\<lambda>b.
         if map_option of_beneficiary (authorized_offer e b) = Some u
         then bindE (safe_reconcile e d n) (\<lambda>(d', x). Inr d')
         else Inr d))) (apply_offers e u ns)"

definition apply_for_user :: "env \<Rightarrow> db \<Rightarrow> user \<Rightarrow> db res" where
  "apply_for_user e d u =
     (if \<not> loyalty_enabled e \<or> \<not> u_active u
         \<or> \<not> list_ex (\<lambda>m. m_customer m = user_id u \<and> m_status m = ActiveMember) (db_members d)
         \<or> \<not> list_ex (\<lambda>p. ph_user p = user_id u) (db_phones d)
      then Inr d
      else apply_offers e (user_id u) (offered_bookings e (user_id u)) d)"

subsection \<open>Joining\<close>

definition new_member_id :: "db \<Rightarrow> nat" where
  "new_member_id d = Suc (fold max (map member_id (db_members d)) 0)"

definition new_member :: "env \<Rightarrow> db \<Rightarrow> user \<Rightarrow> string \<Rightarrow> string \<Rightarrow> string \<Rightarrow> member" where
  "new_member e d u version reference language = \<lparr> member_id = new_member_id d, m_customer = user_id u,
     m_number = ''LSA-M'' @ padded 6 (new_member_id d), m_status = ActiveMember,
     m_joined_at = now e, m_consent_at = now e, m_terms_version = version,
     m_terms_reference = reference, m_language = language, m_first_completed = None,
     m_first_completed_at = None, m_invitation_token = None, m_invitation_issued_at = None,
     m_receipts = [], m_withdrawn_at = None \<rparr>"

text \<open>The inviter behind a token, who must still be allowed to invite and be the confirmed one.\<close>

definition enroll_parent :: "env \<Rightarrow> db \<Rightarrow> string option \<Rightarrow> nat option \<Rightarrow> member option res" where
  "enroll_parent e d token confirmed =
     (if token = None \<or> token = Some [] then
        (if confirmed \<noteq> None then Inl (ValidationError ''token_required'') else Inr None)
      else
        bindE (of_option (ValidationError ''inviter'')
          (find (\<lambda>m. m_invitation_token m = token \<and> m_status m = ActiveMember) (db_members d))) (\<lambda>p.
        if \<not> participant_allowed e (get_user d (m_customer p)) then Inl (ValidationError ''inviter'')
        else bindE (invitation_eligible e d p) (\<lambda>ok.
          if \<not> ok \<or> confirmed \<noteq> Some (member_id p) then Inl (ValidationError ''inviter'')
          else Inr (Some p))))"

text \<open>\<open>consent_metadata\<close>: an issued edition of the terms has one reference per language.\<close>

definition consent_checked :: "env \<Rightarrow> string \<Rightarrow> string \<Rightarrow> string \<Rightarrow> unit res" where
  "consent_checked e version reference language =
     (case issued_reference e version language of None \<Rightarrow> Inr ()
      | Some expected \<Rightarrow> ensure (reference = expected) (ValidationError ''terms_reference''))"

definition create_member :: "db \<Rightarrow> member \<Rightarrow> db res" where
  "create_member d m =
     (if list_ex (\<lambda>x. m_customer x = m_customer m) (db_members d) then Inl (IntegrityError ''customer'')
      else if list_ex (\<lambda>x. m_number x = m_number m) (db_members d) then Inl (IntegrityError ''number'')
      else Inr (d \<lparr> db_members := db_members d @ [m] \<rparr>))"

text \<open>\<open>Referral.objects.create\<close> with the constraints of the table.\<close>

definition create_link :: "db \<Rightarrow> link \<Rightarrow> db res" where
  "create_link d l =
     (if list_ex (\<lambda>x. ln_member x = ln_member l) (db_referrals d) then Inl (IntegrityError ''member'')
      else if list_ex (\<lambda>x. ln_tree_number x = ln_tree_number l) (db_referrals d)
      then Inl (IntegrityError ''tree_number'')
      else if ln_inviter l = Some (ln_member l) then Inl (IntegrityError ''loyalty_no_self_referral'')
      else if list_ex (\<lambda>x. ln_inviter x = ln_inviter l \<and> ln_branch x = ln_branch l) (db_referrals d)
      then Inl (IntegrityError ''loyalty_unique_child_branch'')
      else Inr (d \<lparr> db_referrals := db_referrals d @ [l] \<rparr>))"

definition joining_link :: "nat \<Rightarrow> link option \<Rightarrow> nat \<Rightarrow> link" where
  "joining_link k parent branch =
     (case parent of
        None \<Rightarrow> \<lparr> ln_member = k, ln_inviter = None, ln_root = k, ln_tree_number = padded 4 branch,
                 ln_depth = 0, ln_branch = branch \<rparr>
      | Some p \<Rightarrow> \<lparr> ln_member = k, ln_inviter = Some (ln_member p), ln_root = ln_root p,
                   ln_tree_number = ln_tree_number p @ ''-'' @ padded 4 branch,
                   ln_depth = ln_depth p + 1, ln_branch = branch \<rparr>)"

definition place_member :: "db \<Rightarrow> nat \<Rightarrow> member option \<Rightarrow> db res" where
  "place_member d k parent =
     bindE (case parent of None \<Rightarrow> Inr None
            | Some p \<Rightarrow> bindE (current_link d (member_id p)) (\<lambda>l. Inr (Some l))) (\<lambda>up.
       create_link d (joining_link k up (next_branch d (map_option member_id parent))))"

fun reconcile_all :: "env \<Rightarrow> nat list \<Rightarrow> db \<Rightarrow> db res" where
  "reconcile_all e [] d = Inr d"
| "reconcile_all e (n # ns) d = bindE (reconcile e d n) (\<lambda>(d', oc). reconcile_all e ns d')"

definition enroll_new ::
    "env \<Rightarrow> db \<Rightarrow> user \<Rightarrow> string \<Rightarrow> string \<Rightarrow> string \<Rightarrow> member option \<Rightarrow> (db \<times> nat) res" where
  "enroll_new e d u version reference language parent =
     (let m = new_member e d u version reference language; k = member_id m in
      bindE (consent_checked e version reference language) (\<lambda>_.
      bindE (create_member d m) (\<lambda>d1.
      bindE (place_member d1 k parent) (\<lambda>d2.
      bindE (record_event d2 \<lparr> ev_kind = JoinEvent, ev_key = k, ev_customer = user_id u, ev_member = k,
               ev_ledger = None, ev_source = ''guest'' \<rparr>) (\<lambda>d3.
      bindE (reconcile_all e (map bk_id (customer_bookings d3 (user_id u))) d3) (\<lambda>d4.
      bindE (apply_for_user e d4 u) (\<lambda>d5. Inr (d5, k))))))))"

definition enroll ::
    "env \<Rightarrow> db \<Rightarrow> user \<Rightarrow> bool \<Rightarrow> string \<Rightarrow> string \<Rightarrow> string \<Rightarrow> string option \<Rightarrow> nat option \<Rightarrow> (db \<times> nat) res" where
  "enroll e d u consent version reference language token confirmed =
     posting_transaction e
      (if \<not> participant_allowed e (Some u) then Inl (PermissionDenied ''outside_pilot'')
       else if \<not> u_authenticated u \<or> \<not> u_active u then Inl (PermissionDenied ''verified_account'')
       else if \<not> u_verified u then Inl (PermissionDenied ''verify_first'')
       else if \<not> consent \<or> version = [] \<or> reference = [] \<or> language \<notin> {''ar'', ''en'', ''fr''}
       then Inl (ValidationError ''consent'')
       else (case member_of_customer d (user_id u) of
           Some m \<Rightarrow> if m_status m \<noteq> ActiveMember then Inl (ValidationError ''rejoin'')
                     else Inr (d, member_id m)
         | None \<Rightarrow> bindE (enroll_parent e d token confirmed)
                     (enroll_new e d u version reference language)))"

subsection \<open>Arriving\<close>

definition arrival_time_ok :: "env \<Rightarrow> booking \<Rightarrow> datetime \<Rightarrow> string \<Rightarrow> unit res" where
  "arrival_time_ok e b arrived reference =
     (case arrived of
        Naive _ \<Rightarrow> Inl (ValidationError ''arrival_evidence'')
      | Aware t \<Rightarrow>
          if now e < t \<or> reference = [] then Inl (ValidationError ''arrival_evidence'')
          else bindE (stay_times e b) (\<lambda>(start, end_at).
            if end_at \<le> now e \<or> ls_departure (bk_loyalty b) \<noteq> None
            then Inl (ValidationError ''stay_over'')
            else if end_at \<le> t \<or> (\<not> policy_enabled e \<and> (t < start \<or> end_at \<le> t))
            then Inl (ValidationError ''arrival_outside_stay'') else Inr ()))"

definition confirm_arrival ::
    "env \<Rightarrow> db \<Rightarrow> user \<Rightarrow> nat \<Rightarrow> datetime \<Rightarrow> string \<Rightarrow> (db \<times> outcome) res" where
  "confirm_arrival e d operator n arrived reference =
     posting_transaction e
      (if \<not> u_active operator \<or> \<not> u_staff operator \<or> \<not> u_change_reservation operator
       then Inl (PermissionDenied ''operator'')
       else bindE (of_option (DoesNotExist ''reservation'') (get_booking d n)) (\<lambda>b.
       if bk_intent b = None then Inl (ValidationError ''no_website_booking'')
       else if \<not> booking_allowed e d b then Inl (PermissionDenied ''outside_pilot'')
       else if bk_source b \<noteq> DirectWebsite then Inl (ValidationError ''outside_programme'')
       else bindE (launch_at e) (\<lambda>launch.
       if (bk_created_at b < launch \<and> \<not> historical_award_allowed e d b)
          \<or> bk_status b \<notin> {Confirmed, Modified}
       then Inl (ValidationError ''not_eligible'')
       else bindE (arrival_time_ok e b arrived reference) (\<lambda>_.
       bindE (case ls_arrival (bk_loyalty b) of
            Some old \<Rightarrow> if ar_at old \<noteq> arrived \<or> ar_reference old \<noteq> reference
                        then Inl (ValidationError ''arrival_recorded'') else Inr d
          | None \<Rightarrow> Inr (save_loyalty d b (\<lambda>s. s \<lparr> ls_arrival := Some \<lparr> ar_at = arrived,
                      ar_reference = reference, ar_operator = user_id operator \<rparr> \<rparr>)))
         (\<lambda>d1. reconcile e d1 n)))))"

subsection \<open>Inviting\<close>

definition invite_member :: "env \<Rightarrow> booking \<Rightarrow> instant \<Rightarrow> bool \<Rightarrow> member \<Rightarrow> member" where
  "invite_member e b end_at test m =
     (let m1 = (if test \<and> (ls_arrival (bk_loyalty b) = None \<or> now e < end_at)
                then m \<lparr> m_receipts := dict_set ''__pilot_invitation__''
                       (PyDict [(''reservation_reference'', PyStr (bk_reference b)),
                                (''reason'', PyStr ''explicit-owner-test-stay-exception''),
                                (''at'', PyTimeText (Aware (now e)))]) (m_receipts m) \<rparr>
                else m \<lparr> m_first_completed := Some (bk_id b), m_first_completed_at := Some end_at \<rparr>)
      in m1 \<lparr> m_invitation_token := Some (fresh_token e), m_invitation_issued_at := Some (now e) \<rparr>)"

definition issue_token :: "env \<Rightarrow> db \<Rightarrow> user \<Rightarrow> member \<Rightarrow> booking \<Rightarrow> instant \<Rightarrow> bool \<Rightarrow> (db \<times> string) res" where
  "issue_token e d u m b end_at test =
     bindE (record_event d \<lparr> ev_kind = ReadyEvent, ev_key = member_id m, ev_customer = user_id u,
              ev_member = member_id m, ev_ledger = None, ev_source = ''system'' \<rparr>) (\<lambda>d1.
     if list_ex (\<lambda>x. m_invitation_token x = Some (fresh_token e)) (db_members d1)
     then Inl (IntegrityError ''invitation_token'')
     else Inr (put_member d1 (invite_member e b end_at test m), fresh_token e))"

definition issue_invite :: "env \<Rightarrow> db \<Rightarrow> user \<Rightarrow> nat \<Rightarrow> (db \<times> string) res" where
  "issue_invite e d u n =
     posting_transaction e (bindE (member_for e d u True) (\<lambda>m.
       case m_invitation_token m of
         Some (c # t) \<Rightarrow>
           bindE (invitation_eligible e d m) (\<lambda>ok.
             if ok then Inr (d, c # t) else Inl (ValidationError ''invitation_not_eligible''))
       | _ \<Rightarrow>
           bindE (member_booking e d u n) (\<lambda>b.
           bindE (stay_times e b) (\<lambda>(start, end_at).
           bindE (effective_arrival e b) (\<lambda>arrived.
           let test = stay_exception_allowed e d b in
           if (arrived = None \<and> \<not> test) \<or> (now e < end_at \<and> \<not> test)
              \<or> bk_status b \<notin> set active_statuses
              \<or> (end_at < m_consent_at m \<and> \<not> historical_award_allowed e d b)
           then Inl (ValidationError ''first_completed_stay'')
           else bindE (booking_facts e d b False) (\<lambda>r.
             case r of
               Inl blocker \<Rightarrow> Inl (ValidationError ''paid_stay_required'')
             | Inr f \<Rightarrow> issue_token e d u m b end_at test))))))"

subsection \<open>The due stays\<close>

record sweep =
  sw_status :: string
  sw_checked :: nat
  sw_settled :: nat
  sw_movements :: nat

definition known_phones :: "db \<Rightarrow> string list" where
  "known_phones d = map ph_number (filter (\<lambda>p.
     (case get_user d (ph_user p) of None \<Rightarrow> False | Some u \<Rightarrow> u_active u)
     \<and> (case member_of_customer d (ph_user p) of None \<Rightarrow> False | Some m \<Rightarrow> m_status m = ActiveMember))
     (db_phones d))"

definition due_candidate :: "env \<Rightarrow> db \<Rightarrow> instant \<Rightarrow> booking \<Rightarrow> bool" where
  "due_candidate e d launch b =
     (let day = local_date (\<lambda>_. 0) (now e) in
      (case bk_intent b of None \<Rightarrow> False
       | Some i \<Rightarrow> (case in_customer i of
             Some c \<Rightarrow> (case get_user d c of None \<Rightarrow> False | Some u \<Rightarrow> u_active u)
                \<and> (case member_of_customer d c of None \<Rightarrow> False | Some m \<Rightarrow> m_status m = ActiveMember)
           | None \<Rightarrow> in_phone i \<in> set (known_phones d)))
      \<and> bk_source b = DirectWebsite \<and> bk_status b \<in> set active_statuses \<and> launch \<le> bk_created_at b
      \<and> bk_check_in b \<le> day + 1 \<and> day - 1 \<le> bk_check_out b
      \<and> ls_arrival (bk_loyalty b) = None \<and> ls_settlement (bk_loyalty b) = None)"

definition due_now :: "env \<Rightarrow> booking \<Rightarrow> bool res" where
  "due_now e b =
     (case scheduled_eligibility e b of
        Inr s \<Rightarrow> Inr (s \<noteq> None)
      | Inl (ValidationError s) \<Rightarrow> Inr False
      | Inl (ValueError s) \<Rightarrow> Inr False
      | Inl (KeyError s) \<Rightarrow> Inr False
      | Inl x \<Rightarrow> Inl x)"

fun sweep_loop :: "env \<Rightarrow> booking list \<Rightarrow> sweep \<Rightarrow> db \<Rightarrow> (db \<times> sweep) res" where
  "sweep_loop e [] s d = Inr (d, s)"
| "sweep_loop e (b # bs) s d =
     (let s1 = s \<lparr> sw_checked := sw_checked s + 1 \<rparr> in
      bindE (due_now e b) (\<lambda>due.
        if \<not> due then sweep_loop e bs s1 d
        else bindE (safe_reconcile e d (bk_id b)) (\<lambda>(d', x).
          sweep_loop e bs
            (case x of None \<Rightarrow> s1
             | Some oc \<Rightarrow> s1 \<lparr> sw_settled := sw_settled s1 + (if oc_status oc = ''settled'' then 1 else 0),
                              sw_movements := sw_movements s1 + oc_movements oc \<rparr>) d')))"

definition accrue_due_stays :: "env \<Rightarrow> db \<Rightarrow> (db \<times> sweep) res" where
  "accrue_due_stays e d =
     (if \<not> policy_enabled e
      then Inr (d, \<lparr> sw_status = ''disabled'', sw_checked = 0, sw_settled = 0, sw_movements = 0 \<rparr>)
      else bindE (launch_at e) (\<lambda>launch.
        sweep_loop e (sort_key bk_created_at (sort_key bk_id (filter (due_candidate e d launch) (db_bookings d))))
          \<lparr> sw_status = ''completed'', sw_checked = 0, sw_settled = 0, sw_movements = 0 \<rparr> d))"

end
