(* ===== verification/Stay.thy ===== *)
theory Stay
  imports Membership
begin

section \<open>Ending a stay (apps/loyalty/stay.py)\<close>

text \<open>
  The plan of an actual departure (\<open>departure_plan\<close>: verified facts, the prices of the nights
  agreed at booking time, the refund of the nights still to come, its split over cash and
  points) and its one-time recording by an authorised operator.
\<close>

subsection \<open>The prices of the nights\<close>

text \<open>Iterating over a JSON value: a list, the keys of a dictionary, the characters of a text.\<close>

fun iterated :: "pyval \<Rightarrow> pyval list option" where
  "iterated (PyList xs) = Some xs"
| "iterated (PyDict kvs) = Some (map (\<lambda>kv. PyStr (fst kv)) kvs)"
| "iterated (PyStr s) = Some (map (\<lambda>c. PyStr [c]) s)"
| "iterated v = None"

text \<open>\<open>any(p["type"] != "baseRate" and Decimal(p["total"]) != 0 ...)\<close>.\<close>

fun any_extra :: "pyval list \<Rightarrow> bool res" where
  "any_extra [] = Inr False"
| "any_extra (p # ps) =
     bindE (of_option (TypeError ''subscript'') (dict_items p)) (\<lambda>part.
     bindE (of_option (KeyError ''type'') (map_of part ''type'')) (\<lambda>kind.
       if kind = PyStr ''baseRate'' then any_extra ps
       else bindE (of_option (KeyError ''total'') (map_of part ''total'')) (\<lambda>t.
            bindE (of_option (DecimalError ''ConversionSyntax'') (to_decimal t)) (\<lambda>v.
              if v \<noteq> Fin 0 then Inr True else any_extra ps))))"

text \<open>
  The snapshot of the prices: the saved one, the quote's for unchanged dates and total, or the
  whole total of a single night.
\<close>

definition contract_nights :: "booking \<Rightarrow> priced option" where
  "contract_nights b =
     (let quoted = (case bk_intent b of
            None \<Rightarrow> None
          | Some i \<Rightarrow>
              let q = in_quote i in
              if (sq_check_in q, sq_check_out q, sq_total q) = (bk_check_in b, bk_check_out b, bk_total b)
              then sq_nights q else None);
          single = (if bk_nights b = 1
            then Some \<lparr> pr_currency = bk_currency b, pr_reference = ''single-night-contract'',
                   pr_nights = [\<lparr> night_date = isoformat (bk_check_in b),
                                   night_value = PyDecText (bk_total b) \<rparr>] \<rparr>
            else None)
      in case ls_priced (bk_loyalty b) of
           Some p \<Rightarrow> Some p
         | None \<Rightarrow> (case quoted of Some p \<Rightarrow> Some p | None \<Rightarrow> single))"

definition stay_dates :: "booking \<Rightarrow> string list" where
  "stay_dates b = map (\<lambda>n. isoformat (bk_check_in b + int n))
     [0..<nat (bk_check_out b - bk_check_in b)]"

definition finite_sum :: "decimal list \<Rightarrow> rat option" where
  "finite_sum ds = (if list_all is_finite ds
     then Some (sum_list (map (\<lambda>d. case d of Fin q \<Rightarrow> q | _ \<Rightarrow> 0) ds)) else None)"

definition verified_nights :: "booking \<Rightarrow> priced res" where
  "verified_nights b =
     (let refused = Inl (ValidationError ''night_prices_incomplete'') in
      case contract_nights b of
        None \<Rightarrow> refused
      | Some p \<Rightarrow>
          if map night_date (pr_nights p) \<noteq> stay_dates b then refused
          else bindE (mapE (\<lambda>n. of_option (DecimalError ''ConversionSyntax'')
                              (to_decimal (night_value n))) (pr_nights p)) (\<lambda>values.
               if finite_sum values \<noteq> Some (bk_total b) \<or> pr_currency p \<noteq> bk_currency b
                  \<or> pr_reference p = []
               then refused else Inr p))"

subsection \<open>The plan\<close>

record departure_figures =
  df_total :: rat
  df_reference :: string
  df_cash :: rat
  df_points :: rat
  df_consumed :: rat
  df_refundable :: rat
  df_normal :: bool

text \<open>\<open>format(x, ".2f")\<close>, read back.\<close>

definition two_places :: "rat \<Rightarrow> rat" where
  "two_places x = of_int (round_half_even (x * 100)) / 100"

text \<open>\<open>left < right\<close> of two datetimes raises when one of them is naive.\<close>

fun before :: "datetime \<Rightarrow> datetime \<Rightarrow> bool res" where
  "before (Aware s) (Aware t) = Inr (s < t)"
| "before (Naive s) (Naive t) = Inr (s < t)"
| "before x y = Inl (TypeError ''offset_naive_and_aware'')"

text \<open>The reference of the prices and the refundable value, for a departure before the end.\<close>

definition early_refund :: "env \<Rightarrow> booking \<Rightarrow> instant \<Rightarrow> (string \<times> rat) res" where
  "early_refund e b t =
     bindE (verified_nights b) (\<lambda>p.
     bindE (departure_refund (pr_nights p) (Aware t)
              (Option.bind (bk_zone b) (zone_rules e)) True) (\<lambda>due.
     bindE (to_sar (fx e) b due) (\<lambda>value. Inr (pr_reference p, value))))"

definition departure_figures_of ::
    "facts \<Rightarrow> rat \<Rightarrow> bool \<Rightarrow> string \<times> rat \<Rightarrow> departure_figures res" where
  "departure_figures_of f funded_cash normal priced_value =
     bindE (refund_split (PyDec (Fin (snd priced_value))) (PyDec (Fin funded_cash))
              (PyDecText (f_points f))) (\<lambda>split.
       Inr \<lparr> df_total = f_total f, df_reference = fst priced_value,
             df_cash = two_places (sp_cash split), df_points = two_places (sp_points split),
             df_consumed = two_places (funded_cash - sp_cash split),
             df_refundable = two_places (snd priced_value), df_normal = normal \<rparr>)"

text \<open>The part after the facts are verified.\<close>

definition departure_settlement :: "env \<Rightarrow> booking \<Rightarrow> instant \<Rightarrow> facts \<Rightarrow> departure_figures res" where
  "departure_settlement e b t f =
     bindE (to_sar (fx e) b (bk_total b)) (\<lambda>contract_value.
     if f_total f \<noteq> contract_value then Inl (ValidationError ''contract_value'')
     else bindE (of_option (TypeError ''not_iterable'') (iterated (f_components f))) (\<lambda>parts.
     bindE (any_extra parts) (\<lambda>extra.
     if extra then Inl (ValidationError ''extra_components'')
     else
       let funded_cash = f_total f - f_points f in
       if funded_cash < 0 \<or> f_cash f - f_refunded f < funded_cash
       then Inl (ValidationError ''original_payment_incomplete'')
       else bindE (stay_times e b) (\<lambda>(start, end_at).
       let normal = (end_at \<le> t) in
       bindE (if normal then Inr (''completed-contract'', 0) else early_refund e b t)
             (departure_figures_of f funded_cash normal)))))"

definition departure_plan :: "env \<Rightarrow> db \<Rightarrow> booking \<Rightarrow> datetime \<Rightarrow> departure_figures res" where
  "departure_plan e d b vacated_at =
     bindE (effective_arrival e b) (\<lambda>arrived.
     case (arrived, vacated_at) of
       (None, _) \<Rightarrow> Inl (ValidationError ''not_arrived'')
     | (Some a, Naive _) \<Rightarrow> Inl (ValidationError ''actual_departure_required'')
     | (Some a, Aware t) \<Rightarrow>
         if now e < t then Inl (ValidationError ''actual_departure_required'')
         else bindE (before vacated_at (admission_time a)) (\<lambda>early.
         if early then Inl (ValidationError ''departure_before_arrival'')
         else bindE (booking_facts e d b False) (\<lambda>verdict.
         case verdict of
           Inl blocker \<Rightarrow> Inl (ValidationError ''verified_booking_required'')
         | Inr f \<Rightarrow> departure_settlement e b t f)))"

subsection \<open>Its recording\<close>

definition departure_row :: "departure_figures \<Rightarrow> instant \<Rightarrow> string \<Rightarrow> nat \<Rightarrow> departure_state" where
  "departure_row p t reference operator =
     \<lparr> de_total = df_total p, de_nights_reference = df_reference p, de_cash_refund = df_cash p,
       de_points_refund = df_points p, de_consumed = df_consumed p, de_refundable = df_refundable p,
       de_normal = df_normal p, de_at = t, de_reference = reference, de_operator = operator \<rparr>"

definition record_departure ::
    "env \<Rightarrow> db \<Rightarrow> user \<Rightarrow> nat \<Rightarrow> datetime \<Rightarrow> string \<Rightarrow> (db \<times> departure_state) res" where
  "record_departure e d operator n vacated_at reference =
     posting_transaction e
      (if \<not> u_active operator \<or> \<not> u_staff operator \<or> \<not> u_change_reservation operator
       then Inl (PermissionDenied ''departure'')
       else bindE (of_option (DoesNotExist ''reservation'') (get_booking d n)) (\<lambda>b.
       if \<not> booking_allowed e d b then Inl (PermissionDenied ''outside_pilot'')
       else if reference = [] then Inl (ValidationError ''reference_required'')
       else bindE (departure_plan e d b vacated_at) (\<lambda>p.
       case vacated_at of
         Naive _ \<Rightarrow> Inl (ValidationError ''actual_departure_required'')
       | Aware t \<Rightarrow>
           let result = departure_row p t reference (user_id operator) in
           bindE (cents (PyDecText (df_consumed p))) (\<lambda>_.
           if ls_departure (bk_loyalty b) \<noteq> None \<and> ls_departure (bk_loyalty b) \<noteq> Some result
           then Inl (ValidationError ''departure_recorded'')
           else Inr (save_loyalty d b (\<lambda>s. s \<lparr> ls_departure := Some result \<rparr>), result)))))"


subsection \<open>Facts about the plan\<close>

lemma cents_of_whole: "whole_cents x \<Longrightarrow> cents (PyDec (Fin x)) = Inr k \<Longrightarrow> x = amount k"
  using exact_amount_whole [of x "amount k"] by (simp add: exact_amount_def)

lemma cents_text [simp]: "cents (PyDecText q) = cents (PyDec (Fin q))"
  by (simp add: cents_def)

lemma two_places_amount [simp]: "two_places (amount k) = amount k"
  by (simp add: two_places_def amount_def)

lemma quantized_whole: "quantize (mode :: rat \<Rightarrow> int) 2 x = Inr y \<Longrightarrow> whole_cents y"
  by (auto simp: quantize_def Let_def whole_cents_def amount_def eq_commute split: if_splits)

lemma to_sar_whole:
  assumes "currency_quantum cfg sar = Inr 2" and "to_sar cfg b v = Inr x"
  shows "whole_cents x"
  using assms by (auto simp: to_sar_def normalize_amount_def bindE_Inr_iff split: if_splits dest: quantized_whole)

lemma facts_points_whole:
  assumes "booking_facts e d b pv = Inr (Inr f)"
  shows "whole_cents (f_points f)"
proof -
  obtain s m where "verified_stage e b pv s m = Inr (Inr f)"
    using assms by (auto simp: booking_facts_def and_then_found catch_facts_found)
  then show ?thesis
  proof (rule verified_stage_found)
    fix sch st en money ch comps a g
    assume fd: "facts_document e b pv s m sch st en money ch comps a = Inr g"
      and ex: "\<exists>h. offer_stage e b s g = Inr (Inr h) \<and> f = mark_facts b s sch a h"
    have "whole_cents (f_points g)"
      using fd by (auto simp: facts_document_def bindE_Inr_iff dest: quantized_whole)
    moreover have "f_points f = f_points g"
      using ex by (auto simp: offer_stage_def mark_facts_def split: option.splits if_splits)
    ultimately show ?thesis by simp
  qed
qed

lemma departure_plan_Inr:
  "departure_plan e d b (Aware t) = Inr p \<longleftrightarrow>
     t \<le> now e \<and> (\<exists>a f. effective_arrival e b = Inr (Some a)
        \<and> before (Aware t) (admission_time a) = Inr False
        \<and> booking_facts e d b False = Inr (Inr f) \<and> departure_settlement e b t f = Inr p)"
proof (cases "\<exists>a f. effective_arrival e b = Inr (Some a) \<and> booking_facts e d b False = Inr (Inr f)")
  case True
  then obtain a f where "effective_arrival e b = Inr (Some a)" "booking_facts e d b False = Inr (Inr f)"
    by blast
  then show ?thesis
    by (cases "before (Aware t) (admission_time a)") (auto simp: departure_plan_def cong: if_cong)
next
  case False
  have "departure_plan e d b (Aware t) \<noteq> Inr p"
  proof (cases "effective_arrival e b")
    case (Inr x)
    then show ?thesis
    proof (cases x)
      case (Some a)
      with Inr False have "booking_facts e d b False \<noteq> Inr (Inr f)" for f by blast
      then have "bindE (booking_facts e d b False) (\<lambda>v. case v of Inl x \<Rightarrow> Inl (h x)
          | Inr f \<Rightarrow> departure_settlement e b t f) \<noteq> Inr p" for h
        by (cases "booking_facts e d b False") (auto split: sum.splits)
      with Inr Some show ?thesis
        by (cases "before (Aware t) (admission_time a)") (auto simp: departure_plan_def)
    qed (simp add: departure_plan_def)
  qed (simp add: departure_plan_def)
  with False show ?thesis by blast
qed

lemma departure_plan_naive: "departure_plan e d b (Naive t) = Inr p \<longleftrightarrow> False"
  by (auto simp: departure_plan_def bindE_Inr_iff split: option.splits)

lemma departure_settlement_Inr:
  assumes "departure_settlement e b t f = Inr p"
  obtains start end_at priced_value where
    "to_sar (fx e) b (bk_total b) = Inr (f_total f)"
    "0 \<le> f_total f - f_points f" "f_total f - f_points f \<le> f_cash f - f_refunded f"
    "stay_times e b = Inr (start, end_at)"
    "(if end_at \<le> t then Inr (''completed-contract'', 0) else early_refund e b t) = Inr priced_value"
    "departure_figures_of f (f_total f - f_points f) (end_at \<le> t) priced_value = Inr p"
proof -
  note result = that
  let ?fc = "f_total f - f_points f"
  obtain u where u: "to_sar (fx e) b (bk_total b) = Inr u"
    using assms by (cases "to_sar (fx e) b (bk_total b)") (auto simp: departure_settlement_def)
  obtain parts where parts: "iterated (f_components f) = Some parts"
    using assms u by (cases "iterated (f_components f)") (auto simp: departure_settlement_def split: if_splits)
  obtain x where x: "any_extra parts = Inr x"
    using assms u parts by (cases "any_extra parts") (auto simp: departure_settlement_def split: if_splits)
  have ok: "f_total f = u" "\<not> x" "\<not> (?fc < 0 \<or> f_cash f - f_refunded f < ?fc)"
    and st: "bindE (stay_times e b) (\<lambda>(start, end_at). let normal = (end_at \<le> t) in
       bindE (if normal then Inr (''completed-contract'', 0) else early_refund e b t)
             (departure_figures_of f ?fc normal)) = Inr p"
    using assms u parts x
    by (simp_all only: departure_settlement_def bindE.simps of_option_simps Let_def split: if_splits)
      simp_all
  obtain start end_at where se: "stay_times e b = Inr (start, end_at)"
    using st by (cases "stay_times e b") auto
  obtain pv where "(if end_at \<le> t then Inr (''completed-contract'', 0) else early_refund e b t) = Inr pv"
    "departure_figures_of f ?fc (end_at \<le> t) pv = Inr p"
    using st se by (simp only: bindE.simps prod.case Let_def bindE_Inr_iff) (elim exE conjE)
  then show ?thesis
    using u ok se by (intro result) simp_all
qed

lemma departure_figures_parts:
  assumes "departure_figures_of f cash normal pv = Inr p"
    and "whole_cents (snd pv)" "whole_cents cash" "whole_cents (f_points f)"
  shows "df_cash p + df_points p = df_refundable p \<and> df_refundable p = snd pv
    \<and> 0 \<le> df_cash p \<and> df_cash p \<le> cash \<and> 0 \<le> df_points p \<and> df_points p \<le> f_points f
    \<and> df_consumed p = cash - df_cash p \<and> df_total p = f_total f \<and> df_reference p = fst pv
    \<and> df_normal p = normal"
proof -
  obtain s where s: "refund_split (PyDec (Fin (snd pv))) (PyDec (Fin cash)) (PyDecText (f_points f)) = Inr s"
    and p: "p = \<lparr> df_total = f_total f, df_reference = fst pv,
             df_cash = two_places (sp_cash s), df_points = two_places (sp_points s),
             df_consumed = two_places (cash - sp_cash s),
             df_refundable = two_places (snd pv), df_normal = normal \<rparr>"
    using assms(1) by (auto simp: departure_figures_of_def bindE_Inr_iff)
  obtain r c q where k: "cents (PyDec (Fin (snd pv))) = Inr r" "cents (PyDec (Fin cash)) = Inr c"
    "cents (PyDecText (f_points f)) = Inr q"
    using s by (auto simp: refund_split_def bindE_Inr_iff)
  have v: "snd pv = amount r" "cash = amount c" "f_points f = amount q"
    using k assms(2-4) by (simp_all add: cents_of_whole)
  have sw: "sp_cash s = amount i \<and> sp_points s = amount (r - i)"
    if "i = (if c + q \<noteq> 0 then r * c div (c + q) else 0)" for i
    using s k that by (auto simp: refund_split_def Let_def split: if_splits)
  then obtain i where i: "sp_cash s = amount i" "sp_points s = amount (r - i)" by blast
  show ?thesis
    using refund_split_parts [OF s k] unfolding p v
    by (simp add: i flip: amount_diff amount_add)
qed


lemma early_refund_whole:
  assumes "currency_quantum (fx e) sar = Inr 2" and "early_refund e b t = Inr pv"
  shows "whole_cents (snd pv)"
  using assms(2) by (auto simp: early_refund_def bindE_Inr_iff dest: to_sar_whole [OF assms(1)])

lemma departure_amounts:
  assumes "currency_quantum (fx e) sar = Inr 2" and "departure_plan e d b (Aware t) = Inr p"
  shows "\<exists>f start end_at. booking_facts e d b False = Inr (Inr f) \<and> stay_times e b = Inr (start, end_at)
     \<and> df_cash p + df_points p = df_refundable p \<and> 0 \<le> df_cash p \<and> 0 \<le> df_points p
     \<and> df_points p \<le> f_points f \<and> 0 \<le> df_consumed p
     \<and> df_consumed p + df_cash p + f_points f = f_total f \<and> df_total p = f_total f
     \<and> df_cash p \<le> f_cash f - f_refunded f
     \<and> (end_at \<le> t \<longrightarrow> df_refundable p = 0)
     \<and> (t < end_at \<longrightarrow> early_refund e b t = Inr (df_reference p, df_refundable p))"
proof -
  obtain f where f: "booking_facts e d b False = Inr (Inr f)" and s: "departure_settlement e b t f = Inr p"
    using assms(2) by (auto simp: departure_plan_Inr)
  from s show ?thesis
  proof (rule departure_settlement_Inr)
    fix start end_at pv
    assume A: "to_sar (fx e) b (bk_total b) = Inr (f_total f)" "0 \<le> f_total f - f_points f"
      "f_total f - f_points f \<le> f_cash f - f_refunded f" "stay_times e b = Inr (start, end_at)"
      and P: "(if end_at \<le> t then Inr (''completed-contract'', 0) else early_refund e b t) = Inr pv"
      and D: "departure_figures_of f (f_total f - f_points f) (end_at \<le> t) pv = Inr p"
    have w: "whole_cents (f_total f)" using A(1) by (rule to_sar_whole [OF assms(1)])
    have pv: "whole_cents (snd pv)" using P early_refund_whole [OF assms(1)] by (auto split: if_splits)
    note F = departure_figures_parts [OF D pv whole_cents_diff [OF w facts_points_whole [OF f]] facts_points_whole [OF f]]
    have "pv = (df_reference p, df_refundable p)" using F by (simp add: prod_eq_iff)
    then show ?thesis
      using A f F P by (intro exI [of _ f] exI [of _ start] exI [of _ end_at]) (auto split: if_splits)
  qed
qed

lemma record_departure_Inr:
  assumes "record_departure e d op n v r = Inr (d', x)"
  obtains b t p where "get_booking d n = Some b" "v = Aware t" "departure_plan e d b (Aware t) = Inr p"
    "x = departure_row p t r (user_id op)"
    "ls_departure (bk_loyalty b) = None \<or> ls_departure (bk_loyalty b) = Some x"
    "d' = save_loyalty d b (\<lambda>s. s \<lparr> ls_departure := Some x \<rparr>)" "r \<noteq> []"
    "u_active op \<and> u_staff op \<and> u_change_reservation op"
proof (cases v)
  case (Aware t)
  with assms show ?thesis
    by (auto simp: record_departure_def posting_transaction_Inr bindE_Inr_iff Let_def
        intro: that split: if_splits)
next
  case (Naive t)
  with assms show ?thesis
    by (auto simp: record_departure_def posting_transaction_Inr bindE_Inr_iff departure_plan_naive
        split: if_splits)
qed

lemma record_departure_booking:
  assumes "record_departure e d op n v r = Inr (d', x)"
  shows "(\<exists>b. get_booking d n = Some b \<and> ls_departure (bk_loyalty b) \<in> {None, Some x}
      \<and> get_booking d' n = Some (b \<lparr> bk_loyalty := (bk_loyalty b) \<lparr> ls_departure := Some x \<rparr> \<rparr>))
    \<and> (\<forall>k. k \<noteq> n \<longrightarrow> get_booking d' k = get_booking d k)"
  using assms
proof (rule record_departure_Inr)
  fix b t p
  assume b: "get_booking d n = Some b" and old: "ls_departure (bk_loyalty b) = None \<or> ls_departure (bk_loyalty b) = Some x"
    and d': "d' = save_loyalty d b (\<lambda>s. s \<lparr> ls_departure := Some x \<rparr>)"
  have k: "bk_id b = n" using b by (rule booking_table.get_key)
  let ?b = "b \<lparr> bk_loyalty := (bk_loyalty b) \<lparr> ls_departure := Some x \<rparr> \<rparr>"
  have "get_booking d' n = Some ?b"
    using booking_table.get_put_same [of d ?b b] b k by (simp add: d' save_loyalty_def)
  moreover have "get_booking d' j = get_booking d j" if "j \<noteq> n" for j
    using booking_table.get_put_other [of ?b j d] that k by (simp add: d' save_loyalty_def)
  ultimately show ?thesis using b old by auto
qed

subsection \<open>Properties\<close>

text \<open>C23: ending a stay never creates or loses money. Whenever a departure plan is computed,
  the returned cash and points add up to the refundable value, which is nothing for a departure
  at or after the contract's end and otherwise the SAR value of the nights still to come; the
  consumed cash, the returned cash and the points spent add up to the value of the whole
  contract; no part is negative, the points returned never exceed the points spent and the cash
  returned never exceeds the verified cash that is left.\<close>

theorem departure_conserves:
  assumes "currency_quantum (fx e) sar = Inr 2" and "departure_plan e d b (Aware t) = Inr p"
  shows "\<exists>f start end_at. booking_facts e d b False = Inr (Inr f) \<and> stay_times e b = Inr (start, end_at)
     \<and> df_cash p + df_points p = df_refundable p \<and> 0 \<le> df_cash p \<and> 0 \<le> df_points p
     \<and> df_points p \<le> f_points f \<and> 0 \<le> df_consumed p
     \<and> df_consumed p + df_cash p + f_points f = f_total f \<and> df_total p = f_total f
     \<and> df_cash p \<le> f_cash f - f_refunded f
     \<and> (end_at \<le> t \<longrightarrow> df_refundable p = 0)
     \<and> (t < end_at \<longrightarrow> early_refund e b t = Inr (df_reference p, df_refundable p))"
  by (rule departure_amounts [OF assms])

definition priced_loyalty :: loyalty_state where
  "priced_loyalty = (bk_loyalty paid_booking) \<lparr> ls_priced := Some \<lparr> pr_currency = ''SAR'',
     pr_reference = ''offer'', pr_nights =
       [\<lparr> night_date = ''1970-01-01'', night_value = PyDecText 400 \<rparr>,
        \<lparr> night_date = ''1970-01-02'', night_value = PyDecText 600 \<rparr>] \<rparr> \<rparr>"

definition priced_booking :: booking where
  "priced_booking = paid_booking \<lparr> bk_loyalty := priced_loyalty \<rparr>"

lemma priced_facts: "booking_facts sample_env sample_db priced_booking False = Inr (Inr paid_facts)"
  unfolding priced_booking_def
  by (rule booking_facts_settled [OF _ _ _ _ _ _ _ _ paid_booking_facts])
    (simp_all add: sample_env_def same_evidence_def priced_loyalty_def paid_booking_def sample_booking_def)

lemma isoformat_eval: "isoformat 719163 = ''1970-01-01''" "isoformat 719164 = ''1970-01-02''"
  by code_simp+


lemma priced_cents: "cents (PyDec (Fin 400)) = Inr 40000" "cents (PyDec (Fin 600)) = Inr 60000"
  "cents (PyDec (Fin 1000)) = Inr 100000" "cents (PyDec (Fin 0)) = Inr 0"
  using cents_amount [of 40000] cents_amount [of 60000] cents_amount [of 100000] cents_amount [of 0]
  by (simp_all add: amount_def)

lemma priced_dates_eval: "strptime_ymd ''1970-01-01'' = Some 719163" "strptime_ymd ''1970-01-02'' = Some 719164"
  by code_simp+

lemma priced_verified: "verified_nights priced_booking = Inr (the (ls_priced priced_loyalty))"
proof -
  have "contract_nights priced_booking = ls_priced priced_loyalty"
    by (simp add: contract_nights_def priced_booking_def priced_loyalty_def)
  moreover have "stay_dates priced_booking = [''1970-01-01'', ''1970-01-02'']"
    by (simp add: stay_dates_def priced_booking_def paid_booking_def sample_booking_def isoformat_eval upt_rec
        del: One_nat_def)
  ultimately show ?thesis
    by (simp add: verified_nights_def priced_loyalty_def finite_sum_def is_finite_def)
      (simp add: priced_booking_def paid_booking_def sample_booking_def)
qed

lemma thousand_up: "quantize round_half_up 2 1000 = Inr 1000" "quantize round_half_up 2 0 = Inr 0"
  by code_simp+

lemma priced_early: "early_refund sample_env priced_booking 500 = Inr (''offer'', 1000)"
  by (simp add: early_refund_def priced_verified priced_loyalty_def departure_refund_def)
    (simp add: priced_booking_def paid_booking_def sample_defs priced_dates_eval priced_cents to_sar_def
      normalize_amount_def sample_quantum sar_def payment_currency_def thousand_up local_date_def local_hour_def
      day_us_def epoch_ordinal_def amount_def)


lemma priced_arrived: "effective_arrival sample_env priced_booking = Inr (Some (ManualArrival
    \<lparr> ar_at = Aware 100, ar_reference = ''desk'', ar_operator = 3 \<rparr>))"
  by (simp add: effective_arrival_def scheduled_eligibility_def stay_times_def priced_booking_def
      priced_loyalty_def paid_booking_def sample_defs wall_clock_def epoch_ordinal_def day_us_def
      active_statuses_def)

lemma priced_to_sar: "to_sar (fx sample_env) priced_booking 1000 = Inr 1000"
  by (simp add: to_sar_def priced_booking_def paid_booking_def sample_defs normalize_amount_def
      sample_quantum sar_def payment_currency_def thousand_up)

lemma priced_plan: "\<exists>p. departure_plan sample_env sample_db priced_booking (Aware 500) = Inr p
    \<and> df_cash p = 1000 \<and> df_consumed p = 0"
proof -
  have st: "stay_times sample_env priced_booking = Inr (54000000000, 216000000000)"
    by (simp add: stay_times_def priced_booking_def paid_booking_def sample_defs wall_clock_def
        epoch_ordinal_def day_us_def)
  have tot: "bk_total priced_booking = 1000"
    by (simp add: priced_booking_def paid_booking_def sample_booking_def)
  have x: "any_extra parts = Inr False" if "iterated (f_components paid_facts) = Some parts" for parts
    using that by (auto simp: paid_facts_def sample_intent_def)
  have it: "\<exists>parts. iterated (f_components paid_facts) = Some parts"
    by (simp add: paid_facts_def sample_intent_def)
  have f: "f_total paid_facts = 1000" "f_points paid_facts = 0" "f_cash paid_facts = 1000" "f_refunded paid_facts = 0"
    by (simp_all add: paid_facts_def)
  have fig: "\<exists>p. departure_figures_of paid_facts 1000 False (''offer'', 1000) = Inr p
      \<and> df_cash p = 1000 \<and> df_consumed p = 0"
    using two_places_amount [of 100000] two_places_amount [of 0]
    by (simp add: departure_figures_of_def refund_split_def f priced_cents amount_def)
  have "\<exists>p. departure_settlement sample_env priced_booking 500 paid_facts = Inr p
      \<and> df_cash p = 1000 \<and> df_consumed p = 0"
    using it x fig by (auto simp: departure_settlement_def tot priced_to_sar f st priced_early Let_def)
  moreover have "500 \<le> now sample_env" by (simp add: sample_env_def)
  ultimately show ?thesis
    by (simp add: departure_plan_Inr priced_arrived priced_facts admission_time_def)
qed

theorem departure_conserves_witness:
  "\<exists>p. departure_plan sample_env sample_db priced_booking (Aware 500) = Inr p
     \<and> df_consumed p + df_cash p + f_points paid_facts = 1000"
proof -
  obtain p where p: "departure_plan sample_env sample_db priced_booking (Aware 500) = Inr p"
    using priced_plan by blast
  have "currency_quantum (fx sample_env) sar = Inr 2"
    by (simp add: sample_env_def sar_def payment_currency_def sample_quantum)
  from departure_conserves [OF this p] p show ?thesis
    by (auto simp: priced_facts) (simp_all add: paid_facts_def)
qed

text \<open>A departure is recorded once. After an operator recorded it, every later recording of
  a departure of the same stay, by any operator, at any time and under any settings, either fails
  or returns exactly the recorded document; the recording keeps every other stay and every other
  field of this one as they were.\<close>

lemma departure_recorded_once:
  assumes "record_departure e d op n v r = Inr (d', x)"
  shows "(\<exists>b. get_booking d n = Some b \<and> ls_departure (bk_loyalty b) \<in> {None, Some x}
      \<and> get_booking d' n = Some (b \<lparr> bk_loyalty := (bk_loyalty b) \<lparr> ls_departure := Some x \<rparr> \<rparr>))
    \<and> (\<forall>k. k \<noteq> n \<longrightarrow> get_booking d' k = get_booking d k)
    \<and> (\<forall>e' op' v' r' d'' y. record_departure e' d' op' n v' r' = Inr (d'', y) \<longrightarrow> y = x)"
proof (intro conjI allI impI)
  note B = record_departure_booking [OF assms]
  show "\<exists>b. get_booking d n = Some b \<and> ls_departure (bk_loyalty b) \<in> {None, Some x}
      \<and> get_booking d' n = Some (b \<lparr> bk_loyalty := (bk_loyalty b) \<lparr> ls_departure := Some x \<rparr> \<rparr>)"
    using B by (rule conjunct1)
  show "k \<noteq> n \<Longrightarrow> get_booking d' k = get_booking d k" for k using B by blast
  fix e' op' v' r' d'' y
  assume again: "record_departure e' d' op' n v' r' = Inr (d'', y)"
  obtain b where "get_booking d' n = Some (b \<lparr> bk_loyalty := (bk_loyalty b) \<lparr> ls_departure := Some x \<rparr> \<rparr>)"
    using B by (elim conjE exE)
  moreover obtain b' where "get_booking d' n = Some b'" "ls_departure (bk_loyalty b') \<in> {None, Some y}"
    using record_departure_booking [OF again] by (elim conjE exE)
  ultimately show "y = x" by simp
qed

definition priced_db :: db where
  "priced_db = sample_db \<lparr> db_bookings := [priced_booking] \<rparr>"

lemma priced_recorded:
  "\<exists>d' x. record_departure sample_env priced_db (sample_user 3) 70 (Aware 500) ''desk'' = Inr (d', x)"
proof -
  have pf: "booking_facts sample_env priced_db priced_booking False = Inr (Inr paid_facts)"
    unfolding priced_booking_def
    by (rule booking_facts_settled [OF _ _ _ _ _ _ _ _ paid_booking_facts])
      (simp_all add: sample_env_def sample_db_def priced_db_def same_evidence_def priced_loyalty_def
        paid_booking_def sample_booking_def)
  obtain p where p: "departure_plan sample_env priced_db priced_booking (Aware 500) = Inr p" "df_consumed p = 0"
    using priced_plan by (auto simp: departure_plan_Inr priced_facts pf)
  have b: "get_booking priced_db 70 = Some priced_booking" "booking_allowed sample_env priced_db priced_booking"
    "ls_departure (bk_loyalty priced_booking) = None"
    by (simp_all add: get_booking_def row_get_def priced_db_def booking_allowed_def priced_booking_def
        priced_loyalty_def paid_booking_def sample_defs)
  have s: "loyalty_enabled sample_env" "launch_setting sample_env = Some (Aware 0)"
    by (simp_all add: sample_env_def)
  show ?thesis
    by (simp add: record_departure_def posting_transaction_def launch_at_def s b p priced_cents Let_def)
      (simp add: sample_user_def)
qed

lemma departure_recorded_once_at:
  "\<exists>d' x. record_departure sample_env priced_db (sample_user 3) 70 (Aware 500) ''desk'' = Inr (d', x)
     \<and> (\<forall>e op v r d'' y. record_departure e d' op 70 v r = Inr (d'', y) \<longrightarrow> y = x)"
proof -
  obtain d' x where x: "record_departure sample_env priced_db (sample_user 3) 70 (Aware 500) ''desk'' = Inr (d', x)"
    using priced_recorded by blast
  show ?thesis
    by (intro exI conjI) (rule x, rule departure_recorded_once [OF x, THEN conjunct2, THEN conjunct2])
qed

end
