(* ===== verification/Settlements.thy ===== *)
theory Settlements
  imports Stay
begin

section \<open>Receipts and refund plans (apps/loyalty/settlements.py)\<close>

text \<open>
  What is left of every receipt of a booking once the existing debts are reserved
  (\<open>payment_balances\<close>), the refund plans of a cancellation and of a cheaper contract, the
  owner's attestation of a receipt outside the gateway, and of the prices of the nights.
\<close>

subsection \<open>What is left of each receipt\<close>

definition eligible :: "env \<Rightarrow> db \<Rightarrow> booking \<Rightarrow> bool res" where
  "eligible e d b =
     (if \<not> loyalty_enabled e \<or> bk_intent b = None \<or> \<not> booking_allowed e d b
         \<or> bk_source b \<noteq> DirectWebsite then Inr False
      else bindE (launch_at e) (\<lambda>launch.
        if bk_created_at b < launch then Inr False
        else Inr (case Option.bind (booking_customer b) (member_of_customer d) of
                    None \<Rightarrow> False
                  | Some m \<Rightarrow> m_status m = ActiveMember \<and> m_consent_at m \<le> now e)))"

text \<open>The receipts: SAR payments that were verified and carry the provider's identifier.\<close>

definition receipts :: "booking \<Rightarrow> payment list" where
  "receipts b = filter (\<lambda>p. pa_currency p = ''SAR''
       \<and> pa_status p \<in> {PaSucceeded, PaPartiallyRefunded, PaRefunded} \<and> pa_verified_at p \<noteq> None
       \<and> \<not> blank_text (pa_provider_id p))
     (case bk_intent b of None \<Rightarrow> [] | Some i \<Rightarrow> in_payments i)"

definition open_refunds :: "booking \<Rightarrow> obligation list" where
  "open_refunds b = filter (\<lambda>r. ob_status r \<noteq> RefundCancelled) (bk_refunds b)"

text \<open>The payment an obligation names, directly or through the provider's identifier.\<close>

definition refund_key :: "payment list \<Rightarrow> obligation \<Rightarrow> nat option" where
  "refund_key payments r =
     (case ob_payment_attempt r of
        Some k \<Rightarrow> Some k
      | None \<Rightarrow> Option.bind (ob_original_payment r)
          (\<lambda>x. map_option pa_id (find (\<lambda>p. pa_provider_id p = Some x) (rev payments))))"

definition assigned_to :: "payment list \<Rightarrow> obligation list \<Rightarrow> nat \<Rightarrow> rat" where
  "assigned_to payments refunds k =
     sum_list (map ob_amount (filter (\<lambda>r. refund_key payments r = Some k) refunds))"

definition unassigned :: "payment list \<Rightarrow> obligation list \<Rightarrow> rat" where
  "unassigned payments refunds =
     sum_list (map ob_amount (filter (\<lambda>r. refund_key payments r \<notin> Some ` pa_id ` set payments) refunds))"

fun balance_loop ::
    "instant \<Rightarrow> (nat \<Rightarrow> rat) \<Rightarrow> payment list \<Rightarrow> rat \<Rightarrow> ((payment \<times> rat) list \<times> rat) res" where
  "balance_loop clock used [] open_debt = Inr ([], open_debt)"
| "balance_loop clock used (p # ps) open_debt =
     bindE (of_option (TypeError ''verified_at'') (pa_verified_at p)) (\<lambda>t.
     if clock < t then Inl (ValidationError ''receipt_time'')
     else
       let remaining = max (pa_amount p - used (pa_id p)) 0;
           take = min remaining open_debt
       in bindE (balance_loop clock used ps (open_debt - take)) (\<lambda>(rows, rest).
            Inr ((p, if pa_status p = PaRefunded then 0 else remaining - take) # rows, rest)))"

definition payment_balances :: "env \<Rightarrow> booking \<Rightarrow> (payment \<times> rat) list res" where
  "payment_balances e b =
     (let payments = receipts b; refunds = open_refunds b in
      bindE (balance_loop (now e) (assigned_to payments refunds) payments (unassigned payments refunds))
        (\<lambda>(rows, rest).
          if rest \<noteq> 0 then Inl (ValidationError ''refunds_exceed_receipts'') else Inr rows))"

definition funding :: "env \<Rightarrow> booking \<Rightarrow> (rat \<times> rat) res" where
  "funding e b = bindE (payment_balances e b) (\<lambda>rows. Inr (sum_list (map snd rows), net_points b))"

definition restored_points :: "booking \<Rightarrow> rat" where
  "restored_points b = (case ls_redemption (bk_loyalty b) of None \<Rightarrow> 0 | Some r \<Rightarrow> re_restored r)"

subsection \<open>Refund plans\<close>

definition cancellation_plan :: "env \<Rightarrow> db \<Rightarrow> booking \<Rightarrow> refund_plan option res" where
  "cancellation_plan e d b =
     bindE (eligible e d b) (\<lambda>ok.
     if \<not> ok then Inr None
     else bindE (funding e b) (\<lambda>(cash, points).
     bindE (total_sar (fx e) b) (\<lambda>_.
     bindE (effective_arrival e b) (\<lambda>arrived.
       if arrived \<noteq> None then
         (case ls_departure (bk_loyalty b) of
            None \<Rightarrow> Inl (ValidationError ''stay_started'')
          | Some departure \<Rightarrow>
              let target = de_points_refund departure;
                  pending_points = max (target - restored_points b) 0;
                  previous = sum_list (map ob_amount (open_refunds b));
                  due_cash = max (de_cash_refund departure - previous) 0
              in if cash < due_cash \<or> points < pending_points
                 then Inl (ValidationError ''departure_exceeds_payment'')
                 else Inr (Some \<lparr> pl_cash = due_cash, pl_points = pending_points, pl_target = target,
                             pl_source = ''loyalty_actual_departure'' \<rparr>))
       else Inr (Some \<lparr> pl_cash = cash, pl_points = points, pl_target = restored_points b + points,
                   pl_source = ''loyalty_full_prearrival'' \<rparr>)))))"

definition decrease_plan :: "env \<Rightarrow> db \<Rightarrow> booking \<Rightarrow> rat \<Rightarrow> refund_plan option res" where
  "decrease_plan e d b final_total =
     bindE (eligible e d b) (\<lambda>ok.
     if \<not> ok then Inr None
     else bindE (funding e b) (\<lambda>(cash, points).
     bindE (to_sar (fx e) b final_total) (\<lambda>final_value.
     let difference = max (cash + points - final_value) 0 in
     bindE (refund_split (PyDec (Fin difference)) (PyDec (Fin cash)) (PyDec (Fin points))) (\<lambda>split.
       Inr (Some \<lparr> pl_cash = sp_cash split, pl_points = sp_points split,
              pl_target = restored_points b + sp_points split,
              pl_source = ''loyalty_proportional_decrease'' \<rparr>)))))"

subsection \<open>Receipts outside the gateway\<close>

text \<open>\<open>claim_reference\<close>: the first booking that claims a reference keeps it.\<close>

definition claim_reference :: "env \<Rightarrow> db \<Rightarrow> nat \<Rightarrow> string \<Rightarrow> (db \<times> claim) res" where
  "claim_reference e d n reference =
     (let digest = text_digest e reference;
          fresh = \<lparr> cl_digest = digest, cl_booking = n, cl_payment = None \<rparr>
      in case row_get cl_digest (db_claims d) digest of
           None \<Rightarrow> Inr (d \<lparr> db_claims := db_claims d @ [fresh] \<rparr>, fresh)
         | Some c \<Rightarrow> if cl_booking c \<noteq> n then Inl (ValidationError ''reference_of_other_booking'')
                     else Inr (d, c))"

definition attach_claim :: "db \<Rightarrow> claim \<Rightarrow> nat \<Rightarrow> db" where
  "attach_claim d c k = d \<lparr> db_claims := row_put cl_digest (db_claims d) (c \<lparr> cl_payment := Some k \<rparr>) \<rparr>"

text \<open>Every payment attempt with the intent it belongs to.\<close>

definition all_payments :: "db \<Rightarrow> (nat \<times> payment) list" where
  "all_payments d = concat (map (\<lambda>b. case bk_intent b of None \<Rightarrow> []
     | Some i \<Rightarrow> map (\<lambda>p. (in_id i, p)) (in_payments i)) (db_bookings d))
     @ concat (map (\<lambda>i. map (\<lambda>p. (in_id i, p)) (in_payments i)) (db_intents d))"

definition next_payment :: "db \<Rightarrow> nat" where
  "next_payment d = Suc (Max (set (0 # map (pa_id \<circ> snd) (all_payments d))))"

definition prior_receipt :: "db \<Rightarrow> claim \<Rightarrow> string \<Rightarrow> (nat \<times> payment) option" where
  "prior_receipt d c key =
     (case Option.bind (cl_payment c) (\<lambda>k. find (\<lambda>x. pa_id (snd x) = k) (all_payments d)) of
        Some x \<Rightarrow> Some x
      | None \<Rightarrow> find (\<lambda>x. pa_key (snd x) = key) (all_payments d))"

definition manual_payment :: "nat \<Rightarrow> string \<Rightarrow> rat \<Rightarrow> instant \<Rightarrow> payment" where
  "manual_payment k key value t =
     \<lparr> pa_id = k, pa_provider = ''manual'', pa_provider_id = Some (''manual:'' @ key),
       pa_status = PaSucceeded, pa_amount = value, pa_currency = ''SAR'', pa_verified_at = Some t,
       pa_key = key, pa_modification = None, pa_request = None,
       pa_checkout = None, pa_merchant = None, pa_integrity = [], pa_code = [], pa_description = [], pa_failure = [], pa_brand = ''manual_receipt'' \<rparr>"

text \<open>The booking after a receipt of \<open>n\<close>: the intent's payment, the state of the payment, the price.\<close>

definition receipted :: "booking \<Rightarrow> intent \<Rightarrow> payment \<Rightarrow> bool \<Rightarrow> string \<Rightarrow> booking" where
  "receipted b i p paid reference =
     b \<lparr> bk_intent := Some (i \<lparr> in_payments := in_payments i @ [p],
           in_status := (if paid then InCompleted else in_status i) \<rparr>),
         bk_payment_status := (if paid then ''paid'' else ''partially_paid''),
         bk_loyalty := (bk_loyalty b) \<lparr> ls_manual_price := Some (bk_total b, reference) \<rparr> \<rparr>"

definition new_receipt ::
    "env \<Rightarrow> db \<Rightarrow> user \<Rightarrow> booking \<Rightarrow> intent \<Rightarrow> claim \<Rightarrow> rat \<Rightarrow> instant \<Rightarrow> string \<Rightarrow> (db \<times> payment) res" where
  "new_receipt e d operator b i c value t reference =
     (if list_ex (\<lambda>p. pa_status p \<in> {PaCreated, PaPending, PaUnknown, PaReview}) (in_payments i)
      then Inl (ValidationError ''payment_open'')
      else bindE (funding e b) (\<lambda>(cash, points).
        if bk_total b - cash - points < value then Inl (ValidationError ''exceeds_remaining'')
        else
          let k = next_payment d;
              p = manual_payment k (receipt_key e (strip reference)) value t;
              paid = (cash + points + value = bk_total b);
              d1 = attach_claim d c k;
              d2 = d1 \<lparr> db_audit := db_audit d1 @ [\<lparr> au_actor = user_id operator,
                     au_action = ''loyalty.manual_receipt'', au_object = k \<rparr>] \<rparr>
          in Inr (put_booking d2 (receipted b i p paid (strip reference)), p)))"

definition record_manual_receipt ::
    "env \<Rightarrow> db \<Rightarrow> user \<Rightarrow> nat \<Rightarrow> pyval \<Rightarrow> datetime \<Rightarrow> string \<Rightarrow> bool \<Rightarrow> (db \<times> payment) res" where
  "record_manual_receipt e d operator n value received_at reference lodging_only =
     (if \<not> u_operations_owner operator then Inl (PermissionDenied ''owner'')
      else posting_transaction e
       (if \<not> lodging_only then Inl (ValidationError ''lodging_only'')
        else bindE (of_option (DoesNotExist ''reservation'') (get_booking d n)) (\<lambda>b.
        if \<not> booking_allowed e d b then Inl (ValidationError ''outside_pilot'')
        else bindE (launch_at e) (\<lambda>launch.
        if bk_source b \<noteq> DirectWebsite \<or> bk_created_at b < launch
           \<or> bk_status b \<notin> set active_statuses
        then Inl (ValidationError ''confirmed_site_booking'')
        else (case bk_intent b of
            None \<Rightarrow> Inl (ValidationError ''operator_booking'')
          | Some i \<Rightarrow>
              if sq_manual_total (in_quote i) = None then Inl (ValidationError ''operator_booking'')
              else bindE (exact_amount value) (\<lambda>v.
              case received_at of
                Naive _ \<Rightarrow> Inl (ValidationError ''receipt_details'')
              | Aware t \<Rightarrow>
                  if v \<le> 0 \<or> bk_currency b \<noteq> ''SAR'' \<or> strip reference = [] \<or> now e < t
                  then Inl (ValidationError ''receipt_details'')
                  else bindE (claim_reference e d n reference) (\<lambda>(d1, c).
                  case prior_receipt d1 c (receipt_key e (strip reference)) of
                    Some (j, p) \<Rightarrow>
                      if j \<noteq> in_id i \<or> pa_amount p \<noteq> v \<or> pa_verified_at p \<noteq> Some t
                      then Inl (ValidationError ''reference_with_other_details'')
                      else Inr (if cl_payment c = None then attach_claim d1 c (pa_id p) else d1, p)
                  | None \<Rightarrow> new_receipt e d1 operator b i c v t reference)))))))"

subsection \<open>Attested prices of the nights\<close>

definition attested_night :: "pyval \<Rightarrow> (date \<times> rat) res" where
  "attested_night row =
     bindE (of_option (TypeError ''subscript'') (dict_items row)) (\<lambda>kvs.
     bindE (of_option (KeyError ''date'') (map_of kvs ''date'')) (\<lambda>day.
     bindE (of_option (TypeError ''fromisoformat'') (str_of day)) (\<lambda>s.
     bindE (of_option (ValueError ''fromisoformat'') (date_fromisoformat s)) (\<lambda>date_value.
     bindE (of_option (KeyError ''value'') (map_of kvs ''value'')) (\<lambda>v.
     bindE (cents v) (\<lambda>c. Inr (date_value, amount c)))))))"

text \<open>
  The dates are sorted as dates: the ISO texts of the years 1 to 9999 sort the same way.
\<close>

definition attested_snapshot :: "booking \<Rightarrow> (date \<times> rat) list \<Rightarrow> string \<Rightarrow> priced res" where
  "attested_snapshot b nights reference =
     (if sort (map fst nights) \<noteq> map (\<lambda>n. bk_check_in b + int n) [0..<bk_nights b]
         \<or> sum_list (map snd nights) \<noteq> bk_total b
      then Inl (ValidationError ''nights_mismatch'')
      else Inr \<lparr> pr_currency = bk_currency b, pr_reference = strip reference,
             pr_nights = map (\<lambda>(x, v). \<lparr> night_date = isoformat x, night_value = PyDecText v \<rparr>)
                           (sort_key fst nights) \<rparr>)"

definition record_contract_nights ::
    "env \<Rightarrow> db \<Rightarrow> user \<Rightarrow> nat \<Rightarrow> pyval \<Rightarrow> string \<Rightarrow> (db \<times> priced) res" where
  "record_contract_nights e d operator n nights reference =
     (if \<not> u_operations_owner operator then Inl (PermissionDenied ''owner'')
      else posting_transaction e
       (bindE (of_option (DoesNotExist ''reservation'') (get_booking d n)) (\<lambda>b.
        if \<not> booking_allowed e d b then Inl (ValidationError ''outside_pilot'')
        else bindE (launch_at e) (\<lambda>launch.
        if bk_source b \<noteq> DirectWebsite \<or> bk_created_at b < launch
        then Inl (ValidationError ''not_available'')
        else bindE (total_sar (fx e) b) (\<lambda>_.
        if ls_departure (bk_loyalty b) \<noteq> None then Inl (ValidationError ''departure_recorded'')
        else (case nights of
            PyList rows \<Rightarrow>
              if strip reference = [] \<or> length rows \<noteq> bk_nights b
              then Inl (ValidationError ''nights_required'')
              else bindE (mapE attested_night rows) (\<lambda>normalized.
                   bindE (attested_snapshot b normalized reference) (\<lambda>snapshot.
                     let d1 = save_loyalty d b (\<lambda>s. s \<lparr> ls_priced := Some snapshot \<rparr>)
                     in Inr (d1 \<lparr> db_audit := db_audit d1 @ [\<lparr> au_actor = user_id operator,
                               au_action = ''loyalty.contract_nights'', au_object = bk_id b \<rparr>] \<rparr>,
                             snapshot)))
          | _ \<Rightarrow> Inl (ValidationError ''nights_required'')))))))"


subsection \<open>Facts about the balances\<close>

lemma balance_loop_spec:
  assumes "balance_loop clock used ps debt = Inr (rows, rest)" and "0 \<le> debt"
  shows "map fst rows = ps \<and> 0 \<le> rest \<and> rest \<le> debt
    \<and> (\<forall>(p, v) \<in> set rows. 0 \<le> v \<and> v \<le> max (pa_amount p - used (pa_id p)) 0)
    \<and> sum_list (map snd rows) + (debt - rest) \<le> sum_list (map (\<lambda>p. max (pa_amount p - used (pa_id p)) 0) ps)
    \<and> ((\<forall>p \<in> set ps. pa_status p \<noteq> PaRefunded) \<longrightarrow> sum_list (map snd rows) + (debt - rest)
         = sum_list (map (\<lambda>p. max (pa_amount p - used (pa_id p)) 0) ps))"
  using assms
proof (induction ps arbitrary: debt rows rest)
  case Nil
  then show ?case by simp
next
  case (Cons p ps)
  define remaining where "remaining = max (pa_amount p - used (pa_id p)) 0"
  define take where "take = min remaining debt"
  obtain rows' where r: "balance_loop clock used ps (debt - take) = Inr (rows', rest)"
    and rows: "rows = (p, if pa_status p = PaRefunded then 0 else remaining - take) # rows'"
    using Cons.prems(1)
    by (auto simp: bindE_Inr_iff Let_def remaining_def take_def split: if_splits)
  have t: "0 \<le> take" "take \<le> remaining" "0 \<le> remaining" "0 \<le> debt - take"
    using Cons.prems(2) by (simp_all add: take_def remaining_def)
  note IH = Cons.IH [OF r t(4)]
  have "(\<forall>(q, v) \<in> set rows. 0 \<le> v \<and> v \<le> max (pa_amount q - used (pa_id q)) 0)"
    using IH t rows by (auto simp: remaining_def)
  moreover have "map fst rows = p # ps" "0 \<le> rest" "rest \<le> debt" using IH t rows by auto
  moreover have "sum_list (map snd rows) + (debt - rest) \<le> remaining + sum_list (map (\<lambda>p. max (pa_amount p - used (pa_id p)) 0) ps)"
    using IH t rows by (simp split: if_splits)
  moreover have "sum_list (map snd rows) + (debt - rest) = remaining + sum_list (map (\<lambda>p. max (pa_amount p - used (pa_id p)) 0) ps)"
    if "\<forall>q \<in> set (p # ps). pa_status q \<noteq> PaRefunded"
    using IH that rows by simp
  ultimately show ?case by (simp add: remaining_def)
qed

lemma sum_by_key:
  fixes f :: "'r \<Rightarrow> rat"
  assumes "distinct ks"
  shows "sum_list (map (\<lambda>k. sum_list (map f (filter (\<lambda>r. g r = Some k) rs))) ks)
     + sum_list (map f (filter (\<lambda>r. g r \<notin> Some ` set ks) rs)) = sum_list (map f rs)"
proof (induction rs)
  case Nil
  then show ?case by (simp add: sum_list_triv)
next
  case (Cons r rs)
  have "sum_list (map (\<lambda>k. sum_list (map f (filter (\<lambda>r. g r = Some k) (r # rs)))) ks)
     = sum_list (map (\<lambda>k. (if g r = Some k then f r else 0)
         + sum_list (map f (filter (\<lambda>r. g r = Some k) rs))) ks)"
    by (intro arg_cong [where f = sum_list] map_cong) simp_all
  also have "\<dots> = sum_list (map (\<lambda>k. if g r = Some k then f r else 0) ks)
     + sum_list (map (\<lambda>k. sum_list (map f (filter (\<lambda>r. g r = Some k) rs))) ks)"
    by (rule sum_list_addf)
  also have "sum_list (map (\<lambda>k. if g r = Some k then f r else 0) ks) = (if g r \<in> Some ` set ks then f r else 0)"
    using assms by (induction ks) auto
  finally show ?case using Cons by auto
qed

lemma payment_balances_spec:
  assumes bal: "payment_balances e b = Inr rows"
    and debts: "\<forall>r \<in> set (open_refunds b). 0 \<le> ob_amount r"
    and ids: "distinct (map pa_id (receipts b))"
    and fit: "\<forall>p \<in> set (receipts b). assigned_to (receipts b) (open_refunds b) (pa_id p) \<le> pa_amount p"
  shows "map fst rows = receipts b \<and> (\<forall>(p, v) \<in> set rows. 0 \<le> v \<and> v \<le> pa_amount p)
    \<and> sum_list (map snd rows) + sum_list (map ob_amount (open_refunds b))
        \<le> sum_list (map pa_amount (receipts b))
    \<and> ((\<forall>p \<in> set (receipts b). pa_status p \<noteq> PaRefunded) \<longrightarrow>
         sum_list (map snd rows) + sum_list (map ob_amount (open_refunds b))
           = sum_list (map pa_amount (receipts b)))"
proof -
  let ?ps = "receipts b" and ?rs = "open_refunds b"
  let ?used = "assigned_to ?ps ?rs" and ?un = "unassigned ?ps ?rs"
  have loop: "balance_loop (now e) ?used ?ps ?un = Inr (rows, 0)"
    using bal by (auto simp: payment_balances_def Let_def bindE_Inr_iff split: if_splits)
  have un: "0 \<le> ?un" unfolding unassigned_def using debts by (intro sum_list_nonneg_map) auto
  have used: "0 \<le> ?used k" for k unfolding assigned_to_def using debts by (intro sum_list_nonneg_map) auto
  note S = balance_loop_spec [OF loop un]
  have m: "max (pa_amount p - ?used (pa_id p)) 0 = pa_amount p - ?used (pa_id p)" if "p \<in> set ?ps" for p
    using fit that by simp
  have sums: "sum_list (map (\<lambda>p. max (pa_amount p - ?used (pa_id p)) 0) ?ps)
      = sum_list (map pa_amount ?ps) - sum_list (map (\<lambda>p. ?used (pa_id p)) ?ps)"
    using m by (simp add: sum_list_subtractf cong: map_cong)
  have "sum_list (map ?used (map pa_id ?ps)) + ?un = sum_list (map ob_amount ?rs)"
    unfolding assigned_to_def unassigned_def
    using sum_by_key [OF ids, of ob_amount "refund_key ?ps" ?rs] by (simp only: set_map)
  then have parts: "sum_list (map (\<lambda>p. ?used (pa_id p)) ?ps) + ?un = sum_list (map ob_amount ?rs)"
    by (simp add: comp_def)
  have vs: "0 \<le> v \<and> v \<le> pa_amount p" if "(p, v) \<in> set rows" for p v
  proof -
    have "map fst rows = ?ps" and R: "\<forall>x \<in> set rows. 0 \<le> snd x \<and> snd x \<le> max (pa_amount (fst x) - ?used (pa_id (fst x))) 0"
      using S by (simp_all add: case_prod_beta)
    then have "p \<in> set ?ps" using that by (metis fst_conv image_eqI set_map)
    then have "v \<le> pa_amount p - ?used (pa_id p)" "0 \<le> v" using R [rule_format, OF that] m by simp_all
    then show ?thesis using used [of "pa_id p"] by simp
  qed
  have eq: "sum_list (map snd rows) + ?un = sum_list (map (\<lambda>p. max (pa_amount p - ?used (pa_id p)) 0) ?ps)"
    if "\<forall>p \<in> set ?ps. pa_status p \<noteq> PaRefunded"
    using S that by simp
  have le: "sum_list (map snd rows) + ?un \<le> sum_list (map (\<lambda>p. max (pa_amount p - ?used (pa_id p)) 0) ?ps)"
    using S by simp
  show ?thesis
    using S vs le eq unfolding sums parts [symmetric] by (intro conjI impI) (simp_all add: case_prod_beta)
qed


subsection \<open>Facts about receipts outside the gateway\<close>

lemma row_get_append: "row_get key rows k = None \<Longrightarrow> key r = k \<Longrightarrow> row_get key (rows @ [r]) k = Some r"
  by (induction rows) (auto simp: row_get_def split: if_splits)

lemma find_unique:
  assumes "x \<in> set xs" and "P x" and "\<And>y. y \<in> set xs \<Longrightarrow> P y \<Longrightarrow> y = x"
  shows "find P xs = Some x"
proof (cases "find P xs")
  case None
  then show ?thesis using assms(1,2) by (simp add: find_None_iff)
next
  case (Some y)
  then show ?thesis using find_Some_in [OF Some] assms(3) by simp
qed

definition payments_in :: "booking \<Rightarrow> (nat \<times> payment) list" where
  "payments_in b = (case bk_intent b of None \<Rightarrow> [] | Some i \<Rightarrow> map (\<lambda>p. (in_id i, p)) (in_payments i))"

lemma all_payments_in: "set (all_payments d) = (\<Union>b \<in> set (db_bookings d). set (payments_in b))
    \<union> (\<Union>i \<in> set (db_intents d). (\<lambda>p. (in_id i, p)) ` set (in_payments i))"
  by (simp add: all_payments_def payments_in_def)

lemma all_payments_put:
  "x \<in> set (all_payments (put_booking d b)) \<Longrightarrow> x \<in> set (all_payments d) \<or> x \<in> set (payments_in b)"
  by (auto simp: all_payments_in put_booking_def row_put_def split: if_splits)

lemma put_payments:
  assumes "get_booking d (bk_id b) = Some b0" and "x \<in> set (payments_in b)"
  shows "x \<in> set (all_payments (put_booking d b))"
proof -
  have "b0 \<in> set (db_bookings d)" "bk_id b0 = bk_id b"
    using assms(1) by (auto simp: get_booking_def row_get_def dest: find_Some_in)
  then have "b \<in> set (row_put bk_id (db_bookings d) b)" by (force simp: row_put_def)
  then show ?thesis using assms(2) by (auto simp: all_payments_in put_booking_def)
qed

lemma next_payment_fresh: "x \<in> set (all_payments d) \<Longrightarrow> pa_id (snd x) < next_payment d"
  unfolding next_payment_def by (intro le_imp_less_Suc Max_ge) auto

lemma claim_reference_Inr:
  "claim_reference e d n reference = Inr (d1, c) \<Longrightarrow>
     cl_booking c = n \<and> cl_digest c = text_digest e reference
     \<and> row_get cl_digest (db_claims d1) (text_digest e reference) = Some c
     \<and> (\<exists>cs. d1 = d \<lparr> db_claims := cs \<rparr>) \<and> claim_reference e d1 n reference = Inr (d1, c)"
  by (auto simp: claim_reference_def Let_def row_get_append dest: row_get_key split: option.splits if_splits
      intro: exI [of _ "db_claims d"])

lemma claim_attached:
  assumes "claim_reference e d n reference = Inr (d1, c)" and "db_claims d2 = db_claims (attach_claim d1 c k)"
  shows "claim_reference e d2 n reference = Inr (d2, c \<lparr> cl_payment := Some k \<rparr>)"
proof -
  note C = claim_reference_Inr [OF assms(1)]
  have "row_get cl_digest (db_claims d2) (text_digest e reference) = Some (c \<lparr> cl_payment := Some k \<rparr>)"
    using C row_get_put_same [of cl_digest "db_claims d1" "c \<lparr> cl_payment := Some k \<rparr>" c] assms(2)
    by (simp add: attach_claim_def)
  then show ?thesis using C by (simp add: claim_reference_def)
qed

text \<open>The part of the command after the reference is claimed.\<close>

definition settle_receipt ::
    "env \<Rightarrow> user \<Rightarrow> booking \<Rightarrow> intent \<Rightarrow> rat \<Rightarrow> instant \<Rightarrow> string \<Rightarrow> db \<times> claim \<Rightarrow> (db \<times> payment) res" where
  "settle_receipt e operator b i v t reference claimed =
     (case prior_receipt (fst claimed) (snd claimed) (receipt_key e (strip reference)) of
        Some (j, p) \<Rightarrow>
          if j \<noteq> in_id i \<or> pa_amount p \<noteq> v \<or> pa_verified_at p \<noteq> Some t
          then Inl (ValidationError ''reference_with_other_details'')
          else Inr (if cl_payment (snd claimed) = None then attach_claim (fst claimed) (snd claimed) (pa_id p)
                    else fst claimed, p)
      | None \<Rightarrow> new_receipt e (fst claimed) operator b i (snd claimed) v t reference)"

lemma record_manual_receipt_Inr:
  "record_manual_receipt e d op n value (Aware t) reference lodging = Inr (d', p) \<longleftrightarrow>
     (\<exists>b i v launch claimed. u_operations_owner op \<and> loyalty_enabled e \<and> launch_at e = Inr launch \<and> lodging
        \<and> get_booking d n = Some b \<and> booking_allowed e d b \<and> bk_source b = DirectWebsite
        \<and> launch \<le> bk_created_at b \<and> bk_status b \<in> set active_statuses \<and> bk_intent b = Some i
        \<and> sq_manual_total (in_quote i) \<noteq> None \<and> exact_amount value = Inr v \<and> 0 < v
        \<and> bk_currency b = ''SAR'' \<and> strip reference \<noteq> [] \<and> t \<le> now e
        \<and> claim_reference e d n reference = Inr claimed
        \<and> settle_receipt e op b i v t reference claimed = Inr (d', p))"
proof (cases "get_booking d n")
  case None
  then show ?thesis by (simp add: record_manual_receipt_def posting_transaction_Inr)
next
  case (Some b)
  note b = this
  show ?thesis
  proof (cases "launch_at e")
    case (Inl x)
    then show ?thesis by (auto simp: record_manual_receipt_def posting_transaction_def)
  next
    case (Inr launch)
    then have le: "\<exists>t. launch_setting e = Some (Aware t)"
      by (auto simp: launch_at_def split: option.splits datetime.splits)
    show ?thesis
      by (cases "bk_intent b"; cases "exact_amount value"; cases "claim_reference e d n reference")
        (auto simp: record_manual_receipt_def posting_transaction_Inr b Inr le not_less not_le settle_receipt_def
          split: if_splits option.splits prod.splits)
  qed
qed


lemma new_receipt_Inr:
  assumes "new_receipt e d op b i c v t reference = Inr (d', p)"
  obtains cash points d2 where "funding e b = Inr (cash, points)" "cash + points + v \<le> bk_total b"
    "p = manual_payment (next_payment d) (receipt_key e (strip reference)) v t"
    "d' = put_booking d2 (receipted b i p (cash + points + v = bk_total b) (strip reference))"
    "db_bookings d2 = db_bookings d" "db_claims d2 = db_claims (attach_claim d c (next_payment d))"
    "db_users d2 = db_users d" "db_intents d2 = db_intents d"
  using assms
  by (auto simp: new_receipt_def bindE_Inr_iff Let_def attach_claim_def not_less split: if_splits intro!: that)

lemma receipted_fields [simp]:
  "bk_id (receipted b i p paid r) = bk_id b" "bk_source (receipted b i p paid r) = bk_source b"
  "bk_created_at (receipted b i p paid r) = bk_created_at b" "bk_status (receipted b i p paid r) = bk_status b"
  "bk_currency (receipted b i p paid r) = bk_currency b" "bk_total (receipted b i p paid r) = bk_total b"
  "bk_reference (receipted b i p paid r) = bk_reference b"
  "bk_intent (receipted b i p paid r) = Some (i \<lparr> in_payments := in_payments i @ [p],
     in_status := (if paid then InCompleted else in_status i) \<rparr>)"
  by (simp_all add: receipted_def)

lemma booking_allowed_receipted:
  assumes "bk_intent b = Some i" and "db_users d' = db_users d"
  shows "booking_allowed e d' (receipted b i p paid r) = booking_allowed e d b"
  using assms by (simp add: booking_allowed_def booking_customer_def intent_user_def get_user_def)

lemma receipt_again:
  assumes run: "record_manual_receipt e d op n value (Aware t) reference lodging = Inr (d', p)"
    and ids: "distinct (map (pa_id \<circ> snd) (all_payments d))"
  shows "record_manual_receipt e d' op n value (Aware t) reference lodging = Inr (d', p)"
proof -
  from run obtain b i v launch d1 c where R: "u_operations_owner op" "loyalty_enabled e" "launch_at e = Inr launch"
    "lodging" "get_booking d n = Some b" "booking_allowed e d b" "bk_source b = DirectWebsite"
    "launch \<le> bk_created_at b" "bk_status b \<in> set active_statuses" "bk_intent b = Some i"
    "sq_manual_total (in_quote i) \<noteq> None" "exact_amount value = Inr v" "0 < v"
    "bk_currency b = ''SAR''" "strip reference \<noteq> []" "t \<le> now e"
    and c: "claim_reference e d n reference = Inr (d1, c)"
    and s: "settle_receipt e op b i v t reference (d1, c) = Inr (d', p)"
    unfolding record_manual_receipt_Inr by (elim exE conjE) (metis surj_pair)
  note C = claim_reference_Inr [OF c]
  have pays: "all_payments d1 = all_payments d" using C by (auto simp: all_payments_def)
  have unique: "y = x" if "x \<in> set (all_payments d)" "y \<in> set (all_payments d)" "pa_id (snd y) = pa_id (snd x)" for x y
    using ids that by (auto simp: distinct_map inj_on_def)
  have bid: "bk_id b = n" using R(5) by (rule booking_table.get_key)
  show ?thesis
  proof (cases "prior_receipt d1 c (receipt_key e (strip reference))")
    case (Some x)
    obtain j q where x: "x = (j, q)" by (cases x)
    have same: "j = in_id i" "pa_amount q = v" "pa_verified_at q = Some t" "p = q"
      and d': "d' = (if cl_payment c = None then attach_claim d1 c (pa_id q) else d1)"
      using s Some x by (auto simp: settle_receipt_def split: if_splits)
    have xin: "(j, q) \<in> set (all_payments d)"
      using Some x pays by (auto simp: prior_receipt_def bind_eq_Some_conv split: option.splits dest: find_Some_in)
    have rows: "db_bookings d' = db_bookings d" "db_users d' = db_users d" "db_intents d' = db_intents d"
      using C d' by (auto simp: attach_claim_def)
    have g: "get_booking d' n = Some b" "all_payments d' = all_payments d" "booking_allowed e d' b"
      using rows R(5,6) by (simp_all add: get_booking_def all_payments_def booking_allowed_def intent_user_def get_user_def)
    have "\<exists>c'. claim_reference e d' n reference = Inr (d', c') \<and> cl_payment c' \<noteq> None
       \<and> prior_receipt d' c' (receipt_key e (strip reference)) = Some (j, q)"
    proof (cases "cl_payment c")
      case None
      have "find (\<lambda>y. pa_id (snd y) = pa_id q) (all_payments d) = Some (j, q)"
        using xin unique by (intro find_unique) auto
      then show ?thesis
        using claim_attached [OF c, of d' "pa_id q"] d' None g by (simp add: prior_receipt_def)
    next
      case (Some k)
      then show ?thesis
        using C d' \<open>prior_receipt d1 c _ = Some x\<close> x by (auto simp: prior_receipt_def)
    qed
    then show ?thesis
      unfolding record_manual_receipt_Inr using R g same
      by (auto simp: settle_receipt_def)
  next
    case None
    then have "new_receipt e d1 op b i c v t reference = Inr (d', p)" using s by (simp add: settle_receipt_def)
    then show ?thesis
    proof (rule new_receipt_Inr)
      fix cash points d2
      let ?b = "receipted b i p (cash + points + v = bk_total b) (strip reference)"
      assume p: "p = manual_payment (next_payment d1) (receipt_key e (strip reference)) v t"
        and d': "d' = put_booking d2 ?b" and d2: "db_bookings d2 = db_bookings d1"
        "db_claims d2 = db_claims (attach_claim d1 c (next_payment d1))" "db_users d2 = db_users d1"
        "db_intents d2 = db_intents d1"
      have d1b: "db_bookings d1 = db_bookings d" "db_users d1 = db_users d" using C by auto
      have old: "get_booking d2 (bk_id ?b) = Some b"
        using R(5) bid d2 d1b by (simp add: get_booking_def)
      have g: "get_booking d' n = Some ?b"
        using booking_table.get_put_same [OF old] bid by (simp add: d')
      have al: "booking_allowed e d' ?b"
        using R(6) booking_allowed_receipted [OF R(10), of d' d] d' d2 d1b by (simp add: put_booking_def)
      have cl: "claim_reference e d' n reference = Inr (d', c \<lparr> cl_payment := Some (next_payment d1) \<rparr>)"
        by (rule claim_attached [OF c]) (simp add: d' put_booking_def d2)
      have pin: "(in_id i, p) \<in> set (all_payments d')"
        unfolding d' by (rule put_payments [OF old]) (simp add: payments_in_def)
      have "find (\<lambda>x. pa_id (snd x) = next_payment d1) (all_payments d') = Some (in_id i, p)"
      proof (rule find_unique [OF pin])
        show "pa_id (snd (in_id i, p)) = next_payment d1" by (simp add: p manual_payment_def)
        fix y assume y: "y \<in> set (all_payments d')" "pa_id (snd y) = next_payment d1"
        have old_pay: "z \<in> set (all_payments d1) \<Longrightarrow> pa_id (snd z) \<noteq> next_payment d1" for z
          using next_payment_fresh by fastforce
        have "all_payments d2 = all_payments d1" by (simp add: all_payments_def d2)
        then have "y \<in> set (payments_in ?b)" using y all_payments_put [of y d2 ?b] old_pay [of y] by (auto simp: d')
        moreover have "z \<in> set (all_payments d1)" if "z \<in> set (payments_in b)" for z
          using that R(5) d1b by (auto simp: all_payments_in get_booking_def row_get_def dest: find_Some_in)
        ultimately show "y = (in_id i, p)"
          using R(10) y old_pay by (fastforce simp: payments_in_def)
      qed
      then have pr: "prior_receipt d' (c \<lparr> cl_payment := Some (next_payment d1) \<rparr>) (receipt_key e (strip reference)) = Some (in_id i, p)"
        by (simp add: prior_receipt_def)
      show ?thesis
        unfolding record_manual_receipt_Inr using R g al cl pr
        by (auto simp: settle_receipt_def p manual_payment_def)
    qed
  qed
qed


subsection \<open>Properties\<close>

text \<open>C24: a cancellation before the arrival gives back everything. The plan restores every point
  spent on the stay, and its cash together with the debts already recorded never exceeds what the
  receipts brought in, and is exactly that when no receipt was returned in full elsewhere.\<close>

theorem prearrival_returns_everything:
  assumes plan: "cancellation_plan e d b = Inr (Some p)" and early: "effective_arrival e b = Inr None"
    and debts: "\<forall>r \<in> set (open_refunds b). 0 \<le> ob_amount r"
    and ids: "distinct (map pa_id (receipts b))"
    and fit: "\<forall>q \<in> set (receipts b). assigned_to (receipts b) (open_refunds b) (pa_id q) \<le> pa_amount q"
  shows "pl_points p = net_points b \<and> pl_target p = restored_points b + net_points b
    \<and> 0 \<le> pl_cash p
    \<and> pl_cash p + sum_list (map ob_amount (open_refunds b)) \<le> sum_list (map pa_amount (receipts b))
    \<and> ((\<forall>q \<in> set (receipts b). pa_status q \<noteq> PaRefunded) \<longrightarrow>
         pl_cash p + sum_list (map ob_amount (open_refunds b)) = sum_list (map pa_amount (receipts b)))"
proof -
  obtain rows where rows: "payment_balances e b = Inr rows" and p: "pl_cash p = sum_list (map snd rows)"
    "pl_points p = net_points b" "pl_target p = restored_points b + net_points b"
    using plan early by (auto simp: cancellation_plan_def funding_def bindE_Inr_iff split: if_splits)
  note B = payment_balances_spec [OF rows debts ids fit]
  have "0 \<le> sum_list (map snd rows)" using B by (intro sum_list_nonneg_map) (auto simp: case_prod_beta)
  then show ?thesis using B p by simp
qed

definition waiting_booking :: booking where
  "waiting_booking = paid_booking \<lparr> bk_loyalty := blank_loyalty \<rparr>"

definition card_receipt :: payment where
  "card_receipt = \<lparr> pa_id = 90, pa_provider = ''hyperpay'', pa_provider_id = Some ''x1'',
     pa_status = PaSucceeded, pa_amount = 1000, pa_currency = ''SAR'', pa_verified_at = Some 6,
     pa_key = ''k'', pa_modification = None, pa_request = None,
       pa_checkout = None, pa_merchant = None, pa_integrity = [], pa_code = [], pa_description = [], pa_failure = [], pa_brand = [] \<rparr>"

lemma card_receipt_fields [simp]: "pa_amount card_receipt = 1000" "pa_id card_receipt = 90"
  "pa_status card_receipt = PaSucceeded" "pa_verified_at card_receipt = Some 6"
  "pa_provider_id card_receipt = Some ''x1''" "pa_currency card_receipt = ''SAR''"
  by (simp_all add: card_receipt_def)

lemma waiting_receipts:
  "receipts (paid_booking \<lparr> bk_loyalty := s, bk_refunds := rs, bk_total := v \<rparr>) = [card_receipt]"
  by (simp add: receipts_def paid_booking_def card_receipt_def blank_text_def)

lemma waiting_eligible:
  "eligible sample_env sample_db (paid_booking \<lparr> bk_loyalty := s, bk_refunds := rs, bk_total := v \<rparr>) = Inr True"
  by (simp add: eligible_def launch_at_def booking_allowed_def booking_customer_def member_of_customer_def
      paid_booking_def sample_defs)

lemma waiting_same: "waiting_booking = paid_booking \<lparr> bk_loyalty := blank_loyalty, bk_refunds := [], bk_total := 1000 \<rparr>"
  by (simp add: waiting_booking_def paid_booking_def sample_booking_def)

lemma waiting_unarrived: "effective_arrival sample_env waiting_booking = Inr None"
  by (simp add: effective_arrival_def scheduled_eligibility_def stay_times_def waiting_booking_def
      paid_booking_def sample_defs wall_clock_def epoch_ordinal_def day_us_def active_statuses_def)

lemma waiting_balances: "payment_balances sample_env waiting_booking = Inr [(card_receipt, 1000)]"
proof -
  have "6 \<le> now sample_env" by (simp add: sample_env_def)
  then show ?thesis
    unfolding payment_balances_def waiting_same waiting_receipts
    by (simp add: open_refunds_def unassigned_def assigned_to_def)
qed

lemma waiting_plan: "\<exists>p. cancellation_plan sample_env sample_db waiting_booking = Inr (Some p) \<and> pl_cash p = 1000"
proof -
  have t: "total_sar (fx sample_env) waiting_booking = Inr 1000"
    by (simp add: total_sar_def waiting_booking_def paid_booking_def sample_defs normalize_amount_def
        sample_quantum sar_def payment_currency_def thousand_up)
  have el: "eligible sample_env sample_db waiting_booking = Inr True"
    unfolding waiting_same by (rule waiting_eligible)
  show ?thesis
    by (simp add: cancellation_plan_def funding_def waiting_balances t waiting_unarrived el)
qed

theorem prearrival_returns_everything_witness:
  "\<exists>p. cancellation_plan sample_env sample_db waiting_booking = Inr (Some p)
     \<and> pl_cash p + sum_list (map ob_amount (open_refunds waiting_booking)) = 1000"
proof -
  obtain p where p: "cancellation_plan sample_env sample_db waiting_booking = Inr (Some p)"
    using waiting_plan by blast
  have r: "receipts waiting_booking = [card_receipt]" unfolding waiting_same by (rule waiting_receipts)
  have no: "open_refunds waiting_booking = []"
    by (simp add: open_refunds_def waiting_booking_def paid_booking_def sample_booking_def)
  show ?thesis
    using prearrival_returns_everything [OF p waiting_unarrived] p by (simp add: r no assigned_to_def)
qed

text \<open>A receipt is recorded once and never beyond the price. Recording the same reference
  again, with the same amount and time, returns the same payment and changes nothing; a new
  receipt is one whose amount, with the cash and points already there, stays within the booking's
  total, and it is appended to the booking's payments as verified cash.\<close>

lemma receipt_recorded_once:
  assumes run: "record_manual_receipt e d op n value (Aware t) reference lodging = Inr (d', p)"
    and ids: "distinct (map (pa_id \<circ> snd) (all_payments d))"
  shows "record_manual_receipt e d' op n value (Aware t) reference lodging = Inr (d', p)
    \<and> ((\<exists>j. (j, p) \<in> set (all_payments d) \<and> db_bookings d' = db_bookings d)
       \<or> (\<exists>b cash points b'. get_booking d n = Some b \<and> funding e b = Inr (cash, points)
            \<and> cash + points + pa_amount p \<le> bk_total b \<and> 0 < pa_amount p
            \<and> get_booking d' n = Some b' \<and> receipts b' = receipts b @ [p]))"
proof
  show "record_manual_receipt e d' op n value (Aware t) reference lodging = Inr (d', p)"
    by (rule receipt_again [OF run ids])
  from run obtain b i v d1 c where b: "get_booking d n = Some b" and i: "bk_intent b = Some i" and v: "0 < v"
    and c: "claim_reference e d n reference = Inr (d1, c)"
    and s: "settle_receipt e op b i v t reference (d1, c) = Inr (d', p)"
    unfolding record_manual_receipt_Inr by (elim exE conjE) (metis surj_pair)
  note C = claim_reference_Inr [OF c]
  have d1: "db_bookings d1 = db_bookings d" "all_payments d1 = all_payments d"
    using C by (auto simp: all_payments_def)
  have bid: "bk_id b = n" using b by (rule booking_table.get_key)
  show "(\<exists>j. (j, p) \<in> set (all_payments d) \<and> db_bookings d' = db_bookings d)
       \<or> (\<exists>b cash points b'. get_booking d n = Some b \<and> funding e b = Inr (cash, points)
            \<and> cash + points + pa_amount p \<le> bk_total b \<and> 0 < pa_amount p
            \<and> get_booking d' n = Some b' \<and> receipts b' = receipts b @ [p])"
  proof (cases "prior_receipt d1 c (receipt_key e (strip reference))")
    case (Some x)
    then show ?thesis
      using s d1 by (cases x) (auto simp: settle_receipt_def attach_claim_def prior_receipt_def bind_eq_Some_conv
          split: if_splits option.splits dest: find_Some_in)
  next
    case None
    then have "new_receipt e d1 op b i c v t reference = Inr (d', p)" using s by (simp add: settle_receipt_def)
    then show ?thesis
    proof (rule new_receipt_Inr)
      fix cash points d2
      let ?b = "receipted b i p (cash + points + v = bk_total b) (strip reference)"
      assume f: "funding e b = Inr (cash, points)" "cash + points + v \<le> bk_total b"
        and p: "p = manual_payment (next_payment d1) (receipt_key e (strip reference)) v t"
        and d': "d' = put_booking d2 ?b" "db_bookings d2 = db_bookings d1"
      have "get_booking d2 (bk_id ?b) = Some b" using b bid d' d1 by (simp add: get_booking_def)
      then have g: "get_booking d' n = Some ?b" using booking_table.get_put_same bid by (fastforce simp: d')
      have "receipts ?b = receipts b @ [p]"
        by (simp add: receipts_def i) (simp add: p manual_payment_def blank_text_def)
      then show ?thesis using b f g v by (intro disjI2) (auto simp: p manual_payment_def)
    qed
  qed
qed


definition desk_booking :: booking where
  "desk_booking = sample_booking \<lparr> bk_intent := Some (sample_intent \<lparr> in_quote :=
     (in_quote sample_intent) \<lparr> sq_manual_total := Some 1000 \<rparr> \<rparr>) \<rparr>"

definition desk_db :: db where
  "desk_db = sample_db \<lparr> db_bookings := [desk_booking] \<rparr>"

lemma desk_receipt:
  "\<exists>d' p. record_manual_receipt sample_env desk_db (sample_user 3) 70 (PyInt 400) (Aware 500) ''R1'' True = Inr (d', p)"
proof -
  have f: "funding sample_env desk_booking = Inr (0, 0)"
    by (simp add: funding_def payment_balances_def receipts_def desk_booking_def sample_defs
        open_refunds_def unassigned_def net_points_def)
  have x: "exact_amount (PyInt 400) = Inr 400"
    using priced_cents(1) by (simp add: exact_amount_def cents_def amount_def split: if_splits)
  have st: "strip ''R1'' = ''R1''" by code_simp
  have pays: "all_payments (desk_db \<lparr> db_claims := cs \<rparr>) = []" for cs
    by (simp add: all_payments_def desk_db_def desk_booking_def sample_defs)
  obtain c where c: "claim_reference sample_env desk_db 70 ''R1'' = Inr (desk_db \<lparr> db_claims := [c] \<rparr>, c)"
    "cl_payment c = None"
  proof
    have "db_claims desk_db = []" by (simp add: desk_db_def sample_db_def)
    then show "claim_reference sample_env desk_db 70 ''R1'' = Inr (desk_db \<lparr> db_claims :=
        [\<lparr> cl_digest = text_digest sample_env ''R1'', cl_booking = 70, cl_payment = None \<rparr>] \<rparr>,
        \<lparr> cl_digest = text_digest sample_env ''R1'', cl_booking = 70, cl_payment = None \<rparr>)"
      by (simp add: claim_reference_def row_get_def Let_def)
  qed simp
  have "\<exists>d' p. new_receipt sample_env (desk_db \<lparr> db_claims := [c] \<rparr>) (sample_user 3) desk_booking
      (the (bk_intent desk_booking)) c 400 500 ''R1'' = Inr (d', p)"
    by (simp add: new_receipt_def f Let_def) (simp add: desk_booking_def sample_defs)
  then have s: "\<exists>d' p. settle_receipt sample_env (sample_user 3) desk_booking
      (the (bk_intent desk_booking)) 400 500 ''R1'' (desk_db \<lparr> db_claims := [c] \<rparr>, c) = Inr (d', p)"
    by (simp add: settle_receipt_def prior_receipt_def pays c)
  have b: "get_booking desk_db 70 = Some desk_booking" "booking_allowed sample_env desk_db desk_booking"
    "bk_source desk_booking = DirectWebsite" "bk_created_at desk_booking = 5" "bk_status desk_booking = Confirmed"
    "bk_currency desk_booking = ''SAR''" "bk_intent desk_booking = Some (the (bk_intent desk_booking))"
    "sq_manual_total (in_quote (the (bk_intent desk_booking))) = Some 1000"
    by (simp_all add: get_booking_def row_get_def desk_db_def booking_allowed_def desk_booking_def sample_defs)
  have en: "loyalty_enabled sample_env" "launch_at sample_env = Inr 0" "500 \<le> now sample_env"
    "u_operations_owner (sample_user 3)"
    by (simp_all add: sample_env_def launch_at_def sample_user_def)
  show ?thesis
    unfolding record_manual_receipt_Inr using b en x st c s by (auto simp: active_statuses_def)
qed

lemma receipt_recorded_once_at:
  "\<exists>d' p. record_manual_receipt sample_env desk_db (sample_user 3) 70 (PyInt 400) (Aware 500) ''R1'' True = Inr (d', p)
     \<and> record_manual_receipt sample_env d' (sample_user 3) 70 (PyInt 400) (Aware 500) ''R1'' True = Inr (d', p)"
proof -
  obtain d' p where run: "record_manual_receipt sample_env desk_db (sample_user 3) 70 (PyInt 400) (Aware 500) ''R1'' True = Inr (d', p)"
    using desk_receipt by blast
  have "all_payments desk_db = []"
    by (simp add: all_payments_def desk_db_def desk_booking_def sample_defs)
  then have "distinct (map (pa_id \<circ> snd) (all_payments desk_db))" by simp
  from receipt_recorded_once [OF run this] run show ?thesis by blast
qed

text \<open>An earlier refund is deducted from a departure refund a second time. A departure plan is
  drawn from the money that is left after earlier refunds, so its cash is due on top of them.
  The cancellation plan that pays it out subtracts every earlier debt of the booking again, so
  after any earlier refund the guest is planned strictly less than the recorded departure refund,
  although the receipts cover both.\<close>

lemma earlier_refund_deducted_again:
  assumes plan: "cancellation_plan e d b = Inr (Some p)" and "effective_arrival e b = Inr (Some a)"
    and dep: "ls_departure (bk_loyalty b) = Some departure"
    and earlier: "0 < sum_list (map ob_amount (open_refunds b))" and due: "0 < de_cash_refund departure"
    and covered: "de_cash_refund departure + sum_list (map ob_amount (open_refunds b))
        \<le> sum_list (map pa_amount (receipts b))"
  shows "pl_cash p = max (de_cash_refund departure - sum_list (map ob_amount (open_refunds b))) 0
    \<and> pl_cash p < de_cash_refund departure"
proof -
  have "pl_cash p = max (de_cash_refund departure - sum_list (map ob_amount (open_refunds b))) 0"
    using assms(1,2) dep by (auto simp: cancellation_plan_def funding_def bindE_Inr_iff Let_def split: if_splits)
  then show ?thesis using earlier due by simp
qed

definition left_early :: departure_state where
  "left_early = \<lparr> de_total = 600, de_nights_reference = ''offer'', de_cash_refund = 600, de_points_refund = 0,
     de_consumed = 0, de_refundable = 600, de_normal = False, de_at = 500, de_reference = ''desk'', de_operator = 3 \<rparr>"

definition shortened_booking :: booking where
  "shortened_booking = paid_booking \<lparr> bk_loyalty := (bk_loyalty paid_booking) \<lparr> ls_departure := Some left_early \<rparr>,
     bk_refunds := [\<lparr> ob_id = 8, ob_modification = Some 4, ob_status = RefundTransferred, ob_amount = 400,
        ob_currency = ''SAR'', ob_payment_attempt = Some 90, ob_original_payment = None,
        ob_transferred_at = Some 50, ob_reason = ''modification_decrease'',
        ob_source = ''loyalty_proportional_decrease'', ob_state = None,
        ob_transfer_reference = [], ob_provider = None, ob_settlement = False \<rparr>], bk_total := 600 \<rparr>"

lemma shortened_plan:
  "\<exists>p. cancellation_plan sample_env sample_db shortened_booking = Inr (Some p) \<and> pl_cash p = 200"
proof -
  have el: "eligible sample_env sample_db shortened_booking = Inr True"
    unfolding shortened_booking_def by (rule waiting_eligible)
  have r: "receipts shortened_booking = [card_receipt]"
    unfolding shortened_booking_def by (rule waiting_receipts)
  have "6 \<le> now sample_env" by (simp add: sample_env_def)
  then have bal: "payment_balances sample_env shortened_booking = Inr [(card_receipt, 600)]"
    unfolding payment_balances_def r
    by (simp add: open_refunds_def unassigned_def assigned_to_def refund_key_def shortened_booking_def)
  have six: "quantize round_half_up 2 600 = Inr 600" by code_simp
  have t: "total_sar (fx sample_env) shortened_booking = Inr 600"
    by (simp add: total_sar_def shortened_booking_def paid_booking_def sample_defs normalize_amount_def
        sample_quantum sar_def payment_currency_def six)
  have a: "\<exists>a. effective_arrival sample_env shortened_booking = Inr (Some a)"
    by (simp add: effective_arrival_def scheduled_eligibility_def stay_times_def shortened_booking_def
      paid_booking_def sample_defs wall_clock_def epoch_ordinal_def day_us_def active_statuses_def)
  have l: "ls_departure (bk_loyalty shortened_booking) = Some left_early"
    "open_refunds shortened_booking = bk_refunds shortened_booking"
    "net_points shortened_booking = 0" "restored_points shortened_booking = 0"
    "sum_list (map ob_amount (bk_refunds shortened_booking)) = 400"
    by (simp_all add: shortened_booking_def open_refunds_def net_points_def restored_points_def
        paid_booking_def blank_loyalty_def)
  show ?thesis
    using a by (auto simp: cancellation_plan_def funding_def bal el t l) (simp_all add: left_early_def)
qed

lemma earlier_refund_deducted_again_at:
  "\<exists>p. cancellation_plan sample_env sample_db shortened_booking = Inr (Some p) \<and> pl_cash p < 600"
proof -
  obtain p where p: "cancellation_plan sample_env sample_db shortened_booking = Inr (Some p)"
    using shortened_plan by blast
  have a: "\<exists>a. effective_arrival sample_env shortened_booking = Inr (Some a)"
    by (simp add: effective_arrival_def scheduled_eligibility_def stay_times_def shortened_booking_def
      paid_booking_def sample_defs wall_clock_def epoch_ordinal_def day_us_def active_statuses_def)
  have r: "receipts shortened_booking = [card_receipt]"
    unfolding shortened_booking_def by (rule waiting_receipts)
  have l: "ls_departure (bk_loyalty shortened_booking) = Some left_early" "de_cash_refund left_early = 600"
    "sum_list (map ob_amount (open_refunds shortened_booking)) = 400"
    by (simp_all add: shortened_booking_def open_refunds_def left_early_def)
  from a obtain a where "effective_arrival sample_env shortened_booking = Inr (Some a)" ..
  from earlier_refund_deducted_again [OF p this l(1)] p show ?thesis by (simp add: l r)
qed

end
