(* ===== verification/Refunds.thy ===== *)
theory Refunds
  imports Settlements
begin

section \<open>What the platform owes a guest\<close>

text \<open>
  The listing's own policy (apps/reservations/services/host_policy.py), the refund of a
  cancellation and the debts it leaves (apps/reservations/services/refunds.py), and the
  recording of a refund plan of apps/loyalty/settlements.py.
\<close>

subsection \<open>The listing's policy\<close>

record listing =
  lp_zone :: string
  lp_check_in_hour :: "int option"
  lp_min_nights :: "int option"
  lp_max_nights :: "int option"
  lp_same_day :: "bool option"
  lp_lead_hours :: "int option"
  lp_policy :: string

text \<open>
  A row of the tier table, and the settings the refund code reads: the rules of the project's own
  time zone, the switch of the flexible launch policy, and the tiers (by policy and then by
  decreasing window).
\<close>

record tier =
  tr_id :: nat
  tr_policy :: string
  tr_min_hours :: int
  tr_percentage :: rat
  tr_cleaning :: bool
  tr_active :: bool

record refund_settings =
  rs_local :: "int \<Rightarrow> instant"
  rs_offset :: zone_offset
  rs_flexible :: bool
  rs_tiers :: "tier list"

text \<open>The clock of the listing, or the project's own when the listing names no known zone.\<close>

definition listing_clock :: "env \<Rightarrow> refund_settings \<Rightarrow> listing \<Rightarrow> (int \<Rightarrow> instant) \<times> zone_offset" where
  "listing_clock e s p =
     (let name = strip (lp_zone p) in
      if name = [] then (rs_local s, rs_offset s)
      else case (zone_instant e name, zone_rules e name) of
             (Some f, Some g) \<Rightarrow> (f, g)
           | _ \<Rightarrow> (rs_local s, rs_offset s))"

definition check_in_hour :: "listing \<Rightarrow> int" where
  "check_in_hour p = (case lp_check_in_hour p of None \<Rightarrow> 15
     | Some h \<Rightarrow> if 0 \<le> h \<and> h \<le> 24 then h else 15)"

definition check_in_datetime :: "env \<Rightarrow> refund_settings \<Rightarrow> listing \<Rightarrow> date \<Rightarrow> instant" where
  "check_in_datetime e s p check_in =
     fst (listing_clock e s p)
       (if check_in_hour p = 24 then wall_clock (check_in + 1) 0
        else wall_clock check_in (check_in_hour p))"

definition set_and :: "int option \<Rightarrow> (int \<Rightarrow> bool) \<Rightarrow> bool" where
  "set_and x P = (case x of None \<Rightarrow> False | Some k \<Rightarrow> k \<noteq> 0 \<and> P k)"

definition policy_blocker ::
    "env \<Rightarrow> refund_settings \<Rightarrow> listing option \<Rightarrow> date \<Rightarrow> date \<Rightarrow> bool \<Rightarrow> instant \<Rightarrow> string" where
  "policy_blocker e s property_obj check_in check_out arrival_changed moment =
     (case property_obj of
        None \<Rightarrow> ''''
      | Some p \<Rightarrow>
          let nights = check_out - check_in in
          if set_and (lp_min_nights p) (\<lambda>m. nights < m) then ''minimum_stay_not_met''
          else if set_and (lp_max_nights p) (\<lambda>m. m < nights) then ''maximum_stay_exceeded''
          else if \<not> arrival_changed then ''''
          else if local_date (snd (listing_clock e s p)) moment < check_in then ''''
          else if lp_same_day p = Some False then ''same_day_change_not_allowed''
          else if set_and (lp_lead_hours p)
                    (\<lambda>h. check_in_datetime e s p check_in - moment < h * 3600000000)
          then ''arrival_lead_time_not_met'' else '''')"

subsection \<open>The refundable balance\<close>

text \<open>
  The markers of a cleaning component; the third is the Arabic word, in UTF-8. Types and titles
  that are no texts are read as empty.
\<close>

definition cleaning_markers :: "string list" where
  "cleaning_markers = [''cleaning'', ''clean'',
     [CHR 0xD8, CHR 0xAA, CHR 0xD9, CHR 0x86, CHR 0xD8, CHR 0xB8, CHR 0xD9, CHR 0x8A, CHR 0xD9, CHR 0x81]]"

fun contains :: "string \<Rightarrow> string \<Rightarrow> bool" where
  "contains [] marker = (marker = [])"
| "contains (c # s) marker = (take (length marker) (c # s) = marker \<or> contains s marker)"

definition component_text :: "(string \<times> pyval) list \<Rightarrow> string \<Rightarrow> string" where
  "component_text d k = (case str_of (dget d k) of None \<Rightarrow> [] | Some s \<Rightarrow> s)"

text \<open>Decimal addition; the sum of opposite infinities raises.\<close>

fun plus_decimal :: "decimal \<Rightarrow> decimal \<Rightarrow> decimal option" where
  "plus_decimal (Fin x) (Fin y) = Some (Fin (x + y))"
| "plus_decimal (Infinity s) (Infinity t) = (if s = t then Some (Infinity s) else None)"
| "plus_decimal (Infinity s) (Fin y) = Some (Infinity s)"
| "plus_decimal (Fin x) (Infinity t) = Some (Infinity t)"
| "plus_decimal x y = Some NaN"

fun cleaning_loop :: "pyval list \<Rightarrow> decimal \<Rightarrow> decimal" where
  "cleaning_loop [] acc = acc"
| "cleaning_loop (p # ps) acc =
     (case dict_items p of
        None \<Rightarrow> cleaning_loop ps acc
      | Some d \<Rightarrow>
          let haystack = casefold (component_text d ''type'' @ '' '' @ component_text d ''title'') in
          if \<not> list_ex (contains haystack) cleaning_markers then cleaning_loop ps acc
          else case map_of d ''total'' of
                 None \<Rightarrow> cleaning_loop ps acc
               | Some t \<Rightarrow> (case Option.bind (decimal_of_str t) (plus_decimal acc) of
                     None \<Rightarrow> cleaning_loop ps acc
                   | Some acc' \<Rightarrow> cleaning_loop ps acc'))"

text \<open>\<open>min(_cleaning_fee(reservation), base)\<close>.\<close>

definition cleaning_fee :: "booking \<Rightarrow> rat \<Rightarrow> rat res" where
  "cleaning_fee b base =
     (case map_option (sq_components \<circ> in_quote) (bk_intent b) of
        Some (PyList parts) \<Rightarrow>
          (case cleaning_loop parts (Fin 0) of
             Fin x \<Rightarrow> Inr (min (max x 0) base)
           | Infinity negative \<Rightarrow> Inr (if negative then min 0 base else base)
           | NaN \<Rightarrow> Inl (DecimalError ''InvalidOperation''))
      | _ \<Rightarrow> Inr (min 0 base))"

text \<open>The first payment by \<open>-verified_at, -created_at\<close>; PostgreSQL sorts nulls first downwards.\<close>

fun not_later :: "instant option \<Rightarrow> instant option \<Rightarrow> bool" where
  "not_later x None = True"
| "not_later (Some a) (Some b) = (a \<le> b)"
| "not_later None (Some b) = False"

definition latest_payment :: "payment list \<Rightarrow> payment option" where
  "latest_payment ps = foldl (\<lambda>acc p. case acc of
        None \<Rightarrow> Some p
      | Some q \<Rightarrow> if not_later (pa_verified_at q) (pa_verified_at p) then Some p else Some q) None ps"

definition in_flight :: "booking \<Rightarrow> string \<Rightarrow> obligation list" where
  "in_flight b currency = filter (\<lambda>r. ob_currency r = currency
     \<and> ob_status r \<in> {RefundProcessing, RefundTransferred}) (bk_refunds b)"

definition original_payment :: "booking \<Rightarrow> payment option" where
  "original_payment b = (case bk_intent b of None \<Rightarrow> None
     | Some i \<Rightarrow> latest_payment (filter (\<lambda>p. pa_modification p = None
         \<and> pa_status p \<in> {PaSucceeded, PaPartiallyRefunded, PaRefunded}
         \<and> pa_currency p = bk_currency b) (in_payments i)))"

definition original_balance :: "booking \<Rightarrow> rat option" where
  "original_balance b = (case original_payment b of
      None \<Rightarrow> None
    | Some p \<Rightarrow>
        if pa_status p = PaRefunded then Some 0
        else Some (max (pa_amount p - sum_list (map ob_amount (filter (\<lambda>r.
                 blank_text (ob_original_payment r) \<or> ob_original_payment r = pa_provider_id p)
                 (in_flight b (bk_currency b))))) 0))"

definition successful_original_payment_amount :: "booking \<Rightarrow> rat option" where
  "successful_original_payment_amount b =
     (case bk_offline b of
        Some r \<Rightarrow>
          if or_payment r = None
          then Some (max (or_amount r - sum_list (map ob_amount (in_flight b (or_currency r)))) 0)
          else original_balance b
      | None \<Rightarrow> original_balance b)"

subsection \<open>The refund of a cancellation\<close>

text \<open>
  \<open>RefundComputation\<close>: the amount, its currency, and of the detail the source, the receipt it is
  drawn on, the reason it is zero, the tier, the
  provider of the receipt and whether it names a settlement; the other entries of the detail only repeat the
  inputs of the computation.
\<close>

record computation =
  cm_amount :: rat
  cm_currency :: string
  cm_source :: string
  cm_attempt :: "nat option"
  cm_reason :: string
  cm_tier :: "nat option"
  cm_provider :: "string option"
  cm_settlement :: bool

definition no_refund :: "string \<Rightarrow> string \<Rightarrow> computation" where
  "no_refund currency reason = \<lparr> cm_amount = 0, cm_currency = currency, cm_source = [],
     cm_attempt = None, cm_reason = reason, cm_tier = None, cm_provider = None, cm_settlement = False \<rparr>"

definition cents4 :: "rat \<Rightarrow> rat res" where
  "cents4 = quantize round_half_up 4"

text \<open>Whole hours from the cancellation to the arrival, none after it.\<close>

definition hours_before :: "instant \<Rightarrow> instant \<Rightarrow> int" where
  "hours_before arrival moment = max 0 (arrival - moment) div 3600000000"

text \<open>The widest active window of the policy that the cancellation still reaches.\<close>

definition reached_tier :: "tier list \<Rightarrow> string \<Rightarrow> int \<Rightarrow> tier option" where
  "reached_tier tiers policy hours =
     foldl (\<lambda>acc t. case acc of None \<Rightarrow> Some t
         | Some u \<Rightarrow> if tr_min_hours u < tr_min_hours t then Some t else Some u) None
       (filter (\<lambda>t. casefold (tr_policy t) = casefold policy \<and> tr_active t \<and> tr_min_hours t \<le> hours) tiers)"

definition flexible_refund ::
    "env \<Rightarrow> refund_settings \<Rightarrow> booking \<Rightarrow> listing option \<Rightarrow> instant \<Rightarrow> computation res" where
  "flexible_refund e s b property_obj moment =
     bindE (of_option (TypeError ''no_property'') property_obj) (\<lambda>p.
     case successful_original_payment_amount b of
       Some original \<Rightarrow>
         if moment < check_in_datetime e s p (bk_check_in b)
         then bindE (cents4 original) (\<lambda>x. Inr ((no_refund (bk_currency b) [])
                \<lparr> cm_amount := x, cm_source := ''launch_flexible_cancellation_policy'' \<rparr>))
         else Inr (no_refund (bk_currency b) ''after_check_in_or_unpaid'')
     | None \<Rightarrow> Inr (no_refund (bk_currency b) ''after_check_in_or_unpaid''))"

definition tier_refund :: "booking \<Rightarrow> tier \<Rightarrow> rat \<Rightarrow> computation res" where
  "tier_refund b t original =
     bindE (if tr_cleaning t then Inr 0 else cleaning_fee b (bk_total b)) (\<lambda>cleaning.
     bindE (ddiv (dmul (min (bk_total b - cleaning) original) (tr_percentage t)) 100) (\<lambda>share.
     bindE (cents4 share) (\<lambda>x.
       Inr ((no_refund (bk_currency b) []) \<lparr> cm_amount := max x 0, cm_tier := Some (tr_id t) \<rparr>))))"

definition cancellation_refund ::
    "env \<Rightarrow> refund_settings \<Rightarrow> db \<Rightarrow> booking \<Rightarrow> listing option \<Rightarrow> instant \<Rightarrow> computation res" where
  "cancellation_refund e s d b property_obj moment =
     bindE (cancellation_plan e d b) (\<lambda>loyalty.
     case loyalty of
       Some plan \<Rightarrow> Inr ((no_refund ''SAR'' []) \<lparr> cm_amount := pl_cash plan, cm_source := pl_source plan \<rparr>)
     | None \<Rightarrow>
         if rs_flexible s then flexible_refund e s b property_obj moment
         else
           let policy = (case property_obj of None \<Rightarrow> [] | Some p \<Rightarrow> strip (lp_policy p)) in
           case successful_original_payment_amount b of
             None \<Rightarrow> Inr (no_refund (bk_currency b) ''unpaid'')
           | Some original \<Rightarrow>
               (case (policy, property_obj) of
                  (_ # _, Some p) \<Rightarrow>
                    (case reached_tier (rs_tiers s) policy
                            (hours_before (check_in_datetime e s p (bk_check_in b)) moment) of
                       None \<Rightarrow> Inr (no_refund (bk_currency b) ''no_matching_tier'')
                     | Some t \<Rightarrow> tier_refund b t original)
                | _ \<Rightarrow> Inr (no_refund (bk_currency b) ''no_policy_on_property'')))"

subsection \<open>Recording a debt\<close>

definition next_obligation :: "db \<Rightarrow> nat" where
  "next_obligation d = Suc (Max (set (0 # concat (map (map ob_id \<circ> bk_refunds) (db_bookings d)))))"

definition due_obligation :: "nat \<Rightarrow> string \<Rightarrow> computation \<Rightarrow> nat option \<Rightarrow> obligation" where
  "due_obligation k reason c modification =
     \<lparr> ob_id = k, ob_modification = modification, ob_status = RefundDue, ob_amount = cm_amount c,
       ob_currency = cm_currency c, ob_payment_attempt = cm_attempt c, ob_original_payment = None,
       ob_transferred_at = None, ob_reason = reason, ob_source = cm_source c,
       ob_state = None, ob_transfer_reference = [], ob_provider = cm_provider c, ob_settlement = cm_settlement c \<rparr>"

text \<open>A debt of a booking with a manual receipt is drawn on that receipt.\<close>

definition noted_on :: "booking \<Rightarrow> computation \<Rightarrow> computation" where
  "noted_on b c = (if bk_offline b = None then c else c \<lparr> cm_provider := Some ''manual'' \<rparr>)"

lemma noted_on_fields [simp]: "cm_amount (noted_on b c) = cm_amount c" "cm_currency (noted_on b c) = cm_currency c"
  "cm_source (noted_on b c) = cm_source c" "cm_attempt (noted_on b c) = cm_attempt c"
  "cm_reason (noted_on b c) = cm_reason c" "cm_tier (noted_on b c) = cm_tier c"
  by (simp_all add: noted_on_def)

definition record_obligation ::
    "db \<Rightarrow> nat \<Rightarrow> string \<Rightarrow> computation \<Rightarrow> nat option \<Rightarrow> (db \<times> obligation option) res" where
  "record_obligation d n reason c modification =
     (if cm_amount c \<le> 0 then Inr (d, None)
      else bindE (of_option (DoesNotExist ''reservation'') (get_booking d n)) (\<lambda>b.
        if bk_offline b \<noteq> None \<and>
           (case successful_original_payment_amount b of None \<Rightarrow> 0 | Some x \<Rightarrow> x) < cm_amount c
        then Inl (ValidationError ''exceeds_manual_receipt'')
        else let r = due_obligation (next_obligation d) reason (noted_on b c) modification
             in Inr (put_booking d (b \<lparr> bk_refunds := bk_refunds b @ [r] \<rparr>), Some r)))"

definition outstanding_total :: "db \<Rightarrow> string \<Rightarrow> rat" where
  "outstanding_total d currency = sum_list (map ob_amount
     (filter (\<lambda>r. ob_status r = RefundDue \<and> ob_currency r = currency)
        (concat (map bk_refunds (db_bookings d)))))"

subsection \<open>Recording a refund plan\<close>

definition plan_computation :: "refund_plan \<Rightarrow> payment \<Rightarrow> rat \<Rightarrow> computation" where
  "plan_computation plan p value = (no_refund ''SAR'' [])
     \<lparr> cm_amount := value, cm_source := pl_source plan, cm_attempt := Some (pa_id p),
       cm_provider := Some (pa_provider p), cm_settlement := True \<rparr>"

text \<open>The loop over the receipts: the cash still to place and the debts recorded so far.\<close>

fun plan_loop ::
    "nat \<Rightarrow> string \<Rightarrow> nat \<Rightarrow> refund_plan \<Rightarrow> (payment \<times> rat) list \<Rightarrow> db \<Rightarrow> rat \<Rightarrow> obligation list
     \<Rightarrow> (db \<times> obligation list) res" where
  "plan_loop n reason m plan [] d remaining rows = Inr (d, rows)"
| "plan_loop n reason m plan ((p, limit) # ps) d remaining rows =
     (let value = min remaining limit in
      if value \<le> 0 then plan_loop n reason m plan ps d remaining rows
      else bindE (record_obligation d n reason (plan_computation plan p value) (Some m)) (\<lambda>(d', row).
           plan_loop n reason m plan ps d' (remaining - value)
             (case row of None \<Rightarrow> rows | Some r \<Rightarrow> rows @ [r])))"

definition record_refund_plan ::
    "env \<Rightarrow> db \<Rightarrow> nat \<Rightarrow> nat \<Rightarrow> refund_plan \<Rightarrow> string \<Rightarrow> (db \<times> obligation list) res" where
  "record_refund_plan e d n m plan reason =
     posting_transaction e
      (bindE (of_option (DoesNotExist ''reservation'') (get_booking d n)) (\<lambda>b.
       if \<not> list_ex (\<lambda>x. mo_id x = m \<and> mo_completed x) (bk_modifications b)
       then Inl (ValidationError ''change_not_confirmed'')
       else if map_of (ls_refund_plans (bk_loyalty b)) m \<noteq> None
       then Inr (d, filter (\<lambda>r. ob_modification r = Some m) (bk_refunds b))
       else bindE (if pl_points plan \<noteq> 0
                   then bindE (restore_points e d n (PyDec (Fin (pl_target plan))) (keyed ''change:'' m))
                          (\<lambda>(d1, x). Inr d1)
                   else Inr d) (\<lambda>d1.
       bindE (of_option (DoesNotExist ''reservation'') (get_booking d1 n)) (\<lambda>b1.
       bindE (payment_balances e b1) (\<lambda>allocations.
       if sum_list (map snd allocations) < pl_cash plan then Inl (ValidationError ''exceeds_receipts'')
       else bindE (plan_loop n reason m plan allocations d1 (pl_cash plan) []) (\<lambda>(d2, rows).
       bindE (of_option (DoesNotExist ''reservation'') (get_booking d2 n)) (\<lambda>b2.
         Inr (save_loyalty d2 b2 (\<lambda>s. s \<lparr> ls_refund_plans := ls_refund_plans s @ [(m, plan)] \<rparr>),
              rows))))))))"

subsection \<open>Facts about the loop over the receipts\<close>

definition with_refunds :: "booking \<Rightarrow> obligation list \<Rightarrow> booking" where
  "with_refunds b rs = b \<lparr> bk_refunds := bk_refunds b @ rs \<rparr>"

lemma with_refunds_simps [simp]: "with_refunds b [] = b" "bk_id (with_refunds b rs) = bk_id b"
  "with_refunds (with_refunds b rs) ts = with_refunds b (rs @ ts)"
  "bk_loyalty (with_refunds b rs) = bk_loyalty b" "bk_refunds (with_refunds b rs) = bk_refunds b @ rs"
  by (simp_all add: with_refunds_def)

lemma get_after_put_booking:
  "get_booking d (bk_id b) = Some b0 \<Longrightarrow>
     get_booking (put_booking d b) k = (if k = bk_id b then Some b else get_booking d k)"
  by (rule booking_table.get_after_put)

lemma record_obligation_positive:
  assumes "record_obligation d n reason c modification = Inr (d', row)" and "0 < cm_amount c"
    and b: "get_booking d n = Some b"
  shows "\<exists>k. row = Some (due_obligation k reason (noted_on b c) modification)
     \<and> d' = put_booking d (with_refunds b [due_obligation k reason (noted_on b c) modification])"
  using assms by (auto simp: record_obligation_def bindE_Inr_iff Let_def with_refunds_def split: if_splits)

text \<open>An obligation that the loop may add: a positive SAR debt, due, drawn on one receipt.\<close>

definition drawn_on :: "(payment \<times> rat) list \<Rightarrow> nat \<Rightarrow> string \<Rightarrow> obligation \<Rightarrow> bool" where
  "drawn_on allocations m reason r =
     (ob_status r = RefundDue \<and> ob_currency r = ''SAR'' \<and> ob_modification r = Some m
      \<and> ob_reason r = reason \<and> 0 < ob_amount r
      \<and> (\<exists>(p, v) \<in> set allocations. ob_payment_attempt r = Some (pa_id p) \<and> ob_amount r \<le> v))"

lemma plan_loop_spec:
  assumes "plan_loop n reason m plan ps d remaining rows = Inr (d2, out)"
    and "get_booking d n = Some b" and "\<forall>x \<in> set ps. 0 \<le> snd x" and "0 \<le> remaining"
  shows "\<exists>new. out = rows @ new \<and> get_booking d2 n = Some (with_refunds b new)
    \<and> (\<forall>k. k \<noteq> n \<longrightarrow> get_booking d2 k = get_booking d k) \<and> db_ledger d2 = db_ledger d
    \<and> sum_list (map ob_amount new) = min remaining (sum_list (map snd ps))
    \<and> list_all (drawn_on ps m reason) new"
  using assms
proof (induction ps arbitrary: d remaining rows b)
  case Nil
  then show ?case by (intro exI [of _ "[]"]) simp
next
  case (Cons x ps)
  obtain p v where x: "x = (p, v)" by (cases x)
  have v: "0 \<le> v" and ps: "\<forall>x \<in> set ps. 0 \<le> snd x" using Cons.prems(3) x by auto
  have sum: "0 \<le> sum_list (map snd ps)" using ps by (intro sum_list_nonneg_map) simp
  have more: "list_all (drawn_on ps m reason) new \<Longrightarrow> list_all (drawn_on (x # ps) m reason) new" for new
    by (auto simp: list_all_iff drawn_on_def)
  show ?case
  proof (cases "min remaining v \<le> 0")
    case True
    then have "plan_loop n reason m plan ps d remaining rows = Inr (d2, out)" using Cons.prems(1) x by simp
    from Cons.IH [OF this Cons.prems(2) ps Cons.prems(4)] obtain new where
      "out = rows @ new \<and> get_booking d2 n = Some (with_refunds b new)
        \<and> (\<forall>k. k \<noteq> n \<longrightarrow> get_booking d2 k = get_booking d k) \<and> db_ledger d2 = db_ledger d
        \<and> sum_list (map ob_amount new) = min remaining (sum_list (map snd ps))
        \<and> list_all (drawn_on ps m reason) new" ..
    moreover have "min remaining (sum_list (map snd ps)) = min remaining (sum_list (map snd (x # ps)))"
      using True Cons.prems(4) v sum x by auto
    ultimately show ?thesis using more by (intro exI [of _ new]) simp
  next
    case False
    define amt where "amt = min remaining v"
    have pos: "0 < amt" using False unfolding amt_def by linarith
    obtain d1 row where r: "record_obligation d n reason (plan_computation plan p amt) (Some m) = Inr (d1, row)"
      and rest: "plan_loop n reason m plan ps d1 (remaining - amt)
         (case row of None \<Rightarrow> rows | Some r \<Rightarrow> rows @ [r]) = Inr (d2, out)"
      using Cons.prems(1) False x by (auto simp: bindE_Inr_iff Let_def amt_def)
    obtain k where row: "row = Some (due_obligation k reason (noted_on b (plan_computation plan p amt)) (Some m))"
      and d1: "d1 = put_booking d (with_refunds b [due_obligation k reason (noted_on b (plan_computation plan p amt)) (Some m)])"
      using record_obligation_positive [OF r _ Cons.prems(2)] pos by (auto simp: plan_computation_def)
    define ob where "ob = due_obligation k reason (noted_on b (plan_computation plan p amt)) (Some m)"
    have id: "bk_id b = n" using Cons.prems(2) by (rule booking_table.get_key)
    have gd: "get_booking d1 j = (if j = n then Some (with_refunds b [ob]) else get_booking d j)" for j
      using get_after_put_booking [of d "with_refunds b [ob]" b j] Cons.prems(2) id by (simp add: d1 ob_def)
    have on: "drawn_on (x # ps) m reason ob" and am: "ob_amount ob = amt"
      using pos by (auto simp: drawn_on_def ob_def due_obligation_def plan_computation_def no_refund_def x amt_def)
    have "\<exists>new. out = (rows @ [ob]) @ new \<and> get_booking d2 n = Some (with_refunds (with_refunds b [ob]) new)
      \<and> (\<forall>k. k \<noteq> n \<longrightarrow> get_booking d2 k = get_booking d1 k) \<and> db_ledger d2 = db_ledger d1
      \<and> sum_list (map ob_amount new) = min (remaining - amt) (sum_list (map snd ps))
      \<and> list_all (drawn_on ps m reason) new"
      by (rule Cons.IH) (use rest row gd ps in \<open>simp_all add: ob_def amt_def\<close>)
    then obtain new where N: "out = (rows @ [ob]) @ new" "get_booking d2 n = Some (with_refunds (with_refunds b [ob]) new)"
      "\<forall>k. k \<noteq> n \<longrightarrow> get_booking d2 k = get_booking d1 k" "db_ledger d2 = db_ledger d1"
      "sum_list (map ob_amount new) = min (remaining - amt) (sum_list (map snd ps))"
      "list_all (drawn_on ps m reason) new" by blast
    have "min (remaining - amt) (sum_list (map snd ps)) + amt = min remaining (sum_list (map snd (x # ps)))"
      using sum v Cons.prems(4) by (auto simp: amt_def x min_def)
    then show ?thesis
      using N gd am on more by (intro exI [of _ "ob # new"]) (simp add: d1 put_booking_def)
  qed
qed

lemma balances_nonneg:
  assumes "payment_balances e b = Inr rows" and "\<forall>r \<in> set (open_refunds b). 0 \<le> ob_amount r"
  shows "\<forall>x \<in> set rows. 0 \<le> snd x"
proof -
  have "0 \<le> unassigned (receipts b) (open_refunds b)"
    unfolding unassigned_def using assms(2) by (intro sum_list_nonneg_map) auto
  then show ?thesis
    using assms(1) balance_loop_spec
    by (fastforce simp: payment_balances_def Let_def bindE_Inr_iff case_prod_beta split: if_splits)
qed

lemma restore_points_booking:
  assumes "restore_points e d n v evidence = Inr (d1, x)" and "get_booking d n = Some b"
  shows "\<exists>s. get_booking d1 n = Some (b \<lparr> bk_loyalty := s \<rparr>) \<and> ls_refund_plans s = ls_refund_plans (bk_loyalty b)"
proof -
  have id: "bk_id b = n" using assms(2) by (rule booking_table.get_key)
  show ?thesis
  proof (cases rule: restore_points_found [OF assms(1), case_names none fresh])
    case none
    then show ?thesis using assms(2) by (intro exI [of _ "bk_loyalty b"]) simp
  next
    case (fresh b0 r m target d0 row)
    obtain en grp where p: "post e d (member_id m) grp 1 (target - re_restored r) 0 False en = Inr (d0, row)"
      using fresh(8) by blast
    have "get_booking d0 n = Some b" using post_appends [OF p] assms(2) by (simp add: get_booking_def)
    then show ?thesis
      using fresh(1,9) assms(2) id get_after_put_booking [of d0 "b \<lparr> bk_loyalty := (bk_loyalty b)
          \<lparr> ls_redemption := Some (r \<lparr> re_restored := target \<rparr>) \<rparr> \<rparr>" b n]
      by (intro exI [of _ "(bk_loyalty b) \<lparr> ls_redemption := Some (r \<lparr> re_restored := target \<rparr>) \<rparr>"])
        (simp add: save_loyalty_def)
  qed
qed

lemma record_refund_plan_fresh:
  assumes run: "record_refund_plan e d n m plan reason = Inr (d', rows)"
    and b: "get_booking d n = Some b" and fresh: "map_of (ls_refund_plans (bk_loyalty b)) m = None"
    and debts: "\<forall>r \<in> set (open_refunds b). 0 \<le> ob_amount r" and cash: "0 \<le> pl_cash plan"
  shows "\<exists>allocations b'. payment_balances e b = Inr allocations
    \<and> sum_list (map ob_amount rows) = pl_cash plan \<and> list_all (drawn_on allocations m reason) rows
    \<and> get_booking d' n = Some b' \<and> bk_refunds b' = bk_refunds b @ rows
    \<and> map_of (ls_refund_plans (bk_loyalty b')) m = Some plan
    \<and> bk_modifications b' = bk_modifications b"
proof -
  have id: "bk_id b = n" using b by (rule booking_table.get_key)
  obtain d1 where d1: "(if pl_points plan \<noteq> 0
        then bindE (restore_points e d n (PyDec (Fin (pl_target plan))) (keyed ''change:'' m)) (\<lambda>(d1, x). Inr d1)
        else Inr d) = Inr d1"
    and r: "bindE (of_option (DoesNotExist ''reservation'') (get_booking d1 n)) (\<lambda>b1.
       bindE (payment_balances e b1) (\<lambda>allocations.
       if sum_list (map snd allocations) < pl_cash plan then Inl (ValidationError ''exceeds_receipts'')
       else bindE (plan_loop n reason m plan allocations d1 (pl_cash plan) []) (\<lambda>(d2, rows).
       bindE (of_option (DoesNotExist ''reservation'') (get_booking d2 n)) (\<lambda>b2.
         Inr (save_loyalty d2 b2 (\<lambda>s. s \<lparr> ls_refund_plans := ls_refund_plans s @ [(m, plan)] \<rparr>),
              rows))))) = Inr (d', rows)"
    using run b fresh unfolding record_refund_plan_def posting_transaction_Inr
    by (simp only: of_option_simps bindE.simps simp_thms split: if_splits) (simp_all add: bindE_Inr_iff, blast)
  have "\<exists>s. get_booking d1 n = Some (b \<lparr> bk_loyalty := s \<rparr>) \<and> ls_refund_plans s = ls_refund_plans (bk_loyalty b)"
  proof (cases "pl_points plan = 0")
    case True
    then show ?thesis using d1 b by (intro exI [of _ "bk_loyalty b"]) simp
  next
    case False
    then obtain x where "restore_points e d n (PyDec (Fin (pl_target plan))) (keyed ''change:'' m) = Inr (d1, x)"
      using d1 by (auto simp: bindE_Inr_iff)
    then show ?thesis by (rule restore_points_booking [OF _ b])
  qed
  then obtain s where b1: "get_booking d1 n = Some (b \<lparr> bk_loyalty := s \<rparr>)"
    and s: "ls_refund_plans s = ls_refund_plans (bk_loyalty b)" by blast
  let ?b1 = "b \<lparr> bk_loyalty := s \<rparr>"
  have same: "payment_balances e ?b1 = payment_balances e b"
    by (simp add: payment_balances_def receipts_def open_refunds_def)
  obtain allocations d2 b2 where al: "payment_balances e b = Inr allocations"
    and le: "\<not> sum_list (map snd allocations) < pl_cash plan"
    and loop: "plan_loop n reason m plan allocations d1 (pl_cash plan) [] = Inr (d2, rows)"
    and b2: "get_booking d2 n = Some b2"
    and d': "d' = save_loyalty d2 b2 (\<lambda>s. s \<lparr> ls_refund_plans := ls_refund_plans s @ [(m, plan)] \<rparr>)"
    using r by (auto simp: b1 same bindE_Inr_iff split: if_splits)
  obtain new where N: "rows = [] @ new" "get_booking d2 n = Some (with_refunds ?b1 new)"
    "sum_list (map ob_amount new) = min (pl_cash plan) (sum_list (map snd allocations))"
    "list_all (drawn_on allocations m reason) new"
    using plan_loop_spec [OF loop b1 balances_nonneg [OF al debts] cash] by blast
  let ?b' = "b2 \<lparr> bk_loyalty := (bk_loyalty b2) \<lparr> ls_refund_plans := ls_refund_plans (bk_loyalty b2) @ [(m, plan)] \<rparr> \<rparr>"
  have b2': "b2 = with_refunds ?b1 new" using N(2) b2 by simp
  have "get_booking d' n = Some ?b'"
    using get_after_put_booking [of d2 ?b' b2 n] b2 id b2' by (simp add: d' save_loyalty_def)
  moreover have "map_of (ls_refund_plans (bk_loyalty ?b')) m = Some plan"
    using fresh s b2' by (simp add: map_of_append map_add_def split: option.splits)
  ultimately show ?thesis
    using al N le b2' by (intro exI [of _ allocations] exI [of _ ?b']) (simp add: with_refunds_def min_def)
qed

subsection \<open>Bounds of the refund\<close>

lemma round_half_up_le: "0 \<le> y \<Longrightarrow> y < of_int k + 1 / 2 \<Longrightarrow> round_half_up y \<le> k"
  by (simp add: round_half_up_def floor_le_iff)

lemma cents4_le:
  assumes "cents4 y = Inr x" and "0 \<le> y" and "y < of_int k / 10 ^ 4 + 1 / 20000"
  shows "0 \<le> x \<and> x \<le> of_int k / 10 ^ 4"
proof -
  have x: "x = of_int (round_half_up (y * 10 ^ 4)) / 10 ^ 4"
    using assms(1) by (simp add: cents4_def quantize_def Let_def split: if_splits)
  have "y * 10 ^ 4 < of_int k + 1 / 2" using assms(3) by simp
  then have "round_half_up (y * 10 ^ 4) \<le> k" using assms(2) by (intro round_half_up_le) simp_all
  moreover have "0 \<le> round_half_up (y * 10 ^ 4)" using assms(2) by (simp add: round_half_up_def)
  ultimately show ?thesis unfolding x by (simp add: divide_right_mono)
qed

lemma share_close:
  assumes "ddiv (dmul base pct) 100 = Inr y" and "0 \<le> base" and "base < 10 ^ 10" and "0 \<le> pct" and "pct \<le> 100"
  shows "0 \<le> y \<and> y < base + 1 / 20000"
proof -
  define q where "q = dmul base pct"
  have y: "y = ctx (q / 100)" using assms(1) by (simp add: ddiv_def q_def)
  have q0: "0 \<le> q" unfolding q_def using assms by (intro dmul_nonneg) auto
  have prod: "base * pct \<le> base * 100" using assms by (intro mult_left_mono)
  have "\<bar>q - base * pct\<bar> \<le> base * pct / (2 * 10 ^ 27)"
    using ctx_error [of "base * pct"] assms by (simp add: q_def dmul_def)
  also have "\<dots> \<le> base * 100 / (2 * 10 ^ 27)" using prod by (rule divide_right_mono) simp
  also have "\<dots> < 1 / 10 ^ 6" using assms(3) by simp
  finally have q: "q < base * 100 + 1 / 10 ^ 6" using prod by linarith
  have e: "\<bar>y - q / 100\<bar> \<le> (q / 100) / (2 * 10 ^ 27)" using ctx_error [of "q / 100"] q0 by (simp add: y)
  have "q / 100 < 10 ^ 11" using q assms(3) by simp
  then have "(q / 100) / (2 * 10 ^ 27) < 1 / 10 ^ 6" by simp
  then have "y < q / 100 + 1 / 10 ^ 6" using e by linarith
  moreover have "0 \<le> y" using dmul_nonneg [of "q / 100" 1] q0 by (simp add: y dmul_def)
  ultimately show ?thesis using q by simp
qed

lemma cleaning_fee_range: "cleaning_fee b base = Inr x \<Longrightarrow> 0 \<le> base \<Longrightarrow> 0 \<le> x \<and> x \<le> base"
  by (auto simp: cleaning_fee_def split: option.splits pyval.splits decimal.splits if_splits)

lemma tier_refund_range:
  assumes "tier_refund b t (of_int k / 10 ^ 4) = Inr c" and "0 \<le> bk_total b" and "0 \<le> k" and "k < 10 ^ 14"
    and "0 \<le> tr_percentage t" and "tr_percentage t \<le> 100"
  shows "0 \<le> cm_amount c \<and> cm_amount c \<le> of_int k / 10 ^ 4 \<and> cm_currency c = bk_currency b"
proof -
  obtain cleaning y x where cl: "(if tr_cleaning t then Inr 0 else cleaning_fee b (bk_total b)) = Inr cleaning"
    and y: "ddiv (dmul (min (bk_total b - cleaning) (of_int k / 10 ^ 4)) (tr_percentage t)) 100 = Inr y"
    and x: "cents4 y = Inr x" and c: "c = (no_refund (bk_currency b) []) \<lparr> cm_amount := max x 0, cm_tier := Some (tr_id t) \<rparr>"
    using assms(1) by (auto simp: tier_refund_def bindE_Inr_iff)
  define base where "base = min (bk_total b - cleaning) (of_int k / 10 ^ 4)"
  have "0 \<le> cleaning \<and> cleaning \<le> bk_total b"
    using cl assms(2) cleaning_fee_range [of b "bk_total b" cleaning] by (auto split: if_splits)
  then have base: "0 \<le> base" "base \<le> of_int k / 10 ^ 4"
    unfolding base_def using assms(3) by (simp, intro min.cobounded2)
  then have "base < 10 ^ 10" using assms(4) by simp
  then have "0 \<le> y \<and> y < base + 1 / 20000"
    using share_close [OF y [folded base_def] base(1)] assms(5,6) by simp
  then have "0 \<le> x \<and> x \<le> of_int k / 10 ^ 4" using base(2) by (intro cents4_le [OF x]) linarith+
  then show ?thesis by (simp add: c no_refund_def)
qed

lemma reached_tier_in: "reached_tier ts policy h = Some t \<Longrightarrow> t \<in> set ts \<and> tr_active t \<and> tr_min_hours t \<le> h"
proof -
  have "foldl (\<lambda>acc t. case acc of None \<Rightarrow> Some t
         | Some u \<Rightarrow> if tr_min_hours u < tr_min_hours t then Some t else Some u) acc us = Some t
      \<Longrightarrow> acc = Some t \<or> t \<in> set us" for acc us
  proof (induction us arbitrary: acc)
    case (Cons u us)
    from Cons.IH [OF Cons.prems [unfolded foldl_Cons]] show ?case
      by (auto split: option.splits if_splits)
  qed simp
  from this [of None] show "reached_tier ts policy h = Some t \<Longrightarrow> ?thesis"
    by (fastforce simp: reached_tier_def)
qed

lemma cancellation_refund_bounds:
  assumes run: "cancellation_refund e s d b property_obj moment = Inr c"
    and plan: "cancellation_plan e d b = Inr None" and total_ok: "0 \<le> bk_total b"
    and tiers: "\<forall>t \<in> set (rs_tiers s). 0 \<le> tr_percentage t \<and> tr_percentage t \<le> 100"
    and column: "\<forall>x. successful_original_payment_amount b = Some x \<longrightarrow>
        (\<exists>k. x = of_int k / 10 ^ 4 \<and> 0 \<le> k \<and> k < 10 ^ 14)"
  shows "0 \<le> cm_amount c \<and> cm_currency c = bk_currency b
    \<and> cm_amount c \<le> (case successful_original_payment_amount b of None \<Rightarrow> 0 | Some x \<Rightarrow> x)"
proof (cases "successful_original_payment_amount b")
  case None
  have zero: "c = no_refund (bk_currency b) r \<Longrightarrow> cm_amount c = 0 \<and> cm_currency c = bk_currency b" for r
    by (simp add: no_refund_def)
  have "\<exists>r. c = no_refund (bk_currency b) r"
    using run None plan by (auto simp: cancellation_refund_def flexible_refund_def bindE_Inr_iff split: if_splits)
  with zero None show ?thesis by auto
next
  case (Some x)
  then obtain k where k: "x = of_int k / 10 ^ 4" "0 \<le> k" "k < 10 ^ 14" using column by blast
  have zero: "c = no_refund (bk_currency b) r \<Longrightarrow> 0 \<le> cm_amount c \<and> cm_currency c = bk_currency b \<and> cm_amount c \<le> x" for r
    using k by (simp add: no_refund_def)
  show ?thesis
  proof (cases "rs_flexible s")
    case True
    then consider r where "c = no_refund (bk_currency b) r"
      | y where "cents4 x = Inr y" "cm_amount c = y" "cm_currency c = bk_currency b"
      using run Some plan
      by (auto simp: cancellation_refund_def flexible_refund_def bindE_Inr_iff no_refund_def split: if_splits)
    then show ?thesis
    proof cases
      case 1
      then show ?thesis using zero Some by simp
    next
      case 2
      have "0 \<le> y \<and> y \<le> of_int k / 10 ^ 4" using k by (intro cents4_le [OF 2(1)]) simp_all
      then show ?thesis using 2 k Some by simp
    qed
  next
    case False
    then consider r where "c = no_refund (bk_currency b) r"
      | t where "t \<in> set (rs_tiers s)" "tier_refund b t x = Inr c"
      using run Some plan
      by (auto simp: cancellation_refund_def Let_def dest: reached_tier_in
          split: list.splits option.splits)
    then show ?thesis
    proof cases
      case 1
      then show ?thesis using zero Some by simp
    next
      case 2
      then show ?thesis using tier_refund_range [of b t k c] tiers total_ok k Some by auto
    qed
  qed
qed

subsection \<open>Properties\<close>

text \<open>C11: a refund plan is turned into debts exactly. Recording a plan for a confirmed change
  writes debts that add up to the plan's cash, each due, in SAR, positive, and drawn on one
  receipt within what is left of it; they are appended to the booking's debts and the plan is
  kept. Recording any plan for the same change again changes nothing and returns the debts of
  the change.\<close>

theorem refund_plan_recorded:
  assumes run: "record_refund_plan e d n m plan reason = Inr (d', rows)"
    and b: "get_booking d n = Some b" and fresh: "map_of (ls_refund_plans (bk_loyalty b)) m = None"
    and debts: "\<forall>r \<in> set (open_refunds b). 0 \<le> ob_amount r" and cash: "0 \<le> pl_cash plan"
    and first: "\<forall>r \<in> set (bk_refunds b). ob_modification r \<noteq> Some m"
  shows "\<exists>allocations b'. payment_balances e b = Inr allocations
    \<and> sum_list (map ob_amount rows) = pl_cash plan \<and> list_all (drawn_on allocations m reason) rows
    \<and> get_booking d' n = Some b' \<and> bk_refunds b' = bk_refunds b @ rows
    \<and> map_of (ls_refund_plans (bk_loyalty b')) m = Some plan
    \<and> (\<forall>plan2 reason2. record_refund_plan e d' n m plan2 reason2 = Inr (d', rows))"
proof -
  obtain allocations b' where F: "payment_balances e b = Inr allocations"
    "sum_list (map ob_amount rows) = pl_cash plan" "list_all (drawn_on allocations m reason) rows"
    "get_booking d' n = Some b'" "bk_refunds b' = bk_refunds b @ rows"
    "map_of (ls_refund_plans (bk_loyalty b')) m = Some plan" "bk_modifications b' = bk_modifications b"
    using record_refund_plan_fresh [OF run b fresh debts cash] by (elim exE conjE)
  have on: "loyalty_enabled e" "\<exists>t. launch_setting e = Some (Aware t)"
    "list_ex (\<lambda>x. mo_id x = m \<and> mo_completed x) (bk_modifications b)"
    using run b by (auto simp: record_refund_plan_def posting_transaction_Inr split: if_splits)
  have mine: "filter (\<lambda>r. ob_modification r = Some m) (bk_refunds b) = []"
    using first by (simp add: filter_empty_conv)
  have all_mine: "filter (\<lambda>r. ob_modification r = Some m) rows = rows"
    using F(3) by (auto simp: list_all_iff drawn_on_def intro: filter_True)
  have "record_refund_plan e d' n m plan2 reason2 = Inr (d', rows)" for plan2 reason2
    using on F mine all_mine by (simp add: record_refund_plan_def posting_transaction_Inr)
  then show ?thesis using F by (intro exI conjI allI) assumption+
qed


definition half_settings :: refund_settings where
  "half_settings = \<lparr> rs_local = (\<lambda>w. w), rs_offset = (\<lambda>t. 0), rs_flexible = False,
     rs_tiers = [\<lparr> tr_id = 1, tr_policy = ''Moderate'', tr_min_hours = 0, tr_percentage = 50,
                   tr_cleaning = True, tr_active = True \<rparr>,
                 \<lparr> tr_id = 2, tr_policy = ''moderate'', tr_min_hours = 48, tr_percentage = 100,
                   tr_cleaning = True, tr_active = True \<rparr>] \<rparr>"

definition moderate_listing :: listing where
  "moderate_listing = \<lparr> lp_zone = '' UTC '', lp_check_in_hour = Some 16, lp_min_nights = None,
     lp_max_nights = Some 30, lp_same_day = Some True, lp_lead_hours = Some 3, lp_policy = ''moderate'' \<rparr>"

definition stopped_env :: env where
  "stopped_env = sample_env \<lparr> loyalty_enabled := False \<rparr>"

lemma half_refund_of:
  assumes o: "successful_original_payment_amount b = Some 1000" and b: "bk_check_in b = 719163" "bk_total b = 1000" and t: "t = 0 \<or> t = 1000"
  shows "cancellation_refund stopped_env half_settings d b (Some moderate_listing) t
     = Inr ((no_refund (bk_currency b) []) \<lparr> cm_amount := 500, cm_tier := Some 1 \<rparr>)"
proof -
  have p: "cancellation_plan stopped_env d b = Inr None" by (simp add: cancellation_plan_def eligible_def stopped_env_def)
  have h: "hours_before (check_in_datetime stopped_env half_settings moderate_listing (bk_check_in b)) t \<in> {15, 16}"
    using b t by (auto simp: hours_before_def check_in_datetime_def listing_clock_def check_in_hour_def moderate_listing_def
        wall_clock_def epoch_ordinal_def day_us_def stopped_env_def sample_env_def strip_def is_space_char_def half_settings_def)
  have s: "strip (lp_policy moderate_listing) = ''moderate''" by code_simp
  have "reached_tier (rs_tiers half_settings) ''moderate'' 15 = Some (hd (rs_tiers half_settings))"
    "reached_tier (rs_tiers half_settings) ''moderate'' 16 = Some (hd (rs_tiers half_settings))"
    by code_simp+
  then have r: "reached_tier (rs_tiers half_settings) ''moderate''
      (hours_before (check_in_datetime stopped_env half_settings moderate_listing (bk_check_in b)) t) = Some (hd (rs_tiers half_settings))"
    using h by auto
  have d: "dmul 1000 50 = 50000" "ddiv 50000 100 = Inr 500" "cents4 500 = Inr 500"
    using ctx_exact [of 50000 50000 0] ctx_exact [of 500 500 0]
    by (simp_all add: dmul_def ddiv_def ten_pow_def cents4_def quantize_def round_half_up_def precision_def)
  have "tier_refund b (hd (rs_tiers half_settings)) 1000 = Inr ((no_refund (bk_currency b) []) \<lparr> cm_amount := 500, cm_tier := Some 1 \<rparr>)"
    using b by (simp add: tier_refund_def half_settings_def d)
  then show ?thesis
    by (simp add: cancellation_refund_def p o s r) (simp add: half_settings_def)
qed

lemma half_refund:
  "\<exists>c. cancellation_refund stopped_env half_settings sample_db waiting_booking (Some moderate_listing) 0 = Inr c
     \<and> cm_amount c = 500 \<and> cm_tier c = Some 1"
proof -
  have o: "successful_original_payment_amount waiting_booking = Some 1000"
    by (simp add: successful_original_payment_amount_def original_balance_def original_payment_def
        latest_payment_def in_flight_def waiting_booking_def paid_booking_def sample_booking_def)
  have "bk_check_in waiting_booking = 719163" "bk_total waiting_booking = 1000"
    by (simp_all add: waiting_booking_def paid_booking_def sample_booking_def)
  then show ?thesis using half_refund_of [OF o] by simp
qed


definition changed_booking :: booking where
  "changed_booking = waiting_booking \<lparr> bk_modifications := [\<lparr> mo_id = 4, mo_type = CancelReservation,
     mo_status = ChCompleted, mo_old_check_in = 719163, mo_old_check_out = 719165, mo_new_check_in = None,
     mo_new_check_out = None, mo_old_guests = 2, mo_new_guests = None, mo_old_total = 1000,
     mo_new_total = None, mo_difference = 0, mo_currency = ''SAR'', mo_payment_sar = None, mo_snapshot = [],
     mo_nights = None, mo_key = ''k'', mo_session = ''guest'', mo_requested_at = 10, mo_expires_at = 900,
     mo_approved_at = Some 11, mo_completed_at = Some 12, mo_operation = None \<rparr>] \<rparr>"

definition changed_db :: db where
  "changed_db = sample_db \<lparr> db_bookings := [changed_booking] \<rparr>"

definition cash_plan :: refund_plan where
  "cash_plan = \<lparr> pl_cash = 300, pl_points = 0, pl_target = 0, pl_source = ''loyalty_proportional_decrease'' \<rparr>"

lemma changed_balances: "payment_balances sample_env changed_booking = Inr [(card_receipt, 1000)]"
  using waiting_balances
  by (simp add: payment_balances_def receipts_def open_refunds_def changed_booking_def)

lemma changed_fields: "get_booking changed_db 70 = Some changed_booking" "bk_refunds changed_booking = []"
  "ls_refund_plans (bk_loyalty changed_booking) = []" "bk_offline changed_booking = None"
  "list_ex (\<lambda>x. mo_id x = 4 \<and> mo_completed x) (bk_modifications changed_booking)" "bk_id changed_booking = 70"
  by (simp_all add: get_booking_def row_get_def changed_db_def changed_booking_def waiting_booking_def
      paid_booking_def sample_booking_def blank_loyalty_def)

lemma changed_plan: "\<exists>d' rows. record_refund_plan sample_env changed_db 70 4 cash_plan ''cancellation'' = Inr (d', rows)"
proof -
  have "record_obligation changed_db 70 ''cancellation'' (plan_computation cash_plan card_receipt 300) (Some 4)
    = Inr (put_booking changed_db (with_refunds changed_booking [due_obligation (next_obligation changed_db)
        ''cancellation'' (noted_on changed_booking (plan_computation cash_plan card_receipt 300)) (Some 4)]),
      Some (due_obligation (next_obligation changed_db) ''cancellation'' (noted_on changed_booking (plan_computation cash_plan card_receipt 300)) (Some 4)))"
    by (simp add: record_obligation_def changed_fields with_refunds_def) (simp add: plan_computation_def Let_def)
  moreover have "get_booking (put_booking changed_db (with_refunds changed_booking rs)) 70 = Some (with_refunds changed_booking rs)" for rs
    using get_after_put_booking [of changed_db "with_refunds changed_booking rs" changed_booking 70] changed_fields by simp
  moreover have "loyalty_enabled sample_env" "launch_at sample_env = Inr 0"
    by (simp_all add: sample_env_def launch_at_def)
  moreover have "pl_cash cash_plan = 300" "pl_points cash_plan = 0" by (simp_all add: cash_plan_def)
  ultimately show ?thesis
    by (simp add: record_refund_plan_def posting_transaction_def changed_fields changed_balances)
qed

theorem refund_plan_recorded_witness:
  "\<exists>d' rows. record_refund_plan sample_env changed_db 70 4 cash_plan ''cancellation'' = Inr (d', rows)
     \<and> sum_list (map ob_amount rows) = 300
     \<and> record_refund_plan sample_env d' 70 4 cash_plan ''again'' = Inr (d', rows)"
proof -
  obtain d' rows where r: "record_refund_plan sample_env changed_db 70 4 cash_plan ''cancellation'' = Inr (d', rows)"
    using changed_plan by blast
  have "\<exists>allocations b'. payment_balances sample_env changed_booking = Inr allocations
    \<and> sum_list (map ob_amount rows) = pl_cash cash_plan \<and> list_all (drawn_on allocations 4 ''cancellation'') rows
    \<and> get_booking d' 70 = Some b' \<and> bk_refunds b' = bk_refunds changed_booking @ rows
    \<and> map_of (ls_refund_plans (bk_loyalty b')) 4 = Some cash_plan
    \<and> (\<forall>plan2 reason2. record_refund_plan sample_env d' 70 4 plan2 reason2 = Inr (d', rows))"
    by (rule refund_plan_recorded [OF r changed_fields(1)])
      (simp_all add: changed_fields open_refunds_def cash_plan_def)
  then show ?thesis using r by (auto simp: cash_plan_def)
qed

end
