(* ===== verification/Calendar.thy ===== *)
theory Calendar
  imports Currency "HOL-Library.Char_ord" "HOL-Library.List_Lexorder"
begin

section \<open>Validating the channel manager's documents\<close>

text \<open>
  \<open>apps/integrations/hostaway/availability_validators.py\<close>: a calendar document and a price
  document become typed days and a typed quote, or an error. The error key names the field;
  the index in the message is left out. JSON objects have unique keys.
\<close>

subsection \<open>The typed documents\<close>

record calendar_day =
  cd_date :: date
  cd_available :: "bool option"
  cd_price :: "rat option"
  cd_min :: "int option"
  cd_max :: "int option"
  cd_closed_arrival :: "bool option"
  cd_closed_departure :: "bool option"
  cd_status :: string
  cd_count :: "int option"
  cd_to_sell :: "int option"
  cd_reserved :: "int option"
  cd_pending :: "int option"
  cd_blocked :: "int option"
  cd_blocking :: "int option"
  cd_desired :: "int option"
  cd_processed :: "bool option"
  cd_resources :: bool

record calendar_document =
  cal_days :: "calendar_day list"
  cal_fields :: "string list"
  cal_types :: "(string \<times> string) list"
  cal_resources :: bool

record price_component =
  pc_setting :: "int option"
  pc_type :: string
  pc_name :: string
  pc_title :: string
  pc_alias :: string
  pc_quantity :: "int option"
  pc_value :: rat
  pc_total :: "rat option"
  pc_included :: "bool option"
  pc_overridden :: "bool option"
  pc_mandatory :: "bool option"
  pc_deleted :: "bool option"

record price_quote =
  pq_listing :: int
  pq_check_in :: date
  pq_check_out :: date
  pq_nights :: int
  pq_guests :: int
  pq_currency :: string
  pq_total :: rat
  pq_components :: "price_component list"
  pq_calculated_at :: instant
  pq_fields :: "string list"
  pq_types :: "(string \<times> string) list"
  pq_component_types :: "(string \<times> string) list"

subsection \<open>Reading single values\<close>

definition optional_bool :: "pyval \<Rightarrow> string \<Rightarrow> bool option res" where
  "optional_bool v field =
     (if blank v then Inr None
      else if equals_int v 1 \<or> v = PyStr ''1'' then Inr (Some True)
      else if equals_int v 0 \<or> v = PyStr ''0'' then Inr (Some False)
      else Inl (HostawayResponse field))"

definition required :: "string \<Rightarrow> 'a option res \<Rightarrow> 'a res" where
  "required field r = bindE r (of_option (HostawayResponse field))"

definition integer_value :: "pyval \<Rightarrow> string \<Rightarrow> int res" where
  "integer_value v field =
     (case v of PyBool b \<Rightarrow> Inl (HostawayResponse field)
      | _ \<Rightarrow> (case decimal_of_str v of
          Some (Fin q) \<Rightarrow> if of_int \<lfloor>q\<rfloor> = q then Inr \<lfloor>q\<rfloor> else Inl (HostawayResponse field)
        | _ \<Rightarrow> Inl (HostawayResponse field)))"

definition optional_nonnegative_int :: "pyval \<Rightarrow> string \<Rightarrow> int option res" where
  "optional_nonnegative_int v field =
     (if blank v then Inr None
      else bindE (integer_value v field) (\<lambda>n.
        if n < 0 then Inl (HostawayResponse field) else Inr (Some n)))"

definition optional_positive_int :: "pyval \<Rightarrow> string \<Rightarrow> int option res" where
  "optional_positive_int v field =
     (if blank v then Inr None
      else bindE (integer_value v field) (\<lambda>n.
        if n \<le> 0 then Inl (HostawayResponse field) else Inr (Some n)))"

definition optional_decimal :: "pyval \<Rightarrow> string \<Rightarrow> rat option res" where
  "optional_decimal v field =
     (if blank v then Inr None
      else case v of PyBool b \<Rightarrow> Inl (HostawayResponse field)
      | _ \<Rightarrow> (case decimal_of_str v of
          Some (Fin q) \<Rightarrow> Inr (Some q)
        | _ \<Rightarrow> Inl (HostawayResponse field)))"

definition optional_string :: "pyval \<Rightarrow> string" where
  "optional_string v = (case str_of v of None \<Rightarrow> [] | Some s \<Rightarrow> strip s)"

definition required_string :: "pyval \<Rightarrow> string \<Rightarrow> string res" where
  "required_string v field =
     (if optional_string v = [] then Inl (HostawayResponse field) else Inr (optional_string v))"

definition date_field :: "pyval \<Rightarrow> string \<Rightarrow> date res" where
  "date_field v field = of_option (HostawayResponse field) (Option.bind (str_of v) date_fromisoformat)"

definition is_letter :: "char \<Rightarrow> bool" where
  "is_letter c = (let n = (of_char c :: nat) in (65 \<le> n \<and> n \<le> 90) \<or> (97 \<le> n \<and> n \<le> 122))"

definition currency_field :: "pyval \<Rightarrow> string res" where
  "currency_field v =
     (let parsed = map upper_char (optional_string v) in
      if parsed = [] then Inr []
      else if length parsed \<noteq> 3 \<or> \<not> list_all is_letter parsed
      then Inl (HostawayResponse ''currency'') else Inr parsed)"

definition supported_currency :: "fx_config \<Rightarrow> pyval \<Rightarrow> string res" where
  "supported_currency cfg v =
     bindE (currency_field v) (\<lambda>c.
       if c \<noteq> [] \<and> c \<notin> set (supported_currencies cfg)
       then Inl (HostawayResponse ''unsupported'') else Inr c)"

text \<open>
  \<open>str(int(value)) == str(value).strip()\<close> holds for whole numbers and for their usual texts;
  the text of a float always has a point, an exponent or letters.
\<close>

definition listing_number :: "pyval \<Rightarrow> int res" where
  "listing_number v =
     (case v of
        PyInt n \<Rightarrow> if n \<le> 0 then Inl (HostawayResponse ''listing_id'') else Inr n
      | PyStr s \<Rightarrow>
          (case int_of_string s of
             None \<Rightarrow> Inl (HostawayResponse ''listing_id'')
           | Some n \<Rightarrow>
               if n \<le> 0 \<or> pad_digits (ndigits (nat n)) n \<noteq> strip s
               then Inl (HostawayResponse ''listing_id'') else Inr n)
      | PyFloat (Infinity b) \<Rightarrow> Inl (OverflowError ''infinity'')
      | _ \<Rightarrow> Inl (HostawayResponse ''listing_id''))"

subsection \<open>The observed types\<close>

fun type_name :: "pyval \<Rightarrow> string" where
  "type_name PyNone = ''null''"
| "type_name (PyBool b) = ''boolean''"
| "type_name (PyDict d) = ''object''"
| "type_name (PyList l) = ''array''"
| "type_name (PyStr s) = ''string''"
| "type_name (PyDecText q) = ''string''"
| "type_name (PyTimeText t) = ''string''"
| "type_name (PyInt n) = ''integer''"
| "type_name (PyFloat x) = ''number''"
| "type_name (PyDec x) = ''Decimal''"

definition record_types :: "(string \<times> pyval) list \<Rightarrow> (string \<times> string) list" where
  "record_types kvs = map (\<lambda>(k, v). (k, type_name v)) kvs"

fun join :: "string \<Rightarrow> string list \<Rightarrow> string" where
  "join sep [] = []"
| "join sep [s] = s"
| "join sep (s # t # ss) = s @ sep @ join sep (t # ss)"

definition flatten_types :: "(string \<times> string) list \<Rightarrow> (string \<times> string) list" where
  "flatten_types seen =
     map (\<lambda>k. (k, join ''|'' (sort (remdups (map snd (filter (\<lambda>p. fst p = k) seen))))))
       (sort (remdups (map fst seen)))"

text \<open>\<open>_first_present\<close>: the first of the keys that is there, even with the value None.\<close>

fun first_present :: "(string \<times> pyval) list \<Rightarrow> string list \<Rightarrow> pyval" where
  "first_present kvs [] = PyNone"
| "first_present kvs (k # ks) = (case map_of kvs k of Some v \<Rightarrow> v | None \<Rightarrow> first_present kvs ks)"

subsection \<open>The calendar\<close>

definition calendar_day_of :: "(string \<times> pyval) list \<Rightarrow> date \<Rightarrow> calendar_day res" where
  "calendar_day_of item day =
     bindE (optional_bool (dget item ''isAvailable'') ''isAvailable'') (\<lambda>available.
     bindE (optional_decimal (dget item ''price'') ''price'') (\<lambda>price.
     bindE (optional_positive_int (dget item ''minimumStay'') ''minimumStay'') (\<lambda>shortest.
     bindE (optional_positive_int (dget item ''maximumStay'') ''maximumStay'') (\<lambda>longest.
     bindE (optional_bool (dget item ''closedOnArrival'') ''closedOnArrival'') (\<lambda>closed_in.
     bindE (optional_bool (dget item ''closedOnDeparture'') ''closedOnDeparture'') (\<lambda>closed_out.
     bindE (optional_nonnegative_int (dget item ''countAvailableUnits'') ''countAvailableUnits'') (\<lambda>counted.
     bindE (optional_nonnegative_int (first_present item [''availableUnitsToSell'', ''availableUnits''])
              ''availableUnitsToSell'') (\<lambda>to_sell.
     bindE (optional_nonnegative_int (dget item ''countReservedUnits'') ''countReservedUnits'') (\<lambda>reserved.
     bindE (optional_nonnegative_int (dget item ''countPendingUnits'') ''countPendingUnits'') (\<lambda>pending.
     bindE (optional_nonnegative_int (dget item ''countBlockedUnits'') ''countBlockedUnits'') (\<lambda>blocked.
     bindE (optional_nonnegative_int (dget item ''countBlockingReservations'')
              ''countBlockingReservations'') (\<lambda>blocking.
     bindE (optional_nonnegative_int (dget item ''desiredUnitsToSell'') ''desiredUnitsToSell'') (\<lambda>desired.
     bindE (optional_bool (dget item ''isProcessed'') ''isProcessed'') (\<lambda>processed.
       Inr \<lparr> cd_date = day, cd_available = available, cd_price = price, cd_min = shortest, cd_max = longest,
         cd_closed_arrival = closed_in, cd_closed_departure = closed_out,
         cd_status = optional_string (dget item ''status''), cd_count = counted, cd_to_sell = to_sell,
         cd_reserved = reserved, cd_pending = pending, cd_blocked = blocked, cd_blocking = blocking,
         cd_desired = desired, cd_processed = processed,
         cd_resources = (map_of item ''reservations'' \<noteq> None) \<rparr>))))))))))))))"

text \<open>The loop over the days: the days so far and the types observed so far.\<close>

fun calendar_loop ::
    "pyval list \<Rightarrow> calendar_day list \<Rightarrow> (string \<times> string) list
     \<Rightarrow> (calendar_day list \<times> (string \<times> string) list) res" where
  "calendar_loop [] days types = Inr (days, types)"
| "calendar_loop (v # vs) days types =
     bindE (of_option (HostawayResponse ''day'') (dict_items v)) (\<lambda>item.
     bindE (date_field (dget item ''date'') ''date'') (\<lambda>day.
     if day \<in> cd_date ` set days then Inl (HostawayResponse ''duplicate_dates'')
     else bindE (calendar_day_of item day) (\<lambda>parsed.
       calendar_loop vs (days @ [parsed])
         (types @ record_types (filter (\<lambda>kv. fst kv \<notin> {''note'', ''reservations''}) item)))))"

definition succeeded :: "pyval \<Rightarrow> bool" where
  "succeeded status = (status = PyNone \<or> status = PyStr ''success'')"

definition validate_calendar_response :: "pyval \<Rightarrow> calendar_document res" where
  "validate_calendar_response payload =
     (case payload of
        PyDict p \<Rightarrow>
          if \<not> succeeded (dget p ''status'') then Inl (HostawayResponse ''calendar_failure'')
          else (case dget p ''result'' of
              PyList items \<Rightarrow>
                bindE (calendar_loop items [] []) (\<lambda>(days, types).
                  Inr \<lparr> cal_days = days, cal_fields = map fst p, cal_types = flatten_types types,
                        cal_resources = list_ex cd_resources days \<rparr>)
            | _ \<Rightarrow> Inl (HostawayResponse ''calendar_result''))
      | _ \<Rightarrow> Inl (HostawayResponse ''calendar_failure''))"

subsection \<open>The price\<close>

definition price_component_of :: "(string \<times> pyval) list \<Rightarrow> price_component res" where
  "price_component_of item =
     bindE (optional_nonnegative_int (dget item ''listingFeeSettingId'') ''listingFeeSettingId'') (\<lambda>setting.
     bindE (required_string (dget item ''type'') ''type'') (\<lambda>kind.
     bindE (required_string (dget item ''name'') ''name'') (\<lambda>name.
     bindE (optional_nonnegative_int (dget item ''quantity'') ''quantity'') (\<lambda>quantity.
     bindE (required ''value'' (optional_decimal (dget item ''value'') ''value'')) (\<lambda>v.
     bindE (required ''total'' (optional_decimal (dget item ''total'') ''total'')) (\<lambda>whole.
     bindE (required ''isIncludedInTotalPrice''
              (optional_bool (dget item ''isIncludedInTotalPrice'') ''isIncludedInTotalPrice'')) (\<lambda>included.
     bindE (optional_bool (dget item ''isOverriddenByUser'') ''isOverriddenByUser'') (\<lambda>overridden.
     bindE (optional_bool (dget item ''isMandatory'') ''isMandatory'') (\<lambda>mandatory.
     bindE (required ''isDeleted'' (optional_bool (dget item ''isDeleted'') ''isDeleted'')) (\<lambda>deleted.
       Inr \<lparr> pc_setting = setting, pc_type = kind, pc_name = name,
         pc_title = optional_string (dget item ''title''), pc_alias = optional_string (dget item ''alias''),
         pc_quantity = quantity, pc_value = v, pc_total = Some whole, pc_included = Some included,
         pc_overridden = overridden, pc_mandatory = mandatory, pc_deleted = Some deleted \<rparr>))))))))))"

fun component_loop ::
    "pyval list \<Rightarrow> price_component list \<Rightarrow> (string \<times> string) list
     \<Rightarrow> (price_component list \<times> (string \<times> string) list) res" where
  "component_loop [] parts types = Inr (parts, types)"
| "component_loop (v # vs) parts types =
     bindE (of_option (HostawayResponse ''component'') (dict_items v)) (\<lambda>item.
     bindE (price_component_of item) (\<lambda>part.
       component_loop vs (parts @ [part]) (types @ record_types item)))"

text \<open>\<open>listing_response.get("result")\<close> when both are objects, else the response itself.\<close>

definition listing_record :: "pyval \<Rightarrow> (string \<times> pyval) list res" where
  "listing_record response =
     (case Option.bind (dict_items response) (\<lambda>d. dict_items (dget d ''result'')) of
        Some r \<Rightarrow> Inr r
      | None \<Rightarrow> of_option (HostawayResponse ''listing_response'') (dict_items response))"

definition listing_currency_of :: "fx_config \<Rightarrow> int \<Rightarrow> pyval \<Rightarrow> string res" where
  "listing_currency_of cfg listing_id response =
     (if response = PyNone then Inr []
      else bindE (listing_record response) (\<lambda>r.
           bindE (listing_number (dget r ''id'')) (\<lambda>n.
             if n \<noteq> listing_id then Inl (HostawayResponse ''other_listing'')
             else supported_currency cfg (dget r ''currencyCode''))))"

definition resolve_currency ::
    "fx_config \<Rightarrow> int \<Rightarrow> pyval \<Rightarrow> pyval \<Rightarrow> string \<Rightarrow> string res" where
  "resolve_currency cfg listing_id payload response currency_override =
     (if listing_id \<le> 0 then Inl (HostawayResponse ''listing_id'')
      else bindE (of_option (HostawayResponse ''price_response'') (dict_items payload)) (\<lambda>p.
           bindE (of_option (HostawayResponse ''price_result'') (dict_items (dget p ''result''))) (\<lambda>r.
           bindE (supported_currency cfg (let c = dget r ''currency'' in
                    if truthy c then c else dget r ''currencyCode'')) (\<lambda>price_currency.
           bindE (supported_currency cfg (PyStr currency_override)) (\<lambda>override.
           bindE (listing_currency_of cfg listing_id response) (\<lambda>listing_currency.
             if price_currency \<noteq> [] \<and> listing_currency \<noteq> [] \<and> price_currency \<noteq> listing_currency
             then Inl (HostawayResponse ''currency_conflict'')
             else if override \<noteq> [] then Inr override
             else if price_currency \<noteq> [] then Inr price_currency
             else if listing_currency = [] then Inl (HostawayResponse ''no_currency'')
             else Inr listing_currency))))))"

definition validate_price_response ::
    "fx_config \<Rightarrow> instant \<Rightarrow> pyval \<Rightarrow> int \<Rightarrow> date \<Rightarrow> date \<Rightarrow> int \<Rightarrow> pyval \<Rightarrow> string \<Rightarrow> price_quote res" where
  "validate_price_response cfg clock payload listing_id check_in check_out guests response currency_override =
     bindE (of_option (HostawayResponse ''price_response'') (dict_items payload)) (\<lambda>p.
     if \<not> succeeded (dget p ''status'') then Inl (HostawayAvailability ''stay_restrictions'')
     else bindE (of_option (HostawayResponse ''price_result'') (dict_items (dget p ''result''))) (\<lambda>r.
     bindE (required ''totalPrice'' (optional_decimal (dget r ''totalPrice'') ''totalPrice'')) (\<lambda>whole.
     if whole < 0 then Inl (HostawayResponse ''totalPrice'')
     else (case dget r ''components'' of
         PyList items \<Rightarrow>
           bindE (component_loop items [] []) (\<lambda>(parts, types).
           bindE (resolve_currency cfg listing_id payload response currency_override) (\<lambda>currency.
             Inr \<lparr> pq_listing = listing_id, pq_check_in = check_in, pq_check_out = check_out,
               pq_nights = check_out - check_in, pq_guests = guests, pq_currency = currency,
               pq_total = whole, pq_components = parts, pq_calculated_at = clock,
               pq_fields = map fst p, pq_types = flatten_types (record_types r),
               pq_component_types = flatten_types types \<rparr>))
       | _ \<Rightarrow> Inl (HostawayResponse ''components'')))))"

subsection \<open>Facts about validated documents\<close>

definition at_least :: "int \<Rightarrow> int option \<Rightarrow> bool" where
  "at_least k x = (case x of None \<Rightarrow> True | Some n \<Rightarrow> k \<le> n)"

definition well_typed_day :: "calendar_day \<Rightarrow> bool" where
  "well_typed_day c = (at_least 1 (cd_min c) \<and> at_least 1 (cd_max c) \<and> at_least 0 (cd_count c)
     \<and> at_least 0 (cd_to_sell c) \<and> at_least 0 (cd_reserved c) \<and> at_least 0 (cd_pending c)
     \<and> at_least 0 (cd_blocked c) \<and> at_least 0 (cd_blocking c) \<and> at_least 0 (cd_desired c))"

lemma optional_nonnegative_int_ge: "optional_nonnegative_int v f = Inr x \<Longrightarrow> at_least 0 x"
  by (auto simp: optional_nonnegative_int_def at_least_def bindE_Inr_iff split: if_splits)

lemma optional_positive_int_ge: "optional_positive_int v f = Inr x \<Longrightarrow> at_least 1 x"
  by (auto simp: optional_positive_int_def at_least_def bindE_Inr_iff split: if_splits)

lemma calendar_day_of_typed: "calendar_day_of item x = Inr c \<Longrightarrow> well_typed_day c \<and> cd_date c = x"
  unfolding calendar_day_of_def well_typed_day_def bindE_Inr_iff
  by (elim exE conjE) (auto dest: optional_nonnegative_int_ge optional_positive_int_ge)

text \<open>The date an item of the calendar names.\<close>

definition item_date :: "pyval \<Rightarrow> date option" where
  "item_date v = Option.bind (dict_items v) (\<lambda>item. Option.bind (str_of (dget item ''date'')) date_fromisoformat)"

lemma calendar_loop_typed:
  assumes "calendar_loop vs days types = Inr (out, seen)" and "distinct (map cd_date days)"
    and "list_all well_typed_day days"
  shows "distinct (map cd_date out) \<and> list_all well_typed_day out
    \<and> map Some (map cd_date out) = map Some (map cd_date days) @ map item_date vs"
  using assms
proof (induction vs arbitrary: days types)
  case Nil
  then show ?case by simp
next
  case (Cons v vs)
  obtain item x c where v: "dict_items v = Some item" and x: "date_field (dget item ''date'') ''date'' = Inr x"
    and new: "x \<notin> cd_date ` set days" and c: "calendar_day_of item x = Inr c"
    and rest: "calendar_loop vs (days @ [c])
      (types @ record_types (filter (\<lambda>kv. fst kv \<notin> {''note'', ''reservations''}) item)) = Inr (out, seen)"
    using Cons.prems(1) by (auto simp: bindE_Inr_iff split: if_splits)
  note T = calendar_day_of_typed [OF c]
  have i: "item_date v = Some x" using v x by (simp add: item_date_def date_field_def)
  have "distinct (map cd_date out) \<and> list_all well_typed_day out
    \<and> map Some (map cd_date out) = map Some (map cd_date (days @ [c])) @ map item_date vs"
    by (rule Cons.IH [OF rest]) (use Cons.prems new T in auto)
  then show ?case using T i by simp
qed

subsection \<open>Properties\<close>

text \<open>C40: an accepted calendar is well typed. Every item of the channel manager's document became
  one day of the same date, in the same order; no date occurs twice; stay limits are at least one
  and unit counts are never negative.\<close>

theorem calendar_well_typed:
  assumes "validate_calendar_response payload = Inr doc"
  shows "distinct (map cd_date (cal_days doc)) \<and> list_all well_typed_day (cal_days doc)
    \<and> (\<exists>p items. payload = PyDict p \<and> dget p ''result'' = PyList items
         \<and> map Some (map cd_date (cal_days doc)) = map item_date items)"
proof -
  obtain p items seen where p: "payload = PyDict p" "dget p ''result'' = PyList items"
    and l: "calendar_loop items [] [] = Inr (cal_days doc, seen)"
    using assms
    by (auto simp: validate_calendar_response_def bindE_Inr_iff split: pyval.splits if_splits)
  show ?thesis using calendar_loop_typed [OF l] p by auto
qed

definition sample_day :: "(string \<times> pyval) list" where
  "sample_day = [(''date'', PyStr ''2026-11-02''), (''isAvailable'', PyInt 1), (''price'', PyFloat (Fin 450)),
     (''minimumStay'', PyInt 2), (''availableUnits'', PyStr ''3''), (''note'', PyStr ''x'')]"

lemma sample_calendar:
  "case validate_calendar_response (PyDict [(''status'', PyStr ''success''), (''result'', PyList [PyDict sample_day])]) of
     Inl x \<Rightarrow> False
   | Inr doc \<Rightarrow> map cd_to_sell (cal_days doc) = [Some 3] \<and> map cd_min (cal_days doc) = [Some 2]"
  by code_simp

theorem calendar_well_typed_witness:
  "\<exists>doc. validate_calendar_response (PyDict [(''status'', PyStr ''success''), (''result'', PyList [PyDict sample_day])]) = Inr doc
     \<and> list_all well_typed_day (cal_days doc)"
proof (cases "validate_calendar_response (PyDict [(''status'', PyStr ''success''), (''result'', PyList [PyDict sample_day])])")
  case (Inl x)
  then show ?thesis using sample_calendar by simp
next
  case (Inr doc)
  then show ?thesis using calendar_well_typed [OF Inr] by blast
qed

end
