(* ===== verification/Availability.thy ===== *)
theory Availability
  imports Calendar
begin

section \<open>Availability (apps/reservations/services/availability.py)\<close>

text \<open>
  The inventory of a day, the restrictions of a stay on a calendar, the request checks, and the
  service: one calendar, one price, both through a cache. The client of the channel manager is
  a pair of functions that answer or raise; the conflict with morning stays
  (\<open>morning_stays.overnight_conflicts\<close>, a query on other tables) is a function of the dates.
  Durations are not modelled; an expired cache entry is an absent one.
\<close>

subsection \<open>The inventory of a day\<close>

record inventory =
  iv_available :: bool
  iv_strategy :: string
  iv_multi :: bool
  iv_conflict :: bool

definition positive :: "int option \<Rightarrow> bool option" where
  "positive x = map_option (\<lambda>n. 0 < n) x"

text \<open>The signals by name, in the order of the code.\<close>

definition availability_signals :: "calendar_day \<Rightarrow> (string \<times> bool) list" where
  "availability_signals c = concat (map (\<lambda>(k, v). case v of None \<Rightarrow> [] | Some x \<Rightarrow> [(k, x)])
     [(''available_units_to_sell'', positive (cd_to_sell c)),
      (''count_available_units'', positive (cd_count c)),
      (''desired_units_to_sell'', positive (cd_desired c)),
      (''is_available'', cd_available c)])"

definition is_multi_unit :: "calendar_day \<Rightarrow> bool" where
  "is_multi_unit c = list_ex (\<lambda>v. v \<noteq> None)
     [cd_count c, cd_to_sell c, cd_desired c, cd_reserved c, cd_blocked c]"

definition resolve_day_inventory :: "calendar_day \<Rightarrow> inventory" where
  "resolve_day_inventory c =
     (let signals = availability_signals c; multi = is_multi_unit c in
      if 1 < length (remdups (map snd signals))
      then \<lparr> iv_available = False, iv_strategy = ''inventory_conflict'', iv_multi = multi, iv_conflict = True \<rparr>
      else if multi then
        (case find (\<lambda>k. map_of signals k \<noteq> None)
                [''available_units_to_sell'', ''count_available_units'', ''desired_units_to_sell''] of
           Some k \<Rightarrow> \<lparr> iv_available = (map_of signals k = Some True), iv_strategy = k, iv_multi = True,
                       iv_conflict = False \<rparr>
         | None \<Rightarrow> \<lparr> iv_available = False, iv_strategy = ''inventory_unconfirmed'', iv_multi = True,
                     iv_conflict = False \<rparr>)
      else \<lparr> iv_available = (cd_available c = Some True), iv_strategy = ''is_available'', iv_multi = False,
             iv_conflict = False \<rparr>)"

definition classify_inventory :: "calendar_day list \<Rightarrow> string" where
  "classify_inventory days =
     (if list_ex (\<lambda>c. iv_multi (resolve_day_inventory c)) days then ''multi_unit''
      else if list_ex (\<lambda>c. cd_available c \<noteq> None) days then ''single_unit''
      else ''undetermined'')"

subsection \<open>The restrictions of a stay\<close>

text \<open>\<open>{day.date: day for day in days}\<close>: a later day of the same date replaces an earlier one.\<close>

definition by_date :: "calendar_day list \<Rightarrow> date \<Rightarrow> calendar_day option" where
  "by_date days x = find (\<lambda>c. cd_date c = x) (rev days)"

definition stay_range :: "date \<Rightarrow> date \<Rightarrow> date list" where
  "stay_range check_in check_out = map (\<lambda>n. check_in + int n) [0..<nat (check_out - check_in)]"

definition below_limit :: "int option \<Rightarrow> int \<Rightarrow> bool" where
  "below_limit limit n = (case limit of None \<Rightarrow> False | Some k \<Rightarrow> n < k)"

definition above_limit :: "int option \<Rightarrow> int \<Rightarrow> bool" where
  "above_limit limit n = (case limit of None \<Rightarrow> False | Some k \<Rightarrow> k < n)"

definition evaluate_calendar ::
    "calendar_day list \<Rightarrow> date \<Rightarrow> date \<Rightarrow> date option \<Rightarrow> string" where
  "evaluate_calendar days check_in check_out existing =
     (let nights = check_out - check_in;
          stay_nights = check_out - (case existing of None \<Rightarrow> check_in | Some x \<Rightarrow> x)
      in if nights < 1 \<or> 366 < stay_nights \<or> (case existing of None \<Rightarrow> False | Some x \<Rightarrow> check_in \<le> x)
         then ''invalid_dates''
         else if list_ex (\<lambda>x. by_date days x = None) (stay_range check_in check_out @ [check_out])
         then ''calendar_incomplete''
         else case (by_date days check_in, by_date days check_out) of
           (Some arrival_day, Some departure_day) \<Rightarrow>
             if existing = None \<and> cd_closed_arrival arrival_day = Some True then ''closed_on_arrival''
             else if cd_closed_departure departure_day = Some True then ''closed_on_departure''
             else if below_limit (cd_min arrival_day) stay_nights then ''minimum_stay_not_met''
             else if above_limit (cd_max arrival_day) stay_nights then ''maximum_stay_exceeded''
             else
               let decisions = map resolve_day_inventory
                     (List.map_filter (by_date days) (stay_range check_in check_out)) in
               if list_ex iv_conflict decisions then ''inventory_conflict''
               else if list_ex (\<lambda>v. \<not> iv_available v) decisions then ''unavailable_dates''
               else ''available''
         | _ \<Rightarrow> ''calendar_incomplete'')"

subsection \<open>Requests and results\<close>

record rental =
  rn_listing :: int
  rn_visible :: bool
  rn_active :: bool
  rn_capacity :: "int option"
  rn_override :: string

text \<open>A date that is no date, and guests that are no number, are refused like the code does.\<close>

record stay_request =
  sr_rental :: rental
  sr_check_in :: "date option"
  sr_check_out :: "date option"
  sr_guests :: pyval

record availability_result =
  av_available :: bool
  av_reason :: string
  av_nights :: int
  av_quote :: "price_quote option"
  av_calendar :: "calendar_document option"
  av_calendar_hit :: bool
  av_price_hit :: bool

definition refused :: "string \<Rightarrow> int \<Rightarrow> (calendar_document \<times> bool) option \<Rightarrow> availability_result" where
  "refused reason nights calendar =
     \<lparr> av_available = (reason = ''available''), av_reason = reason, av_nights = nights, av_quote = None,
       av_calendar = map_option fst calendar,
       av_calendar_hit = (case calendar of None \<Rightarrow> False | Some c \<Rightarrow> snd c), av_price_hit = False \<rparr>"

definition validate_request ::
    "date \<Rightarrow> (date \<Rightarrow> date \<Rightarrow> bool) \<Rightarrow> stay_request \<Rightarrow> availability_result option" where
  "validate_request today overnight r =
     (let nights = (case (sr_check_in r, sr_check_out r) of (Some i, Some j) \<Rightarrow> j - i | _ \<Rightarrow> 0) in
      if \<not> rn_visible (sr_rental r) \<or> \<not> rn_active (sr_rental r)
      then Some (refused ''property_unavailable'' (max 0 nights) None)
      else case (sr_check_in r, sr_check_out r) of
        (Some i, Some j) \<Rightarrow>
          if i < today then Some (refused ''past_check_in'' (max 0 nights) None)
          else if nights < 1 \<or> 366 < nights then Some (refused ''invalid_dates'' (max 0 nights) None)
          else (case sr_guests r of
              PyInt g \<Rightarrow>
                if g < 1 \<or> above_limit (rn_capacity (sr_rental r)) g
                then Some (refused ''capacity_exceeded'' nights None)
                else if overnight i j then Some (refused ''inventory_conflict'' nights None)
                else None
            | _ \<Rightarrow> Some (refused ''capacity_exceeded'' nights None))
      | _ \<Rightarrow> Some (refused ''invalid_dates'' 0 None))"

subsection \<open>The service\<close>

record service_cache =
  sc_calendar :: "((int \<times> date \<times> date) \<times> calendar_document) list"
  sc_price :: "((int \<times> date \<times> date \<times> int \<times> string) \<times> price_quote) list"

text \<open>The channel manager: a calendar of a listing, and a price (uncached currency or not).\<close>

record channel =
  ch_calendar :: "int \<Rightarrow> date \<Rightarrow> date \<Rightarrow> calendar_document res"
  ch_price :: "int \<Rightarrow> date \<Rightarrow> date \<Rightarrow> int \<Rightarrow> bool \<Rightarrow> string \<Rightarrow> price_quote res"

definition fetch_calendar ::
    "channel \<Rightarrow> service_cache \<Rightarrow> rental \<Rightarrow> date \<Rightarrow> date \<Rightarrow> bool
     \<Rightarrow> service_cache \<times> (calendar_document \<times> bool) res" where
  "fetch_calendar ch cache p start_date end_date bypass =
     (let key = (rn_listing p, start_date, end_date) in
      case (if bypass then None else map_of (sc_calendar cache) key) of
        Some c \<Rightarrow> (cache, Inr (c, True))
      | None \<Rightarrow> (case ch_calendar ch (rn_listing p) start_date end_date of
            Inl x \<Rightarrow> (cache, Inl x)
          | Inr c \<Rightarrow> (cache \<lparr> sc_calendar := (key, c) # sc_calendar cache \<rparr>, Inr (c, False))))"

definition fetch_price ::
    "channel \<Rightarrow> service_cache \<Rightarrow> rental \<Rightarrow> date \<Rightarrow> date \<Rightarrow> int \<Rightarrow> bool
     \<Rightarrow> service_cache \<times> (price_quote \<times> bool) res" where
  "fetch_price ch cache p check_in check_out guests bypass =
     (let key = (rn_listing p, check_in, check_out, guests, map upper_char (rn_override p)) in
      case (if bypass then None else map_of (sc_price cache) key) of
        Some q \<Rightarrow> (cache, Inr (q, True))
      | None \<Rightarrow> (case ch_price ch (rn_listing p) check_in check_out guests bypass (rn_override p) of
            Inl x \<Rightarrow> (cache, Inl x)
          | Inr q \<Rightarrow> (cache \<lparr> sc_price := (key, q) # sc_price cache \<rparr>, Inr (q, False))))"

text \<open>\<open>HostawayError\<close> and its subclasses.\<close>

fun is_hostaway_error :: "exc \<Rightarrow> bool" where
  "is_hostaway_error (HostawayResponse s) = True"
| "is_hostaway_error (HostawayAvailability s) = True"
| "is_hostaway_error (HostawayConfiguration s) = True"
| "is_hostaway_error (HostawayNetwork s) = True"
| "is_hostaway_error (HostawayAuthentication s) = True"
| "is_hostaway_error (HostawayNotFound s) = True"
| "is_hostaway_error (HostawayRateLimit s) = True"
| "is_hostaway_error (HostawayServer s) = True"
| "is_hostaway_error x = False"

fun is_value_error :: "exc \<Rightarrow> bool" where
  "is_value_error (ValueError s) = True"
| "is_value_error x = False"

text \<open>What a failed price becomes; \<open>values\<close>: ValueError is caught as well.\<close>

definition price_failure ::
    "bool \<Rightarrow> exc \<Rightarrow> int \<Rightarrow> calendar_document \<times> bool \<Rightarrow> availability_result res" where
  "price_failure catch_values x nights calendar =
     (case x of
        HostawayAvailability s \<Rightarrow> Inr (refused ''pricing_unavailable'' nights (Some calendar))
      | _ \<Rightarrow> if is_hostaway_error x \<or> (catch_values \<and> is_value_error x)
             then Inr (refused ''hostaway_temporarily_unavailable'' nights (Some calendar))
             else Inl x)"

definition priced_result ::
    "int \<Rightarrow> calendar_document \<times> bool \<Rightarrow> price_quote \<times> bool \<Rightarrow> availability_result" where
  "priced_result nights calendar quote =
     \<lparr> av_available = True, av_reason = ''available'', av_nights = nights, av_quote = Some (fst quote),
       av_calendar = Some (fst calendar), av_calendar_hit = snd calendar, av_price_hit = snd quote \<rparr>"

text \<open>The guests of a request that passed \<open>validate_request\<close>.\<close>

definition guests_of :: "stay_request \<Rightarrow> int" where
  "guests_of r = (case sr_guests r of PyInt g \<Rightarrow> g | _ \<Rightarrow> 0)"

text \<open>The checks after the calendar is there: its restrictions, then the price.\<close>

definition check_with_calendar ::
    "channel \<Rightarrow> date \<Rightarrow> (date \<Rightarrow> date \<Rightarrow> bool) \<Rightarrow> service_cache \<Rightarrow> stay_request \<Rightarrow> calendar_document \<times> bool
     \<Rightarrow> bool \<Rightarrow> service_cache \<times> availability_result res" where
  "check_with_calendar ch today overnight cache r calendar bypass =
     (case (validate_request today overnight r, sr_check_in r, sr_check_out r) of
        (Some invalid, _) \<Rightarrow> (cache, Inr invalid)
      | (None, Some i, Some j) \<Rightarrow>
          let reason = evaluate_calendar (cal_days (fst calendar)) i j None in
          if reason \<noteq> ''available'' then (cache, Inr (refused reason (j - i) (Some calendar)))
          else (case fetch_price ch cache (sr_rental r) i j (guests_of r) bypass of
              (cache', Inr q) \<Rightarrow> (cache', Inr (priced_result (j - i) calendar q))
            | (cache', Inl x) \<Rightarrow> (cache', price_failure False x (j - i) calendar))
      | _ \<Rightarrow> (cache, Inr (refused ''invalid_dates'' 0 None)))"

definition check_stay ::
    "channel \<Rightarrow> date \<Rightarrow> (date \<Rightarrow> date \<Rightarrow> bool) \<Rightarrow> service_cache \<Rightarrow> stay_request \<Rightarrow> bool
     \<Rightarrow> service_cache \<times> availability_result res" where
  "check_stay ch today overnight cache r bypass =
     (case (validate_request today overnight r, sr_check_in r, sr_check_out r) of
        (Some invalid, _) \<Rightarrow> (cache, Inr invalid)
      | (None, Some i, Some j) \<Rightarrow>
          (case fetch_calendar ch cache (sr_rental r) i j bypass of
             (c1, Inl x) \<Rightarrow>
               (c1, if is_hostaway_error x \<or> is_value_error x
                    then Inr (refused ''hostaway_temporarily_unavailable'' (j - i) None) else Inl x)
           | (c1, Inr calendar) \<Rightarrow>
               let reason = evaluate_calendar (cal_days (fst calendar)) i j None in
               if reason \<noteq> ''available'' then (c1, Inr (refused reason (j - i) (Some calendar)))
               else (case fetch_price ch c1 (sr_rental r) i j (guests_of r) bypass of
                   (c2, Inr q) \<Rightarrow> (c2, Inr (priced_result (pq_nights (fst q)) calendar q))
                 | (c2, Inl x) \<Rightarrow> (c2, price_failure True x (j - i) calendar)))
      | _ \<Rightarrow> (cache, Inr (refused ''invalid_dates'' 0 None)))"

subsection \<open>The first available stay\<close>

text \<open>The loop over the start dates: at most \<open>fuel\<close> of them are left.\<close>

fun first_start :: "calendar_day list \<Rightarrow> int \<Rightarrow> date \<Rightarrow> nat \<Rightarrow> date option" where
  "first_start days stay_nights candidate 0 = None"
| "first_start days stay_nights candidate (Suc fuel) =
     (if evaluate_calendar days candidate (candidate + stay_nights) None = ''available''
      then Some candidate else first_start days stay_nights (candidate + 1) fuel)"

definition find_first_available ::
    "channel \<Rightarrow> date \<Rightarrow> (date \<Rightarrow> date \<Rightarrow> bool) \<Rightarrow> service_cache \<Rightarrow> rental \<Rightarrow> date \<Rightarrow> int \<Rightarrow> int \<Rightarrow> int \<Rightarrow> bool
     \<Rightarrow> service_cache \<times> (stay_request option \<times> availability_result) res" where
  "find_first_available ch today overnight cache p start_date scan_days stay_nights guests bypass =
     (let request = (\<lambda>i. \<lparr> sr_rental = p, sr_check_in = Some i, sr_check_out = Some (i + stay_nights),
                            sr_guests = PyInt guests \<rparr>) in
      if scan_days < stay_nights \<or> 366 < scan_days \<or> stay_nights < 1
      then (cache, Inl (ValueError ''window''))
      else case validate_request today overnight (request start_date) of
        Some invalid \<Rightarrow> (cache, Inr (None, invalid))
      | None \<Rightarrow>
          (case fetch_calendar ch cache p start_date (start_date + scan_days) bypass of
             (c1, Inl x) \<Rightarrow> (c1, Inl x)
           | (c1, Inr calendar) \<Rightarrow>
               (case first_start (cal_days (fst calendar)) stay_nights start_date
                       (nat (scan_days - stay_nights + 1)) of
                  None \<Rightarrow> (c1, Inr (None, refused ''unavailable_dates'' stay_nights (Some calendar)))
                | Some i \<Rightarrow>
                    (case check_with_calendar ch today overnight c1 (request i) calendar bypass of
                       (c2, r) \<Rightarrow> (c2, bindE r (\<lambda>result. Inr (Some (request i), result)))))))"

subsection \<open>The inventory, declaratively\<close>

text \<open>
  A day can be sold when no signal says otherwise and one says so: a unit count of a day with
  several units, the flag of a day with one.
\<close>

definition sellable :: "calendar_day \<Rightarrow> bool" where
  "sellable c =
     (at_least 1 (cd_to_sell c) \<and> at_least 1 (cd_count c) \<and> at_least 1 (cd_desired c)
      \<and> cd_available c \<noteq> Some False
      \<and> (if is_multi_unit c then cd_to_sell c \<noteq> None \<or> cd_count c \<noteq> None \<or> cd_desired c \<noteq> None
         else cd_available c = Some True))"

lemma resolve_available: "iv_available (resolve_day_inventory c) = sellable c"
  by (cases "cd_to_sell c"; cases "cd_count c"; cases "cd_desired c"; cases "cd_available c")
    (auto simp: resolve_day_inventory_def availability_signals_def sellable_def is_multi_unit_def
      positive_def at_least_def Let_def)

lemma resolve_conflict: "iv_conflict (resolve_day_inventory c) \<Longrightarrow> \<not> sellable c"
  unfolding resolve_available [symmetric]
  by (auto simp: resolve_day_inventory_def Let_def split: if_splits option.splits)

lemma stay_range_set: "set (stay_range i j) = {x. i \<le> x \<and> x < j}"
proof -
  have "x \<in> set (stay_range i j)" if "i \<le> x" "x < j" for x
    using that by (auto simp: stay_range_def intro!: image_eqI [of _ _ "nat (x - i)"])
  then show ?thesis by (auto simp: stay_range_def)
qed

text \<open>A stay that the calendar allows; an extension keeps its original arrival.\<close>

definition stay_allowed :: "calendar_day list \<Rightarrow> date \<Rightarrow> date \<Rightarrow> date option \<Rightarrow> bool" where
  "stay_allowed days i j existing =
     (let n = j - (case existing of None \<Rightarrow> i | Some x \<Rightarrow> x) in
      i < j \<and> n \<le> 366 \<and> (case existing of None \<Rightarrow> True | Some x \<Rightarrow> x < i)
      \<and> (\<exists>a b. by_date days i = Some a \<and> by_date days j = Some b
           \<and> (existing \<noteq> None \<or> cd_closed_arrival a \<noteq> Some True) \<and> cd_closed_departure b \<noteq> Some True
           \<and> \<not> below_limit (cd_min a) n \<and> \<not> above_limit (cd_max a) n)
      \<and> (\<forall>x. i \<le> x \<and> x < j \<longrightarrow> (\<exists>c. by_date days x = Some c \<and> sellable c)))"

lemma map_filter_total:
  "\<forall>x \<in> set xs. f x \<noteq> None \<Longrightarrow> List.map_filter f xs = map (\<lambda>x. the (f x)) xs"
  by (induction xs) (auto simp: List.map_filter_simps)

lemma evaluate_iff_allowed: "evaluate_calendar days i j existing = ''available'' \<longleftrightarrow> stay_allowed days i j existing"
proof -
  define n where "n = j - (case existing of None \<Rightarrow> i | Some x \<Rightarrow> x)"
  show ?thesis
  proof (cases "j - i < 1 \<or> 366 < n \<or> (case existing of None \<Rightarrow> False | Some x \<Rightarrow> i \<le> x)")
    case True
    then show ?thesis
      by (auto simp: evaluate_calendar_def stay_allowed_def n_def Let_def split: option.splits)
  next
    case False
    note bounds = False
    show ?thesis
    proof (cases "list_ex (\<lambda>x. by_date days x = None) (stay_range i j @ [j])")
      case True
      then have "\<not> stay_allowed days i j existing"
        by (auto simp: list_ex_iff stay_range_set stay_allowed_def Let_def)
      then show ?thesis using True bounds
        by (simp add: evaluate_calendar_def n_def Let_def)
    next
      case False
      then have some: "\<forall>x \<in> set (stay_range i j). by_date days x \<noteq> None" and bj: "by_date days j \<noteq> None"
        by (auto simp: list_ex_iff)
      have "i \<in> set (stay_range i j)" using bounds by (auto simp: stay_range_set)
      then obtain a b where ab: "by_date days i = Some a" "by_date days j = Some b"
        using some bj by blast
      let ?ds = "map (\<lambda>x. resolve_day_inventory (the (by_date days x))) (stay_range i j)"
      have ds: "map resolve_day_inventory (List.map_filter (by_date days) (stay_range i j)) = ?ds"
        using map_filter_total [OF some] by simp
      have inv: "(\<not> list_ex iv_conflict ?ds \<and> \<not> list_ex (\<lambda>v. \<not> iv_available v) ?ds)
          \<longleftrightarrow> (\<forall>x. i \<le> x \<and> x < j \<longrightarrow> (\<exists>c. by_date days x = Some c \<and> sellable c))"
        using some resolve_conflict
        by (fastforce simp: list_ex_iff stay_range_set resolve_available)
      have "evaluate_calendar days i j existing =
         (if existing = None \<and> cd_closed_arrival a = Some True then ''closed_on_arrival''
          else if cd_closed_departure b = Some True then ''closed_on_departure''
          else if below_limit (cd_min a) n then ''minimum_stay_not_met''
          else if above_limit (cd_max a) n then ''maximum_stay_exceeded''
          else if list_ex iv_conflict ?ds then ''inventory_conflict''
          else if list_ex (\<lambda>v. \<not> iv_available v) ?ds then ''unavailable_dates'' else ''available'')"
        using bounds False ab ds by (simp add: evaluate_calendar_def n_def Let_def)
      moreover have "stay_allowed days i j existing \<longleftrightarrow>
          (existing \<noteq> None \<or> cd_closed_arrival a \<noteq> Some True) \<and> cd_closed_departure b \<noteq> Some True
           \<and> \<not> below_limit (cd_min a) n \<and> \<not> above_limit (cd_max a) n
           \<and> (\<not> list_ex iv_conflict ?ds \<and> \<not> list_ex (\<lambda>v. \<not> iv_available v) ?ds)"
        unfolding inv using bounds ab
        by (auto simp: stay_allowed_def n_def Let_def split: option.splits)
      ultimately show ?thesis by simp
    qed
  qed
qed

lemma first_start_spec:
  "case first_start days n i fuel of
     None \<Rightarrow> \<forall>k < fuel. \<not> stay_allowed days (i + int k) (i + int k + n) None
   | Some s \<Rightarrow> \<exists>k < fuel. s = i + int k \<and> stay_allowed days s (s + n) None
       \<and> (\<forall>m < k. \<not> stay_allowed days (i + int m) (i + int m + n) None)"
proof (induction fuel arbitrary: i)
  case 0
  then show ?case by simp
next
  case (Suc fuel)
  show ?case
  proof (cases "stay_allowed days i (i + n) None")
    case True
    then show ?thesis by (auto simp: evaluate_iff_allowed intro!: exI [of _ 0])
  next
    case False
    show ?thesis
    proof (cases "first_start days n (i + 1) fuel")
      case None
      then have "\<forall>k < fuel. \<not> stay_allowed days (i + 1 + int k) (i + 1 + int k + n) None"
        using Suc.IH [of "i + 1"] by simp
      then have "\<forall>k < Suc fuel. \<not> stay_allowed days (i + int k) (i + int k + n) None"
        by (intro allI impI, rename_tac k, case_tac k) (use False in \<open>auto simp: add.assoc\<close>)
      then show ?thesis using False None by (simp add: evaluate_iff_allowed)
    next
      case (Some s)
      then obtain k where k: "k < fuel" "s = i + 1 + int k" "stay_allowed days s (s + n) None"
        "\<forall>m < k. \<not> stay_allowed days (i + 1 + int m) (i + 1 + int m + n) None"
        using Suc.IH [of "i + 1"] by auto
      have "\<forall>m < Suc k. \<not> stay_allowed days (i + int m) (i + int m + n) None"
      proof (intro allI impI)
        fix m assume "m < Suc k"
        then show "\<not> stay_allowed days (i + int m) (i + int m + n) None"
          using False k(4) by (cases m) (auto simp: add.assoc)
      qed
      then have "\<exists>k' < Suc fuel. s = i + int k' \<and> stay_allowed days s (s + n) None
          \<and> (\<forall>m < k'. \<not> stay_allowed days (i + int m) (i + int m + n) None)"
        using k by (intro exI [of _ "Suc k"]) simp
      then show ?thesis using False Some by (simp add: evaluate_iff_allowed)
    qed
  qed
qed

subsection \<open>Properties\<close>

text \<open>C20: the calendar check is exactly its specification. A stay is reported available if and
  only if it has between one and 366 nights (counted from the original arrival for an extension,
  which must be earlier), the calendar knows every night and the departure day, the arrival and
  departure days are open and the stay limits of the arrival day hold, and every night can be
  sold: no inventory signal contradicts another and one of them says there is a unit.\<close>

theorem evaluate_calendar_exact:
  "evaluate_calendar days i j existing = ''available'' \<longleftrightarrow> stay_allowed days i j existing"
  by (rule evaluate_iff_allowed)

text \<open>C32: the search for a free stay finds the earliest one. When the calendar answers and the
  price service fails only in the ways the service handles, the search returns, and it names the
  first start in the window whose stay the calendar allows; only when there is none does it name
  no stay and report that the dates are not available.\<close>

theorem first_available_found:
  assumes window: "stay_nights \<le> scan_days" "scan_days \<le> 366" "1 \<le> stay_nights"
    and valid: "validate_request today overnight \<lparr> sr_rental = p, sr_check_in = Some start_date,
        sr_check_out = Some (start_date + stay_nights), sr_guests = PyInt guests \<rparr> = None"
    and calendar: "fetch_calendar ch cache p start_date (start_date + scan_days) bypass = (c1, Inr calendar)"
    and prices: "\<And>i j x. ch_price ch (rn_listing p) i j guests bypass (rn_override p) = Inl x \<Longrightarrow> is_hostaway_error x"
  shows "\<exists>c2 found result. find_first_available ch today overnight cache p start_date scan_days stay_nights guests bypass
       = (c2, Inr (found, result))
    \<and> (case found of
         None \<Rightarrow> av_reason result = ''unavailable_dates''
           \<and> (\<forall>i. start_date \<le> i \<and> i + stay_nights \<le> start_date + scan_days
                \<longrightarrow> \<not> stay_allowed (cal_days (fst calendar)) i (i + stay_nights) None)
       | Some r \<Rightarrow> \<exists>i. sr_check_in r = Some i \<and> sr_check_out r = Some (i + stay_nights)
           \<and> start_date \<le> i \<and> i + stay_nights \<le> start_date + scan_days
           \<and> stay_allowed (cal_days (fst calendar)) i (i + stay_nights) None
           \<and> (\<forall>k. start_date \<le> k \<and> k < i
                \<longrightarrow> \<not> stay_allowed (cal_days (fst calendar)) k (k + stay_nights) None))"
proof -
  let ?days = "cal_days (fst calendar)" and ?fuel = "nat (scan_days - stay_nights + 1)"
  let ?r = "\<lambda>i. \<lparr> sr_rental = p, sr_check_in = Some i, sr_check_out = Some (i + stay_nights), sr_guests = PyInt guests \<rparr>"
  note S = first_start_spec [where days = ?days and n = stay_nights and i = start_date and fuel = ?fuel]
  show ?thesis
  proof (cases "first_start ?days stay_nights start_date ?fuel")
    case None
    have "\<not> stay_allowed ?days i (i + stay_nights) None"
      if "start_date \<le> i" "i + stay_nights \<le> start_date + scan_days" for i
    proof -
      have i: "nat (i - start_date) < ?fuel" "start_date + int (nat (i - start_date)) = i" using that by simp_all
      have "\<forall>k < ?fuel. \<not> stay_allowed ?days (start_date + int k) (start_date + int k + stay_nights) None"
        using S None by simp
      from this [rule_format, OF i(1)] show ?thesis unfolding i(2) .
    qed
    then show ?thesis
      using window valid calendar None
      by (auto simp: find_first_available_def Let_def refused_def)
  next
    case (Some s)
    then obtain k where k: "k < ?fuel" "s = start_date + int k" "stay_allowed ?days s (s + stay_nights) None"
      "\<forall>m < k. \<not> stay_allowed ?days (start_date + int m) (start_date + int m + stay_nights) None"
      using S by auto
    have first: "\<not> stay_allowed ?days q (q + stay_nights) None" if "start_date \<le> q" "q < s" for q
    proof -
      have q: "nat (q - start_date) < k" "start_date + int (nat (q - start_date)) = q" using that k(2) by simp_all
      from k(4) [rule_format, OF q(1)] show ?thesis unfolding q(2) .
    qed
    have handled: "\<exists>c2 result. check_with_calendar ch today overnight c1 (?r s) calendar bypass = (c2, Inr result)"
    proof (cases "fetch_price ch c1 p s (s + stay_nights) guests bypass")
      case (Pair c2 q)
      then show ?thesis
      proof (cases q)
        case (Inl x)
        then have "is_hostaway_error x"
          using Pair prices by (auto simp: fetch_price_def Let_def split: option.splits sum.splits)
        then show ?thesis using Pair Inl
          by (auto simp: check_with_calendar_def guests_of_def price_failure_def Let_def split: option.splits exc.splits)
      next
        case (Inr y)
        then show ?thesis using Pair
          by (auto simp: check_with_calendar_def guests_of_def Let_def split: option.splits)
      qed
    qed
    then obtain c2 result where "check_with_calendar ch today overnight c1 (?r s) calendar bypass = (c2, Inr result)" by blast
    then have "find_first_available ch today overnight cache p start_date scan_days stay_nights guests bypass
       = (c2, Inr (Some (?r s), result))"
      using window valid calendar Some by (simp add: find_first_available_def Let_def)
    then show ?thesis using k first by auto
  qed
qed

definition free_day :: "date \<Rightarrow> calendar_day" where
  "free_day x = \<lparr> cd_date = x, cd_available = Some True, cd_price = Some 450, cd_min = Some 2, cd_max = None,
     cd_closed_arrival = None, cd_closed_departure = None, cd_status = ''available'', cd_count = None,
     cd_to_sell = None, cd_reserved = None, cd_pending = None, cd_blocked = None, cd_blocking = None,
     cd_desired = None, cd_processed = None, cd_resources = False \<rparr>"

definition month_calendar :: calendar_document where
  "month_calendar = \<lparr> cal_days = (free_day 100) \<lparr> cd_available := Some False \<rparr> # map free_day [101, 102, 103],
     cal_fields = [], cal_types = [], cal_resources = False \<rparr>"

definition sample_channel :: channel where
  "sample_channel = \<lparr> ch_calendar = (\<lambda>n i j. Inr month_calendar),
     ch_price = (\<lambda>n i j g b o'. Inl (HostawayResponse ''down'')) \<rparr>"

definition sample_rental :: rental where
  "sample_rental = \<lparr> rn_listing = 5, rn_visible = True, rn_active = True, rn_capacity = Some 4, rn_override = [] \<rparr>"

theorem first_available_found_witness:
  "\<exists>c2 found result. find_first_available sample_channel 100 (\<lambda>i j. False) \<lparr> sc_calendar = [], sc_price = [] \<rparr>
      sample_rental 100 3 2 2 True = (c2, Inr (found, result)) \<and> found \<noteq> None"
proof -
  let ?c = "\<lparr> sc_calendar = [], sc_price = [] \<rparr>"
  have f: "fetch_calendar sample_channel ?c sample_rental 100 (100 + 3) True
     = (?c \<lparr> sc_calendar := [((5, 100, 103), month_calendar)] \<rparr>, Inr (month_calendar, False))"
    by (simp add: fetch_calendar_def sample_channel_def sample_rental_def)
  have v: "validate_request 100 (\<lambda>i j. False) \<lparr> sr_rental = sample_rental, sr_check_in = Some 100,
        sr_check_out = Some (100 + 2), sr_guests = PyInt 2 \<rparr> = None"
    by (simp add: validate_request_def sample_rental_def above_limit_def)
  have ok: "stay_allowed (cal_days month_calendar) 101 (101 + 2) None"
    unfolding evaluate_iff_allowed [symmetric] by code_simp
  obtain c2 found result where r: "find_first_available sample_channel 100 (\<lambda>i j. False) ?c sample_rental 100 3 2 2 True
      = (c2, Inr (found, result))"
    and no: "found = None \<longrightarrow> (\<forall>i. 100 \<le> i \<and> i + 2 \<le> 100 + 3
                \<longrightarrow> \<not> stay_allowed (cal_days month_calendar) i (i + 2) None)"
    using first_available_found [OF _ _ _ v f] by (fastforce simp: sample_channel_def split: option.splits)
  have "found \<noteq> None"
  proof
    assume "found = None"
    then show False using no [rule_format, of 101] ok by simp
  qed
  with r show ?thesis by blast
qed

text \<open>An available answer is backed by the calendar and a price. Whenever the service says a
  stay is available, the request passed every local check (a visible and active property, dates
  not in the past, guests within the capacity, no morning stay in the way), the answer carries
  the price quote, and the calendar it carries allows the stay, whatever was cached.\<close>

lemma available_answer_backed:
  assumes run: "check_stay ch today overnight cache r bypass = (c2, Inr result)" and ok: "av_available result"
  shows "\<exists>i j g calendar quote. sr_check_in r = Some i \<and> sr_check_out r = Some j \<and> sr_guests r = PyInt g
    \<and> rn_visible (sr_rental r) \<and> rn_active (sr_rental r) \<and> today \<le> i \<and> 1 \<le> g
    \<and> \<not> above_limit (rn_capacity (sr_rental r)) g \<and> \<not> overnight i j
    \<and> av_quote result = Some quote \<and> av_calendar result = Some calendar
    \<and> stay_allowed (cal_days calendar) i j None"
proof -
  have valid: "validate_request today overnight r = None"
  proof (rule ccontr)
    assume "validate_request today overnight r \<noteq> None"
    then obtain bad where v: "validate_request today overnight r = Some bad" by blast
    then have "\<not> av_available bad"
      by (auto simp: validate_request_def refused_def Let_def split: option.splits if_splits pyval.splits)
    then show False using run ok v by (simp add: check_stay_def)
  qed
  obtain i j g where r: "sr_check_in r = Some i" "sr_check_out r = Some j" "sr_guests r = PyInt g"
    and local: "rn_visible (sr_rental r)" "rn_active (sr_rental r)" "today \<le> i" "1 \<le> g"
      "\<not> above_limit (rn_capacity (sr_rental r)) g" "\<not> overnight i j"
    using valid by (auto simp: validate_request_def Let_def split: option.splits if_splits pyval.splits)
  obtain c1 out where f: "fetch_calendar ch cache (sr_rental r) i j bypass = (c1, out)" by fastforce
  obtain calendar where out: "out = Inr calendar"
    using run ok valid r f by (cases out) (auto simp: check_stay_def refused_def split: if_splits)
  have allowed: "stay_allowed (cal_days (fst calendar)) i j None"
    using run ok valid r f out
    by (auto simp: check_stay_def refused_def evaluate_iff_allowed Let_def split: if_splits)
  then have e: "evaluate_calendar (cal_days (fst calendar)) i j None = ''available''"
    by (simp add: evaluate_iff_allowed)
  obtain q where "result = priced_result (pq_nights (fst q)) calendar q"
    using run ok valid r f out e
    by (auto simp: check_stay_def price_failure_def refused_def Let_def split: prod.splits sum.splits exc.splits if_splits)
  then show ?thesis using r local allowed by (auto simp: priced_result_def)
qed

definition sample_quote_document :: price_quote where
  "sample_quote_document = \<lparr> pq_listing = 5, pq_check_in = 101, pq_check_out = 103, pq_nights = 2, pq_guests = 2,
     pq_currency = ''SAR'', pq_total = 900, pq_components = [], pq_calculated_at = 7, pq_fields = [],
     pq_types = [], pq_component_types = [] \<rparr>"

lemma available_answer_backed_at:
  "\<exists>c2 result. check_stay (sample_channel \<lparr> ch_price := \<lambda>n i j g b o'. Inr sample_quote_document \<rparr>) 100 (\<lambda>i j. False)
      \<lparr> sc_calendar = [], sc_price = [] \<rparr> \<lparr> sr_rental = sample_rental, sr_check_in = Some 101, sr_check_out = Some 103,
        sr_guests = PyInt 2 \<rparr> False = (c2, Inr result) \<and> av_quote result = Some sample_quote_document
     \<and> stay_allowed (cal_days month_calendar) 101 103 None"
proof -
  let ?ch = "sample_channel \<lparr> ch_price := \<lambda>n i j g b o'. Inr sample_quote_document \<rparr>"
  let ?r = "\<lparr> sr_rental = sample_rental, sr_check_in = Some 101, sr_check_out = Some 103, sr_guests = PyInt 2 \<rparr>"
  have ok: "evaluate_calendar (cal_days month_calendar) 101 103 None = ''available''" by code_simp
  have v: "validate_request 100 (\<lambda>i j. False) ?r = None"
    by (simp add: validate_request_def sample_rental_def above_limit_def)
  obtain c2 where run: "check_stay ?ch 100 (\<lambda>i j. False) \<lparr> sc_calendar = [], sc_price = [] \<rparr> ?r False
      = (c2, Inr (priced_result 2 (month_calendar, False) (sample_quote_document, False)))"
    by (simp add: check_stay_def v fetch_calendar_def fetch_price_def sample_channel_def ok Let_def
        sample_quote_document_def)
  from available_answer_backed [OF this] have "stay_allowed (cal_days month_calendar) 101 103 None"
    by (auto simp: priced_result_def)
  with run show ?thesis by (auto simp: priced_result_def)
qed

end
