(* ===== verification/Quotes.thy ===== *)
theory Quotes
  imports Refunds Availability "HOL-Library.Multiset"
begin

section \<open>Booking quotes (apps/reservations/services/booking.py)\<close>

text \<open>
  A verified offer becomes a signed quote, a quote is consumed into one booking intent after its
  price was checked again, and the prices of the nights are kept with the quote
  (\<open>priced_nights\<close> of apps/loyalty/settlements.py). The guest's contact fields are left out:
  \<open>valid_intent\<close> says whether \<open>full_clean\<close> accepts the intent with them. The HMAC of a quote,
  the labels of the price components and the outcome of the rate service are parameters.
\<close>

subsection \<open>The price breakdown of a quote\<close>

definition component_entry :: "(price_component \<Rightarrow> string) \<Rightarrow> price_component \<Rightarrow> rat \<Rightarrow> pyval" where
  "component_entry label c whole =
     PyDict [(''type'', PyStr (take 50 (pc_type c))), (''title'', PyStr (take 200 (label c))),
       (''quantity'', case pc_quantity c of None \<Rightarrow> PyNone | Some n \<Rightarrow> PyInt n),
       (''total'', PyDecText whole), (''included_in_total'', PyBool True)]"

definition counted :: "price_component \<Rightarrow> bool" where
  "counted c = (pc_included c = Some True \<and> pc_deleted c = Some False)"

definition sanitized_components :: "(price_component \<Rightarrow> string) \<Rightarrow> price_quote \<Rightarrow> pyval list" where
  "sanitized_components label q =
     (let parts = filter counted (pq_components q) in
      if list_ex (\<lambda>c. pc_total c = None) parts then []
      else let totals = map (\<lambda>c. the (pc_total c)) parts in
           if sum_list totals \<noteq> pq_total q then []
           else map (\<lambda>(c, t). component_entry label c t) (zip parts totals))"

subsection \<open>The prices of the nights\<close>

text \<open>\<open>any(day.price is None or day.price < 0 or quantize(day.price) != day.price ...)\<close>.\<close>

fun odd_price :: "calendar_day list \<Rightarrow> bool res" where
  "odd_price [] = Inr False"
| "odd_price (c # cs) =
     (case cd_price c of
        None \<Rightarrow> Inr True
      | Some v \<Rightarrow>
          if v < 0 then Inr True
          else bindE (quantize round_half_even 2 v) (\<lambda>r.
                 if r \<noteq> v then Inr True else odd_price cs))"

definition day_price :: "calendar_day \<Rightarrow> rat" where
  "day_price c = (case cd_price c of None \<Rightarrow> 0 | Some v \<Rightarrow> v)"

text \<open>The reference names the listing; the time of the calculation in it is left out.\<close>

definition captured :: "price_quote \<Rightarrow> calendar_day list \<Rightarrow> priced" where
  "captured q rows = \<lparr> pr_currency = pq_currency q,
     pr_reference = ''offer:'' @ padded 1 (nat (pq_listing q)),
     pr_nights = map (\<lambda>c. \<lparr> night_date = isoformat (cd_date c), night_value = PyDecText (day_price c) \<rparr>)
                   (sort_key cd_date rows) \<rparr>"

definition priced_nights ::
    "(price_component \<Rightarrow> string) \<Rightarrow> price_quote option \<Rightarrow> calendar_document option \<Rightarrow> priced option res" where
  "priced_nights label quote calendar =
     (case (quote, calendar) of
        (Some q, Some doc) \<Rightarrow>
          let rows = filter (\<lambda>c. pq_check_in q \<le> cd_date c \<and> cd_date c < pq_check_out q) (cal_days doc) in
          if int (length rows) \<noteq> pq_nights q then Inr None
          else bindE (odd_price rows) (\<lambda>odd.
          if odd then Inr None
          else if cd_date ` set rows \<noteq> (\<lambda>n. pq_check_in q + int n) ` {0..<nat (pq_nights q)}
                  \<or> sum_list (map day_price rows) \<noteq> pq_total q
          then Inr None
          else bindE (lodging_of (PyList (sanitized_components label q)) (pq_total q)) (\<lambda>lodging.
               if lodging \<noteq> pq_total q then Inr None else Inr (Some (captured q rows))))
      | _ \<Rightarrow> Inr None)"

subsection \<open>Quotes and intents\<close>

datatype quote_status =
  QuActive | QuExpired | QuConsumed | QuInvalidated | QuPriceChanged | QuUnavailable

record quote_row =
  qu_id :: nat
  qu_property :: nat
  qu_listing :: int
  qu_check_in :: date
  qu_check_out :: date
  qu_nights :: int
  qu_guests :: int
  qu_currency :: string
  qu_total :: rat
  qu_payment :: "rat option"
  qu_display :: string
  qu_snapshot :: "(string \<times> pyval) list"
  qu_components :: "pyval list"
  qu_night_prices :: "priced option"
  qu_signature :: string
  qu_session :: string
  qu_status :: quote_status
  qu_expires_at :: instant
  qu_calculated_at :: instant

record intent_row =
  it_id :: nat
  it_quote :: nat
  it_currency :: string
  it_total :: rat
  it_payment :: rat
  it_display :: string
  it_snapshot :: "(string \<times> pyval) list"
  it_key :: string
  it_session :: string
  it_expires_at :: instant

record shop =
  sh_quotes :: "quote_row list"
  sh_intents :: "intent_row list"

text \<open>The unit as the quote code reads it.\<close>

record unit_row =
  un_id :: nat
  un_listing :: int
  un_capacity :: "int option"

record shop_env =
  sv_fx :: fx_config
  sv_now :: instant
  sv_quote_ttl :: int
  sv_intent_ttl :: int
  sv_tolerance :: rat
  sv_hmac :: "pyval \<Rightarrow> string"
  sv_label :: "price_component \<Rightarrow> string"
  sv_rates :: "rate_snapshot res"
  sv_units :: "nat \<Rightarrow> unit_row option"
  valid_intent :: "intent_row \<Rightarrow> bool"

subsection \<open>Signing\<close>

definition optional_text :: "rat option \<Rightarrow> pyval" where
  "optional_text x = (case x of None \<Rightarrow> PyNone | Some q \<Rightarrow> PyDecText q)"

definition priced_value :: "priced \<Rightarrow> pyval" where
  "priced_value p = PyDict [(''currency'', PyStr (pr_currency p)), (''reference'', PyStr (pr_reference p)),
     (''nights'', PyList (map (\<lambda>n. PyDict [(''date'', PyStr (night_date n)), (''value'', night_value n)])
                            (pr_nights p)))]"

text \<open>The signed document; quotes without an amount in SAR and without rates are the old form.\<close>

definition fingerprint_payload :: "quote_row \<Rightarrow> pyval" where
  "fingerprint_payload q = PyDict (
     [(''quote_id'', PyInt (int (qu_id q))), (''property_id'', PyInt (int (qu_property q))),
      (''hostaway_listing_id'', PyInt (qu_listing q)), (''check_in'', PyInt (qu_check_in q)),
      (''check_out'', PyInt (qu_check_out q)), (''guests'', PyInt (qu_guests q)),
      (''currency'', PyStr (qu_currency q)), (''total_price'', PyDecText (qu_total q)),
      (''price_version'', PyInt 2)] @
     (if qu_payment q \<noteq> None \<or> qu_snapshot q \<noteq> []
      then [(''payment_amount_sar'', optional_text (qu_payment q)),
            (''selected_display_currency'', PyStr (qu_display q)),
            (''exchange_rate_snapshot'', PyDict (qu_snapshot q))] else []) @
     (case qu_night_prices q of None \<Rightarrow> [] | Some p \<Rightarrow> [(''night_prices'', priced_value p)]))"

definition quote_signature :: "shop_env \<Rightarrow> quote_row \<Rightarrow> string" where
  "quote_signature v q = sv_hmac v (fingerprint_payload q)"

definition verify_signature :: "shop_env \<Rightarrow> quote_row \<Rightarrow> bool" where
  "verify_signature v q = (qu_signature q = quote_signature v q)"

subsection \<open>Creating a quote\<close>

definition clean_quote :: "shop_env \<Rightarrow> unit_row \<Rightarrow> quote_row \<Rightarrow> bool" where
  "clean_quote v u q =
     (qu_listing q = un_listing u
      \<and> \<not> set_and (un_capacity u) (\<lambda>c. c < qu_guests q)
      \<and> 1 \<le> qu_check_out q - qu_check_in q \<and> qu_nights q = qu_check_out q - qu_check_in q
      \<and> (qu_currency q = [] \<or> (length (qu_currency q) = 3 \<and> list_all is_letter (qu_currency q)))
      \<and> (qu_display q = [] \<or> qu_display q \<in> set (supported_currencies (sv_fx v))))"

definition next_quote :: "shop \<Rightarrow> nat" where
  "next_quote s = Suc (Max (set (0 # map qu_id (sh_quotes s))))"

text \<open>A failed conversion becomes a ValueError.\<close>

definition conversion :: "'a res \<Rightarrow> 'a res" where
  "conversion r = (case r of
      Inl x \<Rightarrow> if is_currency_error x then Inl (ValueError ''currency_conversion_unavailable'') else Inl x
    | Inr y \<Rightarrow> Inr y)"

text \<open>A ValueError of \<open>priced_nights\<close> leaves the quote without them.\<close>

definition captured_nights :: "shop_env \<Rightarrow> availability_result \<Rightarrow> priced option res" where
  "captured_nights v av =
     (case priced_nights (sv_label v) (av_quote av) (av_calendar av) of
        Inl (ValueError s) \<Rightarrow> Inr None
      | r \<Rightarrow> r)"

text \<open>
  The precision check reads the exponent of the total; here it is the value that needs more
  than four decimals.
\<close>

definition create_quote_for_property ::
    "shop_env \<Rightarrow> shop \<Rightarrow> availability_result \<Rightarrow> unit_row \<Rightarrow> string \<Rightarrow> string \<Rightarrow> (shop \<times> quote_row) res" where
  "create_quote_for_property v s av u session selected =
     (case av_quote av of
        None \<Rightarrow> Inl (ValueError ''not_verified'')
      | Some p \<Rightarrow>
          if \<not> av_available av then Inl (ValueError ''not_verified'')
          else if pq_listing p \<noteq> un_listing u then Inl (ValueError ''other_listing'')
          else if pq_total p < 0 \<or> of_int \<lfloor>pq_total p * 10000\<rfloor> \<noteq> pq_total p * 10000
          then Inl (ValueError ''unsupported_precision'')
          else
            let parts = sanitized_components (sv_label v) p;
                expires = sv_now v + seconds (sv_quote_ttl v)
            in bindE (captured_nights v av) (\<lambda>nights.
            if 100 < length parts then Inl (ValueError ''component_count'')
            else bindE (conversion (create_quote (sv_fx v) (sv_rates v) (PyDec (Fin (pq_total p)))
                          (PyStr (pq_currency p)) (PyStr selected) (Aware (sv_now v)) (Aware expires))) (\<lambda>money.
            let bare = \<lparr> qu_id = next_quote s, qu_property = un_id u, qu_listing = un_listing u,
                  qu_check_in = pq_check_in p, qu_check_out = pq_check_out p, qu_nights = pq_nights p,
                  qu_guests = pq_guests p, qu_currency = pq_currency p, qu_total = pq_total p,
                  qu_payment = Some (payment_amount_sar money), qu_display = display_currency money,
                  qu_snapshot = quote_snapshot money, qu_components = parts, qu_night_prices = nights,
                  qu_signature = [], qu_session = session, qu_status = QuActive,
                  qu_expires_at = expires, qu_calculated_at = pq_calculated_at p \<rparr>;
                q = bare \<lparr> qu_signature := quote_signature v bare \<rparr>
            in if \<not> clean_quote v u q then Inl (ValidationError ''quote'')
               else Inr (s \<lparr> sh_quotes := sh_quotes s @ [q] \<rparr>, q))))"

text \<open>\<open>create_booking_quote\<close>: the answer of the service and the quote, when there is one.\<close>

definition create_booking_quote ::
    "shop_env \<Rightarrow> channel \<Rightarrow> date \<Rightarrow> (date \<Rightarrow> date \<Rightarrow> bool) \<Rightarrow> service_cache \<Rightarrow> shop \<Rightarrow> stay_request \<Rightarrow> unit_row
     \<Rightarrow> string \<Rightarrow> string \<Rightarrow> bool \<Rightarrow> service_cache \<times> (shop \<times> availability_result \<times> quote_row option) res" where
  "create_booking_quote v ch today overnight cache s r u session selected bypass =
     (case check_stay ch today overnight cache r bypass of
        (c2, out) \<Rightarrow>
          (c2, bindE out (\<lambda>av.
             if \<not> av_available av \<or> av_quote av = None then Inr (s, av, None)
             else bindE (create_quote_for_property v s av u session selected) (\<lambda>(s', q).
                    Inr (s', av, Some q)))))"

subsection \<open>Consuming a quote\<close>

record creation =
  cr_code :: string
  cr_intent :: "intent_row option"
  cr_replacement :: "quote_row option"
  cr_totals :: "(rat \<times> rat) option"

definition code_only :: "string \<Rightarrow> creation" where
  "code_only c = \<lparr> cr_code = c, cr_intent = None, cr_replacement = None, cr_totals = None \<rparr>"

definition idempotent :: "intent_row \<Rightarrow> creation" where
  "idempotent i = \<lparr> cr_code = ''idempotent'', cr_intent = Some i, cr_replacement = None, cr_totals = None \<rparr>"

definition put_quote :: "shop \<Rightarrow> quote_row \<Rightarrow> shop" where
  "put_quote s q = s \<lparr> sh_quotes := row_put qu_id (sh_quotes s) q \<rparr>"

definition mark_quote :: "shop \<Rightarrow> quote_row \<Rightarrow> quote_status \<Rightarrow> string \<Rightarrow> (shop \<times> creation) res" where
  "mark_quote s q status code = Inr (put_quote s (q \<lparr> qu_status := status \<rparr>), code_only code)"

text \<open>The intent of the quote, when the same key and session created it.\<close>

definition own_intent :: "shop \<Rightarrow> quote_row \<Rightarrow> string \<Rightarrow> string \<Rightarrow> intent_row option" where
  "own_intent s q key session =
     (case find (\<lambda>i. it_quote i = qu_id q) (sh_intents s) of
        None \<Rightarrow> None
      | Some i \<Rightarrow> if it_key i = key \<and> it_session i = session then Some i else None)"

text \<open>The display currency and amount, and the snapshot of the intent; None: no usable rates.\<close>

definition shown_amount ::
    "shop_env \<Rightarrow> quote_row \<Rightarrow> rat \<Rightarrow> string \<Rightarrow> (rat \<times> (string \<times> pyval) list) option res" where
  "shown_amount v q paid display =
     (case sar_to_display (sv_fx v) (PyDec (Fin paid)) (PyStr display) (RatesMapping (qu_snapshot q)) of
        Inr shown \<Rightarrow> Inr (Some (shown, qu_snapshot q))
      | Inl x \<Rightarrow>
          if \<not> is_currency_error x then Inl x
          else (case bindE (sv_rates v) (\<lambda>r.
                      bindE (sar_to_display (sv_fx v) (PyDec (Fin paid)) (PyStr display) (RatesSnapshot r))
                        (\<lambda>shown. Inr (r, shown))) of
              Inl y \<Rightarrow> if is_currency_error y then Inr None else Inl y
            | Inr (r, shown) \<Rightarrow>
                bindE (snapshot_rate (sv_fx v) r (PyStr (qu_currency q))) (\<lambda>source_rate.
                bindE (snapshot_rate (sv_fx v) r (PyStr display)) (\<lambda>display_rate.
                  Inr (Some (shown,
                    dict_set ''display_rate_per_sar'' (PyDecText display_rate)
                    (dict_set ''source_rate_per_sar'' (PyDecText source_rate)
                    (dict_set ''rates'' (rates_value (rates r))
                    (dict_set ''rate_timestamp'' (PyTimeText (rate_timestamp r))
                    (dict_set ''provider'' (PyStr (provider r)) (qu_snapshot q)))))))))))"

definition next_intent :: "shop \<Rightarrow> nat" where
  "next_intent s = Suc (Max (set (0 # map it_id (sh_intents s))))"

definition new_intent ::
    "shop_env \<Rightarrow> shop \<Rightarrow> quote_row \<Rightarrow> rat \<Rightarrow> string \<Rightarrow> rat \<Rightarrow> (string \<times> pyval) list \<Rightarrow> string \<Rightarrow> string \<Rightarrow> intent_row" where
  "new_intent v s q paid display shown snapshot key session =
     (let expires = sv_now v + seconds (sv_intent_ttl v) in
      \<lparr> it_id = next_intent s, it_quote = qu_id q, it_currency = qu_currency q, it_total = qu_total q,
        it_payment = paid, it_display = display,
        it_snapshot = dict_set ''quote_expires_at'' (PyTimeText (Aware expires))
          (dict_set ''quote_created_at'' (PyTimeText (Aware (sv_now v)))
          (dict_set ''display_amount'' (PyDecText shown)
          (dict_set ''selected_display_currency'' (PyStr display) snapshot))),
        it_key = key, it_session = session, it_expires_at = expires \<rparr>)"

text \<open>The last part: the quote is good and the price unchanged.\<close>

definition create_intent ::
    "shop_env \<Rightarrow> shop \<Rightarrow> quote_row \<Rightarrow> string \<Rightarrow> string \<Rightarrow> string \<Rightarrow> (shop \<times> creation) res" where
  "create_intent v s q key session selected =
     (case qu_payment q of
        None \<Rightarrow> mark_quote s q QuInvalidated ''fx_snapshot_invalid''
      | Some paid \<Rightarrow>
          if qu_snapshot q = [] then mark_quote s q QuInvalidated ''fx_snapshot_invalid''
          else (case (if selected = [] then Inr (qu_display q) else normalize_currency (sv_fx v) (PyStr selected)) of
              Inl x \<Rightarrow> if is_currency_error x then Inr (s, code_only ''invalid_display_currency'') else Inl x
            | Inr display \<Rightarrow>
                bindE (shown_amount v q paid display) (\<lambda>amounts.
                case amounts of
                  None \<Rightarrow> Inr (s, code_only ''fx_snapshot_invalid'')
                | Some (shown, snapshot) \<Rightarrow>
                    let i = new_intent v s q paid display shown snapshot key session in
                    if \<not> valid_intent v i then Inl (ValidationError ''intent'')
                    else if list_ex (\<lambda>x. it_quote x = qu_id q \<or> it_key x = key) (sh_intents s)
                    then Inr (s, case own_intent s q key session of
                                   Some x \<Rightarrow> idempotent x | None \<Rightarrow> code_only ''duplicate'')
                    else Inr (put_quote (s \<lparr> sh_intents := sh_intents s @ [i] \<rparr>) (q \<lparr> qu_status := QuConsumed \<rparr>),
                              \<lparr> cr_code = ''created'', cr_intent = Some i, cr_replacement = None,
                                cr_totals = None \<rparr>))))"

definition replace_quote ::
    "shop_env \<Rightarrow> shop \<Rightarrow> quote_row \<Rightarrow> availability_result \<Rightarrow> rat \<Rightarrow> string \<Rightarrow> (shop \<times> creation) res" where
  "replace_quote v s q av latest session =
     bindE (of_option (DoesNotExist ''property'') (sv_units v (qu_property q))) (\<lambda>u.
     bindE (create_quote_for_property v (put_quote s (q \<lparr> qu_status := QuPriceChanged \<rparr>)) av u session
              payment_currency) (\<lambda>(s', fresh).
       Inr (s', \<lparr> cr_code = ''price_changed'', cr_intent = None, cr_replacement = Some fresh,
                  cr_totals = Some (qu_total q, latest) \<rparr>)))"

definition consume_locked ::
    "shop_env \<Rightarrow> shop \<Rightarrow> quote_row \<Rightarrow> string \<Rightarrow> string \<Rightarrow> availability_result \<Rightarrow> string \<Rightarrow> (shop \<times> creation) res" where
  "consume_locked v s q session key av selected =
     (if qu_session q \<noteq> session then Inr (s, code_only ''not_found'')
      else if \<not> verify_signature v q then mark_quote s q QuInvalidated ''invalid_signature''
      else if qu_status q \<noteq> QuActive
      then Inr (s, case own_intent s q key session of
                     Some i \<Rightarrow> idempotent i | None \<Rightarrow> code_only ''quote_not_active'')
      else if qu_expires_at q \<le> sv_now v then mark_quote s q QuExpired ''quote_expired''
      else case av_quote av of
        None \<Rightarrow> mark_quote s q QuUnavailable ''unavailable''
      | Some latest \<Rightarrow>
          if \<not> av_available av then mark_quote s q QuUnavailable ''unavailable''
          else if pq_listing latest \<noteq> qu_listing q \<or> pq_check_in latest \<noteq> qu_check_in q
                  \<or> pq_check_out latest \<noteq> qu_check_out q \<or> pq_guests latest \<noteq> qu_guests q
          then mark_quote s q QuInvalidated ''revalidation_mismatch''
          else if pq_currency latest \<noteq> qu_currency q \<or> sv_tolerance v < \<bar>pq_total latest - qu_total q\<bar>
          then replace_quote v s q av (pq_total latest) session
          else create_intent v s q key session selected)"

definition consume_revalidated_quote ::
    "shop_env \<Rightarrow> shop \<Rightarrow> nat \<Rightarrow> string \<Rightarrow> string \<Rightarrow> availability_result \<Rightarrow> string \<Rightarrow> (shop \<times> creation) res" where
  "consume_revalidated_quote v s quote_id session key av selected =
     (case find (\<lambda>i. it_key i = key) (sh_intents s) of
        Some i \<Rightarrow> Inr (s, if it_quote i = quote_id \<and> it_session i = session then idempotent i
                          else code_only ''idempotency_conflict'')
      | None \<Rightarrow>
          bindE (of_option (DoesNotExist ''quote'') (row_get qu_id (sh_quotes s) quote_id)) (\<lambda>q.
            consume_locked v s q session key av selected))"

subsection \<open>The shop as a state machine\<close>

text \<open>Each step runs under its own settings, clock and rates.\<close>

inductive shop_step :: "shop \<Rightarrow> shop \<Rightarrow> bool" where
  step_quote: "create_quote_for_property v s av u session selected = Inr (s', q) \<Longrightarrow> shop_step s s'"
| step_consume: "consume_revalidated_quote v s k session key av selected = Inr (s', r) \<Longrightarrow> shop_step s s'"

inductive_cases shop_stepE: "shop_step s s'"

text \<open>
  The invariant: quotes and intents have keys of their own, no two intents share a quote or an
  idempotency key, and the quote of an intent exists, is no longer active and has the intent's price
  (after a change of the signing key a consumed quote may be marked as invalidated).
\<close>

definition shop_ok :: "shop \<Rightarrow> bool" where
  "shop_ok s = (distinct (map qu_id (sh_quotes s)) \<and> distinct (map it_id (sh_intents s))
     \<and> distinct (map it_quote (sh_intents s)) \<and> distinct (map it_key (sh_intents s))
     \<and> (\<forall>i \<in> set (sh_intents s). \<exists>q \<in> set (sh_quotes s). qu_id q = it_quote i \<and> qu_status q \<noteq> QuActive
          \<and> it_currency i = qu_currency q \<and> it_total i = qu_total q \<and> qu_payment q = Some (it_payment i)))"

lemma create_quote_found:
  assumes "create_quote_for_property v s av u session selected = Inr (s', q)"
  shows "s' = s \<lparr> sh_quotes := sh_quotes s @ [q] \<rparr> \<and> qu_id q = next_quote s \<and> qu_status q = QuActive
    \<and> verify_signature v q"
  using assms
  by (auto simp: create_quote_for_property_def bindE_Inr_iff Let_def verify_signature_def quote_signature_def
      fingerprint_payload_def split: option.splits if_splits)

lemma next_quote_fresh: "q \<in> set (sh_quotes s) \<Longrightarrow> qu_id q < next_quote s"
  unfolding next_quote_def by (intro le_imp_less_Suc Max_ge) auto

lemma next_intent_fresh: "i \<in> set (sh_intents s) \<Longrightarrow> it_id i < next_intent s"
  unfolding next_intent_def by (intro le_imp_less_Suc Max_ge) auto

lemma shop_ok_append:
  assumes "shop_ok s" and "qu_id q = next_quote s"
  shows "shop_ok (s \<lparr> sh_quotes := sh_quotes s @ [q] \<rparr>)"
  using assms next_quote_fresh by (fastforce simp: shop_ok_def)

lemma shop_ok_mark:
  assumes ok: "shop_ok s" and q: "row_get qu_id (sh_quotes s) k = Some q" and st: "st \<noteq> QuActive"
  shows "shop_ok (put_quote s (q \<lparr> qu_status := st \<rparr>))"
proof -
  let ?q = "q \<lparr> qu_status := st \<rparr>"
  have q_in: "q \<in> set (sh_quotes s)" using q by (auto simp: row_get_def dest: find_Some_in)
  have ids: "map qu_id (row_put qu_id (sh_quotes s) ?q) = map qu_id (sh_quotes s)"
    by (simp add: row_put_def)
  have "\<exists>x \<in> set (row_put qu_id (sh_quotes s) ?q). qu_id x = it_quote i \<and> qu_status x \<noteq> QuActive
      \<and> it_currency i = qu_currency x \<and> it_total i = qu_total x \<and> qu_payment x = Some (it_payment i)"
    if i: "i \<in> set (sh_intents s)" for i
  proof -
    obtain x where x: "x \<in> set (sh_quotes s)" "qu_id x = it_quote i" "qu_status x \<noteq> QuActive"
      "it_currency i = qu_currency x" "it_total i = qu_total x" "qu_payment x = Some (it_payment i)"
      using ok i by (auto simp: shop_ok_def)
    show ?thesis
    proof (cases "qu_id x = qu_id q")
      case True
      then have "x = q" using ok x(1) q_in by (auto simp: shop_ok_def distinct_map inj_on_def)
      then show ?thesis using x st by (intro bexI [of _ ?q]) (auto simp: row_put_def image_iff intro!: bexI [of _ q])
    next
      case False
      then show ?thesis using x by (intro bexI [of _ x]) (auto simp: row_put_def image_iff intro!: bexI [of _ x])
    qed
  qed
  then show ?thesis using ok ids by (simp add: shop_ok_def put_quote_def)
qed

lemma create_intent_found:
  assumes run: "create_intent v s q key session selected = Inr (s', r)"
  shows "(\<exists>st. st \<noteq> QuActive \<and> s' = put_quote s (q \<lparr> qu_status := st \<rparr>) \<and> cr_code r \<noteq> ''created'')
    \<or> (s' = s \<and> cr_code r \<noteq> ''created'')
    \<or> (\<exists>paid display shown snapshot. qu_payment q = Some paid
         \<and> cr_intent r = Some (new_intent v s q paid display shown snapshot key session)
         \<and> (\<forall>x \<in> set (sh_intents s). it_quote x \<noteq> qu_id q \<and> it_key x \<noteq> key)
         \<and> s' = put_quote (s \<lparr> sh_intents := sh_intents s @ [new_intent v s q paid display shown snapshot key session] \<rparr>)
                  (q \<lparr> qu_status := QuConsumed \<rparr>))"
  (is "?mark \<or> ?same \<or> ?new")
proof (cases "qu_payment q")
  case None
  then have ?mark using run by (auto simp: create_intent_def mark_quote_def code_only_def)
  then show ?thesis ..
next
  case (Some paid)
  show ?thesis
  proof (cases "qu_snapshot q = []")
    case True
    then have ?mark using run Some by (auto simp: create_intent_def mark_quote_def code_only_def)
    then show ?thesis ..
  next
    case False
    note snap = False
    show ?thesis
    proof (cases "if selected = [] then Inr (qu_display q) else normalize_currency (sv_fx v) (PyStr selected)")
      case (Inl x)
      then have ?same using run Some snap by (auto simp: create_intent_def code_only_def split: if_splits)
      then show ?thesis by simp
    next
      case (Inr display)
      obtain amounts where am: "shown_amount v q paid display = Inr amounts"
        using run Some snap Inr by (cases "shown_amount v q paid display") (simp_all add: create_intent_def)
      show ?thesis
      proof (cases amounts)
        case None
        then have ?same using run Some snap Inr am by (auto simp: create_intent_def code_only_def)
        then show ?thesis by simp
      next
        case (Some a)
        obtain shown snapshot where a: "a = (shown, snapshot)" by (cases a)
        let ?i = "new_intent v s q paid display shown snapshot key session"
        have r: "(if \<not> valid_intent v ?i then Inl (ValidationError ''intent'')
            else if list_ex (\<lambda>x. it_quote x = qu_id q \<or> it_key x = key) (sh_intents s)
            then Inr (s, case own_intent s q key session of Some x \<Rightarrow> idempotent x | None \<Rightarrow> code_only ''duplicate'')
            else Inr (put_quote (s \<lparr> sh_intents := sh_intents s @ [?i] \<rparr>) (q \<lparr> qu_status := QuConsumed \<rparr>),
                      \<lparr> cr_code = ''created'', cr_intent = Some ?i, cr_replacement = None, cr_totals = None \<rparr>))
            = Inr (s', r)"
          using run \<open>qu_payment q = Some paid\<close> snap Inr am Some a by (simp add: create_intent_def Let_def)
        show ?thesis
        proof (cases "list_ex (\<lambda>x. it_quote x = qu_id q \<or> it_key x = key) (sh_intents s)")
          case True
          then have ?same using r by (auto simp: code_only_def idempotent_def split: if_splits option.splits)
          then show ?thesis by simp
        next
          case False
          then have ?new using r \<open>qu_payment q = Some paid\<close>
            by (intro exI [of _ paid] exI [of _ display] exI [of _ shown] exI [of _ snapshot])
              (auto simp: list_ex_iff split: if_splits)
          then show ?thesis by simp
        qed
      qed
    qed
  qed
qed

lemma shop_ok_create:
  assumes ok: "shop_ok s" and q: "row_get qu_id (sh_quotes s) k = Some q" and paid: "qu_payment q = Some paid"
    and fresh: "\<forall>x \<in> set (sh_intents s). it_quote x \<noteq> qu_id q \<and> it_key x \<noteq> key"
  shows "shop_ok (put_quote (s \<lparr> sh_intents := sh_intents s @ [new_intent v s q paid display shown snapshot key session] \<rparr>)
           (q \<lparr> qu_status := QuConsumed \<rparr>))"
proof -
  let ?i = "new_intent v s q paid display shown snapshot key session"
  let ?s = "put_quote s (q \<lparr> qu_status := QuConsumed \<rparr>)"
  have ok': "shop_ok ?s" by (rule shop_ok_mark [OF ok q]) simp
  have q_in: "q \<in> set (sh_quotes s)" using q by (auto simp: row_get_def dest: find_Some_in)
  have i: "it_quote ?i = qu_id q" "it_key ?i = key" "it_currency ?i = qu_currency q" "it_total ?i = qu_total q"
    "it_payment ?i = paid" "it_id ?i = next_intent s"
    by (simp_all add: new_intent_def Let_def)
  have "q \<lparr> qu_status := QuConsumed \<rparr> \<in> set (sh_quotes ?s)"
    using q_in by (auto simp: put_quote_def row_put_def image_iff intro!: bexI [of _ q])
  then have "\<exists>x \<in> set (sh_quotes ?s). qu_id x = it_quote ?i \<and> qu_status x \<noteq> QuActive
      \<and> it_currency ?i = qu_currency x \<and> it_total ?i = qu_total x \<and> qu_payment x = Some (it_payment ?i)"
    using i paid by (intro bexI [of _ "q \<lparr> qu_status := QuConsumed \<rparr>"]) simp_all
  moreover have "it_id ?i \<notin> it_id ` set (sh_intents s)" using next_intent_fresh i by fastforce
  moreover have "it_quote ?i \<notin> it_quote ` set (sh_intents s)" "it_key ?i \<notin> it_key ` set (sh_intents s)"
    using fresh i by auto
  ultimately show ?thesis using ok' by (auto simp: shop_ok_def put_quote_def)
qed

lemma consume_locked_ok:
  assumes ok: "shop_ok s" and q: "row_get qu_id (sh_quotes s) k = Some q"
    and run: "consume_locked v s q session key av selected = Inr (s', r)"
  shows "shop_ok s' \<and> set (sh_intents s) \<subseteq> set (sh_intents s')"
proof -
  have mark: "shop_ok (put_quote s (q \<lparr> qu_status := st \<rparr>))" if "st \<noteq> QuActive" for st
    by (rule shop_ok_mark [OF ok q that])
  have ints [simp]: "sh_intents (put_quote t x) = sh_intents t" for t x by (simp add: put_quote_def)
  consider "s' = s" | st where "st \<noteq> QuActive" "s' = put_quote s (q \<lparr> qu_status := st \<rparr>)"
    | latest where "replace_quote v s q av latest session = Inr (s', r)"
    | "create_intent v s q key session selected = Inr (s', r)"
    using run
    by (auto simp: consume_locked_def mark_quote_def split: option.splits if_splits)
  then show ?thesis
  proof cases
    case 1
    then show ?thesis using ok by simp
  next
    case 2
    then show ?thesis using mark by simp
  next
    case 3
    then obtain u x where "create_quote_for_property v (put_quote s (q \<lparr> qu_status := QuPriceChanged \<rparr>)) av u session
        payment_currency = Inr (s', x)"
      by (auto simp: replace_quote_def bindE_Inr_iff)
    note C = create_quote_found [OF this]
    then show ?thesis using shop_ok_append [OF mark [of QuPriceChanged], of x] by auto
  next
    case 4
    from create_intent_found [OF this] show ?thesis
      using ok mark shop_ok_create [OF ok q] by auto
  qed
qed

lemma consume_ok:
  assumes ok: "shop_ok s" and run: "consume_revalidated_quote v s k session key av selected = Inr (s', r)"
  shows "shop_ok s' \<and> set (sh_intents s) \<subseteq> set (sh_intents s')"
proof (cases "find (\<lambda>i. it_key i = key) (sh_intents s)")
  case None
  then obtain q where "row_get qu_id (sh_quotes s) k = Some q" "consume_locked v s q session key av selected = Inr (s', r)"
    using run by (auto simp: consume_revalidated_quote_def bindE_Inr_iff)
  then show ?thesis using consume_locked_ok [OF ok] by blast
next
  case (Some i)
  then show ?thesis using run ok by (simp add: consume_revalidated_quote_def)
qed

lemma shop_step_ok: "shop_step s s' \<Longrightarrow> shop_ok s \<Longrightarrow> shop_ok s' \<and> set (sh_intents s) \<subseteq> set (sh_intents s')"
proof (induction rule: shop_step.induct)
  case (step_quote v s av u session selected s' q)
  note C = create_quote_found [OF step_quote(1)]
  then show ?case using shop_ok_append [OF step_quote(2), of q] by simp
next
  case (step_consume v s k session key av selected s' r)
  then show ?case by (intro consume_ok)
qed

lemma shop_reachable_ok:
  "shop_step\<^sup>*\<^sup>* s s' \<Longrightarrow> shop_ok s \<Longrightarrow> shop_ok s' \<and> set (sh_intents s) \<subseteq> set (sh_intents s')"
  by (induction rule: rtranclp_induct) (auto dest: shop_step_ok)

subsection \<open>Properties\<close>

lemma find_append: "find P (xs @ ys) = (case find P xs of None \<Rightarrow> find P ys | Some x \<Rightarrow> Some x)"
  by (induction xs) auto

lemma created_parts:
  assumes run: "consume_revalidated_quote v s k session key av selected = Inr (s', r)" and made: "cr_code r = ''created''"
  obtains q latest paid display shown snapshot where "find (\<lambda>i. it_key i = key) (sh_intents s) = None"
    "row_get qu_id (sh_quotes s) k = Some q" "qu_session q = session" "verify_signature v q"
    "qu_status q = QuActive" "sv_now v < qu_expires_at q" "av_available av" "av_quote av = Some latest"
    "pq_currency latest = qu_currency q" "\<bar>pq_total latest - qu_total q\<bar> \<le> sv_tolerance v"
    "qu_payment q = Some paid"
    "cr_intent r = Some (new_intent v s q paid display shown snapshot key session)"
    "s' = put_quote (s \<lparr> sh_intents := sh_intents s @ [new_intent v s q paid display shown snapshot key session] \<rparr>)
            (q \<lparr> qu_status := QuConsumed \<rparr>)"
proof -
  have fresh: "find (\<lambda>i. it_key i = key) (sh_intents s) = None"
    using run made
    by (cases "find (\<lambda>i. it_key i = key) (sh_intents s)")
      (auto simp: consume_revalidated_quote_def idempotent_def code_only_def split: if_splits)
  then obtain q where q: "row_get qu_id (sh_quotes s) k = Some q" and locked: "consume_locked v s q session key av selected = Inr (s', r)"
    using run by (auto simp: consume_revalidated_quote_def bindE_Inr_iff)
  have session: "qu_session q = session" "verify_signature v q" "qu_status q = QuActive" "sv_now v < qu_expires_at q"
    using locked made
    by (auto simp: consume_locked_def mark_quote_def code_only_def idempotent_def split: if_splits option.splits)
  obtain latest where latest: "av_quote av = Some latest" "av_available av"
    using locked made session by (auto simp: consume_locked_def mark_quote_def code_only_def split: if_splits option.splits)
  have price: "pq_currency latest = qu_currency q" "\<bar>pq_total latest - qu_total q\<bar> \<le> sv_tolerance v"
    and create: "create_intent v s q key session selected = Inr (s', r)"
    using locked made session latest
    by (auto simp: consume_locked_def mark_quote_def code_only_def replace_quote_def bindE_Inr_iff split: if_splits)
  from create_intent_found [OF create] made obtain paid display shown snapshot where "qu_payment q = Some paid"
    "cr_intent r = Some (new_intent v s q paid display shown snapshot key session)"
    "s' = put_quote (s \<lparr> sh_intents := sh_intents s @ [new_intent v s q paid display shown snapshot key session] \<rparr>)
            (q \<lparr> qu_status := QuConsumed \<rparr>)"
    by auto
  then show thesis using fresh q session latest price that by blast
qed

lemma created_active:
  assumes "consume_revalidated_quote v s k session key av selected = Inr (s', r)" and "cr_code r = ''created''"
  shows "\<exists>q. row_get qu_id (sh_quotes s) k = Some q \<and> qu_status q = QuActive"
proof (rule created_parts [OF assms])
  fix q assume "row_get qu_id (sh_quotes s) k = Some q" "qu_status q = QuActive"
  then show ?thesis by simp
qed


definition sample_shop_env :: shop_env where
  "sample_shop_env = \<lparr> sv_fx = base_fx, sv_now = 1000, sv_quote_ttl = 1800, sv_intent_ttl = 900, sv_tolerance = 1 / 100,
     sv_hmac = (\<lambda>d. ''signed''), sv_label = (\<lambda>c. pc_type c), sv_rates = Inl (ValueError ''offline''),
     sv_units = (\<lambda>n. None), valid_intent = (\<lambda>i. True) \<rparr>"

definition sample_quote_row :: quote_row where
  "sample_quote_row = \<lparr> qu_id = 1, qu_property = 1, qu_listing = 5, qu_check_in = 101, qu_check_out = 103, qu_nights = 2,
     qu_guests = 2, qu_currency = ''SAR'', qu_total = 900, qu_payment = Some 900, qu_display = ''SAR'',
     qu_snapshot = [(''provider'', PyStr ''identity'')], qu_components = [], qu_night_prices = None,
     qu_signature = ''signed'', qu_session = ''guest'', qu_status = QuActive, qu_expires_at = 2000, qu_calculated_at = 7 \<rparr>"

definition sample_shop :: shop where
  "sample_shop = \<lparr> sh_quotes = [sample_quote_row], sh_intents = [] \<rparr>"

definition sample_answer :: availability_result where
  "sample_answer = \<lparr> av_available = True, av_reason = ''available'', av_nights = 2, av_quote = Some sample_quote_document,
     av_calendar = Some month_calendar, av_calendar_hit = False, av_price_hit = False \<rparr>"

lemma sample_shown: "shown_amount sample_shop_env sample_quote_row 900 ''SAR'' = Inr (Some (900, qu_snapshot sample_quote_row))"
proof -
  have "sar_to_display base_fx (PyDec (Fin 900)) (PyStr ''SAR'') (RatesMapping (qu_snapshot sample_quote_row)) = Inr 900"
    by code_simp
  then show ?thesis by (simp add: shown_amount_def sample_shop_env_def)
qed

lemma sample_consumed: "\<exists>s' r. consume_revalidated_quote sample_shop_env sample_shop 1 ''guest'' ''key'' sample_answer []
    = Inr (s', r) \<and> cr_code r = ''created'' \<and> sh_intents s' \<noteq> []"
proof -
  have locked: "consume_locked sample_shop_env sample_shop sample_quote_row ''guest'' ''key'' sample_answer []
    = create_intent sample_shop_env sample_shop sample_quote_row ''key'' ''guest'' []"
    by (simp add: consume_locked_def sample_quote_row_def verify_signature_def quote_signature_def sample_shop_env_def
        sample_answer_def sample_quote_document_def)
  have "create_intent sample_shop_env sample_shop sample_quote_row ''key'' ''guest'' [] = Inr
      (let i = new_intent sample_shop_env sample_shop sample_quote_row 900 ''SAR'' 900 (qu_snapshot sample_quote_row) ''key'' ''guest''
       in (put_quote (sample_shop \<lparr> sh_intents := [i] \<rparr>) (sample_quote_row \<lparr> qu_status := QuConsumed \<rparr>),
           \<lparr> cr_code = ''created'', cr_intent = Some i, cr_replacement = None, cr_totals = None \<rparr>))"
  proof -
    have q: "qu_payment sample_quote_row = Some 900" "qu_snapshot sample_quote_row \<noteq> []" "qu_display sample_quote_row = ''SAR''"
      by (simp_all add: sample_quote_row_def)
    have v: "valid_intent sample_shop_env i" "sh_intents sample_shop = []" for i
      by (simp_all add: sample_shop_env_def sample_shop_def)
    show ?thesis using q v by (simp add: create_intent_def sample_shown Let_def)
  qed
  then show ?thesis using locked by (simp add: consume_revalidated_quote_def sample_shop_def Let_def row_get_def
        sample_quote_row_def of_option_def put_quote_def)
qed




lemma mset_sort_sum: "sum_list (map f (sort_key key xs)) = sum_list (map (f :: 'a \<Rightarrow> rat) xs)"
proof -
  have "mset (map f (sort_key key xs)) = mset (map f xs)" by simp
  then show ?thesis by (metis sum_mset_sum_list)
qed

lemma consecutive_dates:
  assumes "cd_date ` set rows = (\<lambda>n. i + int n) ` {0..<n}" and "length rows = n"
  shows "map cd_date (sort_key cd_date rows) = map (\<lambda>m. i + int m) [0..<n]"
proof (rule sorted_distinct_set_unique)
  have "card (set (map cd_date rows)) = n" using assms(1) by (simp add: card_image inj_on_def)
  then have "distinct (map cd_date rows)" using assms(2) by (intro card_distinct) simp
  moreover have "mset (map cd_date (sort_key cd_date rows)) = mset (map cd_date rows)" by simp
  ultimately show "distinct (map cd_date (sort_key cd_date rows))" using mset_eq_imp_distinct_iff by blast
  show "sorted (map cd_date (sort_key cd_date rows))" by simp
qed (use assms in \<open>auto simp: sorted_map distinct_map inj_on_def sorted_wrt_map sorted_wrt_upt sorted_wrt_iff_nth_less\<close>)

lemma priced_nights_found:
  assumes "priced_nights label (Some q) (Some doc) = Inr (Some p)"
  obtains rows where "p = captured q rows" "int (length rows) = pq_nights q"
    "cd_date ` set rows = (\<lambda>n. pq_check_in q + int n) ` {0..<nat (pq_nights q)}"
    "sum_list (map day_price rows) = pq_total q"
proof -
  let ?rows = "filter (\<lambda>c. pq_check_in q \<le> cd_date c \<and> cd_date c < pq_check_out q) (cal_days doc)"
  have "p = captured q ?rows \<and> int (length ?rows) = pq_nights q
    \<and> cd_date ` set ?rows = (\<lambda>n. pq_check_in q + int n) ` {0..<nat (pq_nights q)}
    \<and> sum_list (map day_price ?rows) = pq_total q"
    using assms by (auto simp: priced_nights_def bindE_Inr_iff Let_def split: if_splits)
  then show thesis using that by blast
qed

text \<open>The night prices captured with an offer serve the early departure. For a booking made from
  a quote that captured its nights, with the quote's dates, total and currency, the check that an
  early departure makes of the night prices (every night of the stay in order, values adding up to
  the contract, the currency) always succeeds and gives exactly the captured prices.\<close>

lemma captured_nights_accepted:
  assumes "priced_nights label (Some q) (Some doc) = Inr (Some p)"
    and "bk_intent b = Some i" and "sq_nights (in_quote i) = Some p" and "ls_priced (bk_loyalty b) = None"
    and "sq_check_in (in_quote i) = pq_check_in q" and "sq_check_out (in_quote i) = pq_check_out q"
    and "sq_total (in_quote i) = pq_total q" and "pq_nights q = pq_check_out q - pq_check_in q"
    and "bk_check_in b = pq_check_in q" and "bk_check_out b = pq_check_out q"
    and "bk_total b = pq_total q" and "bk_currency b = pq_currency q"
  shows "verified_nights b = Inr p"
proof -
  obtain rows where p: "p = captured q rows" and n: "int (length rows) = pq_nights q"
    and dates: "cd_date ` set rows = (\<lambda>n. pq_check_in q + int n) ` {0..<nat (pq_nights q)}"
    and sum: "sum_list (map day_price rows) = pq_total q"
    using priced_nights_found [OF assms(1)] by blast
  let ?rows = "sort_key cd_date rows"
  have c: "contract_nights b = Some p" using assms by (simp add: contract_nights_def Let_def)
  have "map cd_date ?rows = map (\<lambda>m. pq_check_in q + int m) [0..<nat (pq_nights q)]"
    by (rule consecutive_dates [OF dates]) (use n in simp)
  then have "map isoformat (map cd_date ?rows) = stay_dates b"
    using assms by (simp add: stay_dates_def)
  then have d: "map night_date (pr_nights p) = stay_dates b" by (simp add: p captured_def comp_def)
  have "mapE (\<lambda>n. of_option (DecimalError ''ConversionSyntax'') (to_decimal (night_value n))) (pr_nights p)
      = Inr (map (\<lambda>n. case night_value n of PyDecText x \<Rightarrow> Fin x | _ \<Rightarrow> NaN) (pr_nights p))"
    by (rule mapE_total) (auto simp: p captured_def of_option_def)
  moreover have "finite_sum (map (\<lambda>n. case night_value n of PyDecText x \<Rightarrow> Fin x | _ \<Rightarrow> NaN) (pr_nights p))
      = Some (pq_total q)"
    using sum by (simp add: p captured_def finite_sum_def is_finite_def list_all_iff comp_def mset_sort_sum)
  ultimately show ?thesis using c d assms by (simp add: verified_nights_def p captured_def)
qed

definition two_nights_offer :: price_quote where
  "two_nights_offer = sample_quote_document \<lparr> pq_check_in := 719163, pq_check_out := 719165, pq_total := 1000,
     pq_components := [\<lparr> pc_setting = None, pc_type = ''baseRate'', pc_name = ''base'', pc_title = [], pc_alias = [],
       pc_quantity = None, pc_value = 1000, pc_total = Some 1000, pc_included = Some True, pc_overridden = None,
       pc_mandatory = None, pc_deleted = Some False \<rparr>] \<rparr>"

definition two_nights_calendar :: calendar_document where
  "two_nights_calendar = month_calendar \<lparr> cal_days :=
     [free_day 719164 \<lparr> cd_price := Some 600 \<rparr>, free_day 719163 \<lparr> cd_price := Some 400 \<rparr>] \<rparr>"

definition two_nights :: priced where
  "two_nights = \<lparr> pr_currency = ''SAR'', pr_reference = ''offer:5'', pr_nights =
     [\<lparr> night_date = ''1970-01-01'', night_value = PyDecText 400 \<rparr>,
      \<lparr> night_date = ''1970-01-02'', night_value = PyDecText 600 \<rparr>] \<rparr>"

lemma two_nights_captured: "priced_nights (\<lambda>c. ''base'') (Some two_nights_offer) (Some two_nights_calendar) = Inr (Some two_nights)"
  by code_simp

definition quoted_booking :: booking where
  "quoted_booking = sample_booking \<lparr> bk_intent := Some (sample_intent \<lparr> in_quote := (in_quote sample_intent)
     \<lparr> sq_nights := Some two_nights, sq_check_in := 719163, sq_check_out := 719165, sq_total := 1000 \<rparr> \<rparr>) \<rparr>"

lemma captured_nights_accepted_at: "verified_nights quoted_booking = Inr two_nights"
  by (rule captured_nights_accepted [OF two_nights_captured, where i = "the (bk_intent quoted_booking)"])
    (simp_all add: quoted_booking_def sample_intent_def sample_booking_def two_nights_offer_def
      sample_quote_document_def blank_loyalty_def)

end
