(* ===== verification/ChangeRules.thy ===== *)
theory ChangeRules
  imports Quotes
begin

section \<open>What a change of a stay may cost and when a stay can end\<close>

text \<open>
  The cutoff of a cancellation (apps/reservations/services/stay\_lifecycle.py), the settlement of a
  change the owner has priced (apps/reservations/services/owner\_settlement.py), and the marks of a
  change that can still be carried out.
\<close>

definition closed_statuses :: "stay_status list" where
  "closed_statuses = [Cancelled, Declined, ExpiredStay]"

subsection \<open>The end of a stay\<close>

text \<open>The fields of the unit that the cutoff reads.\<close>

record stay_clock =
  ck_country :: string
  ck_zone :: string
  ck_display_out :: "int option"
  ck_out :: "int option"

definition valid_hour :: "int option \<Rightarrow> bool" where
  "valid_hour h = (case h of None \<Rightarrow> False | Some n \<Rightarrow> 0 \<le> n \<and> n \<le> 24)"

definition checkout_hour :: "stay_clock option \<Rightarrow> int" where
  "checkout_hour k = (case k of None \<Rightarrow> 12
     | Some c \<Rightarrow> if valid_hour (ck_display_out c) then the (ck_display_out c)
                 else if valid_hour (ck_out c) then the (ck_out c) else 12)"

definition fallback_zone :: "stay_clock option \<Rightarrow> string" where
  "fallback_zone k =
     (if map_option (\<lambda>c. map upper_char (strip (ck_country c))) k = Some ''MA'' then ''Africa/Casablanca'' else ''Asia/Riyadh'')"

text \<open>The zone of the unit, or the fallback when it names none or an unknown one.\<close>

definition stay_zone :: "env \<Rightarrow> stay_clock option \<Rightarrow> (int \<Rightarrow> instant) res" where
  "stay_zone e k =
     (let name = (case k of None \<Rightarrow> [] | Some c \<Rightarrow> strip (ck_zone c)) in
      case zone_instant e (if name = [] then fallback_zone k else name) of
        Some f \<Rightarrow> Inr f
      | None \<Rightarrow> of_option (KeyError ''zone'') (zone_instant e (fallback_zone k)))"

definition checkout_datetime :: "env \<Rightarrow> stay_clock option \<Rightarrow> booking \<Rightarrow> instant res" where
  "checkout_datetime e k b = bindE (stay_zone e k) (\<lambda>f. Inr (f (wall_clock (bk_check_out b) (checkout_hour k))))"

text \<open>
  No status of a reservation is the text \<open>completed\<close>, so only the remote one can be. The clock is
  read when no moment is given.
\<close>

definition unconfirmed_direct :: "booking \<Rightarrow> bool" where
  "unconfirmed_direct b = (bk_source b = DirectWebsite \<and> bk_status b \<notin> set active_statuses
     \<and> bk_status b \<notin> set closed_statuses \<and> bk_remote b = None)"

definition cancellation_blocker :: "env \<Rightarrow> stay_clock option \<Rightarrow> booking \<Rightarrow> string res" where
  "cancellation_blocker e k b =
     (if casefold (strip (bk_remote_status b)) = ''completed'' then Inr ''reservation_stay_completed''
      else if unconfirmed_direct b then Inr []
      else bindE (checkout_datetime e k b) (\<lambda>t. Inr (if t \<le> now e then ''reservation_stay_completed'' else [])))"

subsection \<open>The settlement of a change priced by the owner\<close>

record owner_settlement =
  os_paid :: rat
  os_due :: rat
  os_refund :: rat

definition is_validation_error :: "exc \<Rightarrow> bool" where
  "is_validation_error x = (case x of ValidationError s \<Rightarrow> True | _ \<Rightarrow> False)"

definition intent_payments :: "booking \<Rightarrow> payment list" where
  "intent_payments b = (case bk_intent b of None \<Rightarrow> [] | Some i \<Rightarrow> in_payments i)"

definition foreign_collection :: "booking \<Rightarrow> bool" where
  "foreign_collection b = list_ex (\<lambda>p. pa_status p \<in> {PaSucceeded, PaPartiallyRefunded} \<and> pa_verified_at p \<noteq> None
     \<and> pa_currency p \<noteq> bk_currency b) (intent_payments b)"

definition pending_refund :: "booking \<Rightarrow> bool" where
  "pending_refund b = list_ex (\<lambda>r. ob_status r \<in> {RefundDue, RefundProcessing} \<and> 0 < ob_amount r) (bk_refunds b)"

definition settlement_blocker :: "env \<Rightarrow> db \<Rightarrow> booking \<Rightarrow> string res" where
  "settlement_blocker e d b =
     bindE (eligible e d b) (\<lambda>loyal.
     let loyalty_fx = (loyal \<and> bk_currency b \<noteq> ''SAR'');
         rest = (if \<not> loyalty_fx \<and> foreign_collection b then Inr ''payment_currency_reconciliation_required''
                 else if pending_refund b then Inr ''previous_refund_requires_reconciliation'' else Inr [])
     in if loyalty_fx then
          (case total_sar (fx e) b of
             Inl x \<Rightarrow> if is_validation_error x then Inr ''payment_currency_reconciliation_required'' else Inl x
           | Inr v \<Rightarrow> rest)
        else rest)"

text \<open>What was collected in the booking's currency, less what was returned or is on its way back.\<close>

definition collected :: "booking \<Rightarrow> rat" where
  "collected b =
     sum_list (map pa_amount (filter (\<lambda>p. pa_status p \<in> {PaSucceeded, PaPartiallyRefunded, PaRefunded}
        \<and> pa_verified_at p \<noteq> None \<and> pa_currency p = bk_currency b) (intent_payments b)))
     + (case bk_offline b of
          Some r \<Rightarrow> if or_payment r = None \<and> or_currency r = bk_currency b then or_amount r else 0
        | None \<Rightarrow> 0)"

definition net_collected :: "booking \<Rightarrow> rat" where
  "net_collected b = max (collected b - sum_list (map ob_amount (in_flight b (bk_currency b)))) 0"

definition settlement_for :: "env \<Rightarrow> db \<Rightarrow> booking \<Rightarrow> rat \<Rightarrow> owner_settlement res" where
  "settlement_for e d b final_total =
     bindE (eligible e d b) (\<lambda>loyal.
     bindE (if loyal then bindE (funding e b) (\<lambda>(cash, points). to_source (fx e) b (cash + points))
            else Inr (net_collected b)) (\<lambda>paid.
       Inr \<lparr> os_paid = paid, os_due = max (final_total - paid) 0, os_refund = max (paid - final_total) 0 \<rparr>))"

subsection \<open>The latest change of a reservation\<close>

text \<open>The first by \<open>-requested_at, -pk\<close> of the changes that are no cancellation.\<close>

definition later_change :: "modification \<Rightarrow> modification \<Rightarrow> bool" where
  "later_change m m' = (mo_requested_at m < mo_requested_at m'
     \<or> (mo_requested_at m = mo_requested_at m' \<and> mo_id m < mo_id m'))"

definition latest_change :: "booking \<Rightarrow> modification option" where
  "latest_change b = foldl (\<lambda>acc m. case acc of None \<Rightarrow> Some m
       | Some x \<Rightarrow> if later_change x m then Some m else Some x) None
     (filter (\<lambda>m. mo_type m \<noteq> CancelReservation) (bk_modifications b))"

definition is_expired :: "env \<Rightarrow> modification \<Rightarrow> bool" where
  "is_expired e m = (mo_expires_at m \<le> now e)"

definition unchanged_stay :: "booking \<Rightarrow> modification \<Rightarrow> bool" where
  "unchanged_stay b m = (bk_check_in b = mo_old_check_in m \<and> bk_check_out b = mo_old_check_out m
     \<and> bk_guests b = mo_old_guests m \<and> bk_total b = mo_old_total m)"

text \<open>\<open>modification.quote_snapshot.get("owner_final_total") is not None\<close>.\<close>

definition owner_priced :: "modification \<Rightarrow> bool" where
  "owner_priced m = (dget (mo_snapshot m) ''owner_final_total'' \<noteq> PyNone)"

definition owner_change_blocker :: "env \<Rightarrow> db \<Rightarrow> booking \<Rightarrow> modification \<Rightarrow> bool \<Rightarrow> string res" where
  "owner_change_blocker e d b m completed =
     (if mo_type m = CancelReservation then Inr ''not_price_editable''
      else if \<not> owner_priced m then Inr ''final_price_required''
      else if map_option mo_id (latest_change b) \<noteq> Some (mo_id m) then Inr ''modification_superseded''
      else bindE (settlement_blocker e d b) (\<lambda>blocker.
        if blocker \<noteq> [] then Inr blocker
        else if bk_status b \<notin> {Confirmed, Modified} then Inr ''reservation_not_confirmed''
        else if completed \<and> mo_completed m then
          Inr (if Some (bk_check_in b) \<noteq> mo_new_check_in m \<or> Some (bk_check_out b) \<noteq> mo_new_check_out m
                  \<or> Some (bk_total b) \<noteq> mo_new_total m then ''reservation_changed'' else [])
        else if is_expired e m then Inr ''expired''
        else if mo_status m \<notin> {ChReady, ChAwaitingPayment} then Inr ''modification_not_eligible''
        else if \<not> unchanged_stay b m \<or> bk_currency b \<noteq> mo_currency m then Inr ''reservation_changed''
        else Inr []))"

subsection \<open>Facts\<close>

lemma settlement_shape:
  assumes "settlement_for e d b final_total = Inr s"
  shows "\<exists>paid. s = \<lparr> os_paid = paid, os_due = max (final_total - paid) 0, os_refund = max (paid - final_total) 0 \<rparr>"
  using assms unfolding settlement_for_def bindE_Inr_iff by blast

text \<open>What is owed and what is due bring the money paid to the price, and never both at once.\<close>

lemma settlement_balanced:
  assumes "settlement_for e d b final_total = Inr s"
  shows "os_paid s + os_due s = final_total + os_refund s \<and> (os_due s = 0 \<or> os_refund s = 0)
     \<and> 0 \<le> os_due s \<and> 0 \<le> os_refund s"
  using settlement_shape [OF assms] by (auto simp: max_def split: if_splits)

lemma settlement_refund_within:
  assumes "settlement_for e d b final_total = Inr s" and "0 \<le> final_total" and "0 \<le> os_paid s"
  shows "os_refund s \<le> os_paid s"
  using settlement_shape [OF assms(1)] assms(2,3) by (auto simp: max_def)

lemma later_change_trans: "later_change x y \<Longrightarrow> later_change y z \<Longrightarrow> later_change x z"
  by (auto simp: later_change_def)

text \<open>The latest change is one of the changes, and no other was requested after it.\<close>

lemma latest_change_fold:
  assumes "foldl (\<lambda>acc m. case acc of None \<Rightarrow> Some m | Some x \<Rightarrow> if later_change x m then Some m else Some x) acc ms = Some y"
  shows "(acc = Some y \<or> y \<in> set ms) \<and> (\<forall>x \<in> set ms. \<not> later_change y x)
     \<and> (case acc of None \<Rightarrow> True | Some a \<Rightarrow> \<not> later_change y a)"
  using assms
proof (induction ms arbitrary: acc)
  case Nil
  then show ?case by (auto simp: later_change_def)
next
  case (Cons m ms)
  define next_acc where "next_acc = (case acc of None \<Rightarrow> Some m | Some x \<Rightarrow> if later_change x m then Some m else Some x)"
  have "foldl (\<lambda>acc m. case acc of None \<Rightarrow> Some m | Some x \<Rightarrow> if later_change x m then Some m else Some x) next_acc ms = Some y"
    using Cons.prems by (simp add: next_acc_def)
  note IH = Cons.IH [OF this]
  show ?case
    using IH later_change_trans by (auto simp: next_acc_def split: option.splits if_splits) (auto simp: later_change_def)
qed

lemma latest_change_Some:
  assumes "latest_change b = Some y"
  shows "y \<in> set (bk_modifications b)" and "mo_type y \<noteq> CancelReservation"
    and "m \<in> set (bk_modifications b) \<Longrightarrow> mo_type m \<noteq> CancelReservation \<Longrightarrow> \<not> later_change y m"
  using latest_change_fold [OF assms [unfolded latest_change_def]] by auto

text \<open>A stay that has started at the channel manager can be cancelled until its checkout, and no longer.\<close>

lemma cancellation_open_until_checkout:
  assumes "checkout_datetime e k b = Inr t" and "casefold (strip (bk_remote_status b)) \<noteq> ''completed''"
    and "bk_remote b \<noteq> None"
  shows "cancellation_blocker e k b = Inr [] \<longleftrightarrow> now e < t"
  using assms by (auto simp: cancellation_blocker_def unconfirmed_direct_def)

end
