(* ===== verification/Changes.thy ===== *)
theory Changes
  imports ChangeRules
begin

section \<open>Requests to change or cancel a stay (apps/reservations/services/modifications.py)\<close>

text \<open>
  A guest or the owner asks for other dates, other guests or a cancellation: the request is priced
  by the channel manager, kept with its price, and priced again before it is paid or carried out.
  A call first reads (\<open>plan_\<close>), then drafts a request, and saves it under a lock of the reservation;
  the three parts are separate, because other calls may come in between. The channel manager's
  client, the rates, the labels of price components, the digests and the apartments are parameters;
  what the availability service keeps in its cache is left out (every call here bypasses it), and so
  are the reason the guest gives and the notifications.
\<close>

record apartment =
  ap_rental :: rental
  ap_listing :: listing
  ap_clock :: stay_clock

record change_world =
  xw_unit :: "nat \<Rightarrow> apartment option"
  xw_channel :: channel
  xw_today :: date
  xw_overnight :: "nat \<Rightarrow> date \<Rightarrow> date \<Rightarrow> bool"
  xw_rates :: "rate_snapshot res"
  xw_label :: "price_component \<Rightarrow> string"
  xw_digest :: "nat \<Rightarrow> modification_type \<Rightarrow> date option \<Rightarrow> date option \<Rightarrow> int option \<Rightarrow> string \<Rightarrow> string"
  xw_fresh :: string
  xw_refunds :: refund_settings
  xw_max_nights :: int
  xw_cutoff_hours :: int
  xw_ttl :: int
  xw_automatic :: bool
  xw_requests :: bool
  xw_auto_cancel :: bool
  xw_auto_refund :: bool

definition unit_clock :: "change_world \<Rightarrow> booking \<Rightarrow> stay_clock option" where
  "unit_clock w b = map_option ap_clock (xw_unit w (bk_property b))"

subsection \<open>Who may ask\<close>

text \<open>The programme is asked only when the status does not decide already.\<close>

definition base_blocker :: "change_world \<Rightarrow> env \<Rightarrow> db \<Rightarrow> booking \<Rightarrow> string \<Rightarrow> bool \<Rightarrow> string res" where
  "base_blocker w e d b session owner =
     bindE (if bk_status b = Confirmed \<or> owner then Inr False else eligible e d b) (\<lambda>loyal.
     Inr (if bk_status b \<noteq> Confirmed \<and> \<not> ((owner \<or> loyal) \<and> bk_status b = Modified)
             \<and> \<not> (owner \<and> bk_status b = ReadyForHostaway \<and> bk_remote b = None)
          then ''reservation_not_confirmed''
          else if bk_source b \<noteq> DirectWebsite then ''external_channel_requires_admin''
          else case (bk_intent b, xw_unit w (bk_property b)) of
            (Some i, Some u) \<Rightarrow> if \<not> owner \<and> in_session i \<noteq> session then ''not_found'' else []
          | _ \<Rightarrow> ''direct_reservation_context_missing''))"

subsection \<open>Pricing a change\<close>

datatype offer =
    Refused string
  | Offered modification_type date date int price_quote "priced option"

text \<open>A night of the contract as a day of a calendar; the prices kept with a booking are finite.\<close>

definition contract_day :: "night \<Rightarrow> calendar_day res" where
  "contract_day n =
     bindE (of_option (ValueError ''fromisoformat'') (date_fromisoformat (night_date n))) (\<lambda>x.
     bindE (of_option (DecimalError ''ConversionSyntax'') (to_decimal (night_value n))) (\<lambda>v.
       case v of
         Fin q \<Rightarrow> Inr \<lparr> cd_date = x, cd_available = None, cd_price = Some q, cd_min = None, cd_max = None,
           cd_closed_arrival = None, cd_closed_departure = None, cd_status = ''contract'', cd_count = None,
           cd_to_sell = None, cd_reserved = None, cd_pending = None, cd_blocked = None, cd_blocking = None,
           cd_desired = None, cd_processed = None, cd_resources = False \<rparr>
       | _ \<Rightarrow> Inl (DecimalError ''InvalidOperation'')))"

definition extension_nights :: "change_world \<Rightarrow> booking \<Rightarrow> calendar_document \<Rightarrow> price_quote \<Rightarrow> priced option res" where
  "extension_nights w b doc q =
     (case ls_priced (bk_loyalty b) of
        None \<Rightarrow> Inr None
      | Some saved \<Rightarrow>
          if pr_currency saved \<noteq> pq_currency q then Inr None
          else bindE (mapE contract_day (pr_nights saved)) (\<lambda>prior.
            let added = filter (\<lambda>c. bk_check_out b \<le> cd_date c \<and> cd_date c < pq_check_out q) (cal_days doc)
            in priced_nights (xw_label w) (Some q) (Some \<lparr> cal_days = prior @ added, cal_fields = [], cal_types = [], cal_resources = False \<rparr>)))"

text \<open>
  The calendar from the present departure on, and the price of the whole stay: the answer, or the
  code of a refusal. \<open>HostawayError\<close> and \<open>ValueError\<close> become the same refusal.
\<close>

definition temporarily :: "exc \<Rightarrow> (string + 'a) res" where
  "temporarily x = (if is_hostaway_error x \<or> is_value_error x then Inr (Inl ''hostaway_temporarily_unavailable'') else Inl x)"

definition extension_price ::
    "change_world \<Rightarrow> booking \<Rightarrow> rental \<Rightarrow> date \<Rightarrow> date \<Rightarrow> int \<Rightarrow> (string + calendar_document \<times> price_quote) res" where
  "extension_price w b p i j guests =
     (case ch_calendar (xw_channel w) (rn_listing p) (bk_check_out b) j of
        Inl x \<Rightarrow> temporarily x
      | Inr doc \<Rightarrow>
          let reason = evaluate_calendar (cal_days doc) (bk_check_out b) j (Some (bk_check_in b)) in
          if reason \<noteq> ''available'' then Inr (Inl reason)
          else (case ch_price (xw_channel w) (rn_listing p) i j guests True (rn_override p) of
              Inl x \<Rightarrow> temporarily x
            | Inr q \<Rightarrow> Inr (Inr (doc, q))))"

definition arrival_of :: "change_world \<Rightarrow> env \<Rightarrow> apartment \<Rightarrow> booking \<Rightarrow> instant" where
  "arrival_of w e u b = check_in_datetime e (xw_refunds w) (ap_listing u) (bk_check_in b)"

definition plan_extension :: "change_world \<Rightarrow> env \<Rightarrow> db \<Rightarrow> booking \<Rightarrow> string \<Rightarrow> date \<Rightarrow> bool \<Rightarrow> offer res" where
  "plan_extension w e d b session j owner =
     bindE (base_blocker w e d b session owner) (\<lambda>blocker.
     case xw_unit w (bk_property b) of
       None \<Rightarrow> Inr (Refused blocker)
     | Some u \<Rightarrow>
         if blocker \<noteq> [] then Inr (Refused blocker)
         else let late = (rs_flexible (xw_refunds w) \<and> \<not> owner \<and> arrival_of w e u b \<le> now e) in
         bindE (if late then eligible e d b else Inr True) (\<lambda>loyal.
         if late \<and> \<not> loyal then Inr (Refused ''cancellation_after_check_in_not_allowed'')
         else if j \<le> bk_check_out b then Inr (Refused ''extension_must_add_nights'')
         else if xw_max_nights w < j - bk_check_out b then Inr (Refused ''extension_limit_exceeded'')
         else let refusal = policy_blocker e (xw_refunds w) (Some (ap_listing u)) (bk_check_in b) j False (now e) in
         if refusal \<noteq> [] then Inr (Refused refusal)
         else bindE (extension_price w b (ap_rental u) (bk_check_in b) j (bk_guests b)) (\<lambda>price.
         case price of
           Inl code \<Rightarrow> Inr (Refused code)
         | Inr (doc, q) \<Rightarrow> bindE (extension_nights w b doc q) (\<lambda>nights.
             Inr (Offered ExtendStay (bk_check_in b) j (bk_guests b) q nights)))))"

text \<open>The check of the availability service, past its cache.\<close>

definition checked_stay :: "change_world \<Rightarrow> nat \<Rightarrow> rental \<Rightarrow> date \<Rightarrow> date \<Rightarrow> int \<Rightarrow> availability_result res" where
  "checked_stay w n p i j guests =
     snd (check_stay (xw_channel w) (xw_today w) (xw_overnight w n) \<lparr> sc_calendar = [], sc_price = [] \<rparr>
       \<lparr> sr_rental = p, sr_check_in = Some i, sr_check_out = Some j, sr_guests = PyInt guests \<rparr> True)"

definition plan_change ::
    "change_world \<Rightarrow> env \<Rightarrow> db \<Rightarrow> booking \<Rightarrow> string \<Rightarrow> date \<Rightarrow> date \<Rightarrow> int \<Rightarrow> bool \<Rightarrow> offer res" where
  "plan_change w e d b session i j guests owner =
     bindE (base_blocker w e d b session owner) (\<lambda>blocker.
     case xw_unit w (bk_property b) of
       None \<Rightarrow> Inr (Refused blocker)
     | Some u \<Rightarrow>
         if blocker \<noteq> [] then Inr (Refused blocker)
         else if i = bk_check_in b \<and> guests = bk_guests b \<and> bk_check_out b < j
         then plan_extension w e d b session j owner
         else if j \<le> i then Inr (Refused ''invalid_dates'')
         else if guests \<le> 0 then Inr (Refused ''invalid_guests'')
         else let refusal = policy_blocker e (xw_refunds w) (Some (ap_listing u)) i j True (now e) in
         if refusal \<noteq> [] then Inr (Refused refusal)
         else if set_and (rn_capacity (ap_rental u)) (\<lambda>c. c < guests) then Inr (Refused ''capacity_exceeded'')
         else let kind = (if i = bk_check_in b \<and> j = bk_check_out b then ChangeGuests else ChangeDates) in
         bindE (checked_stay w (bk_property b) (ap_rental u) i j guests) (\<lambda>a.
         case (av_available a, av_quote a) of
           (True, Some q) \<Rightarrow> bindE (priced_nights (xw_label w) (av_quote a) (av_calendar a)) (\<lambda>nights.
             Inr (Offered kind i j guests q nights))
         | _ \<Rightarrow> Inr (Refused (av_reason a))))"

subsection \<open>Drafting a request\<close>

definition all_changes :: "db \<Rightarrow> modification list" where
  "all_changes d = concat (map bk_modifications (db_bookings d))"

definition next_change :: "db \<Rightarrow> nat" where
  "next_change d = Suc (Max (insert 0 (set (map mo_id (all_changes d)))))"

definition change_of_key :: "db \<Rightarrow> string \<Rightarrow> modification option" where
  "change_of_key d key = find (\<lambda>m. mo_key m = key) (all_changes d)"

definition operational_component :: "price_component \<Rightarrow> pyval" where
  "operational_component c = PyDict
     [(''listing_fee_setting_id'', case pc_setting c of None \<Rightarrow> PyNone | Some n \<Rightarrow> PyInt n),
      (''type'', PyStr (take 50 (pc_type c))), (''name'', PyStr (take 100 (pc_name c))),
      (''title'', PyStr (take 200 (pc_title c))), (''alias'', PyStr (take 100 (pc_alias c))),
      (''quantity'', case pc_quantity c of None \<Rightarrow> PyNone | Some n \<Rightarrow> PyInt n),
      (''value'', PyDecText (pc_value c)),
      (''total'', case pc_total c of None \<Rightarrow> PyNone | Some t \<Rightarrow> PyDecText t),
      (''is_included_in_total'', case pc_included c of None \<Rightarrow> PyNone | Some x \<Rightarrow> PyBool x),
      (''is_mandatory'', case pc_mandatory c of None \<Rightarrow> PyNone | Some x \<Rightarrow> PyBool x),
      (''is_deleted'', case pc_deleted c of None \<Rightarrow> PyNone | Some x \<Rightarrow> PyBool x)]"

definition quote_snapshot_of :: "change_world \<Rightarrow> price_quote \<Rightarrow> (string \<times> pyval) list \<Rightarrow> (string \<times> pyval) list" where
  "quote_snapshot_of w q fx_snapshot =
     [(''price_version'', PyInt 2), (''system_total'', PyDecText (pq_total q)),
      (''components'', PyList (sanitized_components (xw_label w) q)),
      (''operational_components'', PyList (map operational_component (pq_components q))),
      (''calculated_at'', PyTimeText (Aware (pq_calculated_at q))), (''fx'', PyDict fx_snapshot)]"

text \<open>The quote of an amount to pay; None: the rates could not be used.\<close>

definition shown_currency :: "booking \<Rightarrow> string" where
  "shown_currency b = (case bk_intent b of None \<Rightarrow> ''SAR'' | Some i \<Rightarrow> if in_display i = [] then ''SAR'' else in_display i)"

definition payment_quote ::
    "change_world \<Rightarrow> env \<Rightarrow> booking \<Rightarrow> rat \<Rightarrow> string \<Rightarrow> instant \<Rightarrow> (rat option \<times> (string \<times> pyval) list) option res" where
  "payment_quote w e b due currency expires =
     (if due \<le> 0 then Inr (Some (None, []))
      else case create_quote (fx e) (xw_rates w) (PyDec (Fin due)) (PyStr currency) (PyStr (shown_currency b))
             (Aware (now e)) (Aware expires) of
        Inl x \<Rightarrow> if is_currency_error x then Inr None else Inl x
      | Inr q \<Rightarrow> Inr (Some (Some (payment_amount_sar q), quote_snapshot q)))"

definition first_status :: "change_world \<Rightarrow> env \<Rightarrow> rat \<Rightarrow> instant \<Rightarrow> change_status" where
  "first_status w e difference arrival =
     (if \<not> xw_automatic w \<and> arrival - now e \<le> xw_cutoff_hours w * 3600000000 then ChAdminApproval
      else if 0 < difference then ChAwaitingPayment
      else if xw_automatic w then ChReady else ChAdminApproval)"

text \<open>\<open>full_clean\<close>: the ranges of the fields and \<open>BookingModificationRequest.clean\<close>; the currency in capitals.\<close>

definition money_field :: "rat \<Rightarrow> bool" where
  "money_field x = (of_int \<lfloor>x * 10000\<rfloor> = x * 10000 \<and> \<bar>x\<bar> < 10 ^ 10)"

definition clean_change :: "apartment option \<Rightarrow> modification \<Rightarrow> modification res" where
  "clean_change u m0 =
     (let m = m0 \<lparr> mo_currency := map upper_char (mo_currency m0) \<rparr> in
      if mo_old_check_in m < mo_old_check_out m
         \<and> (case (mo_new_check_in m, mo_new_check_out m) of
              (Some i, Some j) \<Rightarrow> i < j | (None, None) \<Rightarrow> True | _ \<Rightarrow> False)
         \<and> 1 \<le> mo_old_guests m
         \<and> (case mo_new_guests m of None \<Rightarrow> True
            | Some g \<Rightarrow> 1 \<le> g \<and> \<not> set_and (Option.bind u (\<lambda>x. rn_capacity (ap_rental x))) (\<lambda>c. c < g))
         \<and> money_field (mo_old_total m) \<and> money_field (mo_difference m)
         \<and> (case mo_new_total m of None \<Rightarrow> True | Some x \<Rightarrow> money_field x)
         \<and> (mo_currency m = [] \<or> (length (mo_currency m) = 3 \<and> list_all is_letter (mo_currency m)))
      then Inr m else Inl (ValidationError ''modification''))"

definition drafted ::
    "change_world \<Rightarrow> env \<Rightarrow> booking \<Rightarrow> apartment \<Rightarrow> string \<Rightarrow> string \<Rightarrow> modification_type \<Rightarrow> date \<Rightarrow> date \<Rightarrow> int
     \<Rightarrow> price_quote \<Rightarrow> priced option \<Rightarrow> rat option \<times> (string \<times> pyval) list \<Rightarrow> modification" where
  "drafted w e b u session key kind i j guests q nights money =
     (let difference = pq_total q - bk_total b in
      \<lparr> mo_id = 0, mo_type = kind, mo_status = first_status w e difference (arrival_of w e u b),
        mo_old_check_in = bk_check_in b, mo_old_check_out = bk_check_out b,
        mo_new_check_in = Some i, mo_new_check_out = Some j, mo_old_guests = bk_guests b, mo_new_guests = Some guests,
        mo_old_total = bk_total b, mo_new_total = Some (pq_total q), mo_difference = difference,
        mo_currency = pq_currency q, mo_payment_sar = fst money, mo_snapshot = quote_snapshot_of w q (snd money),
        mo_nights = nights, mo_key = key, mo_session = session, mo_requested_at = now e,
        mo_expires_at = now e + seconds (xw_ttl w), mo_approved_at = None, mo_completed_at = None, mo_operation = None \<rparr>)"

text \<open>What a call answers: a code and the request it is about.\<close>

type_synonym answer_code = "string \<times> nat option"

definition draft_change ::
    "change_world \<Rightarrow> env \<Rightarrow> db \<Rightarrow> booking \<Rightarrow> string \<Rightarrow> bool \<Rightarrow> offer \<Rightarrow> (answer_code + modification) res" where
  "draft_change w e d b session owner offer =
     (case (offer, xw_unit w (bk_property b)) of
        (Offered kind i j guests q nights, Some u) \<Rightarrow>
          if pq_currency q \<noteq> bk_currency b then Inr (Inl (''currency_changed'', None))
          else
            let key = (if owner then xw_fresh w else xw_digest w (bk_id b) kind (Some i) (Some j) (Some guests) session) in
            case change_of_key d key of
              Some m \<Rightarrow> Inr (Inl (''idempotent'', Some (mo_id m)))
            | None \<Rightarrow>
                bindE (payment_quote w e b (pq_total q - bk_total b) (pq_currency q) (now e + seconds (xw_ttl w))) (\<lambda>money.
                case money of
                  None \<Rightarrow> Inr (Inl (''fx_unavailable'', None))
                | Some money \<Rightarrow>
                    bindE (clean_change (Some u) (drafted w e b u session key kind i j guests q nights money)) (\<lambda>m.
                      Inr (Inr m)))
      | (Refused code, _) \<Rightarrow> Inr (Inl (code, None))
      | _ \<Rightarrow> Inr (Inl (''direct_reservation_context_missing'', None)))"

subsection \<open>Saving a request\<close>

definition open_statuses :: "change_status list" where
  "open_statuses = [ChDraft, ChRevalidation, ChCustomerApproval, ChAwaitingPayment, ChAdminApproval, ChReady,
     ChPriceChanged, ChUnavailable, ChFailed]"

definition superseded :: "modification \<Rightarrow> modification" where
  "superseded m = (if mo_status m \<in> set open_statuses \<and> mo_type m \<noteq> CancelReservation
     then m \<lparr> mo_status := ChSuperseded \<rparr> else m)"

definition in_progress :: "booking \<Rightarrow> bool" where
  "in_progress b = list_ex (\<lambda>m. mo_status m \<in> {ChProcessing, ChUnknown}) (bk_modifications b)"

text \<open>\<open>b\<close> is the reservation the request was priced for, \<open>d\<close> the database of the moment.\<close>

definition save_change :: "db \<Rightarrow> booking \<Rightarrow> modification \<Rightarrow> (db \<times> answer_code) res" where
  "save_change d b m =
     bindE (of_option (DoesNotExist ''reservation'') (get_booking d (bk_id b))) (\<lambda>c.
     if bk_check_in c \<noteq> bk_check_in b \<or> bk_check_out c \<noteq> bk_check_out b \<or> bk_total c \<noteq> bk_total b
     then Inr (d, ''reservation_changed'', None)
     else if in_progress c then Inr (d, ''modification_in_progress'', None)
     else if change_of_key d (mo_key m) \<noteq> None then Inl (IntegrityError ''idempotency_key'')
     else let k = next_change d in
       Inr (put_booking d (c \<lparr> bk_modifications := map superseded (bk_modifications c) @ [m \<lparr> mo_id := k \<rparr>] \<rparr>),
            ''created'', Some k))"

definition persist_offer ::
    "change_world \<Rightarrow> env \<Rightarrow> db \<Rightarrow> booking \<Rightarrow> string \<Rightarrow> bool \<Rightarrow> offer \<Rightarrow> (db \<times> answer_code) res" where
  "persist_offer w e d b session owner offer =
     bindE (draft_change w e d b session owner offer) (\<lambda>draft.
     case draft of Inl answer_given \<Rightarrow> Inr (d, answer_given) | Inr m \<Rightarrow> save_change d b m)"

definition create_extension_quote ::
    "change_world \<Rightarrow> env \<Rightarrow> db \<Rightarrow> booking \<Rightarrow> string \<Rightarrow> date \<Rightarrow> bool \<Rightarrow> (db \<times> answer_code) res" where
  "create_extension_quote w e d b session j owner =
     bindE (plan_extension w e d b session j owner) (persist_offer w e d b session owner)"

definition create_change_quote ::
    "change_world \<Rightarrow> env \<Rightarrow> db \<Rightarrow> booking \<Rightarrow> string \<Rightarrow> date \<Rightarrow> date \<Rightarrow> int \<Rightarrow> bool \<Rightarrow> (db \<times> answer_code) res" where
  "create_change_quote w e d b session i j guests owner =
     bindE (plan_change w e d b session i j guests owner) (persist_offer w e d b session owner)"

subsection \<open>The owner's price\<close>

definition find_change :: "booking \<Rightarrow> nat \<Rightarrow> modification option" where
  "find_change b k = row_get mo_id (bk_modifications b) k"

definition put_change :: "booking \<Rightarrow> modification \<Rightarrow> booking" where
  "put_change b m = b \<lparr> bk_modifications := row_put mo_id (bk_modifications b) m \<rparr>"

text \<open>\<open>_system_total_from_snapshot\<close>, and the text of a Decimal.\<close>

definition system_total :: "modification \<Rightarrow> decimal" where
  "system_total m =
     (case decimal_of_str (dget (mo_snapshot m) ''system_total'') of
        Some v \<Rightarrow> v
      | None \<Rightarrow> Fin (case mo_new_total m of Some x \<Rightarrow> x | None \<Rightarrow> mo_old_total m))"

definition decimal_text :: "decimal \<Rightarrow> pyval" where
  "decimal_text v = (case v of Fin q \<Rightarrow> PyDecText q
     | Infinity negative \<Rightarrow> PyStr (if negative then ''-Infinity'' else ''Infinity'') | NaN \<Rightarrow> PyStr ''NaN'')"

definition owner_snapshot ::
    "modification \<Rightarrow> rat \<Rightarrow> owner_settlement \<Rightarrow> (string \<times> pyval) list \<Rightarrow> (string \<times> pyval) list" where
  "owner_snapshot m final_total s fx_snapshot =
     dict_set ''fx'' (PyDict fx_snapshot)
    (dict_set ''owner_settlement'' (PyDict [(''paid'', PyDecText (os_paid s)), (''due'', PyDecText (os_due s)),
        (''refund'', PyDecText (os_refund s))])
    (dict_set ''owner_final_total'' (PyDecText final_total)
    (dict_set ''system_total'' (decimal_text (system_total m)) (mo_snapshot m))))"

definition owner_priced_change ::
    "modification \<Rightarrow> rat \<Rightarrow> owner_settlement \<Rightarrow> rat option \<times> (string \<times> pyval) list \<Rightarrow> modification" where
  "owner_priced_change m final_total s money =
     m \<lparr> mo_new_total := Some final_total, mo_difference := final_total - mo_old_total m,
         mo_payment_sar := fst money, mo_snapshot := owner_snapshot m final_total s (snd money),
         mo_nights := (if system_total m = Fin final_total then mo_nights m else None),
         mo_status := ChReady, mo_approved_at := None \<rparr>"

text \<open>Why the price of a request cannot be set, or an empty text.\<close>

definition pricing_blocker :: "env \<Rightarrow> booking \<Rightarrow> modification \<Rightarrow> rat \<Rightarrow> string" where
  "pricing_blocker e b m final_total =
     (if mo_type m = CancelReservation then ''not_price_editable''
      else if mo_status m \<notin> {ChAwaitingPayment, ChAdminApproval, ChReady} \<or> mo_operation m \<noteq> None
      then ''not_price_editable''
      else if map_option mo_id (latest_change b) \<noteq> Some (mo_id m) then ''modification_superseded''
      else if \<not> unchanged_stay b m then ''reservation_changed''
      else if is_expired e m then ''expired''
      else if final_total < 0 then ''invalid_price'' else [])"

definition set_owner_final_total ::
    "change_world \<Rightarrow> env \<Rightarrow> db \<Rightarrow> nat \<Rightarrow> nat \<Rightarrow> rat \<Rightarrow> (db \<times> answer_code) res" where
  "set_owner_final_total w e d n k given =
     bindE (quantize round_half_even 2 given) (\<lambda>final_total.
     bindE (of_option (DoesNotExist ''reservation'') (get_booking d n)) (\<lambda>b.
     case find_change b k of
       None \<Rightarrow> Inr (d, ''not_found'', None)
     | Some m \<Rightarrow>
         let refusal = pricing_blocker e b m final_total in
         if refusal \<noteq> [] then Inr (d, refusal, Some k)
         else bindE (settlement_blocker e d b) (\<lambda>blocker.
         if blocker \<noteq> [] then Inr (d, blocker, Some k)
         else bindE (settlement_for e d b final_total) (\<lambda>s.
         bindE (payment_quote w e b (os_due s) (mo_currency m) (mo_expires_at m)) (\<lambda>money.
         case money of
           None \<Rightarrow> Inr (d, ''fx_unavailable'', Some k)
         | Some money \<Rightarrow> Inr (put_booking d (put_change b (owner_priced_change m final_total s money)), ''priced'', Some k))))))"

subsection \<open>Requests to cancel\<close>

definition cancellation_change :: "change_world \<Rightarrow> env \<Rightarrow> booking \<Rightarrow> string \<Rightarrow> string \<Rightarrow> modification" where
  "cancellation_change w e b session key =
     \<lparr> mo_id = 0, mo_type = CancelReservation, mo_status = (if xw_auto_cancel w then ChReady else ChAdminApproval),
       mo_old_check_in = bk_check_in b, mo_old_check_out = bk_check_out b, mo_new_check_in = None,
       mo_new_check_out = None, mo_old_guests = bk_guests b, mo_new_guests = None, mo_old_total = bk_total b,
       mo_new_total = None, mo_difference = 0, mo_currency = bk_currency b, mo_payment_sar = None,
       mo_snapshot = [], mo_nights = None, mo_key = key, mo_session = session, mo_requested_at = now e,
       mo_expires_at = now e + seconds (xw_ttl w), mo_approved_at = None, mo_completed_at = None, mo_operation = None \<rparr>"

definition add_cancellation ::
    "change_world \<Rightarrow> env \<Rightarrow> db \<Rightarrow> booking \<Rightarrow> string \<Rightarrow> (db \<times> answer_code) res" where
  "add_cancellation w e d b session =
     (let key = xw_digest w (bk_id b) CancelReservation None None None session in
      case change_of_key d key of
        Some m \<Rightarrow> Inr (d, ''idempotent'', Some (mo_id m))
      | None \<Rightarrow>
          (case cancellation_plan e d b of
             Inl x \<Rightarrow> if is_validation_error x then Inr (d, ''loyalty_departure_evidence_required'', None) else Inl x
           | Inr plan \<Rightarrow>
               bindE (clean_change (xw_unit w (bk_property b)) (cancellation_change w e b session key)) (\<lambda>m.
                 let k = next_change d in
                 Inr (put_booking d (b \<lparr> bk_modifications := bk_modifications b @ [m \<lparr> mo_id := k \<rparr>] \<rparr>), ''created'', Some k))))"

definition create_cancellation_request ::
    "change_world \<Rightarrow> env \<Rightarrow> db \<Rightarrow> nat \<Rightarrow> string \<Rightarrow> bool \<Rightarrow> (db \<times> answer_code) res" where
  "create_cancellation_request w e d n session owner =
     (if \<not> xw_requests w then Inr (d, ''cancellation_requests_disabled'', None)
      else bindE (of_option (DoesNotExist ''reservation'') (get_booking d n)) (\<lambda>b.
      bindE (base_blocker w e d b session owner) (\<lambda>blocker.
      if blocker \<noteq> [] then Inr (d, blocker, None)
      else bindE (cancellation_blocker e (unit_clock w b) b) (\<lambda>ended.
      if ended \<noteq> [] then Inr (d, ended, None) else add_cancellation w e d b session))))"

subsection \<open>Pricing a request again\<close>

text \<open>The prices of a request now: the code of a refusal, or the quote.\<close>

definition current_quote :: "change_world \<Rightarrow> booking \<Rightarrow> rental \<Rightarrow> modification \<Rightarrow> date \<Rightarrow> date \<Rightarrow> int \<Rightarrow> (string + price_quote) res" where
  "current_quote w b p m i j guests =
     (if mo_type m = ExtendStay
      then bindE (extension_price w b p i j guests) (\<lambda>price. Inr (map_sum id snd price))
      else case checked_stay w (bk_property b) p i j guests of
        Inl x \<Rightarrow> temporarily x
      | Inr a \<Rightarrow> (case (av_available a, av_quote a) of (True, Some q) \<Rightarrow> Inr (Inr q) | _ \<Rightarrow> Inr (Inl (av_reason a))))"

definition revalidate_quote ::
    "change_world \<Rightarrow> booking \<Rightarrow> rental \<Rightarrow> modification \<Rightarrow> date \<Rightarrow> date \<Rightarrow> int \<Rightarrow> rat \<Rightarrow> (string \<times> price_quote option) res" where
  "revalidate_quote w b p m i j guests new_total =
     bindE (current_quote w b p m i j guests) (\<lambda>priced_now.
     case priced_now of
       Inl code \<Rightarrow> Inr (code, None)
     | Inr q \<Rightarrow>
         Inr (if pq_currency q \<noteq> mo_currency m then (''currency_changed'', Some q)
              else if Fin (pq_total q) \<noteq> system_total m \<or> new_total - bk_total b \<noteq> mo_difference m
              then (''price_changed'', Some q) else (''ready'', Some q)))"

definition revalidate_for_payment :: "change_world \<Rightarrow> env \<Rightarrow> booking \<Rightarrow> modification \<Rightarrow> (string \<times> price_quote option) res" where
  "revalidate_for_payment w e b m =
     (case (mo_new_check_in m, mo_new_check_out m, mo_new_guests m, mo_new_total m, xw_unit w (bk_property b)) of
        (Some i, Some j, Some g, Some t, Some u) \<Rightarrow>
          if mo_status m \<noteq> ChAwaitingPayment \<or> is_expired e m \<or> bk_status b \<noteq> Confirmed \<or> \<not> unchanged_stay b m
             \<or> mo_currency m \<noteq> bk_currency b
          then Inr (''modification_not_payable'', None)
          else revalidate_quote w b (ap_rental u) m i j g t
      | _ \<Rightarrow> Inr (''modification_not_payable'', None))"

definition revalidate_extension_for_execution :: "change_world \<Rightarrow> booking \<Rightarrow> modification \<Rightarrow> (string \<times> price_quote option) res" where
  "revalidate_extension_for_execution w b m =
     (case (mo_new_check_in m, mo_new_check_out m, mo_new_guests m, mo_new_total m, xw_unit w (bk_property b)) of
        (Some i, Some j, Some g, Some t, Some u) \<Rightarrow>
          if mo_type m \<noteq> ExtendStay \<or> i \<noteq> bk_check_in b \<or> g \<noteq> bk_guests b \<or> j \<le> bk_check_out b
             \<or> \<not> unchanged_stay b m \<or> mo_currency m \<noteq> bk_currency b
          then Inr (''reservation_changed'', None)
          else revalidate_quote w b (ap_rental u) m i j g t
      | _ \<Rightarrow> Inr (''reservation_changed'', None))"

end
