(* ===== verification/Remote.thy ===== *)
theory Remote
  imports Calendar LoyaltyState
begin

section \<open>Reservation documents of the channel manager\<close>

text \<open>
  apps/integrations/hostaway/reservation\_validators.py and
  apps/reservations/services/reservation\_payloads.py: the price fields and the document of a new
  reservation, the reading of a reservation the channel manager returns, and the translation of
  its statuses. A number is written as a JSON integer or as the float of its text. The reading of
  the time of the last change is a parameter; nothing else of the program depends on it.
\<close>

subsection \<open>The price fields of a new reservation\<close>

record finance_field =
  ff_setting :: "int option"
  ff_type :: string
  ff_name :: string
  ff_title :: string
  ff_alias :: string
  ff_quantity :: "int option"
  ff_value :: rat
  ff_total :: rat
  ff_included :: bool
  ff_overridden :: bool
  ff_mandatory :: "bool option"
  ff_deleted :: bool

definition from_price_component :: "price_component \<Rightarrow> finance_field res" where
  "from_price_component c =
     (case pc_total c of
        None \<Rightarrow> Inl (ValueError ''price_component_total_missing'')
      | Some t \<Rightarrow>
          (case (pc_included c, pc_deleted c) of
             (Some included, Some deleted) \<Rightarrow>
               Inr \<lparr> ff_setting = pc_setting c, ff_type = pc_type c, ff_name = pc_name c, ff_title = pc_title c,
                 ff_alias = pc_alias c, ff_quantity = pc_quantity c, ff_value = pc_value c, ff_total = t,
                 ff_included = included, ff_overridden = False, ff_mandatory = pc_mandatory c, ff_deleted = deleted \<rparr>
           | _ \<Rightarrow> Inl (ValueError ''price_component_flags_missing'')))"

definition json_number :: "rat \<Rightarrow> pyval" where
  "json_number x = (if of_int \<lfloor>x\<rfloor> = x then PyInt \<lfloor>x\<rfloor> else PyFloat (Fin x))"

definition bool_int :: "bool \<Rightarrow> pyval" where
  "bool_int b = PyInt (if b then 1 else 0)"

definition finance_payload :: "finance_field \<Rightarrow> (string \<times> pyval) list" where
  "finance_payload f =
     [(''type'', PyStr (ff_type f)), (''name'', PyStr (ff_name f)), (''title'', PyStr (ff_title f)),
      (''alias'', PyStr (ff_alias f)), (''value'', json_number (ff_value f)), (''total'', json_number (ff_total f)),
      (''isIncludedInTotalPrice'', bool_int (ff_included f)), (''isOverriddenByUser'', bool_int (ff_overridden f)),
      (''isMandatory'', case ff_mandatory f of None \<Rightarrow> PyNone | Some b \<Rightarrow> bool_int b),
      (''isDeleted'', bool_int (ff_deleted f))]
     @ (case ff_setting f of None \<Rightarrow> [] | Some n \<Rightarrow> [(''listingFeeSettingId'', PyInt n)])
     @ (case ff_quantity f of None \<Rightarrow> [] | Some n \<Rightarrow> [(''quantity'', PyInt n)])"

subsection \<open>A price set by the owner\<close>

definition adjustable :: "rat \<Rightarrow> finance_field \<Rightarrow> bool" where
  "adjustable difference f = (ff_included f \<and> \<not> ff_deleted f \<and> 0 \<le> ff_total f + difference)"

definition adjusted_field :: "rat \<Rightarrow> finance_field \<Rightarrow> finance_field res" where
  "adjusted_field difference f =
     (let quantity = (case ff_quantity f of None \<Rightarrow> 1 | Some n \<Rightarrow> if n = 0 then 1 else n) in
      bindE (ddiv (ff_total f + difference) (of_int quantity)) (\<lambda>v.
        Inr (f \<lparr> ff_value := v, ff_total := ff_total f + difference, ff_overridden := True \<rparr>)))"

text \<open>The first base rate, or else the first field, that can carry the difference.\<close>

definition override_price_details :: "finance_field list \<Rightarrow> rat \<Rightarrow> rat \<Rightarrow> finance_field list res" where
  "override_price_details ffs current_total final_total =
     (let difference = final_total - current_total;
          preferred = sort_key (\<lambda>x. if map lower_char (ff_name (snd x)) = ''baserate'' then 0 else (1 :: nat))
                        (enumerate 0 ffs)
      in case find (\<lambda>x. adjustable difference (snd x)) preferred of
           None \<Rightarrow> Inl (ValueError ''manual_price_cannot_be_applied'')
         | Some (k, f) \<Rightarrow> bindE (adjusted_field difference f) (\<lambda>g. Inr (ffs[k := g])))"

subsection \<open>The document of a new reservation\<close>

record create_request =
  rq_listing_map :: int
  rq_channel :: int
  rq_contact :: contact
  rq_phone :: string
  rq_guests :: int
  rq_check_in :: date
  rq_check_out :: date
  rq_currency :: string
  rq_total :: rat
  rq_fields :: "finance_field list"

text \<open>\<open>text.strip().split("-", 1)[0].casefold()\<close>.\<close>

definition locale_of :: "string \<Rightarrow> string" where
  "locale_of s = map lower_char (takeWhile (\<lambda>c. c \<noteq> CHR ''-'') (strip s))"

definition request_payload :: "create_request \<Rightarrow> (string \<times> pyval) list res" where
  "request_payload r =
     (if rq_listing_map r \<le> 0 then Inl (ValueError ''listing_map_id_not_verified'')
      else if rq_channel r \<le> 0 then Inl (ValueError ''direct_channel_id_not_configured'')
      else if rq_fields r = [] then Inl (ValueError ''price_components_missing'')
      else let c = rq_contact r; guest_locale = locale_of (ct_language c) in
        if guest_locale \<notin> {''ar'', ''en'', ''fr''} then Inl (ValueError ''guest_locale_not_supported'')
        else Inr
          [(''channelId'', PyInt (rq_channel r)), (''listingMapId'', PyInt (rq_listing_map r)),
           (''isManuallyChecked'', PyInt 0), (''isInitial'', PyInt 0),
           (''guestName'', PyStr (take 200 (strip (ct_given c @ '' '' @ ct_surname c)))),
           (''guestFirstName'', PyStr (take 100 (ct_given c))), (''guestLastName'', PyStr (take 100 (ct_surname c))),
           (''guestCountry'', PyStr (map upper_char (ct_guest_country c))), (''guestLocale'', PyStr guest_locale),
           (''guestEmail'', PyStr (ct_email c)), (''phone'', PyStr (rq_phone r)),
           (''numberOfGuests'', PyInt (rq_guests r)), (''adults'', PyInt (rq_guests r)),
           (''arrivalDate'', PyStr (isoformat (rq_check_in r))), (''departureDate'', PyStr (isoformat (rq_check_out r))),
           (''totalPrice'', json_number (rq_total r)), (''currency'', PyStr (map upper_char (rq_currency r))),
           (''financeField'', PyList (map (\<lambda>f. PyDict (finance_payload f)) (rq_fields r)))])"

text \<open>
  \<open>build_hostaway_reservation_request\<close>: the property gives its listing and its verified
  identifier at the channel manager, the settings the direct channel.
\<close>

definition reservation_request ::
    "booking \<Rightarrow> (int \<times> int option) option \<Rightarrow> int option \<Rightarrow> price_quote \<Rightarrow> bool \<Rightarrow> create_request res" where
  "reservation_request b unit channel q allow_override =
     (case (bk_intent b, unit) of
        (Some i, Some (listing, listing_map)) \<Rightarrow>
          bindE (of_option (ValueError ''listing_map_id_not_verified'') listing_map) (\<lambda>map_id.
          bindE (of_option (ValueError ''direct_channel_id_not_configured'') channel) (\<lambda>channel_id.
          if pq_listing q \<noteq> listing then Inl (ValueError ''revalidated_listing_mismatch'')
          else if pq_check_in q \<noteq> bk_check_in b \<or> pq_check_out q \<noteq> bk_check_out b \<or> pq_guests q \<noteq> bk_guests b
          then Inl (ValueError ''revalidated_stay_mismatch'')
          else if pq_currency q \<noteq> bk_currency b then Inl (ValueError ''revalidated_price_changed'')
          else bindE (mapE from_price_component (pq_components q)) (\<lambda>ffs.
               bindE (if pq_total q = bk_total b then Inr ffs
                      else if \<not> allow_override then Inl (ValueError ''revalidated_price_changed'')
                      else override_price_details ffs (pq_total q) (bk_total b)) (\<lambda>final.
                 Inr \<lparr> rq_listing_map = map_id, rq_channel = channel_id, rq_contact = in_contact i,
                   rq_phone = in_phone i, rq_guests = bk_guests b, rq_check_in = bk_check_in b,
                   rq_check_out = bk_check_out b, rq_currency = bk_currency b, rq_total = bk_total b,
                   rq_fields = final \<rparr>))))
      | _ \<Rightarrow> Inl (ValueError ''direct_reservation_context_missing''))"

subsection \<open>Reading a reservation\<close>

record snapshot =
  sn_id :: int
  sn_listing_map :: int
  sn_channel :: "int option"
  sn_status :: string
  sn_check_in :: date
  sn_check_out :: date
  sn_guests :: int
  sn_currency :: string
  sn_total :: rat
  sn_payment_status :: string
  sn_source :: string
  sn_updated_at :: "datetime option"

text \<open>\<open>a or b\<close>.\<close>

definition py_or :: "pyval \<Rightarrow> pyval \<Rightarrow> pyval" where
  "py_or a b = (if truthy a then a else b)"

definition optional_number :: "pyval \<Rightarrow> string \<Rightarrow> int option res" where
  "optional_number v field =
     (if blank v then Inr None
      else case v of PyBool b \<Rightarrow> Inl (HostawayResponse field)
      | _ \<Rightarrow> bindE (py_int v) (\<lambda>parsed.
          bindE (of_option (HostawayResponse field) parsed) (\<lambda>n.
            if n \<le> 0 then Inl (HostawayResponse field) else Inr (Some n))))"

definition positive_number :: "pyval \<Rightarrow> string \<Rightarrow> int res" where
  "positive_number v field = bindE (optional_number v field) (of_option (HostawayResponse field))"

definition nonnegative_decimal :: "pyval \<Rightarrow> string \<Rightarrow> rat res" where
  "nonnegative_decimal v field = (case decimal_of_str v of
      Some (Fin q) \<Rightarrow> if q < 0 then Inl (HostawayResponse field) else Inr q
    | _ \<Rightarrow> Inl (HostawayResponse field))"

definition short_text :: "pyval \<Rightarrow> string" where
  "short_text v = take 100 (optional_string v)"

text \<open>\<open>date.fromisoformat(str(value)[:10])\<close>: only texts and whole numbers can be dates.\<close>

definition date_prefix :: "pyval \<Rightarrow> date option" where
  "date_prefix v = (case v of
      PyStr s \<Rightarrow> date_fromisoformat (take 10 s)
    | PyInt n \<Rightarrow> if n < 0 then None else date_fromisoformat (take 10 (pad_digits (ndigits (nat n)) n))
    | _ \<Rightarrow> None)"

definition required_date :: "pyval \<Rightarrow> string \<Rightarrow> date res" where
  "required_date v field = of_option (HostawayResponse field) (date_prefix v)"

definition iso_currency :: "pyval \<Rightarrow> string res" where
  "iso_currency v = (let parsed = map upper_char (short_text v) in
     if length parsed \<noteq> 3 \<or> \<not> list_all is_letter parsed then Inl (HostawayResponse ''currency'') else Inr parsed)"

definition is_paid_flag :: "pyval \<Rightarrow> bool" where
  "is_paid_flag v = (equals_int v 1 \<or> v = PyStr ''1'')"

definition reservation_fields :: "(pyval \<Rightarrow> datetime option res) \<Rightarrow> (string \<times> pyval) list \<Rightarrow> snapshot res" where
  "reservation_fields reading r =
     bindE (positive_number (py_or (dget r ''hostawayReservationId'') (dget r ''id'')) ''id'') (\<lambda>reservation_id.
     bindE (positive_number (dget r ''listingMapId'') ''listingMapId'') (\<lambda>map_id.
     bindE (required_date (dget r ''arrivalDate'') ''arrivalDate'') (\<lambda>check_in.
     bindE (required_date (dget r ''departureDate'') ''departureDate'') (\<lambda>check_out.
     if check_out \<le> check_in then Inl (HostawayResponse ''dates'')
     else bindE (iso_currency (dget r ''currency'')) (\<lambda>currency.
     bindE (optional_number (dget r ''channelId'') ''channelId'') (\<lambda>channel.
     bindE (positive_number (py_or (dget r ''numberOfGuests'') (dget r ''adults'')) ''numberOfGuests'') (\<lambda>guests.
     bindE (nonnegative_decimal (dget r ''totalPrice'') ''totalPrice'') (\<lambda>total_price.
     bindE (reading (py_or (dget r ''updatedOn'') (dget r ''latestActivityOn''))) (\<lambda>updated_at.
       Inr \<lparr> sn_id = reservation_id, sn_listing_map = map_id, sn_channel = channel,
         sn_status = short_text (dget r ''status''), sn_check_in = check_in, sn_check_out = check_out,
         sn_guests = guests, sn_currency = currency, sn_total = total_price,
         sn_payment_status = short_text (py_or (dget r ''paymentStatus'')
           (PyStr (if is_paid_flag (dget r ''isPaid'') then ''paid'' else []))),
         sn_source = short_text (py_or (dget r ''source'') (dget r ''channelName'')),
         sn_updated_at = updated_at \<rparr>)))))))))"

definition validate_reservation_response :: "(pyval \<Rightarrow> datetime option res) \<Rightarrow> pyval \<Rightarrow> snapshot res" where
  "validate_reservation_response reading payload =
     (case payload of
        PyDict p \<Rightarrow>
          if dget p ''status'' \<noteq> PyNone \<and> dget p ''status'' \<noteq> PyStr ''success''
          then Inl (HostawayResponse ''failure'')
          else (case dget p ''result'' of
              PyDict r \<Rightarrow> reservation_fields reading r
            | _ \<Rightarrow> Inl (HostawayResponse ''result''))
      | _ \<Rightarrow> Inl (HostawayResponse ''failure''))"

subsection \<open>Statuses\<close>

definition status_map :: "(string \<times> stay_status) list" where
  "status_map =
     [(''new'', Confirmed), (''confirmed'', Confirmed), (''ownerstay'', Confirmed), (''modified'', Modified),
      (''awaitingpayment'', AwaitingPayment), (''pending'', PendingConfirmation), (''unconfirmed'', PendingConfirmation),
      (''inquiry'', Inquiry), (''inquirypreapproved'', Inquiry),
      (''cancelled'', Cancelled), (''canceled'', Cancelled), (''declined'', Declined), (''inquirydenied'', Declined),
      (''inquirynotpossible'', Declined), (''expired'', ExpiredStay), (''inquirytimeout'', ExpiredStay)]"

definition normalize_status :: "string \<Rightarrow> stay_status" where
  "normalize_status s = (case map_of status_map (map lower_char (strip s)) of None \<Rightarrow> UnknownStay | Some x \<Rightarrow> x)"

definition source_type_of :: "snapshot \<Rightarrow> source_type" where
  "source_type_of s =
     (let source = map lower_char (sn_source s) in
      if source \<in> {''manual'', ''hostaway'', ''hostawaymanual''} then HostawayManual
      else if source \<in> {''luxurysmartapartments'', ''direct'', ''bookingengine''} then DirectWebsite
      else if source \<noteq> [] then ExternalChannel else UnknownSource)"

definition merge_payment_status :: "string \<Rightarrow> string \<Rightarrow> string" where
  "merge_payment_status current incoming =
     (if map lower_char (strip current) = ''paid''
         \<and> map lower_char (strip incoming) \<in> {[], ''unknown'', ''unpaid''}
      then current else incoming)"

subsection \<open>Properties\<close>

text \<open>The fields that make up the total.\<close>

definition active_total :: "finance_field list \<Rightarrow> rat" where
  "active_total ffs = sum_list (map ff_total (filter (\<lambda>f. ff_included f \<and> \<not> ff_deleted f) ffs))"

lemma active_total_update:
  assumes "k < length ffs" and "ff_included (ffs ! k)" and "\<not> ff_deleted (ffs ! k)" and "ff_included g" and "\<not> ff_deleted g"
  shows "active_total (ffs[k := g]) = active_total ffs - ff_total (ffs ! k) + ff_total g"
  using assms
  by (induction ffs arbitrary: k) (auto simp: active_total_def nth_Cons' less_Suc_eq_0_disj)

lemma override_found:
  assumes "override_price_details ffs current_total final_total = Inr gs"
  obtains k g where "k < length ffs" "adjustable (final_total - current_total) (ffs ! k)"
    "adjusted_field (final_total - current_total) (ffs ! k) = Inr g" "gs = ffs[k := g]"
proof -
  let ?P = "\<lambda>x. adjustable (final_total - current_total) (snd x)"
  let ?key = "\<lambda>x. if map lower_char (ff_name (snd x)) = ''baserate'' then 0 else (1 :: nat)"
  obtain k f g where f: "find ?P (sort_key ?key (enumerate 0 ffs)) = Some (k, f)"
    and g: "adjusted_field (final_total - current_total) f = Inr g" "gs = ffs[k := g]"
    using assms by (auto simp: override_price_details_def Let_def bindE_Inr_iff split: option.splits prod.splits)
  from f have "(k, f) \<in> set (sort_key ?key (enumerate 0 ffs))" "adjustable (final_total - current_total) f"
    by (auto dest!: find_Some_in)
  then have "k < length ffs" "ffs ! k = f" by (auto simp: in_set_enumerate_eq)
  then show thesis using that g \<open>adjustable _ f\<close> by blast
qed

text \<open>A price set by the owner reaches the channel manager exactly. When the difference can be
  put on a field of the price, the total of the included fields moves from the calculated price to
  the price of the owner; one included field changes, it is marked as overridden and does not become
  negative, and every other field is sent as it was calculated.\<close>

lemma override_reaches_total:
  assumes "override_price_details ffs current_total final_total = Inr gs" and "active_total ffs = current_total"
  shows "active_total gs = final_total \<and> length gs = length ffs
    \<and> (\<exists>k < length ffs. ff_overridden (gs ! k) \<and> 0 \<le> ff_total (gs ! k)
         \<and> (\<forall>j. j \<noteq> k \<longrightarrow> j < length ffs \<longrightarrow> gs ! j = ffs ! j))"
proof -
  obtain k g where k: "k < length ffs" and a: "adjustable (final_total - current_total) (ffs ! k)"
    and g: "adjusted_field (final_total - current_total) (ffs ! k) = Inr g" and gs: "gs = ffs[k := g]"
    using override_found [OF assms(1)] by blast
  have f: "ff_included g = ff_included (ffs ! k)" "ff_deleted g = ff_deleted (ffs ! k)" "ff_overridden g"
    "ff_total g = ff_total (ffs ! k) + (final_total - current_total)"
    using g by (auto simp: adjusted_field_def bindE_Inr_iff Let_def)
  have "active_total gs = final_total"
    using active_total_update [OF k, of g] a f assms(2) by (simp add: gs adjustable_def)
  moreover have "ff_overridden (gs ! k) \<and> 0 \<le> ff_total (gs ! k) \<and> (\<forall>j. j \<noteq> k \<longrightarrow> j < length ffs \<longrightarrow> gs ! j = ffs ! j)"
    using a f k by (simp add: gs adjustable_def)
  ultimately show ?thesis using k gs by auto
qed

definition sample_field :: "string \<Rightarrow> rat \<Rightarrow> finance_field" where
  "sample_field name x = \<lparr> ff_setting = None, ff_type = ''price'', ff_name = name, ff_title = name, ff_alias = [],
     ff_quantity = Some 2, ff_value = x, ff_total = x, ff_included = True, ff_overridden = False, ff_mandatory = None,
     ff_deleted = False \<rparr>"

lemma override_reaches_total_at:
  "\<exists>gs. override_price_details [sample_field ''vat'' 150, sample_field ''baseRate'' 1000] 1150 1050 = Inr gs
     \<and> active_total gs = 1050"
proof -
  have run: "override_price_details [sample_field ''vat'' 150, sample_field ''baseRate'' 1000] 1150 1050
      = Inr [sample_field ''vat'' 150, (sample_field ''baseRate'' 1000) \<lparr> ff_value := 450, ff_total := 900, ff_overridden := True \<rparr>]"
    by code_simp
  show ?thesis
    using conjunct1 [OF override_reaches_total [OF run]] run by (auto simp: active_total_def sample_field_def)
qed

lemma if_error: "((if P then Inl x else y) = Inr z) = (\<not> P \<and> y = Inr z)"
  by simp

text \<open>An accepted reservation document is well typed: positive numbers for the reservation, its
  listing and the guests, a departure after the arrival, a three-letter upper-case currency, a
  price that is not negative and texts of at most 100 characters.\<close>

lemma reservation_well_typed:
  assumes "validate_reservation_response reading payload = Inr s"
  shows "0 < sn_id s \<and> 0 < sn_listing_map s \<and> 0 < sn_guests s \<and> sn_check_in s < sn_check_out s
    \<and> (\<forall>c. sn_channel s = Some c \<longrightarrow> 0 < c) \<and> length (sn_currency s) = 3 \<and> list_all is_letter (sn_currency s)
    \<and> map upper_char (sn_currency s) = sn_currency s \<and> 0 \<le> sn_total s
    \<and> length (sn_status s) \<le> 100 \<and> length (sn_source s) \<le> 100 \<and> length (sn_payment_status s) \<le> 100"
proof -
  have optional: "\<forall>n. ch = Some n \<longrightarrow> 0 < n" if "optional_number v f = Inr ch" for v f ch
  proof (cases "blank v")
    case False
    note run = that
    from False obtain x y where "py_int v = Inr x" "of_option (HostawayResponse f) x = Inr y"
      "(if y \<le> 0 then Inl (HostawayResponse f) else Inr (Some y)) = Inr ch"
      using run by (cases v) (auto simp: optional_number_def bindE_Inr_iff simp del: py_int.simps)
    then show ?thesis by (auto split: if_splits)
  qed (use that in \<open>simp add: optional_number_def\<close>)
  have number: "0 < n" if "positive_number v f = Inr n" for v f n
    using that optional [of v f "Some n"]
    by (auto simp: positive_number_def bindE_Inr_iff of_option_def split: option.splits)
  have upper: "map upper_char (map upper_char t) = map upper_char t" for t
    by (induction t) (auto simp: upper_char_def Let_def)
  have code: "length c = 3 \<and> list_all is_letter c \<and> map upper_char c = c" if "iso_currency v = Inr c" for v c
    using that upper [of "short_text v"] by (auto simp: iso_currency_def Let_def split: if_splits)
  have money: "0 \<le> x" if "nonnegative_decimal v f = Inr x" for v f x
    using that by (auto simp: nonnegative_decimal_def split: option.splits decimal.splits if_splits)
  have short: "length (short_text v) \<le> 100" for v by (simp add: short_text_def)
  obtain r where "reservation_fields reading r = Inr s"
    using assms by (auto simp: validate_reservation_response_def split: pyval.splits if_splits)
  then obtain a b ci co cur ch g t u where parts:
      "positive_number (py_or (dget r ''hostawayReservationId'') (dget r ''id'')) ''id'' = Inr a"
      "positive_number (dget r ''listingMapId'') ''listingMapId'' = Inr b" "ci < co"
      "iso_currency (dget r ''currency'') = Inr cur" "optional_number (dget r ''channelId'') ''channelId'' = Inr ch"
      "positive_number (py_or (dget r ''numberOfGuests'') (dget r ''adults'')) ''numberOfGuests'' = Inr g"
      "nonnegative_decimal (dget r ''totalPrice'') ''totalPrice'' = Inr t"
    and s: "sn_id s = a" "sn_listing_map s = b" "sn_check_in s = ci" "sn_check_out s = co" "sn_currency s = cur"
      "sn_channel s = ch" "sn_guests s = g" "sn_total s = t" "length (sn_status s) \<le> 100" "length (sn_source s) \<le> 100"
      "length (sn_payment_status s) \<le> 100"
    unfolding reservation_fields_def bindE_Inr_iff if_error by (elim exE conjE) (auto simp: short not_le)
  show ?thesis
    using number [OF parts(1)] number [OF parts(2)] number [OF parts(6)] parts(3) optional [OF parts(5)]
      code [OF parts(4)] money [OF parts(7)] by (simp add: s)
qed

lemma reservation_well_typed_at:
  "\<exists>s. validate_reservation_response (\<lambda>v. Inr None) (PyDict [(''result'', PyDict [(''id'', PyInt 77),
      (''listingMapId'', PyStr ''12''), (''arrivalDate'', PyStr ''2026-05-01''), (''departureDate'', PyStr ''2026-05-03''),
      (''currency'', PyStr ''sar''), (''numberOfGuests'', PyInt 2), (''totalPrice'', PyInt 900), (''status'', PyStr ''new'')])]) = Inr s
     \<and> 0 < sn_id s \<and> sn_currency s = ''SAR'' \<and> normalize_status (sn_status s) = Confirmed"
  (is "\<exists>s. validate_reservation_response ?reading ?doc = Inr s \<and> ?P s")
proof -
  have "case validate_reservation_response ?reading ?doc of Inl x \<Rightarrow> False | Inr s \<Rightarrow> sn_currency s = ''SAR'' \<and> normalize_status (sn_status s) = Confirmed"
    by code_simp
  then obtain s where s: "validate_reservation_response ?reading ?doc = Inr s" "sn_currency s = ''SAR''"
    "normalize_status (sn_status s) = Confirmed"
    by (cases "validate_reservation_response ?reading ?doc") auto
  then show ?thesis using reservation_well_typed [OF s(1)] by blast
qed

end
