(* ===== verification/ChannelClient.thy ===== *)
theory ChannelClient
  imports Remote Availability
begin

section \<open>The client of the channel manager (apps/integrations/hostaway/client.py, token\_provider.py)\<close>

text \<open>
  The access token with its cache, the authenticated requests with the one renewal of a refused
  token, the retries of reads, the classification of answers, and the operations built on them.
  The channel manager is a function: its answer to a call, given the calls before. The state keeps
  these calls and the pauses in their order. An expired cache entry is an absent one; the time the
  code asks the cache to keep a token is kept with the token.
\<close>

subsection \<open>Calls, answers and the state of a client\<close>

datatype call =
    TokenCall
  | GetCall string "(string \<times> pyval) list" string
  | PostCall string "(string \<times> pyval) list" "(string \<times> pyval) list" string
  | PutCall string "(string \<times> pyval) list" string

text \<open>
  An answer: its status, its body where it is JSON, and \<open>float(Retry-After)\<close> where that header is
  there and is a number.
\<close>

record answer =
  an_status :: int
  an_body :: "pyval option"
  an_retry :: "decimal option"

datatype reply = TimedOut | NetworkFailed | OtherFailure | Replied answer

type_synonym server = "call list \<Rightarrow> call \<Rightarrow> reply"

record client_config =
  cf_token :: string
  cf_account :: string
  cf_secret :: string
  cf_shared_required :: bool
  cf_cache_shared :: bool
  cf_safety :: int
  cf_get_attempts :: nat
  cf_live_booking :: bool
  cf_live_modification :: bool
  cf_live_extension :: bool
  cf_live_cancellation :: bool
  cf_automatic_cancellation :: bool
  cf_receipts :: bool
  cf_provider :: string

record client_state =
  cs_token :: "(string \<times> int) option"
  cs_rejected :: bool
  cs_currency :: "(int \<times> (string \<times> pyval) list) list"
  cs_calls :: "call list"
  cs_sleeps :: "rat list"

type_synonym 'a io = "client_state \<Rightarrow> client_state \<times> 'a res"

definition returnIO :: "'a \<Rightarrow> 'a io" where
  "returnIO x s = (s, Inr x)"

definition failIO :: "exc \<Rightarrow> 'a io" where
  "failIO e s = (s, Inl e)"

definition liftIO :: "'a res \<Rightarrow> 'a io" where
  "liftIO r s = (s, r)"

definition bindIO :: "'a io \<Rightarrow> ('a \<Rightarrow> 'b io) \<Rightarrow> 'b io" where
  "bindIO m f s = (case m s of (s', Inl e) \<Rightarrow> (s', Inl e) | (s', Inr x) \<Rightarrow> f x s')"

definition pause :: "rat \<Rightarrow> unit io" where
  "pause t s = (s \<lparr> cs_sleeps := cs_sleeps s @ [t] \<rparr>, Inr ())"

definition transport :: "reply \<Rightarrow> answer res" where
  "transport r = (case r of
      TimedOut \<Rightarrow> Inl (HostawayNetwork ''timeout'')
    | NetworkFailed \<Rightarrow> Inl (HostawayNetwork ''network'')
    | OtherFailure \<Rightarrow> Inl (TransportError ''protocol'')
    | Replied a \<Rightarrow> Inr a)"

definition send :: "server \<Rightarrow> call \<Rightarrow> answer io" where
  "send srv c s = (s \<lparr> cs_calls := cs_calls s @ [c] \<rparr>, transport (srv (cs_calls s) c))"

subsection \<open>The access token\<close>

definition token_fields :: "pyval \<Rightarrow> pyval \<Rightarrow> pyval \<Rightarrow> (string \<times> int) res" where
  "token_fields issued kind expires =
     (case issued of
        PyStr t \<Rightarrow>
          if t = [] then Inl (HostawayResponse ''access_token'')
          else if kind \<noteq> PyNone \<and> kind \<noteq> PyStr ''Bearer'' then Inl (HostawayResponse ''token_type'')
          else (case expires of
              PyInt n \<Rightarrow> if n \<le> 0 then Inl (HostawayResponse ''expires_in'') else Inr (t, n)
            | _ \<Rightarrow> Inl (HostawayResponse ''expires_in''))
      | _ \<Rightarrow> Inl (HostawayResponse ''access_token''))"

definition token_of_answer :: "answer \<Rightarrow> (string \<times> int) res" where
  "token_of_answer a =
     (if an_status a = 401 \<or> an_status a = 403 then Inl (HostawayAuthentication ''token_credentials'')
      else if an_status a = 429 then Inl (HostawayRateLimit ''token'')
      else if 500 \<le> an_status a then Inl (HostawayServer ''token'')
      else if 400 \<le> an_status a then Inl (HostawayResponse ''token_status'')
      else bindE (of_option (HostawayResponse ''token_json'') (an_body a)) (\<lambda>body.
           bindE (of_option (HostawayResponse ''token_object'') (dict_items body)) (\<lambda>p.
             token_fields (dget p ''access_token'') (dget p ''token_type'') (dget p ''expires_in''))))"

definition create_token :: "server \<Rightarrow> (string \<times> int) io" where
  "create_token srv = bindIO (send srv TokenCall) (\<lambda>a. liftIO (token_of_answer a))"

definition validate_generation :: "client_config \<Rightarrow> unit res" where
  "validate_generation cf =
     (if cf_account cf = [] \<or> cf_secret cf = [] then Inl (HostawayConfiguration ''credentials'')
      else if cf_shared_required cf \<and> \<not> cf_cache_shared cf then Inl (HostawayConfiguration ''shared_cache'')
      else Inr ())"

text \<open>How long a token of \<open>n\<close> seconds stays in the cache.\<close>

definition token_timeout :: "client_config \<Rightarrow> int \<Rightarrow> int" where
  "token_timeout cf n = max 1 (n - min (cf_safety cf) (max 1 (n div 10)))"

definition keep_token :: "client_config \<Rightarrow> string \<times> int \<Rightarrow> unit io" where
  "keep_token cf tn s = (s \<lparr> cs_token := Some (fst tn, token_timeout cf (snd tn)), cs_rejected := True \<rparr>, Inr ())"

definition generate_token :: "server \<Rightarrow> client_config \<Rightarrow> string io" where
  "generate_token srv cf =
     bindIO (liftIO (validate_generation cf)) (\<lambda>_.
     bindIO (create_token srv) (\<lambda>tn.
     bindIO (keep_token cf tn) (\<lambda>_.
     bindIO (pause 1) (\<lambda>_. returnIO (fst tn)))))"

definition get_token :: "server \<Rightarrow> client_config \<Rightarrow> bool \<Rightarrow> string io" where
  "get_token srv cf force s =
     (if cf_token cf \<noteq> [] \<and> \<not> force \<and> \<not> cs_rejected s then (s, Inr (cf_token cf))
      else case (if force then None else cs_token s) of
          Some (t, _) \<Rightarrow> if t \<noteq> [] then (s, Inr t) else generate_token srv cf s
        | None \<Rightarrow> generate_token srv cf s)"

definition invalidate :: "client_config \<Rightarrow> unit io" where
  "invalidate cf s =
     (s \<lparr> cs_rejected := True, cs_token := (if cf_account cf \<noteq> [] then None else cs_token s) \<rparr>, Inr ())"

subsection \<open>Requests\<close>

definition renewed_token :: "server \<Rightarrow> client_config \<Rightarrow> string io" where
  "renewed_token srv cf s = (case get_token srv cf True s of
      (s', Inl (HostawayConfiguration m)) \<Rightarrow> (s', Inl (HostawayAuthentication ''renewal_not_configured''))
    | (s', r) \<Rightarrow> (s', r))"

text \<open>\<open>_authenticated_get\<close>, \<open>_authenticated_post\<close>, \<open>_authenticated_put\<close>: \<open>mk\<close> makes the call of a token.\<close>

definition authenticated :: "server \<Rightarrow> client_config \<Rightarrow> (string \<Rightarrow> call) \<Rightarrow> answer io" where
  "authenticated srv cf mk =
     bindIO (get_token srv cf False) (\<lambda>t.
     bindIO (send srv (mk t)) (\<lambda>a.
       if an_status a \<noteq> 403 then returnIO a
       else bindIO (invalidate cf) (\<lambda>_.
            bindIO (renewed_token srv cf) (\<lambda>t'. send srv (mk t')))))"

definition raise_for_response :: "answer \<Rightarrow> answer res" where
  "raise_for_response a =
     (if an_status a = 401 \<or> an_status a = 403 then Inl (HostawayAuthentication ''credentials'')
      else if an_status a = 404 then Inl (HostawayNotFound ''resource'')
      else if an_status a = 429 then Inl (HostawayRateLimit ''persisted'')
      else if 500 \<le> an_status a then Inl (HostawayServer ''persisted'')
      else if an_status a = 400 \<or> an_status a = 409 \<or> an_status a = 422
      then Inl (HostawayAvailability ''restrictions'')
      else if 400 \<le> an_status a then Inl (HostawayResponse ''status'')
      else Inr a)"

definition json_body :: "answer \<Rightarrow> pyval res" where
  "json_body a = of_option (HostawayResponse ''invalid_json'') (an_body a)"

definition retry_delay :: "decimal option \<Rightarrow> nat \<Rightarrow> rat" where
  "retry_delay after attempt = (case after of
      Some (Fin q) \<Rightarrow> min 30 (max 0 q)
    | Some (Infinity negative) \<Rightarrow> if negative then 0 else 30
    | Some NaN \<Rightarrow> 0
    | None \<Rightarrow> min 4 (1 / 2 * 2 ^ (attempt - 1)))"

text \<open>The loop of \<open>_get_with_retry\<close>: attempt \<open>k\<close>, with \<open>left\<close> attempts to go.\<close>

fun get_loop :: "server \<Rightarrow> client_config \<Rightarrow> (string \<Rightarrow> call) \<Rightarrow> nat \<Rightarrow> nat \<Rightarrow> answer io" where
  "get_loop srv cf mk 0 k = failIO (HostawayNetwork ''not_completed'')"
| "get_loop srv cf mk (Suc left) k =
     bindIO (authenticated srv cf mk) (\<lambda>a.
       if an_status a = 429 \<or> 500 \<le> an_status a then
         (if left \<noteq> 0 then bindIO (pause (retry_delay (an_retry a) k)) (\<lambda>_. get_loop srv cf mk left (k + 1))
          else failIO (if an_status a = 429 then HostawayRateLimit ''persisted'' else HostawayServer ''persisted''))
       else liftIO (raise_for_response a))"

definition get_json :: "server \<Rightarrow> client_config \<Rightarrow> string \<Rightarrow> (string \<times> pyval) list \<Rightarrow> pyval io" where
  "get_json srv cf path params =
     bindIO (get_loop srv cf (GetCall path params) (cf_get_attempts cf) 1) (\<lambda>a. liftIO (json_body a))"

definition write_json :: "server \<Rightarrow> client_config \<Rightarrow> (string \<Rightarrow> call) \<Rightarrow> pyval io" where
  "write_json srv cf mk =
     bindIO (authenticated srv cf mk) (\<lambda>a.
     bindIO (liftIO (raise_for_response a)) (\<lambda>b. liftIO (json_body b)))"

definition post_json ::
    "server \<Rightarrow> client_config \<Rightarrow> string \<Rightarrow> (string \<times> pyval) list \<Rightarrow> (string \<times> pyval) list \<Rightarrow> pyval io" where
  "post_json srv cf path body params = write_json srv cf (PostCall path body params)"

definition put_json :: "server \<Rightarrow> client_config \<Rightarrow> string \<Rightarrow> (string \<times> pyval) list \<Rightarrow> pyval io" where
  "put_json srv cf path body = write_json srv cf (PutCall path body)"

subsection \<open>Operations\<close>

definition number_text :: "int \<Rightarrow> string" where
  "number_text n = (if n = 0 then ''0'' else if n < 0 then ''-'' @ pad_digits (ndigits (nat (- n))) (- n) else pad_digits (ndigits (nat n)) n)"

definition validate_stay_range :: "int \<Rightarrow> date \<Rightarrow> date \<Rightarrow> unit res" where
  "validate_stay_range listing i j =
     (if listing \<le> 0 then Inl (ValueError ''listing_id'')
      else if j - i < 1 then Inl (ValueError ''end_date'')
      else if 366 < j - i then Inl (ValueError ''window'')
      else Inr ())"

definition get_listing_calendar :: "server \<Rightarrow> client_config \<Rightarrow> int \<Rightarrow> date \<Rightarrow> date \<Rightarrow> calendar_document io" where
  "get_listing_calendar srv cf listing i j =
     bindIO (liftIO (validate_stay_range listing i j)) (\<lambda>_.
     bindIO (get_json srv cf (''/listings/'' @ number_text listing @ ''/calendar'')
              [(''startDate'', PyStr (isoformat i)), (''endDate'', PyStr (isoformat j)), (''includeResources'', PyInt 0)])
       (\<lambda>v. liftIO (validate_calendar_response v)))"

text \<open>\<open>inspect_object_response\<close> and the currency fields of a listing, cached.\<close>

definition object_record :: "pyval \<Rightarrow> (string \<times> pyval) list res" where
  "object_record v = (case v of
      PyDict p \<Rightarrow> if \<not> succeeded (dget p ''status'') then Inl (HostawayResponse ''object_failure'')
        else of_option (HostawayResponse ''object_result'') (dict_items (dget p ''result''))
    | _ \<Rightarrow> Inl (HostawayResponse ''object_failure''))"

definition get_listing :: "server \<Rightarrow> client_config \<Rightarrow> int \<Rightarrow> bool \<Rightarrow> (string \<times> pyval) list io" where
  "get_listing srv cf listing resources =
     (if listing \<le> 0 then failIO (ValueError ''listing_id'')
      else bindIO (get_json srv cf (''/listings/'' @ number_text listing) [(''includeResources'', bool_int resources)])
             (\<lambda>v. liftIO (object_record v)))"

definition keep_currency :: "int \<Rightarrow> (string \<times> pyval) list \<Rightarrow> unit io" where
  "keep_currency listing r s = (s \<lparr> cs_currency := (listing, r) # cs_currency s \<rparr>, Inr ())"

definition get_listing_currency :: "server \<Rightarrow> client_config \<Rightarrow> int \<Rightarrow> bool \<Rightarrow> (string \<times> pyval) list io" where
  "get_listing_currency srv cf listing bypass s =
     (if listing \<le> 0 then (s, Inl (ValueError ''listing_id''))
      else case (if bypass then None else map_of (cs_currency s) listing) of
        Some r \<Rightarrow> (s, Inr r)
      | None \<Rightarrow>
          bindIO (get_listing srv cf listing False) (\<lambda>found_listing.
            let r = [(''id'', dget found_listing ''id''), (''currencyCode'', dget found_listing ''currencyCode'')] in
            bindIO (keep_currency listing r) (\<lambda>_. returnIO r)) s)"

definition calculate_price ::
    "server \<Rightarrow> client_config \<Rightarrow> fx_config \<Rightarrow> instant \<Rightarrow> int \<Rightarrow> date \<Rightarrow> date \<Rightarrow> int \<Rightarrow> bool \<Rightarrow> string \<Rightarrow> price_quote io" where
  "calculate_price srv cf fxc clock listing i j guests bypass override =
     bindIO (liftIO (validate_stay_range listing i j)) (\<lambda>_.
     if guests \<le> 0 then failIO (ValueError ''guests'')
     else bindIO (post_json srv cf (''/listings/'' @ number_text listing @ ''/calendar/priceDetails'')
            [(''startingDate'', PyStr (isoformat i)), (''endingDate'', PyStr (isoformat j)),
             (''numberOfGuests'', PyInt guests), (''version'', PyInt 2)] []) (\<lambda>v.
          bindIO (get_listing_currency srv cf listing bypass) (\<lambda>r.
            liftIO (validate_price_response fxc clock v listing i j guests (PyDict r) override))))"

definition create_remote_reservation ::
    "server \<Rightarrow> client_config \<Rightarrow> (pyval \<Rightarrow> datetime option res) \<Rightarrow> create_request \<Rightarrow> snapshot io" where
  "create_remote_reservation srv cf reading r =
     (if \<not> cf_live_booking cf then failIO (HostawayConfiguration ''hostaway_live_booking_disabled'')
      else bindIO (liftIO (request_payload r)) (\<lambda>payload.
        let provider = strip (cf_provider cf) in
        if provider = [] \<or> 65 < length provider then failIO (HostawayConfiguration ''provider_invalid'')
        else bindIO (post_json srv cf ''/reservations'' payload [(''provider'', PyStr provider)])
               (\<lambda>v. liftIO (validate_reservation_response reading v))))"

definition get_reservation :: "server \<Rightarrow> client_config \<Rightarrow> (pyval \<Rightarrow> datetime option res) \<Rightarrow> int \<Rightarrow> snapshot io" where
  "get_reservation srv cf reading n =
     (if n \<le> 0 then failIO (ValueError ''reservation_id'')
      else bindIO (get_json srv cf (''/reservations/'' @ number_text n) []) (\<lambda>v.
             liftIO (validate_reservation_response reading v)))"

text \<open>Writes to a reservation; \<open>document\<close> is the outcome of \<open>request.to_payload()\<close>.\<close>

definition update_reservation ::
    "server \<Rightarrow> client_config \<Rightarrow> (pyval \<Rightarrow> datetime option res) \<Rightarrow> int \<Rightarrow> (string \<times> pyval) list res \<Rightarrow> bool \<Rightarrow> snapshot io" where
  "update_reservation srv cf reading n document extension =
     (if \<not> cf_live_modification cf then failIO (HostawayConfiguration ''hostaway_live_modification_disabled'')
      else if extension \<and> \<not> cf_live_extension cf then failIO (HostawayConfiguration ''hostaway_live_extension_disabled'')
      else if n \<le> 0 then failIO (ValueError ''reservation_id'')
      else bindIO (liftIO document) (\<lambda>body.
           bindIO (put_json srv cf (''/reservations/'' @ number_text n) body) (\<lambda>_. get_reservation srv cf reading n)))"

definition cancellation_payload :: "string \<Rightarrow> (string \<times> pyval) list res" where
  "cancellation_payload actor =
     (if actor \<notin> {''guest'', ''host''} then Inl (ValueError ''invalid_cancellation_actor'')
      else Inr [(''cancelledBy'', PyStr actor)])"

definition cancel_reservation ::
    "server \<Rightarrow> client_config \<Rightarrow> (pyval \<Rightarrow> datetime option res) \<Rightarrow> int \<Rightarrow> string \<Rightarrow> snapshot io" where
  "cancel_reservation srv cf reading n actor =
     (if \<not> cf_live_cancellation cf then failIO (HostawayConfiguration ''hostaway_live_cancellation_disabled'')
      else if \<not> cf_automatic_cancellation cf then failIO (HostawayConfiguration ''automatic_cancellation_disabled'')
      else if n \<le> 0 then failIO (ValueError ''reservation_id'')
      else bindIO (liftIO (cancellation_payload actor)) (\<lambda>body.
           bindIO (put_json srv cf (''/reservations/'' @ number_text n @ ''/statuses/cancelled'') body)
             (\<lambda>_. get_reservation srv cf reading n)))"

text \<open>The recorded receipts of a reservation.\<close>

definition charge_rows :: "int \<Rightarrow> pyval \<Rightarrow> (string \<times> pyval) list list res" where
  "charge_rows n v = (case v of
      PyDict p \<Rightarrow>
        if dget p ''status'' \<noteq> PyStr ''success'' then Inl (HostawayResponse ''charges'')
        else (case dget p ''result'' of
            PyList items \<Rightarrow>
              if 100 \<le> length items then Inl (HostawayResponse ''charges_incomplete'')
              else mapE (\<lambda>x. case dict_items x of
                   Some row \<Rightarrow> if equals_int (dget row ''reservationId'') n then Inr row
                               else Inl (HostawayResponse ''charges_mismatch'')
                 | None \<Rightarrow> Inl (HostawayResponse ''charges_mismatch'')) items
          | _ \<Rightarrow> Inl (HostawayResponse ''charges_incomplete''))
    | _ \<Rightarrow> Inl (HostawayResponse ''charges''))"

definition get_guest_charges :: "server \<Rightarrow> client_config \<Rightarrow> int \<Rightarrow> (string \<times> pyval) list list io" where
  "get_guest_charges srv cf n =
     (if n \<le> 0 then failIO (ValueError ''reservation_id'')
      else bindIO (get_json srv cf ''/guestPayments/charges''
                    [(''reservationId'', PyInt n), (''limit'', PyInt 100), (''offset'', PyInt 0)])
             (\<lambda>v. liftIO (charge_rows n v)))"

text \<open>
  The documented receipt of a payment made elsewhere; \<open>paid_at\<close> is the text of its time. The
  checks run in their order: the amount is read last but one.
\<close>

definition charge_accepted :: "(string \<times> pyval) list \<Rightarrow> pyval \<Rightarrow> int \<Rightarrow> string \<Rightarrow> rat \<Rightarrow> string \<Rightarrow> bool res" where
  "charge_accepted r status n title paid currency =
     (if status \<noteq> PyStr ''success''
         \<or> \<not> (case dget r ''id'' of PyInt m \<Rightarrow> True | PyBool b \<Rightarrow> True | _ \<Rightarrow> False)
         \<or> \<not> equals_int (dget r ''reservationId'') n \<or> dget r ''status'' \<noteq> PyStr ''paid''
         \<or> dget r ''currency'' \<noteq> PyStr currency \<or> dget r ''title'' \<noteq> PyStr title
      then Inr False
      else (case decimal_of_str (dget r ''amount'') of
          None \<Rightarrow> Inl (DecimalError ''amount'')
        | Some q \<Rightarrow> Inr (q = Fin paid \<and> dget r ''paymentProvider'' = PyStr ''offline'')))"

definition create_offline_paid_charge ::
    "server \<Rightarrow> client_config \<Rightarrow> int \<Rightarrow> string \<Rightarrow> rat \<Rightarrow> string \<Rightarrow> string \<Rightarrow> string \<Rightarrow> (string \<times> pyval) list io" where
  "create_offline_paid_charge srv cf n title paid currency description paid_at =
     (if \<not> cf_receipts cf then failIO (HostawayConfiguration ''hostaway_financial_receipts_disabled'')
      else if n \<le> 0 then failIO (ValueError ''reservation_id'')
      else bindIO (post_json srv cf (''/guestPayments/charges/'' @ number_text n)
             [(''title'', PyStr title), (''description'', PyStr description), (''amount'', PyDecText paid),
              (''paymentMethod'', PyStr ''credit_card''), (''status'', PyStr ''paid''), (''scheduledDate'', PyStr paid_at)] [])
        (\<lambda>v. case Option.bind (dict_items v) (\<lambda>p. map_option (Pair p) (dict_items (dget p ''result''))) of
            None \<Rightarrow> failIO (HostawayResponse ''receipt_mismatch'')
          | Some (p, r) \<Rightarrow>
              bindIO (liftIO (charge_accepted r (dget p ''status'') n title paid currency)) (\<lambda>ok.
                if ok then returnIO r else failIO (HostawayResponse ''receipt_mismatch''))))"

subsection \<open>The calls of a request\<close>

lemma bindIO_run: "bindIO m f s = (s', x) \<longleftrightarrow>
    (\<exists>e. m s = (s', Inl e) \<and> x = Inl e) \<or> (\<exists>s1 y. m s = (s1, Inr y) \<and> f y s1 = (s', x))"
  by (auto simp: bindIO_def split: prod.splits sum.splits)

lemmas io_defs = returnIO_def failIO_def liftIO_def

text \<open>
  \<open>renewal calls\<close>: at most one call for a token. The calls of \<open>get_token\<close>, and of a request:
  nothing, one request, or a request refused with 403 and then, after a new token, one more.
\<close>

definition renewal :: "call list \<Rightarrow> bool" where
  "renewal cs = (cs = [] \<or> cs = [TokenCall])"

lemma create_token_calls: "create_token srv s = (s1, y) \<Longrightarrow> cs_calls s1 = cs_calls s @ [TokenCall]"
  by (auto simp: create_token_def bindIO_def liftIO_def send_def split: sum.splits)

lemma generate_token_calls:
  assumes "generate_token srv cf s = (s', x)"
  shows "\<exists>tk. renewal tk \<and> cs_calls s' = cs_calls s @ tk \<and> (\<forall>t. x = Inr t \<longrightarrow> tk = [TokenCall])"
proof (cases "validate_generation cf")
  case (Inl e)
  then show ?thesis using assms by (auto simp: generate_token_def bindIO_def liftIO_def renewal_def)
next
  case (Inr u)
  obtain s1 y where y: "create_token srv s = (s1, y)" by (cases "create_token srv s")
  have "cs_calls s' = cs_calls s1"
    using assms y Inr by (cases y) (auto simp: generate_token_def bindIO_def io_defs keep_token_def pause_def)
  then show ?thesis using create_token_calls [OF y] by (intro exI [of _ "[TokenCall]"]) (simp add: renewal_def)
qed

lemma get_token_calls:
  assumes "get_token srv cf force s = (s', x)"
  shows "\<exists>tk. renewal tk \<and> cs_calls s' = cs_calls s @ tk \<and> (force \<longrightarrow> (\<forall>t. x = Inr t \<longrightarrow> tk = [TokenCall]))"
proof (cases "generate_token srv cf s = (s', x)")
  case True
  then show ?thesis using generate_token_calls by blast
next
  case False
  then have "s' = s \<and> \<not> force" using assms by (auto simp: get_token_def split: option.splits if_splits)
  then show ?thesis by (simp add: renewal_def)
qed

lemma renewed_token_calls:
  assumes "renewed_token srv cf s = (s', x)"
  shows "\<exists>tk. renewal tk \<and> cs_calls s' = cs_calls s @ tk \<and> (\<forall>t. x = Inr t \<longrightarrow> tk = [TokenCall])"
proof -
  obtain y where y: "get_token srv cf True s = (s', y)" "\<And>t. x = Inr t \<Longrightarrow> y = Inr t"
    using assms by (auto simp: renewed_token_def split: prod.splits sum.splits exc.splits)
  show ?thesis using get_token_calls [OF y(1)] y(2) by blast
qed

definition request_calls :: "server \<Rightarrow> (string \<Rightarrow> call) \<Rightarrow> call list \<Rightarrow> call list \<Rightarrow> bool" where
  "request_calls srv mk before new = (renewal new
     \<or> (\<exists>tk t. renewal tk \<and> new = tk @ [mk t])
     \<or> (\<exists>tk t tk' a. renewal tk \<and> renewal tk' \<and> new = tk @ [mk t] @ tk'
          \<and> srv (before @ tk) (mk t) = Replied a \<and> an_status a = 403)
     \<or> (\<exists>tk t t' a. renewal tk \<and> new = tk @ [mk t, TokenCall, mk t']
          \<and> srv (before @ tk) (mk t) = Replied a \<and> an_status a = 403))"

lemma refused_calls:
  assumes "renewal tk" and "srv (before @ tk) (mk t) = Replied a" and "an_status a = 403"
  shows "renewal tk' \<Longrightarrow> request_calls srv mk before (tk @ [mk t] @ tk')"
    and "request_calls srv mk before (tk @ [mk t, TokenCall, mk t'])"
  unfolding request_calls_def using assms by blast+

lemma send_run: "send srv c s = (s', x) \<longleftrightarrow> s' = s \<lparr> cs_calls := cs_calls s @ [c] \<rparr> \<and> transport (srv (cs_calls s) c) = x"
  by (auto simp: send_def)

lemma transport_Inr: "transport r = Inr a \<longleftrightarrow> r = Replied a"
  by (cases r) (simp_all add: transport_def)

lemma authenticated_calls:
  assumes "authenticated srv cf mk s = (s', x)"
  shows "\<exists>new. cs_calls s' = cs_calls s @ new \<and> request_calls srv mk (cs_calls s) new"
proof -
  obtain s1 y where y: "get_token srv cf False s = (s1, y)" by (cases "get_token srv cf False s")
  obtain tk where tk: "renewal tk" "cs_calls s1 = cs_calls s @ tk" using get_token_calls [OF y] by blast
  show ?thesis
  proof (cases y)
    case (Inl e)
    then have "s' = s1" using assms y by (simp add: authenticated_def bindIO_def)
    then show ?thesis using tk by (auto simp: request_calls_def)
  next
    case (Inr t)
    let ?s2 = "s1 \<lparr> cs_calls := cs_calls s1 @ [mk t] \<rparr>"
    have rest: "(case transport (srv (cs_calls s1) (mk t)) of Inl e \<Rightarrow> (?s2, Inl e)
        | Inr a \<Rightarrow> (if an_status a \<noteq> 403 then returnIO a
            else bindIO (invalidate cf) (\<lambda>_. bindIO (renewed_token srv cf) (\<lambda>t'. send srv (mk t')))) ?s2) = (s', x)"
      using assms y Inr by (simp add: authenticated_def bindIO_def [of "get_token srv cf False"] bindIO_def [of "send srv (mk t)"] send_def)
    show ?thesis
    proof (cases "\<exists>a. srv (cs_calls s1) (mk t) = Replied a \<and> an_status a = 403")
      case False
      then have "s' = ?s2" using rest
        by (auto simp: transport_Inr returnIO_def split: sum.splits if_splits)
      then show ?thesis using tk by (auto simp: request_calls_def)
    next
      case True
      then obtain a where a: "srv (cs_calls s1) (mk t) = Replied a" "an_status a = 403" by blast
      then have step: "bindIO (invalidate cf) (\<lambda>_. bindIO (renewed_token srv cf) (\<lambda>t'. send srv (mk t'))) ?s2 = (s', x)"
        using rest by (simp add: transport_def)
      obtain s3 z where z: "renewed_token srv cf (fst (invalidate cf ?s2)) = (s3, z)"
        by (cases "renewed_token srv cf (fst (invalidate cf ?s2))")
      obtain tk' where tk': "renewal tk'" "cs_calls s3 = cs_calls ?s2 @ tk'" "\<forall>t. z = Inr t \<longrightarrow> tk' = [TokenCall]"
        using renewed_token_calls [OF z] by (auto simp: invalidate_def)
      have "cs_calls s' = cs_calls s @ tk @ [mk t] @ tk' \<or> (\<exists>t'. tk' = [TokenCall] \<and> cs_calls s' = cs_calls s @ tk @ [mk t, TokenCall, mk t'])"
        using step z tk tk' by (cases z) (auto simp: bindIO_def invalidate_def send_def)
      then show ?thesis
        using refused_calls [where srv = srv and mk = mk and before = "cs_calls s", OF tk(1)] tk tk'(1) a by fastforce
    qed
  qed
qed


subsection \<open>Properties\<close>

definition is_write :: "call \<Rightarrow> bool" where
  "is_write c = (case c of PostCall path body params t \<Rightarrow> True | PutCall path body t \<Rightarrow> True | _ \<Rightarrow> False)"

lemma renewal_no_write: "renewal tk \<Longrightarrow> filter is_write tk = []"
  by (auto simp: renewal_def is_write_def)

text \<open>
  What a write may send: nothing, the one write, or the write twice when the first was refused
  with 403 and a new token was issued for the second.
\<close>

definition careful_writes :: "server \<Rightarrow> call list \<Rightarrow> call list \<Rightarrow> bool" where
  "careful_writes srv before new = (length (filter is_write new) \<le> 1
     \<or> (\<exists>tk c c' a. renewal tk \<and> new = tk @ [c, TokenCall, c'] \<and> srv (before @ tk) c = Replied a \<and> an_status a = 403))"

lemma request_calls_careful:
  assumes "request_calls srv mk before new"
  shows "careful_writes srv before new \<and> length (filter is_write new) \<le> 2"
  using assms unfolding request_calls_def careful_writes_def
  by (elim disjE exE conjE) (auto simp: renewal_no_write is_write_def split: call.splits)

lemma write_json_calls:
  assumes "write_json srv cf mk s = (s', x)"
  shows "\<exists>new. cs_calls s' = cs_calls s @ new \<and> request_calls srv mk (cs_calls s) new"
proof -
  obtain s1 y where y: "authenticated srv cf mk s = (s1, y)" by (cases "authenticated srv cf mk s")
  have "s' = s1" using assms y by (cases y) (auto simp: write_json_def bindIO_def liftIO_def split: sum.splits)
  then show ?thesis using authenticated_calls [OF y] by simp
qed

text \<open>Creating a reservation at the channel manager sends at most one write, or two when the
  first was refused with status 403, and then a new access token was asked for in between; a
  timeout, a network failure or any other answer is never followed by a second write.\<close>

lemma creation_writes_once:
  assumes "create_remote_reservation srv cf reading r s = (s', x)"
  shows "\<exists>new. cs_calls s' = cs_calls s @ new \<and> careful_writes srv (cs_calls s) new \<and> length (filter is_write new) \<le> 2"
proof -
  have none: "\<exists>new. cs_calls s = cs_calls s @ new \<and> careful_writes srv (cs_calls s) new \<and> length (filter is_write new) \<le> 2"
    by (rule exI [of _ "[]"]) (simp add: careful_writes_def)
  show ?thesis
  proof (cases "s' = s")
    case False
    then obtain payload y s1 where w: "write_json srv cf (PostCall ''/reservations'' payload
        [(''provider'', PyStr (strip (cf_provider cf)))]) s = (s1, y)" "s' = s1"
      using assms by (auto simp: create_remote_reservation_def bindIO_run io_defs Let_def post_json_def split: if_splits)
    obtain new where "cs_calls s' = cs_calls s @ new" "request_calls srv (PostCall ''/reservations'' payload
        [(''provider'', PyStr (strip (cf_provider cf)))]) (cs_calls s) new"
      using write_json_calls [OF w(1)] w(2) by blast
    then show ?thesis using request_calls_careful by blast
  qed (use none in simp)
qed

text \<open>The reads of a loop: at most two requests for each attempt.\<close>

definition is_get :: "call \<Rightarrow> bool" where
  "is_get c = (case c of GetCall path params t \<Rightarrow> True | _ \<Rightarrow> False)"

lemma request_calls_gets:
  assumes "request_calls srv (GetCall path params) before new"
  shows "length (filter is_get new) \<le> 2 \<and> filter is_write new = [] \<and> length new \<le> 4"
  using assms unfolding request_calls_def by (auto simp: renewal_def is_get_def is_write_def)

text \<open>How a read may end: with an answer below 400, an error of the channel manager, or a failure
  of the HTTP library that is no timeout and no network error.\<close>

definition read_outcome :: "answer res \<Rightarrow> bool" where
  "read_outcome x = (case x of Inr a \<Rightarrow> an_status a < 400 | Inl e \<Rightarrow> is_hostaway_error e \<or> (\<exists>m. e = TransportError m))"

definition io_error :: "exc \<Rightarrow> bool" where
  "io_error e = (is_hostaway_error e \<or> (\<exists>m. e = TransportError m))"

lemma transport_error: "transport r = Inl e \<Longrightarrow> io_error e"
  by (cases r) (auto simp: transport_def io_error_def)

lemma io_error_hostaway [simp]: "io_error (TransportError m)" "is_hostaway_error e \<Longrightarrow> io_error e"
  by (simp_all add: io_error_def)

lemma token_fields_error: "token_fields issued kind expires = Inl e \<Longrightarrow> io_error e"
  unfolding token_fields_def by (cases issued; cases expires) (auto split: if_splits)

lemma token_of_answer_error: "token_of_answer a = Inl e \<Longrightarrow> io_error e"
  using token_fields_error by (auto simp: token_of_answer_def bindE_Inl_iff split: if_splits)

lemma generate_token_run:
  assumes "generate_token srv cf s = (s', x)"
  shows "(\<forall>e. x = Inl e \<longrightarrow> io_error e) \<and> (\<exists>ps. cs_sleeps s' = cs_sleeps s @ ps \<and> length ps \<le> 1 \<and> set ps \<subseteq> {1})"
  using assms
  by (auto simp: generate_token_def bindIO_run io_defs create_token_def send_run keep_token_def pause_def
      validate_generation_def dest: transport_error token_of_answer_error split: if_splits)

lemma get_token_run:
  assumes "get_token srv cf force s = (s', x)"
  shows "(\<forall>e. x = Inl e \<longrightarrow> io_error e) \<and> (\<exists>ps. cs_sleeps s' = cs_sleeps s @ ps \<and> length ps \<le> 1 \<and> set ps \<subseteq> {1})"
proof (cases "generate_token srv cf s = (s', x)")
  case True
  then show ?thesis by (rule generate_token_run)
next
  case False
  then show ?thesis using assms by (auto simp: get_token_def split: option.splits if_splits)
qed

lemma renewed_token_run:
  assumes "renewed_token srv cf s = (s', x)"
  shows "(\<forall>e. x = Inl e \<longrightarrow> io_error e) \<and> (\<exists>ps. cs_sleeps s' = cs_sleeps s @ ps \<and> length ps \<le> 1 \<and> set ps \<subseteq> {1})"
proof -
  obtain y where y: "get_token srv cf True s = (s', y)" and x: "x = y \<or> x = Inl (HostawayAuthentication ''renewal_not_configured'')"
    using assms by (auto simp: renewed_token_def split: prod.splits sum.splits exc.splits)
  then show ?thesis using get_token_run [OF y] by (auto simp: io_error_def)
qed

lemma authenticated_run:
  assumes "authenticated srv cf mk s = (s', x)"
  shows "(\<forall>e. x = Inl e \<longrightarrow> io_error e) \<and> (\<exists>ps. cs_sleeps s' = cs_sleeps s @ ps \<and> length ps \<le> 2 \<and> set ps \<subseteq> {1})"
proof -
  obtain s1 y where y: "get_token srv cf False s = (s1, y)" by (cases "get_token srv cf False s")
  obtain ps where ps: "cs_sleeps s1 = cs_sleeps s @ ps" "length ps \<le> 1" "set ps \<subseteq> {1}" "\<forall>e. y = Inl e \<longrightarrow> io_error e"
    using get_token_run [OF y] by blast
  consider (early) "cs_sleeps s' = cs_sleeps s1" "\<forall>e. x = Inl e \<longrightarrow> io_error e"
    | (again) s2 s3 z where "cs_sleeps s2 = cs_sleeps s1" "renewed_token srv cf s2 = (s3, z)" "cs_sleeps s' = cs_sleeps s3"
        "\<forall>e. x = Inl e \<longrightarrow> z = Inl e \<or> io_error e"
  proof (cases y)
    case (Inl e)
    then show thesis using assms y ps(4) by (intro early) (auto simp: authenticated_def bindIO_def)
  next
    case (Inr t)
    show thesis
    proof (cases "\<exists>a. srv (cs_calls s1) (mk t) = Replied a \<and> an_status a = 403")
      case False
      then show thesis
        using assms y Inr transport_error
        by (intro early) (auto simp: authenticated_def bindIO_run send_run transport_Inr returnIO_def)
    next
      case True
      then obtain a where a: "srv (cs_calls s1) (mk t) = Replied a" "an_status a = 403" by blast
      let ?s2 = "s1 \<lparr> cs_calls := cs_calls s1 @ [mk t] \<rparr>"
      have step: "bindIO (invalidate cf) (\<lambda>_. bindIO (renewed_token srv cf) (\<lambda>t'. send srv (mk t'))) ?s2 = (s', x)"
        using assms y Inr a
        by (simp add: authenticated_def bindIO_def [of "get_token srv cf False"] bindIO_def [of "send srv (mk t)"] send_def transport_def)
      obtain z s3 where z: "renewed_token srv cf (fst (invalidate cf ?s2)) = (s3, z)"
        by (cases "renewed_token srv cf (fst (invalidate cf ?s2))")
      have "cs_sleeps s' = cs_sleeps s3 \<and> (\<forall>e. x = Inl e \<longrightarrow> z = Inl e \<or> io_error e)"
        using step z transport_error by (cases z) (auto simp: bindIO_def invalidate_def send_def)
      then show thesis using z by (intro again [OF _ z]) (auto simp: invalidate_def)
    qed
  qed
  then show ?thesis
  proof cases
    case early
    then show ?thesis using ps by auto
  next
    case again
    obtain qs where "cs_sleeps s3 = cs_sleeps s2 @ qs" "length qs \<le> 1" "set qs \<subseteq> {1}" "\<forall>e. z = Inl e \<longrightarrow> io_error e"
      using renewed_token_run [OF again(2)] by blast
    then show ?thesis using again ps by (intro conjI exI [of _ "ps @ qs"]) auto
  qed
qed

lemma retry_delay_range: "0 \<le> retry_delay after attempt \<and> retry_delay after attempt \<le> 30"
  by (auto simp: retry_delay_def split: option.splits decimal.splits)

lemma raise_for_response_outcome: "\<not> 500 \<le> an_status a \<Longrightarrow> read_outcome (raise_for_response a)"
  by (auto simp: raise_for_response_def read_outcome_def)

lemma get_loop_run:
  assumes "get_loop srv cf (GetCall path params) left k s = (s', x)"
  shows "\<exists>new ps. cs_calls s' = cs_calls s @ new \<and> filter is_write new = [] \<and> length (filter is_get new) \<le> 2 * left
    \<and> cs_sleeps s' = cs_sleeps s @ ps \<and> length ps \<le> 3 * left \<and> (\<forall>t \<in> set ps. 0 \<le> t \<and> t \<le> 30) \<and> read_outcome x"
  using assms
proof (induction left arbitrary: k s)
  case 0
  then show ?case by (auto simp: failIO_def read_outcome_def)
next
  case (Suc left)
  let ?mk = "GetCall path params"
  obtain s1 y where y: "authenticated srv cf ?mk s = (s1, y)" by (cases "authenticated srv cf ?mk s")
  obtain new where new: "cs_calls s1 = cs_calls s @ new" "length (filter is_get new) \<le> 2" "filter is_write new = []"
    using authenticated_calls [OF y] request_calls_gets by blast
  obtain ps where ps: "cs_sleeps s1 = cs_sleeps s @ ps" "length ps \<le> 2" "set ps \<subseteq> {1}" "\<forall>e. y = Inl e \<longrightarrow> io_error e"
    using authenticated_run [OF y] by blast
  then have small: "\<forall>t \<in> set ps. 0 \<le> t \<and> t \<le> 30" by auto
  show ?case
  proof (cases "\<exists>a. y = Inr a \<and> (an_status a = 429 \<or> 500 \<le> an_status a) \<and> left \<noteq> 0")
    case True
    then obtain a where a: "y = Inr a" "an_status a = 429 \<or> 500 \<le> an_status a" "left \<noteq> 0" by blast
    let ?d = "retry_delay (an_retry a) k"
    have "get_loop srv cf ?mk left (k + 1) (s1 \<lparr> cs_sleeps := cs_sleeps s1 @ [?d] \<rparr>) = (s', x)"
      using Suc.prems y a by (simp add: bindIO_def pause_def)
    from Suc.IH [OF this] obtain new' ps' where rest: "cs_calls s' = cs_calls s1 @ new'" "filter is_write new' = []"
      "length (filter is_get new') \<le> 2 * left" "cs_sleeps s' = (cs_sleeps s1 @ [?d]) @ ps'" "length ps' \<le> 3 * left"
      "\<forall>t \<in> set ps'. 0 \<le> t \<and> t \<le> 30" "read_outcome x" by auto
    show ?thesis
      using rest new ps small retry_delay_range [of "an_retry a" k]
      by (intro exI [of _ "new @ new'"] exI [of _ "ps @ [?d] @ ps'"]) auto
  next
    case False
    then have "s' = s1 \<and> read_outcome x"
      using Suc.prems y ps(4) raise_for_response_outcome
      by (cases y) (auto simp: bindIO_def failIO_def liftIO_def read_outcome_def io_error_def split: if_splits)
    then show ?thesis using new ps small by (intro exI [of _ new] exI [of _ ps]) auto
  qed
qed


text \<open>A token is forgotten before it expires, except one of a single second.\<close>

lemma token_timeout_range:
  assumes "1 \<le> cf_safety cf" and "0 < n"
  shows "1 \<le> token_timeout cf n \<and> token_timeout cf n \<le> n \<and> (1 < n \<longrightarrow> token_timeout cf n < n)"
  using assms by (auto simp: token_timeout_def)

definition sample_client :: client_config where
  "sample_client = \<lparr> cf_token = [], cf_account = ''100'', cf_secret = ''secret'', cf_shared_required = True, cf_cache_shared = True,
     cf_safety = 300, cf_get_attempts = 3, cf_live_booking = True, cf_live_modification = False, cf_live_extension = False,
     cf_live_cancellation = False, cf_automatic_cancellation = False, cf_receipts = True, cf_provider = ''lsa'' \<rparr>"

definition fresh_client :: client_state where
  "fresh_client = \<lparr> cs_token = Some (''old'', 60), cs_rejected = False, cs_currency = [], cs_calls = [], cs_sleeps = [] \<rparr>"

text \<open>A server that refuses the first token, issues a new one and then does not answer.\<close>

definition refusing_server :: server where
  "refusing_server cs c = (case c of
      TokenCall \<Rightarrow> Replied \<lparr> an_status = 200, an_body = Some (PyDict [(''access_token'', PyStr ''new''), (''expires_in'', PyInt 3600)]), an_retry = None \<rparr>
    | _ \<Rightarrow> if cs = [] then Replied \<lparr> an_status = 403, an_body = None, an_retry = None \<rparr> else TimedOut)"

definition sample_request :: create_request where
  "sample_request = \<lparr> rq_listing_map = 12, rq_channel = 2000, rq_contact = sample_contact, rq_phone = ''+966'', rq_guests = 2,
     rq_check_in = 739373, rq_check_out = 739375, rq_currency = ''SAR'', rq_total = 900,
     rq_fields = [sample_field ''baseRate'' 900] \<rparr>"

lemma refused_write:
  "write_json refusing_server sample_client (PostCall path p q) fresh_client =
     (\<lparr> cs_token = Some (''new'', 3300), cs_rejected = True, cs_currency = [],
        cs_calls = [PostCall path p q ''old'', TokenCall, PostCall path p q ''new''], cs_sleeps = [1] \<rparr>,
      Inl (HostawayNetwork ''timeout''))"
  by (simp add: write_json_def authenticated_def bindIO_def io_defs get_token_def send_def transport_def renewed_token_def
      generate_token_def validate_generation_def create_token_def token_of_answer_def token_fields_def keep_token_def
      token_timeout_def pause_def invalidate_def refusing_server_def sample_client_def fresh_client_def dget_def)

lemma creation_writes_once_at:
  "\<exists>s'. create_remote_reservation refusing_server sample_client (\<lambda>v. Inr None) sample_request fresh_client
       = (s', Inl (HostawayNetwork ''timeout'')) \<and> length (filter is_write (cs_calls s')) = 2"
proof -
  have "case request_payload sample_request of Inl e \<Rightarrow> False | Inr p \<Rightarrow> True" by code_simp
  then obtain p where p: "request_payload sample_request = Inr p" by (cases "request_payload sample_request") auto
  have provider: "strip (cf_provider sample_client) = ''lsa''" by code_simp
  have run: "create_remote_reservation refusing_server sample_client (\<lambda>v. Inr None) sample_request fresh_client =
      (\<lparr> cs_token = Some (''new'', 3300), cs_rejected = True, cs_currency = [],
        cs_calls = [PostCall ''/reservations'' p [(''provider'', PyStr ''lsa'')] ''old'', TokenCall,
          PostCall ''/reservations'' p [(''provider'', PyStr ''lsa'')] ''new''], cs_sleeps = [1] \<rparr>,
       Inl (HostawayNetwork ''timeout''))"
    using refused_write [of "''/reservations''" p "[(''provider'', PyStr ''lsa'')]"]
    by (simp add: create_remote_reservation_def p provider bindIO_def liftIO_def post_json_def Let_def)
       (simp add: sample_client_def)
  show ?thesis using creation_writes_once [OF run] run by (simp add: is_write_def)
qed

end
