(* ===== verification/Gateway.thy ===== *)
theory Gateway
  imports Refunds
begin

section \<open>The card gateway (apps/payments/hyperpay)\<close>

text \<open>
  The settings of the gateway, its result codes (result\_codes.py), the classification of an
  HTTP exchange (client.py) and the amounts and the payload of a checkout (service.py). What the
  provider answers is a parameter: no answer, a broken exchange, or a status with a body that is
  JSON or not.
\<close>

record gateway =
  gs_enabled :: bool
  gs_refunds :: bool
  gs_refunds_production :: bool
  gs_revalidate :: bool
  gs_live_booking :: bool
  gs_apple_pay :: bool
  gs_environment :: string
  gs_currency :: string
  gs_payment_type :: string
  gs_entity :: string
  gs_token :: string
  gs_brands :: "string list"
  gs_merchant :: string
  gs_key :: string
  gs_decompose :: "string \<Rightarrow> string"

subsection \<open>Result codes\<close>

datatype gateway_status = GwPending | GwSuccess | GwFailed | GwCancelled | GwReview | GwUnknown

definition starts :: "string \<Rightarrow> string \<Rightarrow> bool" where
  "starts p s = (take (length p) s = p)"

text \<open>\<open>\d{3}\.\d{3}\.\d{3}\<close>.\<close>

definition valid_code :: "string \<Rightarrow> bool" where
  "valid_code s = (length s = 11 \<and> s ! 3 = CHR ''.'' \<and> s ! 7 = CHR ''.''
     \<and> list_all is_digit_char (take 3 s @ take 3 (drop 4 s) @ drop 8 s))"

definition success_code :: "string \<Rightarrow> bool" where
  "success_code s = (starts ''000.000.'' s \<or> starts ''000.100.1'' s \<or> starts ''000.3'' s \<or> starts ''000.6'' s
     \<or> starts ''000.400.110'' s \<or> starts ''000.400.120'' s)"

definition review_code :: "string \<Rightarrow> bool" where
  "review_code s = ((starts ''000.400.0'' s \<and> drop 9 s \<noteq> [] \<and> hd (drop 9 s) \<noteq> CHR ''3'') \<or> starts ''000.400.100'' s)"

definition pending_code :: "string \<Rightarrow> bool" where
  "pending_code s = (starts ''000.200.'' s \<or> starts ''800.400.5'' s \<or> starts ''100.400.500'' s)"

definition cancelled_codes :: "string list" where
  "cancelled_codes = [''100.396.101'', ''100.396.102'', ''100.396.103'', ''100.396.104'']"

definition map_result_code :: "pyval \<Rightarrow> gateway_status" where
  "map_result_code v = (case v of
      PyStr s \<Rightarrow>
        if \<not> valid_code s then GwUnknown
        else if s \<in> set cancelled_codes then GwCancelled
        else if review_code s then GwReview
        else if success_code s then GwSuccess
        else if pending_code s then GwPending
        else GwFailed
    | _ \<Rightarrow> GwUnknown)"

subsection \<open>The HTTP client\<close>

datatype exchange = NoAnswer | BrokenExchange | Answer int "pyval option"

definition request :: "exchange \<Rightarrow> (string \<times> pyval) list res" where
  "request x = (case x of
      NoAnswer \<Rightarrow> Inl (HyperPayConnection ''hyperpay_unavailable'')
    | BrokenExchange \<Rightarrow> Inl (TransportError ''protocol'')
    | Answer status body \<Rightarrow>
        if status = 401 \<or> status = 403 then Inl (HyperPayAuthentication ''hyperpay_authentication_failed'')
        else (case Option.bind body dict_items of
            None \<Rightarrow> Inl (HyperPayResponse ''hyperpay_invalid_response'')
          | Some doc \<Rightarrow>
              if 500 \<le> status then Inl (HyperPayConnection ''hyperpay_unavailable'')
              else if 400 \<le> status then Inl (HyperPayResponse ''hyperpay_request_rejected'')
              else Inr doc))"

text \<open>\<open>HyperPayClient()\<close> refuses to exist without its configuration.\<close>

definition client_ready :: "gateway \<Rightarrow> bool" where
  "client_ready g = (gs_enabled g \<and> gs_entity g \<noteq> [] \<and> gs_token g \<noteq> [])"

definition client_request :: "gateway \<Rightarrow> exchange \<Rightarrow> (string \<times> pyval) list res" where
  "client_request g x = (if client_ready g then request x
     else Inl (HyperPayConfiguration ''hyperpay_not_configured''))"

definition result_of :: "(string \<times> pyval) list \<Rightarrow> string \<Rightarrow> pyval" where
  "result_of doc field = (case dget doc ''result'' of PyDict r \<Rightarrow> dget r field | _ \<Rightarrow> PyStr [])"

definition safe_text :: "pyval \<Rightarrow> nat \<Rightarrow> string" where
  "safe_text v n = (case v of PyStr s \<Rightarrow> take n s | _ \<Rightarrow> [])"

definition safe_optional_text :: "pyval \<Rightarrow> nat \<Rightarrow> string option" where
  "safe_optional_text v n = (case v of PyStr s \<Rightarrow> if s = [] then None else Some (take n s) | _ \<Rightarrow> None)"

subsection \<open>Amounts\<close>

definition format_test_amount :: "rat \<Rightarrow> rat res" where
  "format_test_amount x =
     (if x < 0 then Inl (ValueError ''invalid_amount'')
      else bindE (quantize round_half_up 0 x) (\<lambda>n.
           if n \<noteq> x then Inl (ValueError ''test_amount_requires_whole_sar'') else Inr n))"

definition format_hyperpay_amount :: "gateway \<Rightarrow> rat \<Rightarrow> rat res" where
  "format_hyperpay_amount g x =
     (if gs_environment g = ''test'' then format_test_amount x
      else if x < 0 then Inl (ValueError ''invalid_amount'')
      else bindE (quantize round_half_up 2 x) (\<lambda>n.
           if n \<noteq> x then Inl (ValueError ''amount_has_unsupported_precision'') else Inr n))"

lemma format_hyperpay_amount_exact: "format_hyperpay_amount g x = Inr y \<Longrightarrow> y = x \<and> 0 \<le> x"
  by (auto simp: format_hyperpay_amount_def format_test_amount_def bindE_Inr_iff split: if_splits)

end
