(* ===== verification/GatewayRefunds.thy ===== *)
theory GatewayRefunds
  imports Gateway
begin

section \<open>Refunds through the gateway (apps/payments/hyperpay/refunds.py)\<close>

text \<open>
  A debt that is due is marked as processing, the provider is asked to return the money, and the
  answer settles the debt, leaves it open or makes it due again. The result of a submission keeps
  the state also when it raises: its parts are separate transactions. Of the \<open>hyperpay_refund\<close>
  detail the model keeps the state and the original payment; reconciliation, accounting alerts and
  notices are queued after the commit and left out.
\<close>

subsection \<open>The rows\<close>

definition find_refund :: "db \<Rightarrow> nat \<Rightarrow> (booking \<times> obligation) option" where
  "find_refund d k =
     (case find (\<lambda>b. row_get ob_id (bk_refunds b) k \<noteq> None) (db_bookings d) of
        None \<Rightarrow> None
      | Some b \<Rightarrow> map_option (Pair b) (row_get ob_id (bk_refunds b) k))"

definition with_refund :: "booking \<Rightarrow> obligation \<Rightarrow> booking" where
  "with_refund b r = b \<lparr> bk_refunds := row_put ob_id (bk_refunds b) r \<rparr>"

definition put_refund :: "db \<Rightarrow> booking \<Rightarrow> obligation \<Rightarrow> db" where
  "put_refund d b r = put_booking d (with_refund b r)"

definition with_payment_status :: "booking \<Rightarrow> nat \<Rightarrow> payment_status \<Rightarrow> booking" where
  "with_payment_status b k st =
     (case bk_intent b of
        None \<Rightarrow> b
      | Some i \<Rightarrow> b \<lparr> bk_intent := Some (i \<lparr> in_payments :=
            map (\<lambda>p. if pa_id p = k then p \<lparr> pa_status := st \<rparr> else p) (in_payments i) \<rparr>) \<rparr>)"

subsection \<open>Before the request\<close>

definition refunds_available :: "gateway \<Rightarrow> bool" where
  "refunds_available g = (gs_enabled g \<and> gs_refunds g
     \<and> (gs_environment g \<noteq> ''production'' \<or> gs_refunds_production g))"

definition refundable :: "payment \<Rightarrow> bool" where
  "refundable p = (pa_provider p = ''hyperpay'' \<and> pa_currency p = ''SAR''
     \<and> pa_status p \<in> {PaSucceeded, PaPartiallyRefunded})"

text \<open>The receipt the debt is drawn on: the allocated one, or the last one of the booking itself.\<close>

definition refunded_payment :: "intent \<Rightarrow> obligation \<Rightarrow> payment option" where
  "refunded_payment i r =
     (case ob_payment_attempt r of
        Some a \<Rightarrow> find (\<lambda>p. pa_id p = a \<and> refundable p \<and> pa_verified_at p \<noteq> None) (in_payments i)
      | None \<Rightarrow> latest_payment (filter (\<lambda>p. refundable p \<and> pa_modification p = None
                  \<and> pa_provider_id p \<notin> {None, Some []}) (in_payments i)))"

text \<open>A debt that is drawn on the payment, by the provider's reference or by its allocation.\<close>

definition charged :: "payment \<Rightarrow> obligation \<Rightarrow> bool" where
  "charged p r = (ob_original_payment r = pa_provider_id p \<or> ob_payment_attempt r = Some (pa_id p))"

definition previously_refunded :: "booking \<Rightarrow> obligation \<Rightarrow> payment \<Rightarrow> rat" where
  "previously_refunded b r p = sum_list (map ob_amount (filter (\<lambda>x. ob_id x \<noteq> ob_id r
     \<and> ob_status x \<in> {RefundProcessing, RefundTransferred} \<and> charged p x) (bk_refunds b)))"

definition prepare_refund :: "db \<Rightarrow> nat \<Rightarrow> (booking \<times> obligation \<times> payment) res" where
  "prepare_refund d k =
     bindE (of_option (DoesNotExist ''refund'') (find_refund d k)) (\<lambda>(b, r).
     if ob_status r \<noteq> RefundDue \<or> ob_amount r \<le> 0 then Inl (HyperPayRefund ''refund_not_available'')
     else if bk_offline b \<noteq> None then Inl (HyperPayRefund ''manual_refund_required'')
     else if ob_currency r \<noteq> ''SAR'' then Inl (HyperPayRefund ''refund_currency_not_supported'')
     else bindE (of_option (HyperPayRefund ''original_payment_not_found'') (bk_intent b)) (\<lambda>i.
          bindE (of_option (HyperPayRefund ''original_payment_not_found'') (refunded_payment i r)) (\<lambda>p.
          if pa_amount p - previously_refunded b r p < ob_amount r
          then Inl (HyperPayRefund ''refund_amount_exceeds_original_payment'')
          else Inr (b, r, p))))"

definition submitted :: "obligation \<Rightarrow> payment \<Rightarrow> obligation" where
  "submitted r p = r \<lparr> ob_status := RefundProcessing, ob_state := Some ''submitting'',
     ob_original_payment := pa_provider_id p \<rparr>"

subsection \<open>After the request\<close>

definition update_refund :: "db \<Rightarrow> nat \<Rightarrow> (obligation \<Rightarrow> obligation) \<Rightarrow> db res" where
  "update_refund d k f = bindE (of_option (DoesNotExist ''refund'') (find_refund d k)) (\<lambda>(b, r).
     Inr (put_refund d b (f r)))"

definition rejected :: "obligation \<Rightarrow> obligation" where
  "rejected r = r \<lparr> ob_status := RefundDue, ob_state := Some ''rejected'' \<rparr>"

definition restore_due :: "db \<Rightarrow> nat \<Rightarrow> db res" where
  "restore_due d k = update_refund d k rejected"

definition mark_unknown :: "db \<Rightarrow> nat \<Rightarrow> db res" where
  "mark_unknown d k = update_refund d k (\<lambda>r. r \<lparr> ob_state := Some ''unknown'' \<rparr>)"

definition transferred :: "string \<Rightarrow> instant \<Rightarrow> obligation \<Rightarrow> obligation" where
  "transferred reference t r = r \<lparr> ob_status := RefundTransferred, ob_state := Some ''confirmed'',
     ob_transfer_reference := take 100 reference, ob_transferred_at := Some t \<rparr>"

definition total_confirmed :: "booking \<Rightarrow> payment \<Rightarrow> rat" where
  "total_confirmed b p = sum_list (map ob_amount (filter (\<lambda>x. ob_status x = RefundTransferred
     \<and> ob_original_payment x = pa_provider_id p) (bk_refunds b)))"

definition record_response ::
    "env \<Rightarrow> db \<Rightarrow> nat \<Rightarrow> payment \<Rightarrow> (string \<times> pyval) list \<Rightarrow> (db \<times> string) res" where
  "record_response e d k p doc =
     bindE (of_option (DoesNotExist ''refund'') (find_refund d k)) (\<lambda>(b, r).
     case map_result_code (result_of doc ''code'') of
       GwSuccess \<Rightarrow>
         let b' = with_refund b (transferred (safe_text (dget doc ''id'') 255) (now e) r);
             st = (if pa_amount p \<le> total_confirmed b' p then PaRefunded else PaPartiallyRefunded)
         in Inr (put_booking d (with_payment_status b' (pa_id p) st), ''refund.hyperpay_completed'')
     | GwPending \<Rightarrow> Inr (put_refund d b (r \<lparr> ob_state := Some ''provider_pending'' \<rparr>), ''refund.hyperpay_submitted'')
     | _ \<Rightarrow> Inr (put_refund d b (rejected r), ''refund.hyperpay_failed''))"

text \<open>A result together with the state it leaves, whether it raises or not.\<close>

definition settled :: "db \<Rightarrow> db res \<Rightarrow> exc \<Rightarrow> db \<times> (exc + 'a)" where
  "settled d r x = (case r of Inl y \<Rightarrow> (d, Inl y) | Inr d' \<Rightarrow> (d', Inl x))"

definition conclude_refund :: "env \<Rightarrow> db \<Rightarrow> nat \<Rightarrow> payment \<Rightarrow> (string \<times> pyval) list res \<Rightarrow> db \<times> (exc + string)" where
  "conclude_refund e d k p answer =
     (case answer of
        Inl (HyperPayConnection c) \<Rightarrow> settled d (mark_unknown d k) (HyperPayRefund ''refund_result_unknown'')
      | Inl (HyperPayAuthentication c) \<Rightarrow> settled d (restore_due d k) (HyperPayRefund c)
      | Inl (HyperPayConfiguration c) \<Rightarrow> settled d (restore_due d k) (HyperPayRefund c)
      | Inl (HyperPayResponse c) \<Rightarrow> settled d (restore_due d k) (HyperPayRefund c)
      | Inl x \<Rightarrow> (d, Inl x)
      | Inr doc \<Rightarrow> (case record_response e d k p doc of Inl x \<Rightarrow> (d, Inl x) | Inr (d', c) \<Rightarrow> (d', Inr c)))"

definition submit_refund :: "gateway \<Rightarrow> env \<Rightarrow> db \<Rightarrow> nat \<Rightarrow> exchange \<Rightarrow> db \<times> (exc + string)" where
  "submit_refund g e d k answer =
     (if \<not> refunds_available g then (d, Inl (HyperPayRefund ''hyperpay_refunds_not_enabled''))
      else case prepare_refund d k of
        Inl x \<Rightarrow> (d, Inl x)
      | Inr (b, r, p) \<Rightarrow>
          (case format_hyperpay_amount g (ob_amount r) of
             Inl (ValueError c) \<Rightarrow> (d, Inl (HyperPayRefund ''refund_amount_not_supported''))
           | Inl x \<Rightarrow> (d, Inl x)
           | Inr sent \<Rightarrow> conclude_refund e (put_refund d b (submitted r p)) k p (client_request g answer)))"

subsection \<open>What is drawn on a payment\<close>

text \<open>A debt counts against a payment while it is being processed and once it is transferred.\<close>

definition drawn :: "payment \<Rightarrow> obligation \<Rightarrow> rat" where
  "drawn p r = (if ob_status r \<in> {RefundProcessing, RefundTransferred} \<and> charged p r then ob_amount r else 0)"

definition taken :: "booking \<Rightarrow> payment \<Rightarrow> rat" where
  "taken b p = sum_list (map (drawn p) (bk_refunds b))"

text \<open>The unique constraint of the provider's references.\<close>

definition references_unique :: "payment list \<Rightarrow> bool" where
  "references_unique ps = (\<forall>p \<in> set ps. \<forall>q \<in> set ps.
     pa_provider_id p \<noteq> None \<longrightarrow> pa_provider_id q = pa_provider_id p \<longrightarrow> pa_id q = pa_id p)"

definition booking_refunds_ok :: "booking \<Rightarrow> bool" where
  "booking_refunds_ok b = (distinct (keys_of ob_id (bk_refunds b)) \<and> (\<forall>r \<in> set (bk_refunds b). 0 \<le> ob_amount r)
     \<and> (\<forall>i. bk_intent b = Some i \<longrightarrow> distinct (keys_of pa_id (in_payments i)) \<and> references_unique (in_payments i)
          \<and> (\<forall>p \<in> set (in_payments i). pa_provider_id p \<noteq> None \<longrightarrow> taken b p \<le> pa_amount p)))"

definition refunds_ok :: "db \<Rightarrow> bool" where
  "refunds_ok d = (distinct (keys_of bk_id (db_bookings d)) \<and> (\<forall>b \<in> set (db_bookings d). booking_refunds_ok b))"

lemma drawn_sum: "sum_list (map (drawn p) rs) = sum_list (map ob_amount
    (filter (\<lambda>r. ob_status r \<in> {RefundProcessing, RefundTransferred} \<and> charged p r) rs))"
  by (induction rs) (simp_all add: drawn_def)

lemma find_refund_Some:
  assumes "find_refund d k = Some (b, r)"
  shows "b \<in> set (db_bookings d)" "row_get ob_id (bk_refunds b) k = Some r" "ob_id r = k" "r \<in> set (bk_refunds b)"
  using assms
  by (auto simp: find_refund_def split: option.splits dest: find_Some_in row_get_key row_get_mem)

lemma taken_with_refund:
  assumes "distinct (keys_of ob_id (bk_refunds b))" and "row_get ob_id (bk_refunds b) (ob_id r') = Some r"
  shows "taken (with_refund b r') p = taken b p - drawn p r + drawn p r'"
  using sum_row_put [OF assms] by (simp add: taken_def with_refund_def)

lemma previously_taken:
  assumes "distinct (keys_of ob_id (bk_refunds b))" and "row_get ob_id (bk_refunds b) (ob_id r) = Some r"
  shows "previously_refunded b r p = taken b p - drawn p r"
proof -
  have other: "sum_list (map ob_amount (filter (\<lambda>x. ob_id x \<noteq> ob_id r
        \<and> ob_status x \<in> {RefundProcessing, RefundTransferred} \<and> charged p x) xs)) = sum_list (map (drawn p) xs)"
    if "ob_id r \<notin> ob_id ` set xs" for xs
    using that by (induction xs) (auto simp: drawn_def)
  show ?thesis
    using assms unfolding previously_refunded_def taken_def
  proof (induction "bk_refunds b" arbitrary: b)
    case Nil
    then show ?case by (simp add: row_get_def)
  next
    case (Cons x xs)
    have e: "bk_refunds b = x # xs" using Cons(2) by simp
    show ?case
    proof (cases "ob_id x = ob_id r")
      case True
      then have "x = r" "ob_id r \<notin> ob_id ` set xs"
        using Cons(3,4) e by (auto simp: row_get_def keys_of_def)
      then show ?thesis using other [of xs] e by simp
    next
      case False
      have "sum_list (map ob_amount (filter (\<lambda>y. ob_id y \<noteq> ob_id r
          \<and> ob_status y \<in> {RefundProcessing, RefundTransferred} \<and> charged p y) xs)) = sum_list (map (drawn p) xs) - drawn p r"
        using Cons(1) [of "b \<lparr> bk_refunds := xs \<rparr>"] Cons(3,4) e False
        by (simp add: row_get_def keys_of_def)
      then show ?thesis using e False by (simp add: drawn_def)
    qed
  qed
qed

lemma booking_refunds_okD:
  assumes "booking_refunds_ok b" and "bk_intent b = Some i"
  shows "distinct (keys_of pa_id (in_payments i))" and "references_unique (in_payments i)"
    and "p \<in> set (in_payments i) \<Longrightarrow> pa_provider_id p \<noteq> None \<Longrightarrow> taken b p \<le> pa_amount p"
  using assms by (simp_all add: booking_refunds_ok_def)

lemma booking_ok_refund:
  assumes ok: "booking_refunds_ok b" and r: "row_get ob_id (bk_refunds b) (ob_id r') = Some r" and a: "0 \<le> ob_amount r'"
    and le: "\<And>i p. bk_intent b = Some i \<Longrightarrow> p \<in> set (in_payments i) \<Longrightarrow> pa_provider_id p \<noteq> None \<Longrightarrow>
      taken b p - drawn p r + drawn p r' \<le> pa_amount p"
  shows "booking_refunds_ok (with_refund b r')"
proof -
  have d: "distinct (keys_of ob_id (bk_refunds b))" using ok by (simp add: booking_refunds_ok_def)
  have f: "bk_intent (with_refund b r') = bk_intent b" "bk_refunds (with_refund b r') = row_put ob_id (bk_refunds b) r'"
    by (simp_all add: with_refund_def)
  have amounts: "\<forall>x \<in> set (row_put ob_id (bk_refunds b) r'). 0 \<le> ob_amount x"
    using ok a by (auto simp: booking_refunds_ok_def row_put_def)
  show ?thesis
    unfolding booking_refunds_ok_def f
  proof (intro conjI allI impI ballI)
    show "distinct (keys_of ob_id (row_put ob_id (bk_refunds b) r'))" using d by simp
    show "0 \<le> ob_amount x" if "x \<in> set (row_put ob_id (bk_refunds b) r')" for x using amounts that by blast
  next
    fix i assume i: "bk_intent b = Some i"
    note okD = booking_refunds_okD [OF ok i]
    show "distinct (keys_of pa_id (in_payments i))" "references_unique (in_payments i)" by (rule okD)+
    fix p assume p: "p \<in> set (in_payments i)" "pa_provider_id p \<noteq> None"
    show "taken (with_refund b r') p \<le> pa_amount p" using le [OF i p] by (simp only: taken_with_refund [OF d r])
  qed
qed

lemma refunds_ok_put:
  assumes "refunds_ok d" and "booking_refunds_ok b"
  shows "refunds_ok (put_booking d b)"
proof -
  have "booking_refunds_ok x" if "x \<in> set (row_put bk_id (db_bookings d) b)" for x
    using that assms by (auto simp: refunds_ok_def row_put_def)
  then show ?thesis using assms(1) by (simp add: refunds_ok_def put_booking_def)
qed

lemma with_refund_fields [simp]:
  "bk_id (with_refund b r) = bk_id b" "bk_intent (with_refund b r) = bk_intent b"
  "bk_offline (with_refund b r) = bk_offline b" "bk_refunds (with_refund b r) = row_put ob_id (bk_refunds b) r"
  by (simp_all add: with_refund_def)

lemma find_map_same: "(\<And>x. x \<in> set xs \<Longrightarrow> P (g x) = P x) \<Longrightarrow> find P (map g xs) = map_option g (find P xs)"
  by (induction xs) auto

lemma find_refund_put:
  assumes ok: "refunds_ok d" and r: "find_refund d k = Some (b, r)" and k: "ob_id r' = k"
  shows "find_refund (put_refund d b r') k = Some (with_refund b r', r')"
proof -
  let ?P = "\<lambda>b. row_get ob_id (bk_refunds b) k \<noteq> None"
  let ?g = "\<lambda>x. if bk_id x = bk_id (with_refund b r') then with_refund b r' else x"
  note F = find_refund_Some [OF r]
  have found: "find ?P (db_bookings d) = Some b" using r by (auto simp: find_refund_def split: option.splits)
  have get: "row_get ob_id (row_put ob_id (bk_refunds b) r') k = Some r'"
    using row_get_put_same [of ob_id "bk_refunds b" r' r] F(2) k by simp
  have same: "x = b" if "x \<in> set (db_bookings d)" "bk_id x = bk_id b" for x
    using ok F(1) that by (auto simp: refunds_ok_def keys_of_def distinct_map inj_on_def)
  have "?P (?g x) = ?P x" if "x \<in> set (db_bookings d)" for x
    using same [OF that] get F(2) by auto
  then have "find ?P (map ?g (db_bookings d)) = Some (?g b)" using found by (simp add: find_map_same)
  then have "find ?P (db_bookings (put_refund d b r')) = Some (with_refund b r')"
    by (simp add: put_refund_def put_booking_def row_put_def)
  then show ?thesis by (simp add: find_refund_def get)
qed

lemma put_refund_ok:
  assumes ok: "refunds_ok d" and r: "find_refund d k = Some (b, r)" and k: "ob_id r' = k" and a: "0 \<le> ob_amount r'"
    and le: "\<And>i p. bk_intent b = Some i \<Longrightarrow> p \<in> set (in_payments i) \<Longrightarrow> pa_provider_id p \<noteq> None \<Longrightarrow>
      taken b p - drawn p r + drawn p r' \<le> pa_amount p"
  shows "refunds_ok (put_refund d b r')"
proof -
  note F = find_refund_Some [OF r]
  have "booking_refunds_ok b" using ok F(1) by (simp add: refunds_ok_def)
  then have "booking_refunds_ok (with_refund b r')"
    by (rule booking_ok_refund [OF _ _ a le]) (use F k in auto)
  then show ?thesis unfolding put_refund_def by (rule refunds_ok_put [OF ok])
qed

lemma found_amount:
  assumes "refunds_ok d" and "find_refund d k = Some (b, r)"
  shows "0 \<le> ob_amount r"
proof -
  have "booking_refunds_ok b" using assms(1) find_refund_Some(1) [OF assms(2)] by (simp add: refunds_ok_def)
  then show ?thesis using find_refund_Some(4) [OF assms(2)] by (simp add: booking_refunds_ok_def)
qed

text \<open>A change that draws no more than before.\<close>

lemma put_refund_less:
  assumes ok: "refunds_ok d" and r: "find_refund d k = Some (b, r)" and k: "ob_id r' = k" "0 \<le> ob_amount r'"
    and le: "\<And>p. drawn p r' \<le> drawn p r"
  shows "refunds_ok (put_refund d b r')"
proof (rule put_refund_ok [OF ok r k])
  fix i p assume "bk_intent b = Some i" "p \<in> set (in_payments i)" "pa_provider_id p \<noteq> None"
  moreover have "booking_refunds_ok b" using ok find_refund_Some(1) [OF r] by (simp add: refunds_ok_def)
  ultimately have "taken b p \<le> pa_amount p" using booking_refunds_okD(3) by blast
  then show "taken b p - drawn p r + drawn p r' \<le> pa_amount p" using le [of p] by linarith
qed

lemma foldl_choice: "(\<And>acc x. f acc x = acc \<or> f acc x = Some x) \<Longrightarrow> foldl f acc xs = Some y \<Longrightarrow> acc = Some y \<or> y \<in> set xs"
proof (induction xs arbitrary: acc)
  case (Cons x xs)
  then have "f acc x = Some y \<or> y \<in> set xs" by simp
  then show ?case using Cons(2) [of acc x] by auto
qed simp

lemma latest_payment_mem: "latest_payment ps = Some p \<Longrightarrow> p \<in> set ps"
  unfolding latest_payment_def
  by (drule foldl_choice [rotated]) (auto split: option.splits)

lemma refunded_payment_found:
  assumes "refunded_payment i r = Some p"
  shows "p \<in> set (in_payments i)" "refundable p" "\<And>a. ob_payment_attempt r = Some a \<Longrightarrow> pa_id p = a"
  using assms
  by (auto simp: refunded_payment_def split: option.splits dest!: find_Some_in latest_payment_mem)

lemma prepare_refund_Inr:
  assumes "prepare_refund d k = Inr (b, r, p)"
  obtains i where "find_refund d k = Some (b, r)" "ob_status r = RefundDue" "0 < ob_amount r" "bk_offline b = None"
    "ob_currency r = ''SAR''" "bk_intent b = Some i" "refunded_payment i r = Some p"
    "previously_refunded b r p + ob_amount r \<le> pa_amount p"
  using assms
  by (auto simp: prepare_refund_def bindE_Inr_iff of_option_def not_le not_less algebra_simps split: option.splits if_splits
      intro!: that)

lemma drawn_status [simp]: "drawn (p \<lparr> pa_status := st \<rparr>) r = drawn p r"
  by (simp add: drawn_def charged_def)

lemma with_payment_status_fields [simp]:
  "bk_id (with_payment_status b k st) = bk_id b" "bk_refunds (with_payment_status b k st) = bk_refunds b"
  by (simp_all add: with_payment_status_def split: option.splits)

lemma with_payment_status_ok:
  assumes ok: "booking_refunds_ok b"
  shows "booking_refunds_ok (with_payment_status b k st)"
proof (cases "bk_intent b")
  case None
  then show ?thesis using ok by (simp add: with_payment_status_def)
next
  case (Some i)
  note okD = booking_refunds_okD [OF ok Some]
  let ?f = "\<lambda>p. if pa_id p = k then p \<lparr> pa_status := st \<rparr> else p"
  have f: "pa_id (?f p) = pa_id p" "pa_provider_id (?f p) = pa_provider_id p" "pa_amount (?f p) = pa_amount p"
    "drawn (?f p) = drawn p" for p
    by (auto simp: fun_eq_iff)
  have i: "bk_intent (with_payment_status b k st) = Some (i \<lparr> in_payments := map ?f (in_payments i) \<rparr>)"
    by (simp add: with_payment_status_def Some)
  have taken: "taken (with_payment_status b k st) (?f p) = taken b p" for p by (simp only: taken_def f with_payment_status_fields)
  have "references_unique (map ?f (in_payments i))"
    unfolding references_unique_def
  proof (intro ballI impI)
    fix x y assume "x \<in> set (map ?f (in_payments i))" "y \<in> set (map ?f (in_payments i))"
    then obtain p q where x: "p \<in> set (in_payments i)" "x = ?f p" and y: "q \<in> set (in_payments i)" "y = ?f q" by auto
    assume "pa_provider_id x \<noteq> None" "pa_provider_id y = pa_provider_id x"
    then have "pa_provider_id p \<noteq> None" "pa_provider_id q = pa_provider_id p" by (simp_all only: x y f not_False_eq_True)
    then have "pa_id q = pa_id p" using okD(2) x(1) y(1) unfolding references_unique_def by blast
    then show "pa_id y = pa_id x" using f(1) [of p] f(1) [of q] x(2) y(2) by simp
  qed
  moreover have "keys_of pa_id (map ?f (in_payments i)) = keys_of pa_id (in_payments i)" by (simp add: keys_of_def)
  moreover have "taken (with_payment_status b k st) q \<le> pa_amount q"
    if "q \<in> set (map ?f (in_payments i))" "pa_provider_id q \<noteq> None" for q
  proof -
    obtain p where p: "p \<in> set (in_payments i)" "q = ?f p" using \<open>q \<in> set (map ?f (in_payments i))\<close> by auto
    then have "pa_provider_id p \<noteq> None" using that(2) by (simp only: f not_False_eq_True)
    then show ?thesis using okD(3) [OF p(1)] using taken [of p] f(3) [of p] p(2) by simp
  qed
  ultimately show ?thesis
    using ok okD(1) i unfolding booking_refunds_ok_def with_payment_status_fields by simp
qed

lemma submitted_ok:
  assumes ok: "refunds_ok d" and run: "prepare_refund d k = Inr (b, r, p)"
  shows "refunds_ok (put_refund d b (submitted r p))"
proof (rule prepare_refund_Inr [OF run])
  fix i assume P: "find_refund d k = Some (b, r)" "ob_status r = RefundDue" "0 < ob_amount r" "bk_offline b = None"
    "ob_currency r = ''SAR''" "bk_intent b = Some i" "refunded_payment i r = Some p"
    "previously_refunded b r p + ob_amount r \<le> pa_amount p"
  note F = find_refund_Some [OF P(1)]
  note R = refunded_payment_found [OF P(7)]
  have bok: "booking_refunds_ok b" using ok F(1) by (simp add: refunds_ok_def)
  note D = booking_refunds_okD [OF bok P(6)]
  have due: "drawn q r = 0" for q using P(2) by (simp add: drawn_def)
  have prior: "previously_refunded b r p = taken b p"
    using previously_taken [of b r p] bok F due by (simp add: booking_refunds_ok_def)
  show ?thesis
  proof (rule put_refund_ok [OF ok P(1)])
    show "ob_id (submitted r p) = k" using F(3) by (simp add: submitted_def)
    show "0 \<le> ob_amount (submitted r p)" using P(3) by (simp add: submitted_def)
  next
    fix j q assume j: "bk_intent b = Some j" and q: "q \<in> set (in_payments j)" "pa_provider_id q \<noteq> None"
    then have q': "q \<in> set (in_payments i)" using P(6) by simp
    show "taken b q - drawn q r + drawn q (submitted r p) \<le> pa_amount q"
    proof (cases "charged q (submitted r p)")
      case False
      then have "drawn q (submitted r p) = 0" by (simp add: drawn_def)
      then show ?thesis using D(3) [OF q' q(2)] due by simp
    next
      case True
      then have "pa_provider_id p = pa_provider_id q \<or> ob_payment_attempt r = Some (pa_id q)"
        by (simp add: charged_def submitted_def)
      then have "pa_id q = pa_id p"
      proof
        assume "pa_provider_id p = pa_provider_id q"
        then show ?thesis using D(2) q' q(2) R(1) unfolding references_unique_def by metis
      qed (use R(3) in simp)
      then have "q = p" using D(1) q' R(1) by (auto simp: keys_of_def distinct_map inj_on_def)
      have "drawn q (submitted r p) = ob_amount r" using True by (simp add: drawn_def submitted_def)
      then show ?thesis using P(8) prior due [of q] \<open>q = p\<close> by simp
    qed
  qed
qed

lemma conclude_refund_ok:
  assumes ok: "refunds_ok d" and r: "find_refund d k = Some (b, r)" and st: "ob_status r = RefundProcessing"
  shows "refunds_ok (fst (conclude_refund e d k p answer))"
proof -
  note F = find_refund_Some [OF r]
  have a: "0 \<le> ob_amount r" by (rule found_amount [OF ok r])
  have less: "refunds_ok (put_refund d b r')"
    if "ob_id r' = ob_id r" "ob_amount r' = ob_amount r" "ob_original_payment r' = ob_original_payment r"
      "ob_payment_attempt r' = ob_payment_attempt r" for r'
    by (rule put_refund_less [OF ok r]) (use F a st that in \<open>simp_all add: drawn_def charged_def\<close>)
  have rej: "refunds_ok (put_refund d b (rejected r))" by (rule less) (simp_all add: rejected_def)
  have marked: "refunds_ok (put_refund d b (r \<lparr> ob_state := x \<rparr>))" for x by (rule less) simp_all
  have "refunds_ok (put_booking d (with_payment_status (with_refund b (transferred s t r)) j st'))" for s t j st'
  proof (rule refunds_ok_put [OF ok], rule with_payment_status_ok, rule booking_ok_refund)
    show "booking_refunds_ok b" using ok F(1) by (simp add: refunds_ok_def)
    show "row_get ob_id (bk_refunds b) (ob_id (transferred s t r)) = Some r" using F by (simp add: transferred_def)
    show "0 \<le> ob_amount (transferred s t r)" using a by (simp add: transferred_def)
    fix i q assume i: "bk_intent b = Some i" and q: "q \<in> set (in_payments i)" "pa_provider_id q \<noteq> None"
    have "booking_refunds_ok b" using ok F(1) by (simp add: refunds_ok_def)
    then have "taken b q \<le> pa_amount q" by (rule booking_refunds_okD(3) [OF _ i q])
    moreover have "drawn q (transferred s t r) = drawn q r" using st by (simp add: drawn_def charged_def transferred_def)
    ultimately show "taken b q - drawn q r + drawn q (transferred s t r) \<le> pa_amount q" by simp
  qed
  then have paid: "refunds_ok (put_booking d (with_payment_status (with_refund b (transferred s t r)) j st'))" for s t j st' .
  have rec: "refunds_ok d'" if run: "record_response e d k p doc = Inr (d', c)" for d' c doc
  proof (cases "map_result_code (result_of doc ''code'')")
    case GwSuccess
    then show ?thesis using run r paid by (auto simp: record_response_def of_option_def Let_def)
  next
    case GwPending
    then show ?thesis using run r marked by (auto simp: record_response_def of_option_def)
  qed (use run r rej in \<open>auto simp: record_response_def of_option_def\<close>)
  show ?thesis
  proof (cases answer)
    case (Inl x)
    then show ?thesis using rej marked ok r
      by (cases x) (simp_all add: conclude_refund_def settled_def mark_unknown_def restore_due_def update_refund_def of_option_def)
  next
    case (Inr doc)
    then show ?thesis using ok rec
      by (cases "record_response e d k p doc") (auto simp: conclude_refund_def)
  qed
qed

lemma submit_refund_ok:
  assumes ok: "refunds_ok d"
  shows "refunds_ok (fst (submit_refund g e d k answer))"
proof (cases "prepare_refund d k")
  case (Inl x)
  then show ?thesis using ok by (simp add: submit_refund_def)
next
  case (Inr found)
  obtain b r p where f: "found = (b, r, p)" by (cases found)
  have run: "prepare_refund d k = Inr (b, r, p)" using Inr f by simp
  have find: "find_refund d k = Some (b, r)" using prepare_refund_Inr [OF run] by blast
  have "find_refund (put_refund d b (submitted r p)) k = Some (with_refund b (submitted r p), submitted r p)"
    by (rule find_refund_put [OF ok find]) (use find_refund_Some [OF find] in \<open>simp add: submitted_def\<close>)
  then have "refunds_ok (fst (conclude_refund e (put_refund d b (submitted r p)) k p (client_request g answer)))"
    by (rule conclude_refund_ok [OF submitted_ok [OF ok run]]) (simp add: submitted_def)
  then show ?thesis
    using ok run by (auto simp: submit_refund_def split: sum.splits exc.splits)
qed

lemma prepare_after:
  assumes ok: "refunds_ok d" and run: "prepare_refund d k = Inr (b, r, p)"
    and r': "ob_id r' = k" "ob_status r' = RefundDue" "ob_amount r' = ob_amount r" "ob_currency r' = ob_currency r"
      "ob_payment_attempt r' = ob_payment_attempt r"
  shows "prepare_refund (put_refund d b r') k = Inr (with_refund b r', r', p)"
proof (rule prepare_refund_Inr [OF run])
  fix i assume P: "find_refund d k = Some (b, r)" "ob_status r = RefundDue" "0 < ob_amount r" "bk_offline b = None"
    "ob_currency r = ''SAR''" "bk_intent b = Some i" "refunded_payment i r = Some p"
    "previously_refunded b r p + ob_amount r \<le> pa_amount p"
  note F = find_refund_Some [OF P(1)]
  have d: "distinct (keys_of ob_id (bk_refunds b))" using ok F(1) by (simp add: refunds_ok_def booking_refunds_ok_def)
  have g: "row_get ob_id (bk_refunds b) (ob_id r') = Some r" using F r'(1) by simp
  have "previously_refunded (with_refund b r') r' p = taken (with_refund b r') p - drawn p r'"
    by (rule previously_taken) (use d row_get_put_same [of ob_id "bk_refunds b" r' r] g in simp_all)
  also have "\<dots> = previously_refunded b r p"
    using taken_with_refund [OF d g, of p] previously_taken [OF d, of r p] F by simp
  finally have same: "previously_refunded (with_refund b r') r' p = previously_refunded b r p" .
  have "refunded_payment i r' = Some p" using P(7) r'(5) by (simp add: refunded_payment_def)
  then show ?thesis
    using find_refund_put [OF ok P(1) r'(1)] P r' same by (simp add: prepare_refund_def of_option_def)
qed

subsection \<open>The refunds as a state machine\<close>

text \<open>Debts are recorded and submitted, under any settings, clock and answers of the provider.\<close>

inductive refund_step :: "db \<Rightarrow> db \<Rightarrow> bool" where
  step_submit: "refund_step d (fst (submit_refund g e d k answer))"
| step_debt: "record_obligation d n reason c m = Inr (d', row) \<Longrightarrow> refund_step d d'"

inductive_cases refund_stepE: "refund_step d d'"

lemma next_obligation_fresh:
  assumes "b \<in> set (db_bookings d)" and "r \<in> set (bk_refunds b)"
  shows "ob_id r < next_obligation d"
  unfolding next_obligation_def by (intro le_imp_less_Suc Max_ge) (use assms in auto)

lemma record_obligation_ok:
  assumes ok: "refunds_ok d" and run: "record_obligation d n reason c m = Inr (d', row)"
  shows "refunds_ok d'"
proof (cases "cm_amount c \<le> 0")
  case True
  then show ?thesis using run ok by (simp add: record_obligation_def)
next
  case False
  obtain b where b: "get_booking d n = Some b" and d': "d' = put_booking d (b \<lparr> bk_refunds := bk_refunds b
      @ [due_obligation (next_obligation d) reason (noted_on b c) m] \<rparr>)"
    using run False by (auto simp: record_obligation_def bindE_Inr_iff of_option_def Let_def split: option.splits if_splits)
  let ?r = "due_obligation (next_obligation d) reason (noted_on b c) m"
  have bin: "b \<in> set (db_bookings d)" using b by (auto simp: get_booking_def dest: row_get_mem)
  have bok: "booking_refunds_ok b" using ok bin by (simp add: refunds_ok_def)
  have fresh: "ob_id ?r \<notin> ob_id ` set (bk_refunds b)"
    using next_obligation_fresh [OF bin] by (fastforce simp: due_obligation_def)
  have "taken (b \<lparr> bk_refunds := bk_refunds b @ [?r] \<rparr>) p = taken b p" for p
    by (simp add: taken_def drawn_def due_obligation_def)
  moreover have "0 \<le> ob_amount ?r" using False by (simp add: due_obligation_def)
  ultimately have "booking_refunds_ok (b \<lparr> bk_refunds := bk_refunds b @ [?r] \<rparr>)"
    using bok fresh by (simp add: booking_refunds_ok_def keys_of_def)
  then show ?thesis unfolding d' by (rule refunds_ok_put [OF ok])
qed

lemma refund_step_ok: "refund_step d d' \<Longrightarrow> refunds_ok d \<Longrightarrow> refunds_ok d'"
  by (erule refund_stepE) (auto intro: submit_refund_ok record_obligation_ok)

lemma refund_steps_ok: "refund_step\<^sup>*\<^sup>* d d' \<Longrightarrow> refunds_ok d \<Longrightarrow> refunds_ok d'"
  by (induction rule: rtranclp_induct) (auto dest: refund_step_ok)

subsection \<open>Properties\<close>


text \<open>C34: an uncertain or doubtful answer makes a refund due again. When the gateway answers a
  submission with a server error whose body is not JSON (the proxy page of an outage), or with a
  code that means "succeeded, review manually", the debt is due again and the next submission is
  accepted and asks for the same amount once more; the same server error with a JSON body leaves the
  debt in processing with an unknown result, and it cannot be submitted again.\<close>

theorem uncertain_refund_due_again:
  assumes "refunds_ok d" and "refunds_available g" and "client_ready g" and "prepare_refund d k = Inr (b, r, p)"
    and "format_hyperpay_amount g (ob_amount r) = Inr sent" and "500 \<le> status"
    and "doubtful = Answer status None \<or> (\<exists>doc. doubtful = Answer 200 (Some (PyDict doc))
          \<and> map_result_code (result_of doc ''code'') = GwReview)"
  shows "(\<exists>b' r'. prepare_refund (fst (submit_refund g e d k doubtful)) k = Inr (b', r', p) \<and> ob_amount r' = ob_amount r)
    \<and> (\<forall>doc. snd (submit_refund g e d k (Answer status (Some (PyDict doc)))) = Inl (HyperPayRefund ''refund_result_unknown'')
         \<and> prepare_refund (fst (submit_refund g e d k (Answer status (Some (PyDict doc))))) k
             = Inl (HyperPayRefund ''refund_not_available''))"
proof -
  obtain i where P: "find_refund d k = Some (b, r)" "ob_status r = RefundDue"
    using prepare_refund_Inr [OF assms(4)] by blast
  have rk: "ob_id r = k" using find_refund_Some [OF P(1)] by simp
  let ?d1 = "put_refund d b (submitted r p)"
  let ?b1 = "with_refund b (submitted r p)"
  have run: "submit_refund g e d k x = conclude_refund e ?d1 k p (request x)" for x
    using assms(2-5) by (simp add: submit_refund_def client_request_def)
  have f1: "find_refund ?d1 k = Some (?b1, submitted r p)"
    by (rule find_refund_put [OF assms(1) P(1)]) (simp add: submitted_def rk)
  have twice: "put_refund ?d1 ?b1 r' = put_refund d b r'" if "ob_id r' = k" for r'
    using that rk by (simp add: put_refund_def put_booking_def with_refund_def row_put_def submitted_def comp_def)
  have due: "fst (submit_refund g e d k doubtful) = put_refund d b (rejected (submitted r p))"
  proof -
    have t: "put_refund ?d1 ?b1 (rejected (submitted r p)) = put_refund d b (rejected (submitted r p))"
      by (rule twice) (simp add: rejected_def submitted_def rk)
    show ?thesis
      using assms(6,7)
    proof (elim disjE exE conjE)
      assume "doubtful = Answer status None"
      then show ?thesis using t assms(6) f1
        by (simp add: run request_def conclude_refund_def restore_due_def update_refund_def settled_def of_option_def)
    next
      fix doc assume "doubtful = Answer 200 (Some (PyDict doc))" "map_result_code (result_of doc ''code'') = GwReview"
      then show ?thesis using t f1
        by (simp add: run request_def conclude_refund_def record_response_def of_option_def)
    qed
  qed
  have "prepare_refund (fst (submit_refund g e d k doubtful)) k
      = Inr (with_refund b (rejected (submitted r p)), rejected (submitted r p), p)"
    unfolding due by (rule prepare_after [OF assms(1,4)]) (simp_all add: rejected_def submitted_def rk)
  moreover have "submit_refund g e d k (Answer status (Some (PyDict doc)))
      = (put_refund d b ((submitted r p) \<lparr> ob_state := Some ''unknown'' \<rparr>), Inl (HyperPayRefund ''refund_result_unknown''))" for doc
    using assms(6) f1 twice [of "(submitted r p) \<lparr> ob_state := Some ''unknown'' \<rparr>"] rk
    by (simp add: run request_def conclude_refund_def mark_unknown_def update_refund_def settled_def of_option_def submitted_def)
  moreover have "prepare_refund (put_refund d b ((submitted r p) \<lparr> ob_state := Some ''unknown'' \<rparr>)) k
      = Inl (HyperPayRefund ''refund_not_available'')"
    using find_refund_put [OF assms(1) P(1), of "(submitted r p) \<lparr> ob_state := Some ''unknown'' \<rparr>"] rk
    by (simp add: prepare_refund_def of_option_def submitted_def)
  ultimately show ?thesis by (auto simp: rejected_def submitted_def)
qed

subsection \<open>Witnesses\<close>

definition sample_gateway :: gateway where
  "sample_gateway = \<lparr> gs_enabled = True, gs_refunds = True, gs_refunds_production = True, gs_revalidate = True,
     gs_live_booking = False, gs_apple_pay = False, gs_environment = ''production'', gs_currency = ''SAR'',
     gs_payment_type = ''DB'', gs_entity = ''e1'', gs_token = ''t1'', gs_brands = [''MADA'', ''VISA'', ''MASTER''],
     gs_merchant = ''LSA-1'', gs_key = ''key'', gs_decompose = (\<lambda>s. s) \<rparr>"

definition owed :: obligation where
  "owed = due_obligation 8 ''cancellation'' \<lparr> cm_amount = 250, cm_currency = ''SAR'', cm_source = ''policy'',
     cm_attempt = None, cm_reason = [], cm_tier = None, cm_provider = None, cm_settlement = False \<rparr> None"

definition owed_booking :: booking where
  "owed_booking = paid_booking \<lparr> bk_refunds := [owed] \<rparr>"

definition owed_db :: db where
  "owed_db = sample_db \<lparr> db_bookings := [owed_booking] \<rparr>"

definition card_payment :: payment where
  "card_payment = hd (in_payments (the (bk_intent paid_booking)))"

lemma owed_payments: "in_payments (the (bk_intent owed_booking)) = [card_payment]"
  by (simp add: owed_booking_def card_payment_def paid_booking_def)

lemma owed_found: "find_refund owed_db 8 = Some (owed_booking, owed)"
  by (simp add: find_refund_def owed_db_def owed_booking_def owed_def due_obligation_def row_get_def)

lemma owed_prepared: "prepare_refund owed_db 8 = Inr (owed_booking, owed, card_payment)"
  by (simp add: prepare_refund_def owed_found of_option_def)
    (simp add: owed_def due_obligation_def owed_booking_def refunded_payment_def latest_payment_def refundable_def
      previously_refunded_def paid_booking_def sample_booking_def sample_intent_def card_payment_def)

lemma owed_ok: "refunds_ok owed_db"
  by (simp add: refunds_ok_def owed_db_def sample_db_def keys_of_def booking_refunds_ok_def references_unique_def
      taken_def drawn_def owed_booking_def owed_def due_obligation_def paid_booking_def)

lemma owed_amount: "format_hyperpay_amount sample_gateway 250 = Inr 250"
  by code_simp

definition accepted_refund :: exchange where
  "accepted_refund = Answer 200 (Some (PyDict [(''id'', PyStr ''rf-1''),
     (''result'', PyDict [(''code'', PyStr ''000.000.000'')])]))"


theorem uncertain_refund_due_again_witness:
  "\<exists>b' r'. prepare_refund (fst (submit_refund sample_gateway sample_env owed_db 8 (Answer 502 None))) 8 = Inr (b', r', card_payment)
     \<and> ob_amount r' = 250"
proof -
  have amount: "ob_amount owed = 250" by (simp add: owed_def due_obligation_def)
  have ready: "refunds_available sample_gateway" "client_ready sample_gateway"
    by (simp_all add: refunds_available_def client_ready_def sample_gateway_def)
  show ?thesis
    using conjunct1 [OF uncertain_refund_due_again [OF owed_ok ready owed_prepared,
        where sent = 250 and status = 502 and doubtful = "Answer 502 None" and e = sample_env]]
    by (simp add: amount owed_amount)
qed

end
