(* ===== verification/Channel.thy ===== *)
theory Channel
  imports ChannelClient GatewayRefunds
begin

section \<open>Reservations at the channel manager (apps/reservations/services/hostaway\_booking.py)\<close>

text \<open>
  The local reservation of an intent and its one creation at the channel manager: the checks before
  a write, the operation row that records it, the write, and what each answer makes of the
  reservation. A worker is a call that has committed its operation row and is about to write; its
  answer is recorded by a second transaction. The availability service, the conflicts with morning
  stays, the client and the digests are parameters.
\<close>

record channel_world =
  cw_channel :: "int option"
  cw_units :: "nat \<Rightarrow> (int \<times> int option) option"
  cw_check :: "booking \<Rightarrow> availability_result res"
  cw_conflict :: "booking \<Rightarrow> bool"
  cw_digest :: "booking \<Rightarrow> string"
  cw_request_digest :: "string \<Rightarrow> price_quote \<Rightarrow> string"

subsection \<open>The local reservation\<close>

definition find_intent :: "db \<Rightarrow> nat \<Rightarrow> intent option" where
  "find_intent d n = (case booking_of_intent d n of
      Some b \<Rightarrow> bk_intent b
    | None \<Rightarrow> find (\<lambda>i. in_id i = n) (db_intents d))"

text \<open>
  \<open>Reservation.full_clean()\<close>: the ranges of the number fields, the unique identifier at the channel
  manager, and \<open>Reservation.clean\<close>.
\<close>

definition in_range :: "int option \<Rightarrow> int \<Rightarrow> bool" where
  "in_range x top_value = (case x of None \<Rightarrow> True | Some n \<Rightarrow> 0 \<le> n \<and> n \<le> top_value)"

definition remote_taken :: "db \<Rightarrow> booking \<Rightarrow> bool" where
  "remote_taken d b = (bk_remote b \<noteq> None \<and> list_ex (\<lambda>x. bk_id x \<noteq> bk_id b \<and> bk_remote x = bk_remote b) (db_bookings d))"

definition clean_booking :: "db \<Rightarrow> booking \<Rightarrow> booking res" where
  "clean_booking d b0 =
     (let b = b0 \<lparr> bk_currency := map upper_char (bk_currency b0) \<rparr> in
      if 1 \<le> bk_nights b \<and> 1 \<le> bk_guests b \<and> int (bk_nights b) = bk_check_out b - bk_check_in b
         \<and> length (bk_currency b) = 3 \<and> list_all is_letter (bk_currency b)
         \<and> in_range (bk_remote b) (2 ^ 63 - 1) \<and> in_range (bk_listing_map b) (2 ^ 63 - 1) \<and> in_range (bk_channel b) (2 ^ 31 - 1)
         \<and> length (bk_remote_status b) \<le> 100 \<and> length (bk_payment_status b) \<le> 100
         \<and> (bk_status b = Confirmed \<longrightarrow> bk_remote b \<noteq> None \<or> bk_test b)
         \<and> (bk_confirmed_at b = None \<or> bk_cancelled_at b = None)
         \<and> (case bk_intent b of None \<Rightarrow> True | Some i \<Rightarrow> in_property i = bk_property b)
         \<and> \<not> remote_taken d b
      then Inr b else Inl (ValidationError ''reservation''))"

definition next_booking :: "db \<Rightarrow> nat" where
  "next_booking d = Suc (Max (insert 0 (set (map bk_id (db_bookings d)))))"

definition local_booking :: "db \<Rightarrow> env \<Rightarrow> string \<Rightarrow> string option \<Rightarrow> int option \<Rightarrow> intent \<Rightarrow> booking" where
  "local_booking d e reference zone listing_map i =
     \<lparr> bk_id = next_booking d, bk_reference = reference, bk_intent = Some i, bk_zone = zone,
       bk_source = DirectWebsite, bk_status = AwaitingPayment, bk_created_at = now e,
       bk_check_in = in_check_in i, bk_check_out = in_check_out i, bk_nights = in_nights i,
       bk_currency = in_currency i, bk_total = in_total i, bk_payment_status = [], bk_refunds = [],
       bk_modifications = [],
       bk_loyalty = blank_loyalty \<lparr> ls_priced := (if sq_total (in_quote i) = in_total i then sq_nights (in_quote i) else None) \<rparr>,
       bk_offline = None, bk_property = in_property i, bk_guests = in_guests i, bk_remote = None,
       bk_listing_map = listing_map, bk_channel = None, bk_remote_status = [], bk_source_updated = None,
       bk_synced_at = None, bk_confirmed_at = None, bk_cancelled_at = None, bk_test = False, bk_operation = None \<rparr>"

text \<open>\<open>seen\<close> is the status of the intent in the object the caller holds; the row is read again.\<close>

definition prepare_local_reservation ::
    "channel_world \<Rightarrow> env \<Rightarrow> string \<Rightarrow> string option \<Rightarrow> db \<Rightarrow> nat \<Rightarrow> intent_status \<Rightarrow> (db \<times> nat) res" where
  "prepare_local_reservation w e reference zone d n seen =
     (if seen \<noteq> InAwaitingPayment then Inl (ValueError ''booking_intent_not_awaiting_payment'')
      else case booking_of_intent d n of
        Some b \<Rightarrow> Inr (d, bk_id b)
      | None \<Rightarrow>
          bindE (of_option (DoesNotExist ''intent'') (find_intent d n)) (\<lambda>i.
          bindE (of_option (DoesNotExist ''property'') (cw_units w (in_property i))) (\<lambda>unit.
          bindE (clean_booking d (local_booking d e reference zone (snd unit) i)) (\<lambda>b.
            Inr (d \<lparr> db_bookings := db_bookings d @ [b],
                     db_intents := filter (\<lambda>x. in_id x \<noteq> n) (db_intents d) \<rparr>, bk_id b)))))"

subsection \<open>The operation row\<close>

definition new_operation :: "operation_status \<Rightarrow> string \<Rightarrow> string \<Rightarrow> create_operation" where
  "new_operation status request_print code = \<lparr> op_status = status, op_attempts = 0, op_fingerprint = request_print,
     op_remote = None, op_error = code, op_started_at = None, op_completed_at = None \<rparr>"

definition ensure_blocked :: "channel_world \<Rightarrow> string \<Rightarrow> booking \<Rightarrow> booking" where
  "ensure_blocked w code b =
     (let op = (case bk_operation b of Some op \<Rightarrow> op | None \<Rightarrow> new_operation OpBlocked (cw_digest w b) code) in
      b \<lparr> bk_operation := Some (if op_status op \<in> {OpPrepared, OpBlocked} \<and> op_attempts op = 0
            then op \<lparr> op_status := OpBlocked, op_error := code \<rparr> else op) \<rparr>)"

text \<open>A transaction that reads the row of a reservation again.\<close>

definition with_row :: "db \<Rightarrow> nat \<Rightarrow> (booking \<Rightarrow> 'r) \<Rightarrow> 'r res" where
  "with_row d n f = bindE (of_option (DoesNotExist ''reservation'') (get_booking d n)) (\<lambda>b. Inr (f b))"

definition operation_text :: "operation_status \<Rightarrow> string" where
  "operation_text s = (case s of OpPrepared \<Rightarrow> ''prepared'' | OpInProgress \<Rightarrow> ''in_progress'' | OpSucceeded \<Rightarrow> ''succeeded''
     | OpFailed \<Rightarrow> ''failed'' | OpUnknown \<Rightarrow> ''unknown'' | OpBlocked \<Rightarrow> ''blocked'')"

text \<open>\<open>_prepare_operation\<close>: the new row of the reservation, and whether the write may be sent.\<close>

definition prepare_operation :: "channel_world \<Rightarrow> env \<Rightarrow> booking \<Rightarrow> price_quote \<Rightarrow> booking \<times> bool" where
  "prepare_operation w e b q =
     (let request_print = cw_request_digest w (cw_digest w b) q;
          op = (case bk_operation b of Some op \<Rightarrow> op | None \<Rightarrow> new_operation OpPrepared request_print [])
      in if bk_operation b \<noteq> None \<and> op_status op \<in> {OpSucceeded, OpInProgress, OpUnknown} then (b, False)
         else if bk_operation b \<noteq> None \<and> 0 < op_attempts op then (b, False)
         else if cw_conflict w b
         then (b \<lparr> bk_operation := Some (op \<lparr> op_status := OpBlocked, op_error := ''morning_stay_conflict'' \<rparr>) \<rparr>, False)
         else (b \<lparr> bk_status := Creating,
                   bk_operation := Some (op \<lparr> op_status := OpInProgress, op_attempts := op_attempts op + 1,
                     op_started_at := Some (now e), op_fingerprint := request_print, op_error := [] \<rparr>) \<rparr>, True))"

subsection \<open>Before the write\<close>

definition paid_in_full :: "env \<Rightarrow> db \<Rightarrow> intent \<Rightarrow> payment option res" where
  "paid_in_full e d i =
     bindE (cash_due e d i False) (\<lambda>due.
       let ps = filter (\<lambda>p. pa_status p = PaSucceeded \<and> Some (pa_amount p) = snd due \<and> pa_currency p = payment_currency) (in_payments i)
       in Inr (if ps = [] then None else Some (last ps)))"

text \<open>The reason to stop before the availability is checked, if there is one.\<close>

definition blocking_reason :: "channel_world \<Rightarrow> gateway \<Rightarrow> env \<Rightarrow> db \<Rightarrow> booking \<Rightarrow> bool \<Rightarrow> string option res" where
  "blocking_reason w g e d b paid =
     (if \<not> gs_live_booking g then Inr (Some ''hostaway_live_booking_disabled'')
      else case bk_intent b of
        None \<Rightarrow> Inr (Some ''booking_intent_missing'')
      | Some i \<Rightarrow>
          bindE (if paid then paid_in_full e d i else Inr None) (\<lambda>p.
            if paid \<and> p = None then Inr (Some ''successful_payment_required'')
            else if (case p of None \<Rightarrow> False | Some x \<Rightarrow> pa_provider x = ''hyperpay'' \<and> gs_environment g = ''test'')
            then Inr (Some ''test_payment_live_write_blocked'')
            else if Option.bind (cw_units w (bk_property b)) snd = None then Inr (Some ''listing_map_id_not_verified'')
            else if cw_channel w = None then Inr (Some ''direct_channel_id_not_configured'')
            else Inr None))"

text \<open>What a call decides from what it has read, before it changes anything.\<close>

datatype plan =
    Blocked string
  | AlreadyConfirmed
  | FailedLocally string
  | Ready create_request price_quote

definition value_text :: "exc \<Rightarrow> string" where
  "value_text x = (case x of ValueError s \<Rightarrow> s | _ \<Rightarrow> [])"

text \<open>
  \<open>_create_hostaway_reservation\<close> up to \<open>_prepare_operation\<close>. A failed division in the override of
  the price (\<open>decimal.InvalidOperation\<close>, an ArithmeticError) is not caught.
\<close>

definition plan_creation :: "channel_world \<Rightarrow> gateway \<Rightarrow> env \<Rightarrow> db \<Rightarrow> booking \<Rightarrow> bool \<Rightarrow> bool \<Rightarrow> plan res" where
  "plan_creation w g e d b paid override =
     bindE (blocking_reason w g e d b paid) (\<lambda>reason.
       case reason of
         Some code \<Rightarrow> Inr (Blocked code)
       | None \<Rightarrow>
           if bk_remote b \<noteq> None then Inr AlreadyConfirmed
           else bindE (cw_check w b) (\<lambda>a.
             case (av_available a, av_quote a) of
               (True, Some q) \<Rightarrow>
                 (case reservation_request b (cw_units w (bk_property b)) (cw_channel w) q override of
                    Inl x \<Rightarrow> if is_value_error x then Inr (FailedLocally (value_text x)) else Inl x
                  | Inr r \<Rightarrow> Inr (Ready r q))
             | _ \<Rightarrow> Inr (FailedLocally ''availability_lost'')))"

record worker =
  wk_booking :: booking
  wk_request :: create_request
  wk_paid :: bool

definition outcome_text :: "booking \<Rightarrow> string" where
  "outcome_text b = (case bk_operation b of
      Some op \<Rightarrow> if op_error op \<noteq> [] then op_error op else operation_text (op_status op)
    | None \<Rightarrow> [])"

text \<open>The row a plan leaves, its outcome, and whether the write may be sent.\<close>

definition planned_row :: "channel_world \<Rightarrow> env \<Rightarrow> plan \<Rightarrow> booking \<Rightarrow> booking \<times> string \<times> bool" where
  "planned_row w e p b = (case p of
      Blocked code \<Rightarrow> (ensure_blocked w code b, code, False)
    | AlreadyConfirmed \<Rightarrow> (b, ''already_confirmed'', False)
    | FailedLocally code \<Rightarrow> (ensure_blocked w code (b \<lparr> bk_status := CreateFailed \<rparr>), code, False)
    | Ready r q \<Rightarrow> (case prepare_operation w e b q of (b', sendable) \<Rightarrow> (b', outcome_text b', sendable)))"

text \<open>\<open>b\<close> is the row the call has read; the change is made on the row of the moment.\<close>

definition commit_plan ::
    "channel_world \<Rightarrow> env \<Rightarrow> db \<Rightarrow> booking \<Rightarrow> bool \<Rightarrow> plan \<Rightarrow> db \<times> (string + worker) res" where
  "commit_plan w e d b paid p =
     (case with_row d (bk_id b) (planned_row w e p) of
        Inl x \<Rightarrow> (d, Inl x)
      | Inr (b', code, sendable) \<Rightarrow>
          (if p = AlreadyConfirmed then d else put_booking d b', Inr (case p of
              Ready r q \<Rightarrow> if sendable then Inr \<lparr> wk_booking = b, wk_request = r, wk_paid = paid \<rparr> else Inl code
            | _ \<Rightarrow> Inl code)))"

subsection \<open>After the write\<close>

definition finished :: "env \<Rightarrow> string \<Rightarrow> operation_status \<Rightarrow> stay_status \<Rightarrow> int option \<Rightarrow> booking \<Rightarrow> booking" where
  "finished e code status normalized remote b =
     b \<lparr> bk_status := normalized, bk_remote := (if remote \<noteq> None then remote else bk_remote b),
         bk_operation := map_option (\<lambda>op. op \<lparr> op_status := status, op_error := code, op_remote := remote,
           op_completed_at := Some (now e) \<rparr>) (bk_operation b) \<rparr>"

text \<open>\<open>_finish_operation\<close>: the identifier at the channel manager is unique among the reservations.\<close>

definition finish_operation ::
    "env \<Rightarrow> db \<Rightarrow> nat \<Rightarrow> string \<Rightarrow> operation_status \<Rightarrow> stay_status \<Rightarrow> int option \<Rightarrow> db \<times> string res" where
  "finish_operation e d n code status normalized remote =
     (case with_row d n (finished e code status normalized remote) of
        Inl x \<Rightarrow> (d, Inl x)
      | Inr b \<Rightarrow> if remote_taken d b then (d, Inl (IntegrityError ''hostaway_reservation_id''))
                 else (put_booking d b, Inr code))"

definition mismatched :: "worker \<Rightarrow> snapshot \<Rightarrow> bool" where
  "mismatched k s = (sn_listing_map s \<noteq> rq_listing_map (wk_request k) \<or> sn_check_in s \<noteq> bk_check_in (wk_booking k)
     \<or> sn_check_out s \<noteq> bk_check_out (wk_booking k) \<or> sn_currency s \<noteq> bk_currency (wk_booking k)
     \<or> sn_total s \<noteq> bk_total (wk_booking k))"

definition confirmed_row :: "env \<Rightarrow> worker \<Rightarrow> snapshot \<Rightarrow> booking \<Rightarrow> booking" where
  "confirmed_row e k s b =
     (let status = (if wk_paid k then Confirmed else normalize_status (sn_status s)) in
      b \<lparr> bk_remote := Some (sn_id s), bk_listing_map := Some (sn_listing_map s),
          bk_channel := Some (case sn_channel s of Some c \<Rightarrow> if c \<noteq> 0 then c else rq_channel (wk_request k)
                              | None \<Rightarrow> rq_channel (wk_request k)),
          bk_remote_status := sn_status s,
          bk_payment_status := (if wk_paid k then merge_payment_status (bk_payment_status b) (sn_payment_status s)
                                else if sn_payment_status s \<noteq> [] then sn_payment_status s else ''unpaid''),
          bk_status := status, bk_confirmed_at := (if status = Confirmed then Some (now e) else None),
          bk_source_updated := sn_updated_at s, bk_synced_at := Some (now e) \<rparr>)"

definition succeeded_operation :: "env \<Rightarrow> snapshot \<Rightarrow> create_operation \<Rightarrow> create_operation" where
  "succeeded_operation e s op = op \<lparr> op_status := OpSucceeded, op_remote := Some (sn_id s),
     op_completed_at := Some (now e), op_error := [] \<rparr>"

definition completed_intent :: "bool \<Rightarrow> booking \<Rightarrow> booking" where
  "completed_intent paid b =
     (if paid then b \<lparr> bk_intent := map_option (\<lambda>i. i \<lparr> in_status := InCompleted \<rparr>) (bk_intent b) \<rparr> else b)"

definition record_creation :: "env \<Rightarrow> db \<Rightarrow> worker \<Rightarrow> snapshot \<Rightarrow> db \<times> string res" where
  "record_creation e d k s =
     (case bindE (with_row d (bk_id (wk_booking k)) (confirmed_row e k s)) (clean_booking d) of
        Inl x \<Rightarrow> (d, Inl x)
      | Inr b \<Rightarrow>
          (put_booking d (completed_intent (wk_paid k)
             (b \<lparr> bk_operation := map_option (succeeded_operation e s) (bk_operation b) \<rparr>)),
           Inr (if bk_status b = Confirmed then ''confirmed'' else ''awaiting_payment'')))"

text \<open>The answer of the channel manager, or the exception of its client.\<close>

definition conclude_creation :: "env \<Rightarrow> db \<Rightarrow> worker \<Rightarrow> snapshot res \<Rightarrow> db \<times> string res" where
  "conclude_creation e d k reply =
     (let n = bk_id (wk_booking k) in
      case reply of
        Inl (HostawayNetwork m) \<Rightarrow> finish_operation e d n ''hostaway_create_uncertain'' OpUnknown CreateUnknown None
      | Inl (HostawayServer m) \<Rightarrow> finish_operation e d n ''hostaway_create_uncertain'' OpUnknown CreateUnknown None
      | Inl (HostawayAuthentication m) \<Rightarrow> finish_operation e d n ''hostaway_create_rejected'' OpFailed CreateFailed None
      | Inl (HostawayAvailability m) \<Rightarrow> finish_operation e d n ''hostaway_create_rejected'' OpFailed CreateFailed None
      | Inl (HostawayConfiguration m) \<Rightarrow> finish_operation e d n ''hostaway_create_rejected'' OpFailed CreateFailed None
      | Inl (HostawayRateLimit m) \<Rightarrow> finish_operation e d n ''hostaway_create_rejected'' OpFailed CreateFailed None
      | Inl (HostawayResponse m) \<Rightarrow> finish_operation e d n ''hostaway_create_rejected'' OpFailed CreateFailed None
      | Inl x \<Rightarrow> (d, Inl x)
      | Inr s \<Rightarrow>
          if mismatched k s
          then finish_operation e d n ''hostaway_create_response_mismatch'' OpUnknown CreateUnknown (Some (sn_id s))
          else record_creation e d k s)"

subsection \<open>The three entry points\<close>

text \<open>One call with nothing in between; \<open>poster\<close> is the client.\<close>

definition create_reservation ::
    "channel_world \<Rightarrow> gateway \<Rightarrow> env \<Rightarrow> (create_request \<Rightarrow> snapshot res) \<Rightarrow> db \<Rightarrow> nat \<Rightarrow> bool \<Rightarrow> bool \<Rightarrow> db \<times> string res" where
  "create_reservation w g e poster d n paid override =
     (case bindE (of_option (DoesNotExist ''reservation'') (get_booking d n)) (\<lambda>b.
             bindE (plan_creation w g e d b paid override) (\<lambda>p. Inr (b, p))) of
        Inl x \<Rightarrow> (d, Inl x)
      | Inr (b, p) \<Rightarrow>
          (case commit_plan w e d b paid p of
             (d', Inl x) \<Rightarrow> (d', Inl x)
           | (d', Inr (Inl code)) \<Rightarrow> (d', Inr code)
           | (d', Inr (Inr k)) \<Rightarrow> conclude_creation e d' k (poster (wk_request k))))"

definition create_hostaway_reservation ::
    "channel_world \<Rightarrow> gateway \<Rightarrow> env \<Rightarrow> (create_request \<Rightarrow> snapshot res) \<Rightarrow> db \<Rightarrow> nat \<Rightarrow> db \<times> string res" where
  "create_hostaway_reservation w g e poster d n = create_reservation w g e poster d n True False"

definition create_manual_reservation_before_payment ::
    "channel_world \<Rightarrow> gateway \<Rightarrow> env \<Rightarrow> (create_request \<Rightarrow> snapshot res) \<Rightarrow> db \<Rightarrow> nat \<Rightarrow> db \<times> string res" where
  "create_manual_reservation_before_payment w g e poster d n = create_reservation w g e poster d n False True"

text \<open>A reservation without an intent makes \<open>cash_due\<close> fail on None (an AttributeError).\<close>

definition create_points_reservation ::
    "channel_world \<Rightarrow> gateway \<Rightarrow> env \<Rightarrow> (create_request \<Rightarrow> snapshot res) \<Rightarrow> db \<Rightarrow> nat \<Rightarrow> db \<times> string res" where
  "create_points_reservation w g e poster d n =
     (case get_booking d n of
        None \<Rightarrow> (d, Inl (DoesNotExist ''reservation''))
      | Some b \<Rightarrow>
          if \<not> loyalty_enabled e \<or> \<not> ls_points_started (bk_loyalty b)
          then (put_booking d (ensure_blocked w ''points_confirmation_not_authorized'' b), Inr ''points_confirmation_not_authorized'')
          else if ls_hold (bk_loyalty b) = None
          then (put_booking d (ensure_blocked w ''points_not_fully_allocated'' b), Inr ''points_not_fully_allocated'')
          else case bk_intent b of
            None \<Rightarrow> (d, Inl (TypeError ''intent''))
          | Some i \<Rightarrow>
              (case cash_due e d i False of
                 Inl x \<Rightarrow> (d, Inl x)
               | Inr (d1, due) \<Rightarrow>
                   if due \<noteq> Some 0
                   then (put_booking d (ensure_blocked w ''points_not_fully_allocated'' b), Inr ''points_not_fully_allocated'')
                   else create_reservation w g e poster d n False False))"

subsection \<open>Interleaved calls\<close>

text \<open>
  Calls of several processes: a plan made from any earlier state is committed, a worker writes as
  soon as it exists (the reservation enters the list of writes), its answer is recorded, or its
  process dies; local reservations are added in between.
\<close>

inductive channel_step ::
    "db \<times> worker list \<times> nat list \<Rightarrow> db \<times> worker list \<times> nat list \<Rightarrow> bool" where
  commit: "plan_creation w g e d0 b paid override = Inr p \<Longrightarrow> commit_plan w e d b paid p = (d', Inr (Inl code))
    \<Longrightarrow> channel_step (d, ks, sent) (d', ks, sent)"
| sending: "plan_creation w g e d0 b paid override = Inr p \<Longrightarrow> commit_plan w e d b paid p = (d', Inr (Inr k))
    \<Longrightarrow> channel_step (d, ks, sent) (d', k # ks, sent @ [bk_id b])"
| answer: "k \<in> set ks \<Longrightarrow> conclude_creation e d k reply = (d', x) \<Longrightarrow> channel_step (d, ks, sent) (d', remove1 k ks, sent)"
| lost: "channel_step (d, ks, sent) (d, remove1 k ks, sent)"
| booked: "prepare_local_reservation w e reference zone d n seen = Inr (d', m) \<Longrightarrow> channel_step (d, ks, sent) (d', ks, sent)"

inductive_cases channel_stepE: "channel_step (d, ks, sent) (d', ks', sent')"

definition attempted :: "db \<Rightarrow> nat \<Rightarrow> bool" where
  "attempted d n = (\<exists>b op. get_booking d n = Some b \<and> bk_operation b = Some op \<and> 0 < op_attempts op)"

definition writes_recorded :: "db \<Rightarrow> nat list \<Rightarrow> bool" where
  "writes_recorded d sent = (distinct sent \<and> (\<forall>n \<in> set sent. attempted d n))"

lemma ensure_blocked_attempts:
  "bk_operation b = Some op \<Longrightarrow> \<exists>op'. bk_operation (ensure_blocked w code b) = Some op' \<and> op_attempts op' = op_attempts op"
  by (auto simp: ensure_blocked_def Let_def)

lemma ensure_blocked_fields [simp]:
  "bk_id (ensure_blocked w code b) = bk_id b" "bk_status (ensure_blocked w code b) = bk_status b"
  "bk_remote (ensure_blocked w code b) = bk_remote b"
  by (simp_all add: ensure_blocked_def Let_def)

lemma prepare_operation_sendable:
  assumes "prepare_operation w e b q = (b', True)"
  shows "bk_id b' = bk_id b \<and> (\<exists>op. bk_operation b' = Some op \<and> op_attempts op = 1 \<and> op_status op = OpInProgress)
    \<and> (case bk_operation b of None \<Rightarrow> True | Some op \<Rightarrow> op_attempts op = 0)"
  using assms
  by (cases "bk_operation b") (auto simp: prepare_operation_def new_operation_def Let_def split: if_splits)

lemma prepare_operation_kept:
  assumes "prepare_operation w e b q = (b', False)"
  shows "bk_id b' = bk_id b \<and> (\<forall>op. bk_operation b = Some op \<longrightarrow> (\<exists>op'. bk_operation b' = Some op' \<and> op_attempts op' = op_attempts op))"
  using assms
  by (cases "bk_operation b") (auto simp: prepare_operation_def new_operation_def Let_def split: if_splits)

lemma with_row_cases:
  "with_row d n f = (case get_booking d n of None \<Rightarrow> Inl (DoesNotExist ''reservation'') | Some b \<Rightarrow> Inr (f b))"
  by (simp add: with_row_def of_option_def split: option.splits)

lemma find_append_Some: "find P xs = Some x \<Longrightarrow> find P (xs @ ys) = Some x"
  by (induction xs) auto

lemma with_row_Inr: "with_row d n f = Inr r \<longleftrightarrow> (\<exists>b. get_booking d n = Some b \<and> r = f b)"
  by (auto simp: with_row_def bindE_Inr_iff)

lemma attempted_put:
  assumes "get_booking d (bk_id b') = Some b"
    and "\<And>op. bk_operation b = Some op \<Longrightarrow> \<exists>op'. bk_operation b' = Some op' \<and> op_attempts op' = op_attempts op"
    and "attempted d n"
  shows "attempted (put_booking d b') n"
proof (cases "n = bk_id b'")
  case True
  then show ?thesis
    using assms booking_table.get_put_same [OF assms(1)] unfolding attempted_def by fastforce
next
  case False
  then have "get_booking (put_booking d b') n = get_booking d n" by (simp add: booking_table.get_put_other)
  then show ?thesis using assms(3) by (simp add: attempted_def)
qed

lemma finished_attempts:
  "bk_operation b = Some op \<Longrightarrow> \<exists>op'. bk_operation (finished e code st nm rm b) = Some op' \<and> op_attempts op' = op_attempts op"
  by (simp add: finished_def)

lemma finish_operation_attempted:
  assumes "finish_operation e d m code st nm rm = (d', x)" and "attempted d n"
  shows "attempted d' n"
proof (cases "d' = d")
  case False
  then obtain b where b: "get_booking d m = Some b" "d' = put_booking d (finished e code st nm rm b)"
    using assms(1) by (auto simp: finish_operation_def with_row_cases split: sum.splits option.splits if_splits)
  have "bk_id (finished e code st nm rm b) = m" using booking_table.get_key [OF b(1)] by (simp add: finished_def)
  then show ?thesis using attempted_put [of d "finished e code st nm rm b" b] b assms(2) finished_attempts by simp
qed (use assms in simp)

lemma clean_booking_row:
  "clean_booking d b0 = Inr b \<Longrightarrow> bk_id b = bk_id b0 \<and> bk_operation b = bk_operation b0 \<and> bk_status b = bk_status b0
     \<and> bk_remote b = bk_remote b0 \<and> bk_check_in b = bk_check_in b0 \<and> bk_check_out b = bk_check_out b0
     \<and> bk_total b = bk_total b0 \<and> bk_intent b = bk_intent b0"
  by (auto simp: clean_booking_def Let_def split: if_splits)

lemma clean_bookingI:
  assumes "map upper_char (bk_currency b) = bk_currency b" and "length (bk_currency b) = 3" and "list_all is_letter (bk_currency b)"
    and "1 \<le> bk_nights b" and "1 \<le> bk_guests b" and "int (bk_nights b) = bk_check_out b - bk_check_in b"
    and "in_range (bk_remote b) (2 ^ 63 - 1)" and "in_range (bk_listing_map b) (2 ^ 63 - 1)" and "in_range (bk_channel b) (2 ^ 31 - 1)"
    and "length (bk_remote_status b) \<le> 100" and "length (bk_payment_status b) \<le> 100"
    and "bk_status b = Confirmed \<Longrightarrow> bk_remote b \<noteq> None" and "bk_cancelled_at b = None"
    and "\<And>i. bk_intent b = Some i \<Longrightarrow> in_property i = bk_property b" and "\<not> remote_taken d b"
  shows "clean_booking d b = Inr b"
proof -
  have "b \<lparr> bk_currency := map upper_char (bk_currency b) \<rparr> = b" using assms(1) by (cases b) simp
  then show ?thesis using assms by (auto simp: clean_booking_def Let_def split: option.splits)
qed

lemma record_creation_attempted:
  assumes "record_creation e d k s = (d', x)" and "attempted d n"
  shows "attempted d' n"
proof (cases "d' = d")
  case False
  then obtain b0 b where b: "get_booking d (bk_id (wk_booking k)) = Some b0" "clean_booking d (confirmed_row e k s b0) = Inr b"
    "d' = put_booking d (completed_intent (wk_paid k) (b \<lparr> bk_operation := map_option (succeeded_operation e s) (bk_operation b) \<rparr>))"
    using assms(1) by (auto simp: record_creation_def with_row_cases split: sum.splits option.splits)
  have same: "bk_id b = bk_id b0" "bk_operation b = bk_operation b0"
    using clean_booking_row [OF b(2)] by (auto simp: confirmed_row_def Let_def)
  let ?b' = "completed_intent (wk_paid k) (b \<lparr> bk_operation := map_option (succeeded_operation e s) (bk_operation b) \<rparr>)"
  have "bk_id ?b' = bk_id (wk_booking k)" using same booking_table.get_key [OF b(1)] by (simp add: completed_intent_def)
  then show ?thesis
    using attempted_put [of d ?b' b0 n] b same assms(2) by (simp add: completed_intent_def succeeded_operation_def)
qed (use assms in simp)

lemma conclude_creation_attempted:
  assumes "conclude_creation e d k reply = (d', x)" and "attempted d n"
  shows "attempted d' n"
proof (cases reply)
  case (Inl y)
  then show ?thesis
    using assms finish_operation_attempted by (cases y) (auto simp: conclude_creation_def Let_def)
next
  case (Inr s)
  then show ?thesis
    using assms finish_operation_attempted record_creation_attempted
    by (auto simp: conclude_creation_def Let_def split: if_splits)
qed

lemma commit_plan_kept:
  assumes "commit_plan w e d b paid p = (d', Inr (Inl code))" and "attempted d n"
  shows "attempted d' n"
proof (cases "p = AlreadyConfirmed")
  case True
  then show ?thesis using assms by (auto simp: commit_plan_def split: sum.splits)
next
  case changed: False
  obtain b0 b1 c snd1 where b: "get_booking d (bk_id b) = Some b0" "planned_row w e p b0 = (b1, c, snd1)" "d' = put_booking d b1"
    and unsent: "\<And>r q. p = Ready r q \<Longrightarrow> \<not> snd1"
    using assms(1) changed
    by (auto simp: commit_plan_def with_row_cases split: sum.splits option.splits prod.splits plan.splits if_splits)
  have id: "bk_id b0 = bk_id b" using booking_table.get_key [OF b(1)] .
  have "bk_id b1 = bk_id b0 \<and> (\<forall>op. bk_operation b0 = Some op \<longrightarrow> (\<exists>op'. bk_operation b1 = Some op' \<and> op_attempts op' = op_attempts op))"
  proof (cases p)
    case (Ready r q)
    then show ?thesis using b(2) unsent prepare_operation_kept [of w e b0 q b1] by (auto simp: planned_row_def split: prod.splits)
  next
    case (FailedLocally code')
    then show ?thesis
      using b(2) ensure_blocked_attempts [of "b0 \<lparr> bk_status := CreateFailed \<rparr>" _ w code'] by (auto simp: planned_row_def)
  qed (use b(2) ensure_blocked_attempts [of b0] in \<open>auto simp: planned_row_def\<close>)
  then show ?thesis using attempted_put [of d b1 b0 n] b id assms(2) by auto
qed

lemma commit_plan_sent:
  assumes "commit_plan w e d b paid p = (d', Inr (Inr k))"
  shows "\<not> attempted d (bk_id b) \<and> attempted d' (bk_id b) \<and> (\<forall>n. attempted d n \<longrightarrow> attempted d' n)"
proof -
  obtain r q where p: "p = Ready r q"
    using assms by (cases p) (auto simp: commit_plan_def split: sum.splits)
  obtain b0 b1 where b: "get_booking d (bk_id b) = Some b0" "prepare_operation w e b0 q = (b1, True)" "d' = put_booking d b1"
    using assms by (auto simp: p commit_plan_def with_row_cases planned_row_def
      split: sum.splits option.splits prod.splits if_splits)
  have id: "bk_id b0 = bk_id b" using booking_table.get_key [OF b(1)] .
  obtain op where op: "bk_id b1 = bk_id b0" "bk_operation b1 = Some op" "op_attempts op = 1"
    "case bk_operation b0 of None \<Rightarrow> True | Some op \<Rightarrow> op_attempts op = 0"
    using prepare_operation_sendable [OF b(2)] by blast
  have here: "get_booking d' (bk_id b) = Some b1" using booking_table.get_put_same [of d b1 b0] b id op(1) by simp
  have "\<not> attempted d (bk_id b)" using b(1) op(4) by (auto simp: attempted_def)
  moreover have "attempted d' (bk_id b)" using here op by (auto simp: attempted_def)
  moreover have "attempted d' n" if "attempted d n" for n
  proof (cases "n = bk_id b")
    case False
    then show ?thesis using that b(3) id op(1) by (simp add: attempted_def booking_table.get_put_other)
  qed (use calculation in simp)
  ultimately show ?thesis by blast
qed

lemma get_booking_append:
  "db_bookings d' = db_bookings d @ bs \<Longrightarrow> get_booking d n = Some b \<Longrightarrow> get_booking d' n = Some b"
  unfolding get_booking_def row_get_def by (simp add: find_append_Some)

lemma prepare_local_bookings:
  assumes "prepare_local_reservation w e reference zone d n seen = Inr (d', m)"
  shows "\<exists>bs. db_bookings d' = db_bookings d @ bs"
proof (cases "booking_of_intent d n")
  case None
  obtain b where "d' = d \<lparr> db_bookings := db_bookings d @ [b], db_intents := filter (\<lambda>x. in_id x \<noteq> n) (db_intents d) \<rparr>"
    using assms None unfolding prepare_local_reservation_def
    by (auto simp only: bindE_Inr_iff option.case if_split split: if_splits)
  then show ?thesis by auto
qed (use assms in \<open>auto simp: prepare_local_reservation_def split: if_splits\<close>)

lemma prepare_local_attempted:
  assumes "prepare_local_reservation w e reference zone d n seen = Inr (d', m)" and "attempted d k"
  shows "attempted d' k"
  using prepare_local_bookings [OF assms(1)] get_booking_append assms(2) unfolding attempted_def by blast

lemma channel_step_recorded:
  assumes "channel_step (d, ks, sent) (d', ks', sent')" and "writes_recorded d sent"
  shows "writes_recorded d' sent'"
  using assms(1)
proof (cases rule: channel_step.cases)
  case commit
  then show ?thesis using commit_plan_kept assms(2) by (auto simp: writes_recorded_def)
next
  case (sending w g e d0 b)
  then show ?thesis using commit_plan_sent [OF sending(4)] assms(2) by (auto simp: writes_recorded_def)
next
  case answer
  then show ?thesis using conclude_creation_attempted assms(2) by (auto simp: writes_recorded_def)
next
  case lost
  then show ?thesis using assms(2) by simp
next
  case booked
  then show ?thesis using prepare_local_attempted assms(2) by (auto simp: writes_recorded_def)
qed

subsection \<open>Properties\<close>

text \<open>C6: a reservation is written to the channel manager at most once: over every interleaving of
  calls by several processes, with every answer or loss of an answer, crashes between the
  transactions and calls repeated at any time, no reservation appears twice among the writes.\<close>

theorem creation_sent_once:
  assumes "channel_step\<^sup>*\<^sup>* (d, [], []) (d', ks, sent)"
  shows "distinct sent"
proof -
  have "writes_recorded (fst s) (snd (snd s))" if "channel_step\<^sup>*\<^sup>* (d, [], []) s" for s
    using that
  proof (induction rule: rtranclp_induct)
    case base
    then show ?case by (simp add: writes_recorded_def)
  next
    case (step s t)
    then show ?case using channel_step_recorded by (cases s; cases t) auto
  qed
  from this [OF assms] show ?thesis by (simp add: writes_recorded_def)
qed

lemma plan_creation_paid:
  assumes "plan_creation w g e d b True override = Inr (Ready r q)" and "bk_intent b = Some i"
  shows "\<exists>p due. cash_due e d i False = Inr (fst due, Some (pa_amount p)) \<and> p \<in> set (in_payments i) \<and> pa_status p = PaSucceeded
    \<and> pa_currency p = payment_currency"
proof -
  have "blocking_reason w g e d b True = Inr None"
    using assms(1) by (auto simp: plan_creation_def bindE_Inr_iff split: option.splits if_splits)
  then obtain p where "paid_in_full e d i = Inr (Some p)"
    using assms(2) by (auto simp: blocking_reason_def bindE_Inr_iff split: if_splits option.splits)
  then obtain due ps where due: "cash_due e d i False = Inr due"
    and ps: "ps = filter (\<lambda>p. pa_status p = PaSucceeded \<and> Some (pa_amount p) = snd due \<and> pa_currency p = payment_currency) (in_payments i)"
    and p: "ps \<noteq> []" "p = last ps"
    by (auto simp: paid_in_full_def bindE_Inr_iff Let_def split: if_splits)
  have "p \<in> set ps" using p by simp
  then have "pa_status p = PaSucceeded" "Some (pa_amount p) = snd due" "pa_currency p = payment_currency" "p \<in> set (in_payments i)"
    by (auto simp: ps)
  then show ?thesis using due by (intro exI [of _ p] exI [of _ due]) (cases due; simp)
qed

text \<open>What one call leaves, by the plan it made.\<close>

lemma create_reservation_cases:
  assumes "create_reservation w g e poster d n paid override = (d', x)" and "get_booking d n = Some b"
  obtains (unread) "d' = d"
    | (unsent) p b1 c where "p \<noteq> AlreadyConfirmed" "planned_row w e p b = (b1, c, False)" "d' = put_booking d b1" "x = Inr c"
    | (sent) r q b1 where "plan_creation w g e d b paid override = Inr (Ready r q)" "prepare_operation w e b q = (b1, True)"
        "conclude_creation e (put_booking d b1) \<lparr> wk_booking = b, wk_request = r, wk_paid = paid \<rparr> (poster r) = (d', x)"
proof -
  have id: "bk_id b = n" using booking_table.get_key [OF assms(2)] .
  show thesis
  proof (cases "plan_creation w g e d b paid override")
    case (Inl y)
    then show thesis using assms by (intro unread) (auto simp: create_reservation_def)
  next
    case (Inr p)
    have run: "(case commit_plan w e d b paid p of
             (d', Inl x) \<Rightarrow> (d', Inl x)
           | (d', Inr (Inl code)) \<Rightarrow> (d', Inr code)
           | (d', Inr (Inr k)) \<Rightarrow> conclude_creation e d' k (poster (wk_request k))) = (d', x)"
      using assms Inr by (simp add: create_reservation_def)
    obtain b1 c sendable where row: "planned_row w e p b = (b1, c, sendable)" by (cases "planned_row w e p b") auto
    show thesis
    proof (cases "p = AlreadyConfirmed")
      case True
      then show thesis using run row assms(2) id by (intro unread) (auto simp: commit_plan_def with_row_cases)
    next
      case changed: False
      show thesis
      proof (cases sendable)
        case False
        then show thesis
          using run row assms(2) id changed
          by (intro unsent [OF changed, of b1 c]) (auto simp: commit_plan_def with_row_cases split: plan.splits)
      next
        case True
        then obtain r q where p: "p = Ready r q" using row by (cases p) (auto simp: planned_row_def)
        then have "prepare_operation w e b q = (b1, True)" using row True by (auto simp: planned_row_def split: prod.splits)
        then show thesis
          using run row assms(2) id True p Inr
          by (intro sent [of r q b1]) (auto simp: commit_plan_def with_row_cases)
      qed
    qed
  qed
qed

lemma planned_row_status:
  assumes "planned_row w e p b = (b1, c, False)"
  shows "bk_id b1 = bk_id b \<and> (bk_status b1 = bk_status b \<or> bk_status b1 = CreateFailed)"
  using assms by (cases p) (auto simp: planned_row_def prepare_operation_def Let_def split: prod.splits if_splits)

lemma finish_operation_row:
  assumes "finish_operation e d n code st nm rm = (d', x)" and "get_booking d n = Some b"
  shows "(d' = d \<and> (\<exists>y. x = Inl y)) \<or> (x = Inr code \<and> get_booking d' n = Some (finished e code st nm rm b))"
proof -
  have id: "bk_id (finished e code st nm rm b) = n"
    using booking_table.get_key [OF assms(2)] by (simp add: finished_def)
  then show ?thesis
    using assms booking_table.get_put_same [of d "finished e code st nm rm b" b]
    by (auto simp: finish_operation_def with_row_cases split: if_splits)
qed

lemma record_creation_row:
  assumes "record_creation e d k s = (d', x)" and "get_booking d (bk_id (wk_booking k)) = Some b"
  shows "(d' = d \<and> (\<exists>y. x = Inl y))
    \<or> (\<exists>b'. get_booking d' (bk_id (wk_booking k)) = Some b' \<and> bk_remote b' = Some (sn_id s)
         \<and> bk_operation b' = map_option (succeeded_operation e s) (bk_operation b)
         \<and> bk_check_in b' = bk_check_in b \<and> bk_check_out b' = bk_check_out b \<and> bk_total b' = bk_total b
         \<and> bk_status b' = (if wk_paid k then Confirmed else normalize_status (sn_status s))
         \<and> x = Inr (if bk_status b' = Confirmed then ''confirmed'' else ''awaiting_payment''))"
proof (cases "clean_booking d (confirmed_row e k s b)")
  case (Inl y)
  then show ?thesis using assms by (intro disjI1) (auto simp: record_creation_def with_row_cases)
next
  case (Inr c)
  let ?b' = "completed_intent (wk_paid k) (c \<lparr> bk_operation := map_option (succeeded_operation e s) (bk_operation c) \<rparr>)"
  have run: "d' = put_booking d ?b'" "x = Inr (if bk_status c = Confirmed then ''confirmed'' else ''awaiting_payment'')"
    using assms Inr by (auto simp: record_creation_def with_row_cases)
  have c: "bk_id ?b' = bk_id (wk_booking k)" "bk_remote ?b' = Some (sn_id s)" "bk_status ?b' = bk_status c"
    "bk_status c = (if wk_paid k then Confirmed else normalize_status (sn_status s))"
    "bk_operation ?b' = map_option (succeeded_operation e s) (bk_operation b)"
    "bk_check_in ?b' = bk_check_in b" "bk_check_out ?b' = bk_check_out b" "bk_total ?b' = bk_total b"
    using clean_booking_row [OF Inr] booking_table.get_key [OF assms(2)]
    by (simp_all add: confirmed_row_def completed_intent_def Let_def)
  have "get_booking d' (bk_id (wk_booking k)) = Some ?b'"
    using booking_table.get_put_same [of d ?b' b] assms(2) c(1) by (simp add: run)
  then show ?thesis using run(2) c by (intro disjI2 exI [of _ ?b']) simp
qed

text \<open>C15: a paid reservation becomes confirmed only with the money and the channel manager's agreement.
  When \<open>create_hostaway_reservation\<close> turns a reservation into a confirmed one, an attempt over exactly
  the cash due for its intent has succeeded in the payment currency, the availability service had
  an offer, and the channel manager answered the one write with a reservation of the same dates,
  currency and total, whose identifier the reservation now carries.\<close>

theorem confirmation_backed:
  assumes "create_hostaway_reservation w g e poster d n = (d', x)" and "get_booking d n = Some b" and "bk_intent b = Some i"
    and "bk_status b \<noteq> Confirmed" and "get_booking d' n = Some b'" and "bk_status b' = Confirmed"
  shows "x = Inr ''confirmed''
    \<and> (\<exists>p due. cash_due e d i False = Inr (due, Some (pa_amount p)) \<and> p \<in> set (in_payments i) \<and> pa_status p = PaSucceeded
          \<and> pa_currency p = payment_currency)
    \<and> (\<exists>a. cw_check w b = Inr a \<and> av_available a)
    \<and> (\<exists>r s. poster r = Inr s \<and> bk_remote b' = Some (sn_id s) \<and> sn_listing_map s = rq_listing_map r
          \<and> sn_check_in s = bk_check_in b' \<and> sn_check_out s = bk_check_out b'
          \<and> sn_currency s = bk_currency b \<and> sn_total s = bk_total b')"
proof -
  have id: "bk_id b = n" using booking_table.get_key [OF assms(2)] .
  from assms(1,2) show ?thesis
    unfolding create_hostaway_reservation_def
  proof (cases rule: create_reservation_cases)
    case unread
    then show ?thesis using assms(2,4-6) by simp
  next
    case (unsent p b1 c)
    have "get_booking d' n = Some b1"
      using booking_table.get_put_same [of d b1 b] planned_row_status [OF unsent(2)] assms(2) id unsent(3) by simp
    then show ?thesis using planned_row_status [OF unsent(2)] assms(4-6) by auto
  next
    case (sent r q b1)
    let ?k = "\<lparr> wk_booking = b, wk_request = r, wk_paid = True \<rparr>"
    let ?d1 = "put_booking d b1"
    have b1: "bk_id b1 = n" "bk_status b1 = Creating" "bk_check_in b1 = bk_check_in b" "bk_check_out b1 = bk_check_out b" "bk_total b1 = bk_total b"
      using sent(2) id by (auto simp: prepare_operation_def Let_def split: if_splits)
    have row: "get_booking ?d1 n = Some b1" using booking_table.get_put_same [of d b1 b] assms(2) b1(1) by simp
    have finish: False if "finish_operation e ?d1 n code st nm rm = (d', x)" "nm \<noteq> Confirmed" for code st nm rm
      using finish_operation_row [OF that(1) row] that(2) row b1(2) assms(5,6) by (auto simp: finished_def)
    have ready: "\<exists>a. cw_check w b = Inr a \<and> av_available a"
      using sent(1) by (auto simp: plan_creation_def bindE_Inr_iff split: option.splits bool.splits if_splits)
    obtain s where s: "poster r = Inr s" "\<not> mismatched ?k s" "record_creation e ?d1 ?k s = (d', x)"
    proof (cases "poster r")
      case (Inl y)
      then have False using sent(3) finish row b1(2) assms(5,6) id
        by (cases y) (auto simp: conclude_creation_def Let_def)
      then show thesis ..
    next
      case (Inr s)
      then show thesis using sent(3) finish id that by (auto simp: conclude_creation_def Let_def split: if_splits)
    qed
    have "x = Inr ''confirmed'' \<and> bk_remote b' = Some (sn_id s) \<and> bk_check_in b' = bk_check_in b1
        \<and> bk_check_out b' = bk_check_out b1 \<and> bk_total b' = bk_total b1"
      using record_creation_row [OF s(3), of b1] row b1(2) assms(5,6) id by auto
    then show ?thesis
      using s(1,2) b1(3-5) ready plan_creation_paid [OF sent(1) assms(3)]
      by (auto simp: mismatched_def)
  qed
qed

text \<open>An uncertain creation can be called failed. A second call for a reservation whose write is
  still uncertain, made while the calendar shows no availability (as it does when the first write
  went through), marks the reservation as failed, while its operation stays uncertain.\<close>

lemma uncertain_creation_called_failed:
  assumes "get_booking d n = Some b" and "bk_operation b = Some op" and "op_status op = OpUnknown" and "bk_remote b = None"
    and "blocking_reason w g e d b True = Inr None" and "cw_check w b = Inr a" and "\<not> av_available a"
  shows "\<exists>d' b'. create_hostaway_reservation w g e poster d n = (d', Inr ''availability_lost'')
    \<and> get_booking d' n = Some b' \<and> bk_status b' = CreateFailed \<and> bk_operation b' = Some op"
proof -
  have id: "bk_id b = n" using booking_table.get_key [OF assms(1)] .
  let ?b' = "ensure_blocked w ''availability_lost'' (b \<lparr> bk_status := CreateFailed \<rparr>)"
  have "plan_creation w g e d b True False = Inr (FailedLocally ''availability_lost'')"
    using assms(4-7) by (simp add: plan_creation_def)
  then have "create_hostaway_reservation w g e poster d n = (put_booking d ?b', Inr ''availability_lost'')"
    using assms(1) id by (simp add: create_hostaway_reservation_def create_reservation_def commit_plan_def with_row_cases planned_row_def)
  moreover have "get_booking (put_booking d ?b') n = Some ?b'"
    using booking_table.get_put_same [of d ?b' b] assms(1) id by simp
  moreover have "bk_operation ?b' = Some op" using assms(2,3) by (simp add: ensure_blocked_def Let_def)
  ultimately show ?thesis by auto
qed

text \<open>A write the channel manager has accepted can be called rejected. When the answer to the
  write is a success that the client cannot read (its body is no JSON, or no well-typed
  reservation), the reservation and its operation are recorded as failed, exactly as after a
  refusal; only a network failure or a server error is recorded as uncertain.\<close>

lemma accepted_creation_called_rejected:
  assumes "get_token srv cf False s = (s1, Inr t)" and "srv (cs_calls s1) (mk t) = Replied a" and "an_status a = 200"
    and "an_body a = None" and "get_booking d (bk_id (wk_booking k)) = Some b" and "bk_operation b = Some op"
    and "write_json srv cf mk s = (s', v)" and "\<not> remote_taken d (finished e ''hostaway_create_rejected'' OpFailed CreateFailed None b)"
    and "reply = (case v of Inl x \<Rightarrow> Inl x | Inr body \<Rightarrow> validate_reservation_response reading body)"
  shows "\<exists>d' b' op'. conclude_creation e d k reply = (d', Inr ''hostaway_create_rejected'')
    \<and> get_booking d' (bk_id (wk_booking k)) = Some b' \<and> bk_status b' = CreateFailed
    \<and> bk_operation b' = Some op' \<and> op_status op' = OpFailed"
proof -
  have "v = Inl (HostawayResponse ''invalid_json'')"
    using assms(1-4,7)
    by (simp add: write_json_def authenticated_def bindIO_def send_def transport_def returnIO_def liftIO_def
        raise_for_response_def json_body_def)
  then have "reply = Inl (HostawayResponse ''invalid_json'')" using assms(9) by simp
  moreover let ?b' = "finished e ''hostaway_create_rejected'' OpFailed CreateFailed None b"
  have "get_booking (put_booking d ?b') (bk_id (wk_booking k)) = Some ?b'"
    using booking_table.get_put_same [of d ?b' b] assms(5) booking_table.get_key [OF assms(5)] by (simp add: finished_def)
  ultimately show ?thesis
    using assms(5,6,8)
    by (intro exI [of _ "put_booking d ?b'"] exI [of _ ?b'])
      (auto simp: conclude_creation_def finish_operation_def with_row_cases finished_def Let_def)
qed

subsection \<open>Sample runs\<close>

definition offered_price :: price_quote where
  "offered_price = \<lparr> pq_listing = 5, pq_check_in = 719163, pq_check_out = 719165, pq_nights = 2, pq_guests = 2,
     pq_currency = ''SAR'', pq_total = 1000,
     pq_components = [\<lparr> pc_setting = None, pc_type = ''price'', pc_name = ''baseRate'', pc_title = [], pc_alias = [],
       pc_quantity = None, pc_value = 1000, pc_total = Some 1000, pc_included = Some True, pc_overridden = None,
       pc_mandatory = None, pc_deleted = Some False \<rparr>],
     pq_calculated_at = 7, pq_fields = [], pq_types = [], pq_component_types = [] \<rparr>"

definition sample_world :: channel_world where
  "sample_world = \<lparr> cw_channel = Some 2000, cw_units = (\<lambda>p. Some (5, Some 12)),
     cw_check = (\<lambda>b. Inr \<lparr> av_available = True, av_reason = ''available'', av_nights = 2, av_quote = Some offered_price,
       av_calendar = None, av_calendar_hit = False, av_price_hit = False \<rparr>),
     cw_conflict = (\<lambda>b. False), cw_digest = (\<lambda>b. ''d''), cw_request_digest = (\<lambda>s q. ''r'') \<rparr>"

definition live_gateway :: gateway where
  "live_gateway = sample_gateway \<lparr> gs_live_booking := True \<rparr>"

definition ready_booking :: booking where
  "ready_booking = paid_booking \<lparr> bk_status := ReadyForHostaway, bk_remote := None, bk_operation := None, bk_confirmed_at := None \<rparr>"

definition ready_db :: db where
  "ready_db = sample_db \<lparr> db_bookings := [ready_booking] \<rparr>"

definition accepted_snapshot :: snapshot where
  "accepted_snapshot = \<lparr> sn_id = 900, sn_listing_map = 12, sn_channel = None, sn_status = ''new'', sn_check_in = 719163,
     sn_check_out = 719165, sn_guests = 2, sn_currency = ''SAR'', sn_total = 1000, sn_payment_status = ''Unpaid'',
     sn_source = ''direct'', sn_updated_at = None \<rparr>"

lemma ready_found: "get_booking ready_db 70 = Some ready_booking"
  by (simp add: get_booking_def row_get_def ready_db_def ready_booking_def paid_booking_def sample_booking_def)

lemma ready_plan: "\<exists>r. plan_creation sample_world live_gateway sample_env ready_db ready_booking True False
    = Inr (Ready r offered_price) \<and> rq_listing_map r = 12 \<and> rq_channel r = 2000"
proof -
  have "case plan_creation sample_world live_gateway sample_env ready_db ready_booking True False of
      Inr (Ready r q) \<Rightarrow> q = offered_price \<and> rq_listing_map r = 12 \<and> rq_channel r = 2000 | _ \<Rightarrow> False"
    by code_simp
  then show ?thesis by (auto split: sum.splits plan.splits)
qed

definition created_row :: booking where
  "created_row = fst (prepare_operation sample_world sample_env ready_booking offered_price)"

lemma ready_sendable: "prepare_operation sample_world sample_env ready_booking offered_price = (created_row, True)"
  by (simp add: created_row_def prepare_operation_def sample_world_def ready_booking_def Let_def)

lemma ready_sent:
  assumes "plan_creation sample_world live_gateway sample_env ready_db ready_booking True False = Inr (Ready r offered_price)"
  shows "commit_plan sample_world sample_env ready_db ready_booking True (Ready r offered_price)
    = (put_booking ready_db created_row, Inr (Inr \<lparr> wk_booking = ready_booking, wk_request = r, wk_paid = True \<rparr>))"
proof -
  have "bk_id ready_booking = 70" by (simp add: ready_booking_def paid_booking_def sample_booking_def)
  then show ?thesis using ready_found by (simp add: commit_plan_def with_row_cases planned_row_def ready_sendable)
qed

theorem creation_sent_once_witness:
  "\<exists>d' ks sent. channel_step\<^sup>*\<^sup>* (ready_db, [], []) (d', ks, sent) \<and> sent = [70] \<and> distinct sent"
proof -
  obtain r where r: "plan_creation sample_world live_gateway sample_env ready_db ready_booking True False = Inr (Ready r offered_price)"
    using ready_plan by blast
  have id: "bk_id ready_booking = 70" by (simp add: ready_booking_def paid_booking_def sample_booking_def)
  have "channel_step (ready_db, [], []) (put_booking ready_db created_row, [\<lparr> wk_booking = ready_booking, wk_request = r, wk_paid = True \<rparr>], [70])"
    using channel_step.sending [OF r ready_sent [OF r], of "[]" "[]"] id by simp
  then have run: "channel_step\<^sup>*\<^sup>* (ready_db, [], []) (put_booking ready_db created_row, [\<lparr> wk_booking = ready_booking, wk_request = r, wk_paid = True \<rparr>], [70])"
    by (rule r_into_rtranclp)
  show ?thesis using run creation_sent_once [OF run] by blast
qed

lemma ready_confirmed:
  "\<exists>d'. create_hostaway_reservation sample_world live_gateway sample_env (\<lambda>r. Inr accepted_snapshot) ready_db 70
     = (d', Inr ''confirmed'') \<and> (\<exists>b'. get_booking d' 70 = Some b' \<and> bk_status b' = Confirmed)"
proof -
  obtain r where r: "plan_creation sample_world live_gateway sample_env ready_db ready_booking True False = Inr (Ready r offered_price)"
    "rq_listing_map r = 12" "rq_channel r = 2000" using ready_plan by blast
  let ?k = "\<lparr> wk_booking = ready_booking, wk_request = r, wk_paid = True \<rparr>"
  let ?d1 = "put_booking ready_db created_row"
  have id: "bk_id ready_booking = 70" "bk_id created_row = 70"
    by (simp_all add: created_row_def prepare_operation_def sample_world_def ready_booking_def paid_booking_def sample_booking_def Let_def)
  have row: "get_booking ?d1 70 = Some created_row"
    using booking_table.get_put_same [of ready_db created_row] ready_found id by simp
  have ok: "\<not> mismatched ?k accepted_snapshot"
    by (simp add: mismatched_def accepted_snapshot_def r ready_booking_def paid_booking_def sample_booking_def)
  have bookings: "db_bookings ?d1 = [created_row]"
    using id by (simp add: put_booking_def ready_db_def row_put_def)
  let ?x = "confirmed_row sample_env ?k accepted_snapshot created_row"
  have free: "\<not> remote_taken ?d1 ?x"
    using id by (simp add: remote_taken_def bookings confirmed_row_def Let_def)
  have texts: "merge_payment_status ''paid'' ''Unpaid'' = ''paid''" "map upper_char ''SAR'' = ''SAR''" "list_all is_letter ''SAR''"
    by code_simp+
  have parts: "bk_currency ?x = ''SAR''" "bk_nights ?x = 2" "bk_guests ?x = 2" "bk_check_out ?x - bk_check_in ?x = 2"
    "bk_remote ?x = Some 900" "bk_listing_map ?x = Some 12" "bk_channel ?x = Some 2000" "bk_remote_status ?x = ''new''"
    "bk_payment_status ?x = ''paid''" "bk_cancelled_at ?x = None" "bk_status ?x = Confirmed"
    "map_option in_property (bk_intent ?x) = Some (bk_property ?x)"
    by (simp_all add: confirmed_row_def accepted_snapshot_def r created_row_def prepare_operation_def sample_world_def
        ready_booking_def paid_booking_def sample_booking_def sample_intent_def texts Let_def)
  have clean: "clean_booking ?d1 ?x = Inr ?x"
    by (rule clean_bookingI; (rule free | simp only: parts texts)?)
      (use parts(12) in \<open>auto simp: in_range_def\<close>)
  let ?b = "confirmed_row sample_env ?k accepted_snapshot created_row"
  let ?b' = "completed_intent True (?b \<lparr> bk_operation := map_option (succeeded_operation sample_env accepted_snapshot) (bk_operation ?b) \<rparr>)"
  have status: "bk_status ?b = Confirmed" "bk_id ?b' = 70" "bk_status ?b' = Confirmed"
    using id by (simp_all add: confirmed_row_def completed_intent_def Let_def)
  have "create_hostaway_reservation sample_world live_gateway sample_env (\<lambda>r. Inr accepted_snapshot) ready_db 70
      = (put_booking ?d1 ?b', Inr ''confirmed'')"
    using ready_sent [OF r(1)] row ok clean id status
    by (simp add: create_hostaway_reservation_def create_reservation_def ready_found r(1) conclude_creation_def
        record_creation_def with_row_cases Let_def)
  then show ?thesis
    using booking_table.get_put_same [of ?d1 ?b' created_row] row status by auto
qed

theorem confirmation_backed_witness:
  "\<exists>d' p. create_hostaway_reservation sample_world live_gateway sample_env (\<lambda>r. Inr accepted_snapshot) ready_db 70
     = (d', Inr ''confirmed'') \<and> p \<in> set (in_payments (the (bk_intent ready_booking))) \<and> pa_status p = PaSucceeded"
proof -
  obtain d' b' where run: "create_hostaway_reservation sample_world live_gateway sample_env (\<lambda>r. Inr accepted_snapshot) ready_db 70
     = (d', Inr ''confirmed'')" and b': "get_booking d' 70 = Some b'" "bk_status b' = Confirmed"
    using ready_confirmed by blast
  have i: "bk_intent ready_booking = Some (the (bk_intent ready_booking))" "bk_status ready_booking \<noteq> Confirmed"
    by (simp_all add: ready_booking_def paid_booking_def sample_booking_def)
  show ?thesis using confirmation_backed [OF run ready_found i b'] run by blast
qed

definition uncertain_booking :: booking where
  "uncertain_booking = created_row \<lparr> bk_status := CreateUnknown,
     bk_operation := map_option (\<lambda>op. op \<lparr> op_status := OpUnknown, op_error := ''hostaway_create_uncertain'' \<rparr>) (bk_operation created_row) \<rparr>"

definition full_world :: channel_world where
  "full_world = sample_world \<lparr> cw_check := (\<lambda>b. Inr (refused ''unavailable_dates'' 2 None)) \<rparr>"

lemma uncertain_creation_called_failed_at:
  "\<exists>d' b'. create_hostaway_reservation full_world live_gateway sample_env (\<lambda>r. Inr accepted_snapshot)
       (sample_db \<lparr> db_bookings := [uncertain_booking] \<rparr>) 70 = (d', Inr ''availability_lost'')
     \<and> get_booking d' 70 = Some b' \<and> bk_status b' = CreateFailed"
proof -
  let ?d = "sample_db \<lparr> db_bookings := [uncertain_booking] \<rparr>"
  have found: "get_booking ?d 70 = Some uncertain_booking"
    by (simp add: get_booking_def row_get_def uncertain_booking_def created_row_def prepare_operation_def sample_world_def
        ready_booking_def paid_booking_def sample_booking_def Let_def)
  have op: "bk_operation uncertain_booking = Some (the (bk_operation uncertain_booking))"
    "op_status (the (bk_operation uncertain_booking)) = OpUnknown" "bk_remote uncertain_booking = None"
    by (simp_all add: uncertain_booking_def created_row_def prepare_operation_def sample_world_def ready_booking_def Let_def)
  have "blocking_reason full_world live_gateway sample_env ?d uncertain_booking True = Inr None" by code_simp
  moreover have "cw_check full_world uncertain_booking = Inr (refused ''unavailable_dates'' 2 None)"
    "\<not> av_available (refused ''unavailable_dates'' 2 None)"
    by (simp_all add: full_world_def refused_def)
  ultimately show ?thesis
    using uncertain_creation_called_failed [OF found op, of full_world live_gateway sample_env] by blast
qed

definition unreadable_server :: server where
  "unreadable_server cs c = Replied \<lparr> an_status = 200, an_body = None, an_retry = None \<rparr>"

lemma accepted_creation_called_rejected_at:
  "\<exists>d' b'. conclude_creation sample_env (put_booking ready_db created_row)
        \<lparr> wk_booking = ready_booking, wk_request = sample_request, wk_paid = True \<rparr>
        (case snd (write_json unreadable_server sample_client (PostCall ''/reservations'' [] []) fresh_client) of
           Inl x \<Rightarrow> Inl x | Inr body \<Rightarrow> validate_reservation_response (\<lambda>v. Inr None) body)
      = (d', Inr ''hostaway_create_rejected'') \<and> get_booking d' 70 = Some b' \<and> bk_status b' = CreateFailed"
proof -
  let ?k = "\<lparr> wk_booking = ready_booking, wk_request = sample_request, wk_paid = True \<rparr>"
  let ?d = "put_booking ready_db created_row"
  let ?mk = "PostCall ''/reservations'' [] []"
  have id: "bk_id ready_booking = 70" "bk_id created_row = 70"
    by (simp_all add: created_row_def prepare_operation_def sample_world_def ready_booking_def paid_booking_def sample_booking_def Let_def)
  have row: "get_booking ?d (bk_id (wk_booking ?k)) = Some created_row"
    using booking_table.get_put_same [of ready_db created_row] ready_found id by simp
  have op: "bk_operation created_row = Some (the (bk_operation created_row))" "bk_remote created_row = None"
    by (simp_all add: created_row_def prepare_operation_def sample_world_def ready_booking_def Let_def)
  have free: "\<not> remote_taken ?d (finished sample_env ''hostaway_create_rejected'' OpFailed CreateFailed None created_row)"
    by (simp add: remote_taken_def finished_def op(2))
  have token: "get_token unreadable_server sample_client False fresh_client = (fresh_client, Inr ''old'')"
    by (simp add: get_token_def sample_client_def fresh_client_def)
  let ?a = "\<lparr> an_status = 200, an_body = None, an_retry = None \<rparr>"
  have a: "unreadable_server (cs_calls fresh_client) (?mk ''old'') = Replied ?a" "an_status ?a = 200" "an_body ?a = None"
    by (simp_all add: unreadable_server_def)
  obtain s' v where w: "write_json unreadable_server sample_client ?mk fresh_client = (s', v)"
    by (cases "write_json unreadable_server sample_client ?mk fresh_client")
  show ?thesis
    using accepted_creation_called_rejected [OF token a row op(1) w free refl, of "\<lambda>v. Inr None"] id(1) w by auto
qed

end
