(* ===== verification/ChangeWrites.thy ===== *)
theory ChangeWrites
  imports Changes Channel
begin

section \<open>Changes at the channel manager (apps/reservations/services/hostaway\_modifications.py)\<close>

text \<open>
  A request that is ready is written to the channel manager at most once. A call reads the request
  and its reservation and checks them, commits the operation row, writes, and records the answer in a
  second transaction; a worker is a call between the two transactions. The documents of the writes are
  those of apps/integrations/hostaway/modification\_validators.py. The client and the digest of a
  request are parameters.
\<close>

subsection \<open>The document of an update\<close>

record update_request =
  ur_listing_map :: int
  ur_check_in :: date
  ur_check_out :: date
  ur_guests :: int
  ur_currency :: string
  ur_total :: rat
  ur_fields :: "finance_field list"

definition update_payload :: "update_request \<Rightarrow> (string \<times> pyval) list res" where
  "update_payload r =
     (if ur_listing_map r \<le> 0 then Inl (ValueError ''listing_map_id_not_verified'')
      else if ur_check_out r \<le> ur_check_in r then Inl (ValueError ''invalid_dates'')
      else if ur_guests r \<le> 0 then Inl (ValueError ''invalid_guests'')
      else if ur_fields r = [] then Inl (ValueError ''price_components_missing'')
      else Inr [(''listingMapId'', PyInt (ur_listing_map r)), (''arrivalDate'', PyStr (isoformat (ur_check_in r))),
        (''departureDate'', PyStr (isoformat (ur_check_out r))), (''numberOfGuests'', PyInt (ur_guests r)),
        (''adults'', PyInt (ur_guests r)), (''totalPrice'', json_number (ur_total r)),
        (''currency'', PyStr (map upper_char (ur_currency r))),
        (''financeField'', PyList (map (PyDict \<circ> finance_payload) (ur_fields r)))])"

text \<open>
  A stored component; a number that is not finite is refused here, where the code refuses it when the
  document is written. Only integers and booleans are stored for the other numbers and flags.
\<close>

definition stored_int :: "pyval \<Rightarrow> int option" where
  "stored_int v = (case v of PyInt n \<Rightarrow> Some n | _ \<Rightarrow> None)"

definition stored_bool :: "pyval \<Rightarrow> bool option" where
  "stored_bool v = (case v of PyBool b \<Rightarrow> Some b | _ \<Rightarrow> None)"

definition stored_number :: "(string \<times> pyval) list \<Rightarrow> string \<Rightarrow> rat res" where
  "stored_number kvs field = (case Option.bind (map_of kvs field) decimal_of_str of
      Some (Fin q) \<Rightarrow> Inr q | _ \<Rightarrow> Inl (ValueError ''price_component_invalid''))"

definition stored_field :: "pyval \<Rightarrow> finance_field res" where
  "stored_field item =
     bindE (of_option (ValueError ''price_component_invalid'') (dict_items item)) (\<lambda>kvs.
     bindE (stored_number kvs ''value'') (\<lambda>v.
     bindE (stored_number kvs ''total'') (\<lambda>t.
     if dget kvs ''is_included_in_total'' = PyNone \<or> dget kvs ''is_deleted'' = PyNone
     then Inl (ValueError ''price_component_flags_missing'')
     else Inr \<lparr> ff_setting = stored_int (dget kvs ''listing_fee_setting_id''),
            ff_type = take 50 (component_text kvs ''type''), ff_name = take 100 (component_text kvs ''name''),
            ff_title = take 200 (component_text kvs ''title''), ff_alias = take 100 (component_text kvs ''alias''),
            ff_quantity = stored_int (dget kvs ''quantity''), ff_value = v, ff_total = t,
            ff_included = truthy (dget kvs ''is_included_in_total''), ff_overridden = False,
            ff_mandatory = stored_bool (dget kvs ''is_mandatory''), ff_deleted = truthy (dget kvs ''is_deleted'') \<rparr>)))"

text \<open>The fields of an update, with the owner's price put in; a missing or unreadable price raises.\<close>

definition update_fields :: "modification \<Rightarrow> rat \<Rightarrow> finance_field list res" where
  "update_fields m new_total =
     (case dget (mo_snapshot m) ''operational_components'' of
        PyList (item # items) \<Rightarrow>
          bindE (mapE stored_field (item # items)) (\<lambda>stored.
          if owner_priced m then
            bindE (of_option (KeyError ''system_total'') (map_of (mo_snapshot m) ''system_total'')) (\<lambda>raw.
            case decimal_of_str raw of
              Some (Fin current_total) \<Rightarrow> override_price_details stored current_total new_total
            | _ \<Rightarrow> Inl (DecimalError ''ConversionSyntax''))
          else Inr stored)
      | _ \<Rightarrow> Inl (ValueError ''price_components_missing''))"

definition build_update_request :: "booking \<Rightarrow> modification \<Rightarrow> update_request res" where
  "build_update_request b m =
     (case bk_listing_map b of
        None \<Rightarrow> Inl (ValueError ''listing_map_id_not_verified'')
      | Some n \<Rightarrow>
          (case (mo_new_check_in m, mo_new_check_out m, mo_new_guests m, mo_new_total m) of
             (Some i, Some j, Some g, Some t) \<Rightarrow>
               bindE (update_fields m t) (\<lambda>ffs.
                 Inr \<lparr> ur_listing_map = n, ur_check_in = i, ur_check_out = j, ur_guests = g,
                   ur_currency = mo_currency m, ur_total = t, ur_fields = ffs \<rparr>)
           | _ \<Rightarrow> Inl (ValueError ''modification_quote_incomplete'')))"

subsection \<open>Before the write\<close>

record write_world =
  ww_live_change :: bool
  ww_live_extension :: bool
  ww_live_cancellation :: bool
  ww_print :: "nat \<Rightarrow> modification \<Rightarrow> string"

definition execution_blocker :: "change_world \<Rightarrow> write_world \<Rightarrow> env \<Rightarrow> booking \<Rightarrow> modification \<Rightarrow> string res" where
  "execution_blocker w v e b m =
     (if mo_status m \<noteq> ChReady then Inr ''modification_not_ready''
      else if bk_remote b = None then Inr ''hostaway_reservation_id_missing''
      else if bk_source b \<noteq> DirectWebsite then Inr ''external_channel_modification_blocked''
      else if mo_type m = CancelReservation then
        bindE (cancellation_blocker e (unit_clock w b) b) (\<lambda>ended.
          Inr (if ended \<noteq> [] then ended
               else if \<not> ww_live_cancellation v then ''hostaway_live_cancellation_disabled''
               else if \<not> xw_auto_cancel w then ''automatic_cancellation_disabled'' else []))
      else if \<not> ww_live_change v then Inr ''hostaway_live_modification_disabled''
      else if mo_type m = ExtendStay \<and> \<not> ww_live_extension v then Inr ''hostaway_live_extension_disabled''
      else Inr [])"

text \<open>
  \<open>execute\<close> up to \<open>_prepare_operation\<close>: the code that ends the call, or an empty text. The objects
  of a cancellation are read again first.
\<close>

definition plan_execution :: "change_world \<Rightarrow> write_world \<Rightarrow> env \<Rightarrow> db \<Rightarrow> booking \<Rightarrow> modification \<Rightarrow> string res" where
  "plan_execution w v e d b m =
     (if mo_type m = CancelReservation \<and> mo_completed m then Inr ''already_completed''
      else if mo_status m = ChUnknown then Inr ''unknown''
      else bindE (execution_blocker w v e b m) (\<lambda>blocker.
      if blocker \<noteq> [] then Inr blocker
      else if mo_type m = ExtendStay \<and> owner_priced m then
        bindE (owner_change_blocker e d b m False) (\<lambda>refusal.
        if refusal \<noteq> [] then Inr refusal
        else bindE (revalidate_extension_for_execution w b m) (\<lambda>(code, q).
          Inr (if code = ''ready'' then [] else code)))
      else Inr []))"

text \<open>\<open>_prepare_operation\<close> on the locked rows: the new request, its operation, and whether to write.\<close>

definition blocked_change :: "create_operation \<Rightarrow> string \<Rightarrow> modification \<Rightarrow> modification" where
  "blocked_change op code m = m \<lparr> mo_operation := Some (op \<lparr> op_status := OpBlocked, op_error := code \<rparr>) \<rparr>"

definition started_change :: "env \<Rightarrow> create_operation \<Rightarrow> string \<Rightarrow> modification \<Rightarrow> modification" where
  "started_change e op digest m =
     m \<lparr> mo_status := ChProcessing,
         mo_operation := Some (op \<lparr> op_status := OpInProgress, op_attempts := op_attempts op + 1,
           op_started_at := Some (now e), op_fingerprint := digest, op_error := [] \<rparr>) \<rparr>"

definition prepare_change ::
    "change_world \<Rightarrow> write_world \<Rightarrow> env \<Rightarrow> db \<Rightarrow> booking \<Rightarrow> modification \<Rightarrow> string \<Rightarrow> (modification \<times> bool) res" where
  "prepare_change w v e d b m digest =
     (let op = (case mo_operation m of Some op \<Rightarrow> op
          | None \<Rightarrow> (new_operation OpPrepared digest []) \<lparr> op_remote := bk_remote b \<rparr>) in
      if mo_operation m \<noteq> None \<and> (op_status op \<in> {OpSucceeded, OpInProgress, OpUnknown} \<or> 0 < op_attempts op)
      then Inr (m, False)
      else bindE (if mo_type m = CancelReservation then execution_blocker w v e b m else Inr []) (\<lambda>blocker.
      if blocker \<noteq> [] then Inr (blocked_change op blocker m, False)
      else bindE (if owner_priced m then owner_change_blocker e d b m False else Inr []) (\<lambda>refusal.
      if refusal \<noteq> [] then Inr (blocked_change op refusal m, False)
      else Inr (started_change e op digest m, True))))"

definition unsent_code :: "modification \<Rightarrow> string" where
  "unsent_code m = (case mo_operation m of
      None \<Rightarrow> []
    | Some op \<Rightarrow> if mo_type m = CancelReservation \<and> op_status op = OpBlocked then op_error op
                 else operation_text (op_status op))"

record change_worker =
  xk_booking :: booking
  xk_change :: modification

text \<open>\<open>b\<close> and \<open>m\<close> are the objects the call has read; the change is made on the rows of the moment.\<close>

definition commit_change ::
    "change_world \<Rightarrow> write_world \<Rightarrow> env \<Rightarrow> db \<Rightarrow> booking \<Rightarrow> modification \<Rightarrow> db \<times> (string + change_worker) res" where
  "commit_change w v e d b m =
     (case bindE (of_option (DoesNotExist ''reservation'') (get_booking d (bk_id b))) (\<lambda>c.
           bindE (of_option (DoesNotExist ''modification'') (find_change c (mo_id m))) (\<lambda>x.
           bindE (prepare_change w v e d c x (ww_print v (bk_id b) m)) (\<lambda>(x', sendable). Inr (c, x', sendable)))) of
        Inl x \<Rightarrow> (d, Inl x)
      | Inr (c, x', sendable) \<Rightarrow>
          (put_booking d (put_change c x'),
           Inr (if sendable then Inr \<lparr> xk_booking = b, xk_change = m \<rparr> else Inl (unsent_code x'))))"

subsection \<open>After the write\<close>

definition is_cancelled_text :: "string \<Rightarrow> bool" where
  "is_cancelled_text s = (casefold s \<in> {''cancelled'', ''canceled''})"

definition snapshot_matches :: "modification \<Rightarrow> snapshot \<Rightarrow> bool" where
  "snapshot_matches m s =
     (if mo_type m = CancelReservation then is_cancelled_text (sn_status s)
      else Some (sn_check_in s) = mo_new_check_in m \<and> Some (sn_check_out s) = mo_new_check_out m
         \<and> Some (sn_guests s) = mo_new_guests m \<and> sn_currency s = mo_currency m \<and> Some (sn_total s) = mo_new_total m)"

definition finished_change :: "env \<Rightarrow> change_status \<Rightarrow> operation_status \<Rightarrow> string \<Rightarrow> modification \<Rightarrow> modification" where
  "finished_change e status opstatus code m =
     m \<lparr> mo_status := status, mo_operation := map_option (\<lambda>op. op \<lparr> op_status := opstatus, op_error := code,
           op_completed_at := Some (now e) \<rparr>) (mo_operation m) \<rparr>"

definition with_change :: "db \<Rightarrow> nat \<Rightarrow> nat \<Rightarrow> (booking \<Rightarrow> modification \<Rightarrow> 'r res) \<Rightarrow> 'r res" where
  "with_change d n k f =
     bindE (of_option (DoesNotExist ''reservation'') (get_booking d n)) (\<lambda>b.
     bindE (of_option (DoesNotExist ''modification'') (find_change b k)) (f b))"

definition finish_change ::
    "env \<Rightarrow> db \<Rightarrow> nat \<Rightarrow> nat \<Rightarrow> change_status \<Rightarrow> operation_status \<Rightarrow> string \<Rightarrow> db \<times> string res" where
  "finish_change e d n k status opstatus code =
     (case with_change d n k (\<lambda>b m. Inr (put_change b (finished_change e status opstatus code m))) of
        Inl x \<Rightarrow> (d, Inl x)
      | Inr b \<Rightarrow> (put_booking d b, Inr code))"

text \<open>The reservation as the channel manager has it; the prices of the nights come from the request.\<close>

definition changed_row :: "env \<Rightarrow> modification \<Rightarrow> snapshot \<Rightarrow> booking \<Rightarrow> booking" where
  "changed_row e m s b =
     (let c = b \<lparr> bk_check_in := sn_check_in s, bk_check_out := sn_check_out s,
            bk_nights := nat (sn_check_out s - sn_check_in s), bk_guests := sn_guests s, bk_total := sn_total s,
            bk_currency := sn_currency s, bk_remote_status := sn_status s,
            bk_payment_status := merge_payment_status (bk_payment_status b) (sn_payment_status s),
            bk_source_updated := sn_updated_at s, bk_synced_at := Some (now e) \<rparr>
      in if is_cancelled_text (sn_status s)
         then c \<lparr> bk_status := Cancelled, bk_cancelled_at := Some (now e), bk_confirmed_at := None \<rparr>
         else c \<lparr> bk_status := Modified, bk_loyalty := (bk_loyalty c) \<lparr> ls_priced := mo_nights m \<rparr> \<rparr>)"

definition completed_change :: "env \<Rightarrow> modification \<Rightarrow> modification" where
  "completed_change e m = (finished_change e ChCompleted OpSucceeded [] m) \<lparr> mo_completed_at := Some (now e) \<rparr>"

definition record_change :: "env \<Rightarrow> db \<Rightarrow> nat \<Rightarrow> nat \<Rightarrow> snapshot \<Rightarrow> db \<times> string res" where
  "record_change e d n k s =
     (case with_change d n k (\<lambda>b m. bindE (clean_booking d (changed_row e m s b)) (\<lambda>c.
             Inr (put_change c (completed_change e m)))) of
        Inl x \<Rightarrow> (d, Inl x)
      | Inr b \<Rightarrow> (put_booking d b, Inr ''completed''))"

definition conclude_change :: "env \<Rightarrow> db \<Rightarrow> change_worker \<Rightarrow> snapshot res \<Rightarrow> db \<times> string res" where
  "conclude_change e d k reply =
     (let n = bk_id (xk_booking k); r = mo_id (xk_change k) in
      case reply of
        Inl (HostawayNetwork m) \<Rightarrow> finish_change e d n r ChUnknown OpUnknown ''hostaway_modification_uncertain''
      | Inl (HostawayServer m) \<Rightarrow> finish_change e d n r ChUnknown OpUnknown ''hostaway_modification_uncertain''
      | Inl (HostawayAuthentication m) \<Rightarrow> finish_change e d n r ChFailed OpFailed ''hostaway_modification_rejected''
      | Inl (HostawayAvailability m) \<Rightarrow> finish_change e d n r ChFailed OpFailed ''hostaway_modification_rejected''
      | Inl (HostawayConfiguration m) \<Rightarrow> finish_change e d n r ChFailed OpFailed ''hostaway_modification_rejected''
      | Inl (HostawayRateLimit m) \<Rightarrow> finish_change e d n r ChFailed OpFailed ''hostaway_modification_rejected''
      | Inl (HostawayResponse m) \<Rightarrow> finish_change e d n r ChFailed OpFailed ''hostaway_modification_rejected''
      | Inl (ValueError m) \<Rightarrow> finish_change e d n r ChFailed OpFailed ''hostaway_modification_rejected''
      | Inl x \<Rightarrow> (d, Inl x)
      | Inr s \<Rightarrow>
          if \<not> snapshot_matches (xk_change k) s
          then finish_change e d n r ChUnknown OpUnknown ''hostaway_reconciliation_mismatch''
          else record_change e d n r s)"

text \<open>The answer of the channel manager to a worker; the two writers are the client.\<close>

record change_client =
  wc_cancel :: "int \<Rightarrow> snapshot res"
  wc_update :: "int \<Rightarrow> update_request \<Rightarrow> bool \<Rightarrow> snapshot res"

definition change_reply :: "change_client \<Rightarrow> change_worker \<Rightarrow> snapshot res" where
  "change_reply c k =
     (let b = xk_booking k; m = xk_change k in
      bindE (of_option (TypeError ''reservation_id'') (bk_remote b)) (\<lambda>n.
      if mo_type m = CancelReservation then wc_cancel c n
      else bindE (build_update_request b m) (\<lambda>r. wc_update c n r (mo_type m = ExtendStay))))"

text \<open>\<open>execute\<close> with nothing in between.\<close>

definition execute_change ::
    "change_world \<Rightarrow> write_world \<Rightarrow> env \<Rightarrow> change_client \<Rightarrow> db \<Rightarrow> booking \<Rightarrow> modification \<Rightarrow> db \<times> string res" where
  "execute_change w v e c d b m =
     (case plan_execution w v e d b m of
        Inl x \<Rightarrow> (d, Inl x)
      | Inr code \<Rightarrow>
          if code \<noteq> [] then (d, Inr code)
          else (case commit_change w v e d b m of
              (d', Inl x) \<Rightarrow> (d', Inl x)
            | (d', Inr (Inl code)) \<Rightarrow> (d', Inr code)
            | (d', Inr (Inr k)) \<Rightarrow> conclude_change e d' k (change_reply c k)))"

subsection \<open>Interleaved calls\<close>

text \<open>
  Calls of several processes: a call whose checks passed on any earlier state commits, a worker
  writes as soon as it exists (the reservation and the request enter the list of writes), its
  answer is recorded or its process dies; requests are made, priced by the owner and cancelled in
  between.
\<close>

inductive change_step ::
    "db \<times> change_worker list \<times> (nat \<times> nat) list \<Rightarrow> db \<times> change_worker list \<times> (nat \<times> nat) list \<Rightarrow> bool" where
  commit: "plan_execution w v e d0 b m = Inr [] \<Longrightarrow> commit_change w v e d b m = (d', Inr (Inl code))
    \<Longrightarrow> change_step (d, ks, sent) (d', ks, sent)"
| sending: "plan_execution w v e d0 b m = Inr [] \<Longrightarrow> commit_change w v e d b m = (d', Inr (Inr k))
    \<Longrightarrow> change_step (d, ks, sent) (d', k # ks, sent @ [(bk_id b, mo_id m)])"
| answer: "k \<in> set ks \<Longrightarrow> conclude_change e d k reply = (d', x) \<Longrightarrow> change_step (d, ks, sent) (d', remove1 k ks, sent)"
| lost: "change_step (d, ks, sent) (d, remove1 k ks, sent)"
| requested: "draft_change w e d0 b session owner given = Inr (Inr m) \<Longrightarrow> save_change d b m = Inr (d', r)
    \<Longrightarrow> change_step (d, ks, sent) (d', ks, sent)"
| repriced: "set_owner_final_total w e d n k given = Inr (d', r) \<Longrightarrow> change_step (d, ks, sent) (d', ks, sent)"
| cancelling: "create_cancellation_request w e d n session owner = Inr (d', r) \<Longrightarrow> change_step (d, ks, sent) (d', ks, sent)"

inductive_cases change_stepE: "change_step (d, ks, sent) (d', ks', sent')"

definition tries :: "modification \<Rightarrow> nat" where
  "tries m = (case mo_operation m of None \<Rightarrow> 0 | Some op \<Rightarrow> op_attempts op)"

definition tried :: "db \<Rightarrow> nat \<times> nat \<Rightarrow> bool" where
  "tried d x = (\<exists>b m. get_booking d (fst x) = Some b \<and> find_change b (snd x) = Some m \<and> 0 < tries m)"

text \<open>A reservation keeps its requests and what they have tried.\<close>

definition changes_kept :: "booking \<Rightarrow> booking \<Rightarrow> bool" where
  "changes_kept b b' = (bk_id b' = bk_id b
     \<and> (\<forall>k m. find_change b k = Some m \<longrightarrow> (\<exists>m'. find_change b' k = Some m' \<and> tries m \<le> tries m')))"

definition db_kept :: "db \<Rightarrow> db \<Rightarrow> bool" where
  "db_kept d d' = (\<forall>x. tried d x \<longrightarrow> tried d' x)"

lemma db_kept_refl [simp]: "db_kept d d"
  by (simp add: db_kept_def)

lemma changes_kept_put:
  assumes "get_booking d n = Some b" and "changes_kept b b'"
  shows "db_kept d (put_booking d b')"
  unfolding db_kept_def
proof (intro allI impI)
  fix x assume x: "tried d x"
  have id: "bk_id b' = n" using assms booking_table.get_key by (auto simp: changes_kept_def)
  then have get: "get_booking (put_booking d b') j = (if j = n then Some b' else get_booking d j)" for j
    using booking_table.get_after_put [of d b' b j] assms(1) by simp
  obtain c m where c: "get_booking d (fst x) = Some c" "find_change c (snd x) = Some m" "0 < tries m"
    using x by (auto simp: tried_def)
  show "tried (put_booking d b') x"
  proof (cases "fst x = n")
    case True
    then have "c = b" using c(1) assms(1) by simp
    then obtain m' where "find_change b' (snd x) = Some m'" "tries m \<le> tries m'"
      using assms(2) c(2) unfolding changes_kept_def by blast
    then show ?thesis using True c(3) by (auto simp: tried_def get)
  qed (use c in \<open>auto simp: tried_def get\<close>)
qed

lemma find_put_change:
  assumes "find_change b (mo_id m) = Some m0"
  shows "find_change (put_change b m) k = (if k = mo_id m then Some m else find_change b k)"
  using row_table.get_after_put [of mo_id "bk_modifications b" m m0 k] assms
  by (simp add: find_change_def put_change_def)

lemma find_change_id: "find_change b k = Some m \<Longrightarrow> mo_id m = k"
  unfolding find_change_def by (rule row_get_key)

lemma put_change_fields [simp]: "bk_id (put_change b m) = bk_id b" "bk_status (put_change b m) = bk_status b"
  "bk_check_in (put_change b m) = bk_check_in b" "bk_check_out (put_change b m) = bk_check_out b"
  "bk_total (put_change b m) = bk_total b" "bk_guests (put_change b m) = bk_guests b" "bk_remote (put_change b m) = bk_remote b"
  "bk_refunds (put_change b m) = bk_refunds b" "bk_loyalty (put_change b m) = bk_loyalty b"
  by (simp_all add: put_change_def)

lemma changes_kept_change:
  assumes "find_change b k = Some m" and "mo_id m' = k" and "tries m \<le> tries m'"
    and "bk_modifications c = bk_modifications b" and "bk_id c = bk_id b"
  shows "changes_kept b (put_change c m')"
  using assms find_put_change [of c m' m] by (auto simp: changes_kept_def find_change_def)

lemma started_tries [simp]: "mo_id (started_change e op digest m) = mo_id m" "tries (started_change e op digest m) = op_attempts op + 1"
  by (simp_all add: started_change_def tries_def)

lemma blocked_tries [simp]: "mo_id (blocked_change op code m) = mo_id m" "tries (blocked_change op code m) = op_attempts op"
  by (simp_all add: blocked_change_def tries_def)

lemma finished_tries [simp]: "mo_id (finished_change e st os code m) = mo_id m" "tries (finished_change e st os code m) = tries m"
  by (simp_all add: finished_change_def tries_def split: option.splits)

lemma completed_tries [simp]: "mo_id (completed_change e m) = mo_id m" "tries (completed_change e m) = tries m"
  using finished_tries [of e ChCompleted OpSucceeded "[]" m] by (simp_all add: completed_change_def tries_def)

definition operation_of :: "booking \<Rightarrow> modification \<Rightarrow> string \<Rightarrow> create_operation" where
  "operation_of b m digest = (case mo_operation m of Some op \<Rightarrow> op
     | None \<Rightarrow> (new_operation OpPrepared digest []) \<lparr> op_remote := bk_remote b \<rparr>)"

lemma operation_of_attempts: "op_attempts (operation_of b m digest) = tries m"
  by (simp add: operation_of_def tries_def new_operation_def split: option.splits)

lemma prepare_change_cases:
  assumes "prepare_change w v e d b m digest = Inr (m', sendable)"
  obtains "m' = m" "\<not> sendable"
  | code where "m' = blocked_change (operation_of b m digest) code m" "\<not> sendable"
  | "m' = started_change e (operation_of b m digest) digest m" "sendable" "tries m = 0"
proof -
  define op where "op = operation_of b m digest"
  define busy where "busy = (mo_operation m \<noteq> None \<and> (op_status op \<in> {OpSucceeded, OpInProgress, OpUnknown} \<or> 0 < op_attempts op))"
  have idle: "tries m = 0" if "\<not> busy"
    using that operation_of_attempts [of b m digest] by (auto simp: busy_def op_def tries_def split: option.splits)
  have "(if busy then Inr (m, False)
      else bindE (if mo_type m = CancelReservation then execution_blocker w v e b m else Inr []) (\<lambda>blocker.
      if blocker \<noteq> [] then Inr (blocked_change op blocker m, False)
      else bindE (if owner_priced m then owner_change_blocker e d b m False else Inr []) (\<lambda>refusal.
      if refusal \<noteq> [] then Inr (blocked_change op refusal m, False)
      else Inr (started_change e op digest m, True)))) = Inr (m', sendable)"
    using assms unfolding prepare_change_def operation_of_def [symmetric] Let_def op_def [symmetric] busy_def [symmetric] .
  then consider "m' = m \<and> \<not> sendable" | code where "m' = blocked_change op code m \<and> \<not> sendable"
    | "m' = started_change e op digest m \<and> sendable \<and> \<not> busy"
    unfolding bindE_Inr_iff by (auto simp only: bindE_Inr_iff split: if_splits)
  then show thesis
  proof cases
    case 1
    then show ?thesis using that(1) by blast
  next
    case (2 code)
    then show ?thesis using that(2) unfolding op_def by blast
  next
    case 3
    then show ?thesis using idle by (intro that(3)) (simp_all add: op_def)
  qed
qed

lemma prepare_change_kept:
  assumes "prepare_change w v e d b m digest = Inr (m', sendable)"
  shows "mo_id m' = mo_id m \<and> tries m \<le> tries m' \<and> (sendable \<longrightarrow> tries m = 0 \<and> 0 < tries m')"
  using assms by (cases rule: prepare_change_cases) (simp_all add: operation_of_attempts)

text \<open>What a commit does: nothing, or one prepared request of the row of the moment.\<close>

lemma commit_change_cases:
  assumes "commit_change w v e d b m = (d', x)"
  obtains y where "d' = d" "x = Inl y"
  | c z z' sendable where "get_booking d (bk_id b) = Some c" "find_change c (mo_id m) = Some z"
      "prepare_change w v e d c z (ww_print v (bk_id b) m) = Inr (z', sendable)" "d' = put_booking d (put_change c z')"
      "x = Inr (if sendable then Inr \<lparr> xk_booking = b, xk_change = m \<rparr> else Inl (unsent_code z'))"
proof -
  define P where "P = (\<lambda>c z. prepare_change w v e d c z (ww_print v (bk_id b) m))"
  show thesis
  proof (cases "bindE (of_option (DoesNotExist ''reservation'') (get_booking d (bk_id b))) (\<lambda>c.
           bindE (of_option (DoesNotExist ''modification'') (find_change c (mo_id m))) (\<lambda>x.
           bindE (P c x) (\<lambda>(x', sendable). Inr (c, x', sendable))))")
    case (Inl y)
    then have "d' = d" "x = Inl y" using assms by (auto simp: commit_change_def P_def)
    then show ?thesis by (rule that(1))
  next
    case (Inr r)
    then obtain c z z' sendable where r: "r = (c, z', sendable)" "get_booking d (bk_id b) = Some c"
      "find_change c (mo_id m) = Some z" "P c z = Inr (z', sendable)"
      by (auto simp: bindE_Inr_iff)
    then show ?thesis using assms that(2) [of c z z' sendable] Inr by (simp add: commit_change_def P_def)
  qed
qed

lemma commit_change_kept:
  assumes "commit_change w v e d b m = (d', x)"
  shows "db_kept d d'" and "x = Inr (Inr k) \<Longrightarrow> \<not> tried d (bk_id b, mo_id m) \<and> tried d' (bk_id b, mo_id m)
     \<and> k = \<lparr> xk_booking = b, xk_change = m \<rparr>"
proof -
  have "db_kept d d' \<and> (x = Inr (Inr k) \<longrightarrow> \<not> tried d (bk_id b, mo_id m) \<and> tried d' (bk_id b, mo_id m)
     \<and> k = \<lparr> xk_booking = b, xk_change = m \<rparr>)" for k
    using assms
  proof (cases rule: commit_change_cases)
    case (2 c z z' sendable)
    note p = prepare_change_kept [OF 2(3)]
    have id: "mo_id z' = mo_id m" using p find_change_id [OF 2(2)] by simp
    have cid: "bk_id c = bk_id b" using booking_table.get_key [OF 2(1)] .
    have "changes_kept c (put_change c z')"
      using changes_kept_change [OF 2(2) id] p by simp
    moreover have "find_change (put_change c z') (mo_id m) = Some z'"
      using find_put_change [of c z' z "mo_id m"] 2(2) id by simp
    moreover have "get_booking (put_booking d (put_change c z')) (bk_id b) = Some (put_change c z')"
      using booking_table.get_put_same [of d "put_change c z'" c] 2(1) cid by simp
    ultimately show ?thesis
      using 2 p changes_kept_put [OF 2(1)] by (auto simp: tried_def)
  qed auto
  then show "db_kept d d'" and "x = Inr (Inr k) \<Longrightarrow> \<not> tried d (bk_id b, mo_id m) \<and> tried d' (bk_id b, mo_id m)
     \<and> k = \<lparr> xk_booking = b, xk_change = m \<rparr>" by blast+
qed

subsection \<open>What the other operations keep\<close>

lemma put_kept:
  assumes "get_booking d n = Some b" and "find_change b k = Some m" and "mo_id m' = k" and "tries m \<le> tries m'"
    and "bk_modifications c = bk_modifications b" and "bk_id c = bk_id b"
  shows "db_kept d (put_booking d (put_change c m'))"
  using changes_kept_put [OF assms(1) changes_kept_change [OF assms(2-6)]] .

lemma with_change_Inr: "with_change d n k f = Inr r \<longleftrightarrow>
    (\<exists>b m. get_booking d n = Some b \<and> find_change b k = Some m \<and> f b m = Inr r)"
  by (auto simp: with_change_def bindE_Inr_iff)

lemma finish_change_cases:
  assumes "finish_change e d n k st os code = (d', x)"
  obtains y where "d' = d" "x = Inl y"
  | b m where "get_booking d n = Some b" "find_change b k = Some m"
      "d' = put_booking d (put_change b (finished_change e st os code m))" "x = Inr code"
proof (cases "with_change d n k (\<lambda>b m. Inr (put_change b (finished_change e st os code m)))")
  case (Inl y)
  then have "d' = d" "x = Inl y" using assms by (simp_all add: finish_change_def)
  then show ?thesis by (rule that(1))
next
  case (Inr r)
  then obtain b m where b: "get_booking d n = Some b" "find_change b k = Some m" "r = put_change b (finished_change e st os code m)"
    unfolding with_change_Inr by auto
  have "d' = put_booking d r" "x = Inr code" using assms Inr by (simp_all add: finish_change_def)
  then show ?thesis using that(2) b by simp
qed

lemma changed_row_fields:
  "bk_id (changed_row e m s b) = bk_id b" "bk_modifications (changed_row e m s b) = bk_modifications b"
  "bk_check_in (changed_row e m s b) = sn_check_in s" "bk_check_out (changed_row e m s b) = sn_check_out s"
  "bk_guests (changed_row e m s b) = sn_guests s" "bk_total (changed_row e m s b) = sn_total s"
  "bk_status (changed_row e m s b) = (if is_cancelled_text (sn_status s) then Cancelled else Modified)"
  "bk_nights (changed_row e m s b) = nat (sn_check_out s - sn_check_in s)"
  by (simp_all add: changed_row_def Let_def)

lemma clean_booking_more:
  "clean_booking d b0 = Inr b \<Longrightarrow> bk_modifications b = bk_modifications b0 \<and> bk_guests b = bk_guests b0
     \<and> bk_nights b = bk_nights b0 \<and> int (bk_nights b) = bk_check_out b - bk_check_in b \<and> bk_refunds b = bk_refunds b0"
  by (auto simp: clean_booking_def Let_def split: if_splits)

lemma record_change_cases:
  assumes "record_change e d n k s = (d', x)"
  obtains y where "d' = d" "x = Inl y"
  | b m c where "get_booking d n = Some b" "find_change b k = Some m" "clean_booking d (changed_row e m s b) = Inr c"
      "d' = put_booking d (put_change c (completed_change e m))" "x = Inr ''completed''"
proof (cases "with_change d n k (\<lambda>b m. bindE (clean_booking d (changed_row e m s b)) (\<lambda>c. Inr (put_change c (completed_change e m))))")
  case (Inl y)
  then have "d' = d" "x = Inl y" using assms by (simp_all add: record_change_def)
  then show ?thesis by (rule that(1))
next
  case (Inr r)
  then obtain b m c where b: "get_booking d n = Some b" "find_change b k = Some m"
    "clean_booking d (changed_row e m s b) = Inr c" "r = put_change c (completed_change e m)"
    unfolding with_change_Inr bindE_Inr_iff by auto
  have "d' = put_booking d r" "x = Inr ''completed''" using assms Inr by (simp_all add: record_change_def)
  then show ?thesis using that(2) b by simp
qed

lemma finish_change_kept: "finish_change e d n k st os code = (d', x) \<Longrightarrow> db_kept d d'"
  by (erule finish_change_cases) (auto intro!: put_kept simp: find_change_id)

lemma record_change_kept: "record_change e d n k s = (d', x) \<Longrightarrow> db_kept d d'"
proof (erule record_change_cases)
  fix b m c
  assume b: "get_booking d n = Some b" "find_change b k = Some m" "clean_booking d (changed_row e m s b) = Inr c"
    "d' = put_booking d (put_change c (completed_change e m))"
  have "bk_modifications c = bk_modifications b" "bk_id c = bk_id b"
    using clean_booking_more [OF b(3)] clean_booking_row [OF b(3)] by (simp_all add: changed_row_fields)
  then show ?thesis using b put_kept [OF b(1,2), of "completed_change e m" c] find_change_id [OF b(2)] by simp
qed simp

text \<open>The three outcomes of a worker: nothing is stored, the write is closed, or it is recorded.\<close>

lemma conclude_change_cases:
  assumes "conclude_change e d k reply = (d', x)"
  obtains y where "reply = Inl y" "d' = d" "x = Inl y"
  | st os code where "finish_change e d (bk_id (xk_booking k)) (mo_id (xk_change k)) st os code = (d', x)" "st \<noteq> ChCompleted"
      "code \<noteq> ''completed''"
  | s where "reply = Inr s" "snapshot_matches (xk_change k) s"
      "record_change e d (bk_id (xk_booking k)) (mo_id (xk_change k)) s = (d', x)"
proof (cases reply)
  case (Inl y)
  then show ?thesis
    using assms that(1) that(2) [of ChUnknown OpUnknown "''hostaway_modification_uncertain''"]
      that(2) [of ChFailed OpFailed "''hostaway_modification_rejected''"]
    by (cases y) (auto simp: conclude_change_def Let_def)
next
  case (Inr s)
  then show ?thesis
    using assms that(3) that(2) [of ChUnknown OpUnknown "''hostaway_reconciliation_mismatch''"]
    by (cases "snapshot_matches (xk_change k) s") (auto simp: conclude_change_def Let_def)
qed

lemma conclude_change_kept: "conclude_change e d k reply = (d', x) \<Longrightarrow> db_kept d d'"
  by (erule conclude_change_cases) (auto intro: finish_change_kept record_change_kept)

lemma find_change_map:
  assumes "\<And>x. mo_id (f x) = mo_id x" and "find_change b k = Some m" and "bk_modifications c = map f (bk_modifications b) @ ms"
  shows "find_change c k = Some (f m)"
proof -
  have "find (\<lambda>r. mo_id r = k) (map f xs @ ms) = Some (f m)" if "find (\<lambda>r. mo_id r = k) xs = Some m" for xs
    using that assms(1) by (induction xs) (auto split: if_splits)
  then show ?thesis using assms(2,3) by (simp add: find_change_def row_get_def)
qed

lemma changes_kept_map:
  assumes "\<And>x. mo_id (f x) = mo_id x" and "\<And>x. tries (f x) = tries x"
  shows "changes_kept b (b \<lparr> bk_modifications := map f (bk_modifications b) @ ms \<rparr>)"
  unfolding changes_kept_def
proof (intro conjI allI impI)
  fix k m assume "find_change b k = Some m"
  from find_change_map [of f, OF assms(1) this]
  have "find_change (b \<lparr> bk_modifications := map f (bk_modifications b) @ ms \<rparr>) k = Some (f m)" by simp
  then show "\<exists>m'. find_change (b \<lparr> bk_modifications := map f (bk_modifications b) @ ms \<rparr>) k = Some m' \<and> tries m \<le> tries m'"
    using assms(2) by simp
qed simp

lemma superseded_tries [simp]: "mo_id (superseded m) = mo_id m" "tries (superseded m) = tries m"
  by (simp_all add: superseded_def tries_def)

lemma save_change_cases:
  assumes "save_change d b m = Inr (d', r)"
  obtains code where "d' = d" "r = (code, None)" "code \<noteq> ''created''"
  | c where "get_booking d (bk_id b) = Some c" "\<not> in_progress c" "change_of_key d (mo_key m) = None"
      "d' = put_booking d (c \<lparr> bk_modifications := map superseded (bk_modifications c) @ [m \<lparr> mo_id := next_change d \<rparr>] \<rparr>)"
      "r = (''created'', Some (next_change d))"
  using assms by (auto simp: save_change_def bindE_Inr_iff Let_def split: if_splits)

lemma save_change_kept: "save_change d b m = Inr (d', r) \<Longrightarrow> db_kept d d'"
proof (erule save_change_cases)
  fix c assume c: "get_booking d (bk_id b) = Some c"
    "d' = put_booking d (c \<lparr> bk_modifications := map superseded (bk_modifications c) @ [m \<lparr> mo_id := next_change d \<rparr>] \<rparr>)"
  show ?thesis unfolding c(2)
    by (rule changes_kept_put [OF c(1)])
      (rule changes_kept_map, simp_all)
qed simp

lemma owner_priced_tries [simp]: "mo_id (owner_priced_change m t s money) = mo_id m"
  "tries (owner_priced_change m t s money) = tries m"
  by (simp_all add: owner_priced_change_def tries_def)

lemma set_owner_final_total_cases:
  assumes "set_owner_final_total w e d n k given = Inr (d', r)"
  obtains "d' = d"
  | b m t s money where "get_booking d n = Some b" "find_change b k = Some m" "pricing_blocker e b m t = []"
      "settlement_blocker e d b = Inr []" "settlement_for e d b t = Inr s"
      "payment_quote w e b (os_due s) (mo_currency m) (mo_expires_at m) = Inr (Some money)"
      "d' = put_booking d (put_change b (owner_priced_change m t s money))" "r = (''priced'', Some k)"
proof -
  obtain t b where tb: "quantize round_half_even 2 given = Inr t" "get_booking d n = Some b"
    and rest: "(case find_change b k of None \<Rightarrow> Inr (d, ''not_found'', None) | Some m \<Rightarrow>
       if pricing_blocker e b m t \<noteq> [] then Inr (d, pricing_blocker e b m t, Some k)
       else bindE (settlement_blocker e d b) (\<lambda>blocker.
         if blocker \<noteq> [] then Inr (d, blocker, Some k)
         else bindE (settlement_for e d b t) (\<lambda>s.
         bindE (payment_quote w e b (os_due s) (mo_currency m) (mo_expires_at m)) (\<lambda>money.
         case money of
           None \<Rightarrow> Inr (d, ''fx_unavailable'', Some k)
         | Some money \<Rightarrow> Inr (put_booking d (put_change b (owner_priced_change m t s money)), ''priced'', Some k))))) = Inr (d', r)"
    using assms unfolding set_owner_final_total_def bindE_Inr_iff of_option_Inr Let_def by blast
  show thesis
  proof (cases "d' = d")
    case False
    then obtain m where m: "find_change b k = Some m" using rest by (cases "find_change b k") auto
    have p: "pricing_blocker e b m t = []" using rest m False by (auto split: if_splits)
    then obtain blocker where bl: "settlement_blocker e d b = Inr blocker" and rest2: "(if blocker \<noteq> [] then Inr (d, blocker, Some k)
         else bindE (settlement_for e d b t) (\<lambda>s.
         bindE (payment_quote w e b (os_due s) (mo_currency m) (mo_expires_at m)) (\<lambda>money.
         case money of
           None \<Rightarrow> Inr (d, ''fx_unavailable'', Some k)
         | Some money \<Rightarrow> Inr (put_booking d (put_change b (owner_priced_change m t s money)), ''priced'', Some k)))) = Inr (d', r)"
      using rest m by (auto simp: bindE_Inr_iff)
    then have "blocker = []" using False by (auto split: if_splits)
    then obtain s money where s: "settlement_for e d b t = Inr s"
      "payment_quote w e b (os_due s) (mo_currency m) (mo_expires_at m) = Inr money"
      "(case money of None \<Rightarrow> Inr (d, ''fx_unavailable'', Some k)
         | Some money \<Rightarrow> Inr (put_booking d (put_change b (owner_priced_change m t s money)), ''priced'', Some k)) = (Inr (d', r) :: (db \<times> answer_code) res)"
      using rest2 by (auto simp: bindE_Inr_iff)
    then obtain money' where "money = Some money'" using False by (cases money) auto
    then show ?thesis using that(2) tb(2) m p bl \<open>blocker = []\<close> s by auto
  qed (rule that(1))
qed

lemma set_owner_final_total_kept: "set_owner_final_total w e d n k given = Inr (d', r) \<Longrightarrow> db_kept d d'"
  by (erule set_owner_final_total_cases) (auto intro!: put_kept simp: find_change_id)

lemma if_Inr_iff: "(if P then Inr x else Inl e) = Inr y \<longleftrightarrow> P \<and> x = y"
  by simp

lemma clean_change_Inr: "clean_change u m0 = Inr m \<Longrightarrow> m = m0 \<lparr> mo_currency := map upper_char (mo_currency m0) \<rparr>"
  unfolding clean_change_def Let_def if_Inr_iff by (erule conjE) (erule sym)

lemma create_cancellation_cases:
  assumes "create_cancellation_request w e d n session owner = Inr (d', r)"
  obtains "d' = d"
  | b m where "get_booking d n = Some b" "cancellation_blocker e (unit_clock w b) b = Inr []"
      "base_blocker w e d b session owner = Inr []" "mo_type m = CancelReservation" "mo_operation m = None" "mo_completed_at m = None"
      "mo_status m \<in> {ChReady, ChAdminApproval}"
      "d' = put_booking d (b \<lparr> bk_modifications := bk_modifications b @ [m \<lparr> mo_id := next_change d \<rparr>] \<rparr>)"
proof (cases "d' = d")
  case False
  then have on: "xw_requests w" using assms by (auto simp: create_cancellation_request_def split: if_splits)
  then obtain b blocker where b: "get_booking d n = Some b" "base_blocker w e d b session owner = Inr blocker"
    and r1: "(if blocker \<noteq> [] then Inr (d, blocker, None)
      else bindE (cancellation_blocker e (unit_clock w b) b) (\<lambda>ended.
      if ended \<noteq> [] then Inr (d, ended, None) else add_cancellation w e d b session)) = Inr (d', r)"
    using assms unfolding create_cancellation_request_def by (auto simp only: bindE_Inr_iff of_option_Inr if_True not_True_eq_False if_False)
  then have "blocker = []" using False by (auto split: if_splits)
  then obtain ended where en: "cancellation_blocker e (unit_clock w b) b = Inr ended"
    and r2: "(if ended \<noteq> [] then Inr (d, ended, None) else add_cancellation w e d b session) = Inr (d', r)"
    using r1 by (auto simp: bindE_Inr_iff)
  then have "ended = []" and add: "add_cancellation w e d b session = Inr (d', r)" using False by (auto split: if_splits)
  then obtain key m where m: "clean_change (xw_unit w (bk_property b)) (cancellation_change w e b session key) = Inr m"
    "d' = put_booking d (b \<lparr> bk_modifications := bk_modifications b @ [m \<lparr> mo_id := next_change d \<rparr>] \<rparr>)"
    using False by (auto simp: add_cancellation_def Let_def bindE_Inr_iff split: option.splits sum.splits if_splits)
  have "mo_type m = CancelReservation" "mo_operation m = None" "mo_completed_at m = None" "mo_status m \<in> {ChReady, ChAdminApproval}"
    using clean_change_Inr [OF m(1)] by (simp_all add: cancellation_change_def)
  then show ?thesis using that(2) [of b m] b \<open>blocker = []\<close> en \<open>ended = []\<close> m(2) by simp
qed (rule that(1))

lemma create_cancellation_kept: "create_cancellation_request w e d n session owner = Inr (d', r) \<Longrightarrow> db_kept d d'"
proof (erule create_cancellation_cases)
  fix b m
  assume b: "get_booking d n = Some b" "d' = put_booking d (b \<lparr> bk_modifications := bk_modifications b @ [m \<lparr> mo_id := next_change d \<rparr>] \<rparr>)"
  show ?thesis unfolding b(2)
    by (rule changes_kept_put [OF b(1)])
      (use changes_kept_map [of "\<lambda>x. x" b] in simp)
qed simp

text \<open>No request is written twice: what was written was tried, and a request that was tried is not written again.\<close>

definition writes_tried :: "db \<times> change_worker list \<times> (nat \<times> nat) list \<Rightarrow> bool" where
  "writes_tried s = (case s of (d, ks, sent) \<Rightarrow> distinct sent \<and> (\<forall>x \<in> set sent. tried d x))"

lemma writes_tried_kept: "writes_tried (d, ks, sent) \<Longrightarrow> db_kept d d' \<Longrightarrow> writes_tried (d', ks', sent)"
  by (auto simp: writes_tried_def db_kept_def)

lemma change_step_tried:
  assumes "change_step s s'" and "writes_tried s"
  shows "writes_tried s'"
  using assms
proof (induction rule: change_step.induct)
  case (commit w v e d0 b m d d' code ks sent)
  then show ?case using writes_tried_kept commit_change_kept(1) by blast
next
  case (sending w v e d0 b m d d' k ks sent)
  then show ?case
    using commit_change_kept(1) [OF sending(2)] commit_change_kept(2) [OF sending(2) refl]
    by (auto simp: writes_tried_def db_kept_def)
next
  case (answer k ks e d reply d' x sent)
  then show ?case using writes_tried_kept conclude_change_kept by blast
next
  case (lost d ks sent k)
  then show ?case by (simp add: writes_tried_def)
next
  case (requested w e d0 b session owner given m d d' r ks sent)
  then show ?case using writes_tried_kept save_change_kept by blast
next
  case (repriced w e d n k given d' r ks sent)
  then show ?case using writes_tried_kept set_owner_final_total_kept by blast
next
  case (cancelling w e d n session owner d' r ks sent)
  then show ?case using writes_tried_kept create_cancellation_kept by blast
qed

subsection \<open>Completions\<close>

text \<open>The request of a reservation, and the steps that complete none.\<close>

definition change_at :: "db \<Rightarrow> nat \<Rightarrow> nat \<Rightarrow> modification option" where
  "change_at d n r = Option.bind (get_booking d n) (\<lambda>b. find_change b r)"

definition completes_none :: "db \<Rightarrow> db \<Rightarrow> bool" where
  "completes_none d d' = (\<forall>n r m m'. change_at d n r = Some m \<longrightarrow> change_at d' n r = Some m' \<longrightarrow> mo_completed m' \<longrightarrow> mo_completed m)"

lemma completes_none_refl [simp]: "completes_none d d"
  by (simp add: completes_none_def)

lemma change_at_put:
  assumes "get_booking d n = Some b" and "bk_id b' = n"
  shows "change_at (put_booking d b') j r = (if j = n then find_change b' r else change_at d j r)"
  using booking_table.get_after_put [of d b' b j] assms by (simp add: change_at_def)

lemma completes_none_put:
  assumes "get_booking d n = Some b" and "bk_id b' = n"
    and "\<And>r m m'. find_change b r = Some m \<Longrightarrow> find_change b' r = Some m' \<Longrightarrow> mo_completed m' \<Longrightarrow> mo_completed m"
  shows "completes_none d (put_booking d b')"
proof -
  have "change_at d n r = find_change b r" for r by (simp add: change_at_def assms(1))
  then show ?thesis
    unfolding completes_none_def change_at_put [OF assms(1,2)] using assms(3) by (metis option.inject)
qed

lemma completes_none_change:
  assumes "get_booking d n = Some b" and "find_change b k = Some m" and "mo_id m' = k" and "mo_completed m' \<Longrightarrow> mo_completed m"
    and "bk_modifications c = bk_modifications b" and "bk_id c = bk_id b"
  shows "completes_none d (put_booking d (put_change c m'))"
proof (rule completes_none_put [OF assms(1)])
  show "bk_id (put_change c m') = n" using assms(6) booking_table.get_key [OF assms(1)] by simp
  fix r x y assume x: "find_change b r = Some x" "find_change (put_change c m') r = Some y" "mo_completed y"
  have "find_change c j = find_change b j" for j using assms(5) by (simp add: find_change_def)
  then show "mo_completed x"
    using x find_put_change [of c m' m r] assms(2,3,4) by (simp split: if_splits)
qed

lemma commit_change_completes_none:
  assumes "commit_change w v e d b m = (d', x)"
  shows "completes_none d d'"
  using assms
proof (cases rule: commit_change_cases)
  case (2 c z z' sendable)
  have "mo_completed z' \<Longrightarrow> mo_completed z"
    using 2(3) by (cases rule: prepare_change_cases) (simp_all add: blocked_change_def started_change_def)
  then show ?thesis
    using completes_none_change [OF 2(1,2)] prepare_change_kept [OF 2(3)] find_change_id [OF 2(2)] 2(4) by simp
qed simp

lemma finish_change_completes_none:
  assumes "finish_change e d n k st os code = (d', x)" and "st \<noteq> ChCompleted"
  shows "completes_none d d'"
  using assms(1)
proof (cases rule: finish_change_cases)
  case (2 b m)
  have "\<not> mo_completed (finished_change e st os code m)" using assms(2) by (simp add: finished_change_def)
  moreover have "mo_id (finished_change e st os code m) = k" using find_change_id [OF 2(2)] by (simp add: finished_change_def)
  ultimately show ?thesis unfolding 2(3) by (intro completes_none_change [OF 2(1,2)]) simp_all
qed simp

lemma find_change_mapped:
  assumes "\<And>x. mo_id (f x) = mo_id x" and "find_change b r = Some m"
    and "find_change (b \<lparr> bk_modifications := map f (bk_modifications b) @ ms \<rparr>) r = Some m'"
  shows "m' = f m"
  using find_change_map [OF assms(1,2)] assms(3) by simp

lemma save_change_completes_none:
  assumes "save_change d b m = Inr (d', r)"
  shows "completes_none d d'"
  using assms
proof (cases rule: save_change_cases)
  case (2 c)
  have "bk_id (c \<lparr> bk_modifications := map superseded (bk_modifications c) @ [m \<lparr> mo_id := next_change d \<rparr>] \<rparr>) = bk_id b"
    using booking_table.get_key [OF 2(1)] by simp
  moreover have "mo_completed (superseded x) \<Longrightarrow> mo_completed x" for x by (auto simp: superseded_def split: if_splits)
  moreover have "mo_id (superseded x) = mo_id x" for x by (simp add: superseded_def)
  ultimately show ?thesis
    unfolding 2(4) using find_change_mapped [of superseded c] by (intro completes_none_put [OF 2(1)]) metis+
qed simp

lemma set_owner_final_total_completes_none:
  "set_owner_final_total w e d n k given = Inr (d', r) \<Longrightarrow> completes_none d d'"
  by (erule set_owner_final_total_cases) (auto intro!: completes_none_change simp: find_change_id owner_priced_change_def)

lemma create_cancellation_completes_none:
  assumes "create_cancellation_request w e d n session owner = Inr (d', r)"
  shows "completes_none d d'"
  using assms
proof (cases rule: create_cancellation_cases)
  case (2 b m)
  have "bk_id (b \<lparr> bk_modifications := bk_modifications b @ [m \<lparr> mo_id := next_change d \<rparr>] \<rparr>) = n"
    using booking_table.get_key [OF 2(1)] by simp
  then show ?thesis
    unfolding 2(8) using find_change_mapped [of "\<lambda>x. x" b r _ "[m \<lparr> mo_id := next_change d \<rparr>]" for r]
    by (intro completes_none_put [OF 2(1)]) auto
qed simp

text \<open>The reservation after a recorded answer.\<close>

definition agrees_with :: "booking \<Rightarrow> snapshot \<Rightarrow> bool" where
  "agrees_with b s = (bk_check_in b = sn_check_in s \<and> bk_check_out b = sn_check_out s \<and> bk_guests b = sn_guests s
     \<and> bk_total b = sn_total s \<and> int (bk_nights b) = sn_check_out s - sn_check_in s
     \<and> bk_status b = (if is_cancelled_text (sn_status s) then Cancelled else Modified))"

lemma record_change_row:
  assumes "record_change e d n k s = (d', x)" and "d' \<noteq> d"
  obtains b' m' where "get_booking d' n = Some b'" "find_change b' k = Some m'" "mo_completed m'" "agrees_with b' s"
    "x = Inr ''completed''" "\<And>j r. (j, r) \<noteq> (n, k) \<Longrightarrow> change_at d' j r = change_at d j r"
  using assms(1)
proof (cases rule: record_change_cases)
  case 1
  then show ?thesis using assms(2) by simp
next
  case (2 b m c)
  let ?b = "put_change c (completed_change e m)"
  have id: "bk_id c = n" using clean_booking_row [OF 2(3)] booking_table.get_key [OF 2(1)] by (simp add: changed_row_fields)
  have mods: "bk_modifications c = bk_modifications b" using clean_booking_more [OF 2(3)] by (simp add: changed_row_fields)
  have k: "mo_id m = k" using find_change_id [OF 2(2)] .
  have find_same: "find_change c j = find_change b j" for j using mods by (simp add: find_change_def)
  have upd: "find_change ?b j = (if j = k then Some (completed_change e m) else find_change b j)" for j
    using find_put_change [of c "completed_change e m" m j] 2(2) k find_same by simp
  have row: "get_booking d' n = Some ?b" using booking_table.get_put_same [of d ?b b] 2(1,4) id by simp
  have "agrees_with ?b s"
    using clean_booking_row [OF 2(3)] clean_booking_more [OF 2(3)]
    by (auto simp: agrees_with_def changed_row_fields put_change_def)
  moreover have "change_at d' j r = change_at d j r" if "(j, r) \<noteq> (n, k)" for j r
    using that change_at_put [OF 2(1), of ?b j r] id upd 2(1,4) by (auto simp: change_at_def)
  moreover have "mo_completed (completed_change e m)" by (simp add: completed_change_def finished_change_def)
  ultimately show ?thesis using that [OF row, of "completed_change e m"] upd 2(5) by simp
qed

text \<open>A call that waits for its answer has written its request.\<close>

definition calls_written :: "db \<times> change_worker list \<times> (nat \<times> nat) list \<Rightarrow> bool" where
  "calls_written s = (case s of (d, ks, sent) \<Rightarrow> \<forall>k \<in> set ks. (bk_id (xk_booking k), mo_id (xk_change k)) \<in> set sent)"

lemma change_step_written:
  assumes "change_step s s'" and "calls_written s"
  shows "calls_written s'"
  using assms
proof (induction rule: change_step.induct)
  case (sending w v e d0 b m d d' k ks sent)
  have "bk_id (xk_booking k) = bk_id b \<and> mo_id (xk_change k) = mo_id m"
    using commit_change_kept(2) [OF sending(2) refl] by simp
  then show ?case using sending(3) by (auto simp: calls_written_def)
qed (auto simp: calls_written_def dest: notin_set_remove1 intro: set_mp [OF set_remove1_subset])

text \<open>Among these steps only the answer to the very call completes a request.\<close>

lemma completion_of_call:
  assumes written: "calls_written (d, ks, sent)" and "change_step (d, ks, sent) (d', ks', sent')"
    and "change_at d n r = Some m" and "\<not> mo_completed m"
    and "get_booking d' n = Some b'" and "find_change b' r = Some m'" and "mo_completed m'"
  shows "(n, r) \<in> set sent \<and> (\<exists>k s. k \<in> set ks \<and> bk_id (xk_booking k) = n \<and> mo_id (xk_change k) = r
     \<and> snapshot_matches (xk_change k) s \<and> agrees_with b' s)"
proof -
  have at': "change_at d' n r = Some m'" using assms(5,6) by (simp add: change_at_def)
  then have some: "\<not> completes_none d d'" using assms(3,4,7) by (auto simp: completes_none_def)
  from assms(2) show ?thesis
  proof (cases rule: change_step.cases)
    case (answer k e reply x)
    then have run: "conclude_change e d k reply = (d', x)" and k: "k \<in> set ks" by simp_all
    from run show ?thesis
    proof (cases rule: conclude_change_cases)
      case 1
      then show ?thesis using some by simp
    next
      case (2 st os code)
      then show ?thesis using finish_change_completes_none some by blast
    next
      case (3 s)
      have "d' \<noteq> d" using some by auto
      then obtain b1 m1 where b1: "get_booking d' (bk_id (xk_booking k)) = Some b1" "agrees_with b1 s"
        "\<And>j i. (j, i) \<noteq> (bk_id (xk_booking k), mo_id (xk_change k)) \<Longrightarrow> change_at d' j i = change_at d j i"
        using record_change_row [OF 3(3)] by metis
      have "(n, r) = (bk_id (xk_booking k), mo_id (xk_change k))"
        using b1(3) [of n r] at' assms(3,4,7) by auto
      then show ?thesis using k written 3(2) b1(1,2) assms(5) by (auto simp: calls_written_def)
    qed
  next
    case commit
    then show ?thesis using some by (auto dest: commit_change_completes_none)
  next
    case sending
    then show ?thesis using some by (auto dest: commit_change_completes_none)
  next
    case lost
    then show ?thesis using some by simp
  next
    case requested
    then show ?thesis using some by (auto dest: save_change_completes_none)
  next
    case repriced
    then show ?thesis using some by (auto dest: set_owner_final_total_completes_none)
  next
    case cancelling
    then show ?thesis using some by (auto dest: create_cancellation_completes_none)
  qed
qed

subsection \<open>A cancellation that is carried out\<close>

definition sample_changes :: change_world where
  "sample_changes = \<lparr> xw_unit = (\<lambda>n. None), xw_channel = \<lparr> ch_calendar = (\<lambda>n i j. Inl (HostawayServer ''down'')),
     ch_price = (\<lambda>n i j g t c. Inl (HostawayServer ''down'')) \<rparr>, xw_today = 719162, xw_overnight = (\<lambda>n i j. False),
     xw_rates = Inl (RateUnavailable ''no rates''), xw_label = (\<lambda>c. []), xw_digest = (\<lambda>n t i j g k. ''digest''),
     xw_fresh = ''fresh'', xw_refunds = half_settings, xw_max_nights = 90, xw_cutoff_hours = 0, xw_ttl = 600,
     xw_automatic = True, xw_requests = True, xw_auto_cancel = True, xw_auto_refund = True \<rparr>"

definition sample_writes :: write_world where
  "sample_writes = \<lparr> ww_live_change = True, ww_live_extension = True, ww_live_cancellation = True,
     ww_print = (\<lambda>n m. ''fp'') \<rparr>"

definition sample_cancellation :: modification where
  "sample_cancellation = \<lparr> mo_id = 8, mo_type = CancelReservation, mo_status = ChReady, mo_old_check_in = 719163,
     mo_old_check_out = 719165, mo_new_check_in = None, mo_new_check_out = None, mo_old_guests = 2, mo_new_guests = None,
     mo_old_total = 1000, mo_new_total = None, mo_difference = 0, mo_currency = ''SAR'', mo_payment_sar = None,
     mo_snapshot = [], mo_nights = None, mo_key = ''k8'', mo_session = ''s'', mo_requested_at = 900, mo_expires_at = 2000,
     mo_approved_at = Some 950, mo_completed_at = None, mo_operation = None \<rparr>"

definition leaving_booking :: booking where
  "leaving_booking = paid_booking \<lparr> bk_modifications := [sample_cancellation] \<rparr>"

definition leaving_db :: db where
  "leaving_db = sample_db \<lparr> db_bookings := [leaving_booking] \<rparr>"

definition written_cancellation :: modification where
  "written_cancellation = started_change sample_env ((new_operation OpPrepared ''fp'' []) \<lparr> op_remote := Some 500 \<rparr>) ''fp'' sample_cancellation"

definition cancelled_snapshot :: snapshot where
  "cancelled_snapshot = \<lparr> sn_id = 500, sn_listing_map = 12, sn_channel = Some 2000, sn_status = ''cancelled'', sn_check_in = 719163,
     sn_check_out = 719165, sn_guests = 2, sn_currency = ''SAR'', sn_total = 1000, sn_payment_status = ''Paid'',
     sn_source = ''direct'', sn_updated_at = None \<rparr>"

definition waiting_db :: db where
  "waiting_db = put_booking leaving_db (put_change leaving_booking written_cancellation)"

definition waiting_call :: change_worker where
  "waiting_call = \<lparr> xk_booking = leaving_booking, xk_change = sample_cancellation \<rparr>"

lemmas leaving_defs = leaving_booking_def paid_booking_def sample_booking_def

lemma leaving_found: "get_booking leaving_db 70 = Some leaving_booking" "bk_id leaving_booking = 70"
    "find_change leaving_booking 8 = Some sample_cancellation" "mo_id sample_cancellation = 8"
  by (simp_all add: get_booking_def row_get_def leaving_db_def leaving_defs find_change_def sample_cancellation_def)

lemma leaving_planned: "plan_execution sample_changes sample_writes sample_env leaving_db leaving_booking sample_cancellation = Inr []"
  by code_simp

lemma leaving_committed: "commit_change sample_changes sample_writes sample_env leaving_db leaving_booking sample_cancellation
    = (waiting_db, Inr (Inr waiting_call))"
proof -
  have "prepare_change sample_changes sample_writes sample_env leaving_db leaving_booking sample_cancellation ''fp''
      = Inr (written_cancellation, True)"
    by code_simp
  moreover have "ww_print sample_writes (bk_id leaving_booking) sample_cancellation = ''fp''" by (simp add: sample_writes_def)
  ultimately show ?thesis
    using leaving_found by (simp add: commit_change_def waiting_db_def waiting_call_def)
qed

lemma leaving_run: "change_step\<^sup>*\<^sup>* (leaving_db, [], []) (waiting_db, [waiting_call], [(70, 8)])"
  using change_step.sending [OF leaving_planned leaving_committed, of "[]" "[]"] leaving_found by (simp add: r_into_rtranclp)

lemma written_row: "find_change (put_change leaving_booking written_cancellation) 8 = Some written_cancellation"
    "mo_id written_cancellation = 8" "bk_id (put_change leaving_booking written_cancellation) = 70"
  using find_put_change [of leaving_booking written_cancellation sample_cancellation 8] leaving_found
  by (simp_all add: written_cancellation_def started_change_def sample_cancellation_def put_change_def)

lemma waiting_found: "get_booking waiting_db 70 = Some (put_change leaving_booking written_cancellation)"
  using booking_table.get_put_same [of leaving_db "put_change leaving_booking written_cancellation"] leaving_found written_row(3)
  by (simp add: waiting_db_def)

definition left_booking :: booking where
  "left_booking = changed_row sample_env written_cancellation cancelled_snapshot (put_change leaving_booking written_cancellation)"

lemma left_clean: "clean_booking waiting_db left_booking = Inr left_booking"
  by code_simp

lemma leaving_concluded: "conclude_change sample_env waiting_db waiting_call (Inr cancelled_snapshot)
    = (put_booking waiting_db (put_change left_booking (completed_change sample_env written_cancellation)), Inr ''completed'')"
proof -
  have "snapshot_matches sample_cancellation cancelled_snapshot" by code_simp
  then show ?thesis
    using left_clean waiting_found written_row leaving_found
    by (simp add: conclude_change_def waiting_call_def record_change_def with_change_def left_booking_def)
qed

lemma left_found: "get_booking (put_booking waiting_db (put_change left_booking (completed_change sample_env written_cancellation))) 70
    = Some (put_change left_booking (completed_change sample_env written_cancellation))"
proof -
  have "bk_id (put_change left_booking (completed_change sample_env written_cancellation)) = 70"
    using written_row(3) by (simp add: left_booking_def changed_row_def cancelled_snapshot_def Let_def put_change_def)
  then show ?thesis
    using booking_table.get_put_same [of waiting_db "put_change left_booking (completed_change sample_env written_cancellation)"] waiting_found by simp
qed

subsection \<open>Two ends the code does not see\<close>

text \<open>
  A request that a newer one has superseded between the checks and the commit is written all the
  same: only a cancellation and a price of the owner are checked again under the lock.
\<close>

lemma superseded_change_sent:
  assumes "get_booking d (bk_id b) = Some c" and "find_change c (mo_id m) = Some z"
    and "mo_status z = ChSuperseded" and "mo_operation z = None" and "mo_type z \<noteq> CancelReservation" and "\<not> owner_priced z"
  shows "\<exists>z'. commit_change w v e d b m = (put_booking d (put_change c z'), Inr (Inr \<lparr> xk_booking = b, xk_change = m \<rparr>))
     \<and> mo_status z' = ChProcessing"
  using assms
  by (simp add: commit_change_def prepare_change_def Let_def started_change_def)
    (rule exI, rule conjI, rule refl, simp)

text \<open>
  An answer that the reservation does not exist is not among the answers the call handles: the
  request stays in progress and no later call sends or ends it.
\<close>

lemma lost_change_never_ends:
  assumes "mo_status m = ChProcessing"
  shows "conclude_change e d k (Inl (HostawayNotFound t)) = (d, Inl (HostawayNotFound t))"
    and "execute_change w v e c d b m = (d, Inr ''modification_not_ready'')"
  using assms by (simp_all add: conclude_change_def Let_def execute_change_def plan_execution_def execution_blocker_def)

end
