(* ===== verification/AutoChanges.thy ===== *)
theory AutoChanges
  imports ChangeWrites
begin

section \<open>Changes without an administrator (apps/reservations/services/automatic\_modifications.py)\<close>

text \<open>
  The whole way of a change or cancellation: the approval under the lock of the reservation, the write
  at the channel manager, the debt it leaves and its refund through the gateway; and the cancellation
  of a paid reservation that never reached the channel manager. The answers of the channel manager and
  of the gateway are parameters.
\<close>

record automation =
  am_world :: change_world
  am_writes :: write_world
  am_gateway :: gateway
  am_client :: change_client
  am_refund :: "nat \<Rightarrow> exchange"

definition am_listing :: "automation \<Rightarrow> booking \<Rightarrow> listing option" where
  "am_listing a b = map_option ap_listing (xw_unit (am_world a) (bk_property b))"

definition cancellation_money :: "automation \<Rightarrow> env \<Rightarrow> db \<Rightarrow> booking \<Rightarrow> computation res" where
  "cancellation_money a e d b = cancellation_refund e (xw_refunds (am_world a)) d b (am_listing a b) (now e)"

subsection \<open>The payment of a difference\<close>

text \<open>The newest succeeded and verified payment of exactly the amount of the request.\<close>

definition paid_difference :: "booking \<Rightarrow> modification \<Rightarrow> payment option" where
  "paid_difference b m =
     (let ps = filter (\<lambda>p. pa_modification p = Some (mo_id m) \<and> pa_status p = PaSucceeded
            \<and> Some (pa_amount p) = mo_payment_sar m \<and> pa_currency p = payment_currency \<and> pa_verified_at p \<noteq> None)
          (intent_payments b)
      in if ps = [] then None else Some (last ps))"

subsection \<open>The approval\<close>

definition in_between :: "rat \<Rightarrow> rat option \<Rightarrow> bool" where
  "in_between top_value x = (case x of None \<Rightarrow> True | Some v \<Rightarrow> 0 \<le> v \<and> v \<le> top_value)"

text \<open>A refund that the loyalty programme's own plan contradicts.\<close>

definition refund_plan_blocker :: "env \<Rightarrow> db \<Rightarrow> booking \<Rightarrow> modification \<Rightarrow> rat option \<Rightarrow> string res" where
  "refund_plan_blocker e d b m approved =
     (case approved of
        None \<Rightarrow> Inr []
      | Some v \<Rightarrow>
          (case (if mo_type m = CancelReservation then cancellation_plan e d b
                 else bindE (of_option (TypeError ''new_total'') (mo_new_total m)) (decrease_plan e d b)) of
             Inl x \<Rightarrow> if is_validation_error x then Inr ''loyalty_departure_evidence_required'' else Inl x
           | Inr None \<Rightarrow> Inr []
           | Inr (Some plan) \<Rightarrow> Inr (if v \<noteq> pl_cash plan then ''loyalty_refund_must_match_policy'' else [])))"

text \<open>The amount collected when the owner set the price, as it was written into the request.\<close>

definition seen_payment :: "modification \<Rightarrow> decimal option res" where
  "seen_payment m =
     (case dget (mo_snapshot m) ''owner_settlement'' of
        PyDict (kv # kvs) \<Rightarrow>
          bindE (of_option (KeyError ''paid'') (map_of (kv # kvs) ''paid'')) (\<lambda>v.
          bindE (of_option (DecimalError ''ConversionSyntax'') (to_decimal v)) (\<lambda>x. Inr (Some x)))
      | _ \<Rightarrow> Inr None)"

definition owner_refund_blocker :: "env \<Rightarrow> db \<Rightarrow> booking \<Rightarrow> modification \<Rightarrow> rat option \<Rightarrow> string res" where
  "owner_refund_blocker e d b m approved =
     bindE (of_option (TypeError ''new_total'') (mo_new_total m)) (\<lambda>t.
     bindE (settlement_for e d b t) (\<lambda>s.
     bindE (seen_payment m) (\<lambda>seen.
     if seen \<noteq> None \<and> seen \<noteq> Some (Fin (os_paid s)) then Inr ''payment_changed_reprice_required''
     else bindE (eligible e d b) (\<lambda>loyal.
     bindE (if loyal then to_sar (fx e) b (os_refund s) else Inr (os_refund s)) (\<lambda>limit.
       Inr (if in_between limit approved then [] else ''invalid_refund_amount''))))))"

text \<open>The money a change needs before it is carried out.\<close>

definition funding_blocker :: "automation \<Rightarrow> env \<Rightarrow> db \<Rightarrow> booking \<Rightarrow> modification \<Rightarrow> rat option \<Rightarrow> bool \<Rightarrow> string res" where
  "funding_blocker a e d b m approved owner =
     (if mo_type m = CancelReservation then
        if \<not> xw_auto_cancel (am_world a) then Inr ''automatic_cancellation_disabled''
        else (case cancellation_money a e d b of
            Inl x \<Rightarrow> if is_validation_error x then Inr ''loyalty_departure_evidence_required'' else Inl x
          | Inr c \<Rightarrow> Inr (if in_between (cm_amount c) approved then [] else ''payment_changed_reprice_required''))
      else if 0 < mo_difference m \<and> \<not> owner then
        Inr (case paid_difference b m of
               None \<Rightarrow> ''successful_payment_required''
             | Some p \<Rightarrow> if pa_provider p = ''hyperpay'' \<and> gs_environment (am_gateway a) = ''test''
                         then ''test_payment_live_write_blocked'' else [])
      else Inr [])"

definition next_blocker :: "string res \<Rightarrow> string res \<Rightarrow> string res" where
  "next_blocker r s = bindE r (\<lambda>code. if code \<noteq> [] then Inr code else s)"

text \<open>Every check of the first transaction, in its order.\<close>

definition approval_blocker :: "automation \<Rightarrow> env \<Rightarrow> db \<Rightarrow> booking \<Rightarrow> modification \<Rightarrow> rat option \<Rightarrow> bool \<Rightarrow> string res" where
  "approval_blocker a e d b m approved owner =
     next_blocker (if mo_type m \<noteq> CancelReservation then Inr []
        else if mo_completed m then Inr ''already_completed'' else cancellation_blocker e (unit_clock (am_world a) b) b)
     (next_blocker (if owner then owner_change_blocker e d b m True else Inr [])
     (next_blocker (Inr (if mo_completed m then ''already_completed'' else []))
     (next_blocker (refund_plan_blocker e d b m approved)
     (next_blocker (if owner then owner_refund_blocker e d b m approved else Inr [])
     (next_blocker (funding_blocker a e d b m approved owner)
       (Inr (if mo_status m \<in> {ChAwaitingPayment, ChAdminApproval, ChReady} then [] else ''modification_not_eligible'')))))))"

definition approved_change :: "env \<Rightarrow> modification \<Rightarrow> modification" where
  "approved_change e m =
     (if mo_status m \<noteq> ChReady \<or> mo_approved_at m = None
      then m \<lparr> mo_status := ChReady, mo_approved_at := Some (now e) \<rparr> else m)"

text \<open>The code that ends the call, or the rows it goes on with.\<close>

definition approve_change ::
    "automation \<Rightarrow> env \<Rightarrow> db \<Rightarrow> nat \<Rightarrow> nat \<Rightarrow> rat option \<Rightarrow> bool \<Rightarrow> (db \<times> (string + booking \<times> modification)) res" where
  "approve_change a e d n k approved owner =
     with_change d n k (\<lambda>b m. bindE (approval_blocker a e d b m approved owner) (\<lambda>code.
       if code \<noteq> [] then Inr (d, Inl code)
       else let m' = approved_change e m; b' = put_change b m' in Inr (put_booking d b', Inr (b', m'))))"

subsection \<open>The debt after the change\<close>

definition owed_computation :: "automation \<Rightarrow> env \<Rightarrow> db \<Rightarrow> booking \<Rightarrow> modification \<Rightarrow> computation option res" where
  "owed_computation a e d b m =
     (if mo_type m = CancelReservation then bindE (cancellation_money a e d b) (\<lambda>c. Inr (Some c))
      else if dget (mo_snapshot m) ''owner_settlement'' \<noteq> PyNone then
        bindE (of_option (TypeError ''new_total'') (mo_new_total m)) (\<lambda>t.
        bindE (settlement_for e d b t) (\<lambda>s.
          Inr (if os_refund s \<le> 0 then None
               else Some ((no_refund (mo_currency m) []) \<lparr> cm_amount := os_refund s, cm_source := ''owner_final_total_vs_net_paid'' \<rparr>))))
      else if mo_difference m < 0 then
        Inr (map_option (\<lambda>original. (no_refund (mo_currency m) [])
               \<lparr> cm_amount := min \<bar>mo_difference m\<bar> original, cm_source := ''modification_price_difference'' \<rparr>)
             (successful_original_payment_amount b))
      else Inr None)"

definition change_reason :: "modification \<Rightarrow> string" where
  "change_reason m = (if mo_type m = CancelReservation then ''cancellation'' else ''modification_decrease'')"

text \<open>The approved amount replaces the computed one, within it.\<close>

definition decided :: "rat option \<Rightarrow> computation \<Rightarrow> computation option" where
  "decided approved c = (case approved of None \<Rightarrow> Some c
     | Some v \<Rightarrow> if v < 0 \<or> cm_amount c < v then None else Some (c \<lparr> cm_amount := v \<rparr>))"

definition record_refund_if_owed ::
    "automation \<Rightarrow> env \<Rightarrow> db \<Rightarrow> nat \<Rightarrow> nat \<Rightarrow> rat option \<Rightarrow> (db \<times> obligation option) res" where
  "record_refund_if_owed a e d n k approved =
     with_change d n k (\<lambda>b m.
       bindE (if mo_type m = CancelReservation then cancellation_plan e d b
              else bindE (of_option (TypeError ''new_total'') (mo_new_total m)) (decrease_plan e d b)) (\<lambda>plan.
       case plan of
         Some p \<Rightarrow> bindE (record_refund_plan e d n k p (change_reason m)) (\<lambda>(d', rows).
             Inr (d', if rows = [] then None else Some (hd rows)))
       | None \<Rightarrow> bindE (owed_computation a e d b m) (\<lambda>c.
           case Option.bind c (decided approved) of
             None \<Rightarrow> Inr (d, None)
           | Some c' \<Rightarrow> record_obligation d n (change_reason m) c' (Some k))))"

subsection \<open>The refund\<close>

definition submit_automatic_refund :: "automation \<Rightarrow> env \<Rightarrow> db \<Rightarrow> nat \<Rightarrow> obligation \<Rightarrow> db \<times> string res" where
  "submit_automatic_refund a e d n r =
     (case get_booking d n of
        None \<Rightarrow> (d, Inl (DoesNotExist ''reservation''))
      | Some b \<Rightarrow>
          if bk_offline b \<noteq> None then (d, Inr ''manual_refund_required'')
          else (case submit_refund (am_gateway a) e d (ob_id r) (am_refund a (ob_id r)) of
              (d', Inl (HyperPayRefund code)) \<Rightarrow> (d', Inr code)
            | (d', Inl x) \<Rightarrow> (d', Inl x)
            | (d', Inr code) \<Rightarrow> (d', Inr code)))"

text \<open>The other debts of the settlement, on the receipts of the card provider.\<close>

fun submit_companions :: "automation \<Rightarrow> env \<Rightarrow> db \<Rightarrow> nat \<Rightarrow> obligation list \<Rightarrow> db \<times> unit res" where
  "submit_companions a e d n [] = (d, Inr ())"
| "submit_companions a e d n (r # rs) =
     (if ob_provider r \<noteq> Some ''hyperpay'' then submit_companions a e d n rs
      else case submit_automatic_refund a e d n r of
        (d', Inl x) \<Rightarrow> (d', Inl x)
      | (d', Inr code) \<Rightarrow> submit_companions a e d' n rs)"

definition companions :: "db \<Rightarrow> nat \<Rightarrow> nat \<Rightarrow> obligation \<Rightarrow> obligation list" where
  "companions d n k r = (case get_booking d n of None \<Rightarrow> []
     | Some b \<Rightarrow> filter (\<lambda>x. ob_modification x = Some k \<and> ob_status x = RefundDue \<and> ob_id x \<noteq> ob_id r) (bk_refunds b))"

definition settle_refund :: "automation \<Rightarrow> env \<Rightarrow> db \<Rightarrow> nat \<Rightarrow> nat \<Rightarrow> obligation \<Rightarrow> db \<times> string res" where
  "settle_refund a e d n k r =
     (case (if ob_provider r \<in> {None, Some ''hyperpay''} then submit_automatic_refund a e d n r
            else (d, Inr ''manual_refund_required'')) of
        (d1, Inl x) \<Rightarrow> (d1, Inl x)
      | (d1, Inr code) \<Rightarrow>
          if \<not> ob_settlement r then (d1, Inr code)
          else (case submit_companions a e d1 n (companions d1 n k r) of
              (d2, Inl x) \<Rightarrow> (d2, Inl x)
            | (d2, Inr u) \<Rightarrow> (d2, Inr code)))"

subsection \<open>Paid reservations the channel manager never had\<close>

definition orphaned :: "booking \<Rightarrow> modification \<Rightarrow> bool" where
  "orphaned b m = (mo_type m = CancelReservation \<and> bk_source b = DirectWebsite \<and> bk_status b = ReadyForHostaway
     \<and> bk_remote b = None)"

definition card_collection :: "payment \<Rightarrow> bool" where
  "card_collection p = (pa_modification p = None \<and> pa_provider p = ''hyperpay'' \<and> pa_status p \<in> {PaSucceeded, PaPartiallyRefunded})"

definition connector_test :: "booking \<Rightarrow> bool" where
  "connector_test b = (case latest_payment (filter card_collection (intent_payments b)) of
      None \<Rightarrow> False
    | Some p \<Rightarrow> pa_code p = ''000.100.112'' \<or> contains (casefold (pa_description p)) ''connector test mode''
        \<or> contains (casefold (case pa_checkout p of None \<Rightarrow> [] | Some s \<Rightarrow> s)) ''.uat'')"

definition closed_locally :: "env \<Rightarrow> booking \<Rightarrow> booking" where
  "closed_locally e b = b \<lparr> bk_status := Cancelled, bk_cancelled_at := Some (now e), bk_confirmed_at := None,
     bk_remote_status := ''not_created'', bk_synced_at := Some (now e) \<rparr>"

definition closed_change :: "env \<Rightarrow> modification \<Rightarrow> modification" where
  "closed_change e m = m \<lparr> mo_status := ChCompleted, mo_completed_at := Some (now e) \<rparr>"

definition complete_local_cancellation :: "env \<Rightarrow> db \<Rightarrow> nat \<Rightarrow> nat \<Rightarrow> db res" where
  "complete_local_cancellation e d n k =
     with_change d n k (\<lambda>b m.
       if mo_completed m then Inr d
       else bindE (clean_booking d (closed_locally e b)) (\<lambda>c. Inr (put_booking d (put_change c (closed_change e m)))))"

text \<open>A payment in the provider's test mode moved no money: its attempts and debts are closed.\<close>

definition uncaptured :: "payment \<Rightarrow> payment" where
  "uncaptured p = (if card_collection p
     then p \<lparr> pa_status := PaCancelled, pa_failure := ''hyperpay_connector_test_mode_no_capture'' \<rparr> else p)"

definition dropped_debt :: "nat \<Rightarrow> obligation \<Rightarrow> obligation" where
  "dropped_debt k r = (if ob_modification r = Some k \<and> ob_status r = RefundDue then r \<lparr> ob_status := RefundCancelled \<rparr> else r)"

definition complete_test_cancellation :: "env \<Rightarrow> db \<Rightarrow> nat \<Rightarrow> nat \<Rightarrow> db res" where
  "complete_test_cancellation e d n k =
     with_change d n k (\<lambda>b m.
       if mo_completed m then Inr d
       else let b1 = b \<lparr> bk_intent := map_option (\<lambda>i. i \<lparr> in_payments := map uncaptured (in_payments i) \<rparr>) (bk_intent b),
                bk_refunds := map (dropped_debt k) (bk_refunds b) \<rparr>
         in bindE (clean_booking d (closed_locally e b1)) (\<lambda>c. Inr (put_booking d (put_change c (closed_change e m)))))"

text \<open>The debt of the cancellation: the newest one that is there, or a new one over the whole amount.\<close>

definition last_matching :: "('a \<Rightarrow> bool) \<Rightarrow> 'a list \<Rightarrow> 'a option" where
  "last_matching P xs = find P (rev xs)"

definition orphan_debt :: "db \<Rightarrow> nat \<Rightarrow> nat \<Rightarrow> booking \<Rightarrow> computation \<Rightarrow> (db \<times> obligation option) res" where
  "orphan_debt d n k b c =
     (case last_matching (\<lambda>r. ob_modification r = Some k \<and> ob_reason r = ''cancellation'') (bk_refunds b) of
        Some r \<Rightarrow> Inr (d, Some r)
      | None \<Rightarrow> record_obligation d n ''cancellation''
          (c \<lparr> cm_source := ''orphaned_local_paid_reservation'' \<rparr>) (Some k))"

text \<open>The first transaction: a code that ends the call, or the debt to submit.\<close>

definition prepare_orphan ::
    "automation \<Rightarrow> env \<Rightarrow> db \<Rightarrow> nat \<Rightarrow> nat \<Rightarrow> rat option \<Rightarrow> (db \<times> (string + obligation)) res" where
  "prepare_orphan a e d n k approved =
     with_change d n k (\<lambda>b m.
       if mo_completed m then Inr (d, Inl ''already_completed'')
       else if \<not> orphaned b m then Inr (d, Inl ''orphaned_reservation_changed'')
       else if connector_test b then
         bindE (complete_test_cancellation e d n k) (\<lambda>d'. Inr (d', Inl ''orphaned_test_payment_cancelled''))
       else bindE (cancellation_money a e d b) (\<lambda>c.
         if cm_amount c \<le> 0 then Inr (d, Inl ''original_payment_not_found'')
         else if approved \<noteq> None \<and> approved \<noteq> Some (cm_amount c) then Inr (d, Inl ''orphaned_refund_must_be_full'')
         else bindE (orphan_debt d n k b c) (\<lambda>(d1, row).
           case row of
             None \<Rightarrow> Inr (d1, Inl ''original_payment_not_found'')
           | Some r \<Rightarrow>
               if ob_status r = RefundTransferred then
                 bindE (complete_local_cancellation e d1 n k) (\<lambda>d2. Inr (d2, Inl ''orphaned_refunded''))
               else if ob_status r = RefundProcessing then Inr (d1, Inl ''orphaned_refund_pending'')
               else Inr (d1, Inr r))))"

definition refund_orphan :: "automation \<Rightarrow> env \<Rightarrow> db \<Rightarrow> nat \<Rightarrow> nat \<Rightarrow> rat option \<Rightarrow> db \<times> string res" where
  "refund_orphan a e d n k approved =
     (if \<not> xw_auto_refund (am_world a) then (d, Inr ''automatic_refund_disabled'')
      else case prepare_orphan a e d n k approved of
        Inl x \<Rightarrow> (d, Inl x)
      | Inr (d1, Inl code) \<Rightarrow> (d1, Inr code)
      | Inr (d1, Inr r) \<Rightarrow>
          (case submit_automatic_refund a e d1 n r of
             (d2, Inl x) \<Rightarrow> (d2, Inl x)
           | (d2, Inr code) \<Rightarrow>
               if code \<in> {''refund.hyperpay_completed'', ''refund.hyperpay_submitted''} then
                 (case complete_local_cancellation e d2 n k of
                    Inl x \<Rightarrow> (d2, Inl x) | Inr d3 \<Rightarrow> (d3, Inr ''orphaned_refunded''))
               else (d2, Inr ''orphaned_refund_not_accepted'')))"

subsection \<open>The whole call\<close>

text \<open>With automatic approval off, a paid request is at least shown to the administration.\<close>

definition leave_to_administration :: "db \<Rightarrow> nat \<Rightarrow> nat \<Rightarrow> db \<times> string res" where
  "leave_to_administration d n k =
     (case with_change d n k (\<lambda>b m. Inr (
             if mo_status m = ChAwaitingPayment \<and> paid_difference b m \<noteq> None
             then put_booking d (put_change b (m \<lparr> mo_status := ChAdminApproval \<rparr>)) else d)) of
        Inl x \<Rightarrow> (d, Inl x)
      | Inr d' \<Rightarrow> (d', Inr ''automatic_approval_disabled''))"

definition after_execution :: "automation \<Rightarrow> env \<Rightarrow> nat \<Rightarrow> nat \<Rightarrow> rat option \<Rightarrow> db \<times> string res \<Rightarrow> db \<times> string res" where
  "after_execution a e n k approved outcome =
     (case outcome of
        (d, Inr code) \<Rightarrow>
          if code \<noteq> ''completed'' then (d, Inr code)
          else (case record_refund_if_owed a e d n k approved of
              Inl x \<Rightarrow> (d, Inl x)
            | Inr (d', None) \<Rightarrow> (d', Inr code)
            | Inr (d', Some r) \<Rightarrow>
                if \<not> xw_auto_refund (am_world a) then (d', Inr code)
                else (case settle_refund a e d' n k r of (d'', Inl x) \<Rightarrow> (d'', Inl x) | (d'', Inr refund_code) \<Rightarrow> (d'', Inr code)))
      | (d, Inl x) \<Rightarrow> (d, Inl x))"

definition execute_automatic_modification ::
    "automation \<Rightarrow> env \<Rightarrow> db \<Rightarrow> nat \<Rightarrow> nat \<Rightarrow> modification_type \<Rightarrow> rat option \<Rightarrow> bool \<Rightarrow> db \<times> string res" where
  "execute_automatic_modification a e d n k kind approved owner =
     (if \<not> (xw_automatic (am_world a) \<or> (kind = CancelReservation \<and> xw_auto_cancel (am_world a)) \<or> owner)
      then leave_to_administration d n k
      else case approve_change a e d n k approved owner of
        Inl x \<Rightarrow> (d, Inl x)
      | Inr (d1, Inl code) \<Rightarrow> (d1, Inr code)
      | Inr (d1, Inr (b, m)) \<Rightarrow>
          if orphaned b m then refund_orphan a e d1 n k approved
          else after_execution a e n k approved (execute_change (am_world a) (am_writes a) e (am_client a) d1 b m))"

subsection \<open>What an approval needs\<close>

lemma next_blocker_clear: "next_blocker r s = Inr [] \<longleftrightarrow> r = Inr [] \<and> s = Inr []"
  by (cases r) (auto simp: next_blocker_def)

lemma approve_change_cases:
  assumes "approve_change a e d n k approved owner = Inr (d', r)"
  obtains code where "d' = d" "r = Inl code"
  | b m where "get_booking d n = Some b" "find_change b k = Some m" "approval_blocker a e d b m approved owner = Inr []"
      "d' = put_booking d (put_change b (approved_change e m))" "r = Inr (put_change b (approved_change e m), approved_change e m)"
  using assms
  by (auto simp: approve_change_def with_change_Inr bindE_Inr_iff Let_def split: if_splits)

lemma approved_change_fields: "mo_id (approved_change e m) = mo_id m" "tries (approved_change e m) = tries m"
    "mo_type (approved_change e m) = mo_type m" "mo_completed (approved_change e m) \<Longrightarrow> mo_completed m"
  by (auto simp: approved_change_def tries_def split: if_splits)

lemma paid_difference_Some:
  assumes "paid_difference b m = Some p"
  shows "p \<in> set (intent_payments b)" "pa_modification p = Some (mo_id m)" "pa_status p = PaSucceeded"
    "Some (pa_amount p) = mo_payment_sar m" "pa_currency p = payment_currency" "pa_verified_at p \<noteq> None"
proof -
  define ps where "ps = filter (\<lambda>p. pa_modification p = Some (mo_id m) \<and> pa_status p = PaSucceeded
            \<and> Some (pa_amount p) = mo_payment_sar m \<and> pa_currency p = payment_currency \<and> pa_verified_at p \<noteq> None)
          (intent_payments b)"
  have "paid_difference b m = (if ps = [] then None else Some (last ps))" unfolding paid_difference_def ps_def Let_def ..
  then have "ps \<noteq> []" "p = last ps" using assms by (auto split: if_splits)
  then have "p \<in> set ps" by simp
  then show "p \<in> set (intent_payments b)" "pa_modification p = Some (mo_id m)" "pa_status p = PaSucceeded"
    "Some (pa_amount p) = mo_payment_sar m" "pa_currency p = payment_currency" "pa_verified_at p \<noteq> None"
    by (simp_all add: ps_def)
qed

lemma funding_paid:
  assumes "approval_blocker a e d b m approved False = Inr []" and "mo_type m \<noteq> CancelReservation" and "0 < mo_difference m"
  obtains p where "paid_difference b m = Some p" "\<not> (pa_provider p = ''hyperpay'' \<and> gs_environment (am_gateway a) = ''test'')"
proof -
  have "funding_blocker a e d b m approved False = Inr []" using assms(1) by (simp add: approval_blocker_def next_blocker_clear)
  then show ?thesis using assms(2,3) that by (auto simp: funding_blocker_def split: option.splits if_splits)
qed

lemma tried_put_same:
  assumes "get_booking d n = Some b" and "find_change b k = Some m" and "mo_id m' = k" and "tries m' = tries m"
  shows "tried (put_booking d (put_change b m')) (n, k) = tried d (n, k)"
proof -
  have "get_booking (put_booking d (put_change b m')) n = Some (put_change b m')"
    using booking_table.get_put_same [of d "put_change b m'" b] booking_table.get_key [OF assms(1)] assms(1) by simp
  moreover have "find_change (put_change b m') k = Some m'" using find_put_change [of b m' m k] assms(2,3) by simp
  ultimately show ?thesis using assms by (simp add: tried_def)
qed

lemma leave_to_administration_tried:
  assumes "leave_to_administration d n k = (d', x)"
  shows "tried d' (n, k) = tried d (n, k)"
proof (cases "with_change d n k (\<lambda>b m. Inr (
             if mo_status m = ChAwaitingPayment \<and> paid_difference b m \<noteq> None
             then put_booking d (put_change b (m \<lparr> mo_status := ChAdminApproval \<rparr>)) else d))")
  case (Inl y)
  then show ?thesis using assms by (simp add: leave_to_administration_def)
next
  case (Inr d1)
  then have "d' = d1" using assms by (simp add: leave_to_administration_def)
  moreover obtain b m where "get_booking d n = Some b" "find_change b k = Some m"
    "d1 = (if mo_status m = ChAwaitingPayment \<and> paid_difference b m \<noteq> None
             then put_booking d (put_change b (m \<lparr> mo_status := ChAdminApproval \<rparr>)) else d)"
    using Inr by (auto simp: with_change_Inr)
  ultimately show ?thesis
    using tried_put_same [of d n b k m "m \<lparr> mo_status := ChAdminApproval \<rparr>"] find_change_id by (simp add: tries_def)
qed

text \<open>C14: an increase of the price is carried out only when it has been paid. When a call of the
  automatic execution makes the first attempt to write a change that costs more, and it is not the
  owner's own decision, then the reservation has a succeeded and verified payment attempt for this very
  request, in SAR and of exactly its amount, which is not a test payment of the card gateway.\<close>

theorem increase_needs_payment:
  assumes "execute_automatic_modification a e d n k kind approved False = (d', x)"
    and "get_booking d n = Some b" and "find_change b k = Some m"
    and "mo_type m \<noteq> CancelReservation" and "0 < mo_difference m"
    and "\<not> tried d (n, k)" and "tried d' (n, k)"
  shows "\<exists>p \<in> set (intent_payments b). pa_modification p = Some k \<and> pa_status p = PaSucceeded
     \<and> Some (pa_amount p) = mo_payment_sar m \<and> pa_currency p = payment_currency \<and> pa_verified_at p \<noteq> None
     \<and> \<not> (pa_provider p = ''hyperpay'' \<and> gs_environment (am_gateway a) = ''test'')"
proof (cases "xw_automatic (am_world a) \<or> kind = CancelReservation \<and> xw_auto_cancel (am_world a)")
  case False
  then have "leave_to_administration d n k = (d', x)" using assms(1) by (auto simp: execute_automatic_modification_def split: if_splits)
  then show ?thesis using leave_to_administration_tried assms(6,7) by blast
next
  case True
  obtain d1 r where approve: "approve_change a e d n k approved False = Inr (d1, r)"
    using assms(1,6,7) True by (cases "approve_change a e d n k approved False") (auto simp: execute_automatic_modification_def)
  then show ?thesis
  proof (cases rule: approve_change_cases)
    case (1 code)
    then show ?thesis using assms(1,6,7) True approve by (auto simp: execute_automatic_modification_def)
  next
    case (2 b2 m2)
    then have same: "b2 = b" "m2 = m" using assms(2,3) by simp_all
    obtain p where p: "paid_difference b m = Some p" "\<not> (pa_provider p = ''hyperpay'' \<and> gs_environment (am_gateway a) = ''test'')"
      using funding_paid 2(3) assms(4,5) unfolding same by blast
    show ?thesis
      using paid_difference_Some [OF p(1)] p(2) find_change_id [OF assms(3)] by blast
  qed
qed

subsection \<open>A refund the gateway has accepted\<close>

lemma booking_row_found:
  assumes "refunds_ok d" and "b \<in> set (db_bookings d)"
  shows "get_booking d (bk_id b) = Some b"
  unfolding get_booking_def row_get_def
  by (rule find_unique) (use assms in \<open>auto simp: refunds_ok_def keys_of_def distinct_map inj_on_def\<close>)

lemma found_in_booking:
  assumes "refunds_ok d" and "find_refund d k = Some (b, r)"
  shows "get_booking d (bk_id b) = Some b" "row_get ob_id (bk_refunds b) k = Some r"
  using booking_row_found [OF assms(1)] find_refund_Some [OF assms(2)] by simp_all

text \<open>A row whose requests are those of another one, with the debt \<open>r\<close> under \<open>k\<close> in a later state.\<close>

definition refund_moved :: "booking \<Rightarrow> nat \<Rightarrow> obligation \<Rightarrow> booking \<Rightarrow> bool" where
  "refund_moved b k r b' = (bk_modifications b' = bk_modifications b \<and> bk_id b' = bk_id b
     \<and> (\<exists>r'. row_get ob_id (bk_refunds b') k = Some r' \<and> ob_status r' \<in> {RefundProcessing, RefundTransferred}
          \<and> ob_modification r' = ob_modification r \<and> ob_reason r' = ob_reason r \<and> ob_amount r' = ob_amount r))"

lemma with_payment_status_more [simp]: "bk_modifications (with_payment_status b j st) = bk_modifications b"
  by (simp add: with_payment_status_def split: option.splits)

lemma with_refund_more [simp]: "bk_modifications (with_refund b r) = bk_modifications b"
  by (simp add: with_refund_def)

lemma submit_refund_accepted:
  assumes ok: "refunds_ok d" and r: "find_refund d k = Some (b, r)"
    and run: "submit_refund g e d k answer = (d', Inr code)" and code: "code \<in> {''refund.hyperpay_completed'', ''refund.hyperpay_submitted''}"
  obtains b' where "get_booking d' (bk_id b) = Some b'" "refund_moved b k r b'" "0 < ob_amount r"
proof -
  obtain p sent where prep: "prepare_refund d k = Inr (b, r, p)"
    and conc: "conclude_refund e (put_refund d b (submitted r p)) k p (client_request g answer) = (d', Inr code)"
  proof -
    obtain b1 r1 p where prep: "prepare_refund d k = Inr (b1, r1, p)"
      using run by (cases "prepare_refund d k") (auto simp: submit_refund_def split: if_splits)
    moreover have "b1 = b" "r1 = r" using prepare_refund_Inr [OF prep] r by (metis Pair_inject option.inject)+
    ultimately have prep: "prepare_refund d k = Inr (b, r, p)" by simp
    then have "conclude_refund e (put_refund d b (submitted r p)) k p (client_request g answer) = (d', Inr code)"
      using run by (auto simp: submit_refund_def split: if_splits sum.splits exc.splits)
    then show thesis using that prep by blast
  qed
  have pos: "0 < ob_amount r" using prepare_refund_Inr [OF prep] r by (metis Pair_inject option.inject)
  let ?d = "put_refund d b (submitted r p)"
  let ?b = "with_refund b (submitted r p)"
  note F = find_refund_Some [OF r]
  have id: "ob_id (submitted r p) = k" using F(3) by (simp add: submitted_def)
  have found: "find_refund ?d k = Some (?b, submitted r p)" by (rule find_refund_put [OF ok r id])
  have ok': "refunds_ok ?d" by (rule submitted_ok [OF ok prep])
  have row: "get_booking ?d (bk_id b) = Some ?b" using found_in_booking(1) [OF ok' found] by simp
  have moved: "refund_moved b k r (with_refund ?b r')"
    if "ob_id r' = k" "ob_status r' \<in> {RefundProcessing, RefundTransferred}" "ob_modification r' = ob_modification r"
      "ob_reason r' = ob_reason r" "ob_amount r' = ob_amount r" for r'
  proof -
    have "row_get ob_id (bk_refunds (with_refund ?b r')) k = Some r'"
      using row_get_put_same [of ob_id "bk_refunds ?b" r' "submitted r p"] found_in_booking(2) [OF ok' found] that(1) by simp
    then show ?thesis using that by (simp add: refund_moved_def)
  qed
  obtain doc where doc: "client_request g answer = Inr doc" "record_response e ?d k p doc = Inr (d', code)"
  proof (cases "client_request g answer")
    case (Inl x)
    then show thesis using conc by (cases x) (auto simp: conclude_refund_def settled_def split: sum.splits)
  next
    case (Inr doc)
    then show thesis using conc that by (auto simp: conclude_refund_def split: sum.splits)
  qed
  show thesis
  proof (cases "map_result_code (result_of doc ''code'')")
    case GwSuccess
    define r' where "r' = transferred (safe_text (dget doc ''id'') 255) (now e) (submitted r p)"
    obtain st where d': "d' = put_booking ?d (with_payment_status (with_refund ?b r') (pa_id p) st)"
      using doc(2) GwSuccess found by (auto simp: record_response_def of_option_def Let_def r'_def)
    have "refund_moved b k r (with_refund ?b r')"
      by (rule moved) (use F(3) in \<open>simp_all add: r'_def transferred_def submitted_def\<close>)
    then have "refund_moved b k r (with_payment_status (with_refund ?b r') (pa_id p) st)" by (simp add: refund_moved_def)
    moreover have "get_booking d' (bk_id b) = Some (with_payment_status (with_refund ?b r') (pa_id p) st)"
      using booking_table.get_put_same [of ?d "with_payment_status (with_refund ?b r') (pa_id p) st"] row d' by simp
    ultimately show thesis using that pos by blast
  next
    case GwPending
    define r' where "r' = (submitted r p) \<lparr> ob_state := Some ''provider_pending'' \<rparr>"
    have d': "d' = put_booking ?d (with_refund ?b r')"
      using doc(2) GwPending found by (auto simp: record_response_def of_option_def put_refund_def r'_def)
    have "refund_moved b k r (with_refund ?b r')" by (rule moved) (use F(3) in \<open>simp_all add: r'_def submitted_def\<close>)
    moreover have "get_booking d' (bk_id b) = Some (with_refund ?b r')"
      using booking_table.get_put_same [of ?d "with_refund ?b r'"] row d' by simp
    ultimately show thesis using that pos by blast
  qed (use doc(2) found code in \<open>auto simp: record_response_def of_option_def\<close>)
qed

text \<open>A refusal of the gateway never carries the code of an acceptance.\<close>

lemma client_request_refused:
  "client_request g x = Inl y \<Longrightarrow> y \<in> {HyperPayConnection ''hyperpay_unavailable'', TransportError ''protocol'',
     HyperPayAuthentication ''hyperpay_authentication_failed'', HyperPayResponse ''hyperpay_invalid_response'',
     HyperPayResponse ''hyperpay_request_rejected'', HyperPayConfiguration ''hyperpay_not_configured''}"
  by (auto simp: client_request_def request_def split: if_splits exchange.splits option.splits)

lemma update_refund_refused: "update_refund d k f = Inl x \<Longrightarrow> x = DoesNotExist ''refund''"
  by (auto simp: update_refund_def of_option_def bindE_Inl_iff split: option.splits)

lemma settled_refused: "settled d (update_refund d0 k f) x = (d', Inl y) \<Longrightarrow> y = x \<or> y = DoesNotExist ''refund''"
  by (auto simp: settled_def dest: update_refund_refused split: sum.splits)

lemma conclude_refund_refused:
  assumes "conclude_refund e d k p (client_request g x) = (d', Inl (HyperPayRefund code))"
  shows "code \<notin> {''refund.hyperpay_completed'', ''refund.hyperpay_submitted''}"
proof (cases "client_request g x")
  case (Inl y)
  then show ?thesis
    using assms client_request_refused [OF Inl]
    by (auto simp: conclude_refund_def mark_unknown_def restore_due_def dest!: settled_refused)
next
  case (Inr doc)
  then have "record_response e d k p doc = Inl (HyperPayRefund code)"
    using assms by (auto simp: conclude_refund_def split: sum.splits)
  then show ?thesis
    by (cases "map_result_code (result_of doc ''code'')")
      (auto simp: record_response_def of_option_def bindE_Inl_iff Let_def split: option.splits)
qed

lemma prepare_refund_refused:
  "prepare_refund d k = Inl (HyperPayRefund code) \<Longrightarrow> code \<notin> {''refund.hyperpay_completed'', ''refund.hyperpay_submitted''}"
  by (auto simp: prepare_refund_def of_option_def bindE_Inl_iff split: option.splits if_splits prod.splits sum.splits)

lemma format_refused: "format_hyperpay_amount g x = Inl y \<Longrightarrow> y \<noteq> HyperPayRefund code"
  by (auto simp: format_hyperpay_amount_def format_test_amount_def quantize_def Let_def bindE_Inl_iff split: if_splits)

lemma submit_refund_refused:
  assumes "submit_refund g e d k x = (d', Inl (HyperPayRefund code))"
  shows "code \<notin> {''refund.hyperpay_completed'', ''refund.hyperpay_submitted''}"
proof (cases "refunds_available g")
  case True
  show ?thesis
  proof (cases "prepare_refund d k")
    case (Inl y)
    then show ?thesis using assms True prepare_refund_refused by (auto simp: submit_refund_def)
  next
    case (Inr brp)
    obtain b r p where brp: "brp = (b, r, p)" by (cases brp)
    show ?thesis
    proof (cases "format_hyperpay_amount g (ob_amount r)")
      case (Inl y)
      then show ?thesis using assms True Inr brp Inl format_refused [OF Inl] by (cases y) (auto simp: submit_refund_def)
    next
      case inner: (Inr sent)
      then show ?thesis using assms True Inr brp conclude_refund_refused by (auto simp: submit_refund_def)
    qed
  qed
qed (use assms in \<open>auto simp: submit_refund_def\<close>)

text \<open>The reservation is closed: cancelled here, never created there, its request completed.\<close>

definition closed_orphan :: "booking \<Rightarrow> nat \<Rightarrow> bool" where
  "closed_orphan b k = (bk_status b = Cancelled \<and> bk_remote_status b = ''not_created''
     \<and> (\<exists>m. find_change b k = Some m \<and> mo_completed m))"

lemma closed_locally_fields: "bk_id (closed_locally e b) = bk_id b" "bk_modifications (closed_locally e b) = bk_modifications b"
    "bk_refunds (closed_locally e b) = bk_refunds b" "bk_status (closed_locally e b) = Cancelled"
    "bk_remote_status (closed_locally e b) = ''not_created''"
  by (simp_all add: closed_locally_def)

lemma clean_remote_status: "clean_booking d b0 = Inr b \<Longrightarrow> bk_remote_status b = bk_remote_status b0"
  by (auto simp: clean_booking_def Let_def split: if_splits)

lemma put_change_remote_status [simp]: "bk_remote_status (put_change b m) = bk_remote_status b"
  by (simp add: put_change_def)

lemma complete_local_closes:
  assumes "complete_local_cancellation e d n k = Inr d'" and b: "get_booking d n = Some b" and m: "find_change b k = Some m"
    and "\<not> mo_completed m"
  obtains b' where "get_booking d' n = Some b'" "closed_orphan b' k" "bk_refunds b' = bk_refunds b"
proof -
  obtain c where c: "clean_booking d (closed_locally e b) = Inr c" "d' = put_booking d (put_change c (closed_change e m))"
    using assms by (auto simp: complete_local_cancellation_def with_change_Inr bindE_Inr_iff)
  have same: "bk_id c = n" "bk_modifications c = bk_modifications b" "bk_refunds c = bk_refunds b" "bk_status c = Cancelled"
    "bk_remote_status c = ''not_created''"
    using clean_booking_row [OF c(1)] clean_booking_more [OF c(1)] clean_remote_status [OF c(1)] booking_table.get_key [OF b]
    by (simp_all add: closed_locally_fields)
  have "find_change c k = Some m" using m same(2) by (simp add: find_change_def)
  then have "find_change (put_change c (closed_change e m)) k = Some (closed_change e m)"
    using find_put_change [of c "closed_change e m" m k] find_change_id [OF m] by (simp add: closed_change_def)
  moreover have "mo_completed (closed_change e m)" by (simp add: closed_change_def)
  ultimately have "closed_orphan (put_change c (closed_change e m)) k" using same by (auto simp: closed_orphan_def)
  moreover have "get_booking d' n = Some (put_change c (closed_change e m))"
    using booking_table.get_put_same [of d "put_change c (closed_change e m)" b] b same(1) c(2) by simp
  moreover have "bk_refunds (put_change c (closed_change e m)) = bk_refunds b" using same(3) by simp
  ultimately show ?thesis using that by blast
qed

text \<open>Every debt is found by its number.\<close>

definition refunds_identified :: "db \<Rightarrow> bool" where
  "refunds_identified d = (\<forall>b \<in> set (db_bookings d). \<forall>r \<in> set (bk_refunds b). find_refund d (ob_id r) = Some (b, r))"

lemma last_matching_Some: "last_matching P xs = Some x \<Longrightarrow> x \<in> set xs \<and> P x"
  by (auto simp: last_matching_def dest: find_Some_in)

text \<open>The debt of an orphan: the one that is there, or a new one over the computed amount.\<close>

definition orphan_row :: "booking \<Rightarrow> nat \<Rightarrow> computation \<Rightarrow> obligation \<Rightarrow> bool" where
  "orphan_row b k c r = (ob_modification r = Some k \<and> ob_reason r = ''cancellation'' \<and> (r \<in> set (bk_refunds b) \<or> ob_amount r = cm_amount c))"

lemma orphan_debt_found:
  assumes ok: "refunds_ok d" and known: "refunds_identified d" and b: "get_booking d n = Some b" and pos: "0 < cm_amount c"
    and run: "orphan_debt d n k b c = Inr (d1, Some r)"
  obtains b1 where "refunds_ok d1" "get_booking d1 n = Some b1" "find_refund d1 (ob_id r) = Some (b1, r)"
    "bk_modifications b1 = bk_modifications b" "orphan_row b k c r"
proof (cases "last_matching (\<lambda>r. ob_modification r = Some k \<and> ob_reason r = ''cancellation'') (bk_refunds b)")
  case (Some x)
  then have x: "d1 = d" "x = r" "r \<in> set (bk_refunds b)" "ob_modification r = Some k" "ob_reason r = ''cancellation''"
    using run last_matching_Some [OF Some] by (auto simp: orphan_debt_def)
  have "b \<in> set (db_bookings d)" using b by (auto simp: get_booking_def dest: row_get_mem)
  then show ?thesis using that [of b] ok known b x by (simp add: refunds_identified_def orphan_row_def)
next
  case None
  then have rec: "record_obligation d n ''cancellation'' (c \<lparr> cm_source := ''orphaned_local_paid_reservation'' \<rparr>) (Some k) = Inr (d1, Some r)"
    using run by (simp add: orphan_debt_def)
  define b1 where "b1 = b \<lparr> bk_refunds := bk_refunds b @ [r] \<rparr>"
  have r: "r = due_obligation (next_obligation d) ''cancellation'' (noted_on b (c \<lparr> cm_source := ''orphaned_local_paid_reservation'' \<rparr>)) (Some k)"
    and d1: "d1 = put_booking d b1"
    using rec pos b by (auto simp: record_obligation_def bindE_Inr_iff Let_def b1_def split: if_splits)
  have id: "ob_id r = next_obligation d" "bk_id b1 = n" using booking_table.get_key [OF b] by (simp_all add: r due_obligation_def b1_def)
  have ok1: "refunds_ok d1" by (rule record_obligation_ok [OF ok rec])
  have row: "get_booking d1 n = Some b1" using booking_table.get_put_same [of d b1 b] b id(2) d1 by simp
  have fresh: "row_get ob_id (bk_refunds x) (ob_id r) = None" if "x \<in> set (db_bookings d)" for x
  proof (rule ccontr)
    assume "row_get ob_id (bk_refunds x) (ob_id r) \<noteq> None"
    then obtain y where y: "row_get ob_id (bk_refunds x) (ob_id r) = Some y" by blast
    then have "y \<in> set (bk_refunds x)" "ob_id y = next_obligation d" using row_get_mem row_get_key id(1) by fastforce+
    then show False using next_obligation_fresh [OF that] by fastforce
  qed
  have mem: "b \<in> set (db_bookings d)" using b by (auto simp: get_booking_def dest: row_get_mem)
  have last_row: "row_get ob_id (bk_refunds b1) (ob_id r) = Some r"
    using row_get_append [OF fresh [OF mem] refl] by (simp add: b1_def)
  have "find (\<lambda>x. row_get ob_id (bk_refunds x) (ob_id r) \<noteq> None) (db_bookings d1) = Some b1"
  proof (rule find_unique)
    show "b1 \<in> set (db_bookings d1)" using row by (auto simp: get_booking_def dest: row_get_mem)
    show "row_get ob_id (bk_refunds b1) (ob_id r) \<noteq> None" using last_row by simp
    fix y assume y: "y \<in> set (db_bookings d1)" "row_get ob_id (bk_refunds y) (ob_id r) \<noteq> None"
    then have "y = b1 \<or> y \<in> set (db_bookings d)" by (auto simp: d1 put_booking_def row_put_def split: if_splits)
    then show "y = b1" using fresh y(2) by auto
  qed
  then have "find_refund d1 (ob_id r) = Some (b1, r)" using last_row by (simp add: find_refund_def)
  moreover have "orphan_row b k c r" by (simp add: orphan_row_def r due_obligation_def noted_on_def)
  ultimately show ?thesis using that [of b1] ok1 row by (simp add: b1_def)
qed

lemma prepare_orphan_cases:
  assumes "prepare_orphan a e d n k approved = Inr (d', y)"
  obtains code where "y = Inl code" "code \<noteq> ''orphaned_refunded''"
  | b m c d1 r where "get_booking d n = Some b" "find_change b k = Some m" "\<not> mo_completed m" "orphaned b m"
      "\<not> connector_test b" "cancellation_money a e d b = Inr c" "0 < cm_amount c" "approved = None \<or> approved = Some (cm_amount c)"
      "orphan_debt d n k b c = Inr (d1, Some r)"
      "(ob_status r = RefundTransferred \<and> complete_local_cancellation e d1 n k = Inr d' \<and> y = Inl ''orphaned_refunded'')
       \<or> (d' = d1 \<and> y = Inr r)"
proof -
  obtain b m where bm: "get_booking d n = Some b" "find_change b k = Some m"
    using assms by (auto simp: prepare_orphan_def with_change_Inr)
  show thesis
  proof (cases "mo_completed m \<or> \<not> orphaned b m \<or> connector_test b")
    case True
    then show thesis using assms bm that(1)
      by (auto simp: prepare_orphan_def with_change_def of_option_def bindE_Inr_iff split: if_splits)
  next
    case False
    then obtain c where c: "cancellation_money a e d b = Inr c"
      using assms bm by (auto simp: prepare_orphan_def with_change_def of_option_def bindE_Inr_iff split: if_splits)
    show thesis
    proof (cases "cm_amount c \<le> 0 \<or> (approved \<noteq> None \<and> approved \<noteq> Some (cm_amount c))")
      case True
      then show thesis using assms bm c False that(1)
        by (auto simp: prepare_orphan_def with_change_def of_option_def split: if_splits)
    next
      case inner: False
      then obtain d1 row where row: "orphan_debt d n k b c = Inr (d1, row)"
        using assms bm c False by (auto simp: prepare_orphan_def with_change_def of_option_def bindE_Inr_iff)
      show thesis
      proof (cases row)
        case None
        then show thesis using assms bm c False inner row that(1)
          by (auto simp: prepare_orphan_def with_change_def of_option_def split: if_splits)
      next
        case (Some r)
        show thesis
        proof (cases "ob_status r = RefundProcessing")
          case True
          then show thesis using assms bm c False inner row Some that(1)
            by (auto simp: prepare_orphan_def with_change_def of_option_def split: if_splits)
        next
          case st: False
          show thesis
            by (rule that(2) [OF bm _ _ _ c _ _ row [unfolded Some]])
              (use assms bm c False inner row Some st in
                \<open>auto simp: prepare_orphan_def with_change_def of_option_def bindE_Inr_iff split: if_splits\<close>)
        qed
      qed
    qed
  qed
qed


subsection \<open>Sample calls\<close>

definition sample_automation :: automation where
  "sample_automation = \<lparr> am_world = sample_changes \<lparr> xw_unit := (\<lambda>n. Some \<lparr> ap_rental = sample_rental, ap_listing = moderate_listing,
       ap_clock = \<lparr> ck_country = ''SA'', ck_zone = ''UTC'', ck_display_out = None, ck_out = None \<rparr> \<rparr>) \<rparr>,
     am_writes = sample_writes, am_gateway = live_gateway,
     am_client = \<lparr> wc_cancel = (\<lambda>n. Inr cancelled_snapshot), wc_update = (\<lambda>n r x. Inl (HostawayServer ''down'')) \<rparr>,
     am_refund = (\<lambda>n. accepted_refund) \<rparr>"

definition orphan_booking :: booking where
  "orphan_booking = leaving_booking \<lparr> bk_status := ReadyForHostaway, bk_remote := None, bk_operation := None, bk_confirmed_at := None \<rparr>"

definition orphan_db :: db where
  "orphan_db = sample_db \<lparr> db_bookings := [orphan_booking] \<rparr>"

definition half_share :: computation where
  "half_share = (no_refund ''SAR'' []) \<lparr> cm_amount := 500, cm_tier := Some 1 \<rparr>"

lemma half_amount [simp]: "cm_amount half_share = 500"
  by (simp add: half_share_def)

definition half_debt :: obligation where
  "half_debt = due_obligation 1 ''cancellation'' (half_share \<lparr> cm_source := ''orphaned_local_paid_reservation'' \<rparr>) (Some 8)"

definition indebted_db :: db where
  "indebted_db = put_booking orphan_db (orphan_booking \<lparr> bk_refunds := [half_debt] \<rparr>)"

lemma orphan_facts: "get_booking orphan_db 70 = Some orphan_booking" "bk_id orphan_booking = 70" "bk_refunds orphan_booking = []"
    "find_change orphan_booking 8 = Some sample_cancellation" "orphaned orphan_booking sample_cancellation"
    "\<not> mo_completed sample_cancellation" "bk_currency orphan_booking = ''SAR''" "bk_offline orphan_booking = None"
  by (simp_all add: get_booking_def row_get_def orphan_db_def orphan_booking_def leaving_defs find_change_def sample_cancellation_def
      orphaned_def)

lemma orphan_real: "\<not> connector_test orphan_booking"
  by code_simp

lemma orphan_half: "cancellation_money sample_automation stopped_env orphan_db orphan_booking
    = Inr half_share"
proof -
  have o: "successful_original_payment_amount orphan_booking = Some 1000"
    by (simp add: successful_original_payment_amount_def original_balance_def original_payment_def
        latest_payment_def in_flight_def orphan_booking_def leaving_defs)
  have "bk_check_in orphan_booking = 719163" "bk_total orphan_booking = 1000" "now stopped_env = 1000"
    by (simp_all add: orphan_booking_def leaving_defs stopped_env_def sample_env_def)
  then show ?thesis
    using half_refund_of [OF o, of 1000 orphan_db] orphan_facts(7)
    by (simp add: cancellation_money_def am_listing_def sample_automation_def sample_changes_def half_share_def)
qed

lemma orphan_owed: "orphan_debt orphan_db 70 8 orphan_booking half_share
    = Inr (indebted_db, Some half_debt)"
proof -
  have "next_obligation orphan_db = 1" by code_simp
  then show ?thesis
    by (simp add: orphan_debt_def last_matching_def record_obligation_def of_option_def orphan_facts indebted_db_def half_debt_def
        noted_on_def Let_def)
qed

lemma orphan_refundable: "xw_auto_refund (am_world sample_automation)"
  by (simp add: sample_automation_def sample_changes_def)

lemma orphan_prepared: "prepare_orphan sample_automation stopped_env orphan_db 70 8 None = Inr (indebted_db, Inr half_debt)"
proof -
  have "ob_status half_debt = RefundDue" by (simp add: half_debt_def due_obligation_def)
  then show ?thesis
    by (simp add: prepare_orphan_def with_change_def of_option_def orphan_facts orphan_real orphan_half orphan_owed)
qed

definition repaid_db :: db where
  "repaid_db = fst (submit_automatic_refund sample_automation stopped_env indebted_db 70 half_debt)"

lemma orphan_repaid: "submit_automatic_refund sample_automation stopped_env indebted_db 70 half_debt
    = (repaid_db, Inr ''refund.hyperpay_completed'')"
proof -
  have "snd (submit_automatic_refund sample_automation stopped_env indebted_db 70 half_debt) = Inr ''refund.hyperpay_completed''"
    by code_simp
  then show ?thesis by (simp add: repaid_db_def prod_eq_iff)
qed

lemma orphan_closed: "\<exists>d'. complete_local_cancellation stopped_env repaid_db 70 8 = Inr d'"
proof -
  have "case complete_local_cancellation stopped_env repaid_db 70 8 of Inl x \<Rightarrow> False | Inr d' \<Rightarrow> True" by code_simp
  then show ?thesis by (auto split: sum.splits)
qed

lemma orphan_refunded: "\<exists>d'. refund_orphan sample_automation stopped_env orphan_db 70 8 None = (d', Inr ''orphaned_refunded'')"
proof -
  show ?thesis using orphan_closed orphan_refundable by (auto simp: refund_orphan_def orphan_prepared orphan_repaid)
qed

lemma orphan_ok: "refunds_ok orphan_db" "refunds_identified orphan_db"
  by (simp_all add: refunds_ok_def orphan_db_def sample_db_def keys_of_def booking_refunds_ok_def references_unique_def
      taken_def drawn_def orphan_booking_def leaving_defs refunds_identified_def)


text \<open>The full return of a paid reservation that never reached the channel manager is not full. The code
  refuses every other amount than the computed one because such a charge must be returned
  entirely, but the computed amount is that of the policy of the listing for a stay: with a tier of
  half the price, a guest who paid 1000 for a reservation that was never created gets 500 and the
  case is closed, and the owner's decision to return the 1000 is refused.\<close>

lemma orphan_refunded_in_part:
  "(\<exists>p \<in> set (intent_payments orphan_booking). pa_status p = PaSucceeded \<and> pa_amount p = 1000)
     \<and> (\<exists>d' b'. refund_orphan sample_automation stopped_env orphan_db 70 8 None = (d', Inr ''orphaned_refunded'')
          \<and> get_booking d' 70 = Some b' \<and> bk_status b' = Cancelled \<and> map ob_amount (bk_refunds b') = [500])
     \<and> refund_orphan sample_automation stopped_env orphan_db 70 8 (Some 1000) = (orphan_db, Inr ''orphaned_refund_must_be_full'')"
proof (intro conjI)
  show "\<exists>p \<in> set (intent_payments orphan_booking). pa_status p = PaSucceeded \<and> pa_amount p = 1000"
    by (simp add: intent_payments_def orphan_booking_def leaving_defs)
  show "refund_orphan sample_automation stopped_env orphan_db 70 8 (Some 1000) = (orphan_db, Inr ''orphaned_refund_must_be_full'')"
    by (simp add: refund_orphan_def orphan_refundable prepare_orphan_def with_change_def of_option_def orphan_facts orphan_real orphan_half)
  obtain d' where run: "refund_orphan sample_automation stopped_env orphan_db 70 8 None = (d', Inr ''orphaned_refunded'')"
    and closed: "complete_local_cancellation stopped_env repaid_db 70 8 = Inr d'"
    using orphan_refunded orphan_closed by (auto simp: refund_orphan_def orphan_prepared orphan_repaid split: if_splits)
  have "case get_booking repaid_db 70 of None \<Rightarrow> False | Some b \<Rightarrow> map ob_amount (bk_refunds b) = [500]
      \<and> (case find_change b 8 of None \<Rightarrow> False | Some m \<Rightarrow> \<not> mo_completed m)" by code_simp
  then obtain b m where b: "get_booking repaid_db 70 = Some b" "map ob_amount (bk_refunds b) = [500]" "find_change b 8 = Some m" "\<not> mo_completed m"
    by (auto split: option.splits)
  obtain b' where b': "get_booking d' 70 = Some b'" "closed_orphan b' 8" "bk_refunds b' = bk_refunds b"
    using complete_local_closes [OF closed b(1,3,4)] .
  then show "\<exists>d' b'. refund_orphan sample_automation stopped_env orphan_db 70 8 None = (d', Inr ''orphaned_refunded'')
          \<and> get_booking d' 70 = Some b' \<and> bk_status b' = Cancelled \<and> map ob_amount (bk_refunds b') = [500]"
    using run b(2) by (auto simp: closed_orphan_def)
qed

subsection \<open>A paid extension\<close>

definition difference_payment :: payment where
  "difference_payment = card_payment \<lparr> pa_id := 91, pa_provider_id := Some ''x2'', pa_amount := 200, pa_modification := Some 9, pa_key := ''k91'' \<rparr>"

definition longer_change :: modification where
  "longer_change = sample_cancellation \<lparr> mo_id := 9, mo_type := ChangeDates, mo_status := ChAwaitingPayment, mo_new_check_in := Some 719163,
     mo_new_check_out := Some 719166, mo_new_guests := Some 2, mo_new_total := Some 1200, mo_difference := 200,
     mo_payment_sar := Some 200, mo_approved_at := None \<rparr>"

definition longer_booking :: booking where
  "longer_booking = paid_booking \<lparr> bk_intent := Some (sample_intent \<lparr> in_payments := [card_payment, difference_payment] \<rparr>),
     bk_modifications := [longer_change] \<rparr>"

definition longer_db :: db where
  "longer_db = sample_db \<lparr> db_bookings := [longer_booking] \<rparr>"

definition approved_row :: booking where
  "approved_row = put_change longer_booking (approved_change sample_env longer_change)"

lemma longer_found: "get_booking longer_db 70 = Some longer_booking" "find_change longer_booking 9 = Some longer_change"
    "mo_type longer_change \<noteq> CancelReservation" "0 < mo_difference longer_change" "\<not> tried longer_db (70, 9)"
  by (simp_all add: get_booking_def row_get_def longer_db_def longer_booking_def paid_booking_def sample_booking_def find_change_def
      longer_change_def sample_cancellation_def tried_def tries_def)

lemma longer_approved: "approve_change sample_automation sample_env longer_db 70 9 None False
    = Inr (put_booking longer_db approved_row, Inr (approved_row, approved_change sample_env longer_change))"
proof -
  have "approval_blocker sample_automation sample_env longer_db longer_booking longer_change None False = Inr []" by code_simp
  then show ?thesis by (simp add: approve_change_def with_change_def of_option_def longer_found approved_row_def Let_def)
qed

lemma longer_sent:
  "\<exists>d' x. execute_automatic_modification sample_automation sample_env longer_db 70 9 ChangeDates None False = (d', x) \<and> tried d' (70, 9)"
proof -
  let ?d = "put_booking longer_db approved_row"
  let ?m = "approved_change sample_env longer_change"
  have ids: "bk_id approved_row = 70" "mo_id ?m = 9"
    by (simp_all add: approved_row_def longer_booking_def paid_booking_def sample_booking_def put_change_def
        approved_change_def longer_change_def)
  have row: "get_booking ?d 70 = Some approved_row"
    using booking_table.get_put_same [of longer_db approved_row longer_booking] longer_found(1) ids(1) by simp
  have change: "find_change approved_row 9 = Some ?m"
    using find_put_change [of longer_booking ?m longer_change 9] longer_found(2) ids(2) by (simp add: approved_row_def)
  have planned: "plan_execution (am_world sample_automation) sample_writes sample_env ?d approved_row ?m = Inr []" by code_simp
  have sendable: "case prepare_change (am_world sample_automation) sample_writes sample_env ?d approved_row ?m ''fp'' of
      Inl x \<Rightarrow> False | Inr (m', sendable) \<Rightarrow> sendable" by code_simp
  then obtain m' where m': "prepare_change (am_world sample_automation) sample_writes sample_env ?d approved_row ?m ''fp'' = Inr (m', True)"
    by (auto split: sum.splits)
  let ?k = "\<lparr> xk_booking = approved_row, xk_change = ?m \<rparr>"
  have sent: "commit_change (am_world sample_automation) sample_writes sample_env ?d approved_row ?m = (put_booking ?d (put_change approved_row m'), Inr (Inr ?k))"
    using m' ids row change by (simp add: commit_change_def sample_writes_def)
  have tried: "tried (put_booking ?d (put_change approved_row m')) (70, 9)"
    using commit_change_kept(2) [OF sent refl] ids by simp
  obtain d2 x where done_call: "conclude_change sample_env (put_booking ?d (put_change approved_row m')) ?k
      (change_reply (am_client sample_automation) ?k) = (d2, x)" by (cases "conclude_change sample_env (put_booking ?d (put_change approved_row m')) ?k
      (change_reply (am_client sample_automation) ?k)")
  have "tried d2 (70, 9)" using conclude_change_kept [OF done_call] tried by (simp add: db_kept_def)
  moreover have "x \<noteq> Inr ''completed''"
  proof -
    have "change_reply (am_client sample_automation) ?k = Inl (ValueError ''price_components_missing'')" by code_simp
    then have "conclude_change sample_env (put_booking ?d (put_change approved_row m')) ?k
        (change_reply (am_client sample_automation) ?k) = finish_change sample_env (put_booking ?d (put_change approved_row m')) 70 9
          ChFailed OpFailed ''hostaway_modification_rejected''"
      using ids by (simp add: conclude_change_def Let_def)
    then show ?thesis using done_call by (auto simp: finish_change_def split: sum.splits)
  qed
  moreover have "xw_automatic (am_world sample_automation)" "am_writes sample_automation = sample_writes" "\<not> orphaned approved_row ?m"
    by (simp_all add: sample_automation_def sample_changes_def orphaned_def approved_change_def longer_change_def)
  ultimately show ?thesis
    by (auto simp: execute_automatic_modification_def longer_approved execute_change_def planned sent done_call after_execution_def
        split: sum.splits if_splits)
qed

theorem increase_needs_payment_witness:
  "\<exists>d' x. execute_automatic_modification sample_automation sample_env longer_db 70 9 ChangeDates None False = (d', x) \<and> tried d' (70, 9)
     \<and> (\<exists>p \<in> set (intent_payments longer_booking). pa_modification p = Some 9 \<and> pa_verified_at p \<noteq> None)"
proof -
  obtain d' x where run: "execute_automatic_modification sample_automation sample_env longer_db 70 9 ChangeDates None False = (d', x)"
    "tried d' (70, 9)"
    using longer_sent by blast
  show ?thesis using increase_needs_payment [OF run(1) longer_found(1,2,3,4,5) run(2)] run by blast
qed

end
