(* ===== verification/GatewayPayments.thy ===== *)
theory GatewayPayments
  imports Channel
begin

section \<open>Card payments of bookings (apps/payments/hyperpay/service.py, apps/payments/countries.py)\<close>

text \<open>
  The checkout of an intent and the verification of its payment, up to the reservation at the
  channel manager. The provider is a parameter: what it answers to a checkout and to the reading of
  a payment. The completion of attempts that belong to a payment link or to a change of a stay is
  not modelled: two parameters stand for it. The wallet, the description and the provider
  reference of an attempt are only stored and are left out.
\<close>

subsection \<open>Countries\<close>

definition country_codes :: "string list" where
  "country_codes =
     [''AD'', ''AE'', ''AF'', ''AG'', ''AI'', ''AL'', ''AM'', ''AO'', ''AQ'', ''AR'', ''AS'', ''AT'', ''AU'', ''AW'', ''AX'', ''AZ'',
      ''BA'', ''BB'', ''BD'', ''BE'', ''BF'', ''BG'', ''BH'', ''BI'', ''BJ'', ''BL'', ''BM'', ''BN'', ''BO'', ''BQ'', ''BR'', ''BS'',
      ''BT'', ''BV'', ''BW'', ''BY'', ''BZ'', ''CA'', ''CC'', ''CD'', ''CF'', ''CG'', ''CH'', ''CI'', ''CK'', ''CL'', ''CM'', ''CN'',
      ''CO'', ''CR'', ''CU'', ''CV'', ''CW'', ''CX'', ''CY'', ''CZ'', ''DE'', ''DJ'', ''DK'', ''DM'', ''DO'', ''DZ'', ''EC'', ''EE'',
      ''EG'', ''EH'', ''ER'', ''ES'', ''ET'', ''FI'', ''FJ'', ''FK'', ''FM'', ''FO'', ''FR'', ''GA'', ''GB'', ''GD'', ''GE'', ''GF'',
      ''GG'', ''GH'', ''GI'', ''GL'', ''GM'', ''GN'', ''GP'', ''GQ'', ''GR'', ''GS'', ''GT'', ''GU'', ''GW'', ''GY'', ''HK'', ''HM'',
      ''HN'', ''HR'', ''HT'', ''HU'', ''ID'', ''IE'', ''IL'', ''IM'', ''IN'', ''IO'', ''IQ'', ''IR'', ''IS'', ''IT'', ''JE'', ''JM'',
      ''JO'', ''JP'', ''KE'', ''KG'', ''KH'', ''KI'', ''KM'', ''KN'', ''KP'', ''KR'', ''KW'', ''KY'', ''KZ'', ''LA'', ''LB'', ''LC'',
      ''LI'', ''LK'', ''LR'', ''LS'', ''LT'', ''LU'', ''LV'', ''LY'', ''MA'', ''MC'', ''MD'', ''ME'', ''MF'', ''MG'', ''MH'', ''MK'',
      ''ML'', ''MM'', ''MN'', ''MO'', ''MP'', ''MQ'', ''MR'', ''MS'', ''MT'', ''MU'', ''MV'', ''MW'', ''MX'', ''MY'', ''MZ'', ''NA'',
      ''NC'', ''NE'', ''NF'', ''NG'', ''NI'', ''NL'', ''NO'', ''NP'', ''NR'', ''NU'', ''NZ'', ''OM'', ''PA'', ''PE'', ''PF'', ''PG'',
      ''PH'', ''PK'', ''PL'', ''PM'', ''PN'', ''PR'', ''PS'', ''PT'', ''PW'', ''PY'', ''QA'', ''RE'', ''RO'', ''RS'', ''RU'', ''RW'',
      ''SA'', ''SB'', ''SC'', ''SD'', ''SE'', ''SG'', ''SH'', ''SI'', ''SJ'', ''SK'', ''SL'', ''SM'', ''SN'', ''SO'', ''SR'', ''SS'',
      ''ST'', ''SV'', ''SX'', ''SY'', ''SZ'', ''TC'', ''TD'', ''TF'', ''TG'', ''TH'', ''TJ'', ''TK'', ''TL'', ''TM'', ''TN'', ''TO'',
      ''TR'', ''TT'', ''TV'', ''TW'', ''TZ'', ''UA'', ''UG'', ''UM'', ''US'', ''UY'', ''UZ'', ''VA'', ''VC'', ''VE'', ''VG'', ''VI'',
      ''VN'', ''VU'', ''WF'', ''WS'', ''YE'', ''YT'', ''ZA'', ''ZM'', ''ZW'']"

definition normalize_country_code :: "string \<Rightarrow> string res" where
  "normalize_country_code s =
     (let code = map upper_char (strip s) in
      if code \<in> set country_codes then Inr code else Inl (ValueError ''invalid_iso_country_code''))"

subsection \<open>The payload of a checkout\<close>

definition is_alphanumeric :: "char \<Rightarrow> bool" where
  "is_alphanumeric c = (is_letter c \<or> is_digit_char c)"

definition compact :: "string \<Rightarrow> string" where
  "compact s = filter (\<lambda>c. c \<noteq> CHR '' '' \<and> c \<noteq> CHR ''-'') s"

definition gateway_state :: "gateway \<Rightarrow> string \<Rightarrow> string" where
  "gateway_state g region =
     (let original = strip region; state = compact (gs_decompose g original) in
      if state \<noteq> [] \<and> length state \<le> 50 \<and> list_all (\<lambda>c. is_alphanumeric c \<or> c = CHR ''.'') state then state else original)"

definition build_checkout_payload :: "gateway \<Rightarrow> intent \<Rightarrow> string \<Rightarrow> rat option \<Rightarrow> string option \<Rightarrow> (string \<times> pyval) list res" where
  "build_checkout_payload g i merchant given currency =
     (let c = in_contact i in
      bindE (normalize_country_code (ct_country c)) (\<lambda>country.
      bindE (of_option (ValueError ''payment_snapshot_missing'')
              (case given of None \<Rightarrow> in_payment_sar i | Some x \<Rightarrow> Some x)) (\<lambda>x.
      if (case currency of None \<Rightarrow> payment_currency | Some k \<Rightarrow> map upper_char k) \<noteq> gs_currency g
      then Inl (ValueError ''currency_not_supported'')
      else let required = [(''customer.email'', strip (ct_email c)), (''customer.givenName'', strip (ct_given c)),
              (''customer.surname'', strip (ct_surname c)), (''billing.street1'', strip (ct_street c)),
              (''billing.city'', strip (ct_city c)), (''billing.state'', gateway_state g (ct_state c))];
            postcode = compact (strip (ct_postcode c))
        in if list_ex (\<lambda>kv. snd kv = []) required then Inl (ValueError ''required_billing_data_missing'')
           else bindE (format_hyperpay_amount g x) (\<lambda>formatted.
             Inr ([(''entityId'', PyStr (gs_entity g)), (''amount'', PyDecText formatted), (''currency'', PyStr (gs_currency g)),
                   (''paymentType'', PyStr (gs_payment_type g)), (''merchantTransactionId'', PyStr merchant),
                   (''integrity'', PyStr ''true''), (''billing.country'', PyStr country)]
                  @ map (\<lambda>kv. (fst kv, PyStr (snd kv))) required
                  @ (if postcode = [] then [] else [(''billing.postcode'', PyStr postcode)])
                  @ (if gs_environment g = ''test''
                     then [(''testMode'', PyStr ''EXTERNAL''), (''customParameters[3DS2_enrolled]'', PyStr ''true'')] else []))))))"

subsection \<open>Intents and attempts\<close>

definition map_intents :: "(intent \<Rightarrow> intent) \<Rightarrow> db \<Rightarrow> db" where
  "map_intents f d = d \<lparr> db_bookings := map (\<lambda>b. b \<lparr> bk_intent := map_option f (bk_intent b) \<rparr>) (db_bookings d),
     db_intents := map f (db_intents d) \<rparr>"

definition all_intents :: "db \<Rightarrow> intent list" where
  "all_intents d = List.map_filter bk_intent (db_bookings d) @ db_intents d"

definition all_attempts :: "db \<Rightarrow> payment list" where
  "all_attempts d = concat (map in_payments (all_intents d))"

text \<open>\<open>objects.filter(pk=n, status=AWAITING_PAYMENT).update(status=s)\<close>.\<close>

definition leave_awaiting :: "nat \<Rightarrow> intent_status \<Rightarrow> db \<Rightarrow> db" where
  "leave_awaiting n s = map_intents (\<lambda>i. if in_id i = n \<and> in_status i = InAwaitingPayment then i \<lparr> in_status := s \<rparr> else i)"

definition add_attempt :: "nat \<Rightarrow> payment \<Rightarrow> db \<Rightarrow> db" where
  "add_attempt n p = map_intents (\<lambda>i. if in_id i = n then i \<lparr> in_payments := in_payments i @ [p] \<rparr> else i)"

definition put_attempt :: "payment \<Rightarrow> db \<Rightarrow> db" where
  "put_attempt p = map_intents (\<lambda>i. i \<lparr> in_payments := row_put pa_id (in_payments i) p \<rparr>)"

definition get_attempt :: "db \<Rightarrow> nat \<Rightarrow> payment option" where
  "get_attempt d n = row_get pa_id (all_attempts d) n"

definition intent_of_attempt :: "db \<Rightarrow> nat \<Rightarrow> intent option" where
  "intent_of_attempt d n = find (\<lambda>i. list_ex (\<lambda>p. pa_id p = n) (in_payments i)) (all_intents d)"

definition next_attempt :: "db \<Rightarrow> nat" where
  "next_attempt d = Suc (Max (insert 0 (set (map pa_id (all_attempts d)))))"

subsection \<open>The provider and the services\<close>

record pay_world =
  pw_channel :: channel_world
  pw_check :: "intent \<Rightarrow> availability_result res"
  pw_conflict :: "intent \<Rightarrow> bool"
  pw_manual :: "intent \<Rightarrow> bool"
  pw_checkout :: "(string \<times> pyval) list \<Rightarrow> exchange"
  pw_payment :: "string \<Rightarrow> exchange"
  pw_create :: "create_request \<Rightarrow> snapshot res"
  pw_merchant :: string
  pw_attempt_key :: string
  pw_reference :: string
  pw_zone :: "nat \<Rightarrow> string option"
  pw_request_paid :: "db \<Rightarrow> payment \<Rightarrow> db \<times> nat option res"
  pw_change_paid :: "db \<Rightarrow> payment \<Rightarrow> db \<times> nat option res"

definition rethrow :: "(exc \<Rightarrow> exc option) \<Rightarrow> 'a res \<Rightarrow> 'a res" where
  "rethrow h r = (case r of Inr y \<Rightarrow> Inr y | Inl x \<Rightarrow> (case h x of Some x' \<Rightarrow> Inl x' | None \<Rightarrow> Inl x))"

subsection \<open>The checkout\<close>

text \<open>\<open>_revalidate_booking_intent\<close>: the change of the status is committed before the exception.\<close>

definition revalidate_intent :: "pay_world \<Rightarrow> db \<Rightarrow> intent \<Rightarrow> db \<times> unit res" where
  "revalidate_intent w d i =
     (case pw_check w i of
        Inl x \<Rightarrow> (d, Inl x)
      | Inr a \<Rightarrow>
          (case (av_available a, av_quote a) of
             (True, Some q) \<Rightarrow>
               if Some (pq_listing q) \<noteq> map_option fst (cw_units (pw_channel w) (in_property i))
                  \<or> pq_currency q \<noteq> in_currency i \<or> pq_total q \<noteq> in_total i
               then (leave_awaiting (in_id i) InPriceChanged d, Inl (HyperPayCheckout ''prepayment_price_changed''))
               else (d, Inr ())
           | _ \<Rightarrow> (leave_awaiting (in_id i) InUnavailable d, Inl (HyperPayCheckout ''prepayment_unavailable''))))"

text \<open>The amount to collect for a locked intent, with the frozen split.\<close>

definition collectible :: "env \<Rightarrow> db \<Rightarrow> intent \<Rightarrow> (db \<times> rat) res" where
  "collectible e d i =
     bindE (rethrow (\<lambda>x. if is_currency_error x then Some (HyperPayCheckout ''payment_snapshot_invalid'') else None)
        (validate_payment_snapshot (fx e) (PyDec (Fin (in_total i))) (PyStr (in_currency i))
           (case in_payment_sar i of None \<Rightarrow> PyNone | Some x \<Rightarrow> PyDec (Fin x)) (in_fx i))) (\<lambda>_.
     bindE (rethrow (\<lambda>x. if is_value_error x \<or> (\<exists>m. x = ValidationError m)
                         then Some (HyperPayCheckout ''loyalty_payment_allocation_invalid'') else None)
        (cash_due e d i True)) (\<lambda>(d', due).
       case due of
         None \<Rightarrow> Inl (HyperPayCheckout ''points_only_booking_requires_confirmation'')
       | Some x \<Rightarrow> if x \<le> 0 then Inl (HyperPayCheckout ''points_only_booking_requires_confirmation'') else Inr (d', x)))"

definition open_attempts :: "intent \<Rightarrow> payment list" where
  "open_attempts i = filter (\<lambda>p. pa_provider p = ''hyperpay'' \<and> pa_status p \<in> {PaCreated, PaPending} \<and> pa_checkout p \<noteq> Some [])
     (in_payments i)"

definition open_attempt :: "intent \<Rightarrow> payment option" where
  "open_attempt i = (if open_attempts i = [] then None else Some (last (open_attempts i)))"

record session =
  ss_attempt :: nat
  ss_checkout :: string
  ss_integrity :: string

definition new_attempt :: "pay_world \<Rightarrow> db \<Rightarrow> rat \<Rightarrow> payment" where
  "new_attempt w d x = \<lparr> pa_id = next_attempt d, pa_provider = ''hyperpay'', pa_provider_id = None, pa_status = PaCreated,
     pa_amount = x, pa_currency = payment_currency, pa_verified_at = None, pa_key = pw_attempt_key w, pa_modification = None,
     pa_request = None, pa_checkout = None, pa_merchant = Some (pw_merchant w), pa_integrity = [], pa_code = [], pa_description = [],
     pa_failure = [], pa_brand = [] \<rparr>"

text \<open>\<open>[A-Za-z0-9._-]{8,255}\<close> and \<open>sha(?:256|384|512)-[A-Za-z0-9+/=]+\<close>.\<close>

definition valid_checkout_id :: "string \<Rightarrow> bool" where
  "valid_checkout_id s = (8 \<le> length s \<and> length s \<le> 255
     \<and> list_all (\<lambda>c. is_alphanumeric c \<or> c = CHR ''.'' \<or> c = CHR ''_'' \<or> c = CHR ''-'') s)"

definition valid_integrity :: "string \<Rightarrow> bool" where
  "valid_integrity s = (take 7 s \<in> {''sha256-'', ''sha384-'', ''sha512-''} \<and> drop 7 s \<noteq> []
     \<and> list_all (\<lambda>c. is_alphanumeric c \<or> c = CHR ''+'' \<or> c = CHR ''/'' \<or> c = CHR ''='') (drop 7 s))"

text \<open>The answer to a checkout: its identifier, the integrity of the widget and the result code.\<close>

definition checkout_response :: "(string \<times> pyval) list \<Rightarrow> (string \<times> string \<times> string) option" where
  "checkout_response doc =
     (case (dget doc ''id'', dget doc ''integrity'', result_of doc ''code'') of
        (PyStr checkout, PyStr integrity, PyStr code) \<Rightarrow>
          if valid_checkout_id checkout \<and> valid_integrity integrity \<and> map_result_code (PyStr code) = GwPending
          then Some (checkout, integrity, code) else None
      | _ \<Rightarrow> None)"

definition opened_attempt :: "payment \<Rightarrow> string \<times> string \<times> string \<Rightarrow> payment" where
  "opened_attempt p r = p \<lparr> pa_checkout := Some (fst r), pa_integrity := fst (snd r), pa_code := snd (snd r), pa_status := PaPending \<rparr>"

definition checkout_taken :: "db \<Rightarrow> payment \<Rightarrow> bool" where
  "checkout_taken d p = list_ex (\<lambda>x. pa_id x \<noteq> pa_id p \<and> pa_checkout x \<noteq> None \<and> pa_checkout x = pa_checkout p) (all_attempts d)"

text \<open>
  A new attempt inside the transaction. An answer that cannot be used marks the attempt as failed
  and raises, which rolls the transaction back with the mark.
\<close>

definition open_checkout :: "pay_world \<Rightarrow> gateway \<Rightarrow> db \<Rightarrow> intent \<Rightarrow> rat \<Rightarrow> (db \<times> session) res" where
  "open_checkout w g d i x =
     (let p = new_attempt w d x in
      bindE (rethrow (\<lambda>y. if is_value_error y then Some (HyperPayCheckout (value_text y)) else None)
         (build_checkout_payload g i (pw_merchant w) (Some x) None)) (\<lambda>payload.
      bindE (client_request g (pw_checkout w payload)) (\<lambda>doc.
      bindE (of_option (HyperPayCheckout ''checkout_response_invalid'') (checkout_response doc)) (\<lambda>r.
        let p' = opened_attempt p r in
        if checkout_taken d p' then Inl (IntegrityError ''provider_checkout_id'')
        else Inr (add_attempt (in_id i) p' d, \<lparr> ss_attempt = pa_id p', ss_checkout = fst r, ss_integrity = fst (snd r) \<rparr>)))))"

definition locked_checkout :: "pay_world \<Rightarrow> gateway \<Rightarrow> env \<Rightarrow> db \<Rightarrow> nat \<Rightarrow> (db \<times> session) res" where
  "locked_checkout w g e d n =
     bindE (of_option (DoesNotExist ''intent'') (find_intent d n)) (\<lambda>i.
     if pw_conflict w i then Inl (HyperPayCheckout ''prepayment_morning_stay_conflict'')
     else if in_status i \<noteq> InAwaitingPayment \<or> in_expires_at i \<le> now e then Inl (HyperPayCheckout ''booking_intent_not_payable'')
     else bindE (collectible e d i) (\<lambda>(d', x).
       case open_attempt i of
         None \<Rightarrow> open_checkout w g d' i x
       | Some p \<Rightarrow>
           (case (pa_checkout p, pa_integrity p) of
              (Some (c # cs), v # vs) \<Rightarrow>
                if pa_amount p \<noteq> x \<or> pa_currency p \<noteq> payment_currency
                then Inl (HyperPayCheckout ''existing_payment_snapshot_mismatch'')
                else Inr (d', \<lparr> ss_attempt = pa_id p, ss_checkout = c # cs, ss_integrity = v # vs \<rparr>)
            | _ \<Rightarrow> open_checkout w g d' i x)))"

definition create_checkout :: "pay_world \<Rightarrow> gateway \<Rightarrow> env \<Rightarrow> db \<Rightarrow> nat \<Rightarrow> db \<times> session res" where
  "create_checkout w g e d n =
     (case find_intent d n of
        None \<Rightarrow> (d, Inl (DoesNotExist ''intent''))
      | Some i \<Rightarrow>
          if pw_manual w i then (d, Inl (HyperPayCheckout ''manual_booking_requires_payment_link''))
          else if gs_environment g = ''production'' \<and> \<not> gs_live_booking g
          then (d, Inl (HyperPayCheckout ''hostaway_live_booking_disabled''))
          else if gs_live_booking g \<and> Option.bind (cw_units (pw_channel w) (in_property i)) snd = None
          then (d, Inl (HyperPayCheckout ''listing_map_id_not_verified''))
          else (case (if gs_revalidate g then revalidate_intent w d i else (d, Inr ())) of
              (d1, Inl x) \<Rightarrow> (d1, Inl x)
            | (d1, Inr _) \<Rightarrow>
                (case locked_checkout w g e d1 n of
                   Inl x \<Rightarrow> (d1, Inl x)
                 | Inr (d2, s) \<Rightarrow> (d2, Inr s))))"

subsection \<open>The verification\<close>

definition merchant_text :: "string option \<Rightarrow> pyval" where
  "merchant_text s = (case s of None \<Rightarrow> PyNone | Some t \<Rightarrow> PyStr t)"

definition verification_mismatch :: "gateway \<Rightarrow> payment \<Rightarrow> (string \<times> pyval) list \<Rightarrow> string" where
  "verification_mismatch g p doc =
     (if pa_request p \<noteq> None \<and> (case dget doc ''result'' of PyDict r \<Rightarrow> map_result_code (dget r ''code'') = GwSuccess | _ \<Rightarrow> False)
         \<and> safe_optional_text (dget doc ''id'') 255 = None
      then ''payment_id_missing''
      else if dget doc ''currency'' \<noteq> PyStr (pa_currency p) then ''currency_mismatch''
      else if dget doc ''paymentType'' \<noteq> PyStr (gs_payment_type g) then ''paymentType_mismatch''
      else if dget doc ''merchantTransactionId'' \<noteq> merchant_text (pa_merchant p) then ''merchantTransactionId_mismatch''
      else case decimal_of_str (dget doc ''amount'') of
        None \<Rightarrow> ''amount_invalid''
      | Some q \<Rightarrow>
          if q \<noteq> Fin (pa_amount p) then ''amount_mismatch''
          else if dget doc ''entityId'' \<noteq> PyNone \<and> dget doc ''entityId'' \<noteq> PyStr (gs_entity g) then ''entity_id_mismatch''
          else if dget doc ''paymentBrand'' \<notin> PyStr ` set (gs_brands g) then ''payment_brand_mismatch''
          else if dget doc ''paymentBrand'' = PyStr ''APPLEPAY'' \<and> gs_environment g = ''production'' \<and> \<not> gs_apple_pay g
          then ''payment_brand_mismatch''
          else [])"

definition attempt_status :: "gateway_status \<Rightarrow> payment_status" where
  "attempt_status s = (case s of GwSuccess \<Rightarrow> PaSucceeded | GwPending \<Rightarrow> PaPending | GwFailed \<Rightarrow> PaFailed
     | GwCancelled \<Rightarrow> PaCancelled | GwReview \<Rightarrow> PaReview | GwUnknown \<Rightarrow> PaUnknown)"

definition mapped_status :: "gateway \<Rightarrow> payment \<Rightarrow> (string \<times> pyval) list \<Rightarrow> gateway_status" where
  "mapped_status g p doc = (if verification_mismatch g p doc \<noteq> [] then GwReview else map_result_code (result_of doc ''code''))"

definition verified_attempt :: "gateway \<Rightarrow> env \<Rightarrow> payment \<Rightarrow> (string \<times> pyval) list \<Rightarrow> payment" where
  "verified_attempt g e p doc =
     (let mismatch = verification_mismatch g p doc in
      p \<lparr> pa_failure := (if mismatch \<noteq> [] then mismatch else pa_failure p),
          pa_provider_id := safe_optional_text (dget doc ''id'') 255, pa_code := safe_text (result_of doc ''code'') 100,
          pa_description := safe_text (result_of doc ''description'') 255,
          pa_brand := safe_text (dget doc ''paymentBrand'') 30, pa_verified_at := Some (now e),
          pa_status := attempt_status (mapped_status g p doc) \<rparr>)"

definition payment_id_taken :: "db \<Rightarrow> payment \<Rightarrow> bool" where
  "payment_id_taken d p = (pa_provider_id p \<noteq> None
     \<and> list_ex (\<lambda>x. pa_id x \<noteq> pa_id p \<and> pa_provider_id x = pa_provider_id p) (all_attempts d))"

text \<open>The state of an attempt, the reservation and the outcome at the channel manager.\<close>

record verification =
  vf_status :: gateway_status
  vf_booking :: "nat option"
  vf_channel :: "string option"

definition record_verified_payment :: "db \<Rightarrow> nat \<Rightarrow> nat \<Rightarrow> db res" where
  "record_verified_payment d intent_id n =
     bindE (with_row d n (\<lambda>b. b \<lparr> bk_payment_status := ''paid'',
        bk_status := (if bk_status b = AwaitingPayment then ReadyForHostaway else bk_status b) \<rparr>)) (\<lambda>b.
       Inr (leave_awaiting intent_id InPaymentVerified (put_booking d b)))"

text \<open>The end of \<open>_complete_success\<close>, for an attempt of a booking.\<close>

definition complete_booking :: "pay_world \<Rightarrow> gateway \<Rightarrow> env \<Rightarrow> db \<Rightarrow> intent \<Rightarrow> db \<times> verification res" where
  "complete_booking w g e d i =
     (case prepare_local_reservation (pw_channel w) e (pw_reference w) (pw_zone w (in_property i)) d (in_id i)
             (case booking_of_intent d (in_id i) of None \<Rightarrow> in_status i | Some b \<Rightarrow> InAwaitingPayment) of
        Inl x \<Rightarrow> (d, Inl x)
      | Inr (d1, n) \<Rightarrow>
          (case record_verified_payment d1 (in_id i) n of
             Inl x \<Rightarrow> (d1, Inl x)
           | Inr d2 \<Rightarrow>
               if map_option bk_status (get_booking d2 n) = Some Confirmed
               then (d2, Inr \<lparr> vf_status = GwSuccess, vf_booking = Some n, vf_channel = None \<rparr>)
               else (case create_hostaway_reservation (pw_channel w) g e (pw_create w) d2 n of
                   (d3, Inl x) \<Rightarrow> (d3, Inl x)
                 | (d3, Inr code) \<Rightarrow>
                     (d3, Inr \<lparr> vf_status = GwSuccess, vf_booking = Some n, vf_channel = Some code \<rparr>))))"

definition complete_success :: "pay_world \<Rightarrow> gateway \<Rightarrow> env \<Rightarrow> db \<Rightarrow> payment \<Rightarrow> db \<times> verification res" where
  "complete_success w g e d p =
     (let done = (\<lambda>r. case r of (d', Inl x) \<Rightarrow> (d', Inl x)
                    | (d', Inr b) \<Rightarrow> (d', Inr \<lparr> vf_status = GwSuccess, vf_booking = b, vf_channel = None \<rparr>))
      in if pa_request p \<noteq> None then done (pw_request_paid w d p)
         else if pa_modification p \<noteq> None then done (pw_change_paid w d p)
         else case intent_of_attempt d (pa_id p) of
           None \<Rightarrow> (d, Inl (DoesNotExist ''intent''))
         | Some i \<Rightarrow> complete_booking w g e d i)"

definition process_verification ::
    "pay_world \<Rightarrow> gateway \<Rightarrow> env \<Rightarrow> db \<Rightarrow> nat \<Rightarrow> (string \<times> pyval) list \<Rightarrow> db \<times> verification res" where
  "process_verification w g e d n doc =
     (case get_attempt d n of
        None \<Rightarrow> (d, Inl (DoesNotExist ''attempt''))
      | Some p \<Rightarrow>
          if pa_status p = PaSucceeded \<and> pa_verified_at p \<noteq> None
          then (d, Inr \<lparr> vf_status = GwSuccess,
                  vf_booking = Option.bind (intent_of_attempt d n) (\<lambda>i. map_option bk_id (booking_of_intent d (in_id i))),
                  vf_channel = None \<rparr>)
          else let p' = verified_attempt g e p doc in
            if payment_id_taken d p' then (d, Inl (IntegrityError ''provider_payment_id''))
            else let d' = put_attempt p' d in
              if mapped_status g p doc \<noteq> GwSuccess
              then (d', Inr \<lparr> vf_status = mapped_status g p doc, vf_booking = None, vf_channel = None \<rparr>)
              else complete_success w g e d' p')"

definition verify :: "pay_world \<Rightarrow> gateway \<Rightarrow> env \<Rightarrow> db \<Rightarrow> nat \<Rightarrow> db \<times> verification res" where
  "verify w g e d n =
     (case get_attempt d n of
        None \<Rightarrow> (d, Inl (DoesNotExist ''attempt''))
      | Some p \<Rightarrow>
          (case (pa_provider p = ''hyperpay'', pa_checkout p) of
             (True, Some (c # cs)) \<Rightarrow>
               if pa_status p = PaSucceeded \<and> pa_verified_at p \<noteq> None then complete_success w g e d p
               else if pa_request p \<noteq> None \<and> pa_status p \<in> {PaRefunded, PaPartiallyRefunded}
               then (d, Inr \<lparr> vf_status = GwReview, vf_booking = None, vf_channel = None \<rparr>)
               else (case client_request g (pw_payment w (c # cs)) of
                   Inl x \<Rightarrow> (d, Inl x)
                 | Inr doc \<Rightarrow>
                     if pa_request p \<noteq> None \<and> (\<exists>r. dget doc ''result'' = PyDict r \<and> map_result_code (dget r ''code'') = GwPending)
                     then (d, Inr \<lparr> vf_status = GwPending, vf_booking = None, vf_channel = None \<rparr>)
                     else process_verification w g e d n doc)
           | _ \<Rightarrow> (d, Inl (HyperPayVerification ''invalid_payment_reference''))))"

subsection \<open>Attempts in their table\<close>

lemma all_intents_map: "all_intents (map_intents f d) = map f (all_intents d)"
proof -
  have "List.map_filter bk_intent (map (\<lambda>b. b \<lparr> bk_intent := map_option f (bk_intent b) \<rparr>) bs)
      = map f (List.map_filter bk_intent bs)" for bs
    by (induction bs) (auto simp: List.map_filter_simps split: option.splits)
  then show ?thesis by (simp add: all_intents_def map_intents_def)
qed

lemma row_put_concat: "concat (map (\<lambda>xs. row_put key xs r) xss) = row_put key (concat xss) r"
  by (induction xss) (simp_all add: row_put_def)

lemma all_attempts_put: "all_attempts (put_attempt p d) = row_put pa_id (all_attempts d) p"
  by (simp add: all_attempts_def put_attempt_def all_intents_map comp_def flip: row_put_concat)

interpretation attempt_table: keyed_table get_attempt "\<lambda>d p. put_attempt p d" pa_id
proof unfold_locales
  show "get_attempt t k = Some r \<Longrightarrow> pa_id r = k" for t k r
    unfolding get_attempt_def by (rule row_get_key)
  show "get_attempt t (pa_id r) = Some r0 \<Longrightarrow> get_attempt (put_attempt r t) (pa_id r) = Some r" for t r r0
    using row_get_put_same [of pa_id "all_attempts t" r r0] by (simp add: get_attempt_def all_attempts_put)
  show "pa_id r \<noteq> k \<Longrightarrow> get_attempt (put_attempt r t) k = get_attempt t k" for t r k
    using row_get_put_other [of pa_id r k "all_attempts t"] by (simp add: get_attempt_def all_attempts_put)
qed

subsection \<open>Properties\<close>

lemma rethrow_Inr [simp]: "rethrow h r = Inr y \<longleftrightarrow> r = Inr y"
  by (auto simp: rethrow_def split: sum.splits option.splits)

lemma revalidate_intent_Inr:
  assumes "revalidate_intent w d i = (d', Inr u)"
  shows "d' = d \<and> (\<exists>a q. pw_check w i = Inr a \<and> av_available a \<and> av_quote a = Some q
    \<and> pq_total q = in_total i \<and> pq_currency q = in_currency i)"
  using assms by (auto simp: revalidate_intent_def split: sum.splits bool.splits option.splits if_splits)

lemma open_attempt_in: "open_attempt i = Some p \<Longrightarrow> p \<in> set (in_payments i) \<and> pa_status p \<in> {PaCreated, PaPending}"
  using last_in_set [of "open_attempts i"] by (auto simp: open_attempt_def open_attempts_def split: if_splits)

lemma collectible_Inr:
  assumes "collectible e d i = Inr (d', x)"
  shows "cash_due e d i True = Inr (d', Some x) \<and> 0 < x"
proof -
  obtain r where r: "cash_due e d i True = Inr r"
    and run: "(\<lambda>(d', due). case due of
         None \<Rightarrow> Inl (HyperPayCheckout ''points_only_booking_requires_confirmation'')
       | Some x \<Rightarrow> if x \<le> 0 then Inl (HyperPayCheckout ''points_only_booking_requires_confirmation'') else Inr (d', x)) r = Inr (d', x)"
    using assms unfolding collectible_def bindE_Inr_iff rethrow_Inr by blast
  obtain d1 due where "r = (d1, due)" by (cases r)
  then show ?thesis using r run by (cases due) (auto split: if_splits)
qed

lemma open_checkout_Inr:
  assumes "open_checkout w g d i x = Inr (d', s)"
  shows "\<exists>p. pa_amount p = x \<and> pa_currency p = payment_currency \<and> pa_checkout p = Some (ss_checkout s)
    \<and> pa_id p = ss_attempt s \<and> pa_status p = PaPending \<and> d' = add_attempt (in_id i) p d"
proof -
  let ?p = "new_attempt w d x"
  obtain r where "d' = add_attempt (in_id i) (opened_attempt ?p r) d" "s = \<lparr> ss_attempt = pa_id (opened_attempt ?p r), ss_checkout = fst r, ss_integrity = fst (snd r) \<rparr>"
    using assms by (auto simp: open_checkout_def bindE_Inr_iff Let_def split: if_splits)
  then show ?thesis by (intro exI [of _ "opened_attempt ?p r"]) (simp add: opened_attempt_def new_attempt_def)
qed

definition charged_attempt :: "session \<Rightarrow> rat \<Rightarrow> payment \<Rightarrow> bool" where
  "charged_attempt s x p = (pa_amount p = x \<and> pa_currency p = payment_currency \<and> pa_checkout p = Some (ss_checkout s)
     \<and> pa_id p = ss_attempt s \<and> pa_status p \<in> {PaCreated, PaPending})"

lemma locked_checkout_Inr:
  assumes "locked_checkout w g e d n = Inr (d', s)"
  shows "\<exists>i d2 x p. find_intent d n = Some i \<and> in_status i = InAwaitingPayment \<and> now e < in_expires_at i \<and> \<not> pw_conflict w i
    \<and> cash_due e d i True = Inr (d2, Some x) \<and> 0 < x \<and> charged_attempt s x p
    \<and> (p \<in> set (in_payments i) \<and> d' = d2 \<or> d' = add_attempt (in_id i) p d2)"
proof -
  obtain i where i: "find_intent d n = Some i" "in_status i = InAwaitingPayment" "now e < in_expires_at i" "\<not> pw_conflict w i"
    using assms by (auto simp: locked_checkout_def bindE_Inr_iff split: if_splits)
  then obtain d2 x where x: "collectible e d i = Inr (d2, x)"
    using assms by (auto simp: locked_checkout_def bindE_Inr_iff)
  consider (fresh) "open_checkout w g d2 i x = Inr (d', s)"
    | (kept) p where "open_attempt i = Some p" "d' = d2" "charged_attempt s x p"
  proof (cases "open_attempt i")
    case None
    then show thesis using assms i x fresh by (simp add: locked_checkout_def)
  next
    case (Some p)
    show thesis
    proof (cases "\<exists>c cs v vs. pa_checkout p = Some (c # cs) \<and> pa_integrity p = v # vs")
      case True
      then show thesis
        using assms i x Some kept [of p] open_attempt_in [OF Some]
        by (auto simp: locked_checkout_def charged_attempt_def split: if_splits)
    next
      case False
      then show thesis
        using assms i x Some fresh by (auto simp: locked_checkout_def split: option.splits list.splits)
    qed
  qed
  then show ?thesis
  proof cases
    case fresh
    then obtain p where "charged_attempt s x p" "d' = add_attempt (in_id i) p d2"
      using open_checkout_Inr unfolding charged_attempt_def by blast
    then show ?thesis using i collectible_Inr [OF x] by blast
  next
    case kept
    then show ?thesis using i collectible_Inr [OF x] open_attempt_in by blast
  qed
qed

text \<open>C19: a card is charged only for a payable intent and for exactly its cash due. When a checkout is
  opened, the intent awaits payment and has not expired, no morning stay is in the way, a
  production charge can be followed by a reservation at the channel manager, the revalidation (where
  it is switched on) found the stay available at the price of the intent, and the attempt the guest
  pays, new or already open, is over the positive amount that is due after points, in riyals.\<close>

theorem checkout_charges_cash_due:
  assumes "create_checkout w g e d n = (d', Inr s)" and "find_intent d n = Some i"
  shows "in_status i = InAwaitingPayment \<and> now e < in_expires_at i \<and> \<not> pw_conflict w i
    \<and> (gs_environment g = ''production'' \<longrightarrow> gs_live_booking g)
    \<and> (gs_revalidate g \<longrightarrow> (\<exists>a q. pw_check w i = Inr a \<and> av_available a \<and> av_quote a = Some q
         \<and> pq_total q = in_total i \<and> pq_currency q = in_currency i))
    \<and> (\<exists>d2 x p. cash_due e d i True = Inr (d2, Some x) \<and> 0 < x \<and> charged_attempt s x p
         \<and> (p \<in> set (in_payments i) \<and> d' = d2 \<or> d' = add_attempt (in_id i) p d2))"
proof -
  have guards: "gs_environment g = ''production'' \<longrightarrow> gs_live_booking g"
    using assms by (auto simp: create_checkout_def split: if_splits)
  obtain d1 u where d1: "(if gs_revalidate g then revalidate_intent w d i else (d, Inr ())) = (d1, Inr u)"
    and locked: "locked_checkout w g e d1 n = Inr (d', s)"
    using assms by (auto simp: create_checkout_def split: if_splits sum.splits prod.splits)
  have "d1 = d" and valid: "gs_revalidate g \<longrightarrow> (\<exists>a q. pw_check w i = Inr a \<and> av_available a \<and> av_quote a = Some q
         \<and> pq_total q = in_total i \<and> pq_currency q = in_currency i)"
    using d1 revalidate_intent_Inr [of w d i d1 u] by (auto split: if_splits)
  then show ?thesis using locked_checkout_Inr [OF locked] guards assms(2) by auto
qed

text \<open>An intent with an open checkout is not charged twice: as long as an attempt with a checkout and
  a widget is open, a further call returns that very checkout or raises, whatever the provider
  would answer to a new one, since the provider is not asked.\<close>

lemma open_checkout_reused:
  assumes "find_intent d n = Some i" and "open_attempt i = Some p" and "pa_checkout p = Some c" and "c \<noteq> []"
    and "pa_integrity p \<noteq> []"
  shows "(\<forall>d' s. create_checkout w g e d n = (d', Inr s) \<longrightarrow>
            s = \<lparr> ss_attempt = pa_id p, ss_checkout = c, ss_integrity = pa_integrity p \<rparr>)
    \<and> create_checkout (w \<lparr> pw_checkout := answering, pw_merchant := merchant, pw_attempt_key := key \<rparr>) g e d n = create_checkout w g e d n"
proof -
  obtain a as v vs where c: "c = a # as" "pa_integrity p = v # vs" using assms(4,5) by (auto simp: neq_Nil_conv)
  have locked: "locked_checkout w' g e d n =
      (if pw_conflict w' i then Inl (HyperPayCheckout ''prepayment_morning_stay_conflict'')
       else if in_status i \<noteq> InAwaitingPayment \<or> in_expires_at i \<le> now e then Inl (HyperPayCheckout ''booking_intent_not_payable'')
       else bindE (collectible e d i) (\<lambda>(d', x).
         if pa_amount p \<noteq> x \<or> pa_currency p \<noteq> payment_currency
         then Inl (HyperPayCheckout ''existing_payment_snapshot_mismatch'')
         else Inr (d', \<lparr> ss_attempt = pa_id p, ss_checkout = c, ss_integrity = pa_integrity p \<rparr>)))" for w' :: pay_world
    by (simp add: locked_checkout_def assms(1-3) c cong: if_cong)
  have revalidated: "d1 = d" if "revalidate_intent w d i = (d1, Inr u)" for d1 u
    using revalidate_intent_Inr [OF that] by simp
  let ?w = "w \<lparr> pw_checkout := answering, pw_merchant := merchant, pw_attempt_key := key \<rparr>"
  have "revalidate_intent ?w d i = revalidate_intent w d i" by (auto simp: revalidate_intent_def split: sum.splits option.splits bool.splits)
  then have "create_checkout ?w g e d n = create_checkout w g e d n"
    using revalidated locked [of w] locked [of ?w] assms(1)
    by (auto simp: create_checkout_def split: prod.splits sum.splits)
  moreover have "s = \<lparr> ss_attempt = pa_id p, ss_checkout = c, ss_integrity = pa_integrity p \<rparr>"
    if "create_checkout w g e d n = (d', Inr s)" for d' s
  proof -
    have "\<exists>d1. locked_checkout w g e d1 n = Inr (d', s) \<and> d1 = d"
      using that assms(1) revalidated by (auto simp: create_checkout_def split: if_splits sum.splits prod.splits)
    then show ?thesis using locked [of w] by (auto simp: bindE_Inr_iff split: if_splits prod.splits)
  qed
  ultimately show ?thesis by blast
qed

lemma verified_status: "pa_status (verified_attempt g e p doc) = attempt_status (mapped_status g p doc)"
  by (simp add: verified_attempt_def Let_def)

text \<open>C28: an attempt is recorded as succeeded only on a document that matches it: the currency, the
  payment type, the merchant's transaction number and the amount are those of the attempt, the
  entity is the merchant's when it is given, the brand is an allowed one, and the result code is a
  well-formed success code that neither asks for a review nor is pending; its amount and its
  currency stay as they were.\<close>

theorem success_needs_matching_document:
  assumes "pa_status (verified_attempt g e p doc) = PaSucceeded"
  shows "dget doc ''currency'' = PyStr (pa_currency p) \<and> dget doc ''paymentType'' = PyStr (gs_payment_type g)
    \<and> dget doc ''merchantTransactionId'' = merchant_text (pa_merchant p)
    \<and> decimal_of_str (dget doc ''amount'') = Some (Fin (pa_amount p))
    \<and> (dget doc ''entityId'' = PyNone \<or> dget doc ''entityId'' = PyStr (gs_entity g))
    \<and> (\<exists>brand \<in> set (gs_brands g). dget doc ''paymentBrand'' = PyStr brand)
    \<and> (\<exists>code. result_of doc ''code'' = PyStr code \<and> valid_code code \<and> success_code code \<and> \<not> review_code code)
    \<and> pa_amount (verified_attempt g e p doc) = pa_amount p \<and> pa_currency (verified_attempt g e p doc) = pa_currency p"
proof -
  have mapped: "mapped_status g p doc = GwSuccess"
    using assms by (simp add: verified_status attempt_status_def split: gateway_status.splits)
  then have none: "verification_mismatch g p doc = []" and code: "map_result_code (result_of doc ''code'') = GwSuccess"
    by (auto simp: mapped_status_def split: if_splits)
  have "\<exists>c. result_of doc ''code'' = PyStr c \<and> valid_code c \<and> success_code c \<and> \<not> review_code c"
    using code by (cases "result_of doc ''code''") (auto simp: map_result_code_def split: if_splits)
  then show ?thesis
    using none by (auto simp: verification_mismatch_def verified_attempt_def Let_def split: if_splits option.splits)
qed

lemma verify_processes:
  assumes "get_attempt d n = Some p" and "pa_provider p = ''hyperpay''" and "pa_checkout p = Some c" and "c \<noteq> []"
    and "\<not> (pa_status p = PaSucceeded \<and> pa_verified_at p \<noteq> None)" and "pa_request p = None"
    and "client_request g (pw_payment w c) = Inr doc"
  shows "verify w g e d n = process_verification w g e d n doc"
  using assms by (cases c) (auto simp: verify_def)

lemma processed:
  assumes "get_attempt d n = Some p" and "\<not> (pa_status p = PaSucceeded \<and> pa_verified_at p \<noteq> None)"
    and "\<not> payment_id_taken d (verified_attempt g e p doc)" and "mapped_status g p doc = GwSuccess"
  shows "process_verification w g e d n doc
    = complete_success w g e (put_attempt (verified_attempt g e p doc) d) (verified_attempt g e p doc)"
  using assms by (auto simp: process_verification_def Let_def)

text \<open>C25: money can be taken for a booking that does not exist. When the payment of an intent is
  verified after the intent has left the state AWAITING\_PAYMENT without a reservation (it expired
  while the guest paid), the attempt is stored as succeeded and the call ends with the uncaught
  error of \<open>prepare_local_reservation\<close>; every later verification ends the same way and no
  reservation ever comes of it.\<close>

theorem late_payment_without_reservation:
  assumes "get_attempt d n = Some p" and "pa_provider p = ''hyperpay''" and "pa_checkout p = Some c" and "c \<noteq> []"
    and "\<not> (pa_status p = PaSucceeded \<and> pa_verified_at p \<noteq> None)" and "pa_request p = None" and "pa_modification p = None"
    and "client_request g (pw_payment w c) = Inr doc" and "mapped_status g p doc = GwSuccess"
    and "\<not> payment_id_taken d (verified_attempt g e p doc)"
    and "d' = put_attempt (verified_attempt g e p doc) d"
    and "intent_of_attempt d' n = Some i" and "in_status i \<noteq> InAwaitingPayment" and "booking_of_intent d' (in_id i) = None"
  shows "verify w g e d n = (d', Inl (ValueError ''booking_intent_not_awaiting_payment''))
    \<and> map_option pa_status (get_attempt d' n) = Some PaSucceeded
    \<and> verify w' g' e' d' n = (d', Inl (ValueError ''booking_intent_not_awaiting_payment''))"
proof -
  let ?p = "verified_attempt g e p doc"
  have id: "pa_id p = n" using attempt_table.get_key [OF assms(1)] .
  have same: "pa_id ?p = n" "pa_request ?p = None" "pa_modification ?p = None" "pa_provider ?p = ''hyperpay''" "pa_checkout ?p = Some c"
    "pa_verified_at ?p = Some (now e)"
    using id assms by (simp_all add: verified_attempt_def Let_def)
  have status: "pa_status ?p = PaSucceeded" using assms(9) by (simp add: verified_status attempt_status_def)
  have row: "get_attempt d' n = Some ?p"
    using attempt_table.get_put_same [of d ?p p] assms(1,11) same(1) by simp
  have complete: "complete_success w1 g1 e1 d' ?p = (d', Inl (ValueError ''booking_intent_not_awaiting_payment''))" for w1 g1 e1
    using same assms(12-14) by (simp add: complete_success_def complete_booking_def prepare_local_reservation_def)
  have "verify w g e d n = (d', Inl (ValueError ''booking_intent_not_awaiting_payment''))"
    using verify_processes [OF assms(1-6,8)] processed [OF assms(1,5,10,9)] complete assms(11) by simp
  moreover have "verify w' g' e' d' n = (d', Inl (ValueError ''booking_intent_not_awaiting_payment''))"
    using row same status complete assms(4) by (cases c) (auto simp: verify_def)
  ultimately show ?thesis using row status by simp
qed

text \<open>A refunded booking can become a paid one again. Reading the payment of a refunded attempt of a
  booking (which the page of the payment's result does at every visit) overwrites its state: when
  the checkout still shows the original success, the attempt is stored as succeeded and the
  payment is completed once more. Only attempts of payment links are kept.\<close>

lemma refunded_attempt_reopened:
  assumes "get_attempt d n = Some p" and "pa_provider p = ''hyperpay''" and "pa_checkout p = Some c" and "c \<noteq> []"
    and "pa_status p \<in> {PaRefunded, PaPartiallyRefunded}" and "pa_request p = None"
    and "client_request g (pw_payment w c) = Inr doc" and "mapped_status g p doc = GwSuccess"
    and "\<not> payment_id_taken d (verified_attempt g e p doc)"
  shows "\<exists>d' p'. verify w g e d n = complete_success w g e d' p' \<and> get_attempt d' n = Some p' \<and> pa_status p' = PaSucceeded"
proof -
  let ?p = "verified_attempt g e p doc"
  have open_state: "\<not> (pa_status p = PaSucceeded \<and> pa_verified_at p \<noteq> None)" using assms(5) by auto
  have id: "pa_id ?p = n" using attempt_table.get_key [OF assms(1)] by (simp add: verified_attempt_def Let_def)
  have "get_attempt (put_attempt ?p d) n = Some ?p"
    using attempt_table.get_put_same [of d ?p p] assms(1) id by simp
  moreover have "pa_status ?p = PaSucceeded" using assms(8) by (simp add: verified_status attempt_status_def)
  ultimately show ?thesis
    using verify_processes [OF assms(1-4) open_state assms(6,7)] processed [OF assms(1) open_state assms(9,8)] by auto
qed

subsection \<open>Sample payments\<close>

definition open_intent :: intent where
  "open_intent = sample_intent \<lparr> in_status := InAwaitingPayment, in_expires_at := 5000, in_currency := ''EUR'', in_total := 100,
     in_payment_sar := Some 400,
     in_fx := PyDict (quote_document sample_snapshot ''EUR'' 100 400 ''MAD'' 1000 (1 / 4) (5 / 2) (Aware 0) (Aware 900000000)) \<rparr>"

definition open_db :: db where
  "open_db = sample_db \<lparr> db_bookings := [], db_intents := [open_intent] \<rparr>"

definition checkout_document :: "(string \<times> pyval) list" where
  "checkout_document = [(''id'', PyStr ''checkout-1''), (''integrity'', PyStr ''sha384-AbC0=''),
     (''result'', PyDict [(''code'', PyStr ''000.200.100'')])]"

definition paid_document :: "(string \<times> pyval) list" where
  "paid_document = [(''id'', PyStr ''pay-1''), (''currency'', PyStr ''SAR''), (''paymentType'', PyStr ''DB''),
     (''merchantTransactionId'', PyStr ''LSA-7''), (''amount'', PyDecText 400), (''paymentBrand'', PyStr ''VISA''),
     (''result'', PyDict [(''code'', PyStr ''000.000.000'')])]"

definition sample_pay :: pay_world where
  "sample_pay = \<lparr> pw_channel = sample_world,
     pw_check = (\<lambda>i. Inr \<lparr> av_available = True, av_reason = ''available'', av_nights = 2,
       av_quote = Some (offered_price \<lparr> pq_currency := ''EUR'', pq_total := 100 \<rparr>),
       av_calendar = None, av_calendar_hit = False, av_price_hit = False \<rparr>),
     pw_conflict = (\<lambda>i. False), pw_manual = (\<lambda>i. False), pw_checkout = (\<lambda>p. Answer 200 (Some (PyDict checkout_document))),
     pw_payment = (\<lambda>c. Answer 200 (Some (PyDict paid_document))), pw_create = (\<lambda>r. Inr accepted_snapshot),
     pw_merchant = ''LSA-7'', pw_attempt_key = ''k7'', pw_reference = ''RS7'', pw_zone = (\<lambda>p. None),
     pw_request_paid = (\<lambda>d p. (d, Inr None)), pw_change_paid = (\<lambda>d p. (d, Inr None)) \<rparr>"

lemma open_found: "find_intent open_db 50 = Some open_intent"
  by (simp add: find_intent_def booking_of_intent_def open_db_def open_intent_def sample_intent_def)

lemma collectible_of_open:
  assumes "booking_of_intent d 50 = None"
  shows "collectible sample_env d (open_intent \<lparr> in_payments := ps \<rparr>) = Inr (d, 400)"
proof -
  let ?i = "open_intent \<lparr> in_payments := ps \<rparr>"
  have v: "validate_payment_snapshot base_fx (PyDec (Fin 100)) (PyStr ''EUR'') (PyDec (Fin 400))
     (PyDict (quote_document sample_snapshot ''EUR'' 100 400 ''MAD'' 1000 (1 / 4) (5 / 2) (Aware 0) (Aware 900000000))) = Inr ()"
    by (rule quote_validates [OF sample_quote, simplified]) (use fetch_usable [OF sample_fetch] in \<open>simp_all add: is_naive_def\<close>)
  have "cash_due sample_env d ?i True = Inr (d, Some 400)"
    using assms by (simp add: cash_due_def open_intent_def sample_intent_def sample_env_def)
  then show ?thesis
    using v by (simp add: collectible_def rethrow_def) (simp add: open_intent_def sample_env_def)
qed

lemma open_collectible: "collectible sample_env open_db open_intent = Inr (open_db, 400)"
  using collectible_of_open [of open_db "in_payments open_intent"] by (simp add: booking_of_intent_def open_db_def)

lemma saudi: "normalize_country_code ''SA'' = Inr ''SA''"
proof -
  have "map upper_char (strip ''SA'') = ''SA''" by code_simp
  moreover have "''SA'' \<in> set country_codes" by (simp add: country_codes_def)
  ultimately show ?thesis by (simp add: normalize_country_code_def)
qed

lemma sample_response: "checkout_response checkout_document = Some (''checkout-1'', ''sha384-AbC0='', ''000.200.100'')"
  by code_simp

lemma sample_charge:
  "\<exists>d' s. create_checkout sample_pay live_gateway sample_env open_db 50 = (d', Inr s)"
proof -
  have guards: "\<not> pw_manual sample_pay open_intent" "gs_live_booking live_gateway"
    "cw_units (pw_channel sample_pay) (in_property open_intent) = Some (5, Some 12)" "gs_revalidate live_gateway"
    by (simp_all add: sample_pay_def live_gateway_def sample_gateway_def sample_world_def)
  have valid: "revalidate_intent sample_pay open_db open_intent = (open_db, Inr ())"
    by (simp add: revalidate_intent_def sample_pay_def sample_world_def offered_price_def open_intent_def)
  have none: "open_attempt open_intent = None" "in_status open_intent = InAwaitingPayment" "now sample_env < in_expires_at open_intent"
    "\<not> pw_conflict sample_pay open_intent" "all_attempts open_db = []"
    by (simp_all add: open_attempt_def open_attempts_def open_intent_def sample_intent_def sample_env_def sample_pay_def
        all_attempts_def all_intents_def open_db_def List.map_filter_simps)
  have payload: "\<exists>p. build_checkout_payload live_gateway open_intent (pw_merchant sample_pay) (Some 400) None = Inr p"
  proof -
    have texts: "strip ''guest@example.com'' = ''guest@example.com''" "strip ''Sara'' = ''Sara''" "strip ''Ali'' = ''Ali''"
      "strip ''King Road 1'' = ''King Road 1''" "strip ''Riyadh'' = ''Riyadh''" "strip ''12345'' = ''12345''"
      by code_simp+
    have region: "gateway_state live_gateway ''Riyadh'' = ''Riyadh''"
      by (simp add: gateway_state_def texts compact_def live_gateway_def sample_gateway_def Let_def)
    have money: "format_hyperpay_amount live_gateway 400 = Inr 400"
      by (simp add: format_hyperpay_amount_def live_gateway_def sample_gateway_def quantize_def round_half_up_def precision_def Let_def)
    have contact: "in_contact open_intent = sample_contact" by (simp add: open_intent_def sample_intent_def)
    have "gs_currency live_gateway = payment_currency" by (simp add: live_gateway_def sample_gateway_def payment_currency_def)
    then show ?thesis
      using texts region money saudi by (simp add: build_checkout_payload_def contact sample_contact_def Let_def)
  qed
  then obtain p where p: "build_checkout_payload live_gateway open_intent (pw_merchant sample_pay) (Some 400) None = Inr p" by blast
  have answer: "client_request live_gateway (pw_checkout sample_pay p) = Inr checkout_document"
    by (simp add: client_request_def client_ready_def live_gateway_def sample_gateway_def sample_pay_def request_def)
  have "\<exists>d' s. locked_checkout sample_pay live_gateway sample_env open_db 50 = Inr (d', s)"
    using none by (simp add: locked_checkout_def open_found open_collectible open_checkout_def p answer sample_response
        rethrow_def checkout_taken_def Let_def)
  then show ?thesis using guards valid by (auto simp: create_checkout_def open_found)
qed

theorem checkout_charges_cash_due_witness:
  "\<exists>d' s d2 x p. create_checkout sample_pay live_gateway sample_env open_db 50 = (d', Inr s)
     \<and> cash_due sample_env open_db open_intent True = Inr (d2, Some x) \<and> charged_attempt s x p"
proof -
  obtain d' s where run: "create_checkout sample_pay live_gateway sample_env open_db 50 = (d', Inr s)" using sample_charge by blast
  show ?thesis using checkout_charges_cash_due [OF run open_found] run by blast
qed

definition paying_attempt :: payment where
  "paying_attempt = \<lparr> pa_id = 4, pa_provider = ''hyperpay'', pa_provider_id = None, pa_status = PaPending, pa_amount = 400,
     pa_currency = ''SAR'', pa_verified_at = None, pa_key = ''k4'', pa_modification = None, pa_request = None,
     pa_checkout = Some ''checkout-4'', pa_merchant = Some ''LSA-7'', pa_integrity = ''sha256-A'', pa_code = [], pa_description = [],
     pa_failure = [], pa_brand = [] \<rparr>"

definition paying_db :: "intent_status \<Rightarrow> payment_status \<Rightarrow> db" where
  "paying_db st ps = sample_db \<lparr> db_bookings := [],
     db_intents := [open_intent \<lparr> in_status := st, in_payments := [paying_attempt \<lparr> pa_status := ps \<rparr>] \<rparr>] \<rparr>"

lemma open_checkout_reused_at:
  "create_checkout sample_pay live_gateway sample_env (paying_db InAwaitingPayment PaPending) 50
     = (paying_db InAwaitingPayment PaPending, Inr \<lparr> ss_attempt = 4, ss_checkout = ''checkout-4'', ss_integrity = ''sha256-A'' \<rparr>)"
proof -
  let ?d = "paying_db InAwaitingPayment PaPending"
  let ?i = "open_intent \<lparr> in_payments := [paying_attempt \<lparr> pa_status := PaPending \<rparr>] \<rparr>"
  have found: "find_intent ?d 50 = Some ?i"
    by (simp add: find_intent_def booking_of_intent_def paying_db_def open_intent_def sample_intent_def)
  have p: "open_attempt ?i = Some paying_attempt" "pa_checkout paying_attempt = Some ''checkout-4''" "''checkout-4'' \<noteq> []"
    "pa_integrity paying_attempt \<noteq> []"
    by (simp_all add: open_attempt_def open_attempts_def paying_attempt_def)
  have guards: "\<not> pw_manual sample_pay ?i" "gs_live_booking live_gateway"
    "cw_units (pw_channel sample_pay) (in_property ?i) = Some (5, Some 12)" "gs_revalidate live_gateway"
    by (simp_all add: sample_pay_def live_gateway_def sample_gateway_def sample_world_def)
  have valid: "revalidate_intent sample_pay ?d ?i = (?d, Inr ())"
    by (simp add: revalidate_intent_def sample_pay_def sample_world_def offered_price_def open_intent_def)
  have locked: "in_status ?i = InAwaitingPayment" "now sample_env < in_expires_at ?i" "\<not> pw_conflict sample_pay ?i"
    by (simp_all add: open_intent_def sample_env_def sample_pay_def)
  have due: "collectible sample_env ?d ?i = Inr (?d, 400)"
    by (rule collectible_of_open) (simp add: booking_of_intent_def paying_db_def)
  have "\<exists>s. create_checkout sample_pay live_gateway sample_env ?d 50 = (?d, Inr s)"
    using guards valid locked p by (simp add: create_checkout_def locked_checkout_def found due)
      (simp add: paying_attempt_def payment_currency_def)
  then show ?thesis
    using conjunct1 [OF open_checkout_reused [OF found p, of sample_pay live_gateway sample_env]] by (auto simp: paying_attempt_def)
qed

lemma paid_mapped: "mapped_status live_gateway (paying_attempt \<lparr> pa_status := st \<rparr>) paid_document = GwSuccess"
proof -
  have code: "map_result_code (PyStr ''000.000.000'') = GwSuccess" by code_simp
  have "verification_mismatch live_gateway (paying_attempt \<lparr> pa_status := st \<rparr>) paid_document = []"
    by (simp add: verification_mismatch_def paid_document_def paying_attempt_def dget_def live_gateway_def sample_gateway_def
        merchant_text_def)
  then show ?thesis using code by (simp add: mapped_status_def result_of_def paid_document_def dget_def)
qed

theorem success_needs_matching_document_witness:
  "pa_status (verified_attempt live_gateway sample_env (paying_attempt \<lparr> pa_status := PaPending \<rparr>) paid_document) = PaSucceeded
     \<and> decimal_of_str (dget paid_document ''amount'') = Some (Fin 400)"
proof -
  have s: "pa_status (verified_attempt live_gateway sample_env (paying_attempt \<lparr> pa_status := PaPending \<rparr>) paid_document) = PaSucceeded"
    by (simp add: verified_status paid_mapped attempt_status_def)
  show ?thesis using success_needs_matching_document [OF s] s by (simp add: paying_attempt_def)
qed

lemma paying_found: "get_attempt (paying_db st ps) 4 = Some (paying_attempt \<lparr> pa_status := ps \<rparr>)"
  by (simp add: get_attempt_def row_get_def all_attempts_def all_intents_def paying_db_def List.map_filter_simps paying_attempt_def)

lemma paying_facts:
  "pa_provider (paying_attempt \<lparr> pa_status := ps \<rparr>) = ''hyperpay''" "pa_checkout (paying_attempt \<lparr> pa_status := ps \<rparr>) = Some ''checkout-4''"
  "''checkout-4'' \<noteq> []" "pa_request (paying_attempt \<lparr> pa_status := ps \<rparr>) = None" "pa_modification (paying_attempt \<lparr> pa_status := ps \<rparr>) = None"
  "client_request live_gateway (pw_payment sample_pay ''checkout-4'') = Inr paid_document"
  "\<not> payment_id_taken (paying_db st ps) (verified_attempt live_gateway sample_env (paying_attempt \<lparr> pa_status := ps \<rparr>) paid_document)"
  by (simp_all add: paying_attempt_def client_request_def client_ready_def live_gateway_def sample_gateway_def sample_pay_def
      request_def payment_id_taken_def verified_attempt_def paying_db_def all_attempts_def all_intents_def List.map_filter_simps Let_def)

theorem late_payment_without_reservation_witness:
  "\<exists>d'. verify sample_pay live_gateway sample_env (paying_db InExpired PaPending) 4
       = (d', Inl (ValueError ''booking_intent_not_awaiting_payment''))
     \<and> map_option pa_status (get_attempt d' 4) = Some PaSucceeded \<and> db_bookings d' = []"
proof -
  let ?p = "paying_attempt \<lparr> pa_status := PaPending \<rparr>"
  let ?v = "verified_attempt live_gateway sample_env ?p paid_document"
  let ?d = "put_attempt ?v (paying_db InExpired PaPending)"
  let ?i = "open_intent \<lparr> in_status := InExpired, in_payments := [?v] \<rparr>"
  have id: "pa_id ?v = 4" by (simp add: verified_attempt_def paying_attempt_def Let_def)
  have none: "db_bookings ?d = []" "db_intents ?d = [?i]"
    using id by (simp_all add: put_attempt_def map_intents_def paying_db_def row_put_def paying_attempt_def)
  have i: "intent_of_attempt ?d 4 = Some ?i"
    using none id by (simp add: intent_of_attempt_def all_intents_def List.map_filter_simps)
  have rest: "\<not> (pa_status ?p = PaSucceeded \<and> pa_verified_at ?p \<noteq> None)" "in_status ?i \<noteq> InAwaitingPayment"
    "booking_of_intent ?d (in_id ?i) = None"
    using none by (simp_all add: paying_attempt_def booking_of_intent_def)
  show ?thesis
    using late_payment_without_reservation [OF paying_found paying_facts(1,2,3) rest(1) paying_facts(4,5,6) paid_mapped paying_facts(7)
      refl i rest(2,3), of sample_pay live_gateway sample_env] none(1) by blast
qed

lemma refunded_attempt_reopened_at:
  "\<exists>d' p'. verify sample_pay live_gateway sample_env (paying_db InCompleted PaRefunded) 4
       = complete_success sample_pay live_gateway sample_env d' p' \<and> pa_status p' = PaSucceeded"
proof -
  have "pa_status (paying_attempt \<lparr> pa_status := PaRefunded \<rparr>) \<in> {PaRefunded, PaPartiallyRefunded}" by simp
  then show ?thesis
    using refunded_attempt_reopened [OF paying_found paying_facts(1,2,3) _ paying_facts(4,6) paid_mapped paying_facts(7)] by blast
qed

end
