(* ===== verification/Webhooks.thy ===== *)
theory Webhooks
  imports AutoChanges GatewayPayments
begin

section \<open>News of the channel manager and expiry\<close>

text \<open>
  What happens to a reservation and its requests without a call of their own: the queue of webhook
  events and the copying of a reservation's snapshot
  (apps/integrations/hostaway/webhook\_processor.py), the periodic refresh of the reservations of the
  website (apps/integrations/website\_reservations.py), the expiry of quotes, intents and requests
  (apps/reservations/services/expiration.py), and the tasks that run them (apps/integrations/tasks.py).
  The channel manager's answers are parameters. A reservation without a listing has the number 0 for it.
  The last part puts these steps between those of the changes.
\<close>

subsection \<open>The copying of a snapshot\<close>

record sync_world =
  sy_properties :: "(nat \<times> int \<times> int option) list"
  sy_zone :: "nat \<Rightarrow> string option"
  sy_reference :: string
  sy_events :: "string list"
  sy_max_attempts :: nat
  sy_override :: "nat \<Rightarrow> string"

definition no_property :: nat where
  "no_property = 0"

definition match_property :: "sync_world \<Rightarrow> int \<Rightarrow> nat option \<times> string" where
  "match_property w k =
     (case find (\<lambda>(p, l, m). m = Some k) (sy_properties w) of
        Some (p, l, m) \<Rightarrow> (Some p, ''listing_map_id'')
      | None \<Rightarrow>
          (case filter (\<lambda>(p, l, m). l = k) (sy_properties w) of
             [(p, l, m)] \<Rightarrow> (Some p, ''listing_id_fallback'')
           | _ \<Rightarrow> (None, ''unmatched'')))"

text \<open>Datetimes of the two kinds do not compare.\<close>

definition earlier :: "datetime \<Rightarrow> datetime \<Rightarrow> bool res" where
  "earlier s t = (case (s, t) of
      (Aware x, Aware y) \<Rightarrow> Inr (x < y)
    | (Naive x, Naive y) \<Rightarrow> Inr (x < y)
    | _ \<Rightarrow> Inl (TypeError ''datetime''))"

definition stale_snapshot :: "booking \<Rightarrow> snapshot \<Rightarrow> bool res" where
  "stale_snapshot b s = (case (bk_source_updated b, sn_updated_at s) of
      (Some t, Some u) \<Rightarrow> earlier u t
    | _ \<Rightarrow> Inr False)"

definition blank_booking :: "sync_world \<Rightarrow> env \<Rightarrow> db \<Rightarrow> snapshot \<Rightarrow> booking" where
  "blank_booking w e d s =
     \<lparr> bk_id = next_booking d, bk_reference = sy_reference w, bk_intent = None, bk_zone = None,
       bk_source = UnknownSource, bk_status = UnknownStay, bk_created_at = now e,
       bk_check_in = sn_check_in s, bk_check_out = sn_check_out s, bk_nights = 0,
       bk_currency = sn_currency s, bk_total = sn_total s, bk_payment_status = [], bk_refunds = [],
       bk_modifications = [], bk_loyalty = blank_loyalty,
       bk_offline = None, bk_property = no_property, bk_guests = sn_guests s, bk_remote = Some (sn_id s),
       bk_listing_map = None, bk_channel = None, bk_remote_status = [], bk_source_updated = None,
       bk_synced_at = None, bk_confirmed_at = None, bk_cancelled_at = None, bk_test = False, bk_operation = None \<rparr>"

text \<open>The two timestamps follow the groups of states.\<close>

definition stamped :: "env \<Rightarrow> booking \<Rightarrow> booking" where
  "stamped e b =
     (if bk_status b \<in> set active_statuses then
        b \<lparr> bk_confirmed_at := (case bk_confirmed_at b of None \<Rightarrow> Some (now e) | Some t \<Rightarrow> Some t), bk_cancelled_at := None \<rparr>
      else if bk_status b \<in> set closed_statuses then
        b \<lparr> bk_cancelled_at := (case bk_cancelled_at b of None \<Rightarrow> Some (now e) | Some t \<Rightarrow> Some t), bk_confirmed_at := None \<rparr>
      else b)"

definition with_property :: "sync_world \<Rightarrow> nat option \<Rightarrow> booking \<Rightarrow> booking" where
  "with_property w p b = (case p of
      Some n \<Rightarrow> if bk_property b = no_property then b \<lparr> bk_property := n, bk_zone := sy_zone w n \<rparr> else b
    | None \<Rightarrow> b)"

definition synced_row :: "sync_world \<Rightarrow> env \<Rightarrow> nat option \<Rightarrow> snapshot \<Rightarrow> booking \<Rightarrow> booking" where
  "synced_row w e p s b =
     stamped e ((with_property w p b) \<lparr> bk_listing_map := Some (sn_listing_map s), bk_channel := sn_channel s,
       bk_source := (if bk_intent b = None then source_type_of s else bk_source b),
       bk_remote_status := sn_status s, bk_status := normalize_status (sn_status s),
       bk_payment_status := merge_payment_status (bk_payment_status b) (sn_payment_status s),
       bk_check_in := sn_check_in s, bk_check_out := sn_check_out s, bk_nights := nat (sn_check_out s - sn_check_in s),
       bk_guests := sn_guests s, bk_currency := sn_currency s, bk_total := sn_total s,
       bk_source_updated := sn_updated_at s, bk_synced_at := Some (now e) \<rparr>)"

text \<open>Requests that the snapshot shows carried out.\<close>

definition seen_done :: "env \<Rightarrow> snapshot \<Rightarrow> modification \<Rightarrow> modification" where
  "seen_done e s m =
     (if mo_status m \<in> {ChReady, ChProcessing, ChUnknown} \<and> snapshot_matches m s
      then m \<lparr> mo_status := ChCompleted, mo_completed_at := Some (now e) \<rparr> else m)"

definition reconcile_requests :: "env \<Rightarrow> snapshot \<Rightarrow> booking \<Rightarrow> booking" where
  "reconcile_requests e s b =
     (if bk_intent b = None then b else b \<lparr> bk_modifications := map (seen_done e s) (bk_modifications b) \<rparr>)"

text \<open>The reservation's number, how its listing was found, and whether the snapshot was stale.\<close>

definition sync_reservation_snapshot :: "sync_world \<Rightarrow> env \<Rightarrow> db \<Rightarrow> snapshot \<Rightarrow> (db \<times> nat \<times> string \<times> bool) res" where
  "sync_reservation_snapshot w e d s =
     (let (p, strategy) = match_property w (sn_listing_map s) in
      case find (\<lambda>b. bk_remote b = Some (sn_id s)) (db_bookings d) of
        Some b \<Rightarrow>
          bindE (stale_snapshot b s) (\<lambda>stale.
          if stale then Inr (d, bk_id b, strategy, True)
          else bindE (clean_booking d (synced_row w e p s b)) (\<lambda>c.
               Inr (put_booking d (reconcile_requests e s c), bk_id b, strategy, False)))
      | None \<Rightarrow>
          bindE (clean_booking d (synced_row w e p s (blank_booking w e d s))) (\<lambda>c.
            Inr (d \<lparr> db_bookings := db_bookings d @ [reconcile_requests e s c] \<rparr>, bk_id c, strategy, False)))"

subsection \<open>The queue of events\<close>

datatype event_status = EvReceived | EvProcessing | EvProcessed | EvIgnored | EvRetryable | EvFailed

record webhook_event =
  ev_id :: nat
  ev_type :: string
  ev_reservation :: "int option"
  ev_status :: event_status
  ev_attempts :: nat
  ev_received_at :: instant
  ev_started_at :: "instant option"
  ev_processed_at :: "instant option"
  ev_retry_at :: "instant option"
  ev_error :: string

type_synonym events = "webhook_event list"

definition claimable :: "bool \<Rightarrow> event_status list" where
  "claimable retry_failed = [EvReceived, EvRetryable] @ (if retry_failed then [EvFailed] else [])"

definition claim_webhook_event_ids :: "env \<Rightarrow> events \<Rightarrow> nat \<Rightarrow> nat option \<Rightarrow> bool \<Rightarrow> nat list" where
  "claim_webhook_event_ids e evs limit only retry_failed =
     take limit (map ev_id (sort_key ev_received_at (filter (\<lambda>v. ev_status v \<in> set (claimable retry_failed)
       \<and> (only = None \<or> only = Some (ev_id v))
       \<and> (case ev_retry_at v of None \<Rightarrow> True | Some t \<Rightarrow> t \<le> now e)) evs)))"

definition get_event :: "events \<Rightarrow> nat \<Rightarrow> webhook_event option" where
  "get_event evs k = row_get ev_id evs k"

definition put_event :: "events \<Rightarrow> webhook_event \<Rightarrow> events" where
  "put_event evs v = row_put ev_id evs v"

definition claim_event :: "sync_world \<Rightarrow> env \<Rightarrow> events \<Rightarrow> nat \<Rightarrow> bool \<Rightarrow> events \<times> webhook_event option" where
  "claim_event w e evs k retry_failed =
     (case get_event evs k of
        None \<Rightarrow> (evs, None)
      | Some v \<Rightarrow>
          if ev_status v \<notin> set (claimable retry_failed) then (evs, None)
          else if sy_max_attempts w \<le> ev_attempts v then
            (put_event evs (v \<lparr> ev_status := EvFailed, ev_error := ''maximum_attempts_exceeded'', ev_processed_at := Some (now e) \<rparr>), None)
          else let v' = v \<lparr> ev_status := EvProcessing, ev_attempts := ev_attempts v + 1, ev_started_at := Some (now e), ev_error := [] \<rparr>
               in (put_event evs v', Some v'))"

definition finish_event :: "env \<Rightarrow> events \<Rightarrow> nat \<Rightarrow> event_status \<Rightarrow> string \<Rightarrow> events res" where
  "finish_event e evs k status code =
     bindE (of_option (DoesNotExist ''event'') (get_event evs k)) (\<lambda>v.
       Inr (put_event evs (v \<lparr> ev_status := status, ev_error := code, ev_processed_at := Some (now e), ev_retry_at := None \<rparr>)))"

definition five_minutes :: int where
  "five_minutes = 300000000"

definition retry_event :: "sync_world \<Rightarrow> env \<Rightarrow> events \<Rightarrow> webhook_event \<Rightarrow> string \<Rightarrow> events res" where
  "retry_event w e evs v code =
     (if sy_max_attempts w \<le> ev_attempts v then finish_event e evs (ev_id v) EvFailed ''maximum_attempts_exceeded''
      else bindE (of_option (DoesNotExist ''event'') (get_event evs (ev_id v))) (\<lambda>x.
        Inr (put_event evs (x \<lparr> ev_status := EvRetryable, ev_error := code, ev_retry_at := Some (now e + five_minutes) \<rparr>))))"

text \<open>A result with the state it leaves.\<close>

definition ended :: "events \<Rightarrow> db \<Rightarrow> events res \<Rightarrow> string \<Rightarrow> events \<times> db \<times> string res" where
  "ended evs d r code = (case r of Inl x \<Rightarrow> (evs, d, Inl x) | Inr evs' \<Rightarrow> (evs', d, Inr code))"

text \<open>The rest of \<open>process_webhook_event\<close> for a claimed event; the reply is asked for only when it is needed.\<close>

definition handle_event :: "sync_world \<Rightarrow> env \<Rightarrow> events \<Rightarrow> db \<Rightarrow> webhook_event \<Rightarrow> (int \<Rightarrow> snapshot res) \<Rightarrow> events \<times> db \<times> string res" where
  "handle_event w e evs d v reply =
     (if ev_type v \<notin> set (sy_events w) then ended evs d (finish_event e evs (ev_id v) EvIgnored ''unsupported_event'') ''ignored''
      else case ev_reservation v of
        None \<Rightarrow> ended evs d (finish_event e evs (ev_id v) EvFailed ''reservation_id_missing'') ''failed''
      | Some n \<Rightarrow>
          (case reply n of
             Inl (HostawayNotFound x) \<Rightarrow> ended evs d (retry_event w e evs v ''hostaway_reservation_temporarily_missing'') ''retryable''
           | Inl (HostawayNetwork x) \<Rightarrow> ended evs d (retry_event w e evs v ''hostaway_temporarily_unavailable'') ''retryable''
           | Inl (HostawayRateLimit x) \<Rightarrow> ended evs d (retry_event w e evs v ''hostaway_temporarily_unavailable'') ''retryable''
           | Inl (HostawayServer x) \<Rightarrow> ended evs d (retry_event w e evs v ''hostaway_temporarily_unavailable'') ''retryable''
           | Inl (HostawayAuthentication x) \<Rightarrow> ended evs d (retry_event w e evs v ''hostaway_temporarily_unavailable'') ''retryable''
           | Inl (HostawayResponse x) \<Rightarrow> ended evs d (finish_event e evs (ev_id v) EvFailed ''reservation_schema_invalid'') ''failed''
           | Inl x \<Rightarrow> (evs, d, Inl x)
           | Inr s \<Rightarrow>
               (case sync_reservation_snapshot w e d s of
                  Inl x \<Rightarrow> (evs, d, Inl x)
                | Inr (d', n', strategy, stale) \<Rightarrow>
                    ended evs d' (finish_event e evs (ev_id v) EvProcessed (if stale then ''stale_event_ignored'' else []))
                      (if stale then ''stale'' else ''processed''))))"

definition process_webhook_event ::
    "sync_world \<Rightarrow> env \<Rightarrow> events \<Rightarrow> db \<Rightarrow> nat \<Rightarrow> bool \<Rightarrow> (int \<Rightarrow> snapshot res) \<Rightarrow> events \<times> db \<times> string res" where
  "process_webhook_event w e evs d k retry_failed reply =
     (case claim_event w e evs k retry_failed of
        (evs', None) \<Rightarrow> (evs', d, Inr ''not_eligible'')
      | (evs', Some v) \<Rightarrow> handle_event w e evs' d v reply)"

text \<open>The task: the events in turn, up to the first one that raises.\<close>

fun process_events :: "sync_world \<Rightarrow> env \<Rightarrow> (int \<Rightarrow> snapshot res) \<Rightarrow> events \<times> db \<Rightarrow> nat list \<Rightarrow> events \<times> db \<times> nat res" where
  "process_events w e reply (evs, d) [] = (evs, d, Inr 0)"
| "process_events w e reply (evs, d) (k # ks) =
     (case process_webhook_event w e evs d k False reply of
        (evs', d', Inl x) \<Rightarrow> (evs', d', Inl x)
      | (evs', d', Inr code) \<Rightarrow>
          (case process_events w e reply (evs', d') ks of
             (evs2, d2, Inl x) \<Rightarrow> (evs2, d2, Inl x)
           | (evs2, d2, Inr n) \<Rightarrow> (evs2, d2, Inr (n + (if code \<in> {''processed'', ''stale''} then 1 else 0)))))"

definition process_hostaway_webhooks_task ::
    "sync_world \<Rightarrow> env \<Rightarrow> bool \<Rightarrow> (int \<Rightarrow> snapshot res) \<Rightarrow> events \<Rightarrow> db \<Rightarrow> int \<Rightarrow> events \<times> db \<times> nat res" where
  "process_hostaway_webhooks_task w e enabled reply evs d limit =
     (if \<not> enabled then (evs, d, Inr 0)
      else process_events w e reply (evs, d) (claim_webhook_event_ids e evs (nat (max 1 (min limit 100))) None False))"

subsection \<open>The refresh of the website's reservations\<close>

text \<open>The rows due for a refresh; earlier synchronised ones first, never synchronised ones last.\<close>

definition refresh_due :: "env \<Rightarrow> date \<Rightarrow> booking \<Rightarrow> bool" where
  "refresh_due e today b = (bk_intent b \<noteq> None \<and> bk_remote b \<noteq> None \<and> today \<le> bk_check_out b
     \<and> bk_status b \<notin> set closed_statuses
     \<and> (case bk_synced_at b of None \<Rightarrow> True | Some t \<Rightarrow> t < now e - 60000000))"

definition refresh_candidates :: "env \<Rightarrow> db \<Rightarrow> date \<Rightarrow> int \<Rightarrow> booking list" where
  "refresh_candidates e d today limit =
     take (nat (max 1 (min limit 100)))
       (let due = sort_key bk_created_at (filter (refresh_due e today) (db_bookings d))
        in sort_key (\<lambda>b. case bk_synced_at b of None \<Rightarrow> 0 | Some t \<Rightarrow> t) (filter (\<lambda>b. bk_synced_at b \<noteq> None) due)
           @ filter (\<lambda>b. bk_synced_at b = None) due)"

definition refresh_snapshot :: "sync_world \<Rightarrow> (int \<Rightarrow> snapshot res) \<Rightarrow> booking \<Rightarrow> snapshot option" where
  "refresh_snapshot w reply b =
     (case Option.bind (bk_remote b) (\<lambda>n. Some (reply n)) of
        Some (Inr s) \<Rightarrow>
          if Some (sn_id s) \<noteq> bk_remote b \<or> Some (sn_listing_map s) \<noteq> bk_listing_map b then None
          else Some (if sy_override w (bk_property b) = [] then s else s \<lparr> sn_currency := sy_override w (bk_property b) \<rparr>)
      | _ \<Rightarrow> None)"

text \<open>One result is written; \<open>touched\<close> tells whether the row was saved since it was read.\<close>

definition refresh_write :: "sync_world \<Rightarrow> env \<Rightarrow> bool \<Rightarrow> db \<Rightarrow> snapshot option \<Rightarrow> db res" where
  "refresh_write w e touched d found_snapshot =
     (case found_snapshot of
        None \<Rightarrow> Inr d
      | Some s \<Rightarrow> if touched then Inr d
                  else bindE (sync_reservation_snapshot w e d s) (\<lambda>(d', n, strategy, stale). Inr d'))"

fun refresh_writes :: "sync_world \<Rightarrow> env \<Rightarrow> (booking \<Rightarrow> bool) \<Rightarrow> (int \<Rightarrow> snapshot res) \<Rightarrow> db \<Rightarrow> booking list \<Rightarrow> db \<times> unit res" where
  "refresh_writes w e touched reply d [] = (d, Inr ())"
| "refresh_writes w e touched reply d (b # bs) =
     (case refresh_write w e (touched b) d (refresh_snapshot w reply b) of
        Inl x \<Rightarrow> (d, Inl x)
      | Inr d' \<Rightarrow> refresh_writes w e touched reply d' bs)"

definition refresh_website_reservations ::
    "sync_world \<Rightarrow> env \<Rightarrow> bool \<Rightarrow> date \<Rightarrow> (booking \<Rightarrow> bool) \<Rightarrow> (int \<Rightarrow> snapshot res) \<Rightarrow> db \<Rightarrow> int \<Rightarrow> db \<times> unit res" where
  "refresh_website_reservations w e enabled today touched reply d limit =
     (if \<not> enabled then (d, Inr ()) else refresh_writes w e touched reply d (refresh_candidates e d today limit))"

subsection \<open>Expiry\<close>

definition oldest :: "('a \<Rightarrow> instant) \<Rightarrow> nat \<Rightarrow> 'a list \<Rightarrow> 'a list" where
  "oldest f limit xs = take limit (sort_key f xs)"

definition expiring_quotes :: "env \<Rightarrow> nat \<Rightarrow> quote_row list \<Rightarrow> nat list" where
  "expiring_quotes e limit qs =
     map qu_id (oldest qu_expires_at limit (filter (\<lambda>q. qu_status q = QuActive \<and> qu_expires_at q \<le> now e) qs))"

definition expiring_intents :: "env \<Rightarrow> nat \<Rightarrow> db \<Rightarrow> nat list" where
  "expiring_intents e limit d =
     map in_id (oldest in_expires_at limit (filter (\<lambda>i. in_expires_at i \<le> now e
       \<and> in_status i \<notin> {InCompleted, InCancelled, InExpired}) (all_intents d)))"

definition expiring_changes :: "env \<Rightarrow> nat \<Rightarrow> db \<Rightarrow> nat list" where
  "expiring_changes e limit d =
     map mo_id (oldest mo_expires_at limit (filter (\<lambda>m. mo_expires_at m \<le> now e
       \<and> mo_status m \<notin> {ChCompleted, ChRejected, ChExpired}) (all_changes d)))"

definition expired_quote :: "nat list \<Rightarrow> quote_row \<Rightarrow> quote_row" where
  "expired_quote ids q = (if qu_id q \<in> set ids then q \<lparr> qu_status := QuExpired \<rparr> else q)"

definition expired_intent :: "nat list \<Rightarrow> intent \<Rightarrow> intent" where
  "expired_intent ids i = (if in_id i \<in> set ids then i \<lparr> in_status := InExpired \<rparr> else i)"

definition expired_change :: "nat list \<Rightarrow> modification \<Rightarrow> modification" where
  "expired_change ids m = (if mo_id m \<in> set ids then m \<lparr> mo_status := ChExpired \<rparr> else m)"

definition expire_changes :: "nat list \<Rightarrow> db \<Rightarrow> db" where
  "expire_changes ids d =
     d \<lparr> db_bookings := map (\<lambda>b. b \<lparr> bk_modifications := map (expired_change ids) (bk_modifications b) \<rparr>) (db_bookings d) \<rparr>"

text \<open>The hooks after the commit: an error of one is swallowed.\<close>

definition release_points_of :: "env \<Rightarrow> db \<Rightarrow> nat \<Rightarrow> db" where
  "release_points_of e d n = (case release_expired_points e d n of Inl x \<Rightarrow> d | Inr d' \<Rightarrow> d')"

text \<open>The transaction, with the numbers of the rows; then the whole call.\<close>

definition expire_rows ::
    "env \<Rightarrow> quote_row list \<Rightarrow> db \<Rightarrow> nat \<Rightarrow> bool \<Rightarrow> bool \<Rightarrow> quote_row list \<times> db \<times> nat list \<times> nat list \<times> nat list" where
  "expire_rows e qs d limit prebooking modifications =
     (let quotes = (if prebooking then expiring_quotes e limit qs else []);
          intents = (if prebooking then expiring_intents e limit d else []);
          changes = (if modifications then expiring_changes e limit d else [])
      in (map (expired_quote quotes) qs, expire_changes changes (map_intents (expired_intent intents) d), quotes, intents, changes))"

definition expire_booking_objects ::
    "env \<Rightarrow> quote_row list \<Rightarrow> db \<Rightarrow> bool \<Rightarrow> int \<Rightarrow> bool \<Rightarrow> bool \<Rightarrow> (quote_row list \<times> db \<times> nat \<times> nat \<times> nat) res" where
  "expire_booking_objects e qs d dry_run limit prebooking modifications =
     (if \<not> (1 \<le> limit \<and> limit \<le> 5000) then Inl (ValueError ''limit'')
      else let (qs', d', quotes, intents, changes) = expire_rows e qs d (nat limit) prebooking modifications
           in Inr (if dry_run then qs else qs', if dry_run then d else foldl (release_points_of e) d' intents,
                   length quotes, length intents, length changes))"

subsection \<open>Changes, news and expiry interleaved\<close>

text \<open>
  The calls of the changes with everything that happens around them: snapshots of any age are copied
  by the queue or by the refresh, and rows expire (the hooks after an expiry touch the points only).
\<close>

inductive life_step ::
    "db \<times> change_worker list \<times> (nat \<times> nat) list \<Rightarrow> db \<times> change_worker list \<times> (nat \<times> nat) list \<Rightarrow> bool" where
  life_change: "change_step s s' \<Longrightarrow> life_step s s'"
| life_news: "sync_reservation_snapshot w e d s = Inr (d', r) \<Longrightarrow> life_step (d, ks, sent) (d', ks, sent)"
| life_expiry: "expire_rows e qs d limit prebooking modifications = (qs', d', ids) \<Longrightarrow> life_step (d, ks, sent) (d', ks, sent)"

inductive_cases life_stepE: "life_step s s'"

text \<open>Every request stays in its row, related by \<open>R\<close> to what it was.\<close>

definition requests_follow :: "(modification \<Rightarrow> modification \<Rightarrow> bool) \<Rightarrow> db \<Rightarrow> db \<Rightarrow> bool" where
  "requests_follow R d d' = (\<forall>n k m. change_at d n k = Some m \<longrightarrow> (\<exists>m'. change_at d' n k = Some m' \<and> R m m'))"

lemma tried_change_at: "tried d (n, k) \<longleftrightarrow> (\<exists>m. change_at d n k = Some m \<and> 0 < tries m)"
  by (auto simp: tried_def change_at_def bind_eq_Some_conv)

lemma follow_kept:
  assumes "requests_follow (\<lambda>m m'. tries m \<le> tries m') d d'"
  shows "db_kept d d'"
  unfolding db_kept_def
proof (intro allI impI)
  fix x assume "tried d x"
  then obtain m where m: "change_at d (fst x) (snd x) = Some m" "0 < tries m" using tried_change_at [of d "fst x" "snd x"] by auto
  then obtain m' where "change_at d' (fst x) (snd x) = Some m'" "tries m \<le> tries m'" using assms unfolding requests_follow_def by blast
  then show "tried d' x" using tried_change_at [of d' "fst x" "snd x"] m(2) by auto
qed

lemma follow_completes_none:
  "requests_follow (\<lambda>m m'. mo_completed m' \<longrightarrow> mo_completed m) d d' \<Longrightarrow> completes_none d d'"
  unfolding requests_follow_def completes_none_def by fastforce

lemma find_change_of_map:
  assumes "\<And>x. mo_id (f x) = mo_id x" and "bk_modifications c = map f (bk_modifications b)"
  shows "find_change c k = map_option f (find_change b k)"
  using assms by (simp add: find_change_def row_get_def find_map_same)

subsubsection \<open>Expiry\<close>

lemma expire_rows_at:
  "change_at (expire_changes ids (map_intents f d)) n k = map_option (expired_change ids) (change_at d n k)"
proof -
  define g where "g = (\<lambda>b::booking. (b \<lparr> bk_intent := map_option f (bk_intent b) \<rparr>)
      \<lparr> bk_modifications := map (expired_change ids) (bk_modifications b) \<rparr>)"
  have rows: "db_bookings (expire_changes ids (map_intents f d)) = map g (db_bookings d)"
    by (simp add: expire_changes_def map_intents_def g_def)
  have "get_booking (expire_changes ids (map_intents f d)) n = map_option g (get_booking d n)"
    unfolding get_booking_def row_get_def rows by (rule find_map_same) (simp add: g_def)
  moreover have "find_change (g b) k = map_option (expired_change ids) (find_change b k)" for b
    by (rule find_change_of_map) (simp_all add: g_def expired_change_def)
  ultimately show ?thesis by (simp add: change_at_def bind_map_option option.map_comp comp_def map_option_bind)
qed

lemma expiry_follows:
  assumes "expire_rows e qs d limit pre mods = (qs', d', ids)"
  shows "db_kept d d'" and "completes_none d d'"
proof -
  obtain changes f where d': "d' = expire_changes changes (map_intents f d)" using assms by (auto simp: expire_rows_def Let_def)
  have moved: "requests_follow (\<lambda>m m'. m' = expired_change changes m) d d'"
    unfolding requests_follow_def d' expire_rows_at by simp
  have "tries (expired_change changes m) = tries m" "mo_completed (expired_change changes m) \<Longrightarrow> mo_completed m" for m
    by (auto simp: expired_change_def tries_def split: if_splits)
  then have "requests_follow (\<lambda>m m'. tries m \<le> tries m') d d'" "requests_follow (\<lambda>m m'. mo_completed m' \<longrightarrow> mo_completed m) d d'"
    using moved unfolding requests_follow_def by (metis order_refl)+
  then show "db_kept d d'" "completes_none d d'" using follow_kept follow_completes_none by blast+
qed

subsubsection \<open>News\<close>

lemma reconcile_requests_fields [simp]:
  "bk_id (reconcile_requests e s b) = bk_id b" "bk_refunds (reconcile_requests e s b) = bk_refunds b"
  "bk_check_in (reconcile_requests e s b) = bk_check_in b" "bk_check_out (reconcile_requests e s b) = bk_check_out b"
  "bk_nights (reconcile_requests e s b) = bk_nights b" "bk_guests (reconcile_requests e s b) = bk_guests b"
  "bk_total (reconcile_requests e s b) = bk_total b" "bk_status (reconcile_requests e s b) = bk_status b"
  "bk_source_updated (reconcile_requests e s b) = bk_source_updated b"
  by (simp_all add: reconcile_requests_def)

lemma synced_row_fields:
  "bk_id (synced_row w e p s b) = bk_id b" "bk_modifications (synced_row w e p s b) = bk_modifications b"
  "bk_refunds (synced_row w e p s b) = bk_refunds b" "bk_intent (synced_row w e p s b) = bk_intent b"
  "bk_check_in (synced_row w e p s b) = sn_check_in s" "bk_check_out (synced_row w e p s b) = sn_check_out s"
  "bk_guests (synced_row w e p s b) = sn_guests s" "bk_total (synced_row w e p s b) = sn_total s"
  "bk_status (synced_row w e p s b) = normalize_status (sn_status s)" "bk_remote (synced_row w e p s b) = bk_remote b"
  "bk_source_updated (synced_row w e p s b) = sn_updated_at s"
  by (simp_all add: synced_row_def stamped_def with_property_def split: option.splits)

lemma find_change_reconciled:
  "find_change (reconcile_requests e s b) k = map_option (if bk_intent b = None then (\<lambda>m. m) else seen_done e s) (find_change b k)"
proof (cases "bk_intent b = None")
  case False
  have "find_change (reconcile_requests e s b) k = map_option (seen_done e s) (find_change b k)"
    by (rule find_change_of_map) (use False in \<open>auto simp: reconcile_requests_def seen_done_def\<close>)
  then show ?thesis using False by auto
qed (simp add: reconcile_requests_def option.map_ident)

lemma clean_booking_updated: "clean_booking d b0 = Inr b \<Longrightarrow> bk_source_updated b = bk_source_updated b0"
  by (auto simp: clean_booking_def Let_def split: if_splits)

lemma sync_cases:
  assumes "sync_reservation_snapshot w e d s = Inr (d', n, strategy, stale)"
  obtains b where "find (\<lambda>b. bk_remote b = Some (sn_id s)) (db_bookings d) = Some b" "d' = d" "stale" "stale_snapshot b s = Inr True" "n = bk_id b"
  | b c p where "find (\<lambda>b. bk_remote b = Some (sn_id s)) (db_bookings d) = Some b" "clean_booking d (synced_row w e p s b) = Inr c"
      "d' = put_booking d (reconcile_requests e s c)" "\<not> stale" "stale_snapshot b s = Inr False" "n = bk_id b"
  | c p where "find (\<lambda>b. bk_remote b = Some (sn_id s)) (db_bookings d) = None"
      "clean_booking d (synced_row w e p s (blank_booking w e d s)) = Inr c"
      "d' = d \<lparr> db_bookings := db_bookings d @ [reconcile_requests e s c] \<rparr>" "\<not> stale" "n = bk_id c"
  using assms
  by (auto simp: sync_reservation_snapshot_def bindE_Inr_iff split: prod.splits option.splits if_splits)

subsubsection \<open>Unique numbers\<close>

definition rows_unique :: "db \<Rightarrow> bool" where
  "rows_unique d = distinct (map bk_id (db_bookings d))"

lemma rows_unique_put [simp]: "rows_unique (put_booking d b) = rows_unique d"
  using keys_of_put [of bk_id "db_bookings d" b] by (simp add: rows_unique_def put_booking_def keys_of_def)

lemma conclude_change_put:
  assumes "conclude_change e d k reply = (d', x)"
  shows "d' = d \<or> (\<exists>b. d' = put_booking d b)"
  using assms
proof (cases rule: conclude_change_cases)
  case (2 st os code)
  from 2(1) show ?thesis by (cases rule: finish_change_cases) auto
next
  case (3 s)
  from 3(3) show ?thesis by (cases rule: record_change_cases) auto
qed simp

lemma commit_change_put: "commit_change w v e d b m = (d', x) \<Longrightarrow> d' = d \<or> (\<exists>b. d' = put_booking d b)"
  by (erule commit_change_cases) auto

lemma save_change_put: "save_change d b m = Inr (d', r) \<Longrightarrow> d' = d \<or> (\<exists>b. d' = put_booking d b)"
  by (erule save_change_cases) auto

lemma owner_total_put: "set_owner_final_total w e d n k given = Inr (d', r) \<Longrightarrow> d' = d \<or> (\<exists>b. d' = put_booking d b)"
  by (erule set_owner_final_total_cases) auto

lemma cancellation_put: "create_cancellation_request w e d n session owner = Inr (d', r) \<Longrightarrow> d' = d \<or> (\<exists>b. d' = put_booking d b)"
  by (erule create_cancellation_cases) auto

lemma change_step_rows:
  assumes "change_step (d, ks, sent) (d', ks', sent')"
  shows "d' = d \<or> (\<exists>b. d' = put_booking d b)"
  using assms
  by (cases rule: change_step.cases)
    (blast dest: commit_change_put conclude_change_put save_change_put owner_total_put cancellation_put)+

lemma found_row:
  assumes "rows_unique d" and "find P (db_bookings d) = Some b"
  shows "get_booking d (bk_id b) = Some b" "P b"
proof -
  have b: "b \<in> set (db_bookings d)" "P b" using find_Some_in [OF assms(2)] by auto
  then show "P b" by simp
  show "get_booking d (bk_id b) = Some b"
    unfolding get_booking_def row_get_def
    by (rule find_unique) (use assms(1) b in \<open>auto simp: rows_unique_def distinct_map inj_on_def\<close>)
qed

lemma next_booking_fresh: "b \<in> set (db_bookings d) \<Longrightarrow> bk_id b < next_booking d"
  unfolding next_booking_def by (intro le_imp_less_Suc Max_ge) auto

lemma new_booking_id: "clean_booking d (synced_row w e p s (blank_booking w e d s)) = Inr c \<Longrightarrow> bk_id c = next_booking d"
  by (drule clean_booking_row) (simp add: synced_row_fields blank_booking_def)

lemma sync_rows_unique:
  assumes "rows_unique d" and "sync_reservation_snapshot w e d s = Inr (d', n, strategy, stale)"
  shows "rows_unique d'"
  using assms(2)
proof (cases rule: sync_cases)
  case (3 c p)
  have "bk_id c \<notin> set (map bk_id (db_bookings d))" using next_booking_fresh new_booking_id [OF 3(2)] by fastforce
  then show ?thesis using assms(1) 3(3) by (simp add: rows_unique_def)
qed (use assms(1) in simp_all)

text \<open>What a snapshot makes of one request.\<close>

lemma sync_change_at:
  assumes u: "rows_unique d" and run: "sync_reservation_snapshot w e d s = Inr (d', n, strategy, stale)"
    and m: "change_at d j r = Some m"
  obtains "change_at d' j r = Some m"
  | b' where "change_at d' j r = Some (seen_done e s m)" "get_booking d' j = Some b'" "bk_status b' = normalize_status (sn_status s)"
      "bk_check_in b' = sn_check_in s" "bk_check_out b' = sn_check_out s" "bk_guests b' = sn_guests s" "bk_total b' = sn_total s"
      "int (bk_nights b') = sn_check_out s - sn_check_in s"
  using run
proof (cases rule: sync_cases)
  case 1
  then show ?thesis using that(1) m by simp
next
  case (2 b c p)
  note row = found_row [OF u 2(1)]
  note same = clean_booking_row [OF 2(2), unfolded synced_row_fields] clean_booking_more [OF 2(2), unfolded synced_row_fields]
  have id: "bk_id c = bk_id b" using same by simp
  have get: "get_booking d' x = (if x = bk_id b then Some (reconcile_requests e s c) else get_booking d x)" for x
    using booking_table.get_after_put [of d "reconcile_requests e s c" b x] row(1) id 2(3) by simp
  show ?thesis
  proof (cases "j = bk_id b")
    case False
    then show ?thesis using that(1) m get by (simp add: change_at_def)
  next
    case True
    have "find_change b r = Some m" using m True row(1) by (simp add: change_at_def)
    then have c: "find_change c r = Some m" using same by (simp add: find_change_def)
    have new: "change_at d' j r = Some ((if bk_intent c = None then (\<lambda>m. m) else seen_done e s) m)"
      using get True c find_change_reconciled [of e s c r] by (simp add: change_at_def)
    show ?thesis
    proof (cases "bk_intent c = None")
      case True
      then show ?thesis using that(1) new by simp
    next
      case False
      then have "change_at d' j r = Some (seen_done e s m)" using new by auto
      then show ?thesis using that(2) [of "reconcile_requests e s c"] get [of j] \<open>j = bk_id b\<close> same by simp
    qed
  qed
next
  case (3 c p)
  obtain b where "get_booking d j = Some b" "find_change b r = Some m" using m by (auto simp: change_at_def bind_eq_Some_conv)
  moreover have "get_booking d' j = Some b" using get_booking_append [of d' d "[reconcile_requests e s c]"] 3(3) calculation by simp
  ultimately show ?thesis using that(1) by (simp add: change_at_def)
qed

lemma seen_done_fields: "mo_id (seen_done e s m) = mo_id m" "tries (seen_done e s m) = tries m"
    "mo_completed (seen_done e s m) \<Longrightarrow> \<not> mo_completed m \<Longrightarrow> mo_status m \<in> {ChReady, ChProcessing, ChUnknown} \<and> snapshot_matches m s"
  by (auto simp: seen_done_def tries_def split: if_splits)

lemma sync_kept:
  assumes "rows_unique d" and "sync_reservation_snapshot w e d s = Inr (d', n, strategy, stale)"
  shows "db_kept d d'"
proof (rule follow_kept)
  show "requests_follow (\<lambda>m m'. tries m \<le> tries m') d d'"
    unfolding requests_follow_def
  proof (intro allI impI)
    fix j r m assume "change_at d j r = Some m"
    then show "\<exists>m'. change_at d' j r = Some m' \<and> tries m \<le> tries m'"
      by (rule sync_change_at [OF assms]) (simp_all add: seen_done_fields)
  qed
qed

subsubsection \<open>The life of a change\<close>

definition life_ok :: "db \<times> change_worker list \<times> (nat \<times> nat) list \<Rightarrow> bool" where
  "life_ok s = (rows_unique (fst s) \<and> writes_tried s \<and> calls_written s)"

lemma expire_rows_unique: "expire_rows e qs d limit pre mods = (qs', d', ids) \<Longrightarrow> rows_unique d' = rows_unique d"
  by (auto simp: expire_rows_def Let_def rows_unique_def expire_changes_def map_intents_def comp_def)

lemma life_step_ok:
  assumes "life_step s s'" and "life_ok s"
  shows "life_ok s'"
  using assms
proof (induction rule: life_step.induct)
  case (life_change s s')
  obtain d ks sent d' ks' sent' where s: "s = (d, ks, sent)" "s' = (d', ks', sent')" by (cases s, cases s')
  have "rows_unique d'" using change_step_rows [of d ks sent d' ks' sent'] life_change s by (auto simp: life_ok_def)
  then show ?case
    using change_step_tried [OF life_change(1)] change_step_written [OF life_change(1)] life_change(2) s by (simp add: life_ok_def)
next
  case (life_news w e d s d' r ks sent)
  obtain n strategy stale where r: "r = (n, strategy, stale)" by (cases r)
  have u: "rows_unique d" using life_news(2) by (simp add: life_ok_def)
  show ?case
    using writes_tried_kept [OF _ sync_kept [OF u life_news(1) [unfolded r]]] sync_rows_unique [OF u life_news(1) [unfolded r]] life_news(2)
    by (auto simp: life_ok_def calls_written_def)
next
  case (life_expiry e qs d limit pre mods qs' d' ids ks sent)
  show ?case
    using writes_tried_kept [OF _ expiry_follows(1) [OF life_expiry(1)]] expire_rows_unique [OF life_expiry(1)] life_expiry(2)
    by (auto simp: life_ok_def calls_written_def)
qed

lemma life_steps_ok:
  assumes "life_step\<^sup>*\<^sup>* (d, [], []) s" and "rows_unique d"
  shows "life_ok s"
  using assms(1) by (induction rule: rtranclp_induct) (use assms(2) life_step_ok in \<open>auto simp: life_ok_def writes_tried_def calls_written_def\<close>)

text \<open>C7: a change is written to the channel manager at most once: over every interleaving of calls by
  several processes, with every answer or loss of an answer, with requests made, repriced, cancelled
  and expired, and with snapshots of any age copied in between, no request of a reservation appears
  twice among the writes.\<close>

theorem change_sent_once:
  assumes "life_step\<^sup>*\<^sup>* (d, [], []) (d', ks, sent)" and "rows_unique d"
  shows "distinct sent"
  using life_steps_ok [OF assms] by (simp add: life_ok_def writes_tried_def)

definition stay_as_shown :: "booking \<Rightarrow> snapshot \<Rightarrow> bool" where
  "stay_as_shown b s = (bk_check_in b = sn_check_in s \<and> bk_check_out b = sn_check_out s \<and> bk_guests b = sn_guests s
     \<and> bk_total b = sn_total s \<and> int (bk_nights b) = sn_check_out s - sn_check_in s)"


subsubsection \<open>A cancellation that is carried out\<close>

lemma leaving_unique: "rows_unique leaving_db"
  by (simp add: rows_unique_def leaving_db_def)

lemma leaving_life: "life_step\<^sup>*\<^sup>* (leaving_db, [], []) (waiting_db, [waiting_call], [(70, 8)])"
proof -
  have "life_step\<^sup>*\<^sup>* s s'" if "change_step\<^sup>*\<^sup>* s s'" for s s'
    using that by (induction rule: rtranclp_induct) (auto intro: life_change rtranclp.rtrancl_into_rtrancl)
  then show ?thesis using leaving_run by blast
qed

theorem change_sent_once_witness:
  "\<exists>d' ks sent. life_step\<^sup>*\<^sup>* (leaving_db, [], []) (d', ks, sent) \<and> sent = [(70, 8)] \<and> distinct sent"
  using leaving_life change_sent_once [OF leaving_life leaving_unique] by blast


subsection \<open>The order of the news\<close>

text \<open>Dated snapshots never take a reservation back.\<close>

lemma dated_news_in_order:
  assumes u: "rows_unique d" and run: "sync_reservation_snapshot w e d s = Inr (d', n, strategy, stale)"
    and b: "find (\<lambda>b. bk_remote b = Some (sn_id s)) (db_bookings d) = Some b"
    and t: "bk_source_updated b = Some (Aware t)" "sn_updated_at s = Some (Aware v)"
  shows "\<exists>b'. get_booking d' (bk_id b) = Some b' \<and> bk_source_updated b' = Some (Aware (max t v))"
  using run
proof (cases rule: sync_cases)
  case (1 b1)
  then show ?thesis using found_row(1) [OF u b] b t by (auto simp: stale_snapshot_def earlier_def)
next
  case (2 b1 c p)
  then have same: "b1 = b" using b by simp
  have "get_booking d' (bk_id b) = Some (reconcile_requests e s c)"
    using booking_table.get_put_same [of d "reconcile_requests e s c" b] found_row(1) [OF u b] 2(3) same
      clean_booking_row [OF 2(2), unfolded synced_row_fields] by simp
  then show ?thesis using 2(2,5) t same by (auto simp: stale_snapshot_def earlier_def clean_booking_updated synced_row_fields)
qed (use b in simp)

lemma clean_remote_free: "clean_booking d b0 = Inr b \<Longrightarrow> \<not> remote_taken d b"
  by (auto simp: clean_booking_def Let_def remote_taken_def split: if_splits)

lemma reconcile_requests_remote [simp]: "bk_remote (reconcile_requests e s b) = bk_remote b"
  by (simp add: reconcile_requests_def)

lemma copied_date:
  assumes run: "sync_reservation_snapshot w e d s = Inr (d', n, strategy, False)"
    and b: "b \<in> set (db_bookings d')" "bk_remote b = Some (sn_id s)"
  shows "bk_source_updated b = sn_updated_at s"
  using run
proof (cases rule: sync_cases)
  case (2 b1 c p)
  note same = clean_booking_row [OF 2(2), unfolded synced_row_fields]
  have remote: "bk_remote c = Some (sn_id s)" using same find_Some_in [OF 2(1)] by simp
  have "b = reconcile_requests e s c"
  proof (rule ccontr)
    assume "b \<noteq> reconcile_requests e s c"
    then have "b \<in> set (db_bookings d)" "bk_id b \<noteq> bk_id c"
      using b(1) 2(3) by (auto simp: put_booking_def row_put_def split: if_splits)
    then show False using clean_remote_free [OF 2(2)] remote b(2) by (auto simp: remote_taken_def list_ex_iff)
  qed
  then show ?thesis using clean_booking_updated [OF 2(2)] by (simp add: synced_row_fields)
next
  case (3 c p)
  then have "b = reconcile_requests e s c" using b by (auto simp: find_None_iff)
  then show ?thesis using clean_booking_updated [OF 3(2)] by (simp add: synced_row_fields)
qed simp

text \<open>One snapshot without a date lets any older one through. A snapshot that does not say when the
  reservation was changed is copied with its missing date, so that the next snapshot of the
  reservation is never stale, however old it is, and overwrites what is newer.\<close>

lemma undated_news_lifts_guard:
  assumes "sync_reservation_snapshot w e d s = Inr (d', n, strategy, False)" and "sn_updated_at s = None"
    and "sn_id s2 = sn_id s" and "sync_reservation_snapshot w2 e2 d' s2 = Inr (d2, n2, strategy2, stale2)"
  shows "\<not> stale2"
  using assms(4)
proof (cases rule: sync_cases)
  case (1 b)
  have "b \<in> set (db_bookings d')" "bk_remote b = Some (sn_id s)" using find_Some_in [OF 1(1)] assms(3) by auto
  then have "bk_source_updated b = None" using copied_date [OF assms(1)] assms(2) by simp
  then show ?thesis using 1(4) by (simp add: stale_snapshot_def)
qed simp_all

subsection \<open>What the news and the expiry leave behind\<close>

text \<open>C38: a cancellation that the news complete is never refunded. When a snapshot shows a cancellation
  carried out whose call is still running, lost or not yet made, the request is completed and no
  debt is written down; every later call of the automatic execution, with any approval, leaves
  the database as it is, so the debt that the execution writes after its own answer never comes.\<close>

theorem news_completion_without_debt:
  assumes u: "rows_unique d" and run: "sync_reservation_snapshot w e d s = Inr (d', n, strategy, False)"
    and b: "get_booking d n = Some b" "find_change b k = Some m" "bk_remote b = Some (sn_id s)" "bk_intent b \<noteq> None"
    and m: "mo_type m = CancelReservation" "mo_status m \<in> {ChReady, ChProcessing, ChUnknown}" "is_cancelled_text (sn_status s)"
  shows "\<exists>b' m'. get_booking d' n = Some b' \<and> find_change b' k = Some m' \<and> mo_completed m' \<and> bk_refunds b' = bk_refunds b
     \<and> (\<forall>a e2 kind approved owner. \<exists>x. execute_automatic_modification a e2 d' n k kind approved owner = (d', x))"
  using run
proof (cases rule: sync_cases)
  case (2 b1 c p)
  note same = clean_booking_row [OF 2(2), unfolded synced_row_fields] clean_booking_more [OF 2(2), unfolded synced_row_fields]
  have "b1 = b" using found_row(1) [OF u 2(1)] 2(6) b(1) by simp
  let ?b = "reconcile_requests e s c" and ?m = "seen_done e s m"
  have row: "get_booking d' n = Some ?b"
    using booking_table.get_put_same [of d ?b b] b(1) 2(3,6) same \<open>b1 = b\<close> by simp
  have "find_change c k = Some m" using b(2) same \<open>b1 = b\<close> by (simp add: find_change_def)
  moreover have "bk_intent c \<noteq> None" using same b(4) \<open>b1 = b\<close> by simp
  ultimately have change: "find_change ?b k = Some ?m" using find_change_reconciled [of e s c k] by auto
  have done_now: "mo_completed ?m" "mo_type ?m = CancelReservation" using m by (simp_all add: seen_done_def snapshot_matches_def)
  have "\<exists>x. execute_automatic_modification a e2 d' n k kind approved owner = (d', x)" for a e2 kind approved owner
  proof -
    have "approval_blocker a e2 d' ?b ?m approved owner = Inr ''already_completed''"
      using done_now by (simp add: approval_blocker_def next_blocker_def)
    then have "approve_change a e2 d' n k approved owner = Inr (d', Inl ''already_completed'')"
      using row change by (simp add: approve_change_def with_change_def of_option_def)
    moreover have "leave_to_administration d' n k = (d', Inr ''automatic_approval_disabled'')"
      using row change done_now(1) by (simp add: leave_to_administration_def with_change_def of_option_def)
    ultimately show ?thesis by (simp add: execute_automatic_modification_def)
  qed
  then show ?thesis using row change done_now(1) same \<open>b1 = b\<close> by (intro exI [of _ ?b] exI [of _ ?m]) simp
next
  case (3 c p)
  then show ?thesis using b by (auto simp: find_None_iff get_booking_def dest: row_get_mem)
qed simp

lemma seen_done_expired: "mo_status m = ChExpired \<Longrightarrow> seen_done e s m = m"
  by (simp add: seen_done_def)

lemma oldest_all: "length xs \<le> limit \<Longrightarrow> set (oldest f limit xs) = set xs"
  by (simp add: oldest_def)

lemma expire_rows_find:
  "get_booking (expire_changes ids (map_intents f d)) n = map_option (\<lambda>b. (b \<lparr> bk_intent := map_option f (bk_intent b) \<rparr>)
      \<lparr> bk_modifications := map (expired_change ids) (bk_modifications b) \<rparr>) (get_booking d n)"
  unfolding get_booking_def row_get_def expire_changes_def map_intents_def
  by (simp add: comp_def) (rule find_map_same, simp)

text \<open>C39: expiry forgets a change whose outcome is not known. A request whose write to the channel manager
  is running or uncertain expires like one that was never sent: it becomes expired, no snapshot that
  shows it carried out completes it any more, and when it was the only one in progress the
  reservation is free for the next request.\<close>

theorem uncertain_change_forgotten:
  assumes "rows_unique d" and "get_booking d n = Some b" and "find_change b k = Some m"
    and "mo_status m \<in> {ChProcessing, ChUnknown}" and "mo_expires_at m \<le> now e" and "length (all_changes d) \<le> limit"
    and "expire_rows e qs d limit pre True = (qs', d', ids)"
    and "\<forall>x \<in> set (bk_modifications b). mo_status x \<in> {ChProcessing, ChUnknown} \<longrightarrow> mo_id x = k"
  shows "change_at d' n k = Some (m \<lparr> mo_status := ChExpired \<rparr>)
    \<and> (\<exists>b'. get_booking d' n = Some b' \<and> \<not> in_progress b')
    \<and> (\<forall>w e2 s d2 j strategy stale. sync_reservation_snapshot w e2 d' s = Inr (d2, j, strategy, stale)
        \<longrightarrow> change_at d2 n k = Some (m \<lparr> mo_status := ChExpired \<rparr>))"
proof -
  let ?x = "m \<lparr> mo_status := ChExpired \<rparr>"
  obtain f where d': "d' = expire_changes (expiring_changes e limit d) (map_intents f d)"
    using assms(7) by (auto simp: expire_rows_def Let_def)
  have id: "mo_id m = k" by (rule find_change_id [OF assms(3)])
  have mem: "m \<in> set (bk_modifications b)" using assms(3) by (auto simp: find_change_def dest: row_get_mem)
  have "b \<in> set (db_bookings d)" using assms(2) by (auto simp: get_booking_def dest: row_get_mem)
  then have m: "m \<in> set (all_changes d)" using mem by (auto simp: all_changes_def)
  define P where "P = (\<lambda>m::modification. mo_expires_at m \<le> now e \<and> mo_status m \<notin> {ChCompleted, ChRejected, ChExpired})"
  have "length (filter P (all_changes d)) \<le> limit" using assms(6) length_filter_le le_trans by blast
  moreover have "P m" using assms(4,5) by (auto simp: P_def)
  ultimately have "m \<in> set (oldest mo_expires_at limit (filter P (all_changes d)))" using m by (simp add: oldest_all)
  then have listed: "k \<in> set (expiring_changes e limit d)" using id unfolding expiring_changes_def P_def by force
  have at': "change_at d' n k = Some ?x"
    unfolding d' expire_rows_at using assms(2,3) listed id by (simp add: change_at_def expired_change_def)
  moreover have "change_at d2 n k = Some ?x"
    if run: "sync_reservation_snapshot w e2 d' s = Inr (d2, j, strategy, stale)" for w e2 s d2 j strategy stale
  proof -
    have "rows_unique d'" using assms(1) expire_rows_unique [OF assms(7)] by simp
    from sync_change_at [OF this run at'] show ?thesis by cases (simp_all add: seen_done_expired)
  qed
  moreover have "\<exists>b'. get_booking d' n = Some b' \<and> \<not> in_progress b'"
    using assms(2,8) listed by (auto simp: d' expire_rows_find in_progress_def list_ex_iff expired_change_def)
  ultimately show ?thesis by blast
qed

subsection \<open>Events\<close>

text \<open>An event is handled at most as often as the setting says.\<close>

definition attempts_bounded :: "sync_world \<Rightarrow> events \<Rightarrow> bool" where
  "attempts_bounded w evs = (\<forall>v \<in> set evs. ev_attempts v \<le> sy_max_attempts w)"

lemma attempts_bounded_put:
  "attempts_bounded w evs \<Longrightarrow> ev_attempts v \<le> sy_max_attempts w \<Longrightarrow> attempts_bounded w (put_event evs v)"
  by (auto simp: attempts_bounded_def put_event_def row_put_def)

lemma get_event_bounded: "attempts_bounded w evs \<Longrightarrow> get_event evs k = Some v \<Longrightarrow> ev_attempts v \<le> sy_max_attempts w"
  by (auto simp: attempts_bounded_def get_event_def dest: row_get_mem)

lemma claim_event_bounded:
  assumes "attempts_bounded w evs" and "claim_event w e evs k retry_failed = (evs', r)"
  shows "attempts_bounded w evs'"
  using assms get_event_bounded [OF assms(1)]
  by (auto simp: claim_event_def Let_def intro!: attempts_bounded_put split: option.splits if_splits)

lemma finish_event_bounded:
  assumes "attempts_bounded w evs" and "finish_event e evs k status code = Inr evs'"
  shows "attempts_bounded w evs'"
  using assms get_event_bounded by (auto simp: finish_event_def bindE_Inr_iff intro!: attempts_bounded_put)

lemma retry_event_bounded:
  assumes "attempts_bounded w evs" and "retry_event w e evs v code = Inr evs'"
  shows "attempts_bounded w evs'"
  using assms get_event_bounded finish_event_bounded
  by (auto simp: retry_event_def bindE_Inr_iff intro!: attempts_bounded_put split: if_splits)

lemma ended_bounded:
  assumes "ended evs d r code = (evs', d', x)" and "attempts_bounded w evs" and "\<And>evs2. r = Inr evs2 \<Longrightarrow> attempts_bounded w evs2"
  shows "attempts_bounded w evs'"
  using assms by (auto simp: ended_def split: sum.splits)

lemma handle_event_bounded:
  assumes ok: "attempts_bounded w evs" and run: "handle_event w e evs d v reply = (evs', d', x)"
  shows "attempts_bounded w evs'"
proof -
  note done_bounded = ended_bounded [OF _ ok finish_event_bounded [OF ok]] ended_bounded [OF _ ok retry_event_bounded [OF ok]]
  show ?thesis
  proof (cases "ev_type v \<notin> set (sy_events w) \<or> ev_reservation v = None")
    case True
    then show ?thesis using run done_bounded by (auto simp: handle_event_def split: if_splits)
  next
    case False
    then obtain n where n: "ev_reservation v = Some n" "ev_type v \<in> set (sy_events w)" by auto
    show ?thesis
    proof (cases "reply n")
      case (Inl y)
      then show ?thesis using run n done_bounded ok by (cases y) (auto simp: handle_event_def)
    next
      case (Inr s)
      then show ?thesis using run n done_bounded ok by (auto simp: handle_event_def split: sum.splits)
    qed
  qed
qed

lemma event_attempts_bounded:
  assumes "attempts_bounded w evs" and "process_events w e reply (evs, d) ks = (evs', d', x)"
  shows "attempts_bounded w evs'"
  using assms
proof (induction w e reply "(evs, d)" ks arbitrary: evs d evs' d' x rule: process_events.induct)
  case (2 w e reply evs d k ks)
  obtain evs1 d1 y where one: "process_webhook_event w e evs d k False reply = (evs1, d1, y)" by (metis surj_pair)
  obtain evs0 r where claim: "claim_event w e evs k False = (evs0, r)" by (metis surj_pair)
  have ok0: "attempts_bounded w evs0" by (rule claim_event_bounded [OF 2(2) claim])
  have ok: "attempts_bounded w evs1"
  proof (cases r)
    case None
    then show ?thesis using one claim ok0 by (simp add: process_webhook_event_def)
  next
    case (Some v)
    then have "handle_event w e evs0 d v reply = (evs1, d1, y)" using one claim by (simp add: process_webhook_event_def)
    then show ?thesis by (rule handle_event_bounded [OF ok0])
  qed
  then show ?case using 2 one by (auto split: sum.splits prod.splits)
qed simp

text \<open>
  An event whose worker raises something the code does not expect, or dies, stays in processing:
  no queue offers it again and no claim takes it, even when failed events are retried.
\<close>

lemma processing_never_claimed:
  assumes "get_event evs k = Some v" and "ev_status v = EvProcessing"
  shows "claim_event w e evs k retry_failed = (evs, None)"
    and "handle_event w e evs d v (\<lambda>n. Inl (HostawayConfiguration t)) = (evs, d, Inl (HostawayConfiguration t))
      \<or> ev_type v \<notin> set (sy_events w) \<or> ev_reservation v = None"
  using assms by (auto simp: claim_event_def claimable_def handle_event_def)

subsection \<open>Sample news\<close>

definition sample_sync :: sync_world where
  "sample_sync = \<lparr> sy_properties = [(1, 5, Some 12)], sy_zone = (\<lambda>p. Some ''UTC''), sy_reference = ''RS9'',
     sy_events = [''reservation.updated''], sy_max_attempts = 5, sy_override = (\<lambda>p. []) \<rparr>"

definition old_news :: snapshot where
  "old_news = cancelled_snapshot \<lparr> sn_status := ''new'', sn_updated_at := Some (Aware 5) \<rparr>"

lemma news_copied: "\<exists>d' n strategy. sync_reservation_snapshot sample_sync sample_env waiting_db cancelled_snapshot = Inr (d', n, strategy, False)
    \<and> n = 70 \<and> (\<exists>d2 n2 strategy2. sync_reservation_snapshot sample_sync sample_env d' old_news = Inr (d2, n2, strategy2, False))"
proof -
  have "case sync_reservation_snapshot sample_sync sample_env waiting_db cancelled_snapshot of Inl x \<Rightarrow> False
      | Inr (d', n, strategy, stale) \<Rightarrow> \<not> stale \<and> n = 70 \<and>
          (case sync_reservation_snapshot sample_sync sample_env d' old_news of Inl x \<Rightarrow> False | Inr (d2, n2, strategy2, stale2) \<Rightarrow> \<not> stale2)"
    by code_simp
  then show ?thesis by (auto split: sum.splits prod.splits)
qed

lemma undated_news_lifts_guard_at:
  "\<exists>d' n strategy d2 n2 strategy2 stale2. sync_reservation_snapshot sample_sync sample_env waiting_db cancelled_snapshot = Inr (d', n, strategy, False)
     \<and> sync_reservation_snapshot sample_sync sample_env d' old_news = Inr (d2, n2, strategy2, stale2) \<and> \<not> stale2"
proof -
  obtain d' n strategy d2 n2 strategy2 where
    run: "sync_reservation_snapshot sample_sync sample_env waiting_db cancelled_snapshot = Inr (d', n, strategy, False)"
      "sync_reservation_snapshot sample_sync sample_env d' old_news = Inr (d2, n2, strategy2, False)"
    using news_copied by blast
  show ?thesis
    using undated_news_lifts_guard [OF run(1) _ _ run(2)] run by (auto simp: cancelled_snapshot_def old_news_def)
qed

lemma waiting_unique: "rows_unique waiting_db"
  using leaving_unique by (simp add: waiting_db_def)

lemma waiting_facts: "bk_remote (put_change leaving_booking written_cancellation) = Some (sn_id cancelled_snapshot)"
    "bk_intent (put_change leaving_booking written_cancellation) \<noteq> None" "mo_type written_cancellation = CancelReservation"
    "mo_status written_cancellation = ChProcessing" "is_cancelled_text (sn_status cancelled_snapshot)"
    "mo_expires_at written_cancellation = 2000"
  by (simp_all add: put_change_def leaving_defs cancelled_snapshot_def written_cancellation_def started_change_def
      sample_cancellation_def) code_simp

theorem news_completion_without_debt_witness:
  "\<exists>d' n strategy b' m'. sync_reservation_snapshot sample_sync sample_env waiting_db cancelled_snapshot = Inr (d', n, strategy, False)
     \<and> get_booking d' 70 = Some b' \<and> find_change b' 8 = Some m' \<and> mo_completed m' \<and> bk_refunds b' = []"
proof -
  obtain d' strategy where run: "sync_reservation_snapshot sample_sync sample_env waiting_db cancelled_snapshot = Inr (d', 70, strategy, False)"
    using news_copied by blast
  have "bk_refunds (put_change leaving_booking written_cancellation) = []" by (simp add: put_change_def leaving_defs)
  then show ?thesis
    using news_completion_without_debt [OF waiting_unique run waiting_found written_row(1) waiting_facts(1-3) _ waiting_facts(5)] run waiting_facts(4)
    by auto
qed

theorem uncertain_change_forgotten_witness:
  "\<exists>qs' d' ids b'. expire_rows (sample_env \<lparr> now := 3000 \<rparr>) [] waiting_db 500 False True = (qs', d', ids)
     \<and> change_at d' 70 8 = Some (written_cancellation \<lparr> mo_status := ChExpired \<rparr>) \<and> get_booking d' 70 = Some b' \<and> \<not> in_progress b'"
proof -
  let ?b = "put_change leaving_booking written_cancellation"
  obtain qs' d' ids where run: "expire_rows (sample_env \<lparr> now := 3000 \<rparr>) [] waiting_db 500 False True = (qs', d', ids)" by (metis surj_pair)
  have rows: "db_bookings waiting_db = [?b]"
    using written_row(3) leaving_found(2) by (simp add: waiting_db_def put_booking_def row_put_def leaving_db_def)
  have mods: "bk_modifications ?b = [written_cancellation]"
    using written_row(2) leaving_found(4) by (simp add: put_change_def row_put_def leaving_booking_def)
  have few: "length (all_changes waiting_db) \<le> 500" by (simp add: all_changes_def rows mods)
  have one: "\<forall>x \<in> set (bk_modifications ?b). mo_status x \<in> {ChProcessing, ChUnknown} \<longrightarrow> mo_id x = 8"
    using written_row(2) by (simp add: mods)
  have state: "mo_status written_cancellation \<in> {ChProcessing, ChUnknown}" "mo_expires_at written_cancellation \<le> now (sample_env \<lparr> now := 3000 \<rparr>)"
    using waiting_facts(4,6) by simp_all
  show ?thesis
    using uncertain_change_forgotten [OF waiting_unique waiting_found written_row(1) state few run one] run by blast
qed

end
