(* ===== verification/Receipts.thy ===== *)
theory Receipts
  imports GatewayPayments
begin

section \<open>Receipts at the channel manager (apps/payments/hostaway\_ledger.py)\<close>

text \<open>
  Every verified card payment is written down once as an offline receipt at the channel manager. The
  queue makes one entry per payment; the task reads the reservation and its receipts, marks the entry
  and posts. The calls of the client are parameters, in the order the task makes them: the
  reservation, its receipts, the new receipt. A task is cut in two where it posts, so that it can die
  there. The task's lock makes the runs for one entry follow each other.
\<close>

datatype entry_status = FePending | FePosting | FeSucceeded | FeUnknown | FeReview

record financial_entry =
  fe_id :: nat
  fe_attempt :: nat
  fe_status :: entry_status
  fe_charge :: "int option"
  fe_error :: string
  fe_completed :: "instant option"

record payment_request =
  pr_status :: string
  pr_amount :: rat
  pr_environment :: string
  pr_source :: rat
  pr_currency :: string

record receipts_world =
  rc_enabled :: bool
  rc_production :: bool
  rc_start :: "datetime option"
  rc_request :: "nat \<Rightarrow> payment_request option"
  rc_marker :: "nat \<Rightarrow> string"

type_synonym charges = "(string \<times> pyval) list list"

subsection \<open>What is written\<close>

definition receipts_cutoff :: "receipts_world \<Rightarrow> instant option" where
  "receipts_cutoff w = (if \<not> rc_enabled w \<or> \<not> rc_production w then None
     else case rc_start w of Some (Aware t) \<Rightarrow> Some t | _ \<Rightarrow> None)"

definition collected_statuses :: "payment_status list" where
  "collected_statuses = [PaSucceeded, PaPartiallyRefunded, PaRefunded]"

definition points_used :: "booking \<Rightarrow> bool" where
  "points_used b = (ls_hold (bk_loyalty b) \<noteq> None \<or> ls_redemption (bk_loyalty b) \<noteq> None
     \<or> ls_frozen (bk_loyalty b) \<noteq> None \<or> ls_points_started (bk_loyalty b))"

definition direct_receipt_value :: "env \<Rightarrow> payment \<Rightarrow> intent \<Rightarrow> booking \<Rightarrow> (rat \<times> string) res" where
  "direct_receipt_value e p i b =
     (if bk_currency b = pa_currency p then Inr (pa_amount p, pa_currency p)
      else if pa_modification p \<noteq> None \<or> pa_currency p \<noteq> ''SAR'' \<or> in_currency i \<noteq> bk_currency b
           \<or> in_total i \<noteq> bk_total b \<or> Some (pa_amount p) \<noteq> in_payment_sar i \<or> points_used b
      then Inl (ValueError ''foreign_receipt_requires_full_initial_payment'')
      else bindE (validate_payment_snapshot (fx e) (PyDec (Fin (in_total i))) (PyStr (in_currency i))
             (PyDec (Fin (pa_amount p))) (in_fx i)) (\<lambda>_.
           Inr (in_total i, in_currency i)))"

subsection \<open>The queue\<close>

definition entry_of :: "financial_entry list \<Rightarrow> nat \<Rightarrow> financial_entry option" where
  "entry_of fs n = find (\<lambda>f. fe_attempt f = n) fs"

definition get_entry :: "financial_entry list \<Rightarrow> nat \<Rightarrow> financial_entry option" where
  "get_entry fs k = row_get fe_id fs k"

definition put_entry :: "financial_entry list \<Rightarrow> financial_entry \<Rightarrow> financial_entry list" where
  "put_entry fs f = row_put fe_id fs f"

definition next_entry :: "financial_entry list \<Rightarrow> nat" where
  "next_entry fs = Suc (Max (insert 0 (set (map fe_id fs))))"

definition new_entry :: "financial_entry list \<Rightarrow> nat \<Rightarrow> financial_entry" where
  "new_entry fs n = \<lparr> fe_id = next_entry fs, fe_attempt = n, fe_status = FePending, fe_charge = None, fe_error = [], fe_completed = None \<rparr>"

definition receipt_due :: "instant \<Rightarrow> db \<Rightarrow> nat \<Rightarrow> bool" where
  "receipt_due cutoff d n =
     (case (get_attempt d n, intent_of_attempt d n) of
        (Some p, Some i) \<Rightarrow>
          pa_provider p = ''hyperpay'' \<and> (case pa_verified_at p of None \<Rightarrow> False | Some t \<Rightarrow> cutoff \<le> t)
          \<and> pa_status p \<in> set collected_statuses \<and> pa_provider_id p \<notin> {None, Some []} \<and> 0 < pa_amount p
          \<and> (case booking_of_intent d (in_id i) of None \<Rightarrow> False | Some b \<Rightarrow> bk_remote b \<noteq> None)
      | _ \<Rightarrow> False)"

text \<open>The entries, and the entry whose task is started.\<close>

definition queue_verified_receipt :: "receipts_world \<Rightarrow> db \<Rightarrow> financial_entry list \<Rightarrow> nat \<Rightarrow> financial_entry list \<times> nat option" where
  "queue_verified_receipt w d fs n =
     (case receipts_cutoff w of
        None \<Rightarrow> (fs, None)
      | Some cutoff \<Rightarrow>
          if \<not> receipt_due cutoff d n then (fs, None)
          else (case entry_of fs n of
              Some f \<Rightarrow> (fs, if fe_status f = FePending then Some (fe_id f) else None)
            | None \<Rightarrow> (fs @ [new_entry fs n], Some (next_entry fs))))"

subsection \<open>The task\<close>

definition caught :: "exc \<Rightarrow> bool" where
  "caught x = (is_hostaway_error x \<or> is_currency_error x \<or> is_value_error x
     \<or> (case x of TypeError m \<Rightarrow> True | KeyError m \<Rightarrow> True | DecimalError m \<Rightarrow> True | _ \<Rightarrow> False))"

fun class_name :: "exc \<Rightarrow> string" where
  "class_name (ValueError m) = ''ValueError''"
| "class_name (CurrencyError m) = ''CurrencyError''"
| "class_name (UnsupportedCurrency m) = ''UnsupportedCurrencyError''"
| "class_name (RateUnavailable m) = ''ExchangeRateUnavailableError''"
| "class_name (RateResponse m) = ''ExchangeRateResponseError''"
| "class_name (HostawayResponse m) = ''HostawayResponseError''"
| "class_name (HostawayAvailability m) = ''HostawayAvailabilityError''"
| "class_name (HostawayConfiguration m) = ''HostawayConfigurationError''"
| "class_name (HostawayNetwork m) = ''HostawayNetworkError''"
| "class_name (HostawayAuthentication m) = ''HostawayAuthenticationError''"
| "class_name (HostawayNotFound m) = ''HostawayNotFoundError''"
| "class_name (HostawayRateLimit m) = ''HostawayRateLimitError''"
| "class_name (HostawayServer m) = ''HostawayServerError''"
| "class_name (KeyError m) = ''KeyError''"
| "class_name (TypeError m) = ''TypeError''"
| "class_name (DecimalError m) = ''InvalidOperation''"
| "class_name x = []"

record receipt_post =
  po_entry :: nat
  po_attempt :: nat
  po_remote :: int
  po_title :: string
  po_amount :: rat
  po_currency :: string

text \<open>What a payment link froze; \<open>None\<close> when it is not settled.\<close>

definition link_receipt :: "receipts_world \<Rightarrow> booking \<Rightarrow> payment \<Rightarrow> nat \<Rightarrow> (rat \<times> string) option res" where
  "link_receipt w b p k =
     bindE (of_option (DoesNotExist ''payment_request'') (rc_request w k)) (\<lambda>r.
       Inr (if pr_status r \<noteq> ''paid'' \<or> pr_amount r \<noteq> pa_amount p \<or> pr_environment r \<noteq> ''production'' \<or> bk_test b then None
            else Some (pr_source r, pr_currency r)))"

definition snapshot_fits :: "booking \<Rightarrow> payment \<Rightarrow> snapshot \<Rightarrow> string \<Rightarrow> bool" where
  "snapshot_fits b p s currency = (pa_verified_at p \<noteq> None \<and> pa_provider_id p \<notin> {None, Some []}
     \<and> pa_status p \<in> set collected_statuses \<and> Some (sn_id s) = bk_remote b \<and> Some (sn_listing_map s) = bk_listing_map b
     \<and> sn_currency s = currency \<and> bk_currency b = currency)"

text \<open>The receipt that is already there, with its number.\<close>

definition remote_receipt :: "charges \<Rightarrow> string \<Rightarrow> rat \<Rightarrow> string \<Rightarrow> int option res" where
  "remote_receipt rows title paid currency =
     (case filter (\<lambda>r. dget r ''title'' = PyStr title) rows of
        [] \<Rightarrow> Inr None
      | [r] \<Rightarrow>
          if dget r ''status'' \<noteq> PyStr ''paid'' then Inl (ValueError ''receipt_remote_mismatch'')
          else bindE (of_option (DecimalError ''ConversionSyntax'') (decimal_of_str (dget r ''amount''))) (\<lambda>x.
            if x \<noteq> Fin paid \<or> dget r ''currency'' \<noteq> PyStr currency then Inl (ValueError ''receipt_remote_mismatch'')
            else (case map_of r ''id'' of
                None \<Rightarrow> Inl (KeyError ''id'')
              | Some (PyInt n) \<Rightarrow> Inr (Some n)
              | Some v \<Rightarrow> Inl (TypeError ''id'')))
      | _ \<Rightarrow> Inl (ValueError ''receipt_remote_mismatch''))"

definition recorded_entry :: "env \<Rightarrow> int \<Rightarrow> financial_entry \<Rightarrow> financial_entry" where
  "recorded_entry e n f = f \<lparr> fe_charge := Some n, fe_status := FeSucceeded, fe_error := [], fe_completed := Some (now e) \<rparr>"

definition failed_entry :: "exc \<Rightarrow> financial_entry \<Rightarrow> financial_entry" where
  "failed_entry x f = f \<lparr> fe_status := (if fe_status f = FePosting then FeUnknown else FeReview), fe_error := class_name x \<rparr>"

definition entry_text :: "entry_status \<Rightarrow> string" where
  "entry_text st = (case st of FePending \<Rightarrow> ''pending'' | FePosting \<Rightarrow> ''posting'' | FeSucceeded \<Rightarrow> ''succeeded''
     | FeUnknown \<Rightarrow> ''unknown'' | FeReview \<Rightarrow> ''review'')"

text \<open>The error handler of the task.\<close>

definition handled :: "financial_entry list \<Rightarrow> financial_entry \<Rightarrow> exc \<Rightarrow> financial_entry list \<times> string res" where
  "handled fs f x = (if caught x then (put_entry fs (failed_entry x f), Inr (entry_text (fe_status (failed_entry x f))))
     else (fs, Inl x))"

text \<open>The body of the try statement up to the post: the receipt that was found, or the post to make.\<close>

definition examine :: "receipts_world \<Rightarrow> env \<Rightarrow> financial_entry \<Rightarrow> payment \<Rightarrow> intent \<Rightarrow> booking \<Rightarrow> rat \<times> string
    \<Rightarrow> snapshot res \<Rightarrow> charges res \<Rightarrow> (int + receipt_post) res" where
  "examine w e f p i b frozen reservation_reply charges_reply =
     bindE (if pa_request p = None then direct_receipt_value e p i b else Inr frozen) (\<lambda>(paid, currency).
     bindE reservation_reply (\<lambda>s.
     if \<not> snapshot_fits b p s currency then Inl (ValueError ''receipt_requires_accounting_review'')
     else bindE charges_reply (\<lambda>rows.
     bindE (remote_receipt rows (rc_marker w (pa_id p)) paid currency) (\<lambda>known.
     case known of
       Some n \<Rightarrow> Inr (Inl n)
     | None \<Rightarrow>
         if fe_status f \<in> {FePosting, FeUnknown, FeReview} then Inl (ValueError ''receipt_outcome_needs_manual_review'')
         else Inr (Inr \<lparr> po_entry = fe_id f, po_attempt = pa_id p, po_remote = sn_id s, po_title = rc_marker w (pa_id p),
                po_amount = paid, po_currency = currency \<rparr>)))))"

text \<open>The task up to its post: a result, or the post that is made with the entry marked.\<close>

definition begin_receipt :: "receipts_world \<Rightarrow> env \<Rightarrow> db \<Rightarrow> financial_entry list \<Rightarrow> nat \<Rightarrow> snapshot res \<Rightarrow> charges res
    \<Rightarrow> financial_entry list \<times> (string + receipt_post) res" where
  "begin_receipt w e d fs k reservation_reply charges_reply =
     (case receipts_cutoff w of
        None \<Rightarrow> (fs, Inr (Inl ''disabled''))
      | Some cutoff \<Rightarrow>
          (case get_entry fs k of
             None \<Rightarrow> (fs, Inl (DoesNotExist ''entry''))
           | Some f \<Rightarrow>
               if fe_status f = FeSucceeded then (fs, Inr (Inl ''already_recorded''))
               else (case (get_attempt d (fe_attempt f), intent_of_attempt d (fe_attempt f)) of
                   (Some p, Some i) \<Rightarrow>
                     if (case pa_verified_at p of None \<Rightarrow> True | Some t \<Rightarrow> t < cutoff) then (fs, Inr (Inl ''historical_payment_skipped''))
                     else (case booking_of_intent d (in_id i) of
                         None \<Rightarrow> (fs, Inl (DoesNotExist ''reservation''))
                       | Some b \<Rightarrow>
                           (case (case pa_request p of None \<Rightarrow> Inr (Some (pa_amount p, pa_currency p)) | Some r \<Rightarrow> link_receipt w b p r) of
                              Inl x \<Rightarrow> (fs, Inl x)
                            | Inr None \<Rightarrow> (put_entry fs (f \<lparr> fe_status := FeReview, fe_error := ''payment_request_not_settled'' \<rparr>), Inr (Inl ''review''))
                            | Inr (Some frozen) \<Rightarrow>
                                (case examine w e f p i b frozen reservation_reply charges_reply of
                                   Inl x \<Rightarrow> (case handled fs f x of (fs', Inl y) \<Rightarrow> (fs', Inl y) | (fs', Inr status) \<Rightarrow> (fs', Inr (Inl status)))
                                 | Inr (Inl n) \<Rightarrow> (put_entry fs (recorded_entry e n f), Inr (Inl ''succeeded''))
                                 | Inr (Inr q) \<Rightarrow> (put_entry fs (f \<lparr> fe_status := FePosting \<rparr>), Inr (Inr q)))))
                 | _ \<Rightarrow> (fs, Inl (DoesNotExist ''reservation'')))))"

text \<open>The rest of the task; the reply is the number of the new receipt.\<close>

definition end_receipt :: "env \<Rightarrow> financial_entry list \<Rightarrow> receipt_post \<Rightarrow> int res \<Rightarrow> financial_entry list \<times> string res" where
  "end_receipt e fs q reply =
     (case get_entry fs (po_entry q) of
        None \<Rightarrow> (fs, Inl (DoesNotExist ''entry''))
      | Some f \<Rightarrow>
          (case reply of
             Inl x \<Rightarrow> handled fs f x
           | Inr n \<Rightarrow> (put_entry fs (recorded_entry e n f), Inr ''succeeded'')))"

definition record_payment_receipt_task :: "receipts_world \<Rightarrow> env \<Rightarrow> db \<Rightarrow> financial_entry list \<Rightarrow> nat \<Rightarrow> bool \<Rightarrow> snapshot res \<Rightarrow> charges res
    \<Rightarrow> (receipt_post \<Rightarrow> int res) \<Rightarrow> financial_entry list \<times> string res" where
  "record_payment_receipt_task w e d fs k acquired reservation_reply charges_reply answer =
     (if receipts_cutoff w = None then (fs, Inr ''disabled'')
      else if \<not> acquired then (fs, Inr ''already_running'')
      else case begin_receipt w e d fs k reservation_reply charges_reply of
        (fs', Inl x) \<Rightarrow> (fs', Inl x)
      | (fs', Inr (Inl status)) \<Rightarrow> (fs', Inr status)
      | (fs', Inr (Inr q)) \<Rightarrow> end_receipt e fs' q (answer q))"


subsection \<open>What a post rests on\<close>

lemma remote_receipt_None: "remote_receipt rows title paid currency = Inr None \<Longrightarrow> \<forall>r \<in> set rows. dget r ''title'' \<noteq> PyStr title"
  by (auto simp: remote_receipt_def bindE_Inr_iff filter_empty_conv split: list.splits if_splits option.splits pyval.splits)

lemma examine_post:
  assumes "examine w e f p i b frozen reservation_reply charges_reply = Inr (Inr q)"
  obtains s rows where "reservation_reply = Inr s" "charges_reply = Inr rows" "snapshot_fits b p s (po_currency q)"
    "\<forall>r \<in> set rows. dget r ''title'' \<noteq> PyStr (rc_marker w (pa_id p))" "fe_status f \<notin> {FePosting, FeUnknown, FeReview}"
    "(if pa_request p = None then direct_receipt_value e p i b else Inr frozen) = Inr (po_amount q, po_currency q)"
    "po_entry q = fe_id f" "po_attempt q = pa_id p" "po_remote q = sn_id s" "po_title q = rc_marker w (pa_id p)"
proof -
  obtain paid currency s rows known where parts: "(if pa_request p = None then direct_receipt_value e p i b else Inr frozen) = Inr (paid, currency)"
    "reservation_reply = Inr s" "snapshot_fits b p s currency" "charges_reply = Inr rows"
    "remote_receipt rows (rc_marker w (pa_id p)) paid currency = Inr known"
    and rest: "(case known of
       Some n \<Rightarrow> Inr (Inl n)
     | None \<Rightarrow>
         if fe_status f \<in> {FePosting, FeUnknown, FeReview} then Inl (ValueError ''receipt_outcome_needs_manual_review'')
         else Inr (Inr \<lparr> po_entry = fe_id f, po_attempt = pa_id p, po_remote = sn_id s, po_title = rc_marker w (pa_id p),
                po_amount = paid, po_currency = currency \<rparr>)) = (Inr (Inr q) :: (int + receipt_post) res)"
    using assms unfolding examine_def bindE_Inr_iff by (auto simp: bindE_Inr_iff split: if_splits)
  have known: "known = None" "fe_status f \<notin> {FePosting, FeUnknown, FeReview}"
    and q: "q = \<lparr> po_entry = fe_id f, po_attempt = pa_id p, po_remote = sn_id s, po_title = rc_marker w (pa_id p),
        po_amount = paid, po_currency = currency \<rparr>"
    using rest by (auto split: option.splits if_splits)
  show ?thesis
    using that [OF parts(2,4) _ remote_receipt_None [OF parts(5) [unfolded known(1)]] known(2)] parts(1,3) q by simp
qed

lemma begin_receipt_cases:
  assumes "begin_receipt w e d fs k reservation_reply charges_reply = (fs', x)"
  obtains "fs' = fs" "\<not> (\<exists>q. x = Inr (Inr q))"
  | f g where "get_entry fs k = Some f" "fs' = put_entry fs g" "fe_id g = fe_id f" "fe_attempt g = fe_attempt f"
      "fe_status g \<noteq> FePending" "\<not> (\<exists>q. x = Inr (Inr q))"
  | f p i b frozen cutoff q where "get_entry fs k = Some f" "fe_status f \<noteq> FeSucceeded" "fs' = put_entry fs (f \<lparr> fe_status := FePosting \<rparr>)"
      "receipts_cutoff w = Some cutoff" "get_attempt d (fe_attempt f) = Some p" "intent_of_attempt d (fe_attempt f) = Some i"
      "booking_of_intent d (in_id i) = Some b" "\<exists>t. pa_verified_at p = Some t \<and> cutoff \<le> t"
      "(case pa_request p of None \<Rightarrow> Inr (Some (pa_amount p, pa_currency p)) | Some r \<Rightarrow> link_receipt w b p r) = Inr (Some frozen)"
      "examine w e f p i b frozen reservation_reply charges_reply = Inr (Inr q)" "x = Inr (Inr q)"
proof (cases "receipts_cutoff w")
  case None
  then show ?thesis using assms that(1) by (auto simp: begin_receipt_def)
next
  case (Some cutoff)
  note cut = this
  show ?thesis
  proof (cases "get_entry fs k")
    case None
    then show ?thesis using assms that(1) cut by (auto simp: begin_receipt_def)
  next
    case (Some f)
    note f = this
    show ?thesis
    proof (cases "fe_status f = FeSucceeded \<or> get_attempt d (fe_attempt f) = None \<or> intent_of_attempt d (fe_attempt f) = None")
      case True
      then show ?thesis using assms that(1) cut f by (auto simp: begin_receipt_def split: option.splits if_splits)
    next
      case False
      then obtain p i where p: "get_attempt d (fe_attempt f) = Some p" "intent_of_attempt d (fe_attempt f) = Some i" and st: "fe_status f \<noteq> FeSucceeded"
        by auto
      show ?thesis
      proof (cases "(case pa_verified_at p of None \<Rightarrow> True | Some t \<Rightarrow> t < cutoff) \<or> booking_of_intent d (in_id i) = None")
        case True
        then show ?thesis using assms that(1) cut f p st by (auto simp: begin_receipt_def split: if_splits)
      next
        case False
        then obtain b t where b: "booking_of_intent d (in_id i) = Some b" "pa_verified_at p = Some t" "cutoff \<le> t"
          by (auto split: option.splits)
        define choice where "choice = (case pa_request p of None \<Rightarrow> Inr (Some (pa_amount p, pa_currency p)) | Some r \<Rightarrow> link_receipt w b p r)"
        have run: "(fs', x) = (case choice of
            Inl y \<Rightarrow> (fs, Inl y)
          | Inr None \<Rightarrow> (put_entry fs (f \<lparr> fe_status := FeReview, fe_error := ''payment_request_not_settled'' \<rparr>), Inr (Inl ''review''))
          | Inr (Some frozen) \<Rightarrow>
              (case examine w e f p i b frozen reservation_reply charges_reply of
                 Inl y \<Rightarrow> (case handled fs f y of (fs', Inl z) \<Rightarrow> (fs', Inl z) | (fs', Inr status) \<Rightarrow> (fs', Inr (Inl status)))
               | Inr (Inl n) \<Rightarrow> (put_entry fs (recorded_entry e n f), Inr (Inl ''succeeded''))
               | Inr (Inr q) \<Rightarrow> (put_entry fs (f \<lparr> fe_status := FePosting \<rparr>), Inr (Inr q))))"
          using assms cut f p st b by (simp add: begin_receipt_def choice_def)
        show ?thesis
        proof (cases choice)
          case (Inl y)
          then show ?thesis using run that(1) by simp
        next
          case (Inr z)
          note z = this
          show ?thesis
          proof (cases z)
            case None
            then show ?thesis
              using run z that(2) [OF f, of "f \<lparr> fe_status := FeReview, fe_error := ''payment_request_not_settled'' \<rparr>"] by simp
          next
            case (Some frozen)
            note ex = that(3) [OF f st _ cut p b(1)]
            show ?thesis
            proof (cases "examine w e f p i b frozen reservation_reply charges_reply")
              case (Inl y)
              then show ?thesis
                using run z Some that(1) that(2) [OF f, of "failed_entry y f"]
                by (auto simp: handled_def failed_entry_def split: if_splits)
            next
              case (Inr r)
              then show ?thesis
                using run z Some b ex that(2) [OF f, of "recorded_entry e (projl r) f"]
                by (cases r) (auto simp: recorded_entry_def choice_def)
            qed
          qed
        qed
      qed
    qed
  qed
qed

subsection \<open>Tasks of many workers\<close>

text \<open>
  The entries, the posts that are under way, and the payments a receipt was ever posted for. The
  task's lock keeps a second run of an entry out while its post is under way; the database may be
  any other at every step.
\<close>

inductive receipt_step :: "financial_entry list \<times> receipt_post list \<times> nat list \<Rightarrow> financial_entry list \<times> receipt_post list \<times> nat list \<Rightarrow> bool" where
  queued: "queue_verified_receipt w d fs n = (fs', started) \<Longrightarrow> receipt_step (fs, qs, made) (fs', qs, made)"
| checked: "begin_receipt w e d fs k reservation_reply charges_reply = (fs', x) \<Longrightarrow> \<forall>q. x \<noteq> Inr (Inr q) \<Longrightarrow> k \<notin> po_entry ` set qs
    \<Longrightarrow> receipt_step (fs, qs, made) (fs', qs, made)"
| posting: "begin_receipt w e d fs k reservation_reply charges_reply = (fs', Inr (Inr q)) \<Longrightarrow> k \<notin> po_entry ` set qs
    \<Longrightarrow> receipt_step (fs, qs, made) (fs', qs @ [q], made @ [po_attempt q])"
| answered: "q \<in> set qs \<Longrightarrow> end_receipt e fs q reply = (fs', status) \<Longrightarrow> receipt_step (fs, qs, made) (fs', remove1 q qs, made)"
| died: "q \<in> set qs \<Longrightarrow> receipt_step (fs, qs, made) (fs, remove1 q qs, made)"

definition entries_ok :: "financial_entry list \<Rightarrow> nat list \<Rightarrow> bool" where
  "entries_ok fs made = (distinct (map fe_id fs) \<and> distinct (map fe_attempt fs) \<and> distinct made
     \<and> (\<forall>n \<in> set made. \<exists>f \<in> set fs. fe_attempt f = n \<and> fe_status f \<noteq> FePending))"

lemma put_entry_attempts:
  assumes "get_entry fs k = Some f" and "fe_id g = fe_id f" and "fe_attempt g = fe_attempt f" and "distinct (map fe_id fs)"
  shows "map fe_attempt (put_entry fs g) = map fe_attempt fs" and "map fe_id (put_entry fs g) = map fe_id fs"
proof -
  have mem: "f \<in> set fs" using assms(1) unfolding get_entry_def by (rule row_get_mem)
  have same: "fe_id x = fe_id f \<Longrightarrow> x \<in> set fs \<Longrightarrow> x = f" for x
    using assms(4) mem by (auto simp: distinct_map dest: inj_onD)
  show "map fe_attempt (put_entry fs g) = map fe_attempt fs"
    using same assms(2,3) by (auto simp: put_entry_def row_put_def)
  show "map fe_id (put_entry fs g) = map fe_id fs"
    using assms(2) by (auto simp: put_entry_def row_put_def)
qed

lemma put_entry_ok:
  assumes ok: "entries_ok fs made" and f: "get_entry fs k = Some f"
    and g: "fe_id g = fe_id f" "fe_attempt g = fe_attempt f" "fe_status g \<noteq> FePending"
  shows "entries_ok (put_entry fs g) made"
proof -
  have ids: "distinct (map fe_id fs)" using ok by (simp add: entries_ok_def)
  have mem: "f \<in> set fs" using f unfolding get_entry_def by (rule row_get_mem)
  have g_in: "g \<in> set (put_entry fs g)" using mem g(1) by (force simp: put_entry_def row_put_def)
  have "\<exists>x \<in> set (put_entry fs g). fe_attempt x = n \<and> fe_status x \<noteq> FePending" if n: "n \<in> set made" for n
  proof -
    obtain x where x: "x \<in> set fs" "fe_attempt x = n" "fe_status x \<noteq> FePending" using ok n by (auto simp: entries_ok_def)
    show ?thesis
    proof (cases "fe_id x = fe_id g")
      case True
      then have "x = f" using ids mem x(1) g(1) by (auto simp: distinct_map dest: inj_onD)
      then show ?thesis using g_in g x(2) by auto
    next
      case False
      then have "x \<in> set (put_entry fs g)" using x(1) by (force simp: put_entry_def row_put_def)
      then show ?thesis using x by blast
    qed
  qed
  then show ?thesis
    using put_entry_attempts [OF f g(1,2) ids] ok by (simp add: entries_ok_def)
qed

lemma queue_ok:
  assumes ok: "entries_ok fs made" and run: "queue_verified_receipt w d fs n = (fs', started)"
  shows "entries_ok fs' made"
proof -
  have "fs' = fs \<or> entry_of fs n = None \<and> fs' = fs @ [new_entry fs n]"
    using run by (auto simp: queue_verified_receipt_def split: option.splits if_splits)
  then show ?thesis
  proof
    assume "entry_of fs n = None \<and> fs' = fs @ [new_entry fs n]"
    then have new: "n \<notin> fe_attempt ` set fs" "fs' = fs @ [new_entry fs n]"
      by (auto simp: entry_of_def find_None_iff)
    have "next_entry fs \<notin> set (map fe_id fs)"
    proof
      assume "next_entry fs \<in> set (map fe_id fs)"
      then have "next_entry fs \<le> Max (insert 0 (set (map fe_id fs)))" by (intro Max_ge) auto
      then show False by (simp add: next_entry_def)
    qed
    then show ?thesis using ok new by (auto simp: entries_ok_def new_entry_def)
  qed (use ok in simp)
qed

lemma pending_of_post:
  assumes "begin_receipt w e d fs k reservation_reply charges_reply = (fs', Inr (Inr q))"
  obtains f where "get_entry fs k = Some f" "fe_status f = FePending" "fs' = put_entry fs (f \<lparr> fe_status := FePosting \<rparr>)"
    "po_attempt q = fe_attempt f" "po_entry q = fe_id f"
  using assms
proof (rule begin_receipt_cases)
  fix f p i b frozen cutoff q'
  assume f: "get_entry fs k = Some f" "fe_status f \<noteq> FeSucceeded" "fs' = put_entry fs (f \<lparr> fe_status := FePosting \<rparr>)"
    and p: "get_attempt d (fe_attempt f) = Some p"
    and ex: "examine w e f p i b frozen reservation_reply charges_reply = Inr (Inr q')"
    and q: "(Inr (Inr q) :: (string + receipt_post) res) = Inr (Inr q')"
  have st: "fe_status f \<notin> {FePosting, FeUnknown, FeReview}"
    and q': "po_entry q' = fe_id f" "po_attempt q' = pa_id p"
    by (rule examine_post [OF ex], assumption)+
  have "pa_id p = fe_attempt f" using p unfolding get_attempt_def by (rule row_get_key)
  moreover have "fe_status f = FePending" using st f(2) by (cases "fe_status f") auto
  moreover have "po_attempt q = pa_id p" "po_entry q = fe_id f" using q q' by simp_all
  ultimately show thesis using that f(1,3) by simp
qed auto

lemma end_receipt_ok:
  assumes ok: "entries_ok fs made" and run: "end_receipt e fs q reply = (fs', status)"
  shows "entries_ok fs' made"
proof (cases "get_entry fs (po_entry q)")
  case None
  then show ?thesis using ok run by (simp add: end_receipt_def)
next
  case (Some f)
  then show ?thesis
    using run ok put_entry_ok [OF ok Some, of "recorded_entry e (projr reply) f"] put_entry_ok [OF ok Some, of "failed_entry (projl reply) f"]
    by (cases reply) (auto simp: end_receipt_def handled_def recorded_entry_def failed_entry_def split: if_splits)
qed

lemma receipt_step_ok:
  assumes step: "receipt_step (fs, qs, made) (fs', qs', made')" and ok: "entries_ok fs made"
  shows "entries_ok fs' made'"
  using step
proof (cases rule: receipt_step.cases)
  case (queued w d n started)
  then show ?thesis using queue_ok [OF ok] by blast
next
  case (checked w e d k reservation_reply charges_reply x)
  show ?thesis using checked(3)
  proof (rule begin_receipt_cases)
    fix f g assume "get_entry fs k = Some f" "fs' = put_entry fs g" "fe_id g = fe_id f" "fe_attempt g = fe_attempt f" "fe_status g \<noteq> FePending"
    then show ?thesis using put_entry_ok [OF ok] checked(2) by simp
  qed (use ok checked in auto)
next
  case (posting w e d k reservation_reply charges_reply q)
  obtain f where f: "get_entry fs k = Some f" "fe_status f = FePending" "fs' = put_entry fs (f \<lparr> fe_status := FePosting \<rparr>)"
    "po_attempt q = fe_attempt f" by (rule pending_of_post [OF posting(3)])
  have mem: "f \<in> set fs" using f(1) unfolding get_entry_def by (rule row_get_mem)
  have "fe_attempt f \<notin> set made"
  proof
    assume "fe_attempt f \<in> set made"
    then obtain x where "x \<in> set fs" "fe_attempt x = fe_attempt f" "fe_status x \<noteq> FePending" using ok by (auto simp: entries_ok_def)
    then show False using ok mem f(2) by (auto simp: entries_ok_def distinct_map dest: inj_onD)
  qed
  moreover have "entries_ok fs' made" using put_entry_ok [OF ok f(1), of "f \<lparr> fe_status := FePosting \<rparr>"] f(3) by simp
  moreover have "f \<lparr> fe_status := FePosting \<rparr> \<in> set fs'" using mem f(3) by (force simp: put_entry_def row_put_def)
  ultimately show ?thesis using posting(2) f(4) by (auto simp: entries_ok_def intro!: bexI [of _ "f \<lparr> fe_status := FePosting \<rparr>"])
next
  case (answered q e reply status)
  then show ?thesis using end_receipt_ok [OF ok] by blast
qed (use ok in simp)

lemma receipt_reach_ok:
  assumes "receipt_step\<^sup>*\<^sup>* s s'" and "entries_ok (fst s) (snd (snd s))"
  shows "entries_ok (fst s') (snd (snd s'))"
  using assms
proof (induction rule: rtranclp_induct)
  case (step t u)
  then show ?case using receipt_step_ok [of "fst t" "fst (snd t)" "snd (snd t)" "fst u" "fst (snd u)" "snd (snd u)"] by simp
qed

text \<open>C8: however the queue, the tasks, the lost answers and the deaths of workers follow each other,
  at most one receipt is ever posted for a payment, and its entry never goes back to pending.\<close>

theorem receipt_posted_once:
  assumes "receipt_step\<^sup>*\<^sup>* ([], [], []) (fs, qs, made)"
  shows "distinct made \<and> (\<forall>n \<in> set made. \<exists>f \<in> set fs. fe_attempt f = n \<and> fe_status f \<noteq> FePending)"
  using receipt_reach_ok [OF assms] by (simp add: entries_ok_def)


subsection \<open>A sample receipt\<close>

definition sample_receipts :: receipts_world where
  "sample_receipts = \<lparr> rc_enabled = True, rc_production = True, rc_start = Some (Aware 0), rc_request = (\<lambda>n. None), rc_marker = (\<lambda>n. ''LSA'') \<rparr>"

definition receipt_db :: db where
  "receipt_db = sample_db \<lparr> db_bookings := [paid_booking] \<rparr>"

definition pending_entry :: financial_entry where
  "pending_entry = \<lparr> fe_id = 1, fe_attempt = 90, fe_status = FePending, fe_charge = None, fe_error = [], fe_completed = None \<rparr>"

definition sample_post :: receipt_post where
  "sample_post = \<lparr> po_entry = 1, po_attempt = 90, po_remote = 500, po_title = ''LSA'', po_amount = 1000, po_currency = ''SAR'' \<rparr>"

definition posting_entry :: financial_entry where
  "posting_entry = pending_entry \<lparr> fe_status := FePosting \<rparr>"

lemma sample_queued: "queue_verified_receipt sample_receipts receipt_db [] 90 = ([pending_entry], Some 1)"
  by code_simp

lemma sample_posted: "begin_receipt sample_receipts sample_env receipt_db [pending_entry] 1
    (Inr (accepted_snapshot \<lparr> sn_id := 500 \<rparr>)) (Inr []) = ([posting_entry], Inr (Inr sample_post))"
  by code_simp

theorem receipt_posted_once_witness:
  "\<exists>fs qs made. receipt_step\<^sup>*\<^sup>* ([], [], []) (fs, qs, made) \<and> made = [90] \<and> distinct made"
proof -
  have "receipt_step ([], [], []) ([pending_entry], [], [])" by (rule queued [OF sample_queued])
  moreover have "receipt_step ([pending_entry], [], []) ([posting_entry], [] @ [sample_post], [] @ [po_attempt sample_post])"
    by (rule posting [OF sample_posted]) simp
  ultimately have run: "receipt_step\<^sup>*\<^sup>* ([], [], []) ([posting_entry], [sample_post], [90])"
    by (simp add: sample_post_def)
  show ?thesis using run receipt_posted_once [OF run] by blast
qed


end
