(* ===== verification/Morning.thy ===== *)
theory Morning
  imports GatewayPayments
begin

section \<open>Morning stays (apps/reservations/morning\_stays.py, morning07\_changes.py)\<close>

text \<open>
  Stays of a few hours on one morning. They live beside the reservations, in rows of their own, and
  are never written to the channel manager, which is only read: its calendar and its pages of
  reservations are parameters. A check and the transaction after it are separate definitions, as the
  check reads outside the transaction. The messages of errors are short codes.
\<close>

subsection \<open>Rows\<close>

record rental_unit =
  ru_id :: nat
  ru_visible :: bool
  ru_active :: bool
  ru_listing :: int
  ru_listing_map :: "int option"
  ru_capacity :: "int option"
  ru_zone :: string
  ru_country :: string
  ru_in_hour :: "int option"
  ru_out_hour :: "int option"

datatype morning_status = MsOpen | MsProcessing | MsPaid | MsExpired | MsCancelled | MsReview

record morning_guest =
  mg_name :: string
  mg_phone :: string
  mg_email :: string
  mg_language :: string

text \<open>What a check found: the time, the night before and the number of rows.\<close>

record morning_evidence =
  ve_checked :: instant
  ve_previous :: date
  ve_rows :: nat

record morning_stay =
  ms_id :: nat
  ms_request :: string
  ms_property :: nat
  ms_starts :: instant
  ms_ends :: instant
  ms_zone :: string
  ms_guest :: morning_guest
  ms_guests :: int
  ms_amount :: rat
  ms_environment :: string
  ms_status :: morning_status
  ms_expires :: instant
  ms_billing :: "(string \<times> string) list"
  ms_checked_at :: instant
  ms_evidence :: morning_evidence
  ms_legal :: pyval
  ms_paid_at :: "instant option"
  ms_created_by :: nat
  ms_updated :: instant

record morning_attempt =
  ma_id :: nat
  ma_stay :: nat
  ma_merchant :: string
  ma_checkout :: "string option"
  ma_payment :: "string option"
  ma_code :: string
  ma_integrity :: string
  ma_amount :: rat
  ma_currency :: string
  ma_status :: payment_status
  ma_failure :: string
  ma_verified :: "instant option"
  ma_updated :: instant

record morning_db =
  md_units :: "rental_unit list"
  md_stays :: "morning_stay list"
  md_attempts :: "morning_attempt list"
  md_site :: db

definition get_unit :: "morning_db \<Rightarrow> nat \<Rightarrow> rental_unit option" where
  "get_unit md k = row_get ru_id (md_units md) k"

definition get_stay :: "morning_db \<Rightarrow> nat \<Rightarrow> morning_stay option" where
  "get_stay md k = row_get ms_id (md_stays md) k"

definition put_stay :: "morning_db \<Rightarrow> morning_stay \<Rightarrow> morning_db" where
  "put_stay md s = md \<lparr> md_stays := row_put ms_id (md_stays md) s \<rparr>"

definition get_try :: "morning_db \<Rightarrow> nat \<Rightarrow> morning_attempt option" where
  "get_try md k = row_get ma_id (md_attempts md) k"

definition put_try :: "morning_db \<Rightarrow> morning_attempt \<Rightarrow> morning_db" where
  "put_try md a = md \<lparr> md_attempts := row_put ma_id (md_attempts md) a \<rparr>"

definition unresolved :: "payment_status list" where
  "unresolved = [PaCreated, PaPending, PaUnknown, PaReview]"

definition tries_of :: "morning_db \<Rightarrow> nat \<Rightarrow> morning_attempt list" where
  "tries_of md k = filter (\<lambda>a. ma_stay a = k) (md_attempts md)"

definition has_unresolved :: "morning_db \<Rightarrow> nat \<Rightarrow> bool" where
  "has_unresolved md k = list_ex (\<lambda>a. ma_status a \<in> set unresolved) (tries_of md k)"

subsection \<open>Windows\<close>

definition hours :: "int \<Rightarrow> int" where
  "hours n = n * 3600000000"

definition unit_zone :: "rental_unit \<Rightarrow> string" where
  "unit_zone u = (if ru_zone u \<noteq> [] then ru_zone u else if ru_country u = ''MA'' then ''Africa/Casablanca'' else ''Asia/Riyadh'')"

definition property_zone :: "rental_unit \<Rightarrow> string res" where
  "property_zone u = (if unit_zone u \<in> {''Asia/Riyadh'', ''Africa/Casablanca''} then Inr (unit_zone u) else Inl (ValueError ''morning_zone''))"

text \<open>\<open>ZoneInfo(name)\<close>: the offset at each instant and the instant of each reading.\<close>

definition zone_offset_of :: "env \<Rightarrow> string \<Rightarrow> zone_offset res" where
  "zone_offset_of e z = of_option (KeyError ''ZoneInfoNotFoundError'') (zone_rules e z)"

definition zone_reading_of :: "env \<Rightarrow> string \<Rightarrow> (int \<Rightarrow> instant) res" where
  "zone_reading_of e z = of_option (KeyError ''ZoneInfoNotFoundError'') (zone_instant e z)"

definition time_of_day :: "zone_offset \<Rightarrow> instant \<Rightarrow> int" where
  "time_of_day off t = (t + off t) mod day_us"

definition validate_window :: "env \<Rightarrow> zone_offset \<Rightarrow> datetime \<Rightarrow> datetime \<Rightarrow> bool \<Rightarrow> bool \<Rightarrow> (instant \<times> instant) res" where
  "validate_window e off s t allow_started allow_elapsed =
     (case (s, t) of
        (Aware a, Aware b) \<Rightarrow>
          if local_date off a \<noteq> local_date off b
             \<or> \<not> (0 < time_of_day off a \<and> time_of_day off a < time_of_day off b \<and> time_of_day off b \<le> hours 12)
          then Inl (ValueError ''morning_hours'')
          else if a < now e \<and> \<not> allow_started \<or> b \<le> now e \<and> \<not> allow_elapsed \<or> now e + 14 * day_us < a
          then Inl (ValueError ''morning_period'')
          else Inr (a, b)
      | _ \<Rightarrow> Inl (ValueError ''morning_naive''))"

text \<open>The rows of \<open>active_stays\<close>; the environment is the one of the settings.\<close>

definition occupying :: "env \<Rightarrow> morning_db \<Rightarrow> morning_stay \<Rightarrow> bool" where
  "occupying e md s = (ms_status s \<in> {MsPaid, MsProcessing, MsReview} \<or> ms_status s = MsOpen \<and> now e < ms_expires s
     \<or> has_unresolved md (ms_id s))"

definition active_stays :: "env \<Rightarrow> gateway \<Rightarrow> morning_db \<Rightarrow> nat \<Rightarrow> instant \<Rightarrow> instant \<Rightarrow> nat option \<Rightarrow> morning_stay list" where
  "active_stays e g md unit start finish excluded =
     filter (\<lambda>s. ms_property s = unit \<and> ms_environment s = gs_environment g \<and> ms_starts s < finish \<and> start - hours 3 < ms_ends s
       \<and> excluded \<noteq> Some (ms_id s) \<and> occupying e md s) (md_stays md)"

definition hour_or :: "int option \<Rightarrow> int \<Rightarrow> int" where
  "hour_or h k = (case h of None \<Rightarrow> k | Some n \<Rightarrow> n)"

definition overnight_conflicts :: "env \<Rightarrow> gateway \<Rightarrow> morning_db \<Rightarrow> rental_unit \<Rightarrow> date \<Rightarrow> date \<Rightarrow> bool res" where
  "overnight_conflicts e g md u check_in check_out =
     bindE (zone_reading_of e (unit_zone u)) (\<lambda>at_wall.
       Inr (active_stays e g md (ru_id u) (at_wall (wall_clock check_in (hour_or (ru_in_hour u) 15)))
              (at_wall (wall_clock check_out (hour_or (ru_out_hour u) 12))) None \<noteq> []))"

subsection \<open>Stays and payments of the site that are under way\<close>

definition inflight_intervals :: "db \<Rightarrow> nat \<Rightarrow> date \<Rightarrow> (date \<times> date) list" where
  "inflight_intervals d unit day =
     map (\<lambda>b. (bk_check_in b, bk_check_out b))
       (filter (\<lambda>b. bk_property b = unit \<and> bk_check_in b \<le> day \<and> day \<le> bk_check_out b
          \<and> bk_status b \<in> {Creating, CreateUnknown, CreatePending, ReadyForHostaway}) (db_bookings d))
     @ concat (map (\<lambda>i. map (\<lambda>p. (in_check_in i, in_check_out i))
          (filter (\<lambda>p. pa_status p \<in> set unresolved \<union> {PaSucceeded}) (in_payments i)))
        (filter (\<lambda>i. in_property i = unit \<and> in_check_in i \<le> day \<and> day \<le> in_check_out i) (all_intents d)))"

definition local_inflight_conflict :: "env \<Rightarrow> morning_db \<Rightarrow> rental_unit \<Rightarrow> instant \<Rightarrow> instant \<Rightarrow> bool res" where
  "local_inflight_conflict e md u start finish =
     bindE (property_zone u) (\<lambda>z. bindE (zone_offset_of e z) (\<lambda>off. bindE (zone_reading_of e z) (\<lambda>at_wall.
       Inr (list_ex (\<lambda>(arrival, departure). at_wall (wall_clock arrival 15) < finish + hours 3 \<and> start < at_wall (wall_clock departure 12))
         (inflight_intervals (md_site md) (ru_id u) (local_date off start))))))"

subsection \<open>Dates with a time: \<open>datetime.fromisoformat\<close>\<close>

fun digits_run :: "string \<Rightarrow> nat" where
  "digits_run [] = 0"
| "digits_run (c # s) = (if is_digit_char c then Suc (digits_run s) else 0)"

text \<open>The length of the date of an ISO text.\<close>

definition date_length :: "string \<Rightarrow> nat" where
  "date_length s =
     (if length s = 7 then 7
      else if s ! 4 = CHR ''-'' then
        (if s ! 5 = CHR ''W'' then
           (if 8 < length s \<and> s ! 8 = CHR ''-'' then (if 10 < length s \<and> is_digit_char (s ! 10) then 8 else 10) else 8)
         else 10)
      else if s ! 4 = CHR ''W'' then
        (let n = 7 + digits_run (drop 7 s) in if n < 9 then n else if even n then 7 else 8)
      else 8)"

text \<open>\<open>HH\<close>, \<open>HH:MM\<close> or \<open>HH:MM:SS\<close>, with or without the colons.\<close>

definition clock_fields :: "string \<Rightarrow> (int list \<times> string) option" where
  "clock_fields s =
     (case fixed_digits 2 (take 2 s) of None \<Rightarrow> None | Some h \<Rightarrow>
        let r = drop 2 s; sep = (take 1 r = '':'') in
        if r = [] then Some ([h], [])
        else (case fixed_digits 2 (take 2 (if sep then drop 1 r else r)) of None \<Rightarrow> None | Some m \<Rightarrow>
          let q = drop (if sep then 3 else 2) r in
          if q = [] then Some ([h, m], [])
          else if sep \<and> take 1 q \<noteq> '':'' then None
          else (case fixed_digits 2 (take 2 (if sep then drop 1 q else q)) of None \<Rightarrow> None | Some sc \<Rightarrow>
            Some ([h, m, sc], drop (if sep then 3 else 2) q))))"

definition clock_ok :: "string \<Rightarrow> bool" where
  "clock_ok s =
     (case clock_fields s of
        None \<Rightarrow> False
      | Some (parts, rest) \<Rightarrow>
          hd parts < 24 \<and> list_all (\<lambda>n. n < 60) (tl parts)
          \<and> (rest = [] \<or> hd rest \<in> {CHR ''.'', CHR '',''} \<and> tl rest \<noteq> [] \<and> list_all is_digit_char (tl rest)))"

definition zone_position :: "string \<Rightarrow> nat" where
  "zone_position s =
     (let pos = (\<lambda>c. length (takeWhile (\<lambda>x. x \<noteq> c) s)) in
      if pos (CHR ''-'') < length s then pos (CHR ''-'')
      else if pos (CHR ''+'') < length s then pos (CHR ''+'')
      else pos (CHR ''Z''))"

definition iso_time_ok :: "string \<Rightarrow> bool" where
  "iso_time_ok s = (2 \<le> length s \<and>
     (let n = zone_position s in
      if n = length s then clock_ok s
      else clock_ok (take n s) \<and> (if s ! n = CHR ''Z'' then n = length s - 1
        else length (drop (Suc n) s) \<notin> {0, 1, 3} \<and> clock_ok (drop (Suc n) s))))"

definition datetime_date :: "string \<Rightarrow> date option" where
  "datetime_date s =
     (if length s < 7 then None
      else let n = date_length s; t = drop (Suc n) s in
        if t \<noteq> [] \<and> \<not> iso_time_ok t then None else date_fromisoformat (take n s))"

subsection \<open>The check of a window\<close>

record morning_remote =
  mr_calendar :: "int \<Rightarrow> date \<Rightarrow> date \<Rightarrow> calendar_document res"
  mr_page :: "date \<Rightarrow> date \<Rightarrow> int option \<Rightarrow> (string \<times> pyval) list list res"

definition or_zero :: "int option \<Rightarrow> int" where
  "or_zero x = (case x of None \<Rightarrow> 0 | Some n \<Rightarrow> n)"

definition several_units :: "calendar_day \<Rightarrow> bool" where
  "several_units r =
     (1 < or_zero (cd_count r) + or_zero (cd_reserved r) + or_zero (cd_pending r) + or_zero (cd_blocked r)
      \<or> list_ex (\<lambda>x. case x of None \<Rightarrow> False | Some n \<Rightarrow> 1 < n)
          [cd_count r, cd_to_sell r, cd_desired r, cd_reserved r, cd_pending r, cd_blocked r])"

definition closed_day :: "calendar_day \<Rightarrow> bool" where
  "closed_day r = (or_zero (cd_blocked r) \<noteq> 0 \<or> map lower_char (cd_status r) \<in> {''blocked'', ''closed'', ''maintenance''})"

definition check_day :: "calendar_day \<Rightarrow> unit res" where
  "check_day r = (if several_units r then Inl (ValueError ''morning_several_units'')
     else if closed_day r then Inl (ValueError ''morning_closed'') else Inr ())"

text \<open>A row counts for the unit unless its state is one of these.\<close>

definition row_status :: "(string \<times> pyval) list \<Rightarrow> stay_status" where
  "row_status r = (case map_of r ''status'' of Some (PyStr s) \<Rightarrow> normalize_status s | _ \<Rightarrow> UnknownStay)"

definition row_date :: "(string \<times> pyval) list \<Rightarrow> string \<Rightarrow> date option" where
  "row_date r k = (case map_of r k of Some (PyStr s) \<Rightarrow> datetime_date s | _ \<Rightarrow> None)"

definition row_hour :: "(string \<times> pyval) list \<Rightarrow> string \<Rightarrow> int option \<Rightarrow> int \<Rightarrow> int option" where
  "row_hour r k given usual =
     (case dget r k of
        PyNone \<Rightarrow> (if 0 \<le> hour_or given usual \<and> hour_or given usual \<le> 24 then Some (hour_or given usual) else None)
      | PyInt n \<Rightarrow> (if 0 \<le> n \<and> n \<le> 24 then Some n else None)
      | _ \<Rightarrow> None)"

text \<open>What is checked of a row of the unit.\<close>

definition check_stay_row :: "rental_unit \<Rightarrow> (int \<Rightarrow> instant) \<Rightarrow> date \<Rightarrow> instant \<Rightarrow> instant \<Rightarrow> (string \<times> pyval) list \<Rightarrow> unit res" where
  "check_stay_row u at_wall day start finish r =
     (if row_status r \<in> {Cancelled, Declined, ExpiredStay, Inquiry} then Inr ()
      else if row_status r \<notin> {Confirmed, Modified, AwaitingPayment, PendingConfirmation} then Inl (ValueError ''morning_unsettled'')
      else case (row_date r ''arrivalDate'', row_date r ''departureDate'') of
        (Some arrival, Some departure) \<Rightarrow>
          if departure \<le> arrival then Inl (ValueError ''morning_dates'')
          else if arrival < day \<and> departure = day then Inl (ValueError ''morning_departure_today'')
          else if arrival < day \<and> day < departure then Inl (ValueError ''morning_occupied'')
          else if departure < day then Inr ()
          else (case (row_hour r ''checkInTime'' (ru_in_hour u) 15, row_hour r ''checkOutTime'' (ru_out_hour u) 12) of
              (Some h, Some k) \<Rightarrow>
                if at_wall (wall_clock arrival h) < finish + hours 3 \<and> start < at_wall (wall_clock departure k)
                then Inl (ValueError ''morning_overlap'') else Inr ()
            | _ \<Rightarrow> Inl (ValueError ''morning_times''))
      | _ \<Rightarrow> Inl (ValueError ''morning_dates''))"

text \<open>The rows of a page; the numbers seen so far, the last one first.\<close>

fun check_rows :: "rental_unit \<Rightarrow> (int \<Rightarrow> instant) \<Rightarrow> date \<Rightarrow> instant \<Rightarrow> instant \<Rightarrow> int list \<Rightarrow> (string \<times> pyval) list list \<Rightarrow> int list res" where
  "check_rows u at_wall day start finish seen [] = Inr seen"
| "check_rows u at_wall day start finish seen (r # rs) =
     (case dget r ''id'' of
        PyInt n \<Rightarrow>
          if n \<le> 0 \<or> n \<in> set seen then Inl (ValueError ''morning_coverage'')
          else (case dget r ''listingMapId'' of
              PyInt k \<Rightarrow>
                if k \<le> 0 then Inl (ValueError ''morning_identity'')
                else if Some k \<noteq> ru_listing_map u then check_rows u at_wall day start finish (n # seen) rs
                else bindE (check_stay_row u at_wall day start finish r) (\<lambda>_. check_rows u at_wall day start finish (n # seen) rs)
            | _ \<Rightarrow> Inl (ValueError ''morning_identity''))
      | _ \<Rightarrow> Inl (ValueError ''morning_coverage''))"

text \<open>At most as many pages as the first number; a page of less than a hundred rows is the last.\<close>

fun check_pages :: "nat \<Rightarrow> (int option \<Rightarrow> (string \<times> pyval) list list res) \<Rightarrow> rental_unit \<Rightarrow> (int \<Rightarrow> instant) \<Rightarrow> date \<Rightarrow> instant \<Rightarrow> instant
    \<Rightarrow> int option \<Rightarrow> int list \<Rightarrow> int list res" where
  "check_pages 0 page u at_wall day start finish cursor seen = Inl (ValueError ''morning_pages'')"
| "check_pages (Suc n) page u at_wall day start finish cursor seen =
     bindE (page cursor) (\<lambda>rows. bindE (check_rows u at_wall day start finish seen rows) (\<lambda>seen'.
       if length rows < 100 then Inr seen'
       else check_pages n page u at_wall day start finish (Some (hd seen')) seen'))"

definition unit_usable :: "rental_unit \<Rightarrow> int \<Rightarrow> bool" where
  "unit_usable u guests = (ru_visible u \<and> ru_active u \<and> ru_listing_map u \<notin> {None, Some 0} \<and> 1 \<le> guests
     \<and> (case ru_capacity u of None \<Rightarrow> True | Some c \<Rightarrow> c = 0 \<or> guests \<le> c))"

definition verify_window :: "env \<Rightarrow> morning_remote \<Rightarrow> morning_db \<Rightarrow> rental_unit \<Rightarrow> datetime \<Rightarrow> datetime \<Rightarrow> int \<Rightarrow> bool \<Rightarrow> bool
    \<Rightarrow> morning_evidence res" where
  "verify_window e remote md u s t guests allow_started allow_elapsed =
     bindE (property_zone u) (\<lambda>z. bindE (zone_offset_of e z) (\<lambda>off. bindE (zone_reading_of e z) (\<lambda>at_wall.
     bindE (validate_window e off s t allow_started allow_elapsed) (\<lambda>(start, finish).
     if \<not> unit_usable u guests then Inl (ValueError ''morning_unit'')
     else bindE (local_inflight_conflict e md u start finish) (\<lambda>busy.
     if busy then Inl (ValueError ''morning_inflight'')
     else let day = local_date off start in
     bindE (mr_calendar remote (ru_listing u) (day - 1) (day + 1)) (\<lambda>doc.
       let days = map_of (rev (map (\<lambda>r. (cd_date r, r)) (cal_days doc))) in
       case (days (day - 1), days day) of
         (Some previous, Some today) \<Rightarrow>
           bindE (check_day previous) (\<lambda>_. bindE (check_day today) (\<lambda>_.
           bindE (check_pages 10 (mr_page remote (day - 1) day) u at_wall day start finish None []) (\<lambda>seen.
             Inr \<lparr> ve_checked = now e, ve_previous = day - 1, ve_rows = length seen \<rparr>)))
       | _ \<Rightarrow> Inl (ValueError ''morning_calendar'')))))))"

subsection \<open>Making, changing and cancelling a stay\<close>

record morning_request =
  rq_key :: string
  rq_unit :: rental_unit
  rq_starts :: datetime
  rq_ends :: datetime
  rq_guest :: morning_guest
  rq_guests :: int
  rq_amount :: rat
  rq_billing :: "(string \<times> string) list"
  rq_actor :: nat

text \<open>Equality of dictionaries.\<close>

definition same_dict :: "(string \<times> string) list \<Rightarrow> (string \<times> string) list \<Rightarrow> bool" where
  "same_dict xs ys = list_all (\<lambda>k. map_of xs k = map_of ys k) (map fst xs @ map fst ys)"

text \<open>\<open>getattr(existing, k) != v\<close> for the values of the request.\<close>

definition same_request :: "gateway \<Rightarrow> string \<Rightarrow> morning_request \<Rightarrow> morning_stay \<Rightarrow> bool" where
  "same_request g z r s = (ms_property s = ru_id (rq_unit r) \<and> Aware (ms_starts s) = rq_starts r \<and> Aware (ms_ends s) = rq_ends r
     \<and> ms_guest s = rq_guest r \<and> same_dict (ms_billing s) (rq_billing r) \<and> ms_guests s = rq_guests r \<and> ms_amount s = rq_amount r
     \<and> ms_zone s = z \<and> ms_environment s = gs_environment g)"

definition request_row :: "morning_db \<Rightarrow> string \<Rightarrow> morning_stay option" where
  "request_row md key = find (\<lambda>s. ms_request s = key) (md_stays md)"

definition next_stay :: "morning_db \<Rightarrow> nat" where
  "next_stay md = Suc (Max (insert 0 (set (map ms_id (md_stays md)))))"

definition new_stay :: "env \<Rightarrow> gateway \<Rightarrow> morning_db \<Rightarrow> string \<Rightarrow> morning_request \<Rightarrow> instant \<Rightarrow> instant \<Rightarrow> morning_evidence \<Rightarrow> morning_stay" where
  "new_stay e g md z r start finish ev =
     \<lparr> ms_id = next_stay md, ms_request = rq_key r, ms_property = ru_id (rq_unit r), ms_starts = start, ms_ends = finish, ms_zone = z,
       ms_guest = rq_guest r, ms_guests = rq_guests r, ms_amount = rq_amount r, ms_environment = gs_environment g, ms_status = MsOpen,
       ms_expires = min (now e + 5 * 60000000) start, ms_billing = rq_billing r, ms_checked_at = now e, ms_evidence = ev,
       ms_legal = PyDict [], ms_paid_at = None, ms_created_by = rq_actor r, ms_updated = now e \<rparr>"

text \<open>\<open>full_clean\<close>: required texts and their lengths, choices, ranges, the constraints of the table.\<close>

definition clean_stay :: "env \<Rightarrow> morning_stay \<Rightarrow> bool" where
  "clean_stay e s =
     (let m = ms_guest s; x = ms_amount s in
      mg_name m \<noteq> [] \<and> length (mg_name m) \<le> 200 \<and> mg_phone m \<noteq> [] \<and> length (mg_phone m) \<le> 32
      \<and> valid_email e (mg_email m) \<and> length (mg_email m) \<le> 254 \<and> mg_language m \<in> {''ar'', ''en'', ''fr''}
      \<and> 0 \<le> ms_guests s \<and> ms_guests s \<le> 32767 \<and> of_int \<lfloor>x * 100\<rfloor> = x * 100 \<and> 0 < x \<and> x < 1000000000000
      \<and> ms_starts s < ms_ends s)"

definition commit_create :: "env \<Rightarrow> gateway \<Rightarrow> morning_db \<Rightarrow> morning_request \<Rightarrow> instant \<Rightarrow> instant \<Rightarrow> morning_evidence
    \<Rightarrow> (morning_db \<times> nat) res" where
  "commit_create e g md r start finish ev =
     bindE (property_zone (rq_unit r)) (\<lambda>z.
     case request_row md (rq_key r) of
       Some s \<Rightarrow> if same_request g z r s then Inr (md, ms_id s) else Inl (ValueError ''morning_request_reused'')
     | None \<Rightarrow>
         if active_stays e g md (ru_id (rq_unit r)) start (finish + hours 3) None \<noteq> [] then Inl (ValueError ''morning_stay_overlap'')
         else bindE (local_inflight_conflict e md (rq_unit r) start finish) (\<lambda>busy.
           if busy then Inl (ValueError ''morning_inflight'')
           else let s = new_stay e g md z r start finish ev in
             if clean_stay e s then Inr (md \<lparr> md_stays := md_stays md @ [s] \<rparr>, ms_id s) else Inl (ValidationError ''morning_stay'')))"

definition create_stay :: "env \<Rightarrow> gateway \<Rightarrow> morning_remote \<Rightarrow> morning_db \<Rightarrow> morning_request \<Rightarrow> (morning_db \<times> nat) res" where
  "create_stay e g remote md r =
     bindE (property_zone (rq_unit r)) (\<lambda>z.
     case request_row md (rq_key r) of
       Some s \<Rightarrow> if same_request g z r s then Inr (md, ms_id s) else Inl (ValueError ''morning_request_reused'')
     | None \<Rightarrow>
         bindE (verify_window e remote md (rq_unit r) (rq_starts r) (rq_ends r) (rq_guests r) False False) (\<lambda>ev.
           (case (rq_starts r, rq_ends r) of
              (Aware start, Aware finish) \<Rightarrow> commit_create e g md r start finish ev
            | _ \<Rightarrow> Inl (ValueError ''morning_naive''))))"

text \<open>The new details of a stay, from the form of the operators.\<close>

record morning_change =
  mc_unit :: rental_unit
  mc_starts :: instant
  mc_ends :: instant
  mc_guest :: morning_guest
  mc_guests :: int

definition window_changed :: "morning_change \<Rightarrow> morning_stay \<Rightarrow> bool" where
  "window_changed c s = (ms_property s \<noteq> ru_id (mc_unit c) \<or> ms_starts s \<noteq> mc_starts c \<or> ms_ends s \<noteq> mc_ends c \<or> ms_guests s \<noteq> mc_guests c)"

definition changed_stay :: "env \<Rightarrow> string \<Rightarrow> morning_change \<Rightarrow> morning_evidence option \<Rightarrow> morning_stay \<Rightarrow> morning_stay" where
  "changed_stay e z c ev s =
     s \<lparr> ms_property := ru_id (mc_unit c), ms_starts := mc_starts c, ms_ends := mc_ends c, ms_guest := mc_guest c, ms_guests := mc_guests c,
        ms_zone := z, ms_evidence := (case ev of None \<Rightarrow> ms_evidence s | Some v \<Rightarrow> v),
        ms_checked_at := (case ev of None \<Rightarrow> ms_checked_at s | Some v \<Rightarrow> now e), ms_updated := now e \<rparr>"

text \<open>The transaction; \<open>cur\<close> is the row that was read before it, with the evidence of the check.\<close>

definition commit_morning_change :: "env \<Rightarrow> gateway \<Rightarrow> morning_db \<Rightarrow> morning_stay \<Rightarrow> morning_change \<Rightarrow> instant \<Rightarrow> morning_evidence option \<Rightarrow> morning_db res" where
  "commit_morning_change e g md cur c expected ev =
     bindE (of_option (DoesNotExist ''stay'') (get_stay md (ms_id cur))) (\<lambda>s.
     if ms_updated s \<noteq> expected then Inl (ValueError ''morning_changed_meanwhile'')
     else if ms_status s \<notin> {MsPaid, MsOpen, MsExpired} \<or> ms_ends s \<le> now e then Inl (ValueError ''morning_not_changeable'')
     else if has_unresolved md (ms_id s) then Inl (ValueError ''morning_payment_unresolved'')
     else if window_changed c cur \<and> active_stays e g md (ru_id (mc_unit c)) (mc_starts c) (mc_ends c + hours 3) (Some (ms_id s)) \<noteq> []
     then Inl (ValueError ''morning_stay_overlap'')
     else bindE (property_zone (mc_unit c)) (\<lambda>z. Inr (put_stay md (changed_stay e z c ev s))))"

definition change_paid_stay :: "env \<Rightarrow> gateway \<Rightarrow> morning_remote \<Rightarrow> morning_db \<Rightarrow> nat \<Rightarrow> morning_change \<Rightarrow> instant \<Rightarrow> morning_db res" where
  "change_paid_stay e g remote md k c expected =
     bindE (of_option (DoesNotExist ''stay'') (get_stay md k)) (\<lambda>cur.
     if window_changed c cur
     then bindE (verify_window e remote md (mc_unit c) (Aware (mc_starts c)) (Aware (mc_ends c)) (mc_guests c) (mc_starts c = ms_starts cur) False) (\<lambda>ev.
       commit_morning_change e g md cur c expected (Some ev))
     else commit_morning_change e g md cur c expected None)"

definition cancel_stay :: "env \<Rightarrow> morning_db \<Rightarrow> nat \<Rightarrow> morning_db res" where
  "cancel_stay e md k =
     bindE (of_option (DoesNotExist ''stay'') (get_stay md k)) (\<lambda>s.
     if ms_status s = MsCancelled then Inr md
     else if ms_status s \<in> {MsProcessing, MsReview} \<or> has_unresolved md k then Inl (ValueError ''morning_payment_unresolved'')
     else Inr (put_stay md (s \<lparr> ms_status := MsCancelled, ms_updated := now e \<rparr>)))"


subsection \<open>What a check guarantees\<close>

text \<open>The rows of the pages that a complete reading goes through.\<close>

definition last_id :: "(string \<times> pyval) list list \<Rightarrow> int option" where
  "last_id rows = (case dget (last rows) ''id'' of PyInt n \<Rightarrow> Some n | _ \<Rightarrow> None)"

fun read_rows :: "nat \<Rightarrow> (int option \<Rightarrow> (string \<times> pyval) list list res) \<Rightarrow> int option \<Rightarrow> (string \<times> pyval) list list" where
  "read_rows 0 page cursor = []"
| "read_rows (Suc n) page cursor =
     (case page cursor of
        Inl x \<Rightarrow> []
      | Inr rows \<Rightarrow> rows @ (if length rows < 100 then [] else read_rows n page (last_id rows)))"

text \<open>A row of the unit that may stand for guests is over before the day, or leaves the window alone.\<close>

definition row_clear :: "rental_unit \<Rightarrow> (int \<Rightarrow> instant) \<Rightarrow> date \<Rightarrow> instant \<Rightarrow> instant \<Rightarrow> (string \<times> pyval) list \<Rightarrow> bool" where
  "row_clear u at_wall day start finish r =
     (\<exists>k. dget r ''listingMapId'' = PyInt k \<and>
       (Some k \<noteq> ru_listing_map u \<or> row_status r \<in> {Cancelled, Declined, ExpiredStay, Inquiry}
        \<or> (\<exists>arrival departure. row_date r ''arrivalDate'' = Some arrival \<and> row_date r ''departureDate'' = Some departure \<and> arrival < departure
            \<and> (departure < day \<or> day \<le> arrival \<and>
                (\<exists>h j. row_hour r ''checkInTime'' (ru_in_hour u) 15 = Some h \<and> row_hour r ''checkOutTime'' (ru_out_hour u) 12 = Some j
                   \<and> (finish + hours 3 \<le> at_wall (wall_clock arrival h) \<or> at_wall (wall_clock departure j) \<le> start))))))"

lemma check_stay_row_clear:
  assumes "check_stay_row u at_wall day start finish r = Inr ()" and "dget r ''listingMapId'' = PyInt k"
  shows "row_clear u at_wall day start finish r"
  using assms unfolding check_stay_row_def row_clear_def
  by (auto simp: not_less split: if_splits option.splits)

lemma check_rows_clear:
  "check_rows u at_wall day start finish seen rows = Inr seen' \<Longrightarrow>
     list_all (row_clear u at_wall day start finish) rows \<and> (rows \<noteq> [] \<longrightarrow> last_id rows = Some (hd seen') \<and> seen' \<noteq> [])
     \<and> length seen' = length seen + length rows"
proof (induction u at_wall day start finish seen rows rule: check_rows.induct)
  case (2 u at_wall day start finish seen r rs)
  obtain n where n: "dget r ''id'' = PyInt n" "0 < n" "n \<notin> set seen" using 2(3) by (auto split: pyval.splits if_splits)
  obtain k where k: "dget r ''listingMapId'' = PyInt k" "0 < k" using 2(3) n by (auto split: pyval.splits if_splits)
  have rest: "check_rows u at_wall day start finish (n # seen) rs = Inr seen'" and clear: "row_clear u at_wall day start finish r"
  proof -
    show "check_rows u at_wall day start finish (n # seen) rs = Inr seen'"
      using 2(3) n k by (auto simp: bindE_Inr_iff split: if_splits)
    show "row_clear u at_wall day start finish r"
    proof (cases "Some k = ru_listing_map u")
      case True
      then have "check_stay_row u at_wall day start finish r = Inr ()" using 2(3) n k by (auto simp: bindE_Inr_iff)
      then show ?thesis using k(1) by (rule check_stay_row_clear)
    qed (use k in \<open>simp add: row_clear_def\<close>)
  qed
  have IH: "list_all (row_clear u at_wall day start finish) rs \<and> (rs \<noteq> [] \<longrightarrow> last_id rs = Some (hd seen') \<and> seen' \<noteq> [])
     \<and> length seen' = length (n # seen) + length rs"
  proof (cases "Some k = ru_listing_map u")
    case True
    then have "check_stay_row u at_wall day start finish r = Inr ()" using 2(3) n k by (auto simp: bindE_Inr_iff)
    then show ?thesis using 2(2) [OF n(1) _ k(1)] n k rest True by auto
  next
    case False
    then show ?thesis using 2(1) [OF n(1) _ k(1)] n k rest by auto
  qed
  show ?case
  proof (cases "rs = []")
    case True
    then have "seen' = n # seen" using rest by simp
    then show ?thesis using True clear n(1) by (simp add: last_id_def)
  next
    case False
    then show ?thesis using IH clear by (simp add: last_id_def)
  qed
qed simp

lemma check_pages_clear:
  "check_pages n page u at_wall day start finish cursor seen = Inr seen' \<Longrightarrow>
     list_all (row_clear u at_wall day start finish) (read_rows n page cursor)
     \<and> length seen' = length seen + length (read_rows n page cursor)"
proof (induction n arbitrary: cursor seen)
  case (Suc n)
  obtain rows seen1 where parts: "page cursor = Inr rows" "check_rows u at_wall day start finish seen rows = Inr seen1"
    and rest: "(if length rows < 100 then Inr seen1 else check_pages n page u at_wall day start finish (Some (hd seen1)) seen1) = Inr seen'"
    using Suc.prems by (auto simp: bindE_Inr_iff)
  note clear = check_rows_clear [OF parts(2)]
  show ?case
  proof (cases "length rows < 100")
    case True
    then show ?thesis using rest parts(1) clear by simp
  next
    case False
    then have "last_id rows = Some (hd seen1)" using clear by auto
    moreover have "list_all (row_clear u at_wall day start finish) (read_rows n page (Some (hd seen1)))
        \<and> length seen' = length seen1 + length (read_rows n page (Some (hd seen1)))"
      using Suc.IH rest False by simp
    ultimately show ?thesis using False parts(1) clear by simp
  qed
qed simp

text \<open>C21: a window that passes the check lies within one morning of the unit's zone, on a day whose
  calendar knows a single open unit, and leaves alone every guest of every page of reservations,
  with three hours to turn the unit over, and every stay and payment of the site that is under way.\<close>

theorem verified_window_clear:
  assumes "verify_window e remote md u s t guests allow_started allow_elapsed = Inr ev"
  shows "\<exists>z off at_wall start finish day. property_zone u = Inr z \<and> zone_rules e z = Some off \<and> zone_instant e z = Some at_wall
    \<and> s = Aware start \<and> t = Aware finish \<and> day = local_date off start \<and> day = local_date off finish
    \<and> 0 < time_of_day off start \<and> time_of_day off start < time_of_day off finish \<and> time_of_day off finish \<le> hours 12
    \<and> local_inflight_conflict e md u start finish = Inr False
    \<and> ve_rows ev = length (read_rows 10 (mr_page remote (day - 1) day) None)
    \<and> (\<forall>r \<in> set (read_rows 10 (mr_page remote (day - 1) day) None). row_clear u at_wall day start finish r)"
proof -
  obtain z off at_wall start finish where zone: "property_zone u = Inr z" "zone_rules e z = Some off" "zone_instant e z = Some at_wall"
    and window: "validate_window e off s t allow_started allow_elapsed = Inr (start, finish)"
    and free: "local_inflight_conflict e md u start finish = Inr False"
    and rest: "bindE (mr_calendar remote (ru_listing u) (local_date off start - 1) (local_date off start + 1)) (\<lambda>doc.
       case (map_of (rev (map (\<lambda>r. (cd_date r, r)) (cal_days doc))) (local_date off start - 1), map_of (rev (map (\<lambda>r. (cd_date r, r)) (cal_days doc))) (local_date off start)) of
         (Some previous, Some today) \<Rightarrow>
           bindE (check_day previous) (\<lambda>_. bindE (check_day today) (\<lambda>_.
           bindE (check_pages 10 (mr_page remote (local_date off start - 1) (local_date off start)) u at_wall (local_date off start) start finish None []) (\<lambda>seen.
             Inr \<lparr> ve_checked = now e, ve_previous = local_date off start - 1, ve_rows = length seen \<rparr>)))
       | _ \<Rightarrow> Inl (ValueError ''morning_calendar'')) = Inr ev"
    using assms unfolding verify_window_def bindE_Inr_iff
    by (auto simp: bindE_Inr_iff of_option_def zone_offset_of_def zone_reading_of_def Let_def split: option.splits if_splits)
  let ?day = "local_date off start"
  obtain doc where doc: "mr_calendar remote (ru_listing u) (?day - 1) (?day + 1) = Inr doc" using rest by (auto simp: bindE_Inr_iff)
  define days where "days = map_of (rev (map (\<lambda>r. (cd_date r, r)) (cal_days doc)))"
  obtain previous today where known: "days (?day - 1) = Some previous" "days ?day = Some today"
    using rest doc unfolding days_def [symmetric] by (cases "days (?day - 1)"; cases "days ?day") (auto simp: days_def [symmetric])
  obtain seen where pages: "check_pages 10 (mr_page remote (?day - 1) ?day) u at_wall ?day start finish None [] = Inr seen"
    and ev: "ve_rows ev = length seen"
    using rest doc known by (auto simp: days_def [symmetric] bindE_Inr_iff)
  have hours: "s = Aware start" "t = Aware finish" "local_date off start = local_date off finish" "0 < time_of_day off start"
    "time_of_day off start < time_of_day off finish" "time_of_day off finish \<le> hours 12"
    using window by (auto simp: validate_window_def split: datetime.splits if_splits)
  note clear = check_pages_clear [OF pages]
  show ?thesis
    by (intro exI [of _ z] exI [of _ off] exI [of _ at_wall] exI [of _ start] exI [of _ finish] exI [of _ "local_date off start"] conjI
        zone hours free refl) (use clear ev in \<open>simp_all add: list_all_iff\<close>)
qed

subsection \<open>A sample window\<close>

text \<open>Day 719163 is the first of January 1970; a guest arrives that afternoon.\<close>

definition sample_unit :: rental_unit where
  "sample_unit = \<lparr> ru_id = 1, ru_visible = True, ru_active = True, ru_listing = 5, ru_listing_map = Some 12, ru_capacity = Some 4,
     ru_zone = ''Asia/Riyadh'', ru_country = ''SA'', ru_in_hour = None, ru_out_hour = None \<rparr>"

definition open_day :: "date \<Rightarrow> calendar_day" where
  "open_day n = \<lparr> cd_date = n, cd_available = Some True, cd_price = None, cd_min = None, cd_max = None, cd_closed_arrival = None,
     cd_closed_departure = None, cd_status = ''available'', cd_count = Some 1, cd_to_sell = Some 1, cd_reserved = None, cd_pending = None,
     cd_blocked = None, cd_blocking = None, cd_desired = None, cd_processed = None, cd_resources = False \<rparr>"

definition afternoon_guest :: "(string \<times> pyval) list" where
  "afternoon_guest = [(''id'', PyInt 7), (''listingMapId'', PyInt 12), (''status'', PyStr ''new''), (''arrivalDate'', PyStr ''1970-01-01''),
     (''departureDate'', PyStr ''1970-01-03''), (''checkInTime'', PyInt 16)]"

definition sample_remote :: morning_remote where
  "sample_remote = \<lparr> mr_calendar = (\<lambda>n a b. Inr \<lparr> cal_days = [open_day 719162, open_day 719163], cal_fields = [], cal_types = [],
       cal_resources = False \<rparr>), mr_page = (\<lambda>a b c. Inr [afternoon_guest]) \<rparr>"

definition empty_morning :: morning_db where
  "empty_morning = \<lparr> md_units = [sample_unit], md_stays = [], md_attempts = [], md_site = sample_db \<lparr> db_bookings := [] \<rparr> \<rparr>"

text \<open>From eight to twelve.\<close>

lemma sample_window: "verify_window sample_env sample_remote empty_morning sample_unit (Aware (hours 8)) (Aware (hours 12)) 2 False False
    = Inr \<lparr> ve_checked = 1000, ve_previous = 719162, ve_rows = 1 \<rparr>"
  by code_simp

theorem verified_window_clear_witness:
  "\<exists>off at_wall. zone_rules sample_env ''Asia/Riyadh'' = Some off \<and> zone_instant sample_env ''Asia/Riyadh'' = Some at_wall
     \<and> local_inflight_conflict sample_env empty_morning sample_unit (hours 8) (hours 12) = Inr False"
  using verified_window_clear [OF sample_window] by (auto simp: property_zone_def unit_zone_def sample_unit_def split: if_splits)

end
