(* ===== verification/MorningPayments.thy ===== *)
theory MorningPayments
  imports Morning
begin

section \<open>Payments of morning stays (apps/payments/morning\_payments.py, morning\_validation.py)\<close>

text \<open>
  The checkout of a stay claims the window in a transaction and only then asks the gateway: the
  claim and the answer are separate definitions, so that a process can die between them. The
  documents a guest accepts are known by their digest. The signed links are not modelled.
\<close>

subsection \<open>What a guest enters (morning\_validation.py)\<close>

definition is_space :: "char \<Rightarrow> bool" where
  "is_space c = (c \<in> {CHR '' '', CHR 0x09, CHR 0x0D, CHR 0x0A, CHR 0x0C, CHR 0x0B})"

definition trim :: "string \<Rightarrow> string" where
  "trim s = rev (dropWhile is_space (rev (dropWhile is_space s)))"

definition between :: "nat \<Rightarrow> nat \<Rightarrow> string \<Rightarrow> bool" where
  "between a b s = (a \<le> length s \<and> length s \<le> b)"

text \<open>The parts between the separators.\<close>

fun split_at :: "char \<Rightarrow> string \<Rightarrow> string list" where
  "split_at c [] = [[]]"
| "split_at c (x # s) = (if x = c then [] # split_at c s
     else (case split_at c s of p # ps \<Rightarrow> (x # p) # ps | [] \<Rightarrow> [[x]]))"

definition email_char :: "char \<Rightarrow> bool" where
  "email_char c = (is_alphanumeric c \<or> c \<in> set ''.!#$%&*+/=?^_`{|}~-'' \<or> c = CHR 0x27)"

definition email_label :: "string \<Rightarrow> bool" where
  "email_label s = (between 1 63 s \<and> list_all (\<lambda>c. is_alphanumeric c \<or> c = CHR ''-'') s
     \<and> is_alphanumeric (hd s) \<and> is_alphanumeric (last s))"

definition email_pattern :: "string \<Rightarrow> bool" where
  "email_pattern s = (between 6 128 s \<and>
     (case split_at CHR ''@'' s of
        [user, domain] \<Rightarrow> user \<noteq> [] \<and> list_all email_char user \<and> list_all email_label (split_at CHR ''.'' domain)
      | _ \<Rightarrow> False))"

definition rule_holds :: "string \<Rightarrow> string \<Rightarrow> bool" where
  "rule_holds name s =
     (if name = ''guest_first_name'' \<or> name = ''guest_last_name'' then between 1 50 s
      else if name = ''guest_email'' then email_pattern s
      else if name = ''billing_street1'' then between 1 100 s \<and> \<not> list_all is_digit_char s
      else if name = ''billing_city'' then between 1 80 s
      else if name = ''billing_state'' then between 1 50 s \<and> list_all (\<lambda>c. is_alphanumeric c \<or> c = CHR ''.'') s
      else if name = ''billing_postcode'' then between 1 16 s \<and> list_all is_alphanumeric s
      else if name = ''billing_country'' then between 2 2 s \<and> s \<in> set country_codes
      else False)"

definition validate_value :: "string \<Rightarrow> string option \<Rightarrow> string res" where
  "validate_value name x =
     (let s = trim (case x of None \<Rightarrow> [] | Some t \<Rightarrow> t) in
      if CHR 0x00 \<in> set s \<or> \<not> rule_holds name s then Inl (ValidationError name) else Inr s)"

definition customer_values :: "morning_stay \<Rightarrow> (string \<times> string) list" where
  "customer_values s =
     (let name = strip (mg_name (ms_guest s)) in
      [(''guest_first_name'', takeWhile (\<lambda>c. c \<noteq> CHR '' '') name),
       (''guest_last_name'', strip (drop 1 (dropWhile (\<lambda>c. c \<noteq> CHR '' '') name))),
       (''guest_email'', mg_email (ms_guest s))])"

subsection \<open>The checkout\<close>

record checkout_input =
  ci_billing :: "(string \<times> string) list"
  ci_customer :: "(string \<times> string) list option"
  ci_acceptance :: "(string \<times> pyval) list"
  ci_digest :: string
  ci_merchant :: string

definition require_payable :: "gateway \<Rightarrow> morning_stay \<Rightarrow> unit res" where
  "require_payable g s =
     (if \<not> gs_enabled g \<or> ms_environment s \<noteq> gs_environment g then Inl (HyperPayCheckout ''morning_payment_unavailable'')
      else if ms_status s \<notin> {MsOpen, MsExpired, MsProcessing} \<or> ms_paid_at s \<noteq> None then Inl (HyperPayCheckout ''morning_payment_closed'')
      else Inr ())"

definition entered_values :: "checkout_input \<Rightarrow> morning_stay \<Rightarrow> (string \<times> string) list" where
  "entered_values c s =
     filter (\<lambda>kv. take 8 (fst kv) = ''billing_'') (if ms_billing s \<noteq> [] then ms_billing s else ci_billing c)
     @ (case ci_customer c of Some kvs \<Rightarrow> kvs | None \<Rightarrow> customer_values s)"

definition checked_fields :: "string list" where
  "checked_fields = [''guest_first_name'', ''guest_last_name'', ''guest_email'', ''billing_street1'', ''billing_city'',
     ''billing_state'', ''billing_postcode'', ''billing_country'']"

definition validated :: "checkout_input \<Rightarrow> morning_stay \<Rightarrow> (string \<times> string) list res" where
  "validated c s =
     rethrow (\<lambda>x. case x of ValidationError m \<Rightarrow> Some (HyperPayCheckout ''morning_customer_data_invalid'') | _ \<Rightarrow> None)
       (mapE (\<lambda>name. bindE (validate_value name (map_of (entered_values c s) name)) (\<lambda>v. Inr (name, v))) checked_fields)"

definition accepted :: "checkout_input \<Rightarrow> bool" where
  "accepted c = (dget (ci_acceptance c) ''documents_digest'' = PyStr (ci_digest c)
     \<and> (case dget (ci_acceptance c) ''consents'' of
          PyDict kvs \<Rightarrow> set (map fst kvs) = {''terms'', ''house_rules''} \<and> equals_int (dget kvs ''terms'') 1 \<and> equals_int (dget kvs ''house_rules'') 1
        | _ \<Rightarrow> False))"

text \<open>The namespace that stands for an intent: only the amount and the contact are read.\<close>

definition value_at :: "(string \<times> string) list \<Rightarrow> string \<Rightarrow> string" where
  "value_at kvs k = (case map_of kvs k of None \<Rightarrow> [] | Some v \<Rightarrow> v)"

definition payer :: "rat \<Rightarrow> (string \<times> string) list \<Rightarrow> intent" where
  "payer x kvs =
     \<lparr> in_id = 0, in_customer = None, in_status = InAwaitingPayment, in_currency = ''SAR'', in_total = x, in_payment_sar = Some x,
       in_fx = PyDict [], in_quote = \<lparr> sq_components = PyList [], sq_check_in = 0, sq_check_out = 0, sq_total = x, sq_nights = None,
         sq_manual_total = None \<rparr>, in_phone = [], in_payments = [], in_property = 0, in_check_in = 0, in_check_out = 0, in_nights = 0,
       in_guests = 0, in_expires_at = 0,
       in_contact = \<lparr> ct_email = value_at kvs ''guest_email'', ct_given = value_at kvs ''guest_first_name'',
         ct_surname = value_at kvs ''guest_last_name'', ct_street = value_at kvs ''billing_street1'', ct_city = value_at kvs ''billing_city'',
         ct_state = value_at kvs ''billing_state'', ct_country = value_at kvs ''billing_country'', ct_postcode = value_at kvs ''billing_postcode'',
         ct_guest_country = [], ct_language = [] \<rparr>, in_session = [], in_display = [] \<rparr>"

definition with_state :: "string \<Rightarrow> (string \<times> pyval) list \<Rightarrow> (string \<times> pyval) list" where
  "with_state v payload = map (\<lambda>kv. if fst kv = ''billing.state'' then (fst kv, PyStr v) else kv) payload"

definition previous_try :: "morning_db \<Rightarrow> nat \<Rightarrow> morning_attempt option" where
  "previous_try md k =
     (let open_ones = filter (\<lambda>a. ma_status a \<in> set unresolved \<union> {PaSucceeded}) (tries_of md k)
      in if open_ones = [] then None else Some (last open_ones))"

definition next_try :: "morning_db \<Rightarrow> nat" where
  "next_try md = Suc (Max (insert 0 (set (map ma_id (md_attempts md)))))"

definition new_try :: "env \<Rightarrow> checkout_input \<Rightarrow> morning_db \<Rightarrow> morning_stay \<Rightarrow> morning_attempt" where
  "new_try e c md s = \<lparr> ma_id = next_try md, ma_stay = ms_id s, ma_merchant = ci_merchant c, ma_checkout = None, ma_payment = None,
     ma_code = [], ma_integrity = [], ma_amount = ms_amount s, ma_currency = ''SAR'', ma_status = PaCreated, ma_failure = [],
     ma_verified = None, ma_updated = now e \<rparr>"

definition claimed_stay :: "env \<Rightarrow> checkout_input \<Rightarrow> morning_evidence \<Rightarrow> morning_stay \<Rightarrow> morning_stay" where
  "claimed_stay e c ev s = s \<lparr> ms_status := MsProcessing, ms_legal := PyDict (ci_acceptance c), ms_evidence := ev,
     ms_checked_at := now e, ms_updated := now e \<rparr>"

text \<open>The claim: the attempt that is open already, or the new one with the payload for the gateway.\<close>

definition claim_checkout :: "env \<Rightarrow> gateway \<Rightarrow> checkout_input \<Rightarrow> morning_db \<Rightarrow> nat \<Rightarrow> morning_evidence
    \<Rightarrow> (morning_db \<times> nat \<times> (string \<times> pyval) list option) res" where
  "claim_checkout e g c md k ev =
     bindE (of_option (DoesNotExist ''stay'') (get_stay md k)) (\<lambda>s.
     bindE (require_payable g s) (\<lambda>_.
     bindE (of_option (DoesNotExist ''property'') (get_unit md (ms_property s))) (\<lambda>u.
     bindE (local_inflight_conflict e md u (ms_starts s) (ms_ends s)) (\<lambda>busy.
     if busy then Inl (ValueError ''morning_inflight'')
     else if active_stays e g md (ms_property s) (ms_starts s) (ms_ends s + hours 3) (Some k) \<noteq> [] then Inl (ValueError ''morning_stay_overlap'')
     else case previous_try md k of
       Some a \<Rightarrow>
         if ma_status a = PaPending \<and> ma_checkout a \<notin> {None, Some []} \<and> ma_integrity a \<noteq> [] then Inr (md, ma_id a, None)
         else Inl (HyperPayCheckout ''previous_morning_collection_unresolved'')
     | None \<Rightarrow>
         bindE (validated c s) (\<lambda>kvs.
         bindE (build_checkout_payload g (payer (ms_amount s) kvs) (ci_merchant c) (Some (ms_amount s)) None) (\<lambda>payload.
         if list_ex (\<lambda>a. ma_merchant a = ci_merchant c) (md_attempts md) then Inl (IntegrityError ''merchant_transaction_id'')
         else let a = new_try e c md s; md' = put_stay md (claimed_stay e c ev s) in
           Inr (md' \<lparr> md_attempts := md_attempts md' @ [a] \<rparr>, ma_id a, Some (with_state (value_at kvs ''billing_state'') payload))))))))"

definition prepare_checkout :: "env \<Rightarrow> gateway \<Rightarrow> morning_remote \<Rightarrow> checkout_input \<Rightarrow> morning_db \<Rightarrow> nat \<Rightarrow> morning_evidence res" where
  "prepare_checkout e g remote c md k =
     bindE (of_option (DoesNotExist ''stay'') (get_stay md k)) (\<lambda>s.
     bindE (require_payable g s) (\<lambda>_. bindE (validated c s) (\<lambda>_.
     if \<not> accepted c then Inl (HyperPayCheckout ''guest_acceptance_required'')
     else bindE (of_option (DoesNotExist ''property'') (get_unit md (ms_property s))) (\<lambda>u.
       verify_window e remote md u (Aware (ms_starts s)) (Aware (ms_ends s)) (ms_guests s) True True))))"

text \<open>The answer of the gateway. Whatever fails leaves the attempt unknown and the stay in review.\<close>

definition opened_try :: "env \<Rightarrow> string \<times> string \<times> string \<Rightarrow> morning_attempt \<Rightarrow> morning_attempt" where
  "opened_try e r a = a \<lparr> ma_checkout := Some (fst r), ma_integrity := fst (snd r), ma_code := snd (snd r), ma_status := PaPending,
     ma_updated := now e \<rparr>"

definition checkout_answer :: "gateway \<Rightarrow> morning_db \<Rightarrow> nat \<Rightarrow> exchange \<Rightarrow> (string \<times> string \<times> string) res" where
  "checkout_answer g md n x =
     bindE (client_request g x) (\<lambda>doc.
     bindE (of_option (HyperPayCheckout ''checkout_response_invalid'') (checkout_response doc)) (\<lambda>r.
       if list_ex (\<lambda>a. ma_id a \<noteq> n \<and> ma_checkout a = Some (fst r)) (md_attempts md) then Inl (IntegrityError ''provider_checkout_id'')
       else Inr r))"

definition uncertain_try :: "env \<Rightarrow> gateway \<Rightarrow> exchange \<Rightarrow> morning_attempt \<Rightarrow> morning_attempt" where
  "uncertain_try e g x a =
     (let b = (case client_request g x of
          Inr doc \<Rightarrow> if checkout_response doc = None
            then a \<lparr> ma_code := (case result_of doc ''code'' of PyStr s \<Rightarrow> s | _ \<Rightarrow> []), ma_updated := now e \<rparr> else a
        | Inl y \<Rightarrow> a)
      in b \<lparr> ma_status := PaUnknown, ma_failure := ''checkout_outcome_uncertain'' \<rparr>)"

definition conclude_checkout :: "env \<Rightarrow> gateway \<Rightarrow> morning_db \<Rightarrow> nat \<Rightarrow> exchange \<Rightarrow> morning_db \<times> nat res" where
  "conclude_checkout e g md n x =
     (case get_try md n of
        None \<Rightarrow> (md, Inl (DoesNotExist ''attempt''))
      | Some a \<Rightarrow>
          (case checkout_answer g md n x of
             Inr r \<Rightarrow> (put_try md (opened_try e r a), Inr n)
           | Inl y \<Rightarrow>
               let md' = put_try md (uncertain_try e g x a)
               in ((case get_stay md' (ma_stay a) of None \<Rightarrow> md' | Some s \<Rightarrow> put_stay md' (s \<lparr> ms_status := MsReview \<rparr>)),
                   Inl (HyperPayCheckout ''checkout_outcome_uncertain''))))"

definition create_morning_checkout :: "env \<Rightarrow> gateway \<Rightarrow> morning_remote \<Rightarrow> checkout_input \<Rightarrow> ((string \<times> pyval) list \<Rightarrow> exchange)
    \<Rightarrow> morning_db \<Rightarrow> nat \<Rightarrow> morning_db \<times> nat res" where
  "create_morning_checkout e g remote c answer md k =
     (case prepare_checkout e g remote c md k of
        Inl x \<Rightarrow> (md, Inl x)
      | Inr ev \<Rightarrow>
          (case claim_checkout e g c md k ev of
             Inl x \<Rightarrow> (md, Inl x)
           | Inr (md', n, None) \<Rightarrow> (md', Inr n)
           | Inr (md', n, Some payload) \<Rightarrow> conclude_checkout e g md' n (answer payload)))"

subsection \<open>The verification\<close>

text \<open>What the shared check reads of an attempt.\<close>

definition as_payment :: "morning_attempt \<Rightarrow> payment" where
  "as_payment a = \<lparr> pa_id = ma_id a, pa_provider = ''hyperpay'', pa_provider_id = ma_payment a, pa_status = ma_status a,
     pa_amount = ma_amount a, pa_currency = ma_currency a, pa_verified_at = ma_verified a, pa_key = [], pa_modification = None,
     pa_request = None, pa_checkout = ma_checkout a, pa_merchant = Some (ma_merchant a), pa_integrity = ma_integrity a,
     pa_code = ma_code a, pa_description = [], pa_failure = ma_failure a, pa_brand = [] \<rparr>"

definition morning_mismatch :: "gateway \<Rightarrow> morning_attempt \<Rightarrow> (string \<times> pyval) list \<Rightarrow> string" where
  "morning_mismatch g a doc =
     (let mapped = map_result_code (result_of doc ''code'') in
      if mapped = GwPending then []
      else if mapped = GwSuccess \<and> \<not> truthy (dget doc ''id'') then ''payment_id_missing''
      else verification_mismatch g (as_payment a) doc)"

text \<open>The row that is saved: status, failure and number of the payment.\<close>

definition payment_known :: "morning_db \<Rightarrow> nat \<Rightarrow> string \<Rightarrow> bool" where
  "payment_known md n t = (list_ex (\<lambda>a. ma_id a \<noteq> n \<and> ma_payment a = Some t) (md_attempts md)
     \<or> list_ex (\<lambda>p. pa_provider_id p = Some t) (all_attempts (md_site md)))"

definition verified_try :: "env \<Rightarrow> gateway \<Rightarrow> morning_db \<Rightarrow> morning_attempt \<Rightarrow> (string \<times> pyval) list \<Rightarrow> morning_attempt" where
  "verified_try e g md a doc =
     (let mismatch = morning_mismatch g a doc;
          mapped = (if mismatch \<noteq> [] then GwReview else map_result_code (result_of doc ''code''));
          b = a \<lparr> ma_status := attempt_status mapped, ma_failure := mismatch, ma_code := safe_text (result_of doc ''code'') 100,
                  ma_verified := Some (now e), ma_updated := now e \<rparr>
      in if mapped \<noteq> GwSuccess then b
         else (case dget doc ''id'' of
             PyStr t \<Rightarrow>
               if length t < 1 \<or> 255 < length t then b \<lparr> ma_status := PaReview, ma_failure := ''payment_id_invalid'' \<rparr>
               else if payment_known md (ma_id a) t then b \<lparr> ma_status := PaReview, ma_failure := ''payment_id_already_recorded'' \<rparr>
               else b \<lparr> ma_payment := Some t \<rparr>
           | _ \<Rightarrow> b \<lparr> ma_status := PaReview, ma_failure := ''payment_id_invalid'' \<rparr>))"

text \<open>At most one attempt of a stay is open or has succeeded.\<close>

definition holding :: "payment_status \<Rightarrow> bool" where
  "holding st = (st \<in> set unresolved \<union> {PaSucceeded})"

definition holding_conflict :: "morning_db \<Rightarrow> morning_attempt \<Rightarrow> bool" where
  "holding_conflict md a = (holding (ma_status a)
     \<and> list_ex (\<lambda>x. ma_id x \<noteq> ma_id a \<and> ma_stay x = ma_stay a \<and> holding (ma_status x)) (md_attempts md))"

text \<open>
  The first save and, when it breaks a constraint, the second one as a review without the number. The
  number was checked just before, so that only the constraint on the stay can break.
\<close>

definition save_try :: "morning_db \<Rightarrow> morning_attempt \<Rightarrow> (morning_db \<times> morning_attempt) res" where
  "save_try md b =
     (if \<not> holding_conflict md b then Inr (put_try md b, b)
      else let c = b \<lparr> ma_payment := None, ma_status := PaReview, ma_failure := ''payment_reference_conflict'' \<rparr>
        in if holding_conflict md c then Inl (IntegrityError ''one_unresolved_morning_payment'') else Inr (put_try md c, c))"

definition settled_stay :: "env \<Rightarrow> morning_attempt \<Rightarrow> morning_stay \<Rightarrow> morning_stay" where
  "settled_stay e b s =
     (if ma_status b = PaSucceeded
      then s \<lparr> ms_paid_at := ma_verified b, ms_updated := now e,
               ms_status := (if ms_status s = MsProcessing \<and> now e < ms_ends s then MsPaid else MsReview) \<rparr>
      else if ma_status b \<in> {PaReview, PaUnknown} then s \<lparr> ms_status := MsReview, ms_updated := now e \<rparr>
      else if ma_status b \<in> {PaFailed, PaCancelled} then s \<lparr> ms_status := MsOpen, ms_updated := now e \<rparr>
      else s \<lparr> ms_updated := now e \<rparr>)"

definition record_verification :: "env \<Rightarrow> gateway \<Rightarrow> morning_db \<Rightarrow> nat \<Rightarrow> (string \<times> pyval) list \<Rightarrow> morning_db res" where
  "record_verification e g md n doc =
     bindE (of_option (DoesNotExist ''attempt'') (get_try md n)) (\<lambda>a.
     bindE (of_option (DoesNotExist ''stay'') (get_stay md (ma_stay a))) (\<lambda>s.
     if ma_status a = PaSucceeded then Inr md
     else bindE (save_try md (verified_try e g md a doc)) (\<lambda>(md', b).
       Inr (put_stay md' (settled_stay e b s)))))"

definition verify_morning_payment :: "env \<Rightarrow> gateway \<Rightarrow> (string \<Rightarrow> exchange) \<Rightarrow> morning_db \<Rightarrow> nat \<Rightarrow> morning_db res" where
  "verify_morning_payment e g answer md n =
     bindE (of_option (DoesNotExist ''attempt'') (get_try md n)) (\<lambda>a.
     bindE (of_option (DoesNotExist ''stay'') (get_stay md (ma_stay a))) (\<lambda>s.
     if ms_environment s \<noteq> gs_environment g then Inl (HyperPayCheckout ''payment_environment_mismatch'')
     else if ma_status a = PaSucceeded then Inr md
     else (case ma_checkout a of
         Some (c # cs) \<Rightarrow> bindE (client_request g (answer (c # cs))) (\<lambda>doc. record_verification e g md n doc)
       | _ \<Rightarrow> Inl (HyperPayCheckout ''checkout_reference_unavailable''))))"

subsection \<open>The recovery\<close>

definition is_gateway_error :: "exc \<Rightarrow> bool" where
  "is_gateway_error x = (case x of HyperPayCheckout m \<Rightarrow> True | HyperPayConnection m \<Rightarrow> True | HyperPayAuthentication m \<Rightarrow> True
     | HyperPayConfiguration m \<Rightarrow> True | HyperPayResponse m \<Rightarrow> True | HyperPayVerification m \<Rightarrow> True | HyperPayRefund m \<Rightarrow> True | _ \<Rightarrow> False)"

definition due_tries :: "gateway \<Rightarrow> morning_db \<Rightarrow> nat \<Rightarrow> nat list" where
  "due_tries g md limit =
     map ma_id (take limit (sort_key ma_updated (filter (\<lambda>a. ma_status a \<in> {PaCreated, PaPending, PaUnknown} \<and> ma_checkout a \<noteq> None
       \<and> (case get_stay md (ma_stay a) of None \<Rightarrow> False | Some s \<Rightarrow> ms_environment s = gs_environment g)) (md_attempts md))))"

fun verify_all :: "env \<Rightarrow> gateway \<Rightarrow> (string \<Rightarrow> exchange) \<Rightarrow> morning_db \<Rightarrow> nat list \<Rightarrow> morning_db \<times> exc option" where
  "verify_all e g answer md [] = (md, None)"
| "verify_all e g answer md (n # ns) =
     (case verify_morning_payment e g answer md n of
        Inr md' \<Rightarrow> verify_all e g answer md' ns
      | Inl x \<Rightarrow> if is_gateway_error x then verify_all e g answer md ns else (md, Some x))"

definition reconcile_mornings :: "env \<Rightarrow> gateway \<Rightarrow> (string \<Rightarrow> exchange) \<Rightarrow> morning_db \<Rightarrow> nat \<Rightarrow> morning_db \<times> exc option" where
  "reconcile_mornings e g answer md limit =
     (if gs_enabled g then verify_all e g answer md (due_tries g md limit) else (md, None))"

end
