(* ===== verification/MorningLife.thy ===== *)
theory MorningLife
  imports MorningPayments
begin

section \<open>The life of morning stays\<close>

text \<open>
  Stays, claims, answers of the gateway, verifications, changes and cancellations of many processes
  as a step relation, for one setting of the environment. A check of a window is never assumed to
  be recent: the transaction after it may take any evidence.
\<close>

inductive morning_step :: "gateway \<Rightarrow> morning_db \<times> nat list \<Rightarrow> morning_db \<times> nat list \<Rightarrow> bool" for g where
  created: "commit_create e g md r start finish ev = Inr (md', k) \<Longrightarrow> morning_step g (md, ws) (md', ws)"
| changed: "get_stay md (ms_id cur) = Some cur \<Longrightarrow> commit_morning_change e g md cur c expected ev = Inr md' \<Longrightarrow> morning_step g (md, ws) (md', ws)"
| dropped: "cancel_stay e md k = Inr md' \<Longrightarrow> morning_step g (md, ws) (md', ws)"
| reused: "claim_checkout e g c md k ev = Inr (md', n, None) \<Longrightarrow> morning_step g (md, ws) (md', ws)"
| claimed: "claim_checkout e g c md k ev = Inr (md', n, Some payload) \<Longrightarrow> morning_step g (md, ws) (md', n # ws)"
| opened: "n \<in> set ws \<Longrightarrow> conclude_checkout e g md n x = (md', y) \<Longrightarrow> morning_step g (md, ws) (md', remove1 n ws)"
| crashed: "morning_step g (md, ws) (md, remove1 n ws)"
| verified: "verify_morning_payment e g answer md n = Inr md' \<Longrightarrow> morning_step g (md, ws) (md', ws)"
| elsewhere: "morning_step g (md, ws) (md \<lparr> md_site := d, md_units := us \<rparr>, ws)"

subsection \<open>The invariant\<close>

definition too_close :: "morning_stay \<Rightarrow> morning_stay \<Rightarrow> bool" where
  "too_close s t = (ms_starts s < ms_ends t + hours 3 \<and> ms_starts t < ms_ends s + hours 3)"

definition engaged :: "morning_stay \<Rightarrow> bool" where
  "engaged s = (ms_status s \<in> {MsProcessing, MsPaid})"

definition windows_apart :: "gateway \<Rightarrow> morning_db \<Rightarrow> bool" where
  "windows_apart g md = (\<forall>s \<in> set (md_stays md). \<forall>t \<in> set (md_stays md).
     ms_id s \<noteq> ms_id t \<and> ms_property s = ms_property t \<and> ms_environment s = gs_environment g \<and> ms_environment t = gs_environment g
     \<and> engaged s \<and> engaged t \<longrightarrow> \<not> too_close s t)"

definition collected_once :: "morning_db \<Rightarrow> bool" where
  "collected_once md = (\<forall>a \<in> set (md_attempts md). \<forall>b \<in> set (md_attempts md).
     ma_stay a = ma_stay b \<and> holding (ma_status a) \<and> holding (ma_status b) \<longrightarrow> ma_id a = ma_id b)"

definition exact_amounts :: "morning_db \<Rightarrow> bool" where
  "exact_amounts md = (\<forall>a \<in> set (md_attempts md). \<exists>s \<in> set (md_stays md). ms_id s = ma_stay a \<and> ma_amount a = ms_amount s \<and> ma_currency a = ''SAR'')"

definition paid_backed :: "morning_db \<Rightarrow> bool" where
  "paid_backed md = (\<forall>s \<in> set (md_stays md). ms_paid_at s \<noteq> None \<or> ms_status s = MsPaid \<longrightarrow>
     ms_paid_at s \<noteq> None \<and> (\<exists>a \<in> set (md_attempts md). ma_stay a = ms_id s \<and> ma_status a = PaSucceeded))"

definition posts_fresh :: "morning_db \<Rightarrow> nat list \<Rightarrow> bool" where
  "posts_fresh md ws = (distinct ws \<and> (\<forall>n \<in> set ws. \<exists>a \<in> set (md_attempts md). ma_id a = n \<and> ma_status a = PaCreated \<and> ma_checkout a = None))"

definition keys_fresh :: "morning_db \<Rightarrow> bool" where
  "keys_fresh md = (distinct (map ms_id (md_stays md)) \<and> distinct (map ma_id (md_attempts md)))"

definition morning_ok :: "gateway \<Rightarrow> morning_db \<Rightarrow> nat list \<Rightarrow> bool" where
  "morning_ok g md ws = (keys_fresh md \<and> windows_apart g md \<and> collected_once md \<and> exact_amounts md \<and> paid_backed md \<and> posts_fresh md ws)"

lemmas morning_parts = keys_fresh_def windows_apart_def collected_once_def exact_amounts_def paid_backed_def posts_fresh_def

lemma get_stay_in: "get_stay md k = Some s \<Longrightarrow> s \<in> set (md_stays md) \<and> ms_id s = k"
  by (auto simp: get_stay_def dest: row_get_mem row_get_key)

lemma get_try_in: "get_try md k = Some a \<Longrightarrow> a \<in> set (md_attempts md) \<and> ma_id a = k"
  by (auto simp: get_try_def dest: row_get_mem row_get_key)

lemma put_stay_set: "set (md_stays (put_stay md s)) \<subseteq> {x \<in> set (md_stays md). ms_id x \<noteq> ms_id s} \<union> {s}"
  by (auto simp: put_stay_def row_put_def)

lemma put_try_set: "set (md_attempts (put_try md a)) \<subseteq> {x \<in> set (md_attempts md). ma_id x \<noteq> ma_id a} \<union> {a}"
  by (auto simp: put_try_def row_put_def)

lemma put_stay_has: "get_stay md k = Some s \<Longrightarrow> ms_id s' = ms_id s \<Longrightarrow> s' \<in> set (md_stays (put_stay md s'))
     \<and> {x \<in> set (md_stays md). ms_id x \<noteq> ms_id s'} \<subseteq> set (md_stays (put_stay md s'))"
  using get_stay_in [of md k s] by (force simp: put_stay_def row_put_def)

lemma put_try_has: "get_try md k = Some a \<Longrightarrow> ma_id a' = ma_id a \<Longrightarrow> a' \<in> set (md_attempts (put_try md a'))
     \<and> {x \<in> set (md_attempts md). ma_id x \<noteq> ma_id a'} \<subseteq> set (md_attempts (put_try md a'))"
  using get_try_in [of md k a] by (force simp: put_try_def row_put_def)

lemma put_fields [simp]:
  "md_attempts (put_stay md s) = md_attempts md" "md_stays (put_try md a) = md_stays md"
  "md_site (put_stay md s) = md_site md" "md_site (put_try md a) = md_site md"
  by (simp_all add: put_stay_def put_try_def)

lemma put_ids [simp]:
  "map ms_id (md_stays (put_stay md s)) = map ms_id (md_stays md)"
  "map ma_id (md_attempts (put_try md a)) = map ma_id (md_attempts md)"
  using keys_of_put [of ms_id "md_stays md" s] keys_of_put [of ma_id "md_attempts md" a]
  by (simp_all add: put_stay_def put_try_def keys_of_def)

subsection \<open>Putting rows back\<close>

lemma same_stay: "distinct (map ms_id (md_stays md)) \<Longrightarrow> x \<in> set (md_stays md) \<Longrightarrow> y \<in> set (md_stays md) \<Longrightarrow> ms_id x = ms_id y \<Longrightarrow> x = y"
  by (auto simp: distinct_map dest: inj_onD)

lemma same_try: "distinct (map ma_id (md_attempts md)) \<Longrightarrow> x \<in> set (md_attempts md) \<Longrightarrow> y \<in> set (md_attempts md) \<Longrightarrow> ma_id x = ma_id y \<Longrightarrow> x = y"
  by (auto simp: distinct_map dest: inj_onD)

lemma put_stay_others:
  "collected_once (put_stay md s) = collected_once md" "posts_fresh (put_stay md s) ws = posts_fresh md ws"
  "keys_fresh (put_stay md s) = keys_fresh md"
  unfolding collected_once_def posts_fresh_def keys_fresh_def put_fields put_ids by (rule refl)+

lemma windows_apart_put:
  assumes "windows_apart g md"
    and "\<forall>t \<in> set (md_stays md). ms_id t \<noteq> ms_id s' \<and> ms_property t = ms_property s' \<and> ms_environment s' = gs_environment g
      \<and> ms_environment t = gs_environment g \<and> engaged s' \<and> engaged t \<longrightarrow> \<not> too_close s' t"
  shows "windows_apart g (put_stay md s')"
  unfolding windows_apart_def
proof (intro ballI impI)
  fix x y
  assume xy: "x \<in> set (md_stays (put_stay md s'))" "y \<in> set (md_stays (put_stay md s'))"
    and cond: "ms_id x \<noteq> ms_id y \<and> ms_property x = ms_property y \<and> ms_environment x = gs_environment g \<and> ms_environment y = gs_environment g
     \<and> engaged x \<and> engaged y"
  have "x = s' \<or> x \<in> set (md_stays md) \<and> ms_id x \<noteq> ms_id s'" "y = s' \<or> y \<in> set (md_stays md) \<and> ms_id y \<noteq> ms_id s'"
    using put_stay_set [of md s'] xy by auto
  then consider "x = s'" "y \<in> set (md_stays md)" | "y = s'" "x \<in> set (md_stays md)" | "x \<in> set (md_stays md)" "y \<in> set (md_stays md)"
    using cond by auto
  then show "\<not> too_close x y"
  proof cases
    case 1
    then show ?thesis using assms(2) cond by metis
  next
    case 2
    then have "\<not> too_close y x" using assms(2) cond by metis
    then show ?thesis by (auto simp: too_close_def)
  next
    case 3
    then show ?thesis using assms(1) cond by (auto simp: windows_apart_def)
  qed
qed

lemma windows_apart_same:
  assumes apart: "windows_apart g md" and s: "get_stay md k = Some s" and keys: "distinct (map ms_id (md_stays md))"
    and same: "ms_id s' = ms_id s"
    and less: "engaged s' \<Longrightarrow> engaged s \<and> ms_property s' = ms_property s \<and> ms_starts s' = ms_starts s \<and> ms_ends s' = ms_ends s \<and> ms_environment s' = ms_environment s"
  shows "windows_apart g (put_stay md s')"
proof (rule windows_apart_put [OF apart], intro ballI impI)
  fix t
  assume "t \<in> set (md_stays md)" and "ms_id t \<noteq> ms_id s' \<and> ms_property t = ms_property s' \<and> ms_environment s' = gs_environment g
      \<and> ms_environment t = gs_environment g \<and> engaged s' \<and> engaged t"
  then have "\<not> too_close s t" using apart get_stay_in [OF s] less same unfolding windows_apart_def by metis
  then show "\<not> too_close s' t" using less \<open>ms_id t \<noteq> ms_id s' \<and> _\<close> by (simp add: too_close_def)
qed

lemma active_none:
  assumes "active_stays e g md unit start (finish + hours 3) (Some k) = []"
    and "t \<in> set (md_stays md)" and "ms_id t \<noteq> k" and "ms_property t = unit" and "ms_environment t = gs_environment g" and "engaged t"
  shows "\<not> (start < ms_ends t + hours 3 \<and> ms_starts t < finish + hours 3)"
proof -
  have "occupying e md t" using assms(6) by (auto simp: occupying_def engaged_def)
  then show ?thesis using assms by (auto simp: active_stays_def filter_empty_conv)
qed

lemma paid_backed_put:
  assumes "paid_backed md"
    and "ms_paid_at s' \<noteq> None \<or> ms_status s' = MsPaid \<Longrightarrow>
      ms_paid_at s' \<noteq> None \<and> (\<exists>a \<in> set (md_attempts md). ma_stay a = ms_id s' \<and> ma_status a = PaSucceeded)"
  shows "paid_backed (put_stay md s')"
  using assms put_stay_set [of md s'] unfolding paid_backed_def by (auto simp: subset_iff)

lemma exact_amounts_put:
  assumes "exact_amounts md" and "get_stay md k = Some s" and "ms_id s' = ms_id s" and "ms_amount s' = ms_amount s"
    and "distinct (map ms_id (md_stays md))"
  shows "exact_amounts (put_stay md s')"
  unfolding exact_amounts_def
proof
  fix a assume "a \<in> set (md_attempts (put_stay md s'))"
  then obtain x where x: "x \<in> set (md_stays md)" "ms_id x = ma_stay a" "ma_amount a = ms_amount x" "ma_currency a = ''SAR''"
    using assms(1) by (auto simp: exact_amounts_def)
  show "\<exists>x \<in> set (md_stays (put_stay md s')). ms_id x = ma_stay a \<and> ma_amount a = ms_amount x \<and> ma_currency a = ''SAR''"
  proof (cases "ms_id x = ms_id s")
    case True
    then have "x = s" using same_stay [OF assms(5) x(1)] get_stay_in [OF assms(2)] by metis
    then show ?thesis using x assms(3,4) put_stay_has [OF assms(2,3)] by (intro bexI [of _ s']) auto
  next
    case False
    then show ?thesis using x put_stay_has [OF assms(2,3)] assms(3) by (intro bexI [of _ x]) auto
  qed
qed

lemma collected_once_put:
  assumes "collected_once md" and "holding (ma_status a) \<Longrightarrow> \<forall>x \<in> set (md_attempts md). ma_id x \<noteq> ma_id a \<and> ma_stay x = ma_stay a \<longrightarrow> \<not> holding (ma_status x)"
  shows "collected_once (put_try md a)"
  unfolding collected_once_def
proof (intro ballI impI)
  fix x y
  assume xy: "x \<in> set (md_attempts (put_try md a))" "y \<in> set (md_attempts (put_try md a))"
    and cond: "ma_stay x = ma_stay y \<and> holding (ma_status x) \<and> holding (ma_status y)"
  have "x = a \<or> x \<in> set (md_attempts md) \<and> ma_id x \<noteq> ma_id a" "y = a \<or> y \<in> set (md_attempts md) \<and> ma_id y \<noteq> ma_id a"
    using put_try_set [of md a] xy by auto
  then consider "x = a" "y = a" | "x = a" "y \<in> set (md_attempts md)" "ma_id y \<noteq> ma_id a" | "y = a" "x \<in> set (md_attempts md)" "ma_id x \<noteq> ma_id a"
    | "x \<in> set (md_attempts md)" "y \<in> set (md_attempts md)" by blast
  then show "ma_id x = ma_id y"
  proof cases
    case 4
    then show ?thesis using cond assms(1) unfolding collected_once_def by blast
  qed (use cond assms(2) in \<open>metis\<close>)+
qed

lemma exact_amounts_try:
  assumes "exact_amounts md" and "get_try md n = Some a" and "ma_stay b = ma_stay a" and "ma_amount b = ma_amount a" and "ma_currency b = ma_currency a"
  shows "exact_amounts (put_try md b)"
  using assms put_try_set [of md b] get_try_in [OF assms(2)] unfolding exact_amounts_def by (auto simp: subset_iff)

lemma paid_backed_try:
  assumes paid: "paid_backed md" and a: "get_try md n = Some a" and b: "ma_id b = ma_id a" and open_yet: "ma_status a \<noteq> PaSucceeded"
    and keys: "distinct (map ma_id (md_attempts md))"
  shows "paid_backed (put_try md b)"
proof -
  have kept: "x \<in> set (md_attempts (put_try md b))" if x: "x \<in> set (md_attempts md)" "ma_status x = PaSucceeded" for x
  proof -
    have "x \<noteq> a" using x(2) open_yet by auto
    then have "ma_id x \<noteq> ma_id b" using same_try [OF keys x(1)] get_try_in [OF a] b by metis
    then show ?thesis using x put_try_has [OF a b] by auto
  qed
  show ?thesis unfolding paid_backed_def
  proof (intro ballI impI)
    fix s assume "s \<in> set (md_stays (put_try md b))" and "ms_paid_at s \<noteq> None \<or> ms_status s = MsPaid"
    then have "ms_paid_at s \<noteq> None \<and> (\<exists>x \<in> set (md_attempts md). ma_stay x = ms_id s \<and> ma_status x = PaSucceeded)"
      using paid unfolding paid_backed_def put_fields by blast
    then show "ms_paid_at s \<noteq> None \<and> (\<exists>x \<in> set (md_attempts (put_try md b)). ma_stay x = ms_id s \<and> ma_status x = PaSucceeded)"
      using kept by blast
  qed
qed

lemma posts_fresh_try:
  assumes "posts_fresh md ws" and "n \<notin> set ws" and "get_try md n = Some a" and "ma_id b = ma_id a"
  shows "posts_fresh (put_try md b) ws"
proof -
  have "ma_id b = n" using get_try_in [OF assms(3)] assms(4) by simp
  then show ?thesis using assms(1,2) put_try_has [OF assms(3,4)] unfolding posts_fresh_def by (metis (mono_tags, lifting) mem_Collect_eq subset_iff)
qed

subsection \<open>The steps keep the invariant\<close>

lemma created_ok:
  assumes ok: "morning_ok g md ws" and run: "commit_create e g md r start finish ev = Inr (md', k)"
  shows "morning_ok g md' ws"
proof -
  have "md' = md \<or> (\<exists>z. md' = md \<lparr> md_stays := md_stays md @ [new_stay e g md z r start finish ev] \<rparr>)"
    using run by (auto simp: commit_create_def bindE_Inr_iff Let_def split: option.splits if_splits)
  then show ?thesis
  proof
    assume "\<exists>z. md' = md \<lparr> md_stays := md_stays md @ [new_stay e g md z r start finish ev] \<rparr>"
    then obtain s where s: "md' = md \<lparr> md_stays := md_stays md @ [s] \<rparr>" "ms_id s = next_stay md" "ms_status s = MsOpen" "ms_paid_at s = None"
      by (auto simp: new_stay_def)
    have fresh: "next_stay md \<notin> ms_id ` set (md_stays md)"
    proof
      assume "next_stay md \<in> ms_id ` set (md_stays md)"
      then have "next_stay md \<le> Max (insert 0 (set (map ms_id (md_stays md))))" by (intro Max_ge) auto
      then show False by (simp add: next_stay_def)
    qed
    have stays: "set (md_stays md') = set (md_stays md) \<union> {s}" and tries: "md_attempts md' = md_attempts md" using s(1) by auto
    have "keys_fresh md'" using ok fresh s(1,2) by (auto simp: morning_ok_def keys_fresh_def)
    moreover have "windows_apart g md'"
    proof -
      have idle: "\<not> engaged s" using s(3) by (simp add: engaged_def)
      have old: "windows_apart g md" using ok by (simp add: morning_ok_def)
      show ?thesis unfolding windows_apart_def stays
      proof (intro ballI impI)
        fix x y assume "x \<in> set (md_stays md) \<union> {s}" "y \<in> set (md_stays md) \<union> {s}"
          and cond: "ms_id x \<noteq> ms_id y \<and> ms_property x = ms_property y \<and> ms_environment x = gs_environment g \<and> ms_environment y = gs_environment g
            \<and> engaged x \<and> engaged y"
        then have "x \<in> set (md_stays md)" "y \<in> set (md_stays md)" using idle by blast+
        then show "\<not> too_close x y" using old cond unfolding windows_apart_def by blast
      qed
    qed
    moreover have "collected_once md'" using ok unfolding morning_ok_def collected_once_def tries by blast
    moreover have "exact_amounts md'" using ok unfolding morning_ok_def exact_amounts_def tries stays by blast
    moreover have "paid_backed md'" using ok s(3,4) unfolding morning_ok_def paid_backed_def tries stays by auto
    moreover have "posts_fresh md' ws" using ok unfolding morning_ok_def posts_fresh_def tries by blast
    ultimately show ?thesis by (simp add: morning_ok_def)
  qed (use ok in simp)
qed

lemma put_stay_ok:
  assumes ok: "morning_ok g md ws" and s: "get_stay md k = Some s" and same: "ms_id s' = ms_id s" "ms_amount s' = ms_amount s"
    and apart: "windows_apart g (put_stay md s')"
    and paid: "ms_paid_at s' \<noteq> None \<or> ms_status s' = MsPaid \<Longrightarrow>
      ms_paid_at s' \<noteq> None \<and> (\<exists>a \<in> set (md_attempts md). ma_stay a = ms_id s' \<and> ma_status a = PaSucceeded)"
  shows "morning_ok g (put_stay md s') ws"
proof -
  have parts: "keys_fresh md" "windows_apart g md" "collected_once md" "exact_amounts md" "paid_backed md" "posts_fresh md ws"
    using ok by (simp_all add: morning_ok_def)
  have "exact_amounts (put_stay md s')" by (rule exact_amounts_put [OF parts(4) s same]) (use parts(1) in \<open>simp add: keys_fresh_def\<close>)
  moreover have "paid_backed (put_stay md s')" by (rule paid_backed_put [OF parts(5)]) (rule paid)
  ultimately show ?thesis unfolding morning_ok_def put_stay_others using parts apart by blast
qed

lemma paid_of:
  assumes "morning_ok g md ws" and "get_stay md k = Some s" and "ms_paid_at s \<noteq> None \<or> ms_status s = MsPaid"
  shows "ms_paid_at s \<noteq> None \<and> (\<exists>a \<in> set (md_attempts md). ma_stay a = ms_id s \<and> ma_status a = PaSucceeded)"
  using assms get_stay_in [OF assms(2)] unfolding morning_ok_def paid_backed_def by blast

lemma changed_ok:
  assumes ok: "morning_ok g md ws" and cur: "get_stay md (ms_id cur) = Some cur" and run: "commit_morning_change e g md cur c expected ev = Inr md'"
  shows "morning_ok g md' ws"
proof -
  obtain z where new: "md' = put_stay md (changed_stay e z c ev cur)"
    and free: "window_changed c cur \<Longrightarrow> active_stays e g md (ru_id (mc_unit c)) (mc_starts c) (mc_ends c + hours 3) (Some (ms_id cur)) = []"
    using run cur by (auto simp: commit_morning_change_def bindE_Inr_iff of_option_def split: if_splits)
  let ?s = "changed_stay e z c ev cur"
  have apart: "windows_apart g (put_stay md ?s)"
  proof (cases "window_changed c cur")
    case True
    show ?thesis
    proof (rule windows_apart_put, goal_cases)
      case 1 then show ?case using ok by (simp add: morning_ok_def)
    next
      case 2
      show ?case
        using active_none [OF free [OF True]] by (auto simp: changed_stay_def too_close_def)
    qed
  next
    case False
    then show ?thesis
      using ok by (intro windows_apart_same [OF _ cur]) (auto simp: morning_ok_def keys_fresh_def changed_stay_def window_changed_def engaged_def)
  qed
  show ?thesis unfolding new
    by (rule put_stay_ok [OF ok cur _ _ apart]) (use paid_of [OF ok cur] in \<open>auto simp: changed_stay_def\<close>)
qed

lemma dropped_ok:
  assumes ok: "morning_ok g md ws" and run: "cancel_stay e md k = Inr md'"
  shows "morning_ok g md' ws"
proof -
  obtain s where s: "get_stay md k = Some s" and new: "md' = md \<or> md' = put_stay md (s \<lparr> ms_status := MsCancelled, ms_updated := now e \<rparr>)"
    using run by (auto simp: cancel_stay_def bindE_Inr_iff of_option_def split: if_splits option.splits)
  from new show ?thesis
  proof
    assume "md' = put_stay md (s \<lparr> ms_status := MsCancelled, ms_updated := now e \<rparr>)"
    moreover have "windows_apart g (put_stay md (s \<lparr> ms_status := MsCancelled, ms_updated := now e \<rparr>))"
      using ok by (intro windows_apart_same [OF _ s]) (auto simp: morning_ok_def keys_fresh_def engaged_def)
    ultimately show ?thesis
      using put_stay_ok [OF ok s, of "s \<lparr> ms_status := MsCancelled, ms_updated := now e \<rparr>"] paid_of [OF ok s] by simp
  qed (use ok in simp)
qed

lemma previous_none: "previous_try md k = None \<Longrightarrow> a \<in> set (md_attempts md) \<Longrightarrow> ma_stay a = k \<Longrightarrow> \<not> holding (ma_status a)"
  by (auto simp: previous_try_def tries_of_def holding_def filter_empty_conv Let_def split: if_splits)

lemma claim_cases:
  assumes "claim_checkout e g c md k ev = Inr (md', n, x)"
  obtains "md' = md" "x = None"
  | s payload where "get_stay md k = Some s" "x = Some payload" "n = next_try md" "previous_try md k = None" "ms_paid_at s = None"
      "ms_environment s = gs_environment g" "ms_status s \<in> {MsOpen, MsExpired, MsProcessing}"
      "active_stays e g md (ms_property s) (ms_starts s) (ms_ends s + hours 3) (Some k) = []"
      "md' = (put_stay md (claimed_stay e c ev s)) \<lparr> md_attempts := md_attempts md @ [new_try e c md s] \<rparr>"
proof -
  obtain s where s: "get_stay md k = Some s" "require_payable g s = Inr ()"
    and free: "active_stays e g md (ms_property s) (ms_starts s) (ms_ends s + hours 3) (Some k) = []"
    and rest: "(case previous_try md k of
       Some a \<Rightarrow>
         if ma_status a = PaPending \<and> ma_checkout a \<notin> {None, Some []} \<and> ma_integrity a \<noteq> [] then Inr (md, ma_id a, None)
         else Inl (HyperPayCheckout ''previous_morning_collection_unresolved'')
     | None \<Rightarrow>
         bindE (validated c s) (\<lambda>kvs.
         bindE (build_checkout_payload g (payer (ms_amount s) kvs) (ci_merchant c) (Some (ms_amount s)) None) (\<lambda>payload.
         if list_ex (\<lambda>a. ma_merchant a = ci_merchant c) (md_attempts md) then Inl (IntegrityError ''merchant_transaction_id'')
         else let a = new_try e c md s; md' = put_stay md (claimed_stay e c ev s) in
           Inr (md' \<lparr> md_attempts := md_attempts md' @ [a] \<rparr>, ma_id a, Some (with_state (value_at kvs ''billing_state'') payload))))) = Inr (md', n, x)"
    using assms unfolding claim_checkout_def bindE_Inr_iff by (auto simp: of_option_def split: option.splits if_splits)
  show ?thesis
  proof (cases "previous_try md k")
    case None
    then obtain payload where "n = ma_id (new_try e c md s)" "x = Some payload"
      "md' = (put_stay md (claimed_stay e c ev s)) \<lparr> md_attempts := md_attempts md @ [new_try e c md s] \<rparr>"
      using rest by (auto simp: bindE_Inr_iff Let_def split: if_splits)
    then show ?thesis using that(2) [OF s(1)] None free s(2) by (auto simp: require_payable_def new_try_def split: if_splits)
  next
    case (Some a)
    then show ?thesis using rest that(1) by (auto split: if_splits)
  qed
qed

lemma next_try_fresh: "next_try md \<notin> ma_id ` set (md_attempts md)"
proof
  assume "next_try md \<in> ma_id ` set (md_attempts md)"
  then have "next_try md \<le> Max (insert 0 (set (map ma_id (md_attempts md))))" by (intro Max_ge) auto
  then show False by (simp add: next_try_def)
qed

lemma claimed_ok:
  assumes ok: "morning_ok g md ws" and run: "claim_checkout e g c md k ev = Inr (md', n, Some payload)"
  shows "morning_ok g md' (n # ws)"
  using run
proof (rule claim_cases)
  fix s
  assume s: "get_stay md k = Some s" and n: "n = next_try md" and none: "previous_try md k = None" and unpaid: "ms_paid_at s = None"
    and free: "active_stays e g md (ms_property s) (ms_starts s) (ms_ends s + hours 3) (Some k) = []"
    and md': "md' = (put_stay md (claimed_stay e c ev s)) \<lparr> md_attempts := md_attempts md @ [new_try e c md s] \<rparr>"
  let ?s = "claimed_stay e c ev s" and ?a = "new_try e c md s"
  define mid where "mid = put_stay md ?s"
  have same: "ms_id ?s = ms_id s" "ms_amount ?s = ms_amount s" by (simp_all add: claimed_stay_def)
  have key: "ms_id s = k" using get_stay_in [OF s] by simp
  have apart: "windows_apart g mid" unfolding mid_def
  proof (rule windows_apart_put, goal_cases)
    case 1 then show ?case using ok by (simp add: morning_ok_def)
  next
    case 2
    show ?case using active_none [OF free] by (auto simp: claimed_stay_def too_close_def key)
  qed
  have mid: "morning_ok g mid ws" unfolding mid_def
    by (rule put_stay_ok [OF ok s same apart [unfolded mid_def]]) (use unpaid in \<open>simp add: claimed_stay_def\<close>)
  have tries: "md_attempts md' = md_attempts mid @ [?a]" and stays: "md_stays md' = md_stays mid" by (simp_all add: md' mid_def)
  have old: "md_attempts mid = md_attempts md" by (simp add: mid_def)
  have a: "ma_id ?a = n" "ma_stay ?a = k" "ma_status ?a = PaCreated" "ma_checkout ?a = None" "ma_amount ?a = ms_amount s" "ma_currency ?a = ''SAR''"
    by (simp_all add: new_try_def n key)
  have fresh: "x \<in> set (md_attempts mid) \<Longrightarrow> ma_id x \<noteq> n" for x using next_try_fresh [of md] n old by (metis imageI)
  have alone: "x \<in> set (md_attempts mid) \<Longrightarrow> ma_stay x = k \<Longrightarrow> \<not> holding (ma_status x)" for x using previous_none [OF none] old by metis
  have s_in: "?s \<in> set (md_stays mid)" using put_stay_has [OF s same(1)] by (simp add: mid_def)
  have "n \<notin> ma_id ` set (md_attempts mid)" using fresh by blast
  then have "keys_fresh md'" using mid a(1) unfolding morning_ok_def keys_fresh_def tries stays by simp
  moreover have "windows_apart g md'" using apart by (simp add: windows_apart_def stays)
  moreover have "collected_once md'" unfolding collected_once_def tries
  proof (intro ballI impI)
    fix x y assume xy: "x \<in> set (md_attempts mid @ [?a])" "y \<in> set (md_attempts mid @ [?a])"
      and cond: "ma_stay x = ma_stay y \<and> holding (ma_status x) \<and> holding (ma_status y)"
    then consider "x = ?a" "y = ?a" | "x = ?a" "y \<in> set (md_attempts mid)" | "y = ?a" "x \<in> set (md_attempts mid)"
      | "x \<in> set (md_attempts mid)" "y \<in> set (md_attempts mid)" by auto
    then show "ma_id x = ma_id y"
    proof cases
      case 4
      then show ?thesis using mid cond unfolding morning_ok_def collected_once_def by blast
    qed (use alone cond a(2) in metis)+
  qed
  moreover have "exact_amounts md'"
  proof -
    have "\<exists>t \<in> set (md_stays mid). ms_id t = ma_stay ?a \<and> ma_amount ?a = ms_amount t \<and> ma_currency ?a = ''SAR''"
      using s_in a same key by (intro bexI [of _ ?s]) simp_all
    then show ?thesis using mid unfolding morning_ok_def exact_amounts_def tries stays by auto
  qed
  moreover have "paid_backed md'" using mid unfolding morning_ok_def paid_backed_def tries stays set_append by blast
  moreover have "posts_fresh md' (n # ws)"
  proof -
    have "n \<notin> set ws" using mid fresh unfolding morning_ok_def posts_fresh_def by blast
    then show ?thesis using mid a unfolding morning_ok_def posts_fresh_def tries by auto
  qed
  ultimately show ?thesis by (simp add: morning_ok_def)
qed auto

lemma put_try_ok:
  assumes ok: "morning_ok g md ws" and a: "get_try md n = Some a" and n: "n \<notin> set ws"
    and same: "ma_id b = ma_id a" "ma_stay b = ma_stay a" "ma_amount b = ma_amount a" "ma_currency b = ma_currency a"
    and open_yet: "ma_status a \<noteq> PaSucceeded"
    and alone: "holding (ma_status b) \<Longrightarrow> \<forall>x \<in> set (md_attempts md). ma_id x \<noteq> ma_id b \<and> ma_stay x = ma_stay b \<longrightarrow> \<not> holding (ma_status x)"
  shows "morning_ok g (put_try md b) ws"
proof -
  have parts: "keys_fresh md" "windows_apart g md" "collected_once md" "exact_amounts md" "paid_backed md" "posts_fresh md ws"
    using ok by (simp_all add: morning_ok_def)
  have keys: "distinct (map ma_id (md_attempts md))" using parts(1) by (simp add: keys_fresh_def)
  have "keys_fresh (put_try md b)" using parts(1) by (simp add: keys_fresh_def)
  moreover have "windows_apart g (put_try md b)" using parts(2) unfolding windows_apart_def put_fields .
  moreover have "collected_once (put_try md b)" by (rule collected_once_put [OF parts(3)]) (rule alone)
  moreover have "exact_amounts (put_try md b)" by (rule exact_amounts_try [OF parts(4) a same(2-4)])
  moreover have "paid_backed (put_try md b)" by (rule paid_backed_try [OF parts(5) a same(1) open_yet keys])
  moreover have "posts_fresh (put_try md b) ws" by (rule posts_fresh_try [OF parts(6) n a same(1)])
  ultimately show ?thesis by (simp add: morning_ok_def)
qed

lemma fewer_posts: "morning_ok g md ws \<Longrightarrow> morning_ok g md (remove1 n ws)"
  unfolding morning_ok_def posts_fresh_def by (metis distinct_remove1 notin_set_remove1)

lemma opened_ok:
  assumes ok: "morning_ok g md ws" and n: "n \<in> set ws" and run: "conclude_checkout e g md n x = (md', y)"
  shows "morning_ok g md' (remove1 n ws)"
proof (cases "get_try md n")
  case None
  then show ?thesis using run fewer_posts [OF ok] by (simp add: conclude_checkout_def)
next
  case (Some a)
  note a = this
  have ok': "morning_ok g md (remove1 n ws)" by (rule fewer_posts [OF ok])
  have free: "n \<notin> set (remove1 n ws)" using ok unfolding morning_ok_def posts_fresh_def by (simp add: distinct_remove1_removeAll)
  obtain a0 where a0: "a0 \<in> set (md_attempts md)" "ma_id a0 = n" "ma_status a0 = PaCreated"
    using ok n unfolding morning_ok_def posts_fresh_def by blast
  have keys: "distinct (map ma_id (md_attempts md))" using ok by (simp add: morning_ok_def keys_fresh_def)
  have created: "ma_status a = PaCreated" "a \<in> set (md_attempts md)" using same_try [OF keys a0(1)] get_try_in [OF a] a0 by metis+
  have alone: "\<forall>x \<in> set (md_attempts md). ma_id x \<noteq> ma_id a \<and> ma_stay x = ma_stay a \<longrightarrow> \<not> holding (ma_status x)"
  proof (intro ballI impI notI)
    fix x assume "x \<in> set (md_attempts md)" "ma_id x \<noteq> ma_id a \<and> ma_stay x = ma_stay a" "holding (ma_status x)"
    moreover have "holding (ma_status a)" using created(1) by (simp add: holding_def unresolved_def)
    ultimately show False using ok created(2) unfolding morning_ok_def collected_once_def by metis
  qed
  have put: "morning_ok g (put_try md b) (remove1 n ws)" if "ma_id b = ma_id a" "ma_stay b = ma_stay a" "ma_amount b = ma_amount a" "ma_currency b = ma_currency a" for b
    by (rule put_try_ok [OF ok' a free that]) (use created alone that in \<open>simp_all\<close>)
  show ?thesis
  proof (cases "checkout_answer g md n x")
    case (Inr r)
    then show ?thesis using run a put [of "opened_try e r a"] by (simp add: conclude_checkout_def opened_try_def)
  next
    case (Inl z)
    let ?b = "uncertain_try e g x a"
    have mid: "morning_ok g (put_try md ?b) (remove1 n ws)"
      by (rule put) (simp_all add: uncertain_try_def Let_def split: sum.splits)
    have new: "md' = (case get_stay (put_try md ?b) (ma_stay a) of None \<Rightarrow> put_try md ?b | Some s \<Rightarrow> put_stay (put_try md ?b) (s \<lparr> ms_status := MsReview \<rparr>))"
      using run a Inl by (simp add: conclude_checkout_def Let_def)
    show ?thesis
    proof (cases "get_stay (put_try md ?b) (ma_stay a)")
      case None
      then show ?thesis using new mid by simp
    next
      case (Some s)
      have "windows_apart g (put_stay (put_try md ?b) (s \<lparr> ms_status := MsReview \<rparr>))"
        using mid by (intro windows_apart_same [OF _ Some]) (auto simp: morning_ok_def keys_fresh_def engaged_def)
      then show ?thesis
        using new Some put_stay_ok [OF mid Some, of "s \<lparr> ms_status := MsReview \<rparr>"] paid_of [OF mid Some] by simp
    qed
  qed
qed

lemma save_try_cases:
  assumes "save_try md b = Inr (md', c)"
  shows "md' = put_try md c \<and> \<not> holding_conflict md c \<and> ma_id c = ma_id b \<and> ma_stay c = ma_stay b \<and> ma_amount c = ma_amount b
    \<and> ma_currency c = ma_currency b \<and> (ma_status c = PaSucceeded \<longrightarrow> c = b)"
  using assms by (auto simp: save_try_def Let_def split: if_splits)

lemma verified_try_keeps: "ma_id (verified_try e g md a doc) = ma_id a" "ma_stay (verified_try e g md a doc) = ma_stay a"
    "ma_amount (verified_try e g md a doc) = ma_amount a" "ma_currency (verified_try e g md a doc) = ma_currency a"
    "ma_verified (verified_try e g md a doc) = Some (now e)"
  by (simp_all add: verified_try_def Let_def split: pyval.split)

lemma recorded_ok:
  assumes ok: "morning_ok g md ws" and n: "n \<notin> set ws" and run: "record_verification e g md n doc = Inr md'"
  shows "morning_ok g md' ws"
proof -
  obtain a s where a: "get_try md n = Some a" and s: "get_stay md (ma_stay a) = Some s"
    and rest: "ma_status a = PaSucceeded \<and> md' = md \<or> ma_status a \<noteq> PaSucceeded \<and>
      (\<exists>md1 b. save_try md (verified_try e g md a doc) = Inr (md1, b) \<and> md' = put_stay md1 (settled_stay e b s))"
    using run by (auto simp: record_verification_def bindE_Inr_iff of_option_def split: option.splits if_splits)
  show ?thesis
  proof (cases "ma_status a = PaSucceeded")
    case False
    then obtain md1 b where save: "save_try md (verified_try e g md a doc) = Inr (md1, b)" and md': "md' = put_stay md1 (settled_stay e b s)"
      using rest by blast
    have b: "md1 = put_try md b" "\<not> holding_conflict md b" "ma_id b = ma_id a" "ma_stay b = ma_stay a" "ma_amount b = ma_amount a"
      "ma_currency b = ma_currency a" "ma_status b = PaSucceeded \<Longrightarrow> ma_verified b = Some (now e)"
      using save_try_cases [OF save] verified_try_keeps by metis+
    have mid: "morning_ok g md1 ws" unfolding b(1)
      by (rule put_try_ok [OF ok a n b(3-6) False]) (use b(2) in \<open>auto simp: holding_conflict_def list_ex_iff\<close>)
    have s1: "get_stay md1 (ma_stay a) = Some s" using s by (simp add: b(1) get_stay_def)
    have s_key: "ms_id s = ma_stay a" using get_stay_in [OF s] by simp
    have b_in: "b \<in> set (md_attempts md1)" using put_try_has [OF a b(3)] b(1) by simp
    have same: "ms_id (settled_stay e b s) = ms_id s" "ms_amount (settled_stay e b s) = ms_amount s" by (simp_all add: settled_stay_def)
    have apart: "windows_apart g (put_stay md1 (settled_stay e b s))"
      using mid by (intro windows_apart_same [OF _ s1]) (auto simp: morning_ok_def keys_fresh_def engaged_def settled_stay_def split: if_splits)
    show ?thesis unfolding md'
    proof (rule put_stay_ok [OF mid s1 same apart])
      assume paid: "ms_paid_at (settled_stay e b s) \<noteq> None \<or> ms_status (settled_stay e b s) = MsPaid"
      show "ms_paid_at (settled_stay e b s) \<noteq> None \<and> (\<exists>x \<in> set (md_attempts md1). ma_stay x = ms_id (settled_stay e b s) \<and> ma_status x = PaSucceeded)"
      proof (cases "ma_status b = PaSucceeded")
        case True
        then show ?thesis using b(4,7) b_in s_key same by (auto simp: settled_stay_def)
      next
        case False
        then have "ms_paid_at s \<noteq> None \<or> ms_status s = MsPaid" "ms_paid_at (settled_stay e b s) = ms_paid_at s"
          using paid by (auto simp: settled_stay_def split: if_splits)
        then show ?thesis using paid_of [OF mid s1] same by simp
      qed
    qed
  qed (use rest ok in simp)
qed

lemma verified_ok:
  assumes ok: "morning_ok g md ws" and run: "verify_morning_payment e g answer md n = Inr md'"
  shows "morning_ok g md' ws"
proof -
  obtain a where a: "get_try md n = Some a" and rest: "md' = md \<or> (\<exists>doc. ma_checkout a \<noteq> None \<and> record_verification e g md n doc = Inr md')"
    using run by (auto simp: verify_morning_payment_def bindE_Inr_iff of_option_def split: option.splits if_splits list.splits)
  from rest show ?thesis
  proof
    assume "\<exists>doc. ma_checkout a \<noteq> None \<and> record_verification e g md n doc = Inr md'"
    then obtain doc where doc: "ma_checkout a \<noteq> None" "record_verification e g md n doc = Inr md'" by blast
    have keys: "distinct (map ma_id (md_attempts md))" using ok by (simp add: morning_ok_def keys_fresh_def)
    have "n \<notin> set ws"
    proof
      assume "n \<in> set ws"
      then obtain a0 where "a0 \<in> set (md_attempts md)" "ma_id a0 = n" "ma_checkout a0 = None"
        using ok unfolding morning_ok_def posts_fresh_def by blast
      then show False using same_try [OF keys] get_try_in [OF a] doc(1) by metis
    qed
    then show ?thesis by (rule recorded_ok [OF ok _ doc(2)])
  qed (use ok in simp)
qed

lemma same_rows_ok:
  assumes "md_stays md' = md_stays md" and "md_attempts md' = md_attempts md"
  shows "morning_ok g md' ws = morning_ok g md ws"
  unfolding morning_ok_def morning_parts assms ..

lemma morning_step_ok:
  assumes step: "morning_step g (md, ws) (md', ws')" and ok: "morning_ok g md ws"
  shows "morning_ok g md' ws'"
  using step
proof (cases rule: morning_step.cases)
  case (elsewhere d us)
  then have rows: "md_stays md' = md_stays md" "md_attempts md' = md_attempts md" "ws' = ws" by simp_all
  show ?thesis unfolding rows(3) same_rows_ok [OF rows(1,2)] by (rule ok)
next
  case (reused e c k ev n)
  then show ?thesis using ok by (auto elim!: claim_cases)
next
  case (crashed n)
  then show ?thesis using fewer_posts [OF ok] by simp
next
  case created
  then show ?thesis using created_ok [OF ok] by blast
next
  case changed
  then show ?thesis using changed_ok [OF ok] by blast
next
  case dropped
  then show ?thesis using dropped_ok [OF ok] by blast
next
  case claimed
  then show ?thesis using claimed_ok [OF ok] by blast
next
  case opened
  then show ?thesis using opened_ok [OF ok] by blast
next
  case verified
  then show ?thesis using verified_ok [OF ok] by blast
qed

lemma morning_reach_ok:
  assumes "(morning_step g)\<^sup>*\<^sup>* x y" and "morning_ok g (fst x) (snd x)"
  shows "morning_ok g (fst y) (snd y)"
  using assms
proof (induction rule: rtranclp_induct)
  case (step y z)
  then show ?case using morning_step_ok [of g "fst y" "snd y" "fst z" "snd z"] by simp
qed

lemma no_stays_ok: "md_stays md = [] \<Longrightarrow> md_attempts md = [] \<Longrightarrow> morning_ok g md []"
  by (simp add: morning_ok_def morning_parts)

interpretation stay_table: keyed_table get_stay put_stay ms_id
proof
  show "get_stay t k = Some r \<Longrightarrow> ms_id r = k" for t k r by (simp add: get_stay_in)
  show "get_stay t (ms_id r) = Some r0 \<Longrightarrow> get_stay (put_stay t r) (ms_id r) = Some r" for t r r0
    using row_get_put_same [of ms_id "md_stays t" r r0] by (simp add: get_stay_def put_stay_def)
  show "ms_id r \<noteq> k \<Longrightarrow> get_stay (put_stay t r) k = get_stay t k" for t k r
    using row_get_put_other [of ms_id r k "md_stays t"] by (simp add: get_stay_def put_stay_def)
qed

interpretation try_table: keyed_table get_try put_try ma_id
proof
  show "get_try t k = Some r \<Longrightarrow> ma_id r = k" for t k r by (simp add: get_try_in)
  show "get_try t (ma_id r) = Some r0 \<Longrightarrow> get_try (put_try t r) (ma_id r) = Some r" for t r r0
    using row_get_put_same [of ma_id "md_attempts t" r r0] by (simp add: get_try_def put_try_def)
  show "ma_id r \<noteq> k \<Longrightarrow> get_try (put_try t r) k = get_try t k" for t k r
    using row_get_put_other [of ma_id r k "md_attempts t"] by (simp add: get_try_def put_try_def)
qed

lemma table_others [simp]:
  "get_try (put_stay md s) n = get_try md n" "get_stay (put_try md a) k = get_stay md k"
  "get_try (md \<lparr> md_stays := ss \<rparr>) n = get_try md n" "get_stay (md \<lparr> md_attempts := aa \<rparr>) k = get_stay md k"
  by (simp_all add: get_try_def get_stay_def)

lemma row_get_append_kept: "row_get key rows k = Some r \<Longrightarrow> row_get key (rows @ extra) k = Some r"
  by (induction rows) (auto simp: row_get_def split: if_splits)

lemma append_kept:
  "get_stay md k = Some s \<Longrightarrow> get_stay (md \<lparr> md_stays := md_stays md @ ss \<rparr>) k = Some s"
  "get_try md n = Some a \<Longrightarrow> get_try (md \<lparr> md_attempts := md_attempts md @ aa \<rparr>) n = Some a"
  by (simp_all add: get_stay_def get_try_def row_get_append_kept)

subsection \<open>Properties\<close>


text \<open>C16: of all the attempts to pay for a stay at most one is ever recorded as successful, it is over
  exactly the price of the stay in riyals, and a stay that counts as paid has one.\<close>

theorem morning_paid_once:
  assumes "(morning_step g)\<^sup>*\<^sup>* (md0, []) (md, ws)" and "md_stays md0 = []" and "md_attempts md0 = []"
  shows "(\<forall>a \<in> set (md_attempts md). ma_status a = PaSucceeded \<longrightarrow>
      (\<exists>s \<in> set (md_stays md). ms_id s = ma_stay a \<and> ma_amount a = ms_amount s \<and> ma_currency a = ''SAR'')
      \<and> (\<forall>b \<in> set (md_attempts md). ma_stay b = ma_stay a \<and> ma_status b = PaSucceeded \<longrightarrow> b = a))
    \<and> (\<forall>s \<in> set (md_stays md). ms_status s = MsPaid \<longrightarrow> (\<exists>a \<in> set (md_attempts md). ma_stay a = ms_id s \<and> ma_status a = PaSucceeded))"
proof -
  have ok: "keys_fresh md" "collected_once md" "exact_amounts md" "paid_backed md"
    using morning_reach_ok [OF assms(1)] no_stays_ok [OF assms(2,3)] by (simp_all add: morning_ok_def)
  have keys: "distinct (map ma_id (md_attempts md))" using ok(1) by (simp add: keys_fresh_def)
  have held: "holding PaSucceeded" by (simp add: holding_def)
  have once: "b = a" if "a \<in> set (md_attempts md)" "ma_status a = PaSucceeded" "b \<in> set (md_attempts md)" "ma_stay b = ma_stay a" "ma_status b = PaSucceeded" for a b
  proof -
    have "ma_id b = ma_id a" using ok(2) that held unfolding collected_once_def by metis
    then show ?thesis using same_try [OF keys that(3,1)] by simp
  qed
  show ?thesis
    using once ok(3) ok(4) unfolding exact_amounts_def paid_backed_def by blast
qed

lemma has_unresolved_put_try:
  assumes "\<not> has_unresolved md k" and "ma_status b \<notin> set unresolved"
  shows "\<not> has_unresolved (put_try md b) k"
  using assms put_try_set [of md b] by (auto simp: has_unresolved_def tries_of_def list_ex_iff)

text \<open>C26: reading once more the payment of an attempt that failed, before another one paid for the stay,
  opens the paid stay again. Once the first hold is over nothing keeps its window, so that it can be
  sold to other guests.\<close>

theorem old_failure_reopens_paid_stay:
  assumes s: "get_stay md k = Some s" and paid: "ms_status s = MsPaid" and env: "ms_environment s = gs_environment g"
    and a: "get_try md n = Some a" and stay: "ma_stay a = k" and failed: "ma_status a = PaFailed" and checkout: "ma_checkout a = Some (c # cs)"
    and doc: "client_request g (answer (c # cs)) = Inr doc" and match: "morning_mismatch g a doc = []"
    and code: "map_result_code (result_of doc ''code'') = GwFailed" and settled: "\<not> has_unresolved md k" and late: "ms_expires s \<le> now e'"
  shows "\<exists>md' s'. verify_morning_payment e g answer md n = Inr md' \<and> get_stay md' k = Some s' \<and> ms_status s' = MsOpen
    \<and> ms_paid_at s' = ms_paid_at s \<and> s' \<notin> set (active_stays e' g md' unit start finish excluded)"
proof -
  let ?b = "verified_try e g md a doc"
  have b: "ma_status ?b = PaFailed" "ma_id ?b = n" using match code get_try_in [OF a] by (simp_all add: verified_try_def Let_def attempt_status_def)
  have save: "save_try md ?b = Inr (put_try md ?b, ?b)" using b by (simp add: save_try_def holding_conflict_def holding_def unresolved_def)
  let ?s = "settled_stay e ?b s"
  have settled_s: "ms_status ?s = MsOpen" "ms_paid_at ?s = ms_paid_at s" "ms_id ?s = ms_id s" "ms_expires ?s = ms_expires s"
    using b(1) by (simp_all add: settled_stay_def)
  have run: "verify_morning_payment e g answer md n = Inr (put_stay (put_try md ?b) ?s)"
    using s a stay failed env checkout doc save by (simp add: verify_morning_payment_def record_verification_def of_option_def)
  have id: "ms_id s = k" using get_stay_in [OF s] by simp
  have found: "get_stay (put_stay (put_try md ?b) ?s) k = Some ?s"
    using row_get_put_same [of ms_id "md_stays md" ?s s] s id settled_s(3) by (simp add: get_stay_def put_stay_def put_try_def)
  have "\<not> has_unresolved (put_try md ?b) k" by (rule has_unresolved_put_try [OF settled]) (simp add: b(1) unresolved_def)
  then have "\<not> has_unresolved (put_stay (put_try md ?b) ?s) k" by (simp add: has_unresolved_def tries_of_def)
  then have "?s \<notin> set (active_stays e' g (put_stay (put_try md ?b) ?s) unit start finish excluded)"
    using settled_s late id by (simp add: active_stays_def occupying_def)
  then show ?thesis using run found settled_s by blast
qed

text \<open>C27: while another attempt of a stay is open or has succeeded, the success of an older attempt cannot
  be recorded: both saves break the same constraint, the error is not caught, and nothing of the
  payment is kept.\<close>

theorem second_collection_unrecorded:
  assumes s: "get_stay md k = Some s" and env: "ms_environment s = gs_environment g"
    and a: "get_try md n = Some a" and stay: "ma_stay a = k" and failed: "ma_status a = PaFailed" and checkout: "ma_checkout a = Some (c # cs)"
    and doc: "client_request g (answer (c # cs)) = Inr doc" and code: "map_result_code (result_of doc ''code'') = GwSuccess"
    and x: "x \<in> set (md_attempts md)" "ma_stay x = k" "ma_id x \<noteq> n" "ma_status x \<in> {PaCreated, PaPending, PaUnknown, PaReview, PaSucceeded}"
  shows "verify_morning_payment e g answer md n = Inl (IntegrityError ''one_unresolved_morning_payment'')"
proof -
  let ?b = "verified_try e g md a doc"
  have st: "ma_status ?b \<in> {PaSucceeded, PaReview}"
    using code by (auto simp: verified_try_def Let_def attempt_status_def split: pyval.split)
  have keys: "ma_id ?b = n" "ma_stay ?b = k" using get_try_in [OF a] stay by (simp_all add: verified_try_keeps)
  have conflict: "holding_conflict md c'" if "ma_id c' = n" "ma_stay c' = k" "ma_status c' \<in> {PaSucceeded, PaReview}" for c'
    unfolding holding_conflict_def list_ex_iff using that x by (auto simp: holding_def unresolved_def intro!: bexI [of _ x])
  have "save_try md ?b = Inl (IntegrityError ''one_unresolved_morning_payment'')"
    using conflict [of ?b] conflict [of "?b \<lparr> ma_payment := None, ma_status := PaReview, ma_failure := ''payment_reference_conflict'' \<rparr>"] st keys
    by (simp add: save_try_def Let_def)
  then show ?thesis using s a stay failed env checkout doc by (simp add: verify_morning_payment_def record_verification_def of_option_def)
qed


subsection \<open>A checkout whose process died\<close>

text \<open>An attempt that no answer ever reaches, and the window of its stay.\<close>

definition same_window :: "morning_stay \<Rightarrow> morning_stay \<Rightarrow> bool" where
  "same_window s t = (ms_property t = ms_property s \<and> ms_starts t = ms_starts s \<and> ms_ends t = ms_ends s \<and> ms_environment t = ms_environment s)"

definition stranded :: "morning_attempt \<Rightarrow> morning_stay \<Rightarrow> morning_db \<Rightarrow> nat list \<Rightarrow> bool" where
  "stranded a s md ws = (ma_id a \<notin> set ws \<and> get_try md (ma_id a) = Some a
     \<and> (\<exists>t. get_stay md (ms_id s) = Some t \<and> same_window s t))"

lemma stranded_unresolved:
  assumes "stranded a s md ws" and "ma_stay a = ms_id s" and "ma_status a \<in> set unresolved"
  shows "has_unresolved md (ms_id s)"
  using assms get_try_in [of md "ma_id a" a] by (auto simp: stranded_def has_unresolved_def tries_of_def list_ex_iff)

lemma stranded_put_stay:
  assumes "stranded a s md ws" and "get_stay md j = Some t" and "ms_id t' = ms_id t" and "ms_id t = ms_id s \<Longrightarrow> same_window t t'"
  shows "stranded a s (put_stay md t') ws"
proof -
  have j: "ms_id t = j" using assms(2) by (rule stay_table.get_key)
  have get: "get_stay (put_stay md t') (ms_id s) = (if ms_id s = ms_id t' then Some t' else get_stay md (ms_id s))"
    by (rule stay_table.get_after_put) (use assms(2,3) j in simp)
  show ?thesis using assms j get by (auto simp: stranded_def same_window_def)
qed

lemma stranded_put_try:
  assumes "stranded a s md ws" and "ma_id b \<noteq> ma_id a"
  shows "stranded a s (put_try md b) ws"
  using assms try_table.get_put_other [of b "ma_id a" md] by (simp add: stranded_def)

lemma stranded_step:
  assumes step: "morning_step g (md, ws) (md', ws')" and old: "stranded a s md ws" and stay: "ma_stay a = ms_id s"
    and state: "ma_status a \<in> set unresolved" "ma_checkout a = None"
  shows "stranded a s md' ws'"
proof -
  note busy = stranded_unresolved [OF old stay state(1)]
  have a: "get_try md (ma_id a) = Some a" using old by (simp add: stranded_def)
  show ?thesis using step
  proof (cases rule: morning_step.cases)
    case (created e r start finish ev k)
    then have "md' = md \<or> (\<exists>t. md' = md \<lparr> md_stays := md_stays md @ [t] \<rparr>)"
      by (auto simp: commit_create_def bindE_Inr_iff Let_def split: option.splits if_splits)
    then show ?thesis using old created(1) append_kept(1) [of md "ms_id s"] by (auto simp: stranded_def)
  next
    case (changed cur e c expected ev)
    then obtain z where md': "md' = put_stay md (changed_stay e z c ev cur)" and free: "\<not> has_unresolved md (ms_id cur)"
      by (auto simp: commit_morning_change_def bindE_Inr_iff of_option_def split: if_splits)
    have "ms_id cur \<noteq> ms_id s" using free busy by metis
    then show ?thesis unfolding md' changed(1)
      by (intro stranded_put_stay [OF old changed(2)]) (simp_all add: changed_stay_def)
  next
    case (dropped e k)
    then have "md' = md \<or> (\<exists>t. get_stay md k = Some t \<and> md' = put_stay md (t \<lparr> ms_status := MsCancelled, ms_updated := now e \<rparr>))"
      by (auto simp: cancel_stay_def bindE_Inr_iff of_option_def split: if_splits option.splits)
    then show ?thesis using old dropped(1) stranded_put_stay [OF old, of k] by (auto simp: same_window_def)
  next
    case (reused e c k ev n)
    then show ?thesis using old by (auto elim!: claim_cases)
  next
    case (claimed e c k ev n payload)
    from claimed(2) obtain t where t: "get_stay md k = Some t" "n = next_try md" "previous_try md k = None"
      "md' = (put_stay md (claimed_stay e c ev t)) \<lparr> md_attempts := md_attempts md @ [new_try e c md t] \<rparr>"
      by (auto elim!: claim_cases)
    have "ma_id a \<noteq> n" using t(2) next_try_fresh [of md] get_try_in [OF a] by (metis imageI)
    moreover have "stranded a s (put_stay md (claimed_stay e c ev t)) ws"
      by (rule stranded_put_stay [OF old t(1)]) (simp_all add: claimed_stay_def same_window_def)
    ultimately show ?thesis
      using append_kept(2) [of "put_stay md (claimed_stay e c ev t)" "ma_id a" a] unfolding t(4) claimed(1) by (auto simp: stranded_def)
  next
    case (opened n e x y)
    have n: "n \<noteq> ma_id a" using opened(2) old by (auto simp: stranded_def)
    have ws: "stranded a s md ws'" using old notin_set_remove1 [of "ma_id a" ws n] by (simp add: stranded_def opened(1))
    show ?thesis
    proof (cases "get_try md n")
      case None
      then show ?thesis using opened(3) ws by (simp add: conclude_checkout_def)
    next
      case (Some b)
      have id: "ma_id b = n" using get_try_in [OF Some] by simp
      have mid: "stranded a s (put_try md b') ws'" if "ma_id b' = n" for b' by (rule stranded_put_try [OF ws]) (use that n in simp)
      have ids: "ma_id (opened_try e r b) = n" "ma_id (uncertain_try e g x b) = n" for r
        using id by (simp_all add: opened_try_def uncertain_try_def Let_def split: sum.split)
      show ?thesis
      proof (cases "checkout_answer g md n x")
        case (Inr r)
        then show ?thesis using opened(3) Some mid [OF ids(1) [of r]] by (auto simp: conclude_checkout_def)
      next
        case (Inl z)
        have "stranded a s (put_stay (put_try md (uncertain_try e g x b)) (t \<lparr> ms_status := MsReview \<rparr>)) ws'"
          if "get_stay (put_try md (uncertain_try e g x b)) (ma_stay b) = Some t" for t
          by (rule stranded_put_stay [OF mid [OF ids(2)] that]) (simp_all add: same_window_def)
        then show ?thesis using opened(3) Some Inl mid [OF ids(2)] by (auto simp: conclude_checkout_def Let_def split: option.splits)
      qed
    qed
  next
    case (crashed n)
    then show ?thesis using old notin_set_remove1 [of "ma_id a" ws n] by (simp add: stranded_def)
  next
    case (verified e answer n)
    obtain b where b: "get_try md n = Some b" and rest: "md' = md \<or> (\<exists>doc. ma_checkout b \<noteq> None \<and> record_verification e g md n doc = Inr md')"
      using verified(2) by (auto simp: verify_morning_payment_def bindE_Inr_iff of_option_def split: option.splits if_splits list.splits)
    from rest show ?thesis
    proof
      assume "\<exists>doc. ma_checkout b \<noteq> None \<and> record_verification e g md n doc = Inr md'"
      then obtain doc where doc: "ma_checkout b \<noteq> None" "record_verification e g md n doc = Inr md'" by blast
      have n: "n \<noteq> ma_id a" using doc(1) b a state(2) by auto
      obtain t where t: "get_stay md (ma_stay b) = Some t"
        and new: "md' = md \<or> (\<exists>md1 b'. save_try md (verified_try e g md b doc) = Inr (md1, b') \<and> md' = put_stay md1 (settled_stay e b' t))"
        using doc(2) b by (auto simp: record_verification_def bindE_Inr_iff of_option_def split: option.splits if_splits)
      from new show ?thesis
      proof
        assume "\<exists>md1 b'. save_try md (verified_try e g md b doc) = Inr (md1, b') \<and> md' = put_stay md1 (settled_stay e b' t)"
        then obtain md1 b' where save: "save_try md (verified_try e g md b doc) = Inr (md1, b')" and md': "md' = put_stay md1 (settled_stay e b' t)"
          by blast
        have b': "md1 = put_try md b'" "ma_id b' = n"
          using save_try_cases [OF save] get_try_in [OF b] by (simp_all add: verified_try_keeps)
        have mid: "stranded a s md1 ws" unfolding b'(1) by (rule stranded_put_try [OF old]) (use b'(2) n in simp)
        have t1: "get_stay md1 (ma_stay b) = Some t" using t by (simp add: b'(1))
        show ?thesis unfolding md' verified(1)
          by (rule stranded_put_stay [OF mid t1]) (simp_all add: settled_stay_def same_window_def)
      qed (use old verified(1) in simp)
    qed (use old verified(1) in simp)
  next
    case (elsewhere d us)
    then show ?thesis using old by (simp add: stranded_def get_try_def get_stay_def)
  qed
qed

text \<open>C35: when the process dies between the claim of a window and the gateway's answer, the attempt stays
  open and nothing the code can do ends it: in every later state the stay can be neither cancelled nor
  changed, and its window cannot be sold again.\<close>

theorem dead_checkout_blocks_window:
  assumes later: "(morning_step g)\<^sup>*\<^sup>* (md, ws) (md', ws')" and dead: "n \<notin> set ws" and a: "get_try md n = Some a"
    and state: "ma_status a = PaCreated" "ma_checkout a = None" and s: "get_stay md (ma_stay a) = Some s" and env: "ms_environment s = gs_environment g"
    and near: "ms_starts s < finish" "start - hours 3 < ms_ends s"
  shows "get_try md' n = Some a \<and> active_stays e g md' (ms_property s) start finish None \<noteq> []
    \<and> (\<exists>t. get_stay md' (ma_stay a) = Some t \<and> (ms_status t = MsCancelled \<or> cancel_stay e md' (ma_stay a) = Inl (ValueError ''morning_payment_unresolved''))
        \<and> commit_morning_change e g md' t c expected ev \<notin> range Inr)"
proof -
  have id: "ma_id a = n" using get_try_in [OF a] by simp
  have stay: "ma_stay a = ms_id s" using get_stay_in [OF s] by simp
  have un: "ma_status a \<in> set unresolved" by (simp add: state unresolved_def)
  have "stranded a s md ws" using a id dead s stay by (auto simp: stranded_def same_window_def)
  with later have final: "stranded a s md' ws'"
  proof (induction "(md', ws')" arbitrary: md' ws' rule: rtranclp_induct)
    case (step y)
    then show ?case using stranded_step [OF _ _ stay un state(2)] by (metis surj_pair)
  qed auto
  obtain t where t: "get_stay md' (ms_id s) = Some t" "same_window s t" using final by (auto simp: stranded_def)
  note busy = stranded_unresolved [OF final stay un]
  have tk: "ms_id t = ms_id s" "t \<in> set (md_stays md')" using get_stay_in [OF t(1)] by simp_all
  have "t \<in> set (active_stays e g md' (ms_property s) start finish None)"
    using tk t(2) near env busy by (simp add: active_stays_def occupying_def same_window_def)
  then have "active_stays e g md' (ms_property s) start finish None \<noteq> []" by auto
  moreover have "ms_status t = MsCancelled \<or> cancel_stay e md' (ms_id s) = Inl (ValueError ''morning_payment_unresolved'')"
    using t(1) busy by (simp add: cancel_stay_def of_option_def)
  moreover have "commit_morning_change e g md' t c expected ev \<notin> range Inr"
    using t(1) tk busy by (auto simp: commit_morning_change_def of_option_def)
  ultimately show ?thesis using final id stay t(1) by (auto simp: stranded_def)
qed

subsection \<open>A sample morning\<close>

text \<open>A guest's first card is refused, the second one pays; another stay of the morning follows.\<close>

definition morning_request_at :: "string \<Rightarrow> instant \<Rightarrow> instant \<Rightarrow> morning_request" where
  "morning_request_at key start finish = \<lparr> rq_key = key, rq_unit = sample_unit, rq_starts = Aware start, rq_ends = Aware finish,
     rq_guest = \<lparr> mg_name = ''Sara Ali'', mg_phone = ''+966500000000'', mg_email = ''guest@example.com'', mg_language = ''ar'' \<rparr>,
     rq_guests = 2, rq_amount = 300, rq_billing = [], rq_actor = 1 \<rparr>"

definition sample_input :: "string \<Rightarrow> checkout_input" where
  "sample_input merchant = \<lparr> ci_billing = [(''billing_street1'', ''King Road 1''), (''billing_city'', ''Riyadh''), (''billing_state'', ''Riyadh''),
       (''billing_postcode'', ''12345''), (''billing_country'', ''SA'')],
     ci_customer = None, ci_acceptance = [], ci_digest = ''d'', ci_merchant = merchant \<rparr>"

definition sample_evidence :: morning_evidence where
  "sample_evidence = \<lparr> ve_checked = 1000, ve_previous = 719162, ve_rows = 1 \<rparr>"

definition opened_answer :: "string \<Rightarrow> exchange" where
  "opened_answer key = Answer 200 (Some (PyDict [(''id'', PyStr key), (''integrity'', PyStr ''sha384-AbC0=''), (''result'', PyDict [(''code'', PyStr ''000.200.100'')])]))"

definition morning_document :: "string \<Rightarrow> string \<Rightarrow> string \<Rightarrow> (string \<times> pyval) list" where
  "morning_document merchant key code = [(''id'', PyStr key), (''currency'', PyStr ''SAR''), (''paymentType'', PyStr ''DB''),
     (''merchantTransactionId'', PyStr merchant), (''amount'', PyDecText 300), (''paymentBrand'', PyStr ''MADA''), (''result'', PyDict [(''code'', PyStr code)])]"

definition payment_answer :: "string \<Rightarrow> string \<Rightarrow> string \<Rightarrow> string \<Rightarrow> exchange" where
  "payment_answer merchant key code checkout = Answer 200 (Some (PyDict (morning_document merchant key code)))"

definition paying :: "string \<Rightarrow> string \<Rightarrow> string \<Rightarrow> string \<Rightarrow> nat \<Rightarrow> morning_db \<Rightarrow> (morning_db \<times> nat) res" where
  "paying merchant checkout key code k m =
     bindE (claim_checkout sample_env live_gateway (sample_input merchant) m k sample_evidence) (\<lambda>(m1, n, payload).
     case payload of
       None \<Rightarrow> Inl (ValueError ''reused'')
     | Some p \<Rightarrow>
         bindE (verify_morning_payment sample_env live_gateway (payment_answer merchant key code)
             (fst (conclude_checkout sample_env live_gateway m1 n (opened_answer checkout))) n) (\<lambda>m2. Inr (m2, n)))"

definition booked :: "(morning_db \<times> nat) res" where
  "booked = commit_create sample_env live_gateway empty_morning (morning_request_at ''r1'' (hours 1) (hours 4)) (hours 1) (hours 4) sample_evidence"

definition card_refused :: "(morning_db \<times> nat) res" where
  "card_refused = bindE booked (\<lambda>(m, k). paying ''m1'' ''checkout-1'' ''p1'' ''800.100.152'' k m)"

definition paid_later :: "(morning_db \<times> nat) res" where
  "paid_later = bindE card_refused (\<lambda>(m, n). paying ''m2'' ''checkout-2'' ''p2'' ''000.000.000'' 1 m)"

definition next_guest :: "(morning_db \<times> nat) res" where
  "next_guest = bindE paid_later (\<lambda>(m, n). bindE (commit_create sample_env live_gateway m (morning_request_at ''r2'' (hours 8) (hours 12)) (hours 8) (hours 12) sample_evidence)
     (\<lambda>(m1, k). paying ''m3'' ''checkout-3'' ''p3'' ''000.200.100'' k m1))"

lemma paying_reach:
  assumes "paying merchant checkout key code k m = Inr (m', n)"
  shows "(morning_step live_gateway)\<^sup>*\<^sup>* (m, ws) (m', ws)"
proof -
  obtain m1 payload where claim: "claim_checkout sample_env live_gateway (sample_input merchant) m k sample_evidence = Inr (m1, n, Some payload)"
    and check: "verify_morning_payment sample_env live_gateway (payment_answer merchant key code)
        (fst (conclude_checkout sample_env live_gateway m1 n (opened_answer checkout))) n = Inr m'"
    using assms by (auto simp: paying_def bindE_Inr_iff split: option.splits)
  have "morning_step live_gateway (m, ws) (m1, n # ws)" by (rule claimed [OF claim])
  moreover have "morning_step live_gateway (m1, n # ws) (fst (conclude_checkout sample_env live_gateway m1 n (opened_answer checkout)), remove1 n (n # ws))"
    by (rule opened [OF _ surjective_pairing]) simp
  moreover have "morning_step live_gateway (fst (conclude_checkout sample_env live_gateway m1 n (opened_answer checkout)), ws) (m', ws)"
    by (rule verified [OF check])
  ultimately show ?thesis by simp
qed

lemma booked_reach: "booked = Inr (m, k) \<Longrightarrow> (morning_step live_gateway)\<^sup>*\<^sup>* (empty_morning, []) (m, [])"
  unfolding booked_def by (rule r_into_rtranclp, rule created)

lemma paid_later_reach:
  assumes "paid_later = Inr (m, n)"
  shows "(morning_step live_gateway)\<^sup>*\<^sup>* (empty_morning, []) (m, [])"
proof -
  obtain m1 k m2 n2 where steps: "booked = Inr (m1, k)" "paying ''m1'' ''checkout-1'' ''p1'' ''800.100.152'' k m1 = Inr (m2, n2)"
    "paying ''m2'' ''checkout-2'' ''p2'' ''000.000.000'' 1 m2 = Inr (m, n)"
    using assms unfolding paid_later_def card_refused_def by (auto simp: bindE_Inr_iff)
  show ?thesis
    by (rule rtranclp_trans [OF booked_reach [OF steps(1)] rtranclp_trans [OF paying_reach [OF steps(2)] paying_reach [OF steps(3)]]])
qed

lemma next_guest_reach:
  assumes "next_guest = Inr (m, n)"
  shows "(morning_step live_gateway)\<^sup>*\<^sup>* (empty_morning, []) (m, [])"
proof -
  obtain m1 n1 m2 k where steps: "paid_later = Inr (m1, n1)"
    "commit_create sample_env live_gateway m1 (morning_request_at ''r2'' (hours 8) (hours 12)) (hours 8) (hours 12) sample_evidence = Inr (m2, k)"
    "paying ''m3'' ''checkout-3'' ''p3'' ''000.200.100'' k m2 = Inr (m, n)"
    using assms unfolding next_guest_def by (auto simp: bindE_Inr_iff)
  have "(morning_step live_gateway)\<^sup>*\<^sup>* (m1, []) (m2, [])" by (rule r_into_rtranclp, rule created [OF steps(2)])
  then show ?thesis by (rule rtranclp_trans [OF paid_later_reach [OF steps(1)] rtranclp_trans [OF _ paying_reach [OF steps(3)]]])
qed

lemma paid_later_facts:
  "case paid_later of Inl x \<Rightarrow> False | Inr (m, n) \<Rightarrow>
     (case (get_stay m 1, get_try m 1, get_try m 2) of
        (Some s, Some a, Some b) \<Rightarrow> ms_status s = MsPaid \<and> ms_environment s = gs_environment live_gateway \<and> ms_expires s \<le> hours 5
          \<and> ma_stay a = 1 \<and> ma_status a = PaFailed \<and> ma_checkout a = Some ''checkout-1''
          \<and> morning_mismatch live_gateway a (morning_document ''m1'' ''p1'' ''800.100.152'') = [] \<and> \<not> has_unresolved m 1
          \<and> ma_stay b = 1 \<and> ma_status b = PaSucceeded \<and> ma_id b = 2
      | _ \<Rightarrow> False)"
  by code_simp

lemma next_guest_facts:
  "case next_guest of Inl x \<Rightarrow> False | Inr (m, n) \<Rightarrow>
     (case (get_stay m 1, get_stay m 2) of
        (Some s, Some t) \<Rightarrow> ms_property s = ms_property t \<and> ms_environment s = gs_environment live_gateway
          \<and> ms_environment t = gs_environment live_gateway \<and> ms_status s = MsPaid \<and> ms_status t = MsProcessing
      | _ \<Rightarrow> False)"
  by code_simp

subsection \<open>Witnesses\<close>

lemma succeeds:
  assumes "case r of Inl x \<Rightarrow> False | Inr (m, y) \<Rightarrow> P m y"
  obtains m y where "r = Inr (m, y)"
  using assms by (cases r) auto

lemma paid_later_run:
  obtains m s a b where "(morning_step live_gateway)\<^sup>*\<^sup>* (empty_morning, []) (m, [])" "get_stay m 1 = Some s" "get_try m 1 = Some a" "get_try m 2 = Some b"
    "ms_status s = MsPaid" "ms_environment s = gs_environment live_gateway" "ms_expires s \<le> hours 5" "ma_stay a = 1" "ma_status a = PaFailed"
    "ma_checkout a = Some ''checkout-1''" "morning_mismatch live_gateway a (morning_document ''m1'' ''p1'' ''800.100.152'') = []"
    "\<not> has_unresolved m 1" "ma_stay b = 1" "ma_status b = PaSucceeded" "ma_id b = 2"
proof -
  obtain m n where run: "paid_later = Inr (m, n)" by (rule succeeds [OF paid_later_facts])
  note facts = paid_later_facts [unfolded run, simplified]
  obtain s a b where "get_stay m 1 = Some s" "get_try m 1 = Some a" "get_try m 2 = Some b" using facts by (auto split: option.splits)
  then show thesis using that [OF paid_later_reach [OF run]] facts by simp
qed

lemma live_answer: "client_request live_gateway (payment_answer merchant key code checkout) = Inr (morning_document merchant key code)"
  by (simp add: client_request_def client_ready_def live_gateway_def sample_gateway_def payment_answer_def request_def)

lemma empty_rows: "md_stays empty_morning = []" "md_attempts empty_morning = []"
  by (simp_all add: empty_morning_def)


theorem morning_paid_once_witness:
  "\<exists>m b. (morning_step live_gateway)\<^sup>*\<^sup>* (empty_morning, []) (m, []) \<and> b \<in> set (md_attempts m) \<and> ma_status b = PaSucceeded
     \<and> (\<exists>s \<in> set (md_stays m). ms_id s = ma_stay b \<and> ma_amount b = ms_amount s)"
proof -
  obtain m s a b where run: "(morning_step live_gateway)\<^sup>*\<^sup>* (empty_morning, []) (m, [])" and b: "get_try m 2 = Some b" "ma_status b = PaSucceeded"
    by (rule paid_later_run)
  have "b \<in> set (md_attempts m)" using get_try_in [OF b(1)] by simp
  then show ?thesis using run b(2) morning_paid_once [OF run empty_rows] by blast
qed

theorem old_failure_reopens_paid_stay_witness:
  "\<exists>m md' s'. (morning_step live_gateway)\<^sup>*\<^sup>* (empty_morning, []) (m, [])
     \<and> verify_morning_payment sample_env live_gateway (payment_answer ''m1'' ''p1'' ''800.100.152'') m 1 = Inr md'
     \<and> get_stay md' 1 = Some s' \<and> ms_status s' = MsOpen
     \<and> s' \<notin> set (active_stays (sample_env \<lparr> now := hours 5 \<rparr>) live_gateway md' 1 (hours 1) (hours 7) None)"
proof -
  obtain m s a b where run: "(morning_step live_gateway)\<^sup>*\<^sup>* (empty_morning, []) (m, [])" and s: "get_stay m 1 = Some s" and a: "get_try m 1 = Some a"
    and st: "ms_status s = MsPaid" "ms_environment s = gs_environment live_gateway" "ms_expires s \<le> hours 5" "ma_stay a = 1" "ma_status a = PaFailed"
      "ma_checkout a = Some ''checkout-1''" "morning_mismatch live_gateway a (morning_document ''m1'' ''p1'' ''800.100.152'') = []" "\<not> has_unresolved m 1"
    by (rule paid_later_run)
  have code: "map_result_code (result_of (morning_document ''m1'' ''p1'' ''800.100.152'') ''code'') = GwFailed" by code_simp
  have late: "ms_expires s \<le> now (sample_env \<lparr> now := hours 5 \<rparr>)" using st(3) by simp
  show ?thesis
    using run old_failure_reopens_paid_stay [where answer = "payment_answer ''m1'' ''p1'' ''800.100.152''" and e = sample_env and unit = 1
        and start = "hours 1" and finish = "hours 7" and excluded = None, OF s st(1,2) a st(4,5,6) live_answer st(7) code st(8) late]
    by blast
qed

theorem second_collection_unrecorded_witness:
  "\<exists>m. (morning_step live_gateway)\<^sup>*\<^sup>* (empty_morning, []) (m, [])
     \<and> verify_morning_payment sample_env live_gateway (payment_answer ''m1'' ''p1'' ''000.000.000'') m 1
       = Inl (IntegrityError ''one_unresolved_morning_payment'')"
proof -
  obtain m s a b where run: "(morning_step live_gateway)\<^sup>*\<^sup>* (empty_morning, []) (m, [])" and s: "get_stay m 1 = Some s" and a: "get_try m 1 = Some a"
    and b: "get_try m 2 = Some b" "ma_stay b = 1" "ma_status b = PaSucceeded" "ma_id b = 2"
    and st: "ms_environment s = gs_environment live_gateway" "ma_stay a = 1" "ma_status a = PaFailed" "ma_checkout a = Some ''checkout-1''"
    by (rule paid_later_run)
  have code: "map_result_code (result_of (morning_document ''m1'' ''p1'' ''000.000.000'') ''code'') = GwSuccess" by code_simp
  have "b \<in> set (md_attempts m)" using get_try_in [OF b(1)] by simp
  then show ?thesis
    using run second_collection_unrecorded [where answer = "payment_answer ''m1'' ''p1'' ''000.000.000''", OF s st(1) a st(2-4) live_answer code _ b(2)] b(3,4) by auto
qed

definition claiming :: "(morning_db \<times> nat \<times> (string \<times> pyval) list option) res" where
  "claiming = bindE booked (\<lambda>(m, k). claim_checkout sample_env live_gateway (sample_input ''m1'') m k sample_evidence)"

lemma claiming_facts:
  "case claiming of Inl x \<Rightarrow> False | Inr (m, n, payload) \<Rightarrow> n = 1 \<and>
     (case (get_stay m 1, get_try m 1) of
        (Some s, Some a) \<Rightarrow> ma_stay a = 1 \<and> ma_status a = PaCreated \<and> ma_checkout a = None \<and> ms_environment s = gs_environment live_gateway
          \<and> ms_starts s = hours 1 \<and> ms_ends s = hours 4 \<and> ms_property s = 1
      | _ \<Rightarrow> False)"
  by code_simp

theorem dead_checkout_blocks_window_witness:
  "\<exists>m a. claiming = Inr m \<and> get_try (fst m) 1 = Some a \<and> ma_status a = PaCreated
     \<and> active_stays sample_env live_gateway (fst m) 1 (hours 2) (hours 6) None \<noteq> []"
proof -
  obtain m y where "claiming = Inr (m, y)" by (rule succeeds [OF claiming_facts])
  then obtain n payload where run: "claiming = Inr (m, n, payload)" by (cases y) simp
  note facts = claiming_facts [unfolded run, simplified]
  obtain s a where s: "get_stay m 1 = Some s" and a: "get_try m 1 = Some a" using facts by (auto split: option.splits)
  have known: "ma_stay a = 1" "ma_status a = PaCreated" "ma_checkout a = None" "ms_environment s = gs_environment live_gateway"
    "ms_starts s = hours 1" "ms_ends s = hours 4" "ms_property s = 1"
    using facts s a by simp_all
  have s': "get_stay m (ma_stay a) = Some s" using s known(1) by simp
  have near: "ms_starts s < hours 6" "hours 2 - hours 3 < ms_ends s" using known by (simp_all add: hours_def)
  have "active_stays sample_env live_gateway m (ms_property s) (hours 2) (hours 6) None \<noteq> []"
    using dead_checkout_blocks_window [where ws = "[]" and e = sample_env, OF rtranclp.rtrancl_refl _ a known(2,3) s' known(4) near] by simp
  then show ?thesis using run a known(2,7) by (intro exI [of _ "(m, n, payload)"] exI [of _ a]) simp
qed

end
