(* ===== verification/Spec2Isabelle.thy ===== *)
theory Spec2Isabelle
  imports Membership Webhooks Receipts MorningLife
begin

text \<open>
  Verification development of Luxury Smart Apartments, a Django application that lets serviced
  apartments to guests: it checks a stay with the channel manager, turns the offer into a signed
  quote and a booking intent, takes the payment, writes the reservation to the channel manager and
  keeps it through arrival, departure,
  change and cancellation, and runs a loyalty programme whose points are an accounting ledger.

  \<^bold>\<open>The parts of the program and how they interact.\<close> The booking side
  (\<open>src/apps/reservations\<close>, \<open>src/apps/integrations/hostaway\<close>, \<open>src/apps/payments\<close>) decides
  availability and price, converts currencies, records money and computes what is given back. The
  loyalty side (\<open>src/apps/loyalty\<close>) reads the booking side's rows, never the other way round: it
  derives verified facts about a stay (\<open>site_adapter.booking_facts\<close>), computes a reward plan
  (\<open>calculation.reward_plan\<close>) and posts the difference to what the ledger already awards
  (\<open>accrual.reconcile\<close>); points are held and redeemed as part of a payment
  (\<open>checkout.py\<close>, \<open>services.py\<close>), and given back with a cancellation (\<open>settlements.py\<close>).

  \<^bold>\<open>The theories\<close>, in the order of their dependencies.

    \<^item> \<open>Prelude\<close>: exceptions as the left side of a sum with \<open>bindE\<close> and \<open>mapE\<close>, the tables of the
      models as keyed lists of rows (locale \<open>keyed_table\<close>), shared list lemmas and the lemma
      collections. \<open>PyDecimal\<close>: the 28-digit decimal context and the rounding modes (locales
      \<open>rounding_mode\<close>, \<open>nearest_mode\<close>). \<open>PyTime\<close>: dates, instants, ISO texts and local clocks.
      \<open>PyValue\<close>: dynamically typed values (parsed JSON, loosely typed arguments).
    \<^item> \<open>Calculation\<close>: \<open>loyalty/calculation.py\<close>, the arithmetic in halalas: \<open>cents\<close>, \<open>amount\<close>,
      \<open>reward_plan\<close>, \<open>refund_split\<close>, \<open>departure_refund\<close>.
    \<^item> \<open>Currency\<close>: \<open>payments/currency.py\<close>: amounts, rate documents, the cache of rates with its
      lock and its last known good copy (locale \<open>cache_backend\<close>), conversion, FX quotes.
    \<^item> \<open>LoyaltyState\<close>: the rows (\<open>loyalty/models.py\<close> and the fields of the reservation, intent,
      payment, account and audit rows that are read or written) and the settings \<open>env\<close>.
      \<open>Launch\<close>: \<open>launch.py\<close>. \<open>SiteFacts\<close>: \<open>valuation.py\<close>, \<open>site_adapter.booking_facts\<close>,
      \<open>events.py\<close>. \<open>Referrals\<close>: \<open>referrals.py\<close>, the invitation tree.
    \<^item> \<open>Ledger\<close>: \<open>services.py\<close>: posting, receipts of commands, transfer, hold, release, redeem,
      restore, statement, withdrawal. \<open>Accounts\<close>: these commands as the step relation
      \<open>command_step\<close> with its invariant. \<open>Reconcile\<close>: \<open>accrual.py\<close> and
      \<open>accounts/identity.attach_paid_phone_account\<close>. \<open>Checkout\<close>: \<open>checkout.py\<close>,
      \<open>payment_summary.py\<close>, the guarded reconciliation of \<open>site_adapter.py\<close>.
    \<^item> \<open>Membership\<close>: enrolment, arrival, invitations, past-stay offers and the periodic sweep
      (definitions only).
    \<^item> \<open>Stay\<close>: \<open>stay.py\<close>, the plan and the recording of a departure. \<open>Settlements\<close>:
      \<open>settlements.py\<close> and \<open>payments/manual_references.py\<close>. \<open>Refunds\<close>:
      \<open>reservations/services/refunds.py\<close>, \<open>host_policy.py\<close> and the recording of refund plans.
    \<^item> \<open>Calendar\<close>: \<open>hostaway/availability_validators.py\<close>. \<open>Availability\<close>:
      \<open>reservations/services/availability.py\<close>. \<open>Quotes\<close>: \<open>reservations/services/booking.py\<close>,
      \<open>signing.py\<close>, \<open>BookingQuote.clean\<close> and \<open>settlements.priced_nights\<close>, with quotes and intents
      as the step relation \<open>shop_step\<close>.
    \<^item> \<open>Gateway\<close>: \<open>payments/hyperpay/client.py\<close>, \<open>result_codes.py\<close> and the amounts of \<open>service.py\<close>.
      \<open>GatewayRefunds\<close>: \<open>payments/hyperpay/refunds.py\<close>, with recorded debts and submitted refunds as the
      step relation \<open>refund_step\<close>. \<open>GatewayPayments\<close>: \<open>payments/hyperpay/service.py\<close>, the opening of a
      checkout, the reading of its payment and the completion of the booking.
    \<^item> \<open>Remote\<close>: \<open>hostaway/reservation_validators.py\<close> and \<open>services/reservation_payloads.py\<close>.
      \<open>ChannelClient\<close>: \<open>hostaway/client.py\<close> and \<open>token_provider.py\<close> over a server that answers each
      call (a state monad with the calls made). \<open>Channel\<close>: \<open>services/hostaway_booking.py\<close>; the calls of
      several processes, their answers and their deaths are the step relation \<open>channel_step\<close>.
    \<^item> \<open>ChangeRules\<close>: \<open>services/stay_lifecycle.py\<close>, \<open>owner_settlement.py\<close>. \<open>Changes\<close>:
      \<open>services/modifications.py\<close>, offers of changes and their saving. \<open>ChangeWrites\<close>:
      \<open>services/hostaway_modifications.py\<close> with the step relation \<open>change_step\<close>. \<open>AutoChanges\<close>:
      \<open>services/automatic_modifications.py\<close>, the whole way from the approval to the refund.
    \<^item> \<open>Webhooks\<close>: \<open>hostaway/webhook_processor.py\<close>, \<open>website_reservations.py\<close> and
      \<open>services/expiration.py\<close>: news of the channel manager and expiry, which \<open>life_step\<close> adds to
      the steps of \<open>change_step\<close>. \<open>Receipts\<close>: \<open>payments/hostaway_ledger.py\<close>, verified payments
      written down at the channel manager, with the step relation \<open>receipt_step\<close>.
    \<^item> \<open>Morning\<close>: \<open>morning_stays.py\<close> and \<open>morning07_changes.py\<close>, stays of a few hours.
      \<open>MorningPayments\<close>: \<open>payments/morning_payments.py\<close> and \<open>morning_validation.py\<close>.
      \<open>MorningLife\<close>: both as the step relation \<open>morning_step\<close> with its invariant.

  \<^bold>\<open>What the lemmas show.\<close> Arithmetic: a reward plan distributes exactly its budget, a refund split
  and a departure plan conserve the contract value, conversions stay within their rounding.
  Ledger: under every sequence of commands the ledger is well formed, held points are covered by
  the balance and restorations by redemptions; commands are idempotent; transfers conserve the
  programme's total. Rewards: a settlement brings every award exactly to the plan and a second one
  changes nothing; the base never exceeds the verified cash; the guarded reconciliation always
  returns. Tree: links keep it a forest with consistent depths and numbers. Refunds: debts add up to
  the plan and stay within their receipts. Availability: the calendar check equals its
  specification \<open>stay_allowed\<close>, the search finds the earliest allowed start, an available answer is
  backed by a price. Quotes: every reachable state is coherent, an intent needs a live, authentic
  and revalidated quote and is made once, and the captured night prices are accepted at departure.
  Payments: a checkout is over exactly the cash due of a payable intent, success needs a matching
  document, refunds of a payment never exceed it. Channel manager: over every interleaving a
  reservation and a change are written at most once, a confirmation and a completion rest on the
  answer to the call itself, a dearer change on a payment of its exact amount; the same holds with
  expiry and with news in any order. Receipts: one post for a payment, resting on a verified collection.
  Morning stays: paid windows of a unit stay three hours apart, a stay is collected once. Some theorems show where
  the code does less than it says: a payment that arrives after its intent expired, an accepted write
  recorded as rejected, a refunded payment read as paid again, a full return that is not full, a
  cancellation completed by news without its debt, an uncertain write forgotten by the expiry, a paid
  morning opened again by an older refusal, a second collection that cannot be recorded.

  \<^bold>\<open>How the model is read.\<close> A transaction that fails has no new state, since it is rolled back; an
  operation that commits before it calls another system and then fails returns the state it left
  together with the error. The two transactions around such a call are separate definitions, so that the
  step relations can put other calls, lost answers and dead processes between them. Rows are lists in the order the code reads them; row
  locks and unique constraints are the serial execution of the commands. Datetimes are instants
  in microseconds (or naive clock readings, where the code tells them apart) and a text of an
  instant is the instant. A \<open>Decimal\<close> is a rational together with the context rounding of each
  operation, and its text is the rational. Dates are proleptic ordinals. Text is 8-bit; the Arabic
  cleaning markers are their UTF-8 bytes. The messages of exceptions are short codes.

  \<^bold>\<open>Bounds and fuel.\<close> Walks up the tree carry the visited members and end at a repetition, so they
  need no fuel; the waiting of the rate service is a list of polls, one per turn of its loop, with
  the deadline checked as in the code; the scan of a calendar has one unit of fuel for every
  possible start of its window (\<open>scan_days - stay_nights + 1\<close>), which is the exact number of turns
  of the loop. All other functions recurse over their data.

  \<^bold>\<open>Parameters\<close> (code that is not in the repository, or whose value is opaque): digests and HMACs,
  the token generator, the phone library, the outcome of the HTTP rate request, the channel
  manager's client, the check of a signed past-stay offer, the URL of the issued terms, the
  conflict query of the morning stays where bookings ask it (its definition is in \<open>Morning\<close>), the validation of a guest's contact fields, the answers of the
  card gateway and of the channel manager, the Unicode decomposition, the completion of payments that
  belong to payment links. The caches of the availability service are bypassed by the changes.

  \<^bold>\<open>Not modelled\<close>: HTTP views, forms, templates, admin and operations screens; notifications and
  message delivery (mail, WhatsApp) and their queues; login and one-time codes; payment links and their
  revisions; manual bookings; the receiver of webhooks and the sanitizing of their payloads; the
  copying of listings, reviews and prices; settings, migrations and scripts. Measured durations, logs
  and message texts are left out of the modelled functions.
\<close>

end
